(* ===== verification/DG_Prelude.thy ===== *)
theory DG_Prelude
  imports
    Main
    "HOL-Library.Sublist"
    "HOL-Library.List_Lexorder"
    "HOL-Library.Char_ord"
    "HOL-Library.Multiset"
begin

text \<open>
  Shared vocabulary of the development: what the TypeScript sources use of the JavaScript
  runtime (string operations, insertion-ordered sets, the stable \<open>Array.prototype.sort\<close>),
  the effect types of asynchronous services (a trace of port calls with a result that may be
  a thrown error), a generic interface of guarded transition tables, and the lemma
  collections the component theories extend.

  Conventions.  A JavaScript string is a \<^typ>\<open>string\<close>; each character stands for one UTF-16
  code unit below 256.  An optional field \<open>x?: T | undefined\<close> is a \<open>T option\<close>.  A
  \<open>number\<close> that the sources only use as an integer (milliseconds, versions, counters) is an
  \<^typ>\<open>int\<close> or a \<^typ>\<open>nat\<close>.  A thrown error is an \<open>Inl\<close>.  In message texts the two
  non-ASCII marks of the sources are written in ASCII: the em dash as \<open>--\<close>, and the
  ellipsis (one code unit) as the single character \<open>~\<close>.
\<close>

named_theorems effect_simps \<open>unfolding rules for the decision pipeline\<close>
named_theorems fsm_simps \<open>unfolding rules for the transition tables\<close>
named_theorems gate_simps \<open>unfolding rules for guards and gates\<close>

section \<open>JavaScript strings\<close>

definition js_lower_char :: "char \<Rightarrow> char" where
  "js_lower_char c =
     (let n = (of_char c :: nat)
      in if (65 \<le> n \<and> n \<le> 90) \<or> (192 \<le> n \<and> n \<le> 222 \<and> n \<noteq> 215) then char_of (n + 32) else c)"

definition js_lower :: "string \<Rightarrow> string" where
  "js_lower s = map js_lower_char s"

text \<open>\<open>toUpperCase\<close>, used on ASCII identifiers only.\<close>

definition js_upper_char :: "char \<Rightarrow> char" where
  "js_upper_char c =
     (let n = (of_char c :: nat) in if 97 \<le> n \<and> n \<le> 122 then char_of (n - 32) else c)"

definition js_upper :: "string \<Rightarrow> string" where
  "js_upper s = map js_upper_char s"

definition js_digit :: "char \<Rightarrow> bool" where
  "js_digit c = (let n = (of_char c :: nat) in 48 \<le> n \<and> n \<le> 57)"

definition lower_letter :: "char \<Rightarrow> bool" where
  "lower_letter c = (let n = (of_char c :: nat) in 97 \<le> n \<and> n \<le> 122)"

definition upper_letter :: "char \<Rightarrow> bool" where
  "upper_letter c = (let n = (of_char c :: nat) in 65 \<le> n \<and> n \<le> 90)"

definition alphanumeric :: "char \<Rightarrow> bool" where
  "alphanumeric c \<longleftrightarrow> lower_letter c \<or> upper_letter c \<or> js_digit c"

text \<open>\<open>[0-9a-f]\<close>\<close>

definition hex_lower :: "char \<Rightarrow> bool" where
  "hex_lower c = (let n = (of_char c :: nat) in (48 \<le> n \<and> n \<le> 57) \<or> (97 \<le> n \<and> n \<le> 102))"

text \<open>\<open>z.string().min(1).max(n)\<close>\<close>

definition within :: "nat \<Rightarrow> string \<Rightarrow> bool" where
  "within n s \<longleftrightarrow> 1 \<le> length s \<and> length s \<le> n"

text \<open>The same on the bits of a character, which evaluation uses.\<close>

lemma lower_letter_code [code]:
  "lower_letter (Char b0 b1 b2 b3 b4 b5 b6 b7) \<longleftrightarrow>
     \<not> b7 \<and> b6 \<and> b5 \<and> (b4 \<or> b3 \<or> b2 \<or> b1 \<or> b0) \<and> \<not> (b4 \<and> b3 \<and> (b2 \<or> b1 \<and> b0))"
  by (cases b0; cases b1; cases b2; cases b3; cases b4; cases b5; cases b6; cases b7) (simp_all add: lower_letter_def)

lemma upper_letter_code [code]:
  "upper_letter (Char b0 b1 b2 b3 b4 b5 b6 b7) \<longleftrightarrow>
     \<not> b7 \<and> b6 \<and> \<not> b5 \<and> (b0 \<or> b1 \<or> b2 \<or> b3 \<or> b4) \<and> (\<not> b4 \<or> \<not> b3 \<or> \<not> b2 \<and> (\<not> b1 \<or> \<not> b0))"
  by (cases b0; cases b1; cases b2; cases b3; cases b4; cases b5; cases b6; cases b7) (simp_all add: upper_letter_def)

lemma hex_lower_code [code]:
  "hex_lower (Char b0 b1 b2 b3 b4 b5 b6 b7) \<longleftrightarrow>
     \<not> b7 \<and> b5 \<and> (if b6 then \<not> b4 \<and> \<not> b3 \<and> (b0 \<or> b1 \<or> b2) \<and> \<not> (b0 \<and> b1 \<and> b2) else b4 \<and> (\<not> b3 \<or> \<not> b2 \<and> \<not> b1))"
  by (cases b0; cases b1; cases b2; cases b3; cases b4; cases b5; cases b6; cases b7) (simp_all add: hex_lower_def)

lemma js_digit_code [code]:
  "js_digit (Char b0 b1 b2 b3 b4 b5 b6 b7) \<longleftrightarrow> \<not> b7 \<and> \<not> b6 \<and> b5 \<and> b4 \<and> (\<not> b3 \<or> \<not> b2 \<and> \<not> b1)"
  by (cases b0; cases b1; cases b2; cases b3; cases b4; cases b5; cases b6; cases b7) (simp_all add: js_digit_def)

text \<open>\<open>haystack.includes(needle)\<close> and \<open>s.startsWith(p)\<close>.\<close>

fun js_includes :: "string \<Rightarrow> string \<Rightarrow> bool" where
  "js_includes [] needle = (needle = [])"
| "js_includes (c # cs) needle = (prefix needle (c # cs) \<or> js_includes cs needle)"

definition js_startsWith :: "string \<Rightarrow> string \<Rightarrow> bool" where
  "js_startsWith s p = prefix p s"

text \<open>\<open>s.split(c)\<close> for a one-character separator, and \<open>xs.join(sep)\<close>.\<close>

fun js_split :: "char \<Rightarrow> string \<Rightarrow> string list" where
  "js_split d [] = [[]]"
| "js_split d (c # cs) =
     (if c = d then [] # js_split d cs
      else (case js_split d cs of [] \<Rightarrow> [[c]] | w # ws \<Rightarrow> (c # w) # ws))"

fun js_join :: "string \<Rightarrow> string list \<Rightarrow> string" where
  "js_join sep [] = []"
| "js_join sep [x] = x"
| "js_join sep (x # y # xs) = x @ sep @ js_join sep (y # xs)"

text \<open>Decimal form of a natural number, as template literals print it.\<close>

fun js_nat_str :: "nat \<Rightarrow> string" where
  "js_nat_str n =
     (if n < 10 then [char_of (48 + n)] else js_nat_str (n div 10) @ [char_of (48 + n mod 10)])"

declare js_nat_str.simps [simp del]

definition js_int_str :: "int \<Rightarrow> string" where
  "js_int_str i = (if i < 0 then ''-'' @ js_nat_str (nat (- i)) else js_nat_str (nat i))"

text \<open>White space as \<open>\s\<close> and \<open>trim\<close> see it, and the maximal runs of other characters (\<open>/\S+/g\<close>).\<close>

definition js_space :: "char \<Rightarrow> bool" where
  "js_space c = ((of_char c :: nat) \<in> {9, 10, 11, 12, 13, 32, 160})"

lemma js_space_code [code]:
  "js_space (Char b0 b1 b2 b3 b4 b5 b6 b7) \<longleftrightarrow> \<not> b6 \<and> \<not> b4 \<and>
     (if b5 then \<not> b3 \<and> \<not> b2 \<and> \<not> b1 \<and> \<not> b0
      else \<not> b7 \<and> b3 \<and> (if b2 then \<not> b1 else b0 \<or> b1))"
  by (cases b0; cases b1; cases b2; cases b3; cases b4; cases b5; cases b6; cases b7) (simp_all add: js_space_def)

definition js_trim :: "string \<Rightarrow> string" where
  "js_trim s = rev (dropWhile js_space (rev (dropWhile js_space s)))"

lemma length_dropWhile_Suc [termination_simp]: "length (dropWhile P xs) < Suc (length xs)"
  by (simp add: length_dropWhile_le le_imp_less_Suc)

fun js_words :: "string \<Rightarrow> string list" where
  "js_words [] = []"
| "js_words (c # cs) =
     (if js_space c then js_words cs
      else (c # takeWhile (\<lambda>d. \<not> js_space d) cs) # js_words (dropWhile (\<lambda>d. \<not> js_space d) cs))"

text \<open>\<open>/^\d+$/\<close>\<close>

definition all_digits :: "string \<Rightarrow> bool" where
  "all_digits s \<longleftrightarrow> s \<noteq> [] \<and> list_all js_digit s"

text \<open>
  The names every plain object inherits: looking one of them up in an object used as a dictionary
  finds a function or the prototype.
\<close>

definition OBJECT_PROTOTYPE_NAMES :: "string list" where
  "OBJECT_PROTOTYPE_NAMES =
     [''constructor'', ''hasOwnProperty'', ''isPrototypeOf'', ''propertyIsEnumerable'', ''toLocaleString'', ''toString'',
      ''valueOf'', ''__proto__'', ''__defineGetter__'', ''__defineSetter__'', ''__lookupGetter__'', ''__lookupSetter__'']"

text \<open>A value between single quotes, as the message templates print it.\<close>

definition quoted :: "string \<Rightarrow> string" where
  "quoted s = [CHR 0x27] @ s @ [CHR 0x27]"

text \<open>Rows updated in place keep a field that the update does not touch.\<close>

lemma map_if_key: "(\<And>x. g (f x) = g x) \<Longrightarrow> map g (map (\<lambda>x. if c x then f x else x) xs) = map g xs"
  by simp

lemma js_split_nonempty [simp]: "js_split d s \<noteq> []"
  by (induction s) (auto split: list.splits)

lemma js_includes_sublist: "js_includes s p \<longleftrightarrow> sublist p s"
proof (induction s)
  case Nil
  then show ?case by auto
next
  case (Cons c cs)
  then show ?case by (simp add: sublist_Cons_right)
qed

lemma js_includes_self_append: "js_includes (a @ p @ b) p"
  by (simp add: js_includes_sublist)

section \<open>JSON values\<close>

text \<open>
  The values the sources serialise and digest.  An object lists its members in the order
  \<open>Object.entries\<close> gives them; \<open>undefined\<close> inside an array serialises as \<open>null\<close>.
\<close>

datatype json =
    JNull
  | JBool bool
  | JNum int
  | JStr string
  | JArr "json list"
  | JObj "(string \<times> json) list"

definition json_opt :: "('a \<Rightarrow> json) \<Rightarrow> 'a option \<Rightarrow> json" where
  "json_opt f x = (case x of None \<Rightarrow> JNull | Some a \<Rightarrow> f a)"

lemma json_opt_JBool_eq [simp]: "json_opt JBool x = json_opt JBool y \<longleftrightarrow> x = y"
  by (auto simp: json_opt_def split: option.splits)

lemma json_opt_JStr_eq [simp]: "json_opt JStr x = json_opt JStr y \<longleftrightarrow> x = y"
  by (auto simp: json_opt_def split: option.splits)

section \<open>Insertion-ordered sets and the stable sort\<close>

text \<open>\<open>[...new Set(xs)]\<close>: the first occurrence of every value, in order.\<close>

fun js_nub :: "'a list \<Rightarrow> 'a list" where
  "js_nub [] = []"
| "js_nub (x # xs) = x # filter (\<lambda>y. y \<noteq> x) (js_nub xs)"

lemma set_js_nub [simp]: "set (js_nub xs) = set xs"
  by (induction xs) auto

lemma distinct_js_nub [simp]: "distinct (js_nub xs)"
  by (induction xs) (auto intro: distinct_filter)

lemma js_nub_eq_Nil [simp]: "js_nub xs = [] \<longleftrightarrow> xs = []"
  by (cases xs) auto

lemma js_nub_distinct: "distinct xs \<Longrightarrow> js_nub xs = xs"
  by (induction xs) (auto simp: filter_id_conv)

text \<open>
  \<open>xs.sort(cmp)\<close> is stable: an element keeps its place before a later one that compares
  equal.  The comparator returns a negative, zero or positive number.
\<close>

fun js_insort :: "('a \<Rightarrow> 'a \<Rightarrow> int) \<Rightarrow> 'a \<Rightarrow> 'a list \<Rightarrow> 'a list" where
  "js_insort cmp x [] = [x]"
| "js_insort cmp x (y # ys) = (if cmp x y \<le> 0 then x # y # ys else y # js_insort cmp x ys)"

definition js_sort :: "('a \<Rightarrow> 'a \<Rightarrow> int) \<Rightarrow> 'a list \<Rightarrow> 'a list" where
  "js_sort cmp xs = foldr (js_insort cmp) xs []"

lemma set_js_insort [simp]: "set (js_insort cmp x xs) = insert x (set xs)"
  by (induction xs) auto

lemma mset_js_insort [simp]: "mset (js_insort cmp x xs) = add_mset x (mset xs)"
  by (induction xs) auto

lemma set_js_sort [simp]: "set (js_sort cmp xs) = set xs"
  unfolding js_sort_def by (induction xs) auto

lemma mset_js_sort [simp]: "mset (js_sort cmp xs) = mset xs"
  unfolding js_sort_def by (induction xs) auto

lemma distinct_js_sort [simp]: "distinct (js_sort cmp xs) = distinct xs"
  by (rule mset_eq_imp_distinct_iff) simp

lemma length_js_sort [simp]: "length (js_sort cmp xs) = length xs"
  by (metis mset_js_sort size_mset)

lemma js_sort_Nil [simp]: "js_sort cmp [] = []"
  by (simp add: js_sort_def)

lemma js_sort_Cons: "js_sort cmp (x # xs) = js_insort cmp x (js_sort cmp xs)"
  by (simp add: js_sort_def)

text \<open>
  What the sources rely on of a comparator (\<open>localeCompare\<close> among them): it is a consistent
  comparison, that is, a total preorder.
\<close>

definition consistent_cmp :: "('a \<Rightarrow> 'a \<Rightarrow> int) \<Rightarrow> bool" where
  "consistent_cmp cmp \<longleftrightarrow>
     (\<forall>x y. cmp x y \<le> 0 \<or> cmp y x \<le> 0) \<and>
     (\<forall>x y z. cmp x y \<le> 0 \<longrightarrow> cmp y z \<le> 0 \<longrightarrow> cmp x z \<le> 0)"

lemma sorted_wrt_js_insort:
  assumes "consistent_cmp cmp" and "sorted_wrt (\<lambda>a b. cmp a b \<le> 0) xs"
  shows "sorted_wrt (\<lambda>a b. cmp a b \<le> 0) (js_insort cmp x xs)"
  using assms(2)
proof (induction xs)
  case Nil
  then show ?case by simp
next
  case (Cons y ys)
  then show ?case using assms(1) unfolding consistent_cmp_def by auto
qed

lemma sorted_wrt_js_sort:
  assumes "consistent_cmp cmp"
  shows "sorted_wrt (\<lambda>a b. cmp a b \<le> 0) (js_sort cmp xs)"
  by (induction xs) (simp_all add: js_sort_Cons sorted_wrt_js_insort [OF assms])

text \<open>The comparison of UTF-16 code units, \<open>a < b ? -1 : a > b ? 1 : 0\<close>.\<close>

definition js_compare :: "string \<Rightarrow> string \<Rightarrow> int" where
  "js_compare a b = (if a < b then -1 else if b < a then 1 else 0)"

lemma consistent_js_compare: "consistent_cmp js_compare"
  by (auto simp: consistent_cmp_def js_compare_def)

lemma consistent_cmp_key: "consistent_cmp cmp \<Longrightarrow> consistent_cmp (\<lambda>a b. cmp (f a) (f b))"
  unfolding consistent_cmp_def by blast

lemma sorted_wrt_unique:
  assumes "sorted_wrt R xs" and "sorted_wrt R ys" and "mset xs = mset ys"
    and "\<And>x y. x \<in> set xs \<Longrightarrow> y \<in> set xs \<Longrightarrow> R x y \<Longrightarrow> R y x \<Longrightarrow> x = y"
  shows "xs = ys"
  using assms
proof (induction xs arbitrary: ys)
  case (Cons x xs)
  then obtain y ys' where ys: "ys = y # ys'" by (cases ys) auto
  have sets: "set (x # xs) = set (y # ys')" using Cons.prems(3) ys by (metis set_mset_mset)
  have "x = y"
  proof (rule ccontr)
    assume "x \<noteq> y"
    with sets have "y \<in> set xs" "x \<in> set ys'" by auto
    with Cons.prems(1,2) ys have "R x y" "R y x" by auto
    with Cons.prems(4) [of x y] sets \<open>x \<noteq> y\<close> \<open>y \<in> set xs\<close> show False by simp
  qed
  with Cons.prems ys Cons.IH [of ys'] show ?case by auto
qed simp

lemma js_sort_permuted:
  assumes "consistent_cmp cmp" and "mset xs = mset ys"
    and "\<And>x y. x \<in> set xs \<Longrightarrow> y \<in> set xs \<Longrightarrow> cmp x y \<le> 0 \<Longrightarrow> cmp y x \<le> 0 \<Longrightarrow> x = y"
  shows "js_sort cmp xs = js_sort cmp ys"
  using assms by (intro sorted_wrt_unique [of "\<lambda>a b. cmp a b \<le> 0"] sorted_wrt_js_sort) auto

section \<open>Services over ports: traced results\<close>

text \<open>
  An asynchronous service calls its injected ports one after the other and returns or throws.
  Its model lists the port calls it made, in order and with their arguments, beside the
  result; what a port answers is an argument of the model, an \<open>Inl\<close> being a rejected
  promise.  \<open>await\<close> in the source is \<open>bindT\<close>, \<open>try/catch\<close> is \<open>catchT\<close>.
\<close>

type_synonym ('c, 'e, 'a) traced = "'c list \<times> ('e + 'a)"

definition retT :: "'a \<Rightarrow> ('c, 'e, 'a) traced" where
  "retT a = ([], Inr a)"

definition throwT :: "'e \<Rightarrow> ('c, 'e, 'a) traced" where
  "throwT e = ([], Inl e)"

definition callT :: "'c \<Rightarrow> 'e + 'a \<Rightarrow> ('c, 'e, 'a) traced" where
  "callT c answer = ([c], answer)"

definition bindT :: "('c, 'e, 'a) traced \<Rightarrow> ('a \<Rightarrow> ('c, 'e, 'b) traced) \<Rightarrow> ('c, 'e, 'b) traced" where
  "bindT m k =
     (case m of
        (cs, Inl e) \<Rightarrow> (cs, Inl e)
      | (cs, Inr a) \<Rightarrow> (case k a of (cs', r) \<Rightarrow> (cs @ cs', r)))"

definition catchT :: "('c, 'e, 'a) traced \<Rightarrow> ('e \<Rightarrow> ('c, 'e, 'a) traced) \<Rightarrow> ('c, 'e, 'a) traced" where
  "catchT m h =
     (case m of
        (cs, Inl e) \<Rightarrow> (case h e of (cs', r) \<Rightarrow> (cs @ cs', r))
      | (cs, Inr a) \<Rightarrow> (cs, Inr a))"

lemma bindT_retT [simp]: "bindT (retT a) k = k a"
  by (simp add: bindT_def retT_def split: prod.splits)

lemma bindT_throwT [simp]: "bindT (throwT e) k = throwT e"
  by (simp add: bindT_def throwT_def)

lemma bindT_callT:
  "bindT (callT c r) k =
     (case r of Inl e \<Rightarrow> ([c], Inl e) | Inr a \<Rightarrow> (case k a of (cs, r') \<Rightarrow> (c # cs, r')))"
  by (simp add: bindT_def callT_def split: sum.splits prod.splits)

lemma fst_retT [simp]: "fst (retT a) = []" and snd_retT [simp]: "snd (retT a) = Inr a"
  by (simp_all add: retT_def)

lemma fst_throwT [simp]: "fst (throwT e) = []" and snd_throwT [simp]: "snd (throwT e) = Inl e"
  by (simp_all add: throwT_def)

lemma fst_callT [simp]: "fst (callT c r) = [c]" and snd_callT [simp]: "snd (callT c r) = r"
  by (simp_all add: callT_def)

lemma fst_bindT:
  "fst (bindT m k) = fst m @ (case snd m of Inl e \<Rightarrow> [] | Inr a \<Rightarrow> fst (k a))"
  by (simp add: bindT_def split: prod.splits sum.splits)

lemma snd_bindT:
  "snd (bindT m k) = (case snd m of Inl e \<Rightarrow> Inl e | Inr a \<Rightarrow> snd (k a))"
  by (simp add: bindT_def split: prod.splits sum.splits)

lemma fst_catchT:
  "fst (catchT m h) = fst m @ (case snd m of Inl e \<Rightarrow> fst (h e) | Inr a \<Rightarrow> [])"
  by (simp add: catchT_def split: prod.splits sum.splits)

lemma snd_catchT:
  "snd (catchT m h) = (case snd m of Inl e \<Rightarrow> snd (h e) | Inr a \<Rightarrow> Inr a)"
  by (simp add: catchT_def split: prod.splits sum.splits)

lemmas traced_simps = fst_bindT snd_bindT fst_catchT snd_catchT

section \<open>Guarded transition tables\<close>

text \<open>
  The lifecycles of the system (approvals, workspaces, runs, steps, policy versions) are pure
  functions that resolve a status, a trigger and the guard inputs to the next status, or
  refuse.  \<open>fsm_run\<close> fires a sequence of triggers and stops at the first refusal.
\<close>

fun fsm_run :: "('s \<Rightarrow> 't \<Rightarrow> 'c \<Rightarrow> 's option) \<Rightarrow> 's \<Rightarrow> ('t \<times> 'c) list \<Rightarrow> 's option" where
  "fsm_run f s [] = Some s"
| "fsm_run f s (e # es) =
     (case f s (fst e) (snd e) of None \<Rightarrow> None | Some s' \<Rightarrow> fsm_run f s' es)"

lemma fsm_run_append:
  "fsm_run f s (xs @ ys) = (case fsm_run f s xs of None \<Rightarrow> None | Some s' \<Rightarrow> fsm_run f s' ys)"
  by (induction xs arbitrary: s) (auto split: option.splits)

text \<open>A run that ends inside \<open>P\<close> and starts outside it has a step that enters \<open>P\<close>.\<close>

lemma fsm_run_enters:
  assumes "fsm_run f s es = Some s'" and "\<not> P s" and "P s'"
  shows "\<exists>us t c vs u u'. es = us @ (t, c) # vs \<and> fsm_run f s us = Some u \<and> \<not> P u \<and>
           f u t c = Some u' \<and> P u' \<and> fsm_run f u' vs = Some s'"
  using assms
proof (induction es arbitrary: s)
  case Nil
  then show ?case by simp
next
  case (Cons e es)
  from Cons.prems(1) obtain m where m: "f s (fst e) (snd e) = Some m" and rest: "fsm_run f m es = Some s'"
    by (auto split: option.splits)
  show ?case
  proof (cases "P m")
    case True
    with m rest Cons.prems(2) show ?thesis
      by (intro exI [of _ "[]"] exI [of _ "fst e"] exI [of _ "snd e"] exI [of _ es] exI [of _ s] exI [of _ m]) simp
  next
    case False
    from Cons.IH [OF rest False Cons.prems(3)] obtain us t c vs u u' where
      "es = us @ (t, c) # vs" "fsm_run f m us = Some u" "\<not> P u" "f u t c = Some u'" "P u'"
      "fsm_run f u' vs = Some s'" by blast
    with m show ?thesis
      by (intro exI [of _ "e # us"] exI [of _ t] exI [of _ c] exI [of _ vs] exI [of _ u] exI [of _ u']) simp
  qed
qed

text \<open>The interface every lifecycle table provides: terminal statuses refuse every trigger.\<close>

locale lifecycle =
  fixes fire :: "'s \<Rightarrow> 't \<Rightarrow> 'c \<Rightarrow> 's option"
    and terminal :: "'s \<Rightarrow> bool"
  assumes terminal_refuses: "terminal s \<Longrightarrow> fire s t c = None"
begin

lemma terminal_run_stays:
  "terminal s \<Longrightarrow> fsm_run fire s es = Some s' \<Longrightarrow> es = [] \<and> s' = s"
  by (cases es) (auto simp: terminal_refuses)

lemma terminal_only_last:
  assumes "fsm_run fire s (us @ vs) = Some s'" and "fsm_run fire s us = Some u" and "terminal u"
  shows "vs = [] \<and> s' = u"
  using assms terminal_run_stays [of u vs s'] by (simp add: fsm_run_append)

lemma run_invariant:
  assumes "fsm_run fire s es = Some s'" and "I s"
    and "\<And>u t c u'. I u \<Longrightarrow> fire u t c = Some u' \<Longrightarrow> I u'"
  shows "I s'"
  using assms(1,2) by (induction es arbitrary: s) (auto split: option.splits intro: assms(3))

end

text \<open>
  A lifecycle whose every proper step lowers a rank cannot cycle: the number of status changes
  of a run is bounded by the rank of its start.
\<close>

fun fsm_changes :: "('s \<Rightarrow> 't \<Rightarrow> 'c \<Rightarrow> 's option) \<Rightarrow> 's \<Rightarrow> ('t \<times> 'c) list \<Rightarrow> nat" where
  "fsm_changes f s [] = 0"
| "fsm_changes f s (e # es) =
     (case f s (fst e) (snd e) of
        None \<Rightarrow> 0
      | Some s' \<Rightarrow> (if s' = s then 0 else 1) + fsm_changes f s' es)"

locale ranked_lifecycle = lifecycle +
  fixes rank :: "'s \<Rightarrow> nat"
  assumes rank_decreases: "fire s t c = Some s' \<Longrightarrow> s' \<noteq> s \<Longrightarrow> rank s' < rank s"
begin

lemma changes_bounded: "fsm_changes fire s es \<le> rank s"
proof (induction es arbitrary: s)
  case Nil
  then show ?case by simp
next
  case (Cons e es)
  show ?case
  proof (cases "fire s (fst e) (snd e)")
    case None
    then show ?thesis by simp
  next
    case (Some m)
    with Cons.IH [of m] rank_decreases [of s "fst e" "snd e" m] show ?thesis
      by (cases "m = s") auto
  qed
qed

lemma run_rank: "fsm_run fire s es = Some s' \<Longrightarrow> s' = s \<or> rank s' < rank s"
proof (induction es arbitrary: s)
  case Nil
  then show ?case by simp
next
  case (Cons e es)
  then obtain m where m: "fire s (fst e) (snd e) = Some m" and rest: "fsm_run fire m es = Some s'"
    by (auto split: option.splits)
  with Cons.IH [OF rest] rank_decreases [OF m] show ?case by (cases "m = s") auto
qed

lemma never_returns:
  assumes "fsm_run fire s us = Some u" and "u \<noteq> s" and "fsm_run fire u vs = Some v"
  shows "v \<noteq> s"
  using run_rank [OF assms(1)] run_rank [OF assms(3)] assms(2) by auto

end

end
