(* ===== verification/Policy_Contracts.thy ===== *)
theory Policy_Contracts
  imports DG_Prelude
begin

text \<open>
  The shared policy vocabulary of \<open>packages/contracts/src/policy.ts\<close>: the public action
  types, the five risk classes, the autonomy levels, the three authorization effects and the
  obligations a decision may carry.
\<close>

datatype action_type =
    RepositoryRead | IssueRead | FileRead | CheckRead | ReviewRead | SessionStreamRead
  | BranchCreate | CommitPush | PullRequestCreate | PullRequestUpdate | CommentCreate
  | PullRequestMerge | WorkflowFileWrite
  | BranchDelete | RepositoryFileDelete
  | SandboxCommand | ArtifactStore | NotificationSend

definition ActionTypes :: "action_type list" where
  "ActionTypes =
     [RepositoryRead, IssueRead, FileRead, CheckRead, ReviewRead, SessionStreamRead,
      BranchCreate, CommitPush, PullRequestCreate, PullRequestUpdate, CommentCreate,
      PullRequestMerge, WorkflowFileWrite, BranchDelete, RepositoryFileDelete,
      SandboxCommand, ArtifactStore, NotificationSend]"

fun action_type_id :: "action_type \<Rightarrow> string" where
  "action_type_id RepositoryRead = ''repository.read''"
| "action_type_id IssueRead = ''issue.read''"
| "action_type_id FileRead = ''file.read''"
| "action_type_id CheckRead = ''check.read''"
| "action_type_id ReviewRead = ''review.read''"
| "action_type_id SessionStreamRead = ''session.stream.read''"
| "action_type_id BranchCreate = ''branch.create''"
| "action_type_id CommitPush = ''commit.push''"
| "action_type_id PullRequestCreate = ''pull_request.create''"
| "action_type_id PullRequestUpdate = ''pull_request.update''"
| "action_type_id CommentCreate = ''comment.create''"
| "action_type_id PullRequestMerge = ''pull_request.merge''"
| "action_type_id WorkflowFileWrite = ''workflow_file.write''"
| "action_type_id BranchDelete = ''branch.delete''"
| "action_type_id RepositoryFileDelete = ''repository.file.delete''"
| "action_type_id SandboxCommand = ''sandbox.command''"
| "action_type_id ArtifactStore = ''artifact.store''"
| "action_type_id NotificationSend = ''notification.send''"

datatype risk_class =
  Read | Reversible_write | Sensitive_write | Destructive | External_side_effect

fun risk_str :: "risk_class \<Rightarrow> string" where
  "risk_str Read = ''read''"
| "risk_str Reversible_write = ''reversible_write''"
| "risk_str Sensitive_write = ''sensitive_write''"
| "risk_str Destructive = ''destructive''"
| "risk_str External_side_effect = ''external_side_effect''"

fun riskClassForAction :: "action_type \<Rightarrow> risk_class" where
  "riskClassForAction RepositoryRead = Read"
| "riskClassForAction IssueRead = Read"
| "riskClassForAction FileRead = Read"
| "riskClassForAction CheckRead = Read"
| "riskClassForAction ReviewRead = Read"
| "riskClassForAction SessionStreamRead = Read"
| "riskClassForAction BranchCreate = Reversible_write"
| "riskClassForAction CommitPush = Reversible_write"
| "riskClassForAction PullRequestCreate = Reversible_write"
| "riskClassForAction PullRequestUpdate = Reversible_write"
| "riskClassForAction CommentCreate = Reversible_write"
| "riskClassForAction PullRequestMerge = Sensitive_write"
| "riskClassForAction WorkflowFileWrite = Sensitive_write"
| "riskClassForAction BranchDelete = Destructive"
| "riskClassForAction RepositoryFileDelete = Destructive"
| "riskClassForAction SandboxCommand = External_side_effect"
| "riskClassForAction ArtifactStore = External_side_effect"
| "riskClassForAction NotificationSend = External_side_effect"

datatype autonomy_level = Assist | Developer | Trusted | Autonomous

datatype decision_effect = ALLOW | REQUIRE_APPROVAL | DENY

datatype execution_environment = Sandbox_required | Devguard_service

datatype network_mode = Default_deny | Allowlist

datatype obligation =
    ExecutionEnvironment execution_environment
  | NetworkPolicy network_mode "string list option"
  | TimeoutMs int
  | ResourceCeiling "int option" "int option" "int option"
  | SecretGrant "string list"

text \<open>The bounds the obligation schema puts on each variant.\<close>

fun obligation_valid :: "obligation \<Rightarrow> bool" where
  "obligation_valid (ExecutionEnvironment e) = True"
| "obligation_valid (NetworkPolicy m al) =
     (case al of None \<Rightarrow> True | Some xs \<Rightarrow> length xs \<le> 64 \<and> list_all (\<lambda>x. length x \<le> 253) xs)"
| "obligation_valid (TimeoutMs v) = (1000 \<le> v \<and> v \<le> 3600000)"
| "obligation_valid (ResourceCeiling c m d) =
     ((case c of None \<Rightarrow> True | Some x \<Rightarrow> 1 \<le> x \<and> x \<le> 64) \<and>
      (case m of None \<Rightarrow> True | Some x \<Rightarrow> 128 \<le> x \<and> x \<le> 65536) \<and>
      (case d of None \<Rightarrow> True | Some x \<Rightarrow> 64 \<le> x \<and> x \<le> 262144))"
| "obligation_valid (SecretGrant ns) = (length ns \<le> 32 \<and> list_all (\<lambda>x. length x \<le> 128) ns)"

text \<open>
  The effects are ordered by restriction.  The library's order classes then supply \<open>max\<close> (the
  strongest of two effects) and its algebra.
\<close>

fun effect_rank :: "decision_effect \<Rightarrow> nat" where
  "effect_rank ALLOW = 0"
| "effect_rank REQUIRE_APPROVAL = 1"
| "effect_rank DENY = 2"

instantiation decision_effect :: linorder
begin

definition less_eq_decision_effect :: "decision_effect \<Rightarrow> decision_effect \<Rightarrow> bool" where
  "less_eq_decision_effect a b = (effect_rank a \<le> effect_rank b)"

definition less_decision_effect :: "decision_effect \<Rightarrow> decision_effect \<Rightarrow> bool" where
  "less_decision_effect a b = (effect_rank a < effect_rank b)"

instance
proof
  fix a b :: decision_effect
  show "a \<le> b \<Longrightarrow> b \<le> a \<Longrightarrow> a = b"
    by (cases a; cases b) (simp_all add: less_eq_decision_effect_def)
qed (auto simp: less_eq_decision_effect_def less_decision_effect_def)

end

lemmas effect_order_simps [simp] = less_eq_decision_effect_def less_decision_effect_def

lemma effect_le_DENY: "(e :: decision_effect) \<le> DENY"
  by (cases e) simp_all

lemma effect_ALLOW_le: "ALLOW \<le> (e :: decision_effect)"
  by (cases e) simp_all

lemma effect_max_simps:
  "max ALLOW e = e" "max e ALLOW = e" "max DENY e = DENY" "max e DENY = DENY"
  "max REQUIRE_APPROVAL REQUIRE_APPROVAL = REQUIRE_APPROVAL"
  by (cases e; simp add: max_def)+

end
