(* ===== verification/Precedence.thy ===== *)
theory Precedence
  imports Policy_Contracts
begin

text \<open>
  The ten-stage precedence evaluator of
  \<open>packages/policy-engine/src/evaluator/precedence.ts\<close>.  Every \<open>rules.push\<close> of the source is
  a constant here, every stage a function on the pair of the running effect and the matched
  rules, and \<open>evaluatePrecedence\<close> composes them with the early returns of the source.  The
  collation behind \<open>localeCompare\<close> is the argument \<open>lc\<close> (it depends on the host's locale).
\<close>

record matched_rule =
  stage :: nat
  ruleId :: string
  rule_effect :: decision_effect
  rule_explanation :: string

record evaluation_input =
  actionId :: "string option"
  riskClass :: "risk_class option"
  repositoryDenyMatch :: "bool option"
  globalDenyMatch :: "bool option"
  globalApprovalFloorMatch :: "bool option"
  workflowPermitted :: "bool option"
  ceilingEffect :: "decision_effect option"
  contextRequiresApproval :: "bool option"
  sandboxRequired :: "bool option"
  gateSatisfied :: "bool option"
  gateRequired :: bool
  explicitAllowMatch :: bool
  explicitRequireApprovalMatch :: bool
  explicitDenyMatch :: bool
  exactValidApprovalPresent :: bool
  targetsProtectedBranch :: "bool option"
  mergesProtectedBranch :: "bool option"

record evaluation_outcome =
  effect :: decision_effect
  reasonCode :: string
  matchedRules :: "matched_rule list"
  obligations :: "obligation list"
  explanation :: string

text \<open>Truthiness of an optional boolean: only \<open>true\<close> is truthy.\<close>

abbreviation truthy :: "bool option \<Rightarrow> bool" where
  "truthy b \<equiv> b = Some True"

fun strongest :: "decision_effect option \<Rightarrow> decision_effect \<Rightarrow> decision_effect" where
  "strongest None b = b"
| "strongest (Some a) b =
     (if a = DENY \<or> b = DENY then DENY
      else if a = REQUIRE_APPROVAL \<or> b = REQUIRE_APPROVAL then REQUIRE_APPROVAL
      else ALLOW)"

definition rule :: "nat \<Rightarrow> string \<Rightarrow> decision_effect \<Rightarrow> string \<Rightarrow> matched_rule" where
  "rule s i e x = \<lparr>stage = s, ruleId = i, rule_effect = e, rule_explanation = x\<rparr>"

subsection \<open>The rules of the source\<close>

definition rule_global_deny :: matched_rule where
  "rule_global_deny =
     rule 1 ''stage1-global-deny'' DENY
       ''a non-overridable global safety denial matches this action''"

definition rule_repository_deny :: matched_rule where
  "rule_repository_deny =
     rule 2 ''stage2-repository-deny'' DENY
       ''the active canonical repository policy denies this action''"

definition rule_unknown :: "string list \<Rightarrow> matched_rule" where
  "rule_unknown dims =
     rule 3 ''stage3-unknown-fail-closed'' DENY
       (''unknown or unresolvable input dimension(s): '' @ js_join '', '' dims)"

definition rule_workflow :: matched_rule where
  "rule_workflow =
     rule 4 ''stage4-workflow-not-permitted'' DENY
       ''the active workflow definition does not permit this action''"

definition rule_ceiling_deny :: matched_rule where
  "rule_ceiling_deny =
     rule 5 ''stage5-autonomy-ceiling-deny'' DENY
       ''hard autonomy/global ceiling denies this action at every level''"

definition rule_hard_floor :: matched_rule where
  "rule_hard_floor =
     rule 5 ''stage5-hard-approval-floor'' REQUIRE_APPROVAL
       ''a non-overridable approval floor applies to this action''"

definition rule_context :: matched_rule where
  "rule_context =
     rule 6 ''stage6-context-escalation'' REQUIRE_APPROVAL
       ''trusted target/command/risk facts escalated this action''"

definition rule_gate_open :: matched_rule where
  "rule_gate_open =
     rule 7 ''stage7-validation-gate-open'' REQUIRE_APPROVAL
       ''required validation evidence is missing, stale or failed''"

definition rule_explicit_deny :: matched_rule where
  "rule_explicit_deny =
     rule 8 ''repo-explicit-deny'' DENY
       ''canonical repository policy explicitly denies this action''"

definition rule_policy_floor :: matched_rule where
  "rule_policy_floor =
     rule 8 ''repo-policy-floor'' REQUIRE_APPROVAL
       ''repository policy requires durable human approval for this action''"

definition rule_explicit_allow :: matched_rule where
  "rule_explicit_allow =
     rule 8 ''repo-explicit-allow'' ALLOW
       ''canonical repository policy explicitly allows this action''"

definition rule_approval :: matched_rule where
  "rule_approval =
     rule 7 ''approval-satisfies-floor'' ALLOW
       ''exact fresh authorized approval satisfies the outstanding requirement''"

definition rule_default_read :: matched_rule where
  "rule_default_read =
     rule 9 ''risk-default-read'' ALLOW
       ''known read action with no applicable restriction defaults to allow within workflow/ceiling checks already passed''"

definition rule_default_reversible :: matched_rule where
  "rule_default_reversible =
     rule 9 ''risk-default-reversible-write'' ALLOW
       ''known reversible write defaults to allow; sandbox/workspace obligations still attach''"

definition rule_default_elevated :: "risk_class \<Rightarrow> matched_rule" where
  "rule_default_elevated r =
     rule 9 ''risk-default-elevated'' REQUIRE_APPROVAL
       (risk_str r @ '' defaults to human approval absent explicit policy'')"

definition rule_no_rule :: matched_rule where
  "rule_no_rule =
     rule 10 ''no-rule-fail-closed'' DENY ''no rule or default mapping exists for this input''"

lemmas rule_defs = rule_global_deny_def rule_repository_deny_def rule_unknown_def rule_workflow_def
  rule_ceiling_deny_def rule_hard_floor_def rule_context_def rule_gate_open_def
  rule_explicit_deny_def rule_policy_floor_def rule_explicit_allow_def rule_approval_def
  rule_default_read_def rule_default_reversible_def rule_default_elevated_def rule_no_rule_def

subsection \<open>Reason codes and the final record\<close>

text \<open>\<open>.replace(/^stage\d+-/, '')\<close>\<close>

definition strip_stage :: "string \<Rightarrow> string" where
  "strip_stage s =
     (if js_startsWith s ''stage''
      then (let r = drop 5 s; r' = dropWhile js_digit r
            in if r' \<noteq> r \<and> js_startsWith r' ''-'' then drop 1 r' else s)
      else s)"

definition reasonFrom :: "matched_rule list \<Rightarrow> string" where
  "reasonFrom rules =
     (case find (\<lambda>entry. rule_effect entry \<noteq> ALLOW) (rev rules) of
        Some decisive \<Rightarrow> take 64 (js_upper (strip_stage (ruleId decisive)))
      | None \<Rightarrow>
          (if rules = [] then ''EVALUATED''
           else take 64 (js_upper (strip_stage (ruleId (last rules))))))"

definition rule_compare :: "(string \<Rightarrow> string \<Rightarrow> int) \<Rightarrow> matched_rule \<Rightarrow> matched_rule \<Rightarrow> int" where
  "rule_compare lc a b =
     (if stage a \<noteq> stage b then int (stage a) - int (stage b) else lc (ruleId a) (ruleId b))"

definition rules_text :: "matched_rule list \<Rightarrow> string" where
  "rules_text rules =
     js_join ''; ''
       (map (\<lambda>entry. ''['' @ js_nat_str (stage entry) @ ''] '' @ ruleId entry @ '': '' @ rule_explanation entry)
          rules)"

definition finalize ::
  "(string \<Rightarrow> string \<Rightarrow> int) \<Rightarrow> decision_effect \<Rightarrow> string \<Rightarrow> matched_rule list \<Rightarrow> obligation list \<Rightarrow>
   string option \<Rightarrow> evaluation_outcome" where
  "finalize lc e reason rules obls override =
     \<lparr>effect = e,
      reasonCode = reason,
      matchedRules = js_sort (rule_compare lc) rules,
      obligations = obls,
      explanation = (case override of Some x \<Rightarrow> x | None \<Rightarrow> rules_text rules)\<rparr>"

subsection \<open>The stages\<close>

definition unknownDimensions :: "evaluation_input \<Rightarrow> string list" where
  "unknownDimensions input =
     (if actionId input = None \<or> actionId input = Some '''' then [''action''] else []) @
     (if riskClass input = None then [''risk classification''] else []) @
     (if globalDenyMatch input = None \<or> repositoryDenyMatch input = None \<or>
         workflowPermitted input = None \<or> ceilingEffect input = None \<or>
         contextRequiresApproval input = None \<or> sandboxRequired input = None
      then [''safety/workflow resolution''] else []) @
     (if sandboxRequired input \<noteq> None \<and> gateRequired input \<and> gateSatisfied input = None
      then [''validation gate''] else [])"

type_synonym running = "decision_effect option \<times> matched_rule list"

definition stage5_floor :: "evaluation_input \<Rightarrow> running \<Rightarrow> running" where
  "stage5_floor input = (\<lambda>(e, rules).
     if ceilingEffect input = Some REQUIRE_APPROVAL \<or> truthy (globalApprovalFloorMatch input)
     then (Some REQUIRE_APPROVAL, rules @ [rule_hard_floor]) else (e, rules))"

definition stage6_context :: "evaluation_input \<Rightarrow> running \<Rightarrow> running" where
  "stage6_context input = (\<lambda>(e, rules).
     if truthy (contextRequiresApproval input)
     then (Some (strongest e REQUIRE_APPROVAL), rules @ [rule_context]) else (e, rules))"

definition sandbox_obligations :: "evaluation_input \<Rightarrow> obligation list" where
  "sandbox_obligations input =
     (if truthy (sandboxRequired input) then [ExecutionEnvironment Sandbox_required] else [])"

definition gate_open :: "evaluation_input \<Rightarrow> bool" where
  "gate_open input \<longleftrightarrow> gateRequired input \<and> \<not> truthy (gateSatisfied input)"

definition stage7_gate :: "evaluation_input \<Rightarrow> running \<Rightarrow> running" where
  "stage7_gate input = (\<lambda>(e, rules).
     if gate_open input
     then (Some (strongest e REQUIRE_APPROVAL), rules @ [rule_gate_open]) else (e, rules))"

definition stage8_deny :: "evaluation_input \<Rightarrow> running \<Rightarrow> running" where
  "stage8_deny input = (\<lambda>(e, rules).
     if explicitDenyMatch input
     then (Some (strongest e DENY), rules @ [rule_explicit_deny]) else (e, rules))"

definition stage8_floor :: "evaluation_input \<Rightarrow> running \<Rightarrow> running" where
  "stage8_floor input = (\<lambda>(e, rules).
     if explicitRequireApprovalMatch input \<or> truthy (mergesProtectedBranch input) \<or>
        truthy (targetsProtectedBranch input)
     then (Some (strongest e REQUIRE_APPROVAL), rules @ [rule_policy_floor]) else (e, rules))"

definition stage8_allow :: "evaluation_input \<Rightarrow> running \<Rightarrow> running" where
  "stage8_allow input = (\<lambda>(e, rules).
     if explicitAllowMatch input
     then (if e = None then Some ALLOW else e, rules @ [rule_explicit_allow]) else (e, rules))"

definition approval_stage :: "evaluation_input \<Rightarrow> running \<Rightarrow> running" where
  "approval_stage input = (\<lambda>(e, rules).
     if e = Some REQUIRE_APPROVAL \<and> exactValidApprovalPresent input \<and> \<not> gate_open input
     then (Some ALLOW, rules @ [rule_approval]) else (e, rules))"

text \<open>The switch of stage 9; \<open>None\<close> in the first component is its \<open>default\<close> branch.\<close>

definition risk_default :: "risk_class option \<Rightarrow> decision_effect option \<times> matched_rule" where
  "risk_default r =
     (case r of
        Some Read \<Rightarrow> (Some ALLOW, rule_default_read)
      | Some Reversible_write \<Rightarrow> (Some ALLOW, rule_default_reversible)
      | Some k \<Rightarrow> (Some REQUIRE_APPROVAL, rule_default_elevated k)
      | None \<Rightarrow> (None, rule_no_rule))"

definition stages_5_to_8 :: "evaluation_input \<Rightarrow> running" where
  "stages_5_to_8 input =
     (approval_stage input \<circ> stage8_allow input \<circ> stage8_floor input \<circ> stage8_deny input \<circ>
      stage7_gate input \<circ> stage6_context input \<circ> stage5_floor input) (None, [])"

definition evaluatePrecedence ::
  "(string \<Rightarrow> string \<Rightarrow> int) \<Rightarrow> evaluation_input \<Rightarrow> evaluation_outcome" where
  "evaluatePrecedence lc input =
     (if truthy (globalDenyMatch input) then
        finalize lc DENY ''GLOBAL_SAFETY_DENY'' [rule_global_deny] []
          (Some ''global safety denies this operation regardless of policy or approvals'')
      else if truthy (repositoryDenyMatch input) then
        finalize lc DENY ''REPOSITORY_DENIED'' [rule_repository_deny] []
          (Some ''repository policy denies this action'')
      else if unknownDimensions input \<noteq> [] then
        finalize lc DENY ''UNKNOWN_CAPABILITY'' [rule_unknown (unknownDimensions input)] []
          (Some (''cannot establish a known, registered operation ('' @
                 js_join '', '' (unknownDimensions input) @ '')''))
      else if \<not> truthy (workflowPermitted input) then
        finalize lc DENY ''WORKFLOW_NOT_PERMITTED'' [rule_workflow] []
          (Some ''workflow scope does not include this action'')
      else if ceilingEffect input = Some DENY then
        finalize lc DENY ''AUTONOMY_CEILING_EXCEEDED'' [rule_ceiling_deny] []
          (Some ''the configured autonomy level cannot authorize this operation'')
      else
        (case stages_5_to_8 input of
           (Some e, rules) \<Rightarrow>
             finalize lc e (reasonFrom rules) rules (sandbox_obligations input) None
         | (None, rules) \<Rightarrow>
             (case risk_default (riskClass input) of
                (Some e, r) \<Rightarrow>
                  finalize lc e (reasonFrom (rules @ [r])) (rules @ [r]) (sandbox_obligations input) None
              | (None, r) \<Rightarrow>
                  finalize lc DENY ''NO_APPLICABLE_RULE'' (rules @ [r]) []
                    (Some ''fail closed: nothing authorizes this operation''))))"

record merge_result =
  merged_effect :: decision_effect
  requireFreshDecision :: bool
  merge_explanation :: string

fun effect_str :: "decision_effect \<Rightarrow> string" where
  "effect_str ALLOW = ''ALLOW''"
| "effect_str REQUIRE_APPROVAL = ''REQUIRE_APPROVAL''"
| "effect_str DENY = ''DENY''"

definition mergeSnapshotWithCurrent :: "evaluation_outcome \<Rightarrow> evaluation_outcome \<Rightarrow> merge_result" where
  "mergeSnapshotWithCurrent snapshot current =
     (if effect_rank (effect current) > effect_rank (effect snapshot) then
        \<lparr>merged_effect = effect current, requireFreshDecision = False,
         merge_explanation = ''current stricter policy applies: '' @ reasonCode current @
           '' overrides snapshot '' @ effect_str (effect snapshot)\<rparr>
      else if effect_rank (effect current) < effect_rank (effect snapshot) then
        \<lparr>merged_effect = effect snapshot, requireFreshDecision = True,
         merge_explanation = ''current policy is looser than the run snapshot; NO silent elevation -- a fresh proposal/decision (and fresh approval where applicable) is required''\<rparr>
      else
        \<lparr>merged_effect = effect snapshot, requireFreshDecision = False,
         merge_explanation = ''snapshot and current agree''\<rparr>)"

section \<open>What the evaluator decides\<close>

text \<open>
  The abstract specification: a decision is a denial when any hard restriction holds, waits
  for a human while a validation gate is open or a floor is unsatisfied, and otherwise follows
  the explicit grant or the risk default.
\<close>

definition hard_deny :: "evaluation_input \<Rightarrow> bool" where
  "hard_deny i \<longleftrightarrow>
     truthy (globalDenyMatch i) \<or> truthy (repositoryDenyMatch i) \<or> unknownDimensions i \<noteq> [] \<or>
     \<not> truthy (workflowPermitted i) \<or> ceilingEffect i = Some DENY \<or> explicitDenyMatch i"

definition approval_floor :: "evaluation_input \<Rightarrow> bool" where
  "approval_floor i \<longleftrightarrow>
     ceilingEffect i = Some REQUIRE_APPROVAL \<or> truthy (globalApprovalFloorMatch i) \<or>
     truthy (contextRequiresApproval i) \<or> explicitRequireApprovalMatch i \<or>
     truthy (mergesProtectedBranch i) \<or> truthy (targetsProtectedBranch i)"

fun low_risk :: "risk_class option \<Rightarrow> bool" where
  "low_risk (Some Read) = True"
| "low_risk (Some Reversible_write) = True"
| "low_risk _ = False"

definition precedence_spec :: "evaluation_input \<Rightarrow> decision_effect" where
  "precedence_spec i =
     (if hard_deny i then DENY
      else if gate_open i then REQUIRE_APPROVAL
      else if approval_floor i then (if exactValidApprovalPresent i then ALLOW else REQUIRE_APPROVAL)
      else if explicitAllowMatch i \<or> low_risk (riskClass i) then ALLOW
      else REQUIRE_APPROVAL)"

lemmas stage_defs [effect_simps] = stage5_floor_def stage6_context_def stage7_gate_def
  stage8_deny_def stage8_floor_def stage8_allow_def approval_stage_def

lemma effect_finalize [simp]: "effect (finalize lc e r rs os x) = e"
  and reasonCode_finalize [simp]: "reasonCode (finalize lc e r rs os x) = r"
  and obligations_finalize [simp]: "obligations (finalize lc e r rs os x) = os"
  and matchedRules_finalize: "matchedRules (finalize lc e r rs os x) = js_sort (rule_compare lc) rs"
  by (simp_all add: finalize_def)

lemma strongest_Some: "strongest (Some a) b = max a b"
  by (cases a; cases b) (simp_all add: max_def)

lemma stages_effect:
  "fst (stages_5_to_8 i) =
     (if explicitDenyMatch i then Some DENY
      else if gate_open i then Some REQUIRE_APPROVAL
      else if approval_floor i then Some (if exactValidApprovalPresent i then ALLOW else REQUIRE_APPROVAL)
      else if explicitAllowMatch i then Some ALLOW else None)"
  by (simp add: stages_5_to_8_def effect_simps approval_floor_def)

lemma risk_default_effect:
  "fst (risk_default (Some r)) = Some (if low_risk (Some r) then ALLOW else REQUIRE_APPROVAL)"
  by (cases r) (simp_all add: risk_default_def)

lemma unknownDimensions_known:
  "unknownDimensions i = [] \<Longrightarrow> \<exists>r. riskClass i = Some r"
  by (cases "riskClass i") (auto simp: unknownDimensions_def split: if_splits)

lemma evaluate_effect: "effect (evaluatePrecedence lc i) = precedence_spec i"
proof (cases "hard_deny i")
  case True
  then show ?thesis
    using stages_effect [of i]
    by (auto simp: evaluatePrecedence_def precedence_spec_def hard_deny_def split: prod.splits option.splits)
next
  case False
  then obtain r where r: "riskClass i = Some r"
    using unknownDimensions_known [of i] by (auto simp: hard_deny_def)
  obtain e rules where st: "stages_5_to_8 i = (e, rules)" by fastforce
  obtain d dr where rd: "risk_default (Some r) = (d, dr)" by fastforce
  show ?thesis
    using False stages_effect [of i] risk_default_effect [of r] r st rd
    by (auto simp: evaluatePrecedence_def precedence_spec_def hard_deny_def split: option.splits if_splits)
qed

section \<open>Properties\<close>

text \<open>
  Property C1.  For every collation and every input, known or not, the ten stages with their
  early returns decide exactly what the abstract precedence specification says: hard
  restrictions deny, an open validation gate and an unsatisfied approval floor require
  approval, and only then do explicit grants and risk defaults allow.
\<close>

theorem evaluatePrecedence_meets_spec:
  "effect (evaluatePrecedence lc i) = precedence_spec i"
  by (rule evaluate_effect)

text \<open>
  Fail closed: an ALLOW decision proves that every dimension was resolved, that
  no deny matched at any stage, that the workflow permits the action, that no required
  validation gate is open, and that every approval floor is covered by an exact approval; with
  no floor it needs an explicit grant or one of the two low risk classes.
\<close>

theorem allow_is_fully_justified:
  assumes "effect (evaluatePrecedence lc i) = ALLOW"
  shows "(\<exists>a. actionId i = Some a \<and> a \<noteq> '''') \<and> (\<exists>r. riskClass i = Some r) \<and>
     globalDenyMatch i = Some False \<and> repositoryDenyMatch i = Some False \<and>
     \<not> explicitDenyMatch i \<and> workflowPermitted i = Some True \<and>
     (ceilingEffect i = Some ALLOW \<or> ceilingEffect i = Some REQUIRE_APPROVAL) \<and>
     (gateRequired i \<longrightarrow> gateSatisfied i = Some True) \<and>
     (if approval_floor i then exactValidApprovalPresent i
      else explicitAllowMatch i \<or> riskClass i \<in> {Some Read, Some Reversible_write})"
proof -
  from assms have spec: "precedence_spec i = ALLOW" by (simp add: evaluate_effect)
  then have nd: "\<not> hard_deny i" and ng: "\<not> gate_open i"
    by (auto simp: precedence_spec_def split: if_splits)
  from nd have u: "unknownDimensions i = []" by (simp add: hard_deny_def)
  from u have known: "actionId i \<noteq> None" "actionId i \<noteq> Some ''''" "riskClass i \<noteq> None"
    "globalDenyMatch i \<noteq> None" "repositoryDenyMatch i \<noteq> None" "ceilingEffect i \<noteq> None"
    by (auto simp: unknownDimensions_def split: if_splits)
  have ceiling: "ceilingEffect i = Some ALLOW \<or> ceilingEffect i = Some REQUIRE_APPROVAL"
    using known(6) nd by (auto simp: hard_deny_def) (metis decision_effect.exhaust)
  have last: "if approval_floor i then exactValidApprovalPresent i
      else explicitAllowMatch i \<or> low_risk (riskClass i)"
    using spec nd ng by (auto simp: precedence_spec_def split: if_splits)
  have low: "low_risk (riskClass i) \<Longrightarrow> riskClass i \<in> {Some Read, Some Reversible_write}"
    by (cases "riskClass i" rule: low_risk.cases) auto
  from known nd ng ceiling last low show ?thesis
    by (auto simp: hard_deny_def gate_open_def split: if_splits)
qed

definition sample_input :: evaluation_input where
  "sample_input =
     \<lparr>actionId = Some ''pull_request_merge'', riskClass = Some Destructive,
      repositoryDenyMatch = Some False, globalDenyMatch = Some False,
      globalApprovalFloorMatch = Some True, workflowPermitted = Some True,
      ceilingEffect = Some REQUIRE_APPROVAL, contextRequiresApproval = Some False,
      sandboxRequired = Some False, gateSatisfied = Some True, gateRequired = True,
      explicitAllowMatch = False, explicitRequireApprovalMatch = False, explicitDenyMatch = False,
      exactValidApprovalPresent = True, targetsProtectedBranch = None, mergesProtectedBranch = Some True\<rparr>"

lemmas sample_simps = sample_input_def precedence_spec_def hard_deny_def unknownDimensions_def
  gate_open_def approval_floor_def

theorem allow_is_fully_justified_witness:
  "effect (evaluatePrecedence js_compare sample_input) = ALLOW \<and>
   exactValidApprovalPresent sample_input \<and> gateSatisfied sample_input = Some True"
proof -
  have h: "effect (evaluatePrecedence js_compare sample_input) = ALLOW"
    by (simp add: evaluate_effect sample_simps)
  show ?thesis using h allow_is_fully_justified [OF h] by (simp add: sample_input_def)
qed

text \<open>
  One input restricts at least as much as another when every deny, floor and gap of the first
  also holds in the second and the second has no additional grant, approval or permission.
\<close>

fun risk_level :: "risk_class option \<Rightarrow> nat" where
  "risk_level (Some Read) = 0"
| "risk_level (Some Reversible_write) = 1"
| "risk_level (Some Sensitive_write) = 2"
| "risk_level _ = 3"

definition tightens :: "evaluation_input \<Rightarrow> evaluation_input \<Rightarrow> bool" where
  "tightens i j \<longleftrightarrow>
     (truthy (globalDenyMatch i) \<longrightarrow> truthy (globalDenyMatch j)) \<and>
     (truthy (repositoryDenyMatch i) \<longrightarrow> truthy (repositoryDenyMatch j)) \<and>
     (unknownDimensions i \<noteq> [] \<longrightarrow> unknownDimensions j \<noteq> []) \<and>
     (truthy (workflowPermitted j) \<longrightarrow> truthy (workflowPermitted i)) \<and>
     (ceilingEffect i = Some DENY \<longrightarrow> ceilingEffect j = Some DENY) \<and>
     (explicitDenyMatch i \<longrightarrow> explicitDenyMatch j) \<and>
     (gate_open i \<longrightarrow> gate_open j) \<and>
     (approval_floor i \<longrightarrow> approval_floor j) \<and>
     (exactValidApprovalPresent j \<longrightarrow> exactValidApprovalPresent i) \<and>
     (explicitAllowMatch j \<longrightarrow> explicitAllowMatch i) \<and>
     risk_level (riskClass i) \<le> risk_level (riskClass j) \<and>
     (approval_floor j \<and> exactValidApprovalPresent j \<longrightarrow>
        approval_floor i \<or> explicitAllowMatch i \<or> low_risk (riskClass i))"

lemma low_risk_level: "low_risk r \<longleftrightarrow> risk_level r \<le> 1"
  by (cases r rule: low_risk.cases) auto

text \<open>
  Monotonicity: adding restrictions never weakens a decision.  (The last conjunct
  of the order keeps an approval floor from being added together with the approval that
  satisfies it.)
\<close>

theorem evaluatePrecedence_monotone:
  assumes "tightens i j"
  shows "effect (evaluatePrecedence lc i) \<le> effect (evaluatePrecedence lc j)"
proof -
  have deny: "hard_deny i \<Longrightarrow> hard_deny j"
    using assms unfolding tightens_def hard_deny_def by blast
  have low: "low_risk (riskClass j) \<Longrightarrow> low_risk (riskClass i)"
    using assms by (auto simp: tightens_def low_risk_level)
  have rest: "gate_open i \<Longrightarrow> gate_open j" "approval_floor i \<Longrightarrow> approval_floor j"
    "exactValidApprovalPresent j \<Longrightarrow> exactValidApprovalPresent i"
    "explicitAllowMatch j \<Longrightarrow> explicitAllowMatch i"
    "approval_floor j \<Longrightarrow> exactValidApprovalPresent j \<Longrightarrow>
       approval_floor i \<or> explicitAllowMatch i \<or> low_risk (riskClass i)"
    using assms by (simp_all add: tightens_def)
  show ?thesis
    unfolding evaluate_effect precedence_spec_def using deny low rest by auto
qed

theorem evaluatePrecedence_monotone_witness:
  "tightens sample_input (sample_input\<lparr>exactValidApprovalPresent := False\<rparr>) \<and>
   effect (evaluatePrecedence js_compare sample_input) \<le>
     effect (evaluatePrecedence js_compare (sample_input\<lparr>exactValidApprovalPresent := False\<rparr>))"
proof -
  have h: "tightens sample_input (sample_input\<lparr>exactValidApprovalPresent := False\<rparr>)"
    by (simp add: tightens_def sample_simps)
  show ?thesis using h evaluatePrecedence_monotone [OF h] by blast
qed

text \<open>
  Approval evidence only satisfies an outstanding requirement: supplying it
  never turns a denial into anything else, and changes a decision exactly when that decision
  was REQUIRE_APPROVAL because of a floor with every validation gate closed.
\<close>

theorem approval_only_satisfies_floors:
  "let without = effect (evaluatePrecedence lc (i\<lparr>exactValidApprovalPresent := False\<rparr>));
       granted = effect (evaluatePrecedence lc (i\<lparr>exactValidApprovalPresent := True\<rparr>))
   in (without = DENY \<longleftrightarrow> granted = DENY) \<and>
      (granted \<noteq> without \<longleftrightarrow> \<not> hard_deny i \<and> \<not> gate_open i \<and> approval_floor i) \<and>
      (granted = without \<or> without = REQUIRE_APPROVAL \<and> granted = ALLOW)"
proof -
  have inv: "hard_deny (i\<lparr>exactValidApprovalPresent := b\<rparr>) = hard_deny i"
    "gate_open (i\<lparr>exactValidApprovalPresent := b\<rparr>) = gate_open i"
    "approval_floor (i\<lparr>exactValidApprovalPresent := b\<rparr>) = approval_floor i" for b
    by (simp_all add: hard_deny_def gate_open_def approval_floor_def unknownDimensions_def)
  show ?thesis
    unfolding Let_def evaluate_effect by (simp add: precedence_spec_def inv)
qed

theorem approval_only_satisfies_floors_witness:
  "effect (evaluatePrecedence js_compare (sample_input\<lparr>exactValidApprovalPresent := False\<rparr>)) = REQUIRE_APPROVAL \<and>
   effect (evaluatePrecedence js_compare (sample_input\<lparr>exactValidApprovalPresent := True\<rparr>)) = ALLOW"
proof -
  have h: "\<not> hard_deny sample_input \<and> \<not> gate_open sample_input \<and> approval_floor sample_input"
    by (simp add: sample_simps)
  show ?thesis
    using approval_only_satisfies_floors [where lc = js_compare and i = sample_input] h
    unfolding Let_def by blast
qed

text \<open>
  Mid-run merge: the merged effect is the stricter of the run's snapshot and the
  current decision, so it is below neither; a fresh decision is demanded exactly when the
  current policy is looser.
\<close>

theorem mergeSnapshot_is_strictest:
  "merged_effect (mergeSnapshotWithCurrent s c) = max (effect s) (effect c) \<and>
   (requireFreshDecision (mergeSnapshotWithCurrent s c) \<longleftrightarrow> effect c < effect s)"
  by (cases "effect s"; cases "effect c") (simp_all add: mergeSnapshotWithCurrent_def max_def)

end
