(* ===== verification/Evaluation_Service.thy ===== *)
theory Evaluation_Service
  imports Precedence
begin

text \<open>
  \<open>PolicyEvaluationService\<close> of \<open>packages/policy-engine/src/evaluator/service.ts\<close>: the persisted
  decision record, evaluation bound to durable storage, and the dispatch token of a committed
  ALLOW decision.  \<open>createHash('sha256')\<close> over \<open>JSON.stringify\<close> is the argument \<open>sha\<close>, the
  identifier source \<open>newId\<close>, the wall clock and its ISO rendering are arguments too.
\<close>

record evaluation_request = evaluation_input +
  repositoryId :: string
  workflowRunId :: string
  actionOperationKey :: string
  policySnapshotId :: string
  currentPolicyVersionId :: string
  globalSafetyVersionId :: string
  registrySnapshotId :: string

record decision_record =
  d_id :: string
  d_workflowRunId :: string
  d_actionOperationKey :: string
  d_effect :: decision_effect
  d_reasonCode :: string
  d_obligations :: "obligation list"
  d_matchedRules :: "matched_rule list"
  d_explanation :: string
  d_inputFingerprint :: string
  d_policySnapshotId :: string
  d_currentPolicyVersionId :: string
  d_globalSafetyVersionId :: string
  d_registrySnapshotId :: string
  d_evaluatorVersion :: string
  d_createdAtIso :: string

definition EVALUATOR_VERSION :: string where
  "EVALUATOR_VERSION = ''policy-evaluator@1''"

definition fingerprintPayload :: "'a evaluation_input_scheme \<Rightarrow> json list" where
  "fingerprintPayload request =
     [json_opt JStr (actionId request),
      json_opt (JStr \<circ> risk_str) (riskClass request),
      json_opt JBool (repositoryDenyMatch request),
      json_opt JBool (globalDenyMatch request),
      json_opt JBool (globalApprovalFloorMatch request),
      json_opt JBool (workflowPermitted request),
      json_opt (JStr \<circ> effect_str) (ceilingEffect request),
      json_opt JBool (contextRequiresApproval request),
      json_opt JBool (sandboxRequired request),
      JBool (gateRequired request),
      json_opt JBool (gateSatisfied request),
      JBool (explicitAllowMatch request),
      JBool (explicitRequireApprovalMatch request),
      JBool (explicitDenyMatch request),
      JBool (exactValidApprovalPresent request),
      JBool (targetsProtectedBranch request = Some True),
      JBool (mergesProtectedBranch request = Some True)]"

definition inputFingerprint :: "(json \<Rightarrow> string) \<Rightarrow> evaluation_request \<Rightarrow> string" where
  "inputFingerprint sha request = sha (JArr (fingerprintPayload request))"

text \<open>The evaluator sees the request through its \<open>EvaluationInput\<close> part.\<close>

definition request_input :: "evaluation_request \<Rightarrow> evaluation_input" where
  "request_input r = evaluation_input.truncate r"

definition obligation_json :: "obligation \<Rightarrow> json" where
  "obligation_json ob =
     (case ob of
        ExecutionEnvironment e \<Rightarrow>
          JObj [(''kind'', JStr ''execution_environment''),
                (''environment'', JStr (case e of Sandbox_required \<Rightarrow> ''sandbox_required'' | Devguard_service \<Rightarrow> ''devguard_service''))]
      | NetworkPolicy m al \<Rightarrow>
          JObj ([(''kind'', JStr ''network_policy''),
                 (''mode'', JStr (case m of Default_deny \<Rightarrow> ''default_deny'' | Allowlist \<Rightarrow> ''allowlist''))] @
                (case al of None \<Rightarrow> [] | Some xs \<Rightarrow> [(''allowlist'', JArr (map JStr xs))]))
      | TimeoutMs v \<Rightarrow> JObj [(''kind'', JStr ''timeout_ms''), (''value'', JNum v)]
      | ResourceCeiling c m d \<Rightarrow>
          JObj ([(''kind'', JStr ''resource_ceiling'')] @
                (case c of None \<Rightarrow> [] | Some x \<Rightarrow> [(''cpuCores'', JNum x)]) @
                (case m of None \<Rightarrow> [] | Some x \<Rightarrow> [(''memoryMb'', JNum x)]) @
                (case d of None \<Rightarrow> [] | Some x \<Rightarrow> [(''diskMb'', JNum x)]))
      | SecretGrant ns \<Rightarrow> JObj [(''kind'', JStr ''secret_grant''), (''names'', JArr (map JStr ns))])"

definition rule_json :: "matched_rule \<Rightarrow> json" where
  "rule_json r =
     JObj [(''stage'', JNum (int (stage r))), (''ruleId'', JStr (ruleId r)),
           (''effect'', JStr (effect_str (rule_effect r))), (''explanation'', JStr (rule_explanation r))]"

definition record_json :: "decision_record \<Rightarrow> json" where
  "record_json d =
     JObj [(''id'', JStr (d_id d)), (''workflowRunId'', JStr (d_workflowRunId d)),
           (''actionOperationKey'', JStr (d_actionOperationKey d)), (''effect'', JStr (effect_str (d_effect d))),
           (''reasonCode'', JStr (d_reasonCode d)), (''obligations'', JArr (map obligation_json (d_obligations d))),
           (''matchedRules'', JArr (map rule_json (d_matchedRules d))), (''explanation'', JStr (d_explanation d)),
           (''inputFingerprint'', JStr (d_inputFingerprint d)), (''policySnapshotId'', JStr (d_policySnapshotId d)),
           (''currentPolicyVersionId'', JStr (d_currentPolicyVersionId d)),
           (''globalSafetyVersionId'', JStr (d_globalSafetyVersionId d)),
           (''registrySnapshotId'', JStr (d_registrySnapshotId d)),
           (''evaluatorVersion'', JStr (d_evaluatorVersion d)), (''createdAtIso'', JStr (d_createdAtIso d))]"

definition decisionHash :: "(json \<Rightarrow> string) \<Rightarrow> decision_record \<Rightarrow> string" where
  "decisionHash sha d = sha (record_json d)"

text \<open>\<open>evaluate\<close> returns the record together with its \<open>outcomeHash\<close>.\<close>

definition evaluate ::
  "(json \<Rightarrow> string) \<Rightarrow> (string \<Rightarrow> string \<Rightarrow> int) \<Rightarrow> string \<Rightarrow> evaluation_request \<Rightarrow> string \<Rightarrow>
   decision_record \<times> string" where
  "evaluate sha lc newId request nowIso =
     (let fp = inputFingerprint sha request;
          outcome = evaluatePrecedence lc (request_input request);
          rec = \<lparr>d_id = newId,
                 d_workflowRunId = workflowRunId request,
                 d_actionOperationKey = actionOperationKey request,
                 d_effect = effect outcome,
                 d_reasonCode = reasonCode outcome,
                 d_obligations = obligations outcome,
                 d_matchedRules = matchedRules outcome,
                 d_explanation = explanation outcome,
                 d_inputFingerprint = fp,
                 d_policySnapshotId = policySnapshotId request,
                 d_currentPolicyVersionId = currentPolicyVersionId request,
                 d_globalSafetyVersionId = globalSafetyVersionId request,
                 d_registrySnapshotId = registrySnapshotId request,
                 d_evaluatorVersion = EVALUATOR_VERSION,
                 d_createdAtIso = nowIso\<rparr>
      in (rec, decisionHash sha rec))"

subsection \<open>Evaluation bound to storage\<close>

record outbox_event =
  eventType :: string
  payload :: json

datatype persistence_call = PersistAttemptAndDecision decision_record string outbox_event

datatype evaluation_error = DecisionStoreUnavailable string

definition decision_event :: "decision_record \<Rightarrow> outbox_event" where
  "decision_event d =
     \<lparr>eventType =
        (if d_effect d = ALLOW then ''action.authorized''
         else if d_effect d = REQUIRE_APPROVAL then ''approval.required''
         else ''action.denied''),
      payload =
        JObj [(''decisionId'', JStr (d_id d)), (''workflowRunId'', JStr (d_workflowRunId d)),
              (''actionOperationKey'', JStr (d_actionOperationKey d)),
              (''effect'', JStr (effect_str (d_effect d))), (''reasonCode'', JStr (d_reasonCode d))]\<rparr>"

text \<open>
  \<open>persist\<close> is what the storage port answers: \<open>Inl\<close> carries the message of a rejected promise.
\<close>

definition evaluateAndPersist ::
  "(json \<Rightarrow> string) \<Rightarrow> (string \<Rightarrow> string \<Rightarrow> int) \<Rightarrow> (int \<Rightarrow> string) \<Rightarrow> string \<Rightarrow>
   (persistence_call \<Rightarrow> string + unit) \<Rightarrow> evaluation_request \<Rightarrow> int \<Rightarrow>
   (persistence_call, evaluation_error, decision_record \<times> string) traced" where
  "evaluateAndPersist sha lc toISOString newId persist request nowMs =
     (let rec = evaluate sha lc newId request (toISOString nowMs);
          c = PersistAttemptAndDecision (fst rec) (snd rec) (decision_event (fst rec))
      in bindT
           (callT c
              (case persist c of
                 Inl msg \<Rightarrow> Inl (DecisionStoreUnavailable (''decision persistence failed; no action may be dispatched ('' @ msg @ '')''))
               | Inr _ \<Rightarrow> Inr ()))
           (\<lambda>_. retT rec))"

subsection \<open>Dispatch tokens\<close>

record action_token =
  t_decisionId :: string
  t_tokenHash :: string
  t_operationFingerprint :: string
  t_expiresAtMs :: int

definition issueToken ::
  "(string \<Rightarrow> string) \<Rightarrow> decision_record \<Rightarrow> int \<Rightarrow> int \<Rightarrow> string + action_token" where
  "issueToken sha256 d ttlMs nowMs =
     (if d_effect d \<noteq> ALLOW then Inl ''cannot issue a dispatch token for a non-ALLOW decision''
      else Inr \<lparr>t_decisionId = d_id d,
                t_tokenHash = sha256 (js_join ''|'' [d_id d, d_inputFingerprint d, js_int_str (nowMs + ttlMs)]),
                t_operationFingerprint = d_inputFingerprint d,
                t_expiresAtMs = nowMs + ttlMs\<rparr>)"

datatype dispatch_verdict = DispatchAllowed | DispatchRefused string

definition verifyDispatch :: "action_token \<Rightarrow> string \<Rightarrow> int \<Rightarrow> dispatch_verdict" where
  "verifyDispatch token currentFingerprint nowMs =
     (if nowMs \<ge> t_expiresAtMs token then DispatchRefused ''DECISION_STALE''
      else if t_operationFingerprint token \<noteq> currentFingerprint then DispatchRefused ''CONTEXT_CHANGED''
      else DispatchAllowed)"

section \<open>Properties\<close>

lemma evaluate_record:
  "fst (evaluate sha lc n r t) = d \<Longrightarrow>
     d_effect d = precedence_spec (request_input r) \<and> d_inputFingerprint d = inputFingerprint sha r \<and>
     d_id d = n \<and> d_createdAtIso d = t"
  by (auto simp: evaluate_def Let_def evaluate_effect)

lemma request_input_sel [simp]:
  "actionId (request_input r) = actionId r" "riskClass (request_input r) = riskClass r"
  "repositoryDenyMatch (request_input r) = repositoryDenyMatch r"
  "globalDenyMatch (request_input r) = globalDenyMatch r"
  "globalApprovalFloorMatch (request_input r) = globalApprovalFloorMatch r"
  "workflowPermitted (request_input r) = workflowPermitted r"
  "ceilingEffect (request_input r) = ceilingEffect r"
  "contextRequiresApproval (request_input r) = contextRequiresApproval r"
  "sandboxRequired (request_input r) = sandboxRequired r"
  "gateSatisfied (request_input r) = gateSatisfied r"
  "gateRequired (request_input r) = gateRequired r"
  "explicitAllowMatch (request_input r) = explicitAllowMatch r"
  "explicitRequireApprovalMatch (request_input r) = explicitRequireApprovalMatch r"
  "explicitDenyMatch (request_input r) = explicitDenyMatch r"
  "exactValidApprovalPresent (request_input r) = exactValidApprovalPresent r"
  "targetsProtectedBranch (request_input r) = targetsProtectedBranch r"
  "mergesProtectedBranch (request_input r) = mergesProtectedBranch r"
  by (simp_all add: request_input_def evaluation_input.truncate_def)

lemma risk_str_inject [simp]: "risk_str a = risk_str b \<longleftrightarrow> a = b"
  by (cases a; cases b) simp_all

lemma effect_str_inject [simp]: "effect_str a = effect_str b \<longleftrightarrow> a = b"
  by (cases a; cases b) simp_all

lemma json_opt_risk_eq: "json_opt (JStr \<circ> risk_str) x = json_opt (JStr \<circ> risk_str) y \<longleftrightarrow> x = y"
  by (auto simp: json_opt_def split: option.splits)

lemma json_opt_effect_eq: "json_opt (JStr \<circ> effect_str) x = json_opt (JStr \<circ> effect_str) y \<longleftrightarrow> x = y"
  by (auto simp: json_opt_def split: option.splits)

text \<open>The payload determines the decision: equal payloads are decided alike.\<close>

lemma fingerprint_determines_spec:
  assumes "fingerprintPayload r = fingerprintPayload r'"
  shows "precedence_spec (request_input r) = precedence_spec (request_input r')"
proof -
  from assms have eqs: "actionId r = actionId r'" "riskClass r = riskClass r'"
    "repositoryDenyMatch r = repositoryDenyMatch r'" "globalDenyMatch r = globalDenyMatch r'"
    "globalApprovalFloorMatch r = globalApprovalFloorMatch r'" "workflowPermitted r = workflowPermitted r'"
    "ceilingEffect r = ceilingEffect r'" "contextRequiresApproval r = contextRequiresApproval r'"
    "sandboxRequired r = sandboxRequired r'" "gateRequired r = gateRequired r'"
    "gateSatisfied r = gateSatisfied r'" "explicitAllowMatch r = explicitAllowMatch r'"
    "explicitRequireApprovalMatch r = explicitRequireApprovalMatch r'"
    "explicitDenyMatch r = explicitDenyMatch r'"
    "exactValidApprovalPresent r = exactValidApprovalPresent r'"
    "truthy (targetsProtectedBranch r) = truthy (targetsProtectedBranch r')"
    "truthy (mergesProtectedBranch r) = truthy (mergesProtectedBranch r')"
    by (simp_all add: fingerprintPayload_def json_opt_risk_eq json_opt_effect_eq)
  then show ?thesis
    by (simp add: precedence_spec_def hard_deny_def gate_open_def approval_floor_def unknownDimensions_def)
qed

text \<open>
  A decision is persisted before it is returned: the service makes exactly one
  port call, with the very record it returns and the outbox event of its effect; when the port
  fails it throws and returns no decision, so nothing can be dispatched.
\<close>

theorem evaluateAndPersist_persists_before_return:
  "let out = evaluateAndPersist sha lc toISO n persist r now;
       rec = evaluate sha lc n r (toISO now);
       c = PersistAttemptAndDecision (fst rec) (snd rec) (decision_event (fst rec))
   in fst out = [c] \<and>
      (case persist c of
         Inl msg \<Rightarrow> \<exists>m. snd out = Inl (DecisionStoreUnavailable m)
       | Inr _ \<Rightarrow> snd out = Inr rec)"
  by (simp add: evaluateAndPersist_def Let_def traced_simps split: sum.splits)

text \<open>
  Property C30.  End to end: if a token was issued from the decision evaluated for one request
  and it verifies against the fingerprint of another request, then the second request is one
  the policy itself allows, and the check happened strictly before expiry -- provided the
  digest does not collide on the two payloads.
\<close>

theorem dispatched_action_is_allowed:
  assumes token: "issueToken h (fst (evaluate sha lc n r t)) ttl issuedAt = Inr tok"
    and verified: "verifyDispatch tok (inputFingerprint sha r') now = DispatchAllowed"
    and no_collision: "sha (JArr (fingerprintPayload r)) = sha (JArr (fingerprintPayload r')) \<Longrightarrow>
           fingerprintPayload r = fingerprintPayload r'"
  shows "effect (evaluatePrecedence lc (request_input r')) = ALLOW \<and> now < issuedAt + ttl"
proof -
  from token have allow: "d_effect (fst (evaluate sha lc n r t)) = ALLOW"
    and tok: "t_operationFingerprint tok = d_inputFingerprint (fst (evaluate sha lc n r t))"
      "t_expiresAtMs tok = issuedAt + ttl"
    by (auto simp: issueToken_def split: if_splits)
  from allow have spec: "precedence_spec (request_input r) = ALLOW"
    using evaluate_record [OF refl, of sha lc n r t] by simp
  from verified tok have "inputFingerprint sha r = inputFingerprint sha r'" and "now < issuedAt + ttl"
    using evaluate_record [OF refl, of sha lc n r t]
    by (auto simp: verifyDispatch_def split: if_splits)
  then have "fingerprintPayload r = fingerprintPayload r'"
    using no_collision by (simp add: inputFingerprint_def)
  then have "precedence_spec (request_input r') = ALLOW"
    using fingerprint_determines_spec spec by metis
  with \<open>now < issuedAt + ttl\<close> show ?thesis by (simp add: evaluate_effect)
qed

definition sample_request :: evaluation_request where
  "sample_request = evaluation_input.extend sample_input
     \<lparr>repositoryId = ''r'', workflowRunId = ''w'', actionOperationKey = ''op'', policySnapshotId = ''ps'',
      currentPolicyVersionId = ''pv'', globalSafetyVersionId = ''gs'', registrySnapshotId = ''rs''\<rparr>"

theorem dispatched_action_is_allowed_witness:
  "\<exists>tok. issueToken id (fst (evaluate (\<lambda>_. ''h'') js_compare ''d1'' sample_request ''t'')) 1000 5 = Inr tok \<and>
     verifyDispatch tok (inputFingerprint (\<lambda>_. ''h'') sample_request) 6 = DispatchAllowed \<and>
     effect (evaluatePrecedence js_compare (request_input sample_request)) = ALLOW \<and> (6::int) < 5 + 1000"
proof -
  let ?rec = "fst (evaluate (\<lambda>_. ''h'') js_compare ''d1'' sample_request ''t'')"
  have req: "request_input sample_request = sample_input"
    by (simp add: request_input_def sample_request_def evaluation_input.truncate_def evaluation_input.extend_def sample_input_def)
  have allow: "d_effect ?rec = ALLOW"
    using evaluate_record [OF refl, of "\<lambda>_. ''h''" js_compare "''d1''" sample_request "''t''"] req
    by (simp add: sample_simps)
  then obtain tok where tok: "issueToken id ?rec 1000 5 = Inr tok"
    and sel: "t_operationFingerprint tok = d_inputFingerprint ?rec" "t_expiresAtMs tok = 5 + 1000"
    by (auto simp: issueToken_def)
  have v: "verifyDispatch tok (inputFingerprint (\<lambda>_. ''h'') sample_request) 6 = DispatchAllowed"
    using evaluate_record [OF refl, of "\<lambda>_. ''h''" js_compare "''d1''" sample_request "''t''"] sel
    by (simp add: verifyDispatch_def)
  from dispatched_action_is_allowed [OF tok v refl] tok v show ?thesis by blast
qed

end
