(* ===== verification/Action_Catalog.thy ===== *)
theory Action_Catalog
  imports Policy_Contracts
begin

text \<open>
  The action taxonomy of \<open>packages/policy-engine/src/actions/catalog.ts\<close>: the builders, the
  catalogue itself in source order, the alias table of the public policy vocabulary, lookup
  and the catalogue validator.
\<close>

datatype action_category =
    Repository_read | Workspace_write | Github_write | Collaboration | Validation
  | Sandbox | Administration | External_effect | Destructive_category

record action_definition =
  a_id :: string
  category :: action_category
  baselineRisk :: risk_class
  reversible :: bool
  privileged :: bool
  defaultEffect :: decision_effect
  requiredContext :: "string list"
  a_obligations :: "obligation list"

definition SANDBOX_ONLY :: obligation where "SANDBOX_ONLY = ExecutionEnvironment Sandbox_required"
definition NETWORK_DENY :: obligation where "NETWORK_DENY = NetworkPolicy Default_deny None"
definition READ_TIMEOUT :: obligation where "READ_TIMEOUT = TimeoutMs 60000"
definition BUILD_TIMEOUT :: obligation where "BUILD_TIMEOUT = TimeoutMs 600000"
definition RESOURCES_DEFAULT :: obligation where
  "RESOURCES_DEFAULT = ResourceCeiling (Some 2) (Some 2048) (Some 8192)"

definition read :: "string \<Rightarrow> string list \<Rightarrow> action_definition" where
  "read i context =
     \<lparr>a_id = i, category = Repository_read, baselineRisk = Read, reversible = True, privileged = False,
      defaultEffect = ALLOW, requiredContext = context, a_obligations = [NETWORK_DENY, READ_TIMEOUT]\<rparr>"

definition workspace :: "string \<Rightarrow> action_definition" where
  "workspace i =
     \<lparr>a_id = i, category = Workspace_write, baselineRisk = Reversible_write, reversible = True,
      privileged = False, defaultEffect = ALLOW, requiredContext = [], a_obligations = [SANDBOX_ONLY]\<rparr>"

definition gitWrite :: "string \<Rightarrow> action_definition" where
  "gitWrite i =
     \<lparr>a_id = i, category = Github_write, baselineRisk = Reversible_write, reversible = True,
      privileged = False, defaultEffect = ALLOW, requiredContext = [''target.ref''],
      a_obligations = [NETWORK_DENY]\<rparr>"

definition sandboxCmd :: "string \<Rightarrow> risk_class \<Rightarrow> obligation list \<Rightarrow> action_definition" where
  "sandboxCmd i baseline obls =
     \<lparr>a_id = i, category = Sandbox, baselineRisk = baseline, reversible = True, privileged = False,
      defaultEffect = ALLOW, requiredContext = [''command.fingerprint''],
      a_obligations = obls @ [SANDBOX_ONLY]\<rparr>"

definition sensitive :: "string \<Rightarrow> decision_effect \<Rightarrow> action_definition" where
  "sensitive i e =
     \<lparr>a_id = i, category = Administration,
      baselineRisk = (if e = DENY then Destructive else Sensitive_write), reversible = False,
      privileged = True, defaultEffect = e, requiredContext = [''target.id''],
      a_obligations = [NETWORK_DENY]\<rparr>"

definition destructive :: "string \<Rightarrow> decision_effect \<Rightarrow> action_definition" where
  "destructive i e =
     \<lparr>a_id = i, category = Destructive_category, baselineRisk = Destructive, reversible = False,
      privileged = True, defaultEffect = e, requiredContext = [''target.id''],
      a_obligations = [NETWORK_DENY]\<rparr>"

definition external :: "string \<Rightarrow> action_definition" where
  "external i =
     \<lparr>a_id = i, category = External_effect, baselineRisk = External_side_effect, reversible = False,
      privileged = True, defaultEffect = REQUIRE_APPROVAL, requiredContext = [''target.environment''],
      a_obligations = [NETWORK_DENY]\<rparr>"

definition validationAct :: "string \<Rightarrow> risk_class \<Rightarrow> action_definition" where
  "validationAct i baseline =
     \<lparr>a_id = i, category = Validation, baselineRisk = baseline, reversible = True, privileged = False,
      defaultEffect = ALLOW, requiredContext = [], a_obligations = [NETWORK_DENY, READ_TIMEOUT]\<rparr>"

lemmas builder_defs = read_def workspace_def gitWrite_def sandboxCmd_def sensitive_def destructive_def
  external_def validationAct_def SANDBOX_ONLY_def NETWORK_DENY_def READ_TIMEOUT_def BUILD_TIMEOUT_def
  RESOURCES_DEFAULT_def

definition ACTION_DEFINITIONS :: "action_definition list" where
  "ACTION_DEFINITIONS =
     [read ''repository_read'' [],
      read ''issue_read'' [],
      read ''issue_comments_read'' [],
      read ''content_read'' [''target.ref''],
      read ''tree_list'' [''target.ref''],
      read ''branch_read'' [],
      read ''commit_compare'' [''operation.baseSha'', ''operation.headSha''],
      read ''pull_request_read'' [],
      read ''review_read'' [],
      read ''checks_read'' [],
      read ''workflow_logs_read'' [],
      read ''repository_metadata_read'' [],
      workspace ''workspace_create'',
      workspace ''workspace_write_file'',
      workspace ''workspace_delete_file'',
      workspace ''workspace_apply_patch'',
      workspace ''workspace_collect_artifact'',
      workspace ''workspace_destroy'',
      sandboxCmd ''sandbox_run_readonly'' Read [NETWORK_DENY, READ_TIMEOUT, RESOURCES_DEFAULT],
      sandboxCmd ''sandbox_run_dependency_freshness'' Read
        [NetworkPolicy Allowlist (Some [''registry.npmjs.org'', ''registry.yarnpkg.com'', ''pypi.org'']),
         BUILD_TIMEOUT, RESOURCES_DEFAULT],
      sandboxCmd ''sandbox_run_build'' Reversible_write [NETWORK_DENY, BUILD_TIMEOUT, RESOURCES_DEFAULT],
      sandboxCmd ''sandbox_run_test'' Reversible_write [NETWORK_DENY, BUILD_TIMEOUT, RESOURCES_DEFAULT],
      sandboxCmd ''sandbox_run_lint'' Read [NETWORK_DENY, READ_TIMEOUT, RESOURCES_DEFAULT],
      sandboxCmd ''sandbox_run_typecheck'' Read [NETWORK_DENY, READ_TIMEOUT, RESOURCES_DEFAULT],
      sandboxCmd ''sandbox_run_security_scan'' Read
        [NetworkPolicy Allowlist (Some [''api.github.com'']), BUILD_TIMEOUT, RESOURCES_DEFAULT],
      sandboxCmd ''sandbox_install_dependency'' Reversible_write
        [NetworkPolicy Allowlist (Some [''registry.npmjs.org'']), BUILD_TIMEOUT, RESOURCES_DEFAULT],
      sandboxCmd ''sandbox_run_networked'' Reversible_write [BUILD_TIMEOUT, RESOURCES_DEFAULT],
      sandboxCmd ''sandbox_run_migration_simulation'' Sensitive_write
        [NETWORK_DENY, BUILD_TIMEOUT, RESOURCES_DEFAULT],
      gitWrite ''branch_create'',
      gitWrite ''commit_create'',
      gitWrite ''branch_push'',
      gitWrite ''pull_request_create'',
      gitWrite ''pull_request_update'',
      gitWrite ''pull_request_comment'',
      gitWrite ''review_request'',
      sensitive ''protected_branch_write'' REQUIRE_APPROVAL,
      sensitive ''ci_workflow_modify'' REQUIRE_APPROVAL,
      sensitive ''branch_delete'' REQUIRE_APPROVAL,
      sensitive ''repository_settings_modify'' DENY,
      sensitive ''secret_config_modify'' DENY,
      destructive ''default_branch_history_rewrite'' DENY,
      destructive ''pull_request_merge'' REQUIRE_APPROVAL,
      destructive ''repository_delete'' DENY,
      destructive ''repository_content_permanent_delete'' DENY,
      destructive ''credential_rotate_or_remove'' DENY,
      destructive ''destructive_migration'' DENY,
      destructive ''issue_destructive_close'' REQUIRE_APPROVAL,
      external ''production_deploy'',
      external ''external_notification_send'',
      external ''billing_resource_create'',
      external ''production_settings_modify'',
      validationAct ''validation_run'' Read,
      validationAct ''security_finding_record'' Reversible_write,
      validationAct ''workflow_cancel'' Reversible_write,
      validationAct ''approval_checkpoint_create'' Reversible_write]"

definition PUBLIC_ACTION_ALIASES :: "(string \<times> string) list" where
  "PUBLIC_ACTION_ALIASES =
     [(''repository.read'', ''repository_read''),
      (''issue.read'', ''issue_read''),
      (''file.read'', ''content_read''),
      (''check.read'', ''checks_read''),
      (''review.read'', ''review_read''),
      (''branch.write'', ''branch_create''),
      (''commit.write'', ''commit_create''),
      (''pull_request.write'', ''pull_request_update''),
      (''pull_request.merge'', ''pull_request_merge''),
      (''sandbox.command'', ''sandbox_run_readonly''),
      (''issue.write'', ''issue_destructive_close'')]"

definition normalizeActionId :: "string \<Rightarrow> string" where
  "normalizeActionId i = (case map_of PUBLIC_ACTION_ALIASES i of Some x \<Rightarrow> x | None \<Rightarrow> i)"

text \<open>
  \<open>BY_ID\<close> is a \<open>Map\<close> built from the list; a later entry would replace an earlier one with the
  same key, so lookup reads the list from its end.
\<close>

definition BY_ID :: "string \<Rightarrow> action_definition option" where
  "BY_ID i = map_of (rev (map (\<lambda>d. (a_id d, d)) ACTION_DEFINITIONS)) i"

definition findActionDefinition :: "string \<Rightarrow> action_definition option" where
  "findActionDefinition i = BY_ID (normalizeActionId i)"

text \<open>The grammar \<open>/^[a-z][a-z0-9_]*$/\<close> and the validator's problem list.\<close>

fun id_grammar :: "string \<Rightarrow> bool" where
  "id_grammar [] = False"
| "id_grammar (c # cs) =
     (lower_letter c \<and> list_all (\<lambda>d. lower_letter d \<or> js_digit d \<or> d = CHR ''_'') cs)"

definition bool_str :: "bool \<Rightarrow> string" where
  "bool_str b = (if b then ''true'' else ''false'')"

definition definition_problems :: "string list \<Rightarrow> action_definition \<Rightarrow> string list" where
  "definition_problems seen d =
     (if \<not> id_grammar (a_id d) then [''action '' @ quoted (a_id d) @ '' violates ID grammar''] else []) @
     (if a_id d \<in> set seen then [''duplicate action '' @ quoted (a_id d)] else []) @
     (if defaultEffect d = ALLOW \<and> (privileged d \<or> \<not> reversible d)
      then [''action '' @ quoted (a_id d) @ '' defaults ALLOW while privileged='' @ bool_str (privileged d) @
            '' reversible='' @ bool_str (reversible d)] else []) @
     (if baselineRisk d = Destructive \<and> reversible d
      then [''action '' @ quoted (a_id d) @ '' destructive but flagged reversible''] else [])"

fun catalog_problems :: "string list \<Rightarrow> action_definition list \<Rightarrow> string list" where
  "catalog_problems seen [] = []"
| "catalog_problems seen (d # ds) = definition_problems seen d @ catalog_problems (a_id d # seen) ds"

definition validateCatalog :: "string list" where
  "validateCatalog = catalog_problems [] ACTION_DEFINITIONS"

section \<open>Properties\<close>

lemma catalog_ids_distinct: "distinct (map a_id ACTION_DEFINITIONS)"
  by code_simp

lemma catalog_problems_empty:
  "catalog_problems seen ds = [] \<longleftrightarrow>
     list_all (\<lambda>d. definition_problems [] d = []) ds \<and> distinct (map a_id ds) \<and> set seen \<inter> a_id ` set ds = {}"
  by (induction ds arbitrary: seen) (auto simp: definition_problems_def)

lemma BY_ID_mem: "BY_ID i = Some d \<Longrightarrow> d \<in> set ACTION_DEFINITIONS \<and> a_id d = i"
  unfolding BY_ID_def by (auto dest!: map_of_SomeD)

lemma BY_ID_complete:
  assumes "d \<in> set ACTION_DEFINITIONS"
  shows "BY_ID (a_id d) = Some d"
proof -
  let ?xs = "map (\<lambda>d. (a_id d, d)) ACTION_DEFINITIONS"
  have "distinct (map fst (rev ?xs))"
    using catalog_ids_distinct by (simp add: comp_def rev_map [symmetric])
  with assms show ?thesis
    unfolding BY_ID_def by (intro map_of_is_SomeI) auto
qed

lemma BY_ID_iff: "BY_ID i = Some d \<longleftrightarrow> d \<in> set ACTION_DEFINITIONS \<and> a_id d = i"
  using BY_ID_mem BY_ID_complete by blast

text \<open>
  The catalogue is publishable: the validator reports no problem (identifiers are
  well formed and unique, no privileged or irreversible action defaults to ALLOW, nothing
  destructive is flagged reversible), and every obligation it attaches lies within the bounds
  of the shared obligation schema.
\<close>

theorem catalog_is_publishable:
  "validateCatalog = [] \<and>
   list_all (\<lambda>d. list_all obligation_valid (a_obligations d)) ACTION_DEFINITIONS \<and>
   distinct (map a_id ACTION_DEFINITIONS) \<and> length ACTION_DEFINITIONS = 55"
proof (intro conjI)
  have "list_all (\<lambda>d. definition_problems [] d = []) ACTION_DEFINITIONS" by code_simp
  then show "validateCatalog = []" unfolding validateCatalog_def catalog_problems_empty
    using catalog_ids_distinct by simp
  show "list_all (\<lambda>d. list_all obligation_valid (a_obligations d)) ACTION_DEFINITIONS" by code_simp
  show "distinct (map a_id ACTION_DEFINITIONS)" by (rule catalog_ids_distinct)
  show "length ACTION_DEFINITIONS = 55" by code_simp
qed

text \<open>
  Of the eighteen action types a repository policy may name, exactly seven resolve
  to a catalogue entry; the other eleven have neither an alias nor an entry, so every policy
  grant that names one of them is answered with an unknown action.  Two of the seven resolve to
  an entry of a different risk class than the shared contract assigns: a sandbox command (an
  external side effect) becomes a read.
\<close>

theorem public_vocabulary_coverage:
  "filter (\<lambda>t. findActionDefinition (action_type_id t) \<noteq> None) ActionTypes =
     [RepositoryRead, IssueRead, FileRead, CheckRead, ReviewRead, PullRequestMerge, SandboxCommand] \<and>
   map_option baselineRisk (findActionDefinition (action_type_id SandboxCommand)) = Some Read \<and>
   riskClassForAction SandboxCommand = External_side_effect \<and>
   map_option baselineRisk (findActionDefinition (action_type_id PullRequestMerge)) = Some Destructive \<and>
   riskClassForAction PullRequestMerge = Sensitive_write"
proof (intro conjI)
  show "filter (\<lambda>t. findActionDefinition (action_type_id t) \<noteq> None) ActionTypes =
     [RepositoryRead, IssueRead, FileRead, CheckRead, ReviewRead, PullRequestMerge, SandboxCommand]"
    by code_simp
  show "map_option baselineRisk (findActionDefinition (action_type_id SandboxCommand)) = Some Read"
    by code_simp
  show "map_option baselineRisk (findActionDefinition (action_type_id PullRequestMerge)) = Some Destructive"
    by code_simp
qed simp_all

end
