(* ===== verification/Safety.thy ===== *)
theory Safety
  imports Action_Catalog "HOL-Library.AList"
begin

text \<open>
  The global safety rules and autonomy profiles of
  \<open>packages/policy-engine/src/safety/catalog.ts\<close> and the \<open>SafetyConstraintService\<close> of
  \<open>safety/service.ts\<close>.  The two \<open>Map\<close> indexes of the service are association lists in
  insertion order (\<open>Map.set\<close> on a present key keeps its place, as \<open>AList.update\<close> does).
\<close>

datatype restriction_source = GLOBAL_SAFETY | AUTONOMY_CEILING | REPOSITORY_DENY

record restriction =
  source :: restriction_source
  minimumEffect :: decision_effect
  r_ruleId :: string
  r_explanation :: string
  nonOverridable :: bool

definition GLOBAL_SAFETY_VERSION :: string where "GLOBAL_SAFETY_VERSION = ''global-safety@1''"

record global_rule =
  g_id :: string
  denyActions :: "string list option"
  approvalFloorActions :: "string list option"
  g_explanation :: string

definition DENY_ALL_LEVELS_ACTIONS :: "string list" where
  "DENY_ALL_LEVELS_ACTIONS =
     [''repository_delete'', ''repository_content_permanent_delete'', ''credential_rotate_or_remove'',
      ''destructive_migration'', ''default_branch_history_rewrite'', ''repository_settings_modify'',
      ''secret_config_modify'']"

definition APPROVAL_FLOOR_ACTIONS :: "string list" where
  "APPROVAL_FLOOR_ACTIONS =
     [''pull_request_merge'', ''protected_branch_write'', ''ci_workflow_modify'', ''branch_delete'',
      ''issue_destructive_close'', ''production_deploy'', ''production_settings_modify'',
      ''billing_resource_create'']"

definition rule_deny_administration :: global_rule where
  "rule_deny_administration =
     \<lparr>g_id = ''global-deny-destructive-administration'',
      denyActions = Some DENY_ALL_LEVELS_ACTIONS,
      approvalFloorActions = None,
      g_explanation = ''repository deletion, irreversible content/history operations, credential and settings administration are globally denied in MVP''\<rparr>"

definition rule_floor_privileged :: global_rule where
  "rule_floor_privileged =
     \<lparr>g_id = ''global-approval-floor-privileged'',
      denyActions = None,
      approvalFloorActions = Some APPROVAL_FLOOR_ACTIONS,
      g_explanation = ''privileged merge/protected/external actions require exact durable human approval even under autonomous autonomy''\<rparr>"

definition GLOBAL_RULES :: "global_rule list" where
  "GLOBAL_RULES = [rule_deny_administration, rule_floor_privileged]"

subsection \<open>Autonomy profiles\<close>

record autonomy_profile =
  level :: autonomy_level
  automaticActions :: "string list"
  approvalRequiredActions :: "string list"
  deniedActions :: "string list"

definition READ_ACTIONS :: "string list" where
  "READ_ACTIONS =
     [''repository_read'', ''issue_read'', ''issue_comments_read'', ''content_read'', ''tree_list'',
      ''branch_read'', ''commit_compare'', ''pull_request_read'', ''review_read'', ''checks_read'',
      ''workflow_logs_read'', ''repository_metadata_read'']"

definition SANDBOX_ACTIONS :: "string list" where
  "SANDBOX_ACTIONS =
     [''workspace_create'', ''workspace_write_file'', ''workspace_delete_file'', ''workspace_apply_patch'',
      ''workspace_collect_artifact'', ''workspace_destroy'', ''sandbox_run_readonly'',
      ''sandbox_run_dependency_freshness'', ''sandbox_run_build'', ''sandbox_run_test'', ''sandbox_run_lint'',
      ''sandbox_run_typecheck'', ''sandbox_run_security_scan'', ''sandbox_run_migration_simulation'',
      ''validation_run'', ''security_finding_record'', ''workflow_cancel'', ''approval_checkpoint_create'']"

definition REVERSIBLE_GIT_WRITES :: "string list" where
  "REVERSIBLE_GIT_WRITES =
     [''branch_create'', ''commit_create'', ''branch_push'', ''pull_request_create'', ''pull_request_update'',
      ''pull_request_comment'', ''review_request'', ''sandbox_install_dependency'', ''sandbox_run_networked'']"

definition AUTONOMY_PROFILES :: "autonomy_level \<Rightarrow> autonomy_profile" where
  "AUTONOMY_PROFILES l =
     (case l of
        Assist \<Rightarrow>
          \<lparr>level = Assist,
           automaticActions = js_nub (READ_ACTIONS @ SANDBOX_ACTIONS),
           approvalRequiredActions = [],
           deniedActions = js_nub (REVERSIBLE_GIT_WRITES @ APPROVAL_FLOOR_ACTIONS @
             [''external_notification_send'', ''production_deploy'', ''billing_resource_create''] @
             DENY_ALL_LEVELS_ACTIONS)\<rparr>
      | _ \<Rightarrow>
          \<lparr>level = l,
           automaticActions = js_nub (READ_ACTIONS @ SANDBOX_ACTIONS @ REVERSIBLE_GIT_WRITES),
           approvalRequiredActions = js_nub (APPROVAL_FLOOR_ACTIONS @ [''external_notification_send'']),
           deniedActions = js_nub DENY_ALL_LEVELS_ACTIONS\<rparr>)"

definition profileForLevel :: "autonomy_level \<Rightarrow> autonomy_profile" where
  "profileForLevel l = AUTONOMY_PROFILES l"

definition AUTONOMY_LEVELS :: "autonomy_level list" where
  "AUTONOMY_LEVELS = [Assist, Developer, Trusted, Autonomous]"

fun level_str :: "autonomy_level \<Rightarrow> string" where
  "level_str Assist = ''assist''"
| "level_str Developer = ''developer''"
| "level_str Trusted = ''trusted''"
| "level_str Autonomous = ''autonomous''"

subsection \<open>The service\<close>

record classified_action =
  c_actionId :: string
  c_targetsProtectedBranch :: "bool option"
  c_mergesProtectedBranch :: "bool option"

definition restrictionRank :: "restriction \<Rightarrow> nat" where
  "restrictionRank r =
     (if minimumEffect r = DENY then 2 else if minimumEffect r = REQUIRE_APPROVAL then 1 else 0)"

definition byRuleId :: "(string \<Rightarrow> string \<Rightarrow> int) \<Rightarrow> restriction \<Rightarrow> restriction \<Rightarrow> int" where
  "byRuleId lc a b = lc (r_ruleId a) (r_ruleId b)"

record safety_service =
  denyIndex :: "(string \<times> global_rule) list"
  floorIndex :: "(string \<times> global_rule) list"
  catalogHash :: string

definition list_or_empty :: "'a list option \<Rightarrow> 'a list" where
  "list_or_empty xs = (case xs of None \<Rightarrow> [] | Some ys \<Rightarrow> ys)"

definition index_rules :: "(global_rule \<Rightarrow> string list option) \<Rightarrow> global_rule list \<Rightarrow> (string \<times> global_rule) list" where
  "index_rules f rules =
     fold (\<lambda>r idx. fold (\<lambda>a idx. AList.update a r idx) (list_or_empty (f r)) idx) rules []"

text \<open>
  \<open>#assertIntegrity\<close> with its three loops; the result is the message of the first
  \<open>SafetyCatalogError\<close>, if any.
\<close>

definition unknown_indexed :: "string list \<Rightarrow> (string \<times> global_rule) list \<Rightarrow> string option" where
  "unknown_indexed known idx =
     map_option (\<lambda>a. ''global rule references unknown action '' @ quoted a)
       (find (\<lambda>a. a \<notin> set known) (map fst idx))"

definition floored_and_denied :: "(string \<times> global_rule) list \<Rightarrow> (string \<times> global_rule) list \<Rightarrow> string option" where
  "floored_and_denied deny fl =
     map_option (\<lambda>a. ''action '' @ quoted a @ '' is both globally denied and approval-floored'')
       (find (\<lambda>a. a \<in> set (map fst deny)) (map fst fl))"

definition profile_unknown :: "string list \<Rightarrow> autonomy_level \<Rightarrow> string option" where
  "profile_unknown known l =
     (let p = AUTONOMY_PROFILES l
      in map_option (\<lambda>a. ''autonomy '' @ level_str l @ '' references unknown action '' @ quoted a)
           (find (\<lambda>a. a \<notin> set known)
              (automaticActions p @ approvalRequiredActions p @ deniedActions p)))"

fun first_some :: "'a option list \<Rightarrow> 'a option" where
  "first_some [] = None"
| "first_some (Some x # xs) = Some x"
| "first_some (None # xs) = first_some xs"

definition assertIntegrity ::
  "(string \<times> global_rule) list \<Rightarrow> (string \<times> global_rule) list \<Rightarrow> string option" where
  "assertIntegrity deny fl =
     (let known = map a_id ACTION_DEFINITIONS
      in first_some
           ([unknown_indexed known deny, unknown_indexed known fl, floored_and_denied deny fl] @
            map (profile_unknown known) AUTONOMY_LEVELS))"

definition catalog_hash_payload :: "(string \<times> global_rule) list \<Rightarrow> (string \<times> global_rule) list \<Rightarrow> json" where
  "catalog_hash_payload deny fl =
     JArr [JStr GLOBAL_SAFETY_VERSION, JArr (map JStr (sort (map fst deny))), JArr (map JStr (sort (map fst fl)))]"

definition new_SafetyConstraintService :: "(json \<Rightarrow> string) \<Rightarrow> string + safety_service" where
  "new_SafetyConstraintService sha =
     (let deny = index_rules denyActions GLOBAL_RULES; fl = index_rules approvalFloorActions GLOBAL_RULES
      in case assertIntegrity deny fl of
           Some msg \<Rightarrow> Inl msg
         | None \<Rightarrow> Inr \<lparr>denyIndex = deny, floorIndex = fl, catalogHash = sha (catalog_hash_payload deny fl)\<rparr>)"

definition protected_floor :: restriction where
  "protected_floor =
     \<lparr>source = GLOBAL_SAFETY, minimumEffect = REQUIRE_APPROVAL, r_ruleId = ''global-floor-protected-target'',
      r_explanation = ''operations on protected/default branches or their merges require human approval'',
      nonOverridable = True\<rparr>"

definition globalRestrictions ::
  "(string \<Rightarrow> string \<Rightarrow> int) \<Rightarrow> safety_service \<Rightarrow> classified_action \<Rightarrow> restriction list" where
  "globalRestrictions lc svc input =
     (let deny = map_of (denyIndex svc) (c_actionId input);
          fl = map_of (floorIndex svc) (c_actionId input)
      in js_sort (byRuleId lc)
          ((case deny of
              Some r \<Rightarrow> [\<lparr>source = GLOBAL_SAFETY, minimumEffect = DENY, r_ruleId = g_id r,
                         r_explanation = g_explanation r, nonOverridable = True\<rparr>]
            | None \<Rightarrow> []) @
           (case (deny, fl) of
              (None, Some r) \<Rightarrow> [\<lparr>source = GLOBAL_SAFETY, minimumEffect = REQUIRE_APPROVAL, r_ruleId = g_id r,
                         r_explanation = g_explanation r, nonOverridable = True\<rparr>]
            | _ \<Rightarrow> []) @
           (if deny = None \<and> (c_targetsProtectedBranch input = Some True \<or> c_mergesProtectedBranch input = Some True)
            then [protected_floor] else [])))"

definition autonomyRestrictions ::
  "(string \<Rightarrow> string \<Rightarrow> int) \<Rightarrow> autonomy_level \<Rightarrow> classified_action \<Rightarrow> restriction list" where
  "autonomyRestrictions lc l input =
     (let profile = profileForLevel l
      in js_sort (byRuleId lc)
          (if c_actionId input \<in> set (deniedActions profile) then
             [\<lparr>source = AUTONOMY_CEILING, minimumEffect = DENY, r_ruleId = ''ceiling-'' @ level_str l @ ''-deny'',
               r_explanation = quoted (c_actionId input) @ '' exceeds the '' @ quoted (level_str l) @ '' autonomy ceiling'',
               nonOverridable = True\<rparr>]
           else if c_actionId input \<in> set (approvalRequiredActions profile) then
             [\<lparr>source = AUTONOMY_CEILING, minimumEffect = REQUIRE_APPROVAL, r_ruleId = ''ceiling-'' @ level_str l @ ''-floor'',
               r_explanation = quoted (c_actionId input) @ '' requires durable human approval under '' @ quoted (level_str l),
               nonOverridable = True\<rparr>]
           else []))"

definition restrictionsFor ::
  "(string \<Rightarrow> string \<Rightarrow> int) \<Rightarrow> safety_service \<Rightarrow> autonomy_level \<Rightarrow> classified_action \<Rightarrow> restriction list" where
  "restrictionsFor lc svc l input =
     js_sort (byRuleId lc) (globalRestrictions lc svc input @ autonomyRestrictions lc l input)"

text \<open>\<open>validatePolicy\<close> returns (code, message) diagnostics for the allow list.\<close>

definition validatePolicy :: "safety_service \<Rightarrow> string list \<Rightarrow> (string \<times> string) list" where
  "validatePolicy svc allow =
     map (\<lambda>a. (''POLICY_CONFLICT'', ''action '' @ quoted a @ '' is globally denied and can never be allowed by repository policy''))
       (filter (\<lambda>a. map_of (denyIndex svc) a \<noteq> None) allow)"

section \<open>Properties\<close>

lemma update_fresh: "a \<notin> fst ` set idx \<Longrightarrow> AList.update a r idx = idx @ [(a, r)]"
  by (induction idx) auto

lemma fold_update_fresh:
  "distinct xs \<Longrightarrow> set xs \<inter> fst ` set idx = {} \<Longrightarrow>
     fold (\<lambda>a idx. AList.update a r idx) xs idx = idx @ map (\<lambda>a. (a, r)) xs"
proof (induction xs arbitrary: idx)
  case Nil
  then show ?case by simp
next
  case (Cons a xs)
  then have "set xs \<inter> fst ` set (idx @ [(a, r)]) = {}" by auto
  with Cons show ?case by (simp add: update_fresh)
qed

lemma distinct_global_actions: "distinct (DENY_ALL_LEVELS_ACTIONS @ APPROVAL_FLOOR_ACTIONS)"
  by code_simp

lemma deny_index_eq:
  "index_rules denyActions GLOBAL_RULES = map (\<lambda>a. (a, rule_deny_administration)) DENY_ALL_LEVELS_ACTIONS"
  using distinct_global_actions
  by (simp add: index_rules_def GLOBAL_RULES_def list_or_empty_def fold_update_fresh
      rule_deny_administration_def [THEN arg_cong [where f = denyActions]]
      rule_floor_privileged_def [THEN arg_cong [where f = denyActions]])

lemma floor_index_eq:
  "index_rules approvalFloorActions GLOBAL_RULES = map (\<lambda>a. (a, rule_floor_privileged)) APPROVAL_FLOOR_ACTIONS"
  using distinct_global_actions
  by (simp add: index_rules_def GLOBAL_RULES_def list_or_empty_def fold_update_fresh
      rule_deny_administration_def [THEN arg_cong [where f = approvalFloorActions]]
      rule_floor_privileged_def [THEN arg_cong [where f = approvalFloorActions]])

text \<open>The groups of the safety catalogue list every registered action exactly once.\<close>

definition safety_groups :: "string list" where
  "safety_groups = READ_ACTIONS @ SANDBOX_ACTIONS @ REVERSIBLE_GIT_WRITES @ APPROVAL_FLOOR_ACTIONS @
     [''external_notification_send''] @ DENY_ALL_LEVELS_ACTIONS"

lemma safety_groups_distinct: "distinct safety_groups"
  by code_simp

lemma safety_groups_registered: "set safety_groups = set (map a_id ACTION_DEFINITIONS)"
proof -
  have sub: "list_all (\<lambda>a. List.member (map a_id ACTION_DEFINITIONS) a) safety_groups"
    by code_simp
  have "length safety_groups = length ACTION_DEFINITIONS" by code_simp
  with safety_groups_distinct catalog_ids_distinct
  have "card (set safety_groups) = card (set (map a_id ACTION_DEFINITIONS))"
    by (metis distinct_card length_map)
  moreover from sub have "set safety_groups \<subseteq> set (map a_id ACTION_DEFINITIONS)"
    by (auto simp: list_all_iff)
  ultimately show ?thesis by (metis List.finite_set card_subset_eq)
qed

lemma group_disjoint:
  "a \<in> set DENY_ALL_LEVELS_ACTIONS \<Longrightarrow> a \<notin> set APPROVAL_FLOOR_ACTIONS \<and> a \<noteq> ''external_notification_send'' \<and>
     a \<notin> set REVERSIBLE_GIT_WRITES \<and> a \<notin> set READ_ACTIONS \<and> a \<notin> set SANDBOX_ACTIONS"
  "a \<in> set APPROVAL_FLOOR_ACTIONS \<Longrightarrow> a \<noteq> ''external_notification_send'' \<and>
     a \<notin> set REVERSIBLE_GIT_WRITES \<and> a \<notin> set READ_ACTIONS \<and> a \<notin> set SANDBOX_ACTIONS"
  "a \<in> set REVERSIBLE_GIT_WRITES \<Longrightarrow> a \<noteq> ''external_notification_send'' \<and>
     a \<notin> set READ_ACTIONS \<and> a \<notin> set SANDBOX_ACTIONS"
  "a \<in> set READ_ACTIONS \<Longrightarrow> a \<notin> set SANDBOX_ACTIONS \<and> a \<noteq> ''external_notification_send''"
  "a \<in> set SANDBOX_ACTIONS \<Longrightarrow> a \<noteq> ''external_notification_send''"
  using safety_groups_distinct unfolding safety_groups_def by auto

lemma floors_include_external:
  "set [''external_notification_send'', ''production_deploy'', ''billing_resource_create''] \<subseteq>
     insert ''external_notification_send'' (set APPROVAL_FLOOR_ACTIONS)"
  by (simp add: APPROVAL_FLOOR_ACTIONS_def)

lemma profile_sets:
  "set (automaticActions (AUTONOMY_PROFILES l)) =
     set READ_ACTIONS \<union> set SANDBOX_ACTIONS \<union> (if l = Assist then {} else set REVERSIBLE_GIT_WRITES)"
  "set (approvalRequiredActions (AUTONOMY_PROFILES l)) =
     (if l = Assist then {} else insert ''external_notification_send'' (set APPROVAL_FLOOR_ACTIONS))"
  "set (deniedActions (AUTONOMY_PROFILES l)) =
     set DENY_ALL_LEVELS_ACTIONS \<union>
     (if l = Assist then insert ''external_notification_send'' (set REVERSIBLE_GIT_WRITES \<union> set APPROVAL_FLOOR_ACTIONS) else {})"
  using floors_include_external by (cases l; auto simp: AUTONOMY_PROFILES_def)+

lemma find_unknown_None: "set xs \<subseteq> set known \<Longrightarrow> find (\<lambda>a. a \<notin> set known) xs = None"
  by (auto simp: find_None_iff)

lemma integrity_holds:
  "assertIntegrity (index_rules denyActions GLOBAL_RULES) (index_rules approvalFloorActions GLOBAL_RULES) = None"
proof -
  have known: "set (READ_ACTIONS @ SANDBOX_ACTIONS @ REVERSIBLE_GIT_WRITES @ APPROVAL_FLOOR_ACTIONS @
      [''external_notification_send''] @ DENY_ALL_LEVELS_ACTIONS) = set (map a_id ACTION_DEFINITIONS)"
    using safety_groups_registered by (simp only: safety_groups_def)
  have profile: "profile_unknown (map a_id ACTION_DEFINITIONS) l = None" for l
  proof -
    have "set (automaticActions (AUTONOMY_PROFILES l) @ approvalRequiredActions (AUTONOMY_PROFILES l) @
        deniedActions (AUTONOMY_PROFILES l)) \<subseteq> set (map a_id ACTION_DEFINITIONS)"
      unfolding known [symmetric] by (auto simp: profile_sets split: if_splits)
    then show ?thesis by (simp add: profile_unknown_def Let_def find_unknown_None del: set_map)
  qed
  have deny: "set DENY_ALL_LEVELS_ACTIONS \<subseteq> set (map a_id ACTION_DEFINITIONS)"
    and fl: "set APPROVAL_FLOOR_ACTIONS \<subseteq> set (map a_id ACTION_DEFINITIONS)"
    unfolding known [symmetric] by simp_all blast+
  have indexed: "unknown_indexed (map a_id ACTION_DEFINITIONS) (index_rules denyActions GLOBAL_RULES) = None"
    "unknown_indexed (map a_id ACTION_DEFINITIONS) (index_rules approvalFloorActions GLOBAL_RULES) = None"
    by (simp_all add: unknown_indexed_def deny_index_eq floor_index_eq comp_def
        find_unknown_None [OF deny] find_unknown_None [OF fl] del: set_map)
  have disjoint: "floored_and_denied (index_rules denyActions GLOBAL_RULES) (index_rules approvalFloorActions GLOBAL_RULES) = None"
    using group_disjoint(1)
    by (auto simp: floored_and_denied_def deny_index_eq floor_index_eq comp_def find_None_iff)
  show ?thesis
    by (simp add: assertIntegrity_def Let_def AUTONOMY_LEVELS_def profile indexed disjoint)
qed

lemma map_of_const_map: "map_of (map (\<lambda>a. (a, r)) xs) a = (if a \<in> set xs then Some r else None)"
  by (induction xs) auto

text \<open>The service the constructor returns.\<close>

definition safety_of :: "(json \<Rightarrow> string) \<Rightarrow> safety_service" where
  "safety_of sha =
     (let deny = index_rules denyActions GLOBAL_RULES; fl = index_rules approvalFloorActions GLOBAL_RULES
      in \<lparr>denyIndex = deny, floorIndex = fl, catalogHash = sha (catalog_hash_payload deny fl)\<rparr>)"

lemma service_constructs: "new_SafetyConstraintService sha = Inr (safety_of sha)"
  by (simp add: new_SafetyConstraintService_def safety_of_def integrity_holds Let_def)

lemma service_deny_lookup:
  "map_of (denyIndex (safety_of sha)) a = (if a \<in> set DENY_ALL_LEVELS_ACTIONS then Some rule_deny_administration else None)"
  by (simp add: safety_of_def Let_def deny_index_eq map_of_const_map)

lemma service_floor_lookup:
  "map_of (floorIndex (safety_of sha)) a = (if a \<in> set APPROVAL_FLOOR_ACTIONS then Some rule_floor_privileged else None)"
  by (simp add: safety_of_def Let_def floor_index_eq map_of_const_map)

definition strongest_restriction :: "restriction list \<Rightarrow> decision_effect" where
  "strongest_restriction rs = fold max (map minimumEffect rs) ALLOW"

lemma strongest_restriction_cases:
  "strongest_restriction rs =
     (if \<exists>r \<in> set rs. minimumEffect r = DENY then DENY
      else if \<exists>r \<in> set rs. minimumEffect r = REQUIRE_APPROVAL then REQUIRE_APPROVAL else ALLOW)"
proof -
  have "fold max (map minimumEffect rs) e =
     (if e = DENY \<or> (\<exists>r \<in> set rs. minimumEffect r = DENY) then DENY
      else if e = REQUIRE_APPROVAL \<or> (\<exists>r \<in> set rs. minimumEffect r = REQUIRE_APPROVAL) then REQUIRE_APPROVAL
      else ALLOW)" for e
  proof (induction rs arbitrary: e)
    case Nil
    then show ?case by (cases e) simp_all
  next
    case (Cons r rs)
    show ?case
      by (cases "minimumEffect r"; cases e) (simp_all add: Cons effect_max_simps)
  qed
  then show ?thesis by (simp add: strongest_restriction_def)
qed

lemma mem_globalRestrictions:
  "(\<exists>r \<in> set (globalRestrictions lc (safety_of sha) c). minimumEffect r = e) \<longleftrightarrow>
     (e = DENY \<and> c_actionId c \<in> set DENY_ALL_LEVELS_ACTIONS \<or>
      e = REQUIRE_APPROVAL \<and> c_actionId c \<notin> set DENY_ALL_LEVELS_ACTIONS \<and>
        (c_actionId c \<in> set APPROVAL_FLOOR_ACTIONS \<or> c_targetsProtectedBranch c = Some True \<or>
         c_mergesProtectedBranch c = Some True))"
  by (auto simp: globalRestrictions_def Let_def service_deny_lookup service_floor_lookup protected_floor_def)

lemma mem_autonomyRestrictions:
  "(\<exists>r \<in> set (autonomyRestrictions lc l c). minimumEffect r = e) \<longleftrightarrow>
     (e = DENY \<and> c_actionId c \<in> set (deniedActions (AUTONOMY_PROFILES l)) \<or>
      e = REQUIRE_APPROVAL \<and> c_actionId c \<notin> set (deniedActions (AUTONOMY_PROFILES l)) \<and>
        c_actionId c \<in> set (approvalRequiredActions (AUTONOMY_PROFILES l)))"
  by (auto simp: autonomyRestrictions_def profileForLevel_def Let_def)

definition safety_spec :: "autonomy_level \<Rightarrow> classified_action \<Rightarrow> decision_effect" where
  "safety_spec l c =
     (let a = c_actionId c
      in if a \<in> set DENY_ALL_LEVELS_ACTIONS then DENY
         else if l = Assist \<and> (a \<in> set REVERSIBLE_GIT_WRITES \<or> a \<in> set APPROVAL_FLOOR_ACTIONS \<or> a = ''external_notification_send'')
           then DENY
         else if a \<in> set APPROVAL_FLOOR_ACTIONS \<or> a = ''external_notification_send'' \<or>
                 c_targetsProtectedBranch c = Some True \<or> c_mergesProtectedBranch c = Some True
           then REQUIRE_APPROVAL
         else ALLOW)"

lemma restrictions_meet_spec:
  "strongest_restriction (restrictionsFor lc (safety_of sha) l c) = safety_spec l c"
proof -
  have split: "(\<exists>r \<in> set (restrictionsFor lc (safety_of sha) l c). minimumEffect r = e) \<longleftrightarrow>
      (\<exists>r \<in> set (globalRestrictions lc (safety_of sha) c). minimumEffect r = e) \<or>
      (\<exists>r \<in> set (autonomyRestrictions lc l c). minimumEffect r = e)" for e
    by (auto simp: restrictionsFor_def)
  show ?thesis
    unfolding strongest_restriction_cases split mem_autonomyRestrictions profile_sets safety_spec_def
      mem_globalRestrictions
    by (auto simp: Let_def dest: group_disjoint)
qed

text \<open>
  Property C38.  The safety service always starts on the deployed catalogue (its integrity gate
  passes), and the strongest restriction it derives is the stated function of level, action and
  target: the seven administrative actions are denied at every autonomy level, the privileged
  floor and every protected-branch operation never fall below human approval, and Assist denies
  all writes to GitHub and every external effect.
\<close>

theorem safety_restrictions_complete:
  "\<exists>svc. new_SafetyConstraintService sha = Inr svc \<and>
     (\<forall>l c. strongest_restriction (restrictionsFor lc svc l c) = safety_spec l c)"
  using service_constructs restrictions_meet_spec by blast

text \<open>
  The autonomy profiles are exhaustive and unambiguous: at each level every
  registered action belongs to exactly one of the automatic, approval-required and denied sets,
  and the sets name no other action.
\<close>

theorem autonomy_profiles_partition_catalog:
  "let p = AUTONOMY_PROFILES l
   in set (automaticActions p) \<union> set (approvalRequiredActions p) \<union> set (deniedActions p) =
        set (map a_id ACTION_DEFINITIONS) \<and>
      set (automaticActions p) \<inter> set (approvalRequiredActions p) = {} \<and>
      set (automaticActions p) \<inter> set (deniedActions p) = {} \<and>
      set (approvalRequiredActions p) \<inter> set (deniedActions p) = {}"
proof -
  have union: "set READ_ACTIONS \<union> set SANDBOX_ACTIONS \<union> set REVERSIBLE_GIT_WRITES \<union> set APPROVAL_FLOOR_ACTIONS \<union>
      {''external_notification_send''} \<union> set DENY_ALL_LEVELS_ACTIONS = set (map a_id ACTION_DEFINITIONS)"
    unfolding safety_groups_registered [symmetric] safety_groups_def set_append list.set by blast
  show ?thesis
  proof (cases "l = Assist")
    case True
    show ?thesis
      unfolding Let_def profile_sets union [symmetric] if_P [OF True] using group_disjoint by blast
  next
    case False
    show ?thesis
      unfolding Let_def profile_sets union [symmetric] if_not_P [OF False] using group_disjoint by blast
  qed
qed

text \<open>
  More autonomy never restricts more, and never lifts a floor: the strongest
  restriction at Assist is at least the one at any other level, and the three higher levels
  agree on every action.
\<close>

theorem autonomy_levels_ordered:
  "strongest_restriction (restrictionsFor lc (safety_of sha) l c) \<le>
     strongest_restriction (restrictionsFor lc (safety_of sha) Assist c) \<and>
   (l = Assist \<or>
    strongest_restriction (restrictionsFor lc (safety_of sha) l c) =
      strongest_restriction (restrictionsFor lc (safety_of sha) Autonomous c))"
  by (cases l) (simp_all add: restrictions_meet_spec safety_spec_def Let_def)

end
