(* ===== verification/Approval_FSM.thy ===== *)
theory Approval_FSM
  imports DG_Prelude
begin

text \<open>
  The approval lifecycle of \<open>packages/approvals/src/domain/approval-fsm.ts\<close>: the edge table,
  the guarded resolver \<open>resolveEdge\<close> and the pair enumeration \<open>allPairs\<close>.
\<close>

datatype approval_status =
    PENDING | APPROVED | REJECTED | EXPIRED | CANCELLED | STALE | EXECUTING | EXECUTED | EXECUTION_FAILED

definition APPROVAL_STATUSES :: "approval_status list" where
  "APPROVAL_STATUSES =
     [PENDING, APPROVED, REJECTED, EXPIRED, CANCELLED, STALE, EXECUTING, EXECUTED, EXECUTION_FAILED]"

fun status_str :: "approval_status \<Rightarrow> string" where
  "status_str PENDING = ''PENDING''"
| "status_str APPROVED = ''APPROVED''"
| "status_str REJECTED = ''REJECTED''"
| "status_str EXPIRED = ''EXPIRED''"
| "status_str CANCELLED = ''CANCELLED''"
| "status_str STALE = ''STALE''"
| "status_str EXECUTING = ''EXECUTING''"
| "status_str EXECUTED = ''EXECUTED''"
| "status_str EXECUTION_FAILED = ''EXECUTION_FAILED''"

definition TERMINAL_STATUSES :: "approval_status list" where
  "TERMINAL_STATUSES = [REJECTED, EXPIRED, CANCELLED, STALE, EXECUTED, EXECUTION_FAILED]"

definition isTerminal :: "approval_status \<Rightarrow> bool" where
  "isTerminal s = (s \<in> set TERMINAL_STATUSES)"

datatype approval_trigger =
    Create | Approve | Reject | Expire | Mark_stale | Cancel_before_execution | Cancel_reconciled
  | Execution_claim | Execute_verified | Execute_failed

fun trigger_str :: "approval_trigger \<Rightarrow> string" where
  "trigger_str Create = ''create''"
| "trigger_str Approve = ''approve''"
| "trigger_str Reject = ''reject''"
| "trigger_str Expire = ''expire''"
| "trigger_str Mark_stale = ''mark-stale''"
| "trigger_str Cancel_before_execution = ''cancel-before-execution''"
| "trigger_str Cancel_reconciled = ''cancel-reconciled''"
| "trigger_str Execution_claim = ''execution-claim''"
| "trigger_str Execute_verified = ''execute-verified''"
| "trigger_str Execute_failed = ''execute-failed''"

record approval_edge =
  edge_from :: approval_status
  edge_to :: approval_status
  edge_guard :: string

definition edge :: "approval_status \<Rightarrow> approval_status \<Rightarrow> string \<Rightarrow> approval_edge" where
  "edge f t g = \<lparr>edge_from = f, edge_to = t, edge_guard = g\<rparr>"

fun LEGAL_EDGES :: "approval_trigger \<Rightarrow> approval_edge list" where
  "LEGAL_EDGES Create =
     [edge PENDING PENDING ''persisted REQUIRE_APPROVAL decision + complete fingerprints + future expiry'']"
| "LEGAL_EDGES Approve =
     [edge PENDING APPROVED
        ''authorized actor + expected version/fingerprints + valid workflow/target/policy + not expired'']"
| "LEGAL_EDGES Reject = [edge PENDING REJECTED ''authorized actor on current unresolved version'']"
| "LEGAL_EDGES Expire =
     [edge PENDING EXPIRED ''database now >= expiresAt'',
      edge APPROVED EXPIRED ''expiry reached before execution claim'']"
| "LEGAL_EDGES Mark_stale =
     [edge PENDING STALE ''current context differs from binding'',
      edge APPROVED STALE ''target/policy/risk/validation/default-branch binding changed'']"
| "LEGAL_EDGES Cancel_before_execution =
     [edge PENDING CANCELLED ''durable run cancellation generation is current'',
      edge APPROVED CANCELLED ''no external effect has begun'']"
| "LEGAL_EDGES Cancel_reconciled =
     [edge EXECUTING CANCELLED ''provider proves execution never began AND lease fenced'']"
| "LEGAL_EDGES Execution_claim =
     [edge APPROVED EXECUTING ''steps 1-6 passed + unique lease/attempt claimed'']"
| "LEGAL_EDGES Execute_verified = [edge EXECUTING EXECUTED ''provider proves exact intended effect'']"
| "LEGAL_EDGES Execute_failed =
     [edge EXECUTING EXECUTION_FAILED
        ''provider proves failure/absence OR uncertainty exhausted to human intervention'']"

text \<open>\<open>Partial<TransitionGuardContext>\<close>: every field may be absent.\<close>

record guard_context =
  nowMs :: "int option"
  expiresAtMs :: "int option"
  contextMatchesBinding :: "bool option"
  cancellationCurrent :: "bool option"
  stepsOneThroughSixPassed :: "bool option"
  externalEffectBegan :: "bool option"
  providerProvesNotStarted :: "bool option"
  leaseFenced :: "bool option"
  providerOutcomeVerified :: "bool option"
  resolutionAuthorized :: "bool option"
  expectedVersionMatches :: "bool option"
  fingerprintsMatch :: "bool option"
  providerProvesFailure :: "bool option"
  uncertaintyExhausted :: "bool option"

definition empty_guards :: guard_context where
  "empty_guards =
     \<lparr>nowMs = None, expiresAtMs = None, contextMatchesBinding = None, cancellationCurrent = None,
      stepsOneThroughSixPassed = None, externalEffectBegan = None, providerProvesNotStarted = None,
      leaseFenced = None, providerOutcomeVerified = None, resolutionAuthorized = None,
      expectedVersionMatches = None, fingerprintsMatch = None, providerProvesFailure = None,
      uncertaintyExhausted = None\<rparr>"

datatype transition_verdict =
    Allowed approval_status approval_status
  | Refused string string

definition MAX_SAFE_INTEGER :: int where "MAX_SAFE_INTEGER = 9007199254740991"

definition now_of :: "guard_context \<Rightarrow> int" where
  "now_of c = (case nowMs c of Some n \<Rightarrow> n | None \<Rightarrow> 0)"

definition expiry_of :: "guard_context \<Rightarrow> int" where
  "expiry_of c = (case expiresAtMs c of Some n \<Rightarrow> n | None \<Rightarrow> MAX_SAFE_INTEGER)"

text \<open>The switch over the trigger: \<open>Some detail\<close> is a refusal, \<open>None\<close> the \<open>break\<close>.\<close>

fun guard_refusal :: "approval_status \<Rightarrow> approval_trigger \<Rightarrow> guard_context \<Rightarrow> string option" where
  "guard_refusal f Approve c =
     (if now_of c \<ge> expiry_of c then Some ''approval already past expiry; expire instead'' else None)"
| "guard_refusal f Reject c =
     (if now_of c \<ge> expiry_of c then Some ''approval already past expiry; expire instead'' else None)"
| "guard_refusal f Expire c =
     (if now_of c < expiry_of c then Some ''not yet past expiry (database clock)'' else None)"
| "guard_refusal f Mark_stale c =
     (if contextMatchesBinding c \<noteq> Some False
      then Some ''context still matches binding; nothing to invalidate'' else None)"
| "guard_refusal f Cancel_before_execution c =
     (if cancellationCurrent c \<noteq> Some True then Some ''cancellation generation superseded''
      else if f = APPROVED \<and> externalEffectBegan c \<noteq> Some False
      then Some ''external effect may have begun; reconciliation decides the outcome, not cancel''
      else None)"
| "guard_refusal f Cancel_reconciled c =
     (if \<not> (providerProvesNotStarted c = Some True \<and> leaseFenced c = Some True)
      then Some ''reconciled cancellation requires proof-not-started AND a fenced lease'' else None)"
| "guard_refusal f Execution_claim c =
     (if now_of c \<ge> expiry_of c then Some ''expired before claim''
      else if stepsOneThroughSixPassed c \<noteq> Some True
      then Some ''execution claim requires steps 1-6 proven'' else None)"
| "guard_refusal f Execute_verified c =
     (if providerOutcomeVerified c \<noteq> Some True
      then Some ''EXECUTED requires provider-verified outcome evidence'' else None)"
| "guard_refusal f Execute_failed c = None"
| "guard_refusal f Create c = None"

definition ILLEGAL :: string where "ILLEGAL = ''APPROVAL_ILLEGAL_TRANSITION''"

definition resolveEdge :: "approval_status \<Rightarrow> approval_trigger \<Rightarrow> guard_context \<Rightarrow> transition_verdict" where
  "resolveEdge f t c =
     (if isTerminal f then
        Refused ILLEGAL (quoted (status_str f) @ '' is terminal; approvals never transition out of terminal states'')
      else case find (\<lambda>e. edge_from e = f) (LEGAL_EDGES t) of
        None \<Rightarrow> Refused ILLEGAL (''trigger '' @ quoted (trigger_str t) @ '' cannot fire from '' @ quoted (status_str f))
      | Some candidate \<Rightarrow>
          (case guard_refusal f t c of
             Some detail \<Rightarrow> Refused ILLEGAL detail
           | None \<Rightarrow> Allowed (edge_from candidate) (edge_to candidate)))"

definition APPROVAL_TRIGGERS :: "approval_trigger list" where
  "APPROVAL_TRIGGERS =
     [Create, Approve, Reject, Expire, Mark_stale, Cancel_before_execution, Cancel_reconciled,
      Execution_claim, Execute_verified, Execute_failed]"

definition allPairs :: "(approval_status \<times> approval_trigger) list" where
  "allPairs = concat (map (\<lambda>f. map (\<lambda>t. (f, t)) APPROVAL_TRIGGERS) APPROVAL_STATUSES)"

text \<open>The resolver as a partial step function.\<close>

definition approval_fire :: "approval_status \<Rightarrow> approval_trigger \<Rightarrow> guard_context \<Rightarrow> approval_status option" where
  "approval_fire s t c = (case resolveEdge s t c of Allowed _ s' \<Rightarrow> Some s' | Refused _ _ \<Rightarrow> None)"

section \<open>The lifecycle\<close>

lemma isTerminal_iff: "isTerminal s \<longleftrightarrow> s \<notin> {PENDING, APPROVED, EXECUTING}"
  by (cases s) (simp_all add: isTerminal_def TERMINAL_STATUSES_def)

lemmas approval_table_simps [fsm_simps] =
  approval_fire_def resolveEdge_def isTerminal_def TERMINAL_STATUSES_def edge_def

text \<open>Every allowed step, with its guard.\<close>

inductive approval_step :: "approval_status \<Rightarrow> approval_trigger \<Rightarrow> guard_context \<Rightarrow> approval_status \<Rightarrow> bool" where
  create: "approval_step PENDING Create c PENDING"
| approve: "now_of c < expiry_of c \<Longrightarrow> approval_step PENDING Approve c APPROVED"
| reject: "now_of c < expiry_of c \<Longrightarrow> approval_step PENDING Reject c REJECTED"
| expire: "s \<in> {PENDING, APPROVED} \<Longrightarrow> expiry_of c \<le> now_of c \<Longrightarrow> approval_step s Expire c EXPIRED"
| stale: "s \<in> {PENDING, APPROVED} \<Longrightarrow> contextMatchesBinding c = Some False \<Longrightarrow> approval_step s Mark_stale c STALE"
| cancel_pending: "cancellationCurrent c = Some True \<Longrightarrow> approval_step PENDING Cancel_before_execution c CANCELLED"
| cancel_approved: "cancellationCurrent c = Some True \<Longrightarrow> externalEffectBegan c = Some False \<Longrightarrow>
    approval_step APPROVED Cancel_before_execution c CANCELLED"
| cancel_reconciled: "providerProvesNotStarted c = Some True \<Longrightarrow> leaseFenced c = Some True \<Longrightarrow>
    approval_step EXECUTING Cancel_reconciled c CANCELLED"
| claim: "now_of c < expiry_of c \<Longrightarrow> stepsOneThroughSixPassed c = Some True \<Longrightarrow>
    approval_step APPROVED Execution_claim c EXECUTING"
| verified: "providerOutcomeVerified c = Some True \<Longrightarrow> approval_step EXECUTING Execute_verified c EXECUTED"
| failed: "approval_step EXECUTING Execute_failed c EXECUTION_FAILED"

inductive_cases approval_step_to: "approval_step s t c EXECUTED"
inductive_cases approval_step_claims: "approval_step s t c EXECUTING"
inductive_cases approval_step_approves: "approval_step s t c APPROVED"
inductive_simps approval_step_terminal: "approval_step REJECTED t c s'"

lemma fire_step: "approval_fire s t c = Some s' \<Longrightarrow> approval_step s t c s'"
  by (cases s; cases t) (auto simp: fsm_simps intro: approval_step.intros split: if_splits)

lemma step_fire: "approval_step s t c s' \<Longrightarrow> approval_fire s t c = Some s'"
  by (induction rule: approval_step.induct) (auto simp: fsm_simps)

lemma fire_iff_step: "approval_fire s t c = Some s' \<longleftrightarrow> approval_step s t c s'"
  using fire_step step_fire by blast

fun approval_rank :: "approval_status \<Rightarrow> nat" where
  "approval_rank PENDING = 3"
| "approval_rank APPROVED = 2"
| "approval_rank EXECUTING = 1"
| "approval_rank _ = 0"

interpretation appr: ranked_lifecycle approval_fire isTerminal approval_rank
proof unfold_locales
  show "isTerminal s \<Longrightarrow> approval_fire s t c = None" for s t c
    by (simp add: approval_fire_def resolveEdge_def)
  show "approval_fire s t c = Some s' \<Longrightarrow> s' \<noteq> s \<Longrightarrow> approval_rank s' < approval_rank s" for s t c s'
    by (auto simp: fire_iff_step elim: approval_step.cases)
qed

section \<open>Paths to an external effect\<close>

lemma fsm_run_step:
  "fsm_run approval_fire s (e # es) = Some u \<longleftrightarrow>
     (\<exists>m. approval_step s (fst e) (snd e) m \<and> fsm_run approval_fire m es = Some u)"
  by (auto simp: fire_iff_step [symmetric] split: option.splits)

lemma executed_stays:
  "isTerminal s \<Longrightarrow> fsm_run approval_fire s es = Some u \<longleftrightarrow> es = [] \<and> u = s"
  using appr.terminal_run_stays by fastforce

inductive_simps step_from_executing: "approval_step EXECUTING t c s'"
inductive_simps step_from_approved: "approval_step APPROVED t c s'"
inductive_simps step_from_pending: "approval_step PENDING t c s'"

lemma executing_to_executed:
  "fsm_run approval_fire EXECUTING es = Some EXECUTED \<longleftrightarrow>
     (\<exists>cv. es = [(Execute_verified, cv)] \<and> providerOutcomeVerified cv = Some True)"
proof (cases es)
  case (Cons e es')
  have dead: "fsm_run approval_fire s es' = Some EXECUTED \<longleftrightarrow> es' = [] \<and> s = EXECUTED"
    if "isTerminal s" for s using executed_stays [OF that] by auto
  show ?thesis unfolding Cons fsm_run_step step_from_executing
    by (cases e) (auto simp: dead isTerminal_iff)
qed simp

lemma approved_to_executed:
  "fsm_run approval_fire APPROVED es = Some EXECUTED \<longleftrightarrow>
     (\<exists>cc cv. es = [(Execution_claim, cc), (Execute_verified, cv)] \<and> now_of cc < expiry_of cc \<and>
        stepsOneThroughSixPassed cc = Some True \<and> providerOutcomeVerified cv = Some True)"
proof (cases es)
  case (Cons e es')
  have dead: "\<not> fsm_run approval_fire s es' = Some EXECUTED"
    if "s = EXPIRED \<or> s = STALE \<or> s = CANCELLED" for s
    using executed_stays [of s es' EXECUTED] that by (auto simp: isTerminal_iff)
  show ?thesis unfolding Cons fsm_run_step step_from_approved
    by (cases e) (auto simp: dead executing_to_executed simp del: fsm_run.simps)
qed simp

lemma pending_to_executed_step:
  "fsm_run approval_fire PENDING (e # es) = Some EXECUTED \<longleftrightarrow>
     (fst e = Create \<and> fsm_run approval_fire PENDING es = Some EXECUTED) \<or>
     (fst e = Approve \<and> now_of (snd e) < expiry_of (snd e) \<and>
        fsm_run approval_fire APPROVED es = Some EXECUTED)"
proof -
  have dead: "\<not> fsm_run approval_fire s es = Some EXECUTED"
    if "s = EXPIRED \<or> s = STALE \<or> s = CANCELLED \<or> s = REJECTED" for s
    using executed_stays [of s es EXECUTED] that by (auto simp: isTerminal_iff)
  show ?thesis unfolding fsm_run_step step_from_pending by (auto simp: dead)
qed

text \<open>
  Property C6.  The complete set of event sequences that take a fresh approval to EXECUTED:
  any number of idempotent create events, then exactly one approve before expiry, one
  execution claim before expiry with the pre-execution steps proven, and one verified outcome.
  No other sequence reaches EXECUTED, and every such sequence does.
\<close>

theorem executed_exactly_through_gates:
  "fsm_run approval_fire PENDING es = Some EXECUTED \<longleftrightarrow>
     (\<exists>creates ca cc cv.
        es = creates @ [(Approve, ca), (Execution_claim, cc), (Execute_verified, cv)] \<and>
        list_all (\<lambda>e. fst e = Create) creates \<and>
        now_of ca < expiry_of ca \<and>
        now_of cc < expiry_of cc \<and> stepsOneThroughSixPassed cc = Some True \<and>
        providerOutcomeVerified cv = Some True)"
proof (induction es)
  case Nil
  then show ?case by simp
next
  case (Cons e es)
  show ?case unfolding pending_to_executed_step approved_to_executed Cons.IH
    by (cases e) (auto simp: Cons_eq_append_conv; blast)
qed

text \<open>
  An approval changes status at most three times in any event sequence, whatever
  the guards, and a status once left is never entered again.
\<close>

theorem approval_lifecycle_bounded:
  "fsm_changes approval_fire s es \<le> 3 \<and>
   (fsm_run approval_fire s us = Some u \<and> u \<noteq> s \<longrightarrow> fsm_run approval_fire u vs \<noteq> Some s)"
proof
  show "fsm_changes approval_fire s es \<le> 3"
    using appr.changes_bounded [of s es] by (cases s) auto
  show "fsm_run approval_fire s us = Some u \<and> u \<noteq> s \<longrightarrow> fsm_run approval_fire u vs \<noteq> Some s"
    using appr.never_returns by blast
qed

theorem approval_lifecycle_bounded_witness:
  "fsm_run approval_fire PENDING [(Approve, empty_guards)] = Some APPROVED \<and>
   fsm_run approval_fire APPROVED [(Create, empty_guards)] \<noteq> Some PENDING"
proof -
  have "fsm_run approval_fire PENDING [(Approve, empty_guards)] = Some APPROVED"
    by (simp add: fsm_simps now_of_def expiry_of_def empty_guards_def MAX_SAFE_INTEGER_def)
  with approval_lifecycle_bounded
    [of PENDING "[]" "[(Approve, empty_guards)]" APPROVED "[(Create, empty_guards)]"]
  show ?thesis by blast
qed

text \<open>
  At every clock reading an unresolved approval can be approved or expired, never
  both, and a human decision (approve, reject) is possible exactly when expiry is not; terminal
  approvals refuse every trigger under every guard context.
\<close>

theorem decision_or_expiry:
  "(approval_fire PENDING Approve c = Some APPROVED) \<noteq> (approval_fire PENDING Expire c = Some EXPIRED) \<and>
   (approval_fire PENDING Reject c = Some REJECTED) \<noteq> (approval_fire PENDING Expire c = Some EXPIRED) \<and>
   (\<not> (approval_fire APPROVED Execution_claim c = Some EXECUTING \<and> approval_fire APPROVED Expire c = Some EXPIRED)) \<and>
   (isTerminal s = (\<forall>t c. approval_fire s t c = None))"
proof (intro conjI)
  show "isTerminal s = (\<forall>t c. approval_fire s t c = None)"
  proof
    show "isTerminal s \<Longrightarrow> \<forall>t c. approval_fire s t c = None" using appr.terminal_refuses by blast
    assume none: "\<forall>t c. approval_fire s t c = None"
    let ?c = "empty_guards\<lparr>contextMatchesBinding := Some False\<rparr>"
    have "\<not> (\<exists>u. approval_step s Mark_stale ?c u)" "\<not> (\<exists>u. approval_step s Execute_failed ?c u)"
      using none by (auto simp flip: fire_iff_step)
    then show "isTerminal s"
      by (cases s) (auto simp: isTerminal_iff step_from_pending step_from_approved step_from_executing)
  qed
qed (auto simp: fire_iff_step step_from_pending step_from_approved)

text \<open>
  The resolver does not evaluate the guards its table documents for approve and for
  execute-failed: with an empty guard context (no clock, no authorization, no fingerprint
  check, no provider evidence) approve is allowed from PENDING, and execute-failed is allowed
  from EXECUTING under every context.
\<close>

theorem approve_guard_is_clock_only:
  "approval_fire PENDING Approve empty_guards = Some APPROVED \<and>
   approval_fire PENDING Approve
     (c\<lparr>resolutionAuthorized := a, expectedVersionMatches := v, fingerprintsMatch := p\<rparr>)
     = approval_fire PENDING Approve c \<and>
   approval_fire EXECUTING Execute_failed c = Some EXECUTION_FAILED"
  by (simp add: fsm_simps now_of_def expiry_of_def empty_guards_def MAX_SAFE_INTEGER_def)

end
