(* ===== verification/Port_Effects.thy ===== *)
theory Port_Effects
  imports DG_Prelude
begin

text \<open>
  Application services of the program are \<open>async\<close> methods over injected ports.  A port may read
  and change the outside world and may reject, so a service is a function of the world that
  returns the next world, the list of the port calls it made with their arguments in order,
  and either the thrown error or the result.  The ports are parameters of the services; nothing
  is assumed about them unless a statement says so.
\<close>

datatype js_error =
    ErrorObject string   \<comment> \<open>an \<open>Error\<close> raised by a port or by \<open>new Error(message)\<close>\<close>
  | NonError string      \<comment> \<open>a thrown value that is not an \<open>Error\<close>\<close>
  | MadeError string     \<comment> \<open>\<open>makeError(code)\<close> of the errors package\<close>
  | ErrorClass string string   \<comment> \<open>an instance of the named subclass of \<open>Error\<close>, with its message\<close>

type_synonym ('w, 'a) port = "'w \<Rightarrow> 'w \<times> (js_error + 'a)"
type_synonym ('w, 'c, 'a) eff = "'w \<Rightarrow> 'w \<times> 'c list \<times> (js_error + 'a)"

definition retE :: "'a \<Rightarrow> ('w, 'c, 'a) eff" where
  "retE a w = (w, [], Inr a)"

definition throwE :: "js_error \<Rightarrow> ('w, 'c, 'a) eff" where
  "throwE e w = (w, [], Inl e)"

definition callE :: "'c \<Rightarrow> ('w, 'a) port \<Rightarrow> ('w, 'c, 'a) eff" where
  "callE c p w = (case p w of (w', r) \<Rightarrow> (w', [c], r))"

text \<open>
  \<open>makeError\<close> fails closed: a code that is not registered, and details its schema refuses, raise a
  \<open>TypeError\<close> instead.  The schemas of the session codes ask for strings of 1 to 200 characters.
\<close>

definition unregistered :: "string \<Rightarrow> js_error" where
  "unregistered code = ErrorClass ''TypeError'' (''Unregistered error code '' @ [CHR 0x27] @ code @ [CHR 0x27] @ ''. Register it before throwing.'')"

definition rejected_details :: "string \<Rightarrow> js_error" where
  "rejected_details code = ErrorClass ''TypeError'' (''Safe details rejected for error code '' @ [CHR 0x27] @ code @ [CHR 0x27] @ ''.'')"

definition made_with :: "string \<Rightarrow> string list \<Rightarrow> js_error" where
  "made_with code fields = (if list_all (within 200) fields then MadeError code else rejected_details code)"

text \<open>A synchronous read such as \<open>ports.now()\<close>.\<close>

definition readE :: "('w \<Rightarrow> 'x) \<Rightarrow> ('x \<Rightarrow> ('w, 'c, 'a) eff) \<Rightarrow> ('w, 'c, 'a) eff" where
  "readE f k w = k (f w) w"

text \<open>A generator such as \<open>randomUUID()\<close> or a clock: it answers and may change, and is no port call.\<close>

definition fresh_id :: "('w \<Rightarrow> 'w \<times> string) \<Rightarrow> ('w, 'c, string) eff" where
  "fresh_id g w = (case g w of (w', i) \<Rightarrow> (w', [], Inr i))"

definition bindE :: "('w, 'c, 'a) eff \<Rightarrow> ('a \<Rightarrow> ('w, 'c, 'b) eff) \<Rightarrow> ('w, 'c, 'b) eff" where
  "bindE m k w =
     (case m w of
        (w', cs, Inl e) \<Rightarrow> (w', cs, Inl e)
      | (w', cs, Inr a) \<Rightarrow> (case k a w' of (w'', cs', r) \<Rightarrow> (w'', cs @ cs', r)))"

text \<open>\<open>try m catch h\<close>\<close>

definition catchE :: "('w, 'c, 'a) eff \<Rightarrow> (js_error \<Rightarrow> ('w, 'c, 'a) eff) \<Rightarrow> ('w, 'c, 'a) eff" where
  "catchE m h w =
     (case m w of
        (w', cs, Inl e) \<Rightarrow> (case h e w' of (w'', cs', r) \<Rightarrow> (w'', cs @ cs', r))
      | (w', cs, Inr a) \<Rightarrow> (w', cs, Inr a))"

text \<open>\<open>m.catch(() => undefined)\<close>: a rejection is swallowed.\<close>

definition swallowE :: "('w, 'c, unit) eff \<Rightarrow> ('w, 'c, unit) eff" where
  "swallowE m = catchE m (\<lambda>_. retE ())"

definition eff_calls :: "('w, 'c, 'a) eff \<Rightarrow> 'w \<Rightarrow> 'c list" where
  "eff_calls m w = fst (snd (m w))"

definition eff_result :: "('w, 'c, 'a) eff \<Rightarrow> 'w \<Rightarrow> js_error + 'a" where
  "eff_result m w = snd (snd (m w))"

definition eff_world :: "('w, 'c, 'a) eff \<Rightarrow> 'w \<Rightarrow> 'w" where
  "eff_world m w = fst (m w)"

lemmas eff_defs = retE_def throwE_def callE_def bindE_def catchE_def swallowE_def

lemma calls_retE [simp]: "eff_calls (retE a) w = []"
  and result_retE [simp]: "eff_result (retE a) w = Inr a"
  and world_retE [simp]: "eff_world (retE a) w = w"
  and calls_throwE [simp]: "eff_calls (throwE e) w = []"
  and result_throwE [simp]: "eff_result (throwE e) w = Inl e"
  and world_throwE [simp]: "eff_world (throwE e) w = w"
  by (simp_all add: eff_calls_def eff_result_def eff_world_def retE_def throwE_def)

lemma calls_callE [simp]: "eff_calls (callE c p) w = [c]"
  and result_callE [simp]: "eff_result (callE c p) w = snd (p w)"
  and world_callE [simp]: "eff_world (callE c p) w = fst (p w)"
  by (simp_all add: eff_calls_def eff_result_def eff_world_def callE_def split: prod.splits)

lemma calls_readE [simp]: "eff_calls (readE f k) w = eff_calls (k (f w)) w"
  and result_readE [simp]: "eff_result (readE f k) w = eff_result (k (f w)) w"
  and world_readE [simp]: "eff_world (readE f k) w = eff_world (k (f w)) w"
  by (simp_all add: eff_calls_def eff_result_def eff_world_def readE_def)

lemma calls_fresh_id [simp]: "eff_calls (fresh_id g) w = []"
  and result_fresh_id [simp]: "eff_result (fresh_id g) w = Inr (snd (g w))"
  and world_fresh_id [simp]: "eff_world (fresh_id g) w = fst (g w)"
  by (simp_all add: fresh_id_def eff_calls_def eff_result_def eff_world_def split: prod.splits)

lemma calls_bindE:
  "eff_calls (bindE m k) w =
     eff_calls m w @ (case eff_result m w of Inl e \<Rightarrow> [] | Inr a \<Rightarrow> eff_calls (k a) (eff_world m w))"
  by (simp add: eff_calls_def eff_result_def eff_world_def bindE_def split: prod.splits sum.splits)

lemma result_bindE:
  "eff_result (bindE m k) w =
     (case eff_result m w of Inl e \<Rightarrow> Inl e | Inr a \<Rightarrow> eff_result (k a) (eff_world m w))"
  by (simp add: eff_calls_def eff_result_def eff_world_def bindE_def split: prod.splits sum.splits)

lemma world_bindE:
  "eff_world (bindE m k) w =
     (case eff_result m w of Inl e \<Rightarrow> eff_world m w | Inr a \<Rightarrow> eff_world (k a) (eff_world m w))"
  by (simp add: eff_calls_def eff_result_def eff_world_def bindE_def split: prod.splits sum.splits)

lemma calls_catchE:
  "eff_calls (catchE m h) w =
     eff_calls m w @ (case eff_result m w of Inl e \<Rightarrow> eff_calls (h e) (eff_world m w) | Inr a \<Rightarrow> [])"
  by (simp add: eff_calls_def eff_result_def eff_world_def catchE_def split: prod.splits sum.splits)

lemma result_catchE:
  "eff_result (catchE m h) w =
     (case eff_result m w of Inl e \<Rightarrow> eff_result (h e) (eff_world m w) | Inr a \<Rightarrow> Inr a)"
  by (simp add: eff_calls_def eff_result_def eff_world_def catchE_def split: prod.splits sum.splits)

lemma world_catchE:
  "eff_world (catchE m h) w =
     (case eff_result m w of Inl e \<Rightarrow> eff_world (h e) (eff_world m w) | Inr a \<Rightarrow> eff_world m w)"
  by (simp add: eff_calls_def eff_result_def eff_world_def catchE_def split: prod.splits sum.splits)

lemma calls_swallowE [simp]: "eff_calls (swallowE m) w = eff_calls m w"
  and result_swallowE [simp]: "eff_result (swallowE m) w = Inr ()"
  and world_swallowE [simp]: "eff_world (swallowE m) w = eff_world m w"
  by (simp_all add: swallowE_def calls_catchE result_catchE world_catchE split: sum.splits)

lemmas eff_simps = calls_bindE result_bindE world_bindE calls_catchE result_catchE world_catchE

lemma case_sum_if:
  "(case (if b then x else y) of Inl e \<Rightarrow> f e | Inr a \<Rightarrow> g a) =
     (if b then (case x of Inl e \<Rightarrow> f e | Inr a \<Rightarrow> g a) else (case y of Inl e \<Rightarrow> f e | Inr a \<Rightarrow> g a))"
  by simp

lemma eff_if:
  "eff_calls (if b then m else m') w = (if b then eff_calls m w else eff_calls m' w)"
  "eff_result (if b then m else m') w = (if b then eff_result m w else eff_result m' w)"
  "eff_world (if b then m else m') w = (if b then eff_world m w else eff_world m' w)"
  by simp_all

lemma calls_fresh_bind [simp]: "eff_calls (bindE (fresh_id g) k) w = eff_calls (k (snd (g w))) (fst (g w))"
  by (simp add: calls_bindE)

section \<open>Reasoning about every call and about success\<close>

text \<open>
  \<open>calls_within P m\<close>: whatever the world, every call of \<open>m\<close> satisfies \<open>P\<close>.  The rules follow the
  structure of a service.
\<close>

definition calls_within :: "('c \<Rightarrow> bool) \<Rightarrow> ('w, 'c, 'a) eff \<Rightarrow> bool" where
  "calls_within P m \<longleftrightarrow> (\<forall>w. list_all P (eff_calls m w))"

named_theorems within_intros

lemma within_retE [within_intros]: "calls_within P (retE a)"
  and within_throwE [within_intros]: "calls_within P (throwE e)"
  by (simp_all add: calls_within_def)

lemma within_callE [within_intros]: "P c \<Longrightarrow> calls_within P (callE c p)"
  by (simp add: calls_within_def)

lemma within_readE [within_intros]: "(\<And>x. calls_within P (k x)) \<Longrightarrow> calls_within P (readE f k)"
  by (simp add: calls_within_def)

lemma within_fresh_id [within_intros]: "calls_within P (fresh_id g)"
  by (simp add: calls_within_def)

lemma within_bindE [within_intros]:
  "calls_within P m \<Longrightarrow> (\<And>a. calls_within P (k a)) \<Longrightarrow> calls_within P (bindE m k)"
  by (auto simp: calls_within_def calls_bindE split: sum.splits)

lemma within_catchE [within_intros]:
  "calls_within P m \<Longrightarrow> (\<And>e. calls_within P (h e)) \<Longrightarrow> calls_within P (catchE m h)"
  by (auto simp: calls_within_def calls_catchE split: sum.splits)

lemma within_swallowE [within_intros]: "calls_within P m \<Longrightarrow> calls_within P (swallowE m)"
  by (simp add: calls_within_def)

lemma within_if [within_intros]:
  "(b \<Longrightarrow> calls_within P m) \<Longrightarrow> (\<not> b \<Longrightarrow> calls_within P m') \<Longrightarrow> calls_within P (if b then m else m')"
  by simp

lemma within_case_option [within_intros]:
  "(x = None \<Longrightarrow> calls_within P m) \<Longrightarrow> (\<And>a. x = Some a \<Longrightarrow> calls_within P (f a)) \<Longrightarrow>
   calls_within P (case x of None \<Rightarrow> m | Some a \<Rightarrow> f a)"
  by (cases x) simp_all

lemma within_case_sum [within_intros]:
  "(\<And>e. x = Inl e \<Longrightarrow> calls_within P (g e)) \<Longrightarrow> (\<And>a. x = Inr a \<Longrightarrow> calls_within P (f a)) \<Longrightarrow>
   calls_within P (case x of Inl e \<Rightarrow> g e | Inr a \<Rightarrow> f a)"
  by (cases x) simp_all

lemma within_calls: "calls_within P m \<Longrightarrow> c \<in> set (eff_calls m w) \<Longrightarrow> P c"
  by (simp add: calls_within_def list_all_iff)

lemma within_mono: "calls_within P m \<Longrightarrow> (\<And>c. P c \<Longrightarrow> Q c) \<Longrightarrow> calls_within Q m"
  by (simp add: calls_within_def list_all_iff)

text \<open>A successful sequence: both parts succeeded and their calls follow each other.\<close>

lemma bindE_success:
  assumes "eff_result (bindE m k) w = Inr b"
  obtains a where "eff_result m w = Inr a" and "eff_result (k a) (eff_world m w) = Inr b"
    and "eff_calls (bindE m k) w = eff_calls m w @ eff_calls (k a) (eff_world m w)"
  using assms by (auto simp: result_bindE calls_bindE split: sum.splits)

text \<open>A call that the first part does not make is made only when that part succeeded.\<close>

lemma call_reached:
  assumes "c \<in> set (eff_calls (bindE m k) w)" and "c \<notin> set (eff_calls m w)"
  shows "\<exists>a. eff_result m w = Inr a \<and> eff_calls (bindE m k) w = eff_calls m w @ eff_calls (k a) (eff_world m w) \<and>
    c \<in> set (eff_calls (k a) (eff_world m w))"
  using assms by (cases "eff_result m w") (auto simp: calls_bindE)

text \<open>What a port can answer, in some world.\<close>

definition answers :: "('w, 'a) port \<Rightarrow> 'a \<Rightarrow> bool" where
  "answers p a \<longleftrightarrow> (\<exists>v. snd (p v) = Inr a)"

lemma answersI: "snd (p v) = Inr a \<Longrightarrow> answers p a"
  by (auto simp: answers_def)

end
