(* ===== verification/Approval_Validity.thy ===== *)
theory Approval_Validity
  imports Approval_FSM Port_Effects
begin

text \<open>
  The validity service of \<open>packages/approvals/src/application/validity.ts\<close>: the pure
  determination VALID / STALE / EXPIRED, the \<open>check\<close> operation with its append-only evidence
  and compare-and-set, and the scheduled expiry scan \<open>expireDue\<close>.
\<close>

datatype stale_reason =
    ACTION_CHANGED | TARGET_CHANGED | PR_HEAD_CHANGED | PR_BASE_CHANGED | PR_STATE_CHANGED
  | BRANCH_SHA_CHANGED | DEFAULT_BRANCH_CHANGED | POLICY_CHANGED | RISK_CHANGED
  | VALIDATION_CHANGED | VALIDATION_EXPIRED | REPOSITORY_CHANGED | WORKFLOW_SUPERSEDED
  | FINGERPRINT_SCHEMA_UNSUPPORTED

fun stale_reason_str :: "stale_reason \<Rightarrow> string" where
  "stale_reason_str ACTION_CHANGED = ''ACTION_CHANGED''"
| "stale_reason_str TARGET_CHANGED = ''TARGET_CHANGED''"
| "stale_reason_str PR_HEAD_CHANGED = ''PR_HEAD_CHANGED''"
| "stale_reason_str PR_BASE_CHANGED = ''PR_BASE_CHANGED''"
| "stale_reason_str PR_STATE_CHANGED = ''PR_STATE_CHANGED''"
| "stale_reason_str BRANCH_SHA_CHANGED = ''BRANCH_SHA_CHANGED''"
| "stale_reason_str DEFAULT_BRANCH_CHANGED = ''DEFAULT_BRANCH_CHANGED''"
| "stale_reason_str POLICY_CHANGED = ''POLICY_CHANGED''"
| "stale_reason_str RISK_CHANGED = ''RISK_CHANGED''"
| "stale_reason_str VALIDATION_CHANGED = ''VALIDATION_CHANGED''"
| "stale_reason_str VALIDATION_EXPIRED = ''VALIDATION_EXPIRED''"
| "stale_reason_str REPOSITORY_CHANGED = ''REPOSITORY_CHANGED''"
| "stale_reason_str WORKFLOW_SUPERSEDED = ''WORKFLOW_SUPERSEDED''"
| "stale_reason_str FINGERPRINT_SCHEMA_UNSUPPORTED = ''FINGERPRINT_SCHEMA_UNSUPPORTED''"

datatype validity_purpose = RESOLUTION | EVENT | SCHEDULED | PRE_EXECUTION | RECOVERY

fun purpose_str :: "validity_purpose \<Rightarrow> string" where
  "purpose_str RESOLUTION = ''RESOLUTION''"
| "purpose_str EVENT = ''EVENT''"
| "purpose_str SCHEDULED = ''SCHEDULED''"
| "purpose_str PRE_EXECUTION = ''PRE_EXECUTION''"
| "purpose_str RECOVERY = ''RECOVERY''"

record binding_observation =
  cur_actionFingerprint :: string
  cur_contextFingerprint :: string
  cur_cancellationGeneration :: int
  contextChangeReasons :: "stale_reason list option"

record expiring_approval =
  ea_id :: string
  ea_status :: approval_status
  ea_version :: int
  ea_expiresAtMs :: int
  boundActionFingerprint :: string
  boundContextFingerprint :: string
  boundCancellationGeneration :: int
  supportedFingerprintSchemaVersion :: bool

datatype validity_result = Result_VALID | Result_STALE | Result_EXPIRED

record validity_record =
  vr_checkId :: string
  vr_approvalId :: string
  vr_kind :: validity_purpose
  vr_result :: validity_result
  vr_reasonCodes :: "stale_reason list"
  vr_boundContextFingerprint :: string
  vr_currentContextFingerprint :: string
  vr_checkedAtMs :: int

record cas_input =
  cas_approvalId :: string
  cas_expectedVersion :: int
  cas_from :: approval_status
  cas_to :: approval_status
  cas_commandKey :: string
  cas_reasonCodes :: "string list"

section \<open>Determination\<close>

definition contextStalenessReasons :: "binding_observation \<Rightarrow> stale_reason list" where
  "contextStalenessReasons cur =
     (case contextChangeReasons cur of
        Some (r # rs) \<Rightarrow> js_nub (r # rs)
      | _ \<Rightarrow> [TARGET_CHANGED])"

definition stale_reasons :: "expiring_approval \<Rightarrow> binding_observation \<Rightarrow> stale_reason list" where
  "stale_reasons st cur =
     (if \<not> supportedFingerprintSchemaVersion st then [FINGERPRINT_SCHEMA_UNSUPPORTED] else []) @
     (if cur_actionFingerprint cur \<noteq> boundActionFingerprint st then [ACTION_CHANGED] else []) @
     (if cur_contextFingerprint cur \<noteq> boundContextFingerprint st then contextStalenessReasons cur else []) @
     (if cur_cancellationGeneration cur > boundCancellationGeneration st then [WORKFLOW_SUPERSEDED] else [])"

definition determine ::
  "expiring_approval \<Rightarrow> binding_observation \<Rightarrow> int \<Rightarrow> validity_result \<times> stale_reason list" where
  "determine st cur now =
     (if now \<ge> ea_expiresAtMs st then (Result_EXPIRED, [])
      else let reasons = stale_reasons st cur
           in (if reasons \<noteq> [] then Result_STALE else Result_VALID, js_nub reasons))"

section \<open>The check\<close>

record 'w validity_ports =
  loadExpiringApproval :: "string \<Rightarrow> ('w, expiring_approval) port"
  appendValidityCheck :: "validity_record \<Rightarrow> ('w, unit) port"
  val_compareAndSet :: "cas_input \<Rightarrow> ('w, bool \<times> int) port"
  newCheckId :: "'w \<Rightarrow> 'w \<times> string"

datatype validity_call =
    LoadExpiring string
  | AppendCheck validity_record
  | ValidityCas cas_input

datatype check_result =
    CheckValid int string int string      \<comment> \<open>approvalVersion, contextFingerprint, validThroughMs, checkId\<close>
  | CheckStale "stale_reason list" string bool
  | CheckExpired string bool
  | Indeterminate string

record check_input =
  ci_approvalId :: string
  ci_purpose :: validity_purpose
  ci_current :: binding_observation
  ci_nowMs :: int

definition validity_evidence ::
  "check_input \<Rightarrow> expiring_approval \<Rightarrow> string \<Rightarrow> validity_result \<Rightarrow> stale_reason list \<Rightarrow> validity_record" where
  "validity_evidence input st cid res reasons =
     \<lparr>vr_checkId = cid, vr_approvalId = ci_approvalId input, vr_kind = ci_purpose input,
      vr_result = res, vr_reasonCodes = reasons,
      vr_boundContextFingerprint = boundContextFingerprint st,
      vr_currentContextFingerprint = cur_contextFingerprint (ci_current input),
      vr_checkedAtMs = ci_nowMs input\<rparr>"

definition valid_answer :: "expiring_approval \<Rightarrow> string \<Rightarrow> check_result" where
  "valid_answer st cid = CheckValid (ea_version st) (boundContextFingerprint st) (ea_expiresAtMs st) cid"

definition executing_purpose :: "validity_purpose \<Rightarrow> bool" where
  "executing_purpose p \<longleftrightarrow> p = PRE_EXECUTION \<or> p = RECOVERY"

definition val_cas_input ::
  "check_input \<Rightarrow> expiring_approval \<Rightarrow> approval_status \<Rightarrow> string \<Rightarrow> string list \<Rightarrow> cas_input" where
  "val_cas_input input st to key reasons =
     \<lparr>cas_approvalId = ci_approvalId input, cas_expectedVersion = ea_version st,
      cas_from = ea_status st, cas_to = to, cas_commandKey = key, cas_reasonCodes = reasons\<rparr>"

definition expire_key :: "check_input \<Rightarrow> string \<Rightarrow> string" where
  "expire_key input cid = ''expire:'' @ purpose_str (ci_purpose input) @ '':'' @ cid"

definition stale_key :: "check_input \<Rightarrow> string \<Rightarrow> string" where
  "stale_key input cid = ''stale:'' @ purpose_str (ci_purpose input) @ '':'' @ cid"

text \<open>The part of \<open>check\<close> after the evidence is appended.\<close>

definition conclude_check ::
  "'w validity_ports \<Rightarrow> check_input \<Rightarrow> expiring_approval \<Rightarrow> string \<Rightarrow> validity_result \<Rightarrow> stale_reason list \<Rightarrow>
     ('w, validity_call, check_result) eff" where
  "conclude_check ports input st cid res reasons =
     (if res = Result_VALID then retE (valid_answer st cid)
      else if ea_status st = EXECUTING \<and> executing_purpose (ci_purpose input) \<and> res = Result_STALE
      then retE (CheckStale reasons cid False)
      else if ea_status st = EXECUTING \<and> executing_purpose (ci_purpose input) \<and> res = Result_EXPIRED
      then retE (CheckExpired cid False)
      else if res = Result_EXPIRED then
        (let ci = val_cas_input input st EXPIRED (expire_key input cid) [''TIME_EXPIRED'']
         in bindE (callE (ValidityCas ci) (val_compareAndSet ports ci))
              (\<lambda>applied. retE (CheckExpired cid (fst applied))))
      else case resolveEdge (ea_status st) Mark_stale (empty_guards\<lparr>contextMatchesBinding := Some False\<rparr>) of
        Refused _ _ \<Rightarrow> throwE (unregistered ''APPROVAL_ILLEGAL_TRANSITION'')
      | Allowed _ _ \<Rightarrow>
          (let ci = val_cas_input input st STALE (stale_key input cid) (map stale_reason_str reasons)
           in bindE (callE (ValidityCas ci) (val_compareAndSet ports ci))
                (\<lambda>applied. retE (CheckStale reasons cid (fst applied)))))"

definition check :: "'w validity_ports \<Rightarrow> check_input \<Rightarrow> ('w, validity_call, check_result) eff" where
  "check ports input =
     bindE (callE (LoadExpiring (ci_approvalId input)) (loadExpiringApproval ports (ci_approvalId input))) (\<lambda>st.
       if ea_status st = EXECUTING \<and> \<not> executing_purpose (ci_purpose input) then
         bindE (fresh_id (newCheckId ports)) (\<lambda>cid.
           let ev = validity_evidence input st cid Result_VALID []
           in bindE (callE (AppendCheck ev) (appendValidityCheck ports ev)) (\<lambda>_. retE (valid_answer st cid)))
       else if isTerminal (ea_status st) then
         retE (Indeterminate (''APPROVAL_TERMINAL_'' @ status_str (ea_status st)))
       else
         let (res, reasons) = determine st (ci_current input) (ci_nowMs input)
         in bindE (fresh_id (newCheckId ports)) (\<lambda>cid.
              let ev = validity_evidence input st cid res reasons
              in bindE (callE (AppendCheck ev) (appendValidityCheck ports ev))
                   (\<lambda>_. conclude_check ports input st cid res reasons)))"

section \<open>The expiry scan\<close>

record expiry_candidate =
  ec_id :: string
  ec_status :: approval_status
  ec_version :: int
  ec_expiresAtMs :: int

definition due :: "int \<Rightarrow> expiry_candidate \<Rightarrow> bool" where
  "due now c \<longleftrightarrow> (ec_status c = PENDING \<or> ec_status c = APPROVED) \<and> \<not> now < ec_expiresAtMs c"

definition expiry_cas :: "expiry_candidate \<Rightarrow> cas_input" where
  "expiry_cas c =
     \<lparr>cas_approvalId = ec_id c, cas_expectedVersion = ec_version c, cas_from = ec_status c,
      cas_to = EXPIRED,
      cas_commandKey = ''expire:scheduled:'' @ ec_id c @ '':'' @ js_int_str (ec_version c),
      cas_reasonCodes = [''TIME_EXPIRED'']\<rparr>"

fun expireDue_loop ::
  "'w validity_ports \<Rightarrow> int \<Rightarrow> expiry_candidate list \<Rightarrow> int \<Rightarrow> ('w, validity_call, int) eff" where
  "expireDue_loop ports now [] n = retE n"
| "expireDue_loop ports now (c # cs) n =
     (if \<not> due now c then expireDue_loop ports now cs n
      else bindE (callE (ValidityCas (expiry_cas c)) (val_compareAndSet ports (expiry_cas c)))
             (\<lambda>applied. expireDue_loop ports now cs (if fst applied then n + 1 else n)))"

definition expireDue ::
  "'w validity_ports \<Rightarrow> expiry_candidate list \<Rightarrow> int \<Rightarrow> ('w, validity_call, int) eff" where
  "expireDue ports candidates now = expireDue_loop ports now candidates 0"

section \<open>Properties\<close>

lemma contextStalenessReasons_nonempty [simp]: "contextStalenessReasons cur \<noteq> []"
  by (simp add: contextStalenessReasons_def split: option.splits list.splits)

lemma stale_reasons_Nil_iff:
  "stale_reasons st cur = [] \<longleftrightarrow>
     supportedFingerprintSchemaVersion st \<and>
     cur_actionFingerprint cur = boundActionFingerprint st \<and>
     cur_contextFingerprint cur = boundContextFingerprint st \<and>
     cur_cancellationGeneration cur \<le> boundCancellationGeneration st"
  by (auto simp: stale_reasons_def)

text \<open>
  The determination is total and exact: EXPIRED exactly when the clock reached the
  expiry (and then with no stale reason), VALID exactly when, before expiry, the fingerprint
  schema is supported, both fingerprints equal the binding and the cancellation generation was
  not superseded, STALE otherwise; STALE always carries a reason, VALID never does, and no
  reason is repeated.
\<close>

theorem determine_exact:
  "(fst (determine st cur now) = Result_EXPIRED \<longleftrightarrow> ea_expiresAtMs st \<le> now) \<and>
   (fst (determine st cur now) = Result_VALID \<longleftrightarrow>
      now < ea_expiresAtMs st \<and> supportedFingerprintSchemaVersion st \<and>
      cur_actionFingerprint cur = boundActionFingerprint st \<and>
      cur_contextFingerprint cur = boundContextFingerprint st \<and>
      cur_cancellationGeneration cur \<le> boundCancellationGeneration st) \<and>
   (fst (determine st cur now) = Result_STALE \<longleftrightarrow> snd (determine st cur now) \<noteq> []) \<and>
   distinct (snd (determine st cur now))"
  by (auto simp: determine_def Let_def stale_reasons_Nil_iff)

lemma mark_stale_resolves:
  "resolveEdge s Mark_stale (empty_guards\<lparr>contextMatchesBinding := Some False\<rparr>) = Allowed a b \<longleftrightarrow>
     s \<in> {PENDING, APPROVED} \<and> a = s \<and> b = STALE"
  by (cases s) (auto simp: resolveEdge_def isTerminal_def TERMINAL_STATUSES_def edge_def)

text \<open>Guard contexts under which the two transitions of the service are legal edges.\<close>

definition expiry_guards :: "int \<Rightarrow> int \<Rightarrow> guard_context" where
  "expiry_guards now exp = empty_guards\<lparr>nowMs := Some now, expiresAtMs := Some exp\<rparr>"

definition stale_guards :: guard_context where
  "stale_guards = empty_guards\<lparr>contextMatchesBinding := Some False\<rparr>"

lemma expire_legal:
  "approval_fire s Expire (expiry_guards now exp) = Some EXPIRED \<longleftrightarrow> s \<in> {PENDING, APPROVED} \<and> exp \<le> now"
  by (simp add: fire_iff_step approval_step.simps expiry_guards_def now_of_def expiry_of_def)

lemma stale_legal: "approval_fire s Mark_stale stale_guards = Some STALE \<longleftrightarrow> s \<in> {PENDING, APPROVED}"
  by (simp add: fire_iff_step approval_step.simps stale_guards_def)

lemma conclude_check_calls:
  assumes "ValidityCas ci \<in> set (eff_calls (conclude_check ports input st cid res reasons) w)"
    and "\<not> isTerminal (ea_status st)"
    and "ea_status st \<noteq> EXECUTING \<or> executing_purpose (ci_purpose input)"
  shows "eff_calls (conclude_check ports input st cid res reasons) w = [ValidityCas ci]"
    and "ea_status st \<in> {PENDING, APPROVED}"
    and "cas_expectedVersion ci = ea_version st \<and> cas_from ci = ea_status st \<and>
         cas_approvalId ci = ci_approvalId input"
    and "(cas_to ci = EXPIRED \<and> res = Result_EXPIRED) \<or> (cas_to ci = STALE \<and> res = Result_STALE)"
  using assms
  by (cases res; auto simp: conclude_check_def eff_simps isTerminal_iff Let_def val_cas_input_def
        mark_stale_resolves split: if_splits transition_verdict.splits sum.splits)+

lemma check_calls:
  "eff_calls (check ports input) w =
     LoadExpiring (ci_approvalId input) #
     (case snd (loadExpiringApproval ports (ci_approvalId input) w) of
        Inl e \<Rightarrow> []
      | Inr st \<Rightarrow>
          let w1 = fst (loadExpiringApproval ports (ci_approvalId input) w);
              (w2, cid) = newCheckId ports w1
          in if ea_status st = EXECUTING \<and> \<not> executing_purpose (ci_purpose input)
             then [AppendCheck (validity_evidence input st cid Result_VALID [])]
             else if isTerminal (ea_status st) then []
             else let (res, reasons) = determine st (ci_current input) (ci_nowMs input);
                      ev = validity_evidence input st cid res reasons;
                      (w3, r) = appendValidityCheck ports ev w2
                  in AppendCheck ev #
                     (case r of Inl e \<Rightarrow> []
                      | Inr u \<Rightarrow> eff_calls (conclude_check ports input st cid res reasons) w3))"
  by (auto simp: check_def eff_simps eff_if Let_def split: sum.splits prod.splits)

text \<open>
  Whatever the ports answer, a compare-and-set of \<open>check\<close> is its last call, comes
  after the evidence record of the same approval was appended, carries the version and status
  just loaded, and asks for an edge the approval state machine allows under the observed clock
  or binding; an approval that is executing or terminal is never transitioned here.
\<close>

theorem check_transitions_are_legal:
  assumes "ValidityCas ci \<in> set (eff_calls (check ports input) w)"
  shows "\<exists>st ev. snd (loadExpiringApproval ports (ci_approvalId input) w) = Inr st \<and>
    eff_calls (check ports input) w = [LoadExpiring (ci_approvalId input), AppendCheck ev, ValidityCas ci] \<and>
    vr_approvalId ev = ci_approvalId input \<and> cas_approvalId ci = ci_approvalId input \<and>
    cas_expectedVersion ci = ea_version st \<and> cas_from ci = ea_status st \<and>
    (approval_fire (cas_from ci) Expire (expiry_guards (ci_nowMs input) (ea_expiresAtMs st)) = Some (cas_to ci) \<or>
     ci_nowMs input < ea_expiresAtMs st \<and> stale_reasons st (ci_current input) \<noteq> [] \<and>
     approval_fire (cas_from ci) Mark_stale stale_guards = Some (cas_to ci))"
proof -
  from assms obtain st where st: "snd (loadExpiringApproval ports (ci_approvalId input) w) = Inr st"
    by (cases "snd (loadExpiringApproval ports (ci_approvalId input) w)") (auto simp: check_calls)
  define w1 where "w1 = fst (loadExpiringApproval ports (ci_approvalId input) w)"
  obtain w2 cid where ids: "newCheckId ports w1 = (w2, cid)" by fastforce
  obtain res reasons where det: "determine st (ci_current input) (ci_nowMs input) = (res, reasons)" by fastforce
  define ev where "ev = validity_evidence input st cid res reasons"
  obtain w3 r where app: "appendValidityCheck ports ev w2 = (w3, r)" by fastforce
  from assms have live: "\<not> isTerminal (ea_status st)"
      "ea_status st \<noteq> EXECUTING \<or> executing_purpose (ci_purpose input)" and ok: "r = Inr ()"
    and mem: "ValidityCas ci \<in> set (eff_calls (conclude_check ports input st cid res reasons) w3)"
    by (auto simp: check_calls st ids det app Let_def
          simp flip: w1_def ev_def split: if_splits sum.splits)
  note cc = conclude_check_calls [OF mem live]
  have calls: "eff_calls (check ports input) w = [LoadExpiring (ci_approvalId input), AppendCheck ev, ValidityCas ci]"
    using live cc(1) by (auto simp: check_calls st ids det app ok Let_def simp flip: w1_def ev_def)
  have "res = Result_EXPIRED \<Longrightarrow> ea_expiresAtMs st \<le> ci_nowMs input"
       "res = Result_STALE \<Longrightarrow> ci_nowMs input < ea_expiresAtMs st \<and> stale_reasons st (ci_current input) \<noteq> []"
    using det by (auto simp: determine_def Let_def split: if_splits)
  with cc st calls show ?thesis
    by (intro exI [of _ st] exI [of _ ev]) (auto simp: expire_legal stale_legal ev_def validity_evidence_def)
qed

text \<open>A pending approval past its expiry, over ports that accept everything.\<close>

definition sample_expiring :: expiring_approval where
  "sample_expiring =
     \<lparr>ea_id = ''a1'', ea_status = PENDING, ea_version = 1, ea_expiresAtMs = 100,
      boundActionFingerprint = ''fa'', boundContextFingerprint = ''fc'',
      boundCancellationGeneration = 0, supportedFingerprintSchemaVersion = True\<rparr>"

definition sample_validity_ports :: "unit validity_ports" where
  "sample_validity_ports =
     \<lparr>loadExpiringApproval = (\<lambda>_ w. (w, Inr sample_expiring)), appendValidityCheck = (\<lambda>_ w. (w, Inr ())),
      val_compareAndSet = (\<lambda>_ w. (w, Inr (True, 2))), newCheckId = (\<lambda>w. (w, ''k''))\<rparr>"

definition sample_check_input :: check_input where
  "sample_check_input =
     \<lparr>ci_approvalId = ''a1'', ci_purpose = EVENT,
      ci_current = \<lparr>cur_actionFingerprint = ''fa'', cur_contextFingerprint = ''fc'',
                    cur_cancellationGeneration = 0, contextChangeReasons = None\<rparr>,
      ci_nowMs = 100\<rparr>"

definition sample_expiry_cas :: cas_input where
  "sample_expiry_cas =
     \<lparr>cas_approvalId = ''a1'', cas_expectedVersion = 1, cas_from = PENDING, cas_to = EXPIRED,
      cas_commandKey = ''expire:EVENT:k'', cas_reasonCodes = [''TIME_EXPIRED'']\<rparr>"

lemma sample_check_calls:
  "ValidityCas sample_expiry_cas \<in> set (eff_calls (check sample_validity_ports sample_check_input) ())"
  by (simp add: check_calls sample_validity_ports_def sample_check_input_def sample_expiring_def
      determine_def conclude_check_def val_cas_input_def expire_key_def sample_expiry_cas_def
      isTerminal_iff eff_simps)

theorem check_transitions_are_legal_witness:
  "\<exists>ev. eff_calls (check sample_validity_ports sample_check_input) () =
             [LoadExpiring ''a1'', AppendCheck ev, ValidityCas sample_expiry_cas] \<and>
     approval_fire PENDING Expire (expiry_guards 100 100) = Some EXPIRED"
  using check_transitions_are_legal [OF sample_check_calls]
  by (auto simp: sample_check_input_def sample_expiry_cas_def expire_legal sample_validity_ports_def
      sample_expiring_def)

lemma expireDue_loop_calls:
  "\<exists>k. eff_calls (expireDue_loop ports now cs n) w =
         take k (map (\<lambda>c. ValidityCas (expiry_cas c)) (filter (due now) cs)) \<and>
       (\<forall>m. eff_result (expireDue_loop ports now cs n) w = Inr m \<longrightarrow>
          k = length (filter (due now) cs) \<and> n \<le> m \<and> m \<le> n + int k)"
proof (induction cs arbitrary: n w)
  case Nil
  then show ?case by auto
next
  case (Cons c cs)
  show ?case
  proof (cases "due now c")
    case False
    with Cons.IH show ?thesis by simp
  next
    case True
    show ?thesis
    proof (cases "snd (val_compareAndSet ports (expiry_cas c) w)")
      case (Inl e)
      with True show ?thesis by (intro exI [of _ 1]) (simp add: eff_simps)
    next
      case (Inr a)
      from Cons.IH [of "if fst a then n + 1 else n" "fst (val_compareAndSet ports (expiry_cas c) w)"]
      obtain k where "eff_calls (expireDue_loop ports now cs (if fst a then n + 1 else n))
            (fst (val_compareAndSet ports (expiry_cas c) w)) =
            take k (map (\<lambda>c. ValidityCas (expiry_cas c)) (filter (due now) cs))"
        and "\<forall>m. eff_result (expireDue_loop ports now cs (if fst a then n + 1 else n))
            (fst (val_compareAndSet ports (expiry_cas c) w)) = Inr m \<longrightarrow>
              k = length (filter (due now) cs) \<and> (if fst a then n + 1 else n) \<le> m \<and>
              m \<le> (if fst a then n + 1 else n) + int k" by blast
      with True Inr show ?thesis
        by (intro exI [of _ "Suc k"]) (auto simp: eff_simps split: if_splits)
    qed
  qed
qed

text \<open>
  The expiry scan asks for the expiry of the due candidates only, each at most once
  per listing and in order, with the version it was listed at, and every such request is a
  legal expire edge; a scan that returns has asked for all of them and its count is at most
  their number.
\<close>

theorem expireDue_exact:
  "(\<exists>k. eff_calls (expireDue ports cs now) w =
          take k (map (\<lambda>c. ValidityCas (expiry_cas c)) (filter (due now) cs)) \<and>
        (\<forall>m. eff_result (expireDue ports cs now) w = Inr m \<longrightarrow>
           k = length (filter (due now) cs) \<and> 0 \<le> m \<and> m \<le> int k)) \<and>
   due now c = (approval_fire (cas_from (expiry_cas c)) Expire (expiry_guards now (ec_expiresAtMs c))
                  = Some (cas_to (expiry_cas c)))"
  using expireDue_loop_calls [of ports now cs 0 w]
  by (auto simp: expireDue_def due_def expiry_cas_def expire_legal)

definition sample_candidate :: expiry_candidate where
  "sample_candidate = \<lparr>ec_id = ''a1'', ec_status = APPROVED, ec_version = 3, ec_expiresAtMs = 5\<rparr>"

theorem expireDue_exact_witness:
  "eff_result (expireDue sample_validity_ports [sample_candidate] 7) () = Inr 1 \<and>
   eff_calls (expireDue sample_validity_ports [sample_candidate] 7) () =
     [ValidityCas (expiry_cas sample_candidate)]"
proof -
  have "eff_result (expireDue sample_validity_ports [sample_candidate] 7) () = Inr 1"
    by (simp add: expireDue_def sample_candidate_def due_def eff_simps sample_validity_ports_def)
  with expireDue_exact [of sample_validity_ports "[sample_candidate]" 7 "()" sample_candidate]
  show ?thesis by (auto simp: due_def sample_candidate_def)
qed

end
