(* ===== verification/Approval_Resolution.thy ===== *)
theory Approval_Resolution
  imports Approval_FSM Port_Effects
begin

text \<open>
  The resolution commands of \<open>packages/approvals/src/application/resolution.ts\<close>:
  \<open>ApprovalAuthorizationService.resolve\<close> and \<open>cancel\<close>, with the authorizer, the approval
  repository, the validity gate and the clock as ports.
\<close>

datatype principal_kind = User_principal | Service_principal

record principal =
  userId :: string
  p_kind :: principal_kind

datatype approver_capability =
    APPROVE_PRIVILEGED_ACTION | REJECT_PRIVILEGED_ACTION | CANCEL_PRIVILEGED_ACTION

datatype decision = APPROVE | REJECT

fun decision_str :: "decision \<Rightarrow> string" where
  "decision_str APPROVE = ''APPROVE''"
| "decision_str REJECT = ''REJECT''"

record grant =
  authorized :: bool
  g_reasonCode :: "string option"

record approval_snapshot =
  s_id :: string
  repositoryDevguardId :: string
  s_status :: approval_status
  s_version :: int
  s_actionFingerprint :: string
  s_contextFingerprint :: string
  s_expiresAtMs :: int
  resolvedBy :: "string option"
  finalDecision :: "decision option"
  cancellationGeneration :: int

datatype actor_type = Actor_user | Actor_system

record resolution_cas =
  rc_approvalId :: string
  rc_expectedVersion :: int
  rc_from :: approval_status
  rc_to :: approval_status
  rc_commandKey :: string
  rc_actorType :: actor_type
  rc_actorId :: string
  rc_reasonCode :: string
  rc_comment :: "string option"

record resolution_check =
  ck_approvalId :: string
  ck_nowMs :: int
  ck_actionFingerprint :: string
  ck_contextFingerprint :: string

datatype validity_answer = Validity_ok | Validity_refused string string

record 'w resolution_ports =
  authorizeFresh :: "principal \<Rightarrow> string \<Rightarrow> approver_capability \<Rightarrow> ('w, grant) port"
  load :: "string \<Rightarrow> ('w, approval_snapshot) port"
  compareAndSet :: "resolution_cas \<Rightarrow> ('w, bool \<times> int) port"
  checkForResolution :: "resolution_check \<Rightarrow> ('w, validity_answer) port"
  now :: "'w \<Rightarrow> int"

datatype resolution_call =
    AuthorizeFresh principal string approver_capability
  | Load string
  | CheckForResolution resolution_check
  | CompareAndSet resolution_cas

record resolve_command =
  commandId :: string
  approvalId :: string
  decision :: decision
  expectedVersion :: int
  expectedActionFingerprint :: string
  expectedContextFingerprint :: string
  comment :: "string option"

datatype command_result =
    Applied approval_status int
  | Replayed approval_status int
  | NoopSameDecision approval_status int
  | Denied string string

definition hex_or_dash :: "char \<Rightarrow> bool" where
  "hex_or_dash c \<longleftrightarrow> c \<in> set ''0123456789abcdefABCDEF-''"

definition UUID_LIKE :: "string \<Rightarrow> bool" where
  "UUID_LIKE s \<longleftrightarrow> list_all hex_or_dash s \<and> 26 \<le> length s \<and> length s \<le> 36"

definition terminalRefusal :: "approval_snapshot \<Rightarrow> command_result" where
  "terminalRefusal snap =
     (case s_status snap of
        EXPIRED \<Rightarrow> Denied ''APPROVAL_EXPIRED'' ''approval expired before resolution''
      | STALE \<Rightarrow> Denied ''APPROVAL_STALE'' ''binding changed since request; fresh approval required''
      | EXECUTING \<Rightarrow> Denied ''APPROVAL_EXECUTION_STARTED'' ''executor already claimed this approval''
      | s \<Rightarrow> Denied ''APPROVAL_ALREADY_RESOLVED'' (''approval is '' @ js_lower (status_str s)))"

definition denied_grant :: "grant \<Rightarrow> command_result" where
  "denied_grant g =
     Denied (case g_reasonCode g of Some c \<Rightarrow> c | None \<Rightarrow> ''AUTHORIZATION_DENIED'') ''authorization denied''"

definition actor_of :: "principal \<Rightarrow> actor_type" where
  "actor_of p = (if p_kind p = Service_principal then Actor_system else Actor_user)"

definition capability_for :: "decision \<Rightarrow> approver_capability" where
  "capability_for d = (if d = APPROVE then APPROVE_PRIVILEGED_ACTION else REJECT_PRIVILEGED_ACTION)"

definition toStatus :: "decision \<Rightarrow> approval_status" where
  "toStatus d = (if d = APPROVE then APPROVED else REJECTED)"

definition resolve_cas :: "principal \<Rightarrow> resolve_command \<Rightarrow> resolution_cas" where
  "resolve_cas p cmd =
     \<lparr>rc_approvalId = approvalId cmd, rc_expectedVersion = expectedVersion cmd, rc_from = PENDING,
      rc_to = toStatus (decision cmd), rc_commandKey = ''resolve:'' @ commandId cmd,
      rc_actorType = actor_of p, rc_actorId = userId p,
      rc_reasonCode = ''RESOLUTION_'' @ decision_str (decision cmd),
      rc_comment = map_option (take 512) (comment cmd)\<rparr>"

definition resolution_check_of :: "int \<Rightarrow> resolve_command \<Rightarrow> resolution_check" where
  "resolution_check_of n cmd =
     \<lparr>ck_approvalId = approvalId cmd, ck_nowMs = n,
      ck_actionFingerprint = expectedActionFingerprint cmd,
      ck_contextFingerprint = expectedContextFingerprint cmd\<rparr>"

text \<open>The part of \<open>resolve\<close> that follows the load, for a pending approval.\<close>

definition resolve_pending ::
  "'w resolution_ports \<Rightarrow> principal \<Rightarrow> resolve_command \<Rightarrow> ('w, resolution_call, command_result) eff" where
  "resolve_pending ports p cmd =
     readE (now ports) (\<lambda>n.
       let ck = resolution_check_of n cmd in
       bindE (callE (CheckForResolution ck) (checkForResolution ports ck)) (\<lambda>validity.
         case validity of
           Validity_refused code detail \<Rightarrow> retE (Denied code detail)
         | Validity_ok \<Rightarrow>
             bindE (callE (CompareAndSet (resolve_cas p cmd)) (compareAndSet ports (resolve_cas p cmd))) (\<lambda>applied.
               if \<not> fst applied
               then retE (Denied ''APPROVAL_VERSION_CONFLICT'' ''approval changed concurrently; reload and resubmit'')
               else retE (Applied (toStatus (decision cmd)) (snd applied)))))"

definition resolve ::
  "'w resolution_ports \<Rightarrow> principal \<Rightarrow> resolve_command \<Rightarrow> ('w, resolution_call, command_result) eff" where
  "resolve ports p cmd =
     (if \<not> UUID_LIKE (approvalId cmd) \<or> commandId cmd = [] then throwE (MadeError ''VALIDATION_FAILED'')
      else
        bindE (callE (AuthorizeFresh p [] (capability_for (decision cmd)))
                     (authorizeFresh ports p [] (capability_for (decision cmd)))) (\<lambda>g.
          if \<not> authorized g then retE (denied_grant g)
          else
            bindE (callE (Load (approvalId cmd)) (load ports (approvalId cmd))) (\<lambda>snap.
              if s_status snap = APPROVED \<or> s_status snap = REJECTED then
                (if finalDecision snap = Some (decision cmd)
                 then retE (NoopSameDecision (s_status snap) (s_version snap))
                 else retE (Denied ''APPROVAL_ALREADY_RESOLVED''
                        (''already '' @ js_lower (status_str (s_status snap)) @ '' by another decision'')))
              else if s_status snap \<noteq> PENDING then retE (terminalRefusal snap)
              else resolve_pending ports p cmd)))"

record cancel_command =
  cc_commandId :: string
  cc_approvalId :: string
  cc_expectedVersion :: int
  cc_reason :: string

definition cancel_cas :: "principal \<Rightarrow> cancel_command \<Rightarrow> approval_snapshot \<Rightarrow> resolution_cas" where
  "cancel_cas p cmd snap =
     \<lparr>rc_approvalId = cc_approvalId cmd, rc_expectedVersion = cc_expectedVersion cmd,
      rc_from = s_status snap, rc_to = CANCELLED, rc_commandKey = ''cancel:'' @ cc_commandId cmd,
      rc_actorType = actor_of p, rc_actorId = userId p,
      rc_reasonCode = ''CANCELLATION_REQUESTED'', rc_comment = Some (take 512 (cc_reason cmd))\<rparr>"

definition cancel_guards :: "int \<Rightarrow> int \<Rightarrow> guard_context" where
  "cancel_guards n e =
     empty_guards\<lparr>nowMs := Some n, expiresAtMs := Some e, externalEffectBegan := Some False,
       cancellationCurrent := Some True\<rparr>"

definition cancel ::
  "'w resolution_ports \<Rightarrow> principal \<Rightarrow> cancel_command \<Rightarrow> ('w, resolution_call, command_result) eff" where
  "cancel ports p cmd =
     bindE (callE (AuthorizeFresh p [] CANCEL_PRIVILEGED_ACTION)
                  (authorizeFresh ports p [] CANCEL_PRIVILEGED_ACTION)) (\<lambda>g.
       if \<not> authorized g then retE (denied_grant g)
       else
         bindE (callE (Load (cc_approvalId cmd)) (load ports (cc_approvalId cmd))) (\<lambda>snap.
           if s_status snap = CANCELLED then retE (NoopSameDecision (s_status snap) (s_version snap))
           else readE (now ports) (\<lambda>n.
             case resolveEdge (s_status snap) Cancel_before_execution (cancel_guards n (s_expiresAtMs snap)) of
                Refused code detail \<Rightarrow> retE (Denied code detail)
              | Allowed _ _ \<Rightarrow>
                  bindE (callE (CompareAndSet (cancel_cas p cmd snap)) (compareAndSet ports (cancel_cas p cmd snap)))
                    (\<lambda>applied.
                      if \<not> fst applied
                      then retE (Denied ''APPROVAL_VERSION_CONFLICT'' ''approval changed concurrently'')
                      else retE (Applied CANCELLED (snd applied))))))"

section \<open>Properties\<close>

lemma calls_resolve_pending:
  "eff_calls (resolve_pending ports p cmd) w =
     (let ck = resolution_check_of (now ports w) cmd in
      CheckForResolution ck #
        (if snd (checkForResolution ports ck w) = Inr Validity_ok then [CompareAndSet (resolve_cas p cmd)] else []))"
  by (auto simp: resolve_pending_def eff_simps Let_def split: sum.splits validity_answer.splits)

lemma result_resolve_pending:
  "eff_result (resolve_pending ports p cmd) w =
     (let ck = resolution_check_of (now ports w) cmd in
      case snd (checkForResolution ports ck w) of
        Inl e \<Rightarrow> Inl e
      | Inr (Validity_refused code detail) \<Rightarrow> Inr (Denied code detail)
      | Inr Validity_ok \<Rightarrow>
          (case snd (compareAndSet ports (resolve_cas p cmd) (fst (checkForResolution ports ck w))) of
             Inl e \<Rightarrow> Inl e
           | Inr applied \<Rightarrow>
               Inr (if \<not> fst applied
                    then Denied ''APPROVAL_VERSION_CONFLICT'' ''approval changed concurrently; reload and resubmit''
                    else Applied (toStatus (decision cmd)) (snd applied))))"
  by (auto simp: resolve_pending_def eff_simps Let_def split: sum.splits validity_answer.splits)

text \<open>
  Whatever the ports answer, \<open>resolve\<close> requests a transition at most once, as its
  last call, and only after the authorizer granted the capability of the decision, the loaded
  approval was PENDING, and the validity gate accepted the client's expected fingerprints at the
  current clock; the request moves PENDING to the decided status at the client's expected
  version under the command's own key.
\<close>

theorem resolve_cas_only_after_gates:
  assumes "CompareAndSet c \<in> set (eff_calls (resolve ports p cmd) w)"
  shows "\<exists>g snap w1 w2 ck.
    authorizeFresh ports p [] (capability_for (decision cmd)) w = (w1, Inr g) \<and> authorized g \<and>
    load ports (approvalId cmd) w1 = (w2, Inr snap) \<and> s_status snap = PENDING \<and>
    ck = resolution_check_of (now ports w2) cmd \<and> snd (checkForResolution ports ck w2) = Inr Validity_ok \<and>
    eff_calls (resolve ports p cmd) w =
      [AuthorizeFresh p [] (capability_for (decision cmd)), Load (approvalId cmd),
       CheckForResolution ck, CompareAndSet c] \<and>
    rc_from c = PENDING \<and> rc_to c = toStatus (decision cmd) \<and>
    rc_expectedVersion c = expectedVersion cmd \<and> rc_commandKey c = ''resolve:'' @ commandId cmd"
proof -
  obtain w1 rg where auth: "authorizeFresh ports p [] (capability_for (decision cmd)) w = (w1, rg)" by fastforce
  obtain w2 rs where ld: "load ports (approvalId cmd) w1 = (w2, rs)" by fastforce
  from assms auth ld show ?thesis
    by (cases rg; cases rs)
       (auto simp: resolve_def eff_simps eff_if calls_resolve_pending Let_def resolve_cas_def split: if_splits)
qed

lemma resolve_result_cases:
  assumes "eff_result (resolve ports p cmd) w = Inr (Applied s v)"
  shows "s = toStatus (decision cmd) \<and>
    CompareAndSet (resolve_cas p cmd) \<in> set (eff_calls (resolve ports p cmd) w)"
proof -
  obtain w1 rg where auth: "authorizeFresh ports p [] (capability_for (decision cmd)) w = (w1, rg)" by fastforce
  obtain w2 rs where ld: "load ports (approvalId cmd) w1 = (w2, rs)" by fastforce
  from assms auth ld show ?thesis
    by (cases rg; cases rs)
       (auto simp: resolve_def eff_simps eff_if calls_resolve_pending result_resolve_pending Let_def
          terminalRefusal_def denied_grant_def
          split: if_splits sum.splits validity_answer.splits approval_status.splits)
qed

lemma resolve_applied_pending:
  assumes "eff_result (resolve ports p cmd) w = Inr (Applied s v)"
  shows "\<exists>w1 w2. w1 = fst (authorizeFresh ports p [] (capability_for (decision cmd)) w) \<and>
    w2 = fst (load ports (approvalId cmd) w1) \<and>
    eff_result (resolve_pending ports p cmd) w2 = Inr (Applied s v) \<and>
    eff_world (resolve ports p cmd) w = eff_world (resolve_pending ports p cmd) w2"
proof -
  obtain w1 rg where auth: "authorizeFresh ports p [] (capability_for (decision cmd)) w = (w1, rg)" by fastforce
  obtain w2 rs where ld: "load ports (approvalId cmd) w1 = (w2, rs)" by fastforce
  from assms auth ld show ?thesis
    by (cases rg; cases rs)
       (auto simp: resolve_def eff_simps eff_if terminalRefusal_def denied_grant_def
          split: if_splits approval_status.splits)
qed

lemma not_replayed: "eff_result (resolve ports p cmd) w \<noteq> Inr (Replayed s v)"
proof -
  obtain w1 rg where auth: "authorizeFresh ports p [] (capability_for (decision cmd)) w = (w1, rg)" by fastforce
  obtain w2 rs where ld: "load ports (approvalId cmd) w1 = (w2, rs)" by fastforce
  from auth ld show ?thesis
    by (cases rg; cases rs)
       (auto simp: resolve_def eff_simps eff_if result_resolve_pending Let_def terminalRefusal_def denied_grant_def
          split: sum.splits validity_answer.splits approval_status.splits)
qed

text \<open>
  An APPLIED answer of \<open>resolve\<close> always reports the decided status and follows
  an actual transition request; the documented REPLAYED answer is never given; and the
  capability is always checked against the empty repository id, before the approval (and so its
  repository) is known.
\<close>

theorem resolve_answers:
  "eff_result (resolve ports p cmd) w \<noteq> Inr (Replayed s v) \<and>
   (eff_result (resolve ports p cmd) w = Inr (Applied s v) \<longrightarrow>
      s = toStatus (decision cmd) \<and> CompareAndSet (resolve_cas p cmd) \<in> set (eff_calls (resolve ports p cmd) w)) \<and>
   (\<forall>q repo cap. AuthorizeFresh q repo cap \<in> set (eff_calls (resolve ports p cmd) w) \<longrightarrow>
      repo = [] \<and> hd (eff_calls (resolve ports p cmd) w) = AuthorizeFresh q repo cap)"
proof -
  have "AuthorizeFresh q repo cap \<in> set (eff_calls (resolve ports p cmd) w) \<Longrightarrow>
      repo = [] \<and> hd (eff_calls (resolve ports p cmd) w) = AuthorizeFresh q repo cap" for q repo cap
    by (auto simp: resolve_def eff_simps eff_if calls_resolve_pending Let_def split: sum.splits if_splits)
  then have "\<forall>q repo cap. AuthorizeFresh q repo cap \<in> set (eff_calls (resolve ports p cmd) w) \<longrightarrow>
      repo = [] \<and> hd (eff_calls (resolve ports p cmd) w) = AuthorizeFresh q repo cap" by simp
  with not_replayed [of ports p cmd w s v] resolve_result_cases [of ports p cmd w s v] show ?thesis by simp
qed

lemma cancel_edge:
  "resolveEdge s Cancel_before_execution (cancel_guards n e) = Allowed a b \<longleftrightarrow>
     s \<in> {PENDING, APPROVED} \<and> a = s \<and> b = CANCELLED"
  by (cases s) (auto simp: resolveEdge_def isTerminal_def TERMINAL_STATUSES_def edge_def cancel_guards_def)

lemma cancel_edge_live:
  "resolveEdge PENDING Cancel_before_execution (cancel_guards n e) = Allowed PENDING CANCELLED"
  "resolveEdge APPROVED Cancel_before_execution (cancel_guards n e) = Allowed APPROVED CANCELLED"
  by (simp_all add: cancel_edge)

lemma calls_cancel:
  "eff_calls (cancel ports p cmd) w =
     AuthorizeFresh p [] CANCEL_PRIVILEGED_ACTION #
     (case authorizeFresh ports p [] CANCEL_PRIVILEGED_ACTION w of
        (w1, Inl e) \<Rightarrow> []
      | (w1, Inr g) \<Rightarrow>
          if \<not> authorized g then []
          else Load (cc_approvalId cmd) #
            (case snd (load ports (cc_approvalId cmd) w1) of
               Inl e \<Rightarrow> []
             | Inr snap \<Rightarrow>
                 if s_status snap \<in> {PENDING, APPROVED} then [CompareAndSet (cancel_cas p cmd snap)] else []))"
  by (auto simp: cancel_def eff_simps eff_if cancel_edge cancel_edge_live
      split: prod.splits sum.splits transition_verdict.splits)

text \<open>
  Cancellation asks for a transition only of an approval it loaded as PENDING or
  APPROVED, only after the cancel capability was granted, and always along the legal
  cancel-before-execution edge; an executing or terminal approval is left alone.
\<close>

theorem cancel_never_touches_executing:
  assumes "CompareAndSet c \<in> set (eff_calls (cancel ports p cmd) w)"
  shows "\<exists>w1 g snap. authorizeFresh ports p [] CANCEL_PRIVILEGED_ACTION w = (w1, Inr g) \<and> authorized g \<and>
    snd (load ports (cc_approvalId cmd) w1) = Inr snap \<and> rc_from c = s_status snap \<and>
    rc_expectedVersion c = cc_expectedVersion cmd \<and>
    (\<forall>n e. approval_fire (rc_from c) Cancel_before_execution (cancel_guards n e) = Some (rc_to c)) \<and>
    rc_to c = CANCELLED \<and> rc_from c \<noteq> EXECUTING \<and> \<not> isTerminal (rc_from c)"
proof -
  obtain w1 rg where auth: "authorizeFresh ports p [] CANCEL_PRIVILEGED_ACTION w = (w1, rg)" by fastforce
  have legal: "s \<in> {PENDING, APPROVED} \<Longrightarrow>
      approval_fire s Cancel_before_execution (cancel_guards n e) = Some CANCELLED" for s n e
    using cancel_edge [of s n e s CANCELLED] by (simp add: approval_fire_def)
  from assms auth show ?thesis
    by (cases rg; cases "snd (load ports (cc_approvalId cmd) w1)")
       (auto simp: calls_cancel cancel_cas_def legal isTerminal_iff split: if_splits)
qed

section \<open>Witnesses\<close>

definition sample_principal :: principal where
  "sample_principal = \<lparr>userId = ''u1'', p_kind = User_principal\<rparr>"

definition sample_snapshot :: approval_snapshot where
  "sample_snapshot =
     \<lparr>s_id = ''a'', repositoryDevguardId = ''r'', s_status = PENDING, s_version = 4,
      s_actionFingerprint = ''fa'', s_contextFingerprint = ''fc'', s_expiresAtMs = 100,
      resolvedBy = None, finalDecision = None, cancellationGeneration = 0\<rparr>"

definition sample_resolution_ports :: "unit resolution_ports" where
  "sample_resolution_ports =
     \<lparr>authorizeFresh = (\<lambda>_ _ _ w. (w, Inr \<lparr>authorized = True, g_reasonCode = None\<rparr>)),
      load = (\<lambda>_ w. (w, Inr sample_snapshot)), compareAndSet = (\<lambda>_ w. (w, Inr (True, 5))),
      checkForResolution = (\<lambda>_ w. (w, Inr Validity_ok)), now = (\<lambda>_. 7)\<rparr>"

definition sample_command :: resolve_command where
  "sample_command =
     \<lparr>commandId = ''c1'', approvalId = ''00000000-0000-0000-0000-000000000001'', decision = APPROVE,
      expectedVersion = 4, expectedActionFingerprint = ''fa'', expectedContextFingerprint = ''fc'',
      comment = None\<rparr>"

definition sample_cancel :: cancel_command where
  "sample_cancel = \<lparr>cc_commandId = ''c2'', cc_approvalId = ''a'', cc_expectedVersion = 4, cc_reason = ''stop''\<rparr>"

lemma sample_uuid: "UUID_LIKE ''00000000-0000-0000-0000-000000000001''"
  by (simp add: UUID_LIKE_def hex_or_dash_def)

lemma sample_resolve_run:
  "eff_calls (resolve sample_resolution_ports sample_principal sample_command) () =
     [AuthorizeFresh sample_principal [] APPROVE_PRIVILEGED_ACTION,
      Load ''00000000-0000-0000-0000-000000000001'',
      CheckForResolution (resolution_check_of 7 sample_command),
      CompareAndSet (resolve_cas sample_principal sample_command)]"
  "eff_result (resolve sample_resolution_ports sample_principal sample_command) () = Inr (Applied APPROVED 5)"
  by (simp_all add: resolve_def sample_command_def sample_uuid eff_simps sample_resolution_ports_def
      capability_for_def sample_snapshot_def calls_resolve_pending result_resolve_pending toStatus_def)

theorem resolve_cas_only_after_gates_witness:
  "CompareAndSet (resolve_cas sample_principal sample_command)
     \<in> set (eff_calls (resolve sample_resolution_ports sample_principal sample_command) ()) \<and>
   rc_to (resolve_cas sample_principal sample_command) = toStatus APPROVE"
proof -
  have mem: "CompareAndSet (resolve_cas sample_principal sample_command)
      \<in> set (eff_calls (resolve sample_resolution_ports sample_principal sample_command) ())"
    by (simp add: sample_resolve_run)
  have "rc_to (resolve_cas sample_principal sample_command) = toStatus (decision sample_command)"
    using resolve_cas_only_after_gates [OF mem] by (elim exE conjE)
  with mem show ?thesis by (simp add: sample_command_def)
qed

theorem resolve_answers_witness:
  "eff_result (resolve sample_resolution_ports sample_principal sample_command) () = Inr (Applied APPROVED 5) \<and>
   APPROVED = toStatus (decision sample_command)"
  using resolve_answers [of sample_resolution_ports sample_principal sample_command "()" APPROVED 5]
  by (simp add: sample_resolve_run)

lemma sample_cancel_calls:
  "CompareAndSet (cancel_cas sample_principal sample_cancel sample_snapshot)
     \<in> set (eff_calls (cancel sample_resolution_ports sample_principal sample_cancel) ())"
  by (simp add: calls_cancel sample_resolution_ports_def sample_snapshot_def)

theorem cancel_never_touches_executing_witness:
  "rc_to (cancel_cas sample_principal sample_cancel sample_snapshot) = CANCELLED \<and>
   \<not> isTerminal (rc_from (cancel_cas sample_principal sample_cancel sample_snapshot))"
  using cancel_never_touches_executing [OF sample_cancel_calls] by blast

end
