(* ===== verification/Approval_Execution.thy ===== *)
theory Approval_Execution
  imports Approval_FSM Port_Effects
begin

text \<open>
  The privileged execution service of \<open>packages/approvals/src/application/execution.ts\<close>: the
  eight-step double check \<open>executeApproved\<close> over its ports (persistence, validity gate, target
  refetch, policy re-evaluation, executor, verifier).  \<open>resolvedAtMs\<close> is \<open>None\<close> for a number
  that is not finite.
\<close>

datatype execution_step =
    STEP_1_POLICY_DECISION_PERSISTED | STEP_2_OPERATION_PERSISTED | STEP_3_HUMAN_DECISION_RECORDED
  | STEP_4_TARGET_REFETCHED | STEP_5_POLICY_REEVALUATED | STEP_6_VALIDITY_CONFIRMED
  | STEP_7_EXECUTED_ONCE | STEP_8_OUTCOME_VERIFIED

record privileged_approval =
  pa_id :: string
  pa_status :: approval_status
  pa_version :: int
  pa_actionFingerprint :: string
  pa_contextFingerprint :: string
  operationKey :: string
  pa_cancellationGeneration :: int
  pa_expiresAtMs :: int
  policyDecisionId :: string
  policyDecisionEffect :: string
  pa_resolvedBy :: string
  resolvedAtMs :: "int option"

record target_observation =
  t_actionFingerprint :: string
  t_contextFingerprint :: string

record policy_evaluation =
  stillRequiresApprovalAndGranted :: bool
  stricterDeny :: bool

datatype executor_outcome =
    Outcome_EXECUTED string
  | Outcome_ALREADY_PRESENT string
  | Outcome_FAILED_PERMANENTLY string

record execute_input =
  ex_operationKey :: string
  ex_actionFingerprint :: string
  ex_contextFingerprint :: string
  ex_leaseToken :: string

record claim_input =
  cl_approvalId :: string
  cl_expectedVersion :: int
  cl_workerId :: string
  cl_nowMs :: int
  cl_stepsProven :: "execution_step list"

record claim_answer =
  claimed :: bool
  attemptId :: string
  versionAfter :: int

record close_input =
  co_approvalId :: string
  co_toStatus :: approval_status
  co_attemptId :: string
  co_providerReference :: "string option"
  co_errorCode :: "string option"

datatype gate_answer = Gate_valid | Gate_invalid string string

record 'w execution_ports =
  loadPrivilegedApproval :: "string \<Rightarrow> ('w, privileged_approval) port"
  claimExecutionLease :: "claim_input \<Rightarrow> ('w, claim_answer) port"
  closeExecution :: "close_input \<Rightarrow> ('w, unit) port"
  validityGate :: "string \<Rightarrow> int \<Rightarrow> ('w, gate_answer) port"
  fetchCurrentTarget :: "('w, target_observation) port"
  reevaluatePolicy :: "('w, policy_evaluation) port"
  executeOnce :: "execute_input \<Rightarrow> ('w, executor_outcome) port"
  verify :: "string \<Rightarrow> string \<Rightarrow> ('w, bool) port"
  workerId :: string
  x_nowMs :: int
  digest :: "string \<Rightarrow> string"

datatype execution_call =
    LoadPrivileged string
  | FetchTarget
  | ReevaluatePolicy
  | ValidityGate string int
  | ClaimLease claim_input
  | ExecuteOnce execute_input
  | VerifyOutcome string string
  | CloseExecution close_input

datatype execution_result =
    Executed "execution_step list" string bool   \<comment> \<open>stepsProven, providerReference, verified\<close>
  | Blocked string string

definition provenEarly :: "execution_step list" where
  "provenEarly =
     [STEP_1_POLICY_DECISION_PERSISTED, STEP_2_OPERATION_PERSISTED, STEP_3_HUMAN_DECISION_RECORDED]"

definition proven :: "execution_step list" where
  "proven = provenEarly @ [STEP_4_TARGET_REFETCHED, STEP_5_POLICY_REEVALUATED, STEP_6_VALIDITY_CONFIRMED]"

definition close_call :: "'w execution_ports \<Rightarrow> close_input \<Rightarrow> ('w, execution_call, unit) eff" where
  "close_call ports c = callE (CloseExecution c) (closeExecution ports c)"

definition close_failed :: "string \<Rightarrow> string \<Rightarrow> string \<Rightarrow> close_input" where
  "close_failed aid attempt err =
     \<lparr>co_approvalId = aid, co_toStatus = EXECUTION_FAILED, co_attemptId = attempt,
      co_providerReference = None, co_errorCode = Some err\<rparr>"

definition close_executed :: "string \<Rightarrow> string \<Rightarrow> string \<Rightarrow> close_input" where
  "close_executed aid attempt ref =
     \<lparr>co_approvalId = aid, co_toStatus = EXECUTED, co_attemptId = attempt,
      co_providerReference = (if ref \<noteq> [] then Some ref else None), co_errorCode = None\<rparr>"

definition markStaled :: "'w execution_ports \<Rightarrow> string \<Rightarrow> ('w, execution_call, unit) eff" where
  "markStaled ports aid =
     swallowE (close_call ports
       \<lparr>co_approvalId = aid, co_toStatus = STALE, co_attemptId = ''pre-claim-invalidation'',
        co_providerReference = None, co_errorCode = None\<rparr>)"

definition execute_input_of :: "'w execution_ports \<Rightarrow> privileged_approval \<Rightarrow> claim_answer \<Rightarrow> execute_input" where
  "execute_input_of ports r claim =
     \<lparr>ex_operationKey = operationKey r, ex_actionFingerprint = pa_actionFingerprint r,
      ex_contextFingerprint = pa_contextFingerprint r,
      ex_leaseToken = workerId ports @ '':'' @ attemptId claim\<rparr>"

definition claim_input_of :: "'w execution_ports \<Rightarrow> string \<Rightarrow> privileged_approval \<Rightarrow> claim_input" where
  "claim_input_of ports aid r =
     \<lparr>cl_approvalId = aid, cl_expectedVersion = pa_version r, cl_workerId = workerId ports,
      cl_nowMs = x_nowMs ports, cl_stepsProven = proven\<rparr>"

text \<open>Step 8 and the closing of the attempt, after the executor answered with a reference.\<close>

definition verify_and_close ::
  "'w execution_ports \<Rightarrow> string \<Rightarrow> privileged_approval \<Rightarrow> claim_answer \<Rightarrow> bool \<Rightarrow> string \<Rightarrow>
     ('w, execution_call, execution_result) eff" where
  "verify_and_close ports aid r claim already ref =
     bindE (callE (VerifyOutcome ref (digest ports (operationKey r)))
                  (verify ports ref (digest ports (operationKey r)))) (\<lambda>verified.
       if \<not> verified \<and> \<not> already then
         bindE (close_call ports (close_failed aid (attemptId claim) ''OUTCOME_UNVERIFIED''))
           (\<lambda>_. retE (Blocked ''OUTCOME_UNVERIFIED'' ''provider state does not yet prove the intended effect''))
       else
         bindE (close_call ports (close_executed aid (attemptId claim) ref))
           (\<lambda>_. retE (Executed (proven @ [STEP_7_EXECUTED_ONCE, STEP_8_OUTCOME_VERIFIED]) ref
                        (verified \<or> already))))"

text \<open>The body of the \<open>try\<close> block.\<close>

definition run_claimed ::
  "'w execution_ports \<Rightarrow> string \<Rightarrow> privileged_approval \<Rightarrow> claim_answer \<Rightarrow>
     ('w, execution_call, execution_result) eff" where
  "run_claimed ports aid r claim =
     bindE (callE (ExecuteOnce (execute_input_of ports r claim)) (executeOnce ports (execute_input_of ports r claim)))
       (\<lambda>reconciled. case reconciled of
          Outcome_FAILED_PERMANENTLY err \<Rightarrow>
            bindE (close_call ports (close_failed aid (attemptId claim) err))
              (\<lambda>_. retE (Blocked err ''executor reported permanent failure after claim''))
        | Outcome_EXECUTED ref \<Rightarrow> verify_and_close ports aid r claim False ref
        | Outcome_ALREADY_PRESENT ref \<Rightarrow> verify_and_close ports aid r claim True ref)"

definition rethrown :: "js_error \<Rightarrow> js_error" where
  "rethrown e = (case e of NonError _ \<Rightarrow> MadeError ''DEPENDENCY_UNAVAILABLE'' | _ \<Rightarrow> e)"

definition execute_claimed ::
  "'w execution_ports \<Rightarrow> string \<Rightarrow> privileged_approval \<Rightarrow> claim_answer \<Rightarrow>
     ('w, execution_call, execution_result) eff" where
  "execute_claimed ports aid r claim =
     catchE (run_claimed ports aid r claim) (\<lambda>e.
       bindE (swallowE (close_call ports (close_failed aid (attemptId claim) ''EXECUTOR_EXCEPTION'')))
         (\<lambda>_. throwE (rethrown e)))"

text \<open>Steps 1 to 3: the refusal detail of the durable prerequisites, if any.\<close>

definition prereq_refusal :: "privileged_approval \<Rightarrow> string option" where
  "prereq_refusal r =
     (if pa_status r \<noteq> APPROVED
      then Some (''approval is '' @ status_str (pa_status r) @ ''; only APPROVED may be executed'')
      else if policyDecisionId r = [] \<or> policyDecisionEffect r \<noteq> ''REQUIRE_APPROVAL''
      then Some ''policy decision is not a persisted REQUIRE_APPROVAL''
      else if pa_resolvedBy r = [] \<or> resolvedAtMs r = None
      then Some ''no authorized human decision recorded''
      else None)"

definition executeApproved ::
  "'w execution_ports \<Rightarrow> string \<Rightarrow> ('w, execution_call, execution_result) eff" where
  "executeApproved ports aid =
     bindE (catchE (callE (LoadPrivileged aid) (loadPrivilegedApproval ports aid))
                   (\<lambda>_. throwE (MadeError ''NOT_FOUND''))) (\<lambda>r.
       case prereq_refusal r of
         Some detail \<Rightarrow> retE (Blocked ''STEPS_PREREQ_INVALID'' detail)
       | None \<Rightarrow>
       bindE (callE FetchTarget (fetchCurrentTarget ports)) (\<lambda>target.
       if t_actionFingerprint target \<noteq> pa_actionFingerprint r \<or>
          t_contextFingerprint target \<noteq> pa_contextFingerprint r
       then bindE (markStaled ports aid)
              (\<lambda>_. retE (Blocked ''TARGET_CHANGED'' ''current provider state no longer matches the approved binding''))
       else
       bindE (callE ReevaluatePolicy (reevaluatePolicy ports)) (\<lambda>policyNow.
       if stricterDeny policyNow
       then retE (Blocked ''POLICY_CHANGED'' ''current policy denies what it previously floor-gated'')
       else if \<not> stillRequiresApprovalAndGranted policyNow
       then retE (Blocked ''POLICY_LOOSENED'' ''current policy no longer gates identically; submit a fresh proposal'')
       else
       bindE (callE (ValidityGate aid (x_nowMs ports)) (validityGate ports aid (x_nowMs ports))) (\<lambda>validity.
       case validity of
         Gate_invalid code detail \<Rightarrow> retE (Blocked code detail)
       | Gate_valid \<Rightarrow>
       if x_nowMs ports \<ge> pa_expiresAtMs r
       then retE (Blocked ''APPROVAL_EXPIRED'' ''expired before execution could be claimed'')
       else
       bindE (callE (ClaimLease (claim_input_of ports aid r)) (claimExecutionLease ports (claim_input_of ports aid r)))
         (\<lambda>claim.
            if \<not> claimed claim
            then retE (Blocked ''APPROVAL_VERSION_CONFLICT''
                         ''execution claim lost the race or state changed concurrently'')
            else execute_claimed ports aid r claim)))))"

section \<open>The claimed phase\<close>

lemma close_call_simps [simp]:
  "eff_calls (close_call ports c) w = [CloseExecution c]"
  "eff_result (close_call ports c) w = snd (closeExecution ports c w)"
  by (simp_all add: close_call_def)

definition final_close :: "string \<Rightarrow> claim_answer \<Rightarrow> bool \<Rightarrow> string \<Rightarrow> bool \<Rightarrow> close_input" where
  "final_close aid claim already ref verified =
     (if \<not> verified \<and> \<not> already then close_failed aid (attemptId claim) ''OUTCOME_UNVERIFIED''
      else close_executed aid (attemptId claim) ref)"

lemma calls_verify_and_close:
  "eff_calls (verify_and_close ports aid r claim already ref) w =
     VerifyOutcome ref (digest ports (operationKey r)) #
     (case snd (verify ports ref (digest ports (operationKey r)) w) of
        Inl e \<Rightarrow> [] | Inr v \<Rightarrow> [CloseExecution (final_close aid claim already ref v)])"
  by (simp add: verify_and_close_def eff_simps eff_if final_close_def split: sum.split)

lemma result_verify_and_close:
  "eff_result (verify_and_close ports aid r claim already ref) w =
     (let (w1, rv) = verify ports ref (digest ports (operationKey r)) w in
      case rv of
        Inl e \<Rightarrow> Inl e
      | Inr v \<Rightarrow>
          (case snd (closeExecution ports (final_close aid claim already ref v) w1) of
             Inl e \<Rightarrow> Inl e
           | Inr _ \<Rightarrow>
               Inr (if \<not> v \<and> \<not> already
                    then Blocked ''OUTCOME_UNVERIFIED'' ''provider state does not yet prove the intended effect''
                    else Executed (proven @ [STEP_7_EXECUTED_ONCE, STEP_8_OUTCOME_VERIFIED]) ref (v \<or> already))))"
  by (simp add: verify_and_close_def eff_simps eff_if final_close_def split: sum.split prod.split)

lemma calls_run_claimed:
  "eff_calls (run_claimed ports aid r claim) w =
     ExecuteOnce (execute_input_of ports r claim) #
     (let (w1, out) = executeOnce ports (execute_input_of ports r claim) w in
      case out of
        Inl e \<Rightarrow> []
      | Inr (Outcome_FAILED_PERMANENTLY err) \<Rightarrow> [CloseExecution (close_failed aid (attemptId claim) err)]
      | Inr (Outcome_EXECUTED ref) \<Rightarrow> eff_calls (verify_and_close ports aid r claim False ref) w1
      | Inr (Outcome_ALREADY_PRESENT ref) \<Rightarrow> eff_calls (verify_and_close ports aid r claim True ref) w1)"
  by (simp add: run_claimed_def eff_simps split: sum.split prod.split executor_outcome.split)

lemma result_run_claimed:
  "eff_result (run_claimed ports aid r claim) w =
     (let (w1, out) = executeOnce ports (execute_input_of ports r claim) w in
      case out of
        Inl e \<Rightarrow> Inl e
      | Inr (Outcome_FAILED_PERMANENTLY err) \<Rightarrow>
          map_sum id (\<lambda>_. Blocked err ''executor reported permanent failure after claim'')
            (snd (closeExecution ports (close_failed aid (attemptId claim) err) w1))
      | Inr (Outcome_EXECUTED ref) \<Rightarrow> eff_result (verify_and_close ports aid r claim False ref) w1
      | Inr (Outcome_ALREADY_PRESENT ref) \<Rightarrow> eff_result (verify_and_close ports aid r claim True ref) w1)"
  by (simp add: run_claimed_def eff_simps split: sum.split prod.split executor_outcome.split)

lemma calls_execute_claimed:
  "eff_calls (execute_claimed ports aid r claim) w =
     eff_calls (run_claimed ports aid r claim) w @
     (case eff_result (run_claimed ports aid r claim) w of
        Inl e \<Rightarrow> [CloseExecution (close_failed aid (attemptId claim) ''EXECUTOR_EXCEPTION'')] | Inr _ \<Rightarrow> [])"
  by (simp add: execute_claimed_def eff_simps split: sum.split)

lemma result_execute_claimed:
  "eff_result (execute_claimed ports aid r claim) w =
     (case eff_result (run_claimed ports aid r claim) w of Inl e \<Rightarrow> Inl (rethrown e) | Inr x \<Rightarrow> Inr x)"
  by (simp add: execute_claimed_def eff_simps split: sum.split)

text \<open>A closing call of the attempt, and the tail of the claimed phase: never a second effect.\<close>

definition closes_attempt :: "string \<Rightarrow> claim_answer \<Rightarrow> execution_call \<Rightarrow> bool" where
  "closes_attempt aid claim call =
     (case call of
        CloseExecution c \<Rightarrow> co_attemptId c = attemptId claim \<and> co_approvalId c = aid \<and>
                            (co_toStatus c = EXECUTED \<or> co_toStatus c = EXECUTION_FAILED)
      | _ \<Rightarrow> False)"

fun verify_or_close :: "execution_call \<Rightarrow> bool" where
  "verify_or_close (VerifyOutcome _ _) = True"
| "verify_or_close (CloseExecution _) = True"
| "verify_or_close _ = False"

lemma closes_attempt_simps [simp]:
  "closes_attempt aid claim (CloseExecution (close_failed aid (attemptId claim) err))"
  "closes_attempt aid claim (CloseExecution (close_executed aid (attemptId claim) ref))"
  "closes_attempt aid claim (CloseExecution (final_close aid claim already ref v))"
  by (simp_all add: closes_attempt_def close_failed_def close_executed_def final_close_def)

lemma execute_claimed_calls:
  "\<exists>rest. eff_calls (execute_claimed ports aid r claim) w = ExecuteOnce (execute_input_of ports r claim) # rest \<and>
     rest \<noteq> [] \<and> list_all verify_or_close rest \<and> closes_attempt aid claim (last rest)"
  by (simp add: calls_execute_claimed calls_run_claimed result_run_claimed calls_verify_and_close
      result_verify_and_close Let_def map_sum_def
      split: prod.split sum.split executor_outcome.split)

lemma execute_claimed_executed:
  assumes "eff_result (execute_claimed ports aid r claim) w = Inr (Executed steps ref v)"
  shows "v \<and> last (eff_calls (execute_claimed ports aid r claim) w)
               = CloseExecution (close_executed aid (attemptId claim) ref) \<and>
    (let (w1, out) = executeOnce ports (execute_input_of ports r claim) w in
       (out = Inr (Outcome_EXECUTED ref) \<and> snd (verify ports ref (digest ports (operationKey r)) w1) = Inr True) \<or>
       out = Inr (Outcome_ALREADY_PRESENT ref))"
proof -
  obtain w1 out where ex: "executeOnce ports (execute_input_of ports r claim) w = (w1, out)" by fastforce
  from assms have run: "eff_result (run_claimed ports aid r claim) w = Inr (Executed steps ref v)"
    by (simp add: result_execute_claimed split: sum.splits)
  show ?thesis
  proof (cases out)
    case (Inl e)
    with run ex show ?thesis by (simp add: result_run_claimed)
  next
    case (Inr o')
    with run ex show ?thesis
      by (cases o') (auto simp: calls_execute_claimed calls_run_claimed result_run_claimed
           calls_verify_and_close result_verify_and_close final_close_def map_sum_def
           split: sum.splits prod.splits if_splits)
  qed
qed

section \<open>Properties\<close>

text \<open>The conditions under which the service reaches the executor, with the answers observed.\<close>

definition gates_passed ::
  "'w execution_ports \<Rightarrow> string \<Rightarrow> 'w \<Rightarrow> privileged_approval \<Rightarrow> claim_answer \<Rightarrow> 'w \<Rightarrow> bool" where
  "gates_passed ports aid w r claim w5 \<longleftrightarrow>
     (\<exists>w1 w2 target w3 policyNow w4.
        loadPrivilegedApproval ports aid w = (w1, Inr r) \<and> prereq_refusal r = None \<and>
        fetchCurrentTarget ports w1 = (w2, Inr target) \<and>
        t_actionFingerprint target = pa_actionFingerprint r \<and>
        t_contextFingerprint target = pa_contextFingerprint r \<and>
        reevaluatePolicy ports w2 = (w3, Inr policyNow) \<and>
        \<not> stricterDeny policyNow \<and> stillRequiresApprovalAndGranted policyNow \<and>
        validityGate ports aid (x_nowMs ports) w3 = (w4, Inr Gate_valid) \<and>
        x_nowMs ports < pa_expiresAtMs r \<and>
        claimExecutionLease ports (claim_input_of ports aid r) w4 = (w5, Inr claim) \<and> claimed claim)"

lemma executeApproved_cases:
  "(\<exists>r claim w5. gates_passed ports aid w r claim w5 \<and>
      eff_calls (executeApproved ports aid) w =
        [LoadPrivileged aid, FetchTarget, ReevaluatePolicy, ValidityGate aid (x_nowMs ports),
         ClaimLease (claim_input_of ports aid r)] @ eff_calls (execute_claimed ports aid r claim) w5 \<and>
      eff_result (executeApproved ports aid) w = eff_result (execute_claimed ports aid r claim) w5) \<or>
   ((\<forall>x. ExecuteOnce x \<notin> set (eff_calls (executeApproved ports aid) w)) \<and>
    (\<forall>s ref v. eff_result (executeApproved ports aid) w \<noteq> Inr (Executed s ref v)) \<and>
    (\<forall>c. CloseExecution c \<in> set (eff_calls (executeApproved ports aid) w) \<longrightarrow>
       co_toStatus c = STALE \<and> (\<forall>x. ClaimLease x \<notin> set (eff_calls (executeApproved ports aid) w))) \<and>
    (\<nexists>r claim w5. gates_passed ports aid w r claim w5))"
proof -
  obtain w1 r1 where 1: "loadPrivilegedApproval ports aid w = (w1, r1)" by fastforce
  obtain w2 r2 where 2: "fetchCurrentTarget ports w1 = (w2, r2)" by fastforce
  obtain w3 r3 where 3: "reevaluatePolicy ports w2 = (w3, r3)" by fastforce
  obtain w4 r4 where 4: "validityGate ports aid (x_nowMs ports) w3 = (w4, r4)" by fastforce
  note eqs = 1 2 3 4 executeApproved_def eff_simps eff_if gates_passed_def markStaled_def close_call_def
  consider (load) e where "r1 = Inl e" | (target) r e where "r1 = Inr r" "r2 = Inl e" | (policy) r t e where "r1 = Inr r" "r2 = Inr t" "r3 = Inl e"
    | (gate) r t p e where "r1 = Inr r" "r2 = Inr t" "r3 = Inr p" "r4 = Inl e"
    | (all) r t p g where "r1 = Inr r" "r2 = Inr t" "r3 = Inr p" "r4 = Inr g"
    by (cases r1; cases r2; cases r3; cases r4) auto
  then show ?thesis
  proof cases
    case load then show ?thesis by (simp add: eqs)
  next
    case target then show ?thesis by (simp add: eqs split: option.splits)
  next
    case policy then show ?thesis by (simp add: eqs split: option.splits)
  next
    case gate then show ?thesis by (simp add: eqs split: option.splits)
  next
    case all
    obtain w5 r5 where 5: "claimExecutionLease ports (claim_input_of ports aid r) w4 = (w5, r5)" by fastforce
    from all show ?thesis
      by (cases r5) (simp_all add: eqs 5 split: option.splits gate_answer.splits, blast)
  qed
qed

text \<open>
  Property C2.  The privileged effect is requested at most once per execution, and only when all
  the gates passed on the answers observed in this very run: the approval is APPROVED with a
  persisted REQUIRE_APPROVAL decision and a recorded human resolution, the refetched target has
  both approved fingerprints, the current policy neither denies nor loosened, the validity gate
  accepted, the clock is before expiry and the lease was claimed.  The calls before it are exactly
  the five gate calls in order, the effect is the approved operation under the claimed lease, and after
  it only verification and closing happen.
\<close>

theorem effect_at_most_once_after_all_gates:
  assumes "ExecuteOnce x \<in> set (eff_calls (executeApproved ports aid) w)"
  shows "\<exists>r claim w5 rest. gates_passed ports aid w r claim w5 \<and> pa_status r = APPROVED \<and>
    policyDecisionEffect r = ''REQUIRE_APPROVAL'' \<and> pa_resolvedBy r \<noteq> [] \<and> resolvedAtMs r \<noteq> None \<and>
    x = execute_input_of ports r claim \<and>
    eff_calls (executeApproved ports aid) w =
      [LoadPrivileged aid, FetchTarget, ReevaluatePolicy, ValidityGate aid (x_nowMs ports),
       ClaimLease (claim_input_of ports aid r), ExecuteOnce x] @ rest \<and>
    list_all verify_or_close rest"
proof -
  from assms executeApproved_cases [of ports aid w] obtain r claim w5 where g: "gates_passed ports aid w r claim w5"
    and calls: "eff_calls (executeApproved ports aid) w =
        [LoadPrivileged aid, FetchTarget, ReevaluatePolicy, ValidityGate aid (x_nowMs ports),
         ClaimLease (claim_input_of ports aid r)] @ eff_calls (execute_claimed ports aid r claim) w5" by blast
  from execute_claimed_calls [of ports aid r claim w5] obtain rest where
    ec: "eff_calls (execute_claimed ports aid r claim) w5 = ExecuteOnce (execute_input_of ports r claim) # rest"
    and vc: "list_all verify_or_close rest" by blast
  from vc have "ExecuteOnce y \<notin> set rest" for y by (auto simp: list_all_iff)
  with assms calls ec have "x = execute_input_of ports r claim" by auto
  moreover from g have "prereq_refusal r = None" by (auto simp: gates_passed_def)
  then have "pa_status r = APPROVED \<and> policyDecisionEffect r = ''REQUIRE_APPROVAL'' \<and>
      pa_resolvedBy r \<noteq> [] \<and> resolvedAtMs r \<noteq> None"
    by (simp add: prereq_refusal_def split: if_splits)
  ultimately show ?thesis using g calls ec vc by auto
qed

text \<open>
  Property C31.  Every execution that claimed the lease, and no other, ends with a call that closes
  the claimed attempt as EXECUTED or EXECUTION_FAILED, whatever the ports answer or throw (even
  when an earlier closing call failed); an execution that never passed the gates can only have
  invalidated the approval as STALE, before any claim.
\<close>

theorem claimed_attempt_is_always_closed:
  "(\<exists>r claim w5. gates_passed ports aid w r claim w5) =
     (\<exists>x. ExecuteOnce x \<in> set (eff_calls (executeApproved ports aid) w)) \<and>
   (gates_passed ports aid w r claim w5 \<longrightarrow>
      closes_attempt aid claim (last (eff_calls (executeApproved ports aid) w))) \<and>
   ((\<nexists>r claim w5. gates_passed ports aid w r claim w5) \<longrightarrow>
      (\<forall>c. CloseExecution c \<in> set (eff_calls (executeApproved ports aid) w) \<longrightarrow> co_toStatus c = STALE))"
proof (cases "\<exists>r claim w5. gates_passed ports aid w r claim w5")
  case True
  have uniq: "r = r' \<and> claim = claim' \<and> w5 = w5'"
    if "gates_passed ports aid w r claim w5" "gates_passed ports aid w r' claim' w5'" for r claim w5 r' claim' w5'
    using that by (auto simp: gates_passed_def)
  from True executeApproved_cases [of ports aid w] obtain r' claim' w5' where g: "gates_passed ports aid w r' claim' w5'"
    and calls: "eff_calls (executeApproved ports aid) w =
        [LoadPrivileged aid, FetchTarget, ReevaluatePolicy, ValidityGate aid (x_nowMs ports),
         ClaimLease (claim_input_of ports aid r')] @ eff_calls (execute_claimed ports aid r' claim') w5'" by blast
  from execute_claimed_calls [of ports aid r' claim' w5'] obtain rest where
    "eff_calls (execute_claimed ports aid r' claim') w5' = ExecuteOnce (execute_input_of ports r' claim') # rest"
    "rest \<noteq> []" "closes_attempt aid claim' (last rest)" by blast
  with calls have ex: "ExecuteOnce (execute_input_of ports r' claim') \<in> set (eff_calls (executeApproved ports aid) w)"
    and cl: "closes_attempt aid claim' (last (eff_calls (executeApproved ports aid) w))" by auto
  have "gates_passed ports aid w r claim w5 \<longrightarrow>
      closes_attempt aid claim (last (eff_calls (executeApproved ports aid) w))"
    using cl uniq [OF g] by blast
  with True ex show ?thesis by blast
next
  case False
  with executeApproved_cases [of ports aid w] show ?thesis by blast
qed

text \<open>
  An EXECUTED answer is given only after the executor reported the effect and the
  verifier confirmed it, or the executor reported it already present; its last call records
  EXECUTED with the same provider reference.  The answer's verified flag is always true.
\<close>

theorem executed_answer_is_backed:
  assumes "eff_result (executeApproved ports aid) w = Inr (Executed steps ref v)"
  shows "\<exists>r claim w5 w6 out. gates_passed ports aid w r claim w5 \<and>
    executeOnce ports (execute_input_of ports r claim) w5 = (w6, Inr out) \<and>
    (out = Outcome_EXECUTED ref \<and> snd (verify ports ref (digest ports (operationKey r)) w6) = Inr True \<or>
     out = Outcome_ALREADY_PRESENT ref) \<and>
    last (eff_calls (executeApproved ports aid) w) = CloseExecution (close_executed aid (attemptId claim) ref) \<and> v"
proof -
  from assms executeApproved_cases [of ports aid w] obtain r claim w5 where g: "gates_passed ports aid w r claim w5"
    and calls: "eff_calls (executeApproved ports aid) w =
        [LoadPrivileged aid, FetchTarget, ReevaluatePolicy, ValidityGate aid (x_nowMs ports),
         ClaimLease (claim_input_of ports aid r)] @ eff_calls (execute_claimed ports aid r claim) w5"
    and res: "eff_result (execute_claimed ports aid r claim) w5 = Inr (Executed steps ref v)" by fastforce
  from execute_claimed_calls [of ports aid r claim w5]
  have "eff_calls (execute_claimed ports aid r claim) w5 \<noteq> []" by auto
  with g calls execute_claimed_executed [OF res] show ?thesis
    by (intro exI [of _ r] exI [of _ claim] exI [of _ w5]
        exI [of _ "fst (executeOnce ports (execute_input_of ports r claim) w5)"]
        exI [of _ "projr (snd (executeOnce ports (execute_input_of ports r claim) w5))"])
       (auto split: prod.splits)
qed

section \<open>A concrete execution\<close>

definition sample_approved :: privileged_approval where
  "sample_approved =
     \<lparr>pa_id = ''a1'', pa_status = APPROVED, pa_version = 2, pa_actionFingerprint = ''fa'',
      pa_contextFingerprint = ''fc'', operationKey = ''op'', pa_cancellationGeneration = 0,
      pa_expiresAtMs = 100, policyDecisionId = ''d1'', policyDecisionEffect = ''REQUIRE_APPROVAL'',
      pa_resolvedBy = ''u1'', resolvedAtMs = Some 5\<rparr>"

definition sample_claim :: claim_answer where
  "sample_claim = \<lparr>claimed = True, attemptId = ''at1'', versionAfter = 3\<rparr>"

definition sample_execution_ports :: "executor_outcome \<Rightarrow> bool \<Rightarrow> unit execution_ports" where
  "sample_execution_ports out v =
     \<lparr>loadPrivilegedApproval = (\<lambda>_ w. (w, Inr sample_approved)),
      claimExecutionLease = (\<lambda>_ w. (w, Inr sample_claim)),
      closeExecution = (\<lambda>_ w. (w, Inr ())), validityGate = (\<lambda>_ _ w. (w, Inr Gate_valid)),
      fetchCurrentTarget = (\<lambda>w. (w, Inr \<lparr>t_actionFingerprint = ''fa'', t_contextFingerprint = ''fc''\<rparr>)),
      reevaluatePolicy = (\<lambda>w. (w, Inr \<lparr>stillRequiresApprovalAndGranted = True, stricterDeny = False\<rparr>)),
      executeOnce = (\<lambda>_ w. (w, Inr out)), verify = (\<lambda>_ _ w. (w, Inr v)),
      workerId = ''w1'', x_nowMs = 7, digest = id\<rparr>"

lemma sample_gates_passed: "gates_passed (sample_execution_ports out v) ''a1'' () sample_approved sample_claim ()"
  by (simp add: gates_passed_def sample_execution_ports_def sample_approved_def sample_claim_def prereq_refusal_def)

lemma sample_execution_calls:
  "ExecuteOnce (execute_input_of (sample_execution_ports out v) sample_approved sample_claim)
     \<in> set (eff_calls (executeApproved (sample_execution_ports out v) ''a1'') ())"
  using execute_claimed_calls [of "sample_execution_ports out v" "''a1''" sample_approved sample_claim "()"]
  by (auto simp: executeApproved_def eff_simps sample_execution_ports_def sample_approved_def sample_claim_def
      prereq_refusal_def)

text \<open>
  An effect reported as already present is recorded as EXECUTED and answered as verified whatever
  the verifier said.
\<close>

lemma sample_execution_result:
  "eff_result (executeApproved (sample_execution_ports (Outcome_ALREADY_PRESENT ref) v) ''a1'') () =
     Inr (Executed (proven @ [STEP_7_EXECUTED_ONCE, STEP_8_OUTCOME_VERIFIED]) ref True)"
  by (simp add: executeApproved_def eff_simps result_execute_claimed result_run_claimed result_verify_and_close
      sample_execution_ports_def sample_approved_def sample_claim_def prereq_refusal_def)

theorem effect_at_most_once_after_all_gates_witness:
  "\<exists>x rest. eff_calls (executeApproved (sample_execution_ports (Outcome_EXECUTED ''pr'') True) ''a1'') () =
     [LoadPrivileged ''a1'', FetchTarget, ReevaluatePolicy, ValidityGate ''a1'' 7,
      ClaimLease (claim_input_of (sample_execution_ports (Outcome_EXECUTED ''pr'') True) ''a1'' sample_approved),
      ExecuteOnce x] @ rest \<and> list_all verify_or_close rest"
proof -
  let ?p = "sample_execution_ports (Outcome_EXECUTED ''pr'') True"
  from effect_at_most_once_after_all_gates [OF sample_execution_calls [of "Outcome_EXECUTED ''pr''" True]]
  obtain r claim w5 rest x where g: "gates_passed ?p ''a1'' () r claim w5"
    and calls: "eff_calls (executeApproved ?p ''a1'') () =
      [LoadPrivileged ''a1'', FetchTarget, ReevaluatePolicy, ValidityGate ''a1'' (x_nowMs ?p),
       ClaimLease (claim_input_of ?p ''a1'' r), ExecuteOnce x] @ rest" "list_all verify_or_close rest" by blast
  from g have "r = sample_approved" by (auto simp: gates_passed_def sample_execution_ports_def)
  with calls show ?thesis by (auto simp: sample_execution_ports_def)
qed

theorem claimed_attempt_is_always_closed_witness:
  "closes_attempt ''a1'' sample_claim
     (last (eff_calls (executeApproved (sample_execution_ports (Outcome_FAILED_PERMANENTLY ''E'') False) ''a1'') ()))"
  using claimed_attempt_is_always_closed
    [of "sample_execution_ports (Outcome_FAILED_PERMANENTLY ''E'') False" "''a1''" "()" sample_approved sample_claim "()"]
    sample_gates_passed by blast

theorem executed_answer_is_backed_witness:
  "last (eff_calls (executeApproved (sample_execution_ports (Outcome_ALREADY_PRESENT ''pr'') False) ''a1'') ())
     = CloseExecution (close_executed ''a1'' ''at1'' ''pr'')"
proof -
  let ?p = "sample_execution_ports (Outcome_ALREADY_PRESENT ''pr'') False"
  from executed_answer_is_backed [OF sample_execution_result [of "''pr''" False]]
  obtain r claim w5 where g: "gates_passed ?p ''a1'' () r claim w5"
    and l: "last (eff_calls (executeApproved ?p ''a1'') ()) = CloseExecution (close_executed ''a1'' (attemptId claim) ''pr'')"
    by blast
  from g have "claim = sample_claim" by (auto simp: gates_passed_def sample_execution_ports_def)
  with l show ?thesis by (simp add: sample_claim_def)
qed

end
