(* ===== verification/Approval_Resume.thy ===== *)
theory Approval_Resume
  imports Approval_FSM Port_Effects
begin

text \<open>
  The checkpoint synchronization of \<open>packages/approvals/src/application/resume-sync.ts\<close>: the
  status to intent mapping and \<open>ApprovalResumeCoordinator.onApprovalStateChanged\<close>.
\<close>

datatype resume_intent_kind =
    CONTINUE_APPROVED | CLOSE_REJECTED | CLOSE_STALE | CLOSE_EXPIRED | CLOSE_CANCELLED
  | REPORT_EXECUTION_RESULT

datatype resume_intent_state =
    Intent_PENDING | Intent_CLAIMED | Intent_EXECUTING_ACTION | Intent_RUNTIME_RESUMING
  | Intent_RECONCILING | Intent_COMPLETED | Intent_FAILED | Intent_HUMAN_INTERVENTION

record runtime_link =
  linkId :: string
  l_approvalId :: string
  checkpointTokenDigest :: string
  sessionId :: string
  turnId :: string
  observedSequence :: int
  syncState :: resume_intent_state

fun intentForStatus :: "approval_status \<Rightarrow> resume_intent_kind option" where
  "intentForStatus APPROVED = Some CONTINUE_APPROVED"
| "intentForStatus REJECTED = Some CLOSE_REJECTED"
| "intentForStatus STALE = Some CLOSE_STALE"
| "intentForStatus EXPIRED = Some CLOSE_EXPIRED"
| "intentForStatus CANCELLED = Some CLOSE_CANCELLED"
| "intentForStatus EXECUTED = Some REPORT_EXECUTION_RESULT"
| "intentForStatus EXECUTION_FAILED = Some REPORT_EXECUTION_RESULT"
| "intentForStatus _ = None"

record intent_input =
  in_approvalId :: string
  in_kind :: resume_intent_kind
  in_generation :: int
  in_operationKey :: string

record intent_ref =
  intentId :: string
  alreadyExisted :: bool

record resume_input =
  ri_sessionId :: string
  ri_turnId :: string
  ri_checkpointTokenDigest :: string
  ri_executionEvidenceDigest :: "string option"

record 'w resume_ports =
  loadLink :: "string \<Rightarrow> ('w, runtime_link option) port"
  createOrGetIntent :: "intent_input \<Rightarrow> ('w, intent_ref) port"
  transitionIntent :: "string \<Rightarrow> resume_intent_state \<Rightarrow> resume_intent_state \<Rightarrow> ('w, bool) port"
  resumeCheckpoint :: "resume_input \<Rightarrow> ('w, bool) port"
  deliverClosure :: "string \<Rightarrow> string \<Rightarrow> resume_intent_kind \<Rightarrow> ('w, unit) port"

datatype resume_call =
    LoadLink string
  | CreateOrGetIntent intent_input
  | TransitionIntent string resume_intent_state resume_intent_state
  | ResumeCheckpoint resume_input
  | DeliverClosure string string resume_intent_kind

record state_change =
  sc_approvalId :: string
  sc_status :: approval_status
  sc_version :: int
  sc_operationKey :: string
  sc_cancellationGeneration :: int
  sc_executionEvidenceDigest :: "string option"

text \<open>The truthiness of an optional string: absent and empty are both false.\<close>

definition evidence_present :: "string option \<Rightarrow> bool" where
  "evidence_present d \<longleftrightarrow> (case d of Some s \<Rightarrow> s \<noteq> [] | None \<Rightarrow> False)"

definition move :: "'w resume_ports \<Rightarrow> string \<Rightarrow> resume_intent_state \<Rightarrow> resume_intent_state \<Rightarrow>
    ('w, resume_call, bool) eff" where
  "move ports i f t = callE (TransitionIntent i f t) (transitionIntent ports i f t)"

definition intent_input_of :: "state_change \<Rightarrow> runtime_link \<Rightarrow> resume_intent_kind \<Rightarrow> intent_input" where
  "intent_input_of input link kind =
     \<lparr>in_approvalId = sc_approvalId input, in_kind = kind,
      in_generation = max (sc_cancellationGeneration input) (observedSequence link),
      in_operationKey = sc_operationKey input\<rparr>"

definition resume_input_of :: "state_change \<Rightarrow> runtime_link \<Rightarrow> resume_input" where
  "resume_input_of input link =
     \<lparr>ri_sessionId = sessionId link, ri_turnId = turnId link,
      ri_checkpointTokenDigest = checkpointTokenDigest link,
      ri_executionEvidenceDigest =
        (if evidence_present (sc_executionEvidenceDigest input) then sc_executionEvidenceDigest input else None)\<rparr>"

definition continue_approved ::
  "'w resume_ports \<Rightarrow> state_change \<Rightarrow> runtime_link \<Rightarrow> string \<Rightarrow>
     ('w, resume_call, string \<times> resume_intent_kind \<times> resume_intent_state) eff" where
  "continue_approved ports input link i =
     (if \<not> evidence_present (sc_executionEvidenceDigest input) then
        bindE (move ports i Intent_CLAIMED Intent_HUMAN_INTERVENTION)
          (\<lambda>_. throwE (ErrorObject ''cannot CONTINUE_APPROVED without durable execution evidence''))
      else
        bindE (move ports i Intent_CLAIMED Intent_EXECUTING_ACTION) (\<lambda>_.
        bindE (move ports i Intent_EXECUTING_ACTION Intent_RUNTIME_RESUMING) (\<lambda>_.
        bindE (callE (ResumeCheckpoint (resume_input_of input link))
                     (resumeCheckpoint ports (resume_input_of input link))) (\<lambda>resumed.
        if \<not> resumed then
          bindE (move ports i Intent_RUNTIME_RESUMING Intent_RECONCILING)
            (\<lambda>_. retE (i, CONTINUE_APPROVED, Intent_RECONCILING))
        else
          bindE (move ports i Intent_RUNTIME_RESUMING Intent_COMPLETED)
            (\<lambda>_. retE (i, CONTINUE_APPROVED, Intent_COMPLETED))))))"

definition close_runtime ::
  "'w resume_ports \<Rightarrow> runtime_link \<Rightarrow> string \<Rightarrow> resume_intent_kind \<Rightarrow>
     ('w, resume_call, string \<times> resume_intent_kind \<times> resume_intent_state) eff" where
  "close_runtime ports link i kind =
     bindE (callE (DeliverClosure (sessionId link) (turnId link) kind)
                  (deliverClosure ports (sessionId link) (turnId link) kind)) (\<lambda>_.
     bindE (move ports i Intent_CLAIMED Intent_COMPLETED) (\<lambda>_. retE (i, kind, Intent_COMPLETED)))"

definition onApprovalStateChanged ::
  "'w resume_ports \<Rightarrow> state_change \<Rightarrow> ('w, resume_call, string \<times> resume_intent_kind \<times> resume_intent_state) eff" where
  "onApprovalStateChanged ports input =
     bindE (callE (LoadLink (sc_approvalId input)) (loadLink ports (sc_approvalId input))) (\<lambda>lnk.
     case lnk of
       None \<Rightarrow> throwE (ErrorObject (''no runtime link for approval '' @ quoted (sc_approvalId input)))
     | Some link \<Rightarrow>
     (case intentForStatus (sc_status input) of
       None \<Rightarrow> throwE (ErrorObject (''status '' @ quoted (status_str (sc_status input)) @ '' does not map to a resume intent''))
     | Some kind \<Rightarrow>
     bindE (callE (CreateOrGetIntent (intent_input_of input link kind))
                  (createOrGetIntent ports (intent_input_of input link kind))) (\<lambda>intent.
     bindE (move ports (intentId intent) Intent_PENDING Intent_CLAIMED) (\<lambda>_.
     if kind = CONTINUE_APPROVED then continue_approved ports input link (intentId intent)
     else close_runtime ports link (intentId intent) kind))))"

section \<open>Properties\<close>

lemma move_simps [simp]:
  "eff_calls (move ports i f t) w = [TransitionIntent i f t]"
  "eff_result (move ports i f t) w = snd (transitionIntent ports i f t w)"
  "eff_world (move ports i f t) w = fst (transitionIntent ports i f t w)"
  by (simp_all add: move_def)

lemma calls_close_runtime:
  "eff_calls (close_runtime ports link i kind) w =
     DeliverClosure (sessionId link) (turnId link) kind #
     (case snd (deliverClosure ports (sessionId link) (turnId link) kind w) of
        Inl e \<Rightarrow> [] | Inr _ \<Rightarrow> [TransitionIntent i Intent_CLAIMED Intent_COMPLETED])"
  by (simp add: close_runtime_def eff_simps split: sum.split)

lemma intent_kind_continue: "intentForStatus s = Some CONTINUE_APPROVED \<longleftrightarrow> s = APPROVED"
  by (cases s) simp_all

lemma intent_none: "intentForStatus s = None \<longleftrightarrow> s = PENDING \<or> s = EXECUTING"
  by (cases s) simp_all

lemma continue_no_closure: "DeliverClosure a b k \<notin> set (eff_calls (continue_approved ports input link i) w)"
  by (auto simp: continue_approved_def eff_simps eff_if split: sum.splits if_splits)

lemma continue_resumes:
  assumes "ResumeCheckpoint x \<in> set (eff_calls (continue_approved ports input link i) w)"
  shows "evidence_present (sc_executionEvidenceDigest input) \<and> x = resume_input_of input link"
  using assms by (auto simp: continue_approved_def eff_simps eff_if split: sum.splits if_splits)

lemma onApprovalStateChanged_calls:
  "eff_calls (onApprovalStateChanged ports input) w =
     LoadLink (sc_approvalId input) #
     (case loadLink ports (sc_approvalId input) w of
        (w1, Inr (Some link)) \<Rightarrow>
          (case intentForStatus (sc_status input) of
             None \<Rightarrow> []
           | Some kind \<Rightarrow>
               CreateOrGetIntent (intent_input_of input link kind) #
               (case createOrGetIntent ports (intent_input_of input link kind) w1 of
                  (w2, Inl e) \<Rightarrow> []
                | (w2, Inr intent) \<Rightarrow>
                    TransitionIntent (intentId intent) Intent_PENDING Intent_CLAIMED #
                    (case transitionIntent ports (intentId intent) Intent_PENDING Intent_CLAIMED w2 of
                       (w3, Inl e) \<Rightarrow> []
                     | (w3, Inr b) \<Rightarrow>
                         if kind = CONTINUE_APPROVED
                         then eff_calls (continue_approved ports input link (intentId intent)) w3
                         else eff_calls (close_runtime ports link (intentId intent) kind) w3)))
      | _ \<Rightarrow> [])"
  by (simp add: onApprovalStateChanged_def eff_simps eff_if split: sum.split prod.split option.split)

text \<open>
  The paused runtime is resumed only for an APPROVED approval and only with
  non-empty execution evidence, which is passed on unchanged; closures are delivered only for
  the terminal statuses, with the intent kind of that status; PENDING and EXECUTING produce
  neither.
\<close>

theorem resume_requires_evidence:
  "(ResumeCheckpoint x \<in> set (eff_calls (onApprovalStateChanged ports input) w) \<longrightarrow>
      sc_status input = APPROVED \<and> evidence_present (sc_executionEvidenceDigest input) \<and>
      ri_executionEvidenceDigest x = sc_executionEvidenceDigest input) \<and>
   (DeliverClosure s t k \<in> set (eff_calls (onApprovalStateChanged ports input) w) \<longrightarrow>
      isTerminal (sc_status input) \<and> intentForStatus (sc_status input) = Some k \<and> k \<noteq> CONTINUE_APPROVED)"
proof (intro conjI impI)
  assume "ResumeCheckpoint x \<in> set (eff_calls (onApprovalStateChanged ports input) w)"
  then obtain link i w3 where "intentForStatus (sc_status input) = Some CONTINUE_APPROVED"
    and "ResumeCheckpoint x \<in> set (eff_calls (continue_approved ports input link i) w3)"
    by (auto simp: onApprovalStateChanged_calls calls_close_runtime
          split: prod.splits sum.splits option.splits if_splits)
  with continue_resumes [of x ports input link i w3]
  show "sc_status input = APPROVED" "evidence_present (sc_executionEvidenceDigest input)"
    "ri_executionEvidenceDigest x = sc_executionEvidenceDigest input"
    by (simp_all add: intent_kind_continue resume_input_of_def)
next
  assume d: "DeliverClosure s t k \<in> set (eff_calls (onApprovalStateChanged ports input) w)"
  then have "intentForStatus (sc_status input) = Some k \<and> k \<noteq> CONTINUE_APPROVED"
    by (auto simp: onApprovalStateChanged_calls calls_close_runtime continue_no_closure
          split: prod.splits sum.splits option.splits if_splits)
  moreover from this have "isTerminal (sc_status input)"
    by (cases "sc_status input") (auto simp: isTerminal_iff)
  ultimately show "isTerminal (sc_status input)" "intentForStatus (sc_status input) = Some k"
    "k \<noteq> CONTINUE_APPROVED" by simp_all
qed

text \<open>
  The effects of the coordinator do not depend on the answers of its
  deduplication ports: as long as the intent is found and the transition calls do not throw,
  the checkpoint is resumed (or the closure delivered) whether or not the intent already existed
  and whether or not the PENDING to CLAIMED transition was applied, so a duplicated message repeats
  the runtime call.
\<close>

theorem duplicate_message_repeats_effect:
  assumes link: "\<And>w. loadLink ports (sc_approvalId input) w = (w, Inr (Some link))"
    and intent: "\<And>w. createOrGetIntent ports (intent_input_of input link kind) w = (w, Inr intent)"
    and moves: "\<And>i f t w. transitionIntent ports i f t w = (w, Inr applied)"
    and kind: "intentForStatus (sc_status input) = Some kind"
    and ev: "evidence_present (sc_executionEvidenceDigest input)"
  shows "(if kind = CONTINUE_APPROVED then ResumeCheckpoint (resume_input_of input link)
          else DeliverClosure (sessionId link) (turnId link) kind)
         \<in> set (eff_calls (onApprovalStateChanged ports input) w)"
  using kind ev
  by (simp add: onApprovalStateChanged_calls link intent moves calls_close_runtime continue_approved_def eff_simps)

definition sample_link :: runtime_link where
  "sample_link =
     \<lparr>linkId = ''l'', l_approvalId = ''a1'', checkpointTokenDigest = ''ck'', sessionId = ''s'', turnId = ''t'',
      observedSequence = 1, syncState = Intent_COMPLETED\<rparr>"

definition sample_resume_ports :: "unit resume_ports" where
  "sample_resume_ports =
     \<lparr>loadLink = (\<lambda>_ w. (w, Inr (Some sample_link))),
      createOrGetIntent = (\<lambda>_ w. (w, Inr \<lparr>intentId = ''i'', alreadyExisted = True\<rparr>)),
      transitionIntent = (\<lambda>_ _ _ w. (w, Inr False)), resumeCheckpoint = (\<lambda>_ w. (w, Inr True)),
      deliverClosure = (\<lambda>_ _ _ w. (w, Inr ()))\<rparr>"

definition sample_change :: state_change where
  "sample_change =
     \<lparr>sc_approvalId = ''a1'', sc_status = APPROVED, sc_version = 1, sc_operationKey = ''op'',
      sc_cancellationGeneration = 0, sc_executionEvidenceDigest = Some ''e''\<rparr>"

theorem duplicate_message_repeats_effect_witness:
  "ResumeCheckpoint (resume_input_of sample_change sample_link)
     \<in> set (eff_calls (onApprovalStateChanged sample_resume_ports sample_change) ())"
  using duplicate_message_repeats_effect
    [of sample_resume_ports sample_change sample_link CONTINUE_APPROVED
        "\<lparr>intentId = ''i'', alreadyExisted = True\<rparr>" False "()"]
  by (simp add: sample_resume_ports_def sample_change_def evidence_present_def)

lemma sample_resumes:
  "ResumeCheckpoint (resume_input_of sample_change sample_link)
     \<in> set (eff_calls (onApprovalStateChanged sample_resume_ports sample_change) ())"
  by (simp add: onApprovalStateChanged_calls sample_resume_ports_def sample_change_def continue_approved_def
      eff_simps evidence_present_def)

theorem resume_requires_evidence_witness:
  "sc_status sample_change = APPROVED \<and> evidence_present (sc_executionEvidenceDigest sample_change)"
  using resume_requires_evidence
    [of "resume_input_of sample_change sample_link" sample_resume_ports sample_change "()"] sample_resumes
  by blast

end
