(* ===== verification/Versioned_Store.thy ===== *)
theory Versioned_Store
  imports DG_Prelude
begin

text \<open>
  Optimistic concurrency: the interface of a table whose rows carry a version and are updated
  by a statement with \<open>WHERE ... version = expected\<close>, and what every client may rely on, proved
  once.  A history is the sequence of update requests in the order the database serialized them.
\<close>

type_synonym ('k, 'u) request = "'k \<times> int \<times> 'u"

fun cas_run :: "('s \<Rightarrow> 'k \<Rightarrow> int \<Rightarrow> 'u \<Rightarrow> 's \<times> bool) \<Rightarrow> 's \<Rightarrow> ('k, 'u) request list \<Rightarrow> 's \<times> bool list" where
  "cas_run cas s [] = (s, [])"
| "cas_run cas s ((k, n, u) # rs) =
     (let (s', b) = cas s k n u; (s'', bs) = cas_run cas s' rs in (s'', b # bs))"

lemma snd_cas_run_Cons:
  "snd (cas_run cas s ((k, n, u) # rs)) = snd (cas s k n u) # snd (cas_run cas (fst (cas s k n u)) rs)"
  by (simp add: Let_def split: prod.splits)

lemma fst_cas_run_Cons:
  "fst (cas_run cas s ((k, n, u) # rs)) = fst (cas_run cas (fst (cas s k n u)) rs)"
  by (simp add: Let_def split: prod.splits)

lemma snd_cas_run_snoc:
  "snd (cas_run cas s (rs @ [(k, n, u)])) = snd (cas_run cas s rs) @ [snd (cas (fst (cas_run cas s rs)) k n u)]"
proof (induction rs arbitrary: s)
  case (Cons r rs)
  then show ?case by (cases r) (simp add: snd_cas_run_Cons fst_cas_run_Cons del: cas_run.simps)
qed (simp add: Let_def split: prod.splits)

lemma length_cas_run [simp]: "length (snd (cas_run cas s rs)) = length rs"
proof (induction rs arbitrary: s)
  case (Cons r rs)
  then show ?case by (cases r) (simp add: snd_cas_run_Cons del: cas_run.simps)
qed simp

text \<open>Lookup of a row by its key in a table kept as a list of rows.\<close>

lemma find_map_frame:
  assumes "\<And>x. P (f x) = P x" and "\<And>x. P x \<Longrightarrow> f x = x"
  shows "find P (map f xs) = find P xs"
  using assms by (induction xs) auto

lemma find_map_keep:
  assumes "\<And>x. P (f x) = P x"
  shows "find P (map f xs) = map_option f (find P xs)"
  using assms by (induction xs) auto

lemma find_snoc:
  "find P (xs @ ys) = (case find P xs of None \<Rightarrow> find P ys | Some x \<Rightarrow> Some x)"
  by (induction xs) auto

lemma find_sound: "find P xs = Some x \<Longrightarrow> P x \<and> x \<in> set xs"
  by (auto simp: find_Some_iff)

lemma find_unique:
  "distinct (map key xs) \<Longrightarrow> x \<in> set xs \<Longrightarrow> find (\<lambda>y. key y = key x) xs = Some x"
  by (induction xs) auto

locale versioned_store =
  fixes cas :: "'s \<Rightarrow> 'k \<Rightarrow> int \<Rightarrow> 'u \<Rightarrow> 's \<times> bool"
    and ver :: "'s \<Rightarrow> 'k \<Rightarrow> int option"
    and inv :: "'s \<Rightarrow> bool"
  assumes cas_inv: "inv s \<Longrightarrow> inv (fst (cas s k n u))"
    and cas_applied: "inv s \<Longrightarrow> cas s k n u = (s', True) \<Longrightarrow> ver s k = Some v \<Longrightarrow> v = n \<and> ver s' k = Some (n + 1)"
    and cas_refused: "inv s \<Longrightarrow> cas s k n u = (s', False) \<Longrightarrow> s' = s"
    and cas_frame: "inv s \<Longrightarrow> cas s k n u = (s', b) \<Longrightarrow> k' \<noteq> k \<Longrightarrow> ver s' k' = ver s k'"
begin

lemma cas_version:
  assumes "inv s" and "cas s k n u = (s', b)" and "ver s k' = Some v"
  shows "\<exists>v'. inv s' \<and> ver s' k' = Some v' \<and> v \<le> v' \<and> (b \<and> k' = k \<longrightarrow> v = n \<and> v' = n + 1)"
proof (cases "k' = k \<and> b")
  case True
  with assms cas_applied [of s k n u s' v] cas_inv [of s k n u] show ?thesis by auto
next
  case False
  with assms cas_refused [of s k n u s'] cas_frame [of s k n u s' b k'] cas_inv [of s k n u] show ?thesis
    by (cases b) auto
qed

text \<open>A row's version never goes back, and every win on it is at a version not yet passed.\<close>

lemma winners_at_current:
  assumes "inv s" and "ver s k = Some v" and "j < length rs" and "snd (cas_run cas s rs) ! j"
    and "rs ! j = (k, n, u)"
  shows "v \<le> n"
  using assms
proof (induction rs arbitrary: s v j)
  case Nil
  then show ?case by simp
next
  case (Cons r rs)
  obtain k0 n0 u0 where r: "r = (k0, n0, u0)" by (cases r)
  obtain s1 b where c: "cas s k0 n0 u0 = (s1, b)" by fastforce
  from cas_version [OF Cons.prems(1) c Cons.prems(2)] obtain v1 where v1: "inv s1" "ver s1 k = Some v1" "v \<le> v1"
    and won: "b \<and> k = k0 \<longrightarrow> v = n0" by auto
  show ?case
  proof (cases j)
    case 0
    with Cons.prems r c won show ?thesis by (auto simp: Let_def split: prod.splits)
  next
    case (Suc i)
    have "v1 \<le> n"
      using Cons.prems Suc r c by (intro Cons.IH [OF v1(1,2), of i]) (auto simp: Let_def split: prod.splits)
    with v1(3) show ?thesis by simp
  qed
qed

text \<open>
  In any serialization of requests on an existing row, an earlier winner expected a smaller
  version than a later one: no two requests that expect the same version both win.
\<close>

lemma winners_increase:
  assumes "inv s" and "ver s k = Some v" and "i < j" and "j < length rs"
    and "snd (cas_run cas s rs) ! i" and "snd (cas_run cas s rs) ! j"
    and "rs ! i = (k, n, u)" and "rs ! j = (k, m, u')"
  shows "n < m"
  using assms
proof (induction rs arbitrary: s v i j)
  case Nil
  then show ?case by simp
next
  case (Cons r rs)
  obtain k0 n0 u0 where r: "r = (k0, n0, u0)" by (cases r)
  obtain s1 b where c: "cas s k0 n0 u0 = (s1, b)" by fastforce
  from cas_version [OF Cons.prems(1) c Cons.prems(2)] obtain v1 where v1: "inv s1" "ver s1 k = Some v1"
    and won: "b \<and> k = k0 \<longrightarrow> v1 = n0 + 1" by auto
  from Cons.prems(3) obtain j' where j: "j = Suc j'" by (cases j) auto
  have tail: "j' < length rs" "snd (cas_run cas s1 rs) ! j'" "rs ! j' = (k, m, u')"
    using Cons.prems j r c by (auto simp: Let_def split: prod.splits)
  show ?case
  proof (cases i)
    case 0
    with Cons.prems r c have "b" "k0 = k" "n0 = n" by (auto simp: Let_def split: prod.splits)
    with won winners_at_current [OF v1 tail] show ?thesis by simp
  next
    case (Suc i')
    with Cons.prems j r c show ?thesis
      by (intro Cons.IH [OF v1, of i' j']) (auto simp: Let_def split: prod.splits)
  qed
qed

lemma single_winner:
  assumes "inv s" and "ver s k = Some v" and "i < length rs" and "j < length rs"
    and "snd (cas_run cas s rs) ! i" and "snd (cas_run cas s rs) ! j"
    and "rs ! i = (k, n, u)" and "rs ! j = (k, n, u')"
  shows "i = j"
  using winners_increase [of s k v i j rs n u n u'] winners_increase [of s k v j i rs n u' n u] assms
  by (metis less_irrefl nat_neq_iff)

end

end
