(* ===== verification/Approval_Store.thy ===== *)
theory Approval_Store
  imports Approval_FSM Versioned_Store
begin

text \<open>
  The persistence of policy versions and approvals,
  \<open>packages/db/src/repositories/policy-approval.ts\<close>: every SQL statement of the two stores as a
  function on the tables it reads and writes, with the constraints of migration 004 that the
  statements rely on (primary keys, the unique keys and the foreign key of the transition log).
  The database clock \<open>now()\<close> and \<open>gen_random_uuid()\<close> are arguments.  An operation returns the
  tables as they are when it returns or throws; the caller's transaction commits or rolls back.
\<close>

datatype db_status =
    Db_pending | Db_approved | Db_rejected | Db_expired | Db_stale | Db_executing | Db_executed | Db_failed

fun db_status_str :: "db_status \<Rightarrow> string" where
  "db_status_str Db_pending = ''pending''"
| "db_status_str Db_approved = ''approved''"
| "db_status_str Db_rejected = ''rejected''"
| "db_status_str Db_expired = ''expired''"
| "db_status_str Db_stale = ''stale''"
| "db_status_str Db_executing = ''executing''"
| "db_status_str Db_executed = ''executed''"
| "db_status_str Db_failed = ''failed''"

record approval_row =
  row_id :: string
  repository_id :: string
  workflow_run_id :: "string option"
  action_type :: string
  row_status :: db_status
  row_risk_class :: string
  reason_code :: string
  reason_summary :: string
  operation_hash :: string
  fingerprint_hash :: string
  expires_at :: string
  resolved_by :: "string option"
  resolution_comment :: "string option"
  resolved_at :: "int option"
  execution_status :: "db_status option"
  executed_at :: "int option"
  requested_at :: int
  updated_at :: int
  row_version :: int

datatype db_actor = Db_user | Db_system

record transition_row =
  tr_approval_id :: string
  from_status :: db_status
  to_status :: db_status
  tr_actor_type :: db_actor
  tr_actor_id :: string
  tr_reason_code :: string
  command_key :: string

record version_row =
  v_id :: string
  v_repository_id :: string
  v_version :: nat
  policy_json :: string
  canonical_hash :: string
  v_created_by :: string
  v_created_at :: int

record head_row =
  h_repository_id :: string
  active_policy_version_id :: string
  updated_by :: string
  h_updated_at :: int
  h_row_version :: int

record policy_db =
  approvals :: "approval_row list"
  approval_transitions :: "transition_row list"
  policy_versions :: "version_row list"
  policy_heads :: "head_row list"

section \<open>PolicyVersionStore\<close>

record canonical_policy =
  cp_repositoryId :: string
  policyJson :: string
  cp_canonicalHash :: string
  createdBy :: string

text \<open>\<open>COALESCE(MAX(version), 0)\<close> over the versions of one repository.\<close>

definition max_version :: "version_row list \<Rightarrow> string \<Rightarrow> nat" where
  "max_version vs repo = foldr max (map v_version (filter (\<lambda>v. v_repository_id v = repo) vs)) 0"

definition appendVersion ::
  "int \<Rightarrow> string \<Rightarrow> canonical_policy \<Rightarrow> policy_db \<Rightarrow> policy_db \<times> (string + string \<times> nat)" where
  "appendVersion now newid input db =
     (if newid \<in> v_id ` set (policy_versions db) then (db, Inl ''unique_violation'')
      else
        let n = max_version (policy_versions db) (cp_repositoryId input) + 1;
            row = \<lparr>v_id = newid, v_repository_id = cp_repositoryId input, v_version = n,
                   policy_json = policyJson input, canonical_hash = cp_canonicalHash input,
                   v_created_by = createdBy input, v_created_at = now\<rparr>
        in (db\<lparr>policy_versions := policy_versions db @ [row]\<rparr>, Inr (newid, n)))"

text \<open>The upsert of the head: the version guard applies only when the head already exists.\<close>

definition upsert_head ::
  "int \<Rightarrow> policy_db \<Rightarrow> string \<Rightarrow> int \<Rightarrow> string \<times> string \<Rightarrow> policy_db \<times> bool" where
  "upsert_head now db repo expected vu =
     (case find (\<lambda>h. h_repository_id h = repo) (policy_heads db) of
        None \<Rightarrow>
          (db\<lparr>policy_heads := policy_heads db @
                [\<lparr>h_repository_id = repo, active_policy_version_id = fst vu, updated_by = snd vu,
                  h_updated_at = now, h_row_version = 1\<rparr>]\<rparr>, True)
      | Some h \<Rightarrow>
          if h_row_version h = expected then
            (db\<lparr>policy_heads := map (\<lambda>x. if h_repository_id x = repo
                   then x\<lparr>active_policy_version_id := fst vu, updated_by := snd vu,
                          h_updated_at := now, h_row_version := h_row_version x + 1\<rparr>
                   else x) (policy_heads db)\<rparr>, True)
          else (db, False))"

definition activateHead ::
  "int \<Rightarrow> string \<Rightarrow> string \<Rightarrow> int \<Rightarrow> string \<Rightarrow> policy_db \<Rightarrow> policy_db \<times> (string + unit)" where
  "activateHead now repo versionId expected by db =
     (let ownerRepo = map_option v_repository_id (find (\<lambda>v. v_id v = versionId) (policy_versions db)) in
      if ownerRepo \<noteq> Some repo then
        (db, Inl (''CROSS_REPOSITORY_POLICY:'' @ versionId @ '' belongs to '' @
                  (case ownerRepo of Some r \<Rightarrow> r | None \<Rightarrow> ''nothing'') @ '', not '' @ repo))
      else case upsert_head now db repo expected (versionId, by) of
        (db', True) \<Rightarrow> (db', Inr ())
      | (db', False) \<Rightarrow> (db', Inl (''HEAD_VERSION_CONFLICT:expected='' @ js_int_str expected)))"

text \<open>The join of head and version; the etag is the head's row version.\<close>

definition getActive :: "string \<Rightarrow> policy_db \<Rightarrow> (version_row \<times> int) option" where
  "getActive repo db =
     (case find (\<lambda>h. h_repository_id h = repo) (policy_heads db) of
        None \<Rightarrow> None
      | Some h \<Rightarrow>
          (case find (\<lambda>v. v_id v = active_policy_version_id h) (policy_versions db) of
             None \<Rightarrow> None
           | Some v \<Rightarrow> Some (v, h_row_version h)))"

definition listVersions :: "string \<Rightarrow> policy_db \<Rightarrow> version_row list" where
  "listVersions repo db =
     take 50 (rev (sort_key v_version (filter (\<lambda>v. v_repository_id v = repo) (policy_versions db))))"

section \<open>ApprovalStore\<close>

record approval_insert =
  i_id :: string
  i_repositoryId :: string
  i_workflowRunId :: "string option"
  i_actionType :: string
  i_riskClass :: string
  i_reasonCode :: string
  i_reasonSummary :: "string option"
  i_operationHash :: string
  i_fingerprintHash :: string
  i_expiresAt :: string

definition insert_row :: "int \<Rightarrow> approval_insert \<Rightarrow> approval_row" where
  "insert_row now input =
     \<lparr>row_id = i_id input, repository_id = i_repositoryId input, workflow_run_id = i_workflowRunId input,
      action_type = i_actionType input, row_status = Db_pending, row_risk_class = i_riskClass input,
      reason_code = i_reasonCode input,
      reason_summary = (case i_reasonSummary input of Some s \<Rightarrow> s | None \<Rightarrow> []),
      operation_hash = i_operationHash input, fingerprint_hash = i_fingerprintHash input,
      expires_at = i_expiresAt input, resolved_by = None, resolution_comment = None, resolved_at = None,
      execution_status = None, executed_at = None, requested_at = now, updated_at = now, row_version = 1\<rparr>"

definition insert_approval ::
  "int \<Rightarrow> approval_insert \<Rightarrow> policy_db \<Rightarrow> policy_db \<times> (string + approval_row)" where
  "insert_approval now input db =
     (if i_id input \<in> row_id ` set (approvals db) then (db, Inl ''unique_violation'')
      else (db\<lparr>approvals := approvals db @ [insert_row now input]\<rparr>, Inr (insert_row now input)))"

definition getById :: "string \<Rightarrow> policy_db \<Rightarrow> approval_row option" where
  "getById i db = find (\<lambda>r. row_id r = i) (approvals db)"

record status_transition =
  st_from :: db_status
  st_to :: db_status
  st_actorType :: db_actor
  st_actorId :: string
  st_reasonCode :: string
  st_commandKey :: string
  st_resolutionComment :: "string option"

fun legalMap :: "db_status \<Rightarrow> db_status list option" where
  "legalMap Db_pending = Some [Db_approved, Db_rejected, Db_expired, Db_stale]"
| "legalMap Db_approved = Some [Db_stale, Db_executing]"
| "legalMap Db_executing = Some [Db_executed, Db_failed]"
| "legalMap _ = None"

definition db_legal :: "db_status \<Rightarrow> db_status \<Rightarrow> bool" where
  "db_legal f t \<longleftrightarrow> (case legalMap f of Some ts \<Rightarrow> t \<in> set ts | None \<Rightarrow> False)"

definition log_transition :: "string \<Rightarrow> status_transition \<Rightarrow> policy_db \<Rightarrow> policy_db" where
  "log_transition i t db =
     (if \<exists>e\<in>set (approval_transitions db). tr_approval_id e = i \<and> command_key e = st_commandKey t then db
      else db\<lparr>approval_transitions := approval_transitions db @
             [\<lparr>tr_approval_id = i, from_status = st_from t, to_status = st_to t,
               tr_actor_type = st_actorType t, tr_actor_id = st_actorId t,
               tr_reason_code = st_reasonCode t, command_key = st_commandKey t\<rparr>]\<rparr>)"

definition updated_row :: "int \<Rightarrow> status_transition \<Rightarrow> approval_row \<Rightarrow> approval_row" where
  "updated_row now t r =
     r\<lparr>row_status := st_to t,
       resolved_by := (if st_to t \<in> {Db_approved, Db_rejected}
                       then (if st_actorType t = Db_user then Some (st_actorId t) else None)
                       else resolved_by r),
       resolution_comment := (case st_resolutionComment t of Some c \<Rightarrow> Some c | None \<Rightarrow> resolution_comment r),
       resolved_at := (if st_to t \<in> {Db_approved, Db_rejected, Db_expired, Db_stale} then Some now
                       else resolved_at r),
       execution_status := (if st_to t \<in> {Db_executing, Db_executed, Db_failed} then Some (st_to t)
                            else execution_status r),
       executed_at := (if st_to t = Db_executed then Some now else executed_at r),
       updated_at := now,
       row_version := row_version r + 1\<rparr>"

text \<open>The guarded UPDATE, with whether it returned a row.\<close>

definition update_guard :: "string \<Rightarrow> int \<Rightarrow> status_transition \<Rightarrow> approval_row \<Rightarrow> bool" where
  "update_guard i expected t r \<longleftrightarrow> row_id r = i \<and> row_version r = expected \<and> row_status r = st_from t"

definition update_approval ::
  "int \<Rightarrow> policy_db \<Rightarrow> string \<Rightarrow> int \<Rightarrow> status_transition \<Rightarrow> policy_db \<times> bool" where
  "update_approval now db i expected t =
     (if \<exists>r\<in>set (approvals db). update_guard i expected t r
      then (db\<lparr>approvals := map (\<lambda>r. if update_guard i expected t r then updated_row now t r else r) (approvals db)\<rparr>,
            True)
      else (db, False))"

definition transition ::
  "int \<Rightarrow> string \<Rightarrow> int \<Rightarrow> status_transition \<Rightarrow> policy_db \<Rightarrow> policy_db \<times> (string + approval_row)" where
  "transition now i expected t db =
     (if \<not> db_legal (st_from t) (st_to t)
      then (db, Inl (''ILLEGAL_TRANSITION:'' @ db_status_str (st_from t) @ ''->'' @ db_status_str (st_to t)))
      else if i \<notin> row_id ` set (approvals db) then (db, Inl ''foreign_key_violation'')
      else case update_approval now (log_transition i t db) i expected t of
        (db', applied) \<Rightarrow>
          (case getById i db' of
             Some r \<Rightarrow> if applied \<or> row_status r = st_to t then (db', Inr r)
                       else (db', Inl (''VERSION_CONFLICT:expected='' @ js_int_str expected))
           | None \<Rightarrow> (db', Inl (''VERSION_CONFLICT:expected='' @ js_int_str expected))))"

record approval_filters =
  f_repositoryId :: "string option"
  f_status :: "string option"
  f_runId :: "string option"

definition opt_matches :: "string option \<Rightarrow> string \<Rightarrow> bool" where
  "opt_matches f v \<longleftrightarrow> (case f of None \<Rightarrow> True | Some x \<Rightarrow> v = x)"

definition list_approvals :: "approval_filters \<Rightarrow> policy_db \<Rightarrow> approval_row list" where
  "list_approvals fs db =
     take 50 (rev (sort_key requested_at (filter (\<lambda>r.
       opt_matches (f_repositoryId fs) (repository_id r) \<and>
       opt_matches (f_status fs) (db_status_str (row_status r)) \<and>
       (case f_runId fs of None \<Rightarrow> True | Some x \<Rightarrow> workflow_run_id r = Some x)) (approvals db))))"

section \<open>Versions of rows\<close>

definition approval_version :: "policy_db \<Rightarrow> string \<Rightarrow> int option" where
  "approval_version db i = map_option row_version (getById i db)"

definition head_version :: "policy_db \<Rightarrow> string \<Rightarrow> int option" where
  "head_version db repo = map_option h_row_version (find (\<lambda>h. h_repository_id h = repo) (policy_heads db))"

definition cas_approval :: "policy_db \<Rightarrow> string \<Rightarrow> int \<Rightarrow> int \<times> status_transition \<Rightarrow> policy_db \<times> bool" where
  "cas_approval db i n u = update_approval (fst u) db i n (snd u)"

definition cas_head :: "policy_db \<Rightarrow> string \<Rightarrow> int \<Rightarrow> int \<times> string \<times> string \<Rightarrow> policy_db \<times> bool" where
  "cas_head db repo n u = upsert_head (fst u) db repo n (snd u)"

definition approvals_keyed :: "policy_db \<Rightarrow> bool" where
  "approvals_keyed db = distinct (map row_id (approvals db))"

lemma row_id_updated [simp]: "row_id (updated_row now t r) = row_id r"
  by (simp add: updated_row_def)

lemma getById_update:
  assumes "approvals_keyed db"
  shows "getById j (fst (update_approval now db i n t)) =
    map_option (\<lambda>r. if update_guard i n t r then updated_row now t r else r) (getById j db)"
proof -
  have id: "map_option (\<lambda>r. r) x = x" for x :: "approval_row option" by (cases x) simp_all
  show ?thesis
  proof (cases "\<exists>r\<in>set (approvals db). update_guard i n t r")
    case True
    then show ?thesis
      by (simp add: update_approval_def getById_def find_map_keep)
  next
    case False
    have "r \<in> set (approvals db)" if "getById j db = Some r" for r
      using that by (simp add: getById_def find_Some_iff) (metis nth_mem)
    with False show ?thesis by (cases "getById j db") (auto simp: update_approval_def)
  qed
qed

lemma update_applied_iff:
  assumes "approvals_keyed db"
  shows "snd (update_approval now db i n t) \<longleftrightarrow>
    (\<exists>r. getById i db = Some r \<and> row_version r = n \<and> row_status r = st_from t)"
proof
  assume "snd (update_approval now db i n t)"
  then obtain r where r: "r \<in> set (approvals db)" "update_guard i n t r"
    by (auto simp: update_approval_def split: if_splits)
  with find_unique [of row_id "approvals db" r] assms have "getById i db = Some r"
    by (simp add: getById_def approvals_keyed_def update_guard_def)
  with r show "\<exists>r. getById i db = Some r \<and> row_version r = n \<and> row_status r = st_from t"
    by (auto simp: update_guard_def)
next
  assume "\<exists>r. getById i db = Some r \<and> row_version r = n \<and> row_status r = st_from t"
  then obtain r where "getById i db = Some r" "row_version r = n" "row_status r = st_from t" by blast
  moreover from this(1) have "r \<in> set (approvals db)" "row_id r = i"
    by (auto simp: getById_def find_Some_iff)
  ultimately show "snd (update_approval now db i n t)" by (auto simp: update_approval_def update_guard_def)
qed

lemma update_keyed [simp]: "approvals_keyed (fst (update_approval now db i n t)) = approvals_keyed db"
  by (simp add: update_approval_def approvals_keyed_def comp_def if_distrib cong: if_cong)

interpretation approvals_cas: versioned_store cas_approval approval_version approvals_keyed
proof unfold_locales
  fix s k n u s' v b k'
  assume inv: "approvals_keyed s"
  show "approvals_keyed (fst (cas_approval s k n u))" using inv by (simp add: cas_approval_def)
  show "v = n \<and> approval_version s' k = Some (n + 1)"
    if c: "cas_approval s k n u = (s', True)" and v: "approval_version s k = Some v"
  proof -
    from c have s': "s' = fst (update_approval (fst u) s k n (snd u))" and ok: "snd (update_approval (fst u) s k n (snd u))"
      by (simp_all add: cas_approval_def)
    from ok update_applied_iff [OF inv] obtain r where
      "getById k s = Some r" "row_version r = n" "row_status r = st_from (snd u)" by blast
    moreover from this(1) have "row_id r = k" by (auto simp: getById_def find_Some_iff)
    ultimately show ?thesis using v
      by (simp add: s' approval_version_def getById_update [OF inv] update_guard_def) (simp add: updated_row_def)
  qed
  show "s' = s" if "cas_approval s k n u = (s', False)"
    using that by (simp add: cas_approval_def update_approval_def split: if_splits)
  show "approval_version s' k' = approval_version s k'" if c: "cas_approval s k n u = (s', b)" and "k' \<noteq> k"
  proof -
    from c have "s' = fst (update_approval (fst u) s k n (snd u))" by (simp add: cas_approval_def)
    moreover have "row_id r = k'" if "getById k' s = Some r" for r
      using that by (auto simp: getById_def find_Some_iff)
    ultimately show ?thesis using \<open>k' \<noteq> k\<close>
      by (cases "getById k' s") (auto simp: approval_version_def getById_update [OF inv] update_guard_def)
  qed
qed

interpretation heads_cas: versioned_store cas_head head_version "\<lambda>_. True"
proof unfold_locales
  fix s k n u s' v b k'
  show "v = n \<and> head_version s' k = Some (n + 1)"
    if "cas_head s k n u = (s', True)" and "head_version s k = Some v"
    using that
    by (auto simp: cas_head_def upsert_head_def head_version_def find_map_keep if_distrib cong: if_cong split: if_splits)
       (auto simp: find_Some_iff)
  show "s' = s" if "cas_head s k n u = (s', False)"
    using that by (auto simp: cas_head_def upsert_head_def split: option.splits if_splits)
  show "head_version s' k' = head_version s k'" if "cas_head s k n u = (s', b)" and "k' \<noteq> k"
    using that
    by (auto simp: cas_head_def upsert_head_def head_version_def find_snoc find_map_frame
        split: option.splits if_splits)
qed simp

section \<open>Properties of the approval table\<close>

lemma getById_log [simp]: "getById j (log_transition i t db) = getById j db"
  and approvals_log [simp]: "approvals (log_transition i t db) = approvals db"
  and keyed_log [simp]: "approvals_keyed (log_transition i t db) = approvals_keyed db"
  by (simp_all add: log_transition_def getById_def approvals_keyed_def)

lemma getById_id: "getById i db = Some r \<Longrightarrow> row_id r = i \<and> r \<in> set (approvals db)"
  by (auto simp: getById_def find_Some_iff)

text \<open>
  In any serialization of guarded updates of the approvals table, at most one of
  the requests that expect a given version of an approval takes effect.
\<close>

theorem approval_updates_single_winner:
  assumes "approvals_keyed db" and "approval_version db i = Some v"
    and "a < length rs" and "b < length rs"
    and "snd (cas_run cas_approval db rs) ! a" and "snd (cas_run cas_approval db rs) ! b"
    and "rs ! a = (i, n, u)" and "rs ! b = (i, n, u')"
  shows "a = b"
  using approvals_cas.single_winner [OF assms] .

definition sample_row :: approval_row where
  "sample_row =
     \<lparr>row_id = ''a'', repository_id = ''r'', workflow_run_id = None, action_type = ''x'',
      row_status = Db_approved, row_risk_class = ''destructive'', reason_code = ''c'', reason_summary = [],
      operation_hash = ''o'', fingerprint_hash = ''f'', expires_at = ''t'', resolved_by = Some ''u'',
      resolution_comment = None, resolved_at = None, execution_status = None, executed_at = None,
      requested_at = 0, updated_at = 0, row_version = 2\<rparr>"

definition sample_db :: policy_db where
  "sample_db = \<lparr>approvals = [sample_row], approval_transitions = [], policy_versions = [], policy_heads = []\<rparr>"

definition claim_by :: "string \<Rightarrow> status_transition" where
  "claim_by worker =
     \<lparr>st_from = Db_approved, st_to = Db_executing, st_actorType = Db_system, st_actorId = worker,
      st_reasonCode = ''claim'', st_commandKey = ''claim:'' @ worker, st_resolutionComment = None\<rparr>"

lemmas sample_db_simps = sample_db_def sample_row_def claim_by_def approvals_keyed_def
  approval_version_def getById_def

theorem approval_updates_single_winner_witness:
  "snd (cas_run cas_approval sample_db [(''a'', 2, (7, claim_by ''w1'')), (''a'', 2, (8, claim_by ''w2''))]) = [True, False]"
proof -
  let ?rs = "[(''a'', 2, (7, claim_by ''w1'')), (''a'', 2, (8, claim_by ''w2''))] :: (string, int \<times> status_transition) request list"
  have k: "approvals_keyed sample_db" "approval_version sample_db ''a'' = Some 2"
    by (simp_all add: sample_db_simps)
  have first: "snd (cas_run cas_approval sample_db ?rs) ! 0"
    by (simp add: cas_approval_def update_approval_def update_guard_def sample_db_simps Let_def split: prod.splits)
  have "\<not> snd (cas_run cas_approval sample_db ?rs) ! 1"
    using approval_updates_single_winner [OF k, of 0 ?rs 1 2 "(7, claim_by ''w1'')" "(8, claim_by ''w2'')"] first
    by auto
  with first show ?thesis
    by (cases "snd (cas_run cas_approval sample_db ?rs)"; cases "tl (snd (cas_run cas_approval sample_db ?rs))")
       (use length_cas_run [of cas_approval sample_db ?rs] in auto)
qed

text \<open>
  A successful \<open>transition\<close> always leaves the approval in the requested status,
  reached by a legal edge, and either this call made exactly the specified row update at the
  expected version and source status, or the row was already in the requested status and is
  returned unchanged; a failing call changes no approval row.
\<close>

theorem transition_outcome:
  assumes "approvals_keyed db" and "transition now i n t db = (db', res)"
  shows "case res of
      Inl _ \<Rightarrow> approvals db' = approvals db
    | Inr r \<Rightarrow> db_legal (st_from t) (st_to t) \<and> row_status r = st_to t \<and> getById i db' = Some r \<and>
        (\<exists>r0. getById i db = Some r0 \<and>
           ((row_version r0 = n \<and> row_status r0 = st_from t \<and> r = updated_row now t r0) \<or>
            (row_status r0 = st_to t \<and> r = r0 \<and> approvals db' = approvals db)))"
proof -
  let ?l = "log_transition i t db"
  have k: "approvals_keyed ?l" using assms(1) by simp
  obtain d b where u: "update_approval now ?l i n t = (d, b)" by fastforce
  have refused: "approvals d = approvals db" if "\<not> b"
    using u that by (auto simp: update_approval_def split: if_splits)
  have after: "getById i d = map_option (\<lambda>r. if update_guard i n t r then updated_row now t r else r) (getById i db)"
    using getById_update [OF k, of i now i n t] u by simp
  have applied: "b \<longleftrightarrow> (\<exists>r. getById i db = Some r \<and> row_version r = n \<and> row_status r = st_from t)"
    using update_applied_iff [OF k, of now i n t] u by simp
  show ?thesis
  proof (cases "getById i db")
    case None
    with assms(2) u after applied refused show ?thesis
      by (auto simp: transition_def split: if_splits)
  next
    case (Some r0)
    have mem: "i \<in> row_id ` set (approvals db)" using getById_id [OF Some] by (metis imageI)
    show ?thesis
    proof (cases "db_legal (st_from t) (st_to t)")
      case False
      with assms(2) show ?thesis by (auto simp: transition_def)
    next
      case legal: True
      show ?thesis
      proof (cases b)
        case True
        with applied Some have r0: "row_version r0 = n" "row_status r0 = st_from t" by auto
        with after Some getById_id [OF Some] have "getById i d = Some (updated_row now t r0)"
          by (simp add: update_guard_def)
        moreover have "row_status (updated_row now t r0) = st_to t" by (simp add: updated_row_def)
        ultimately show ?thesis using assms(2) u legal mem Some r0 True by (auto simp: transition_def)
      next
        case False
        with applied Some after have "getById i d = Some r0" by (simp add: update_guard_def) metis
        with False show ?thesis using assms(2) u legal mem Some refused
          by (auto simp: transition_def split: if_splits)
      qed
    qed
  qed
qed

theorem transition_outcome_witness:
  "\<exists>db' r. transition 7 ''a'' 2 (claim_by ''w1'') sample_db = (db', Inr r) \<and> row_status r = Db_executing \<and> row_version r = 3"
proof -
  obtain db' res where t: "transition 7 ''a'' 2 (claim_by ''w1'') sample_db = (db', res)" by fastforce
  have "\<not> isl (snd (transition 7 ''a'' 2 (claim_by ''w1'') sample_db))" by code_simp
  with t have "\<not> isl res" by simp
  then obtain r where r: "res = Inr r" by (cases res) simp_all
  from transition_outcome [OF _ t] r show ?thesis
    using t by (auto simp: sample_db_simps updated_row_def)
qed

text \<open>
  The retry path of \<open>transition\<close> does not look at the command key: when one
  worker has claimed an approved approval for execution, a second claim by anyone, at the same
  stale version and under any other key, also returns success with the same row, and its
  evidence row is recorded as a second transition to executing.
\<close>

theorem losing_claim_reported_as_success:
  assumes "approvals_keyed db" and "getById i db = Some r" and "row_status r = Db_approved" and "row_version r = n"
    and "st_from t1 = Db_approved" and "st_to t1 = Db_executing"
    and "st_from t2 = Db_approved" and "st_to t2 = Db_executing"
    and "transition now1 i n t1 db = (db1, r1)" and "transition now2 i n t2 db1 = (db2, r2)"
  shows "r1 = Inr (updated_row now1 t1 r) \<and> r2 = r1 \<and>
    (st_commandKey t1 \<noteq> st_commandKey t2 \<longrightarrow> approval_transitions db = [] \<longrightarrow>
       map to_status (approval_transitions db2) = [Db_executing, Db_executing])"
proof -
  have ids: "row_id r = i" "i \<in> row_id ` set (approvals db)" using getById_id [OF assms(2)] by auto
  let ?l = "log_transition i t1 db"
  have kl: "approvals_keyed ?l" using assms(1) by simp
  obtain d b where u: "update_approval now1 ?l i n t1 = (d, b)" by fastforce
  have b: "b" using update_applied_iff [OF kl, of now1 i n t1] u assms by simp
  have gd: "getById i d = Some (updated_row now1 t1 r)"
    using getById_update [OF kl, of i now1 i n t1] u assms ids by (simp add: update_guard_def)
  have one: "r1 = Inr (updated_row now1 t1 r)" "db1 = d"
    using assms(9) u b gd ids assms(5,6) by (simp_all add: transition_def db_legal_def)
  have trd: "approval_transitions d = approval_transitions ?l"
    using u by (auto simp: update_approval_def split: if_splits)
  have kd: "approvals_keyed d" using update_keyed [of now1 ?l i n t1] u kl by simp
  let ?m = "log_transition i t2 d"
  have km: "approvals_keyed ?m" using kd by simp
  have st: "row_status (updated_row now1 t1 r) = Db_executing" using assms(6) by (simp add: updated_row_def)
  have no: "\<not> snd (update_approval now2 ?m i n t2)"
    using update_applied_iff [OF km, of now2 i n t2] gd st assms(7) by simp
  then have m: "update_approval now2 ?m i n t2 = (?m, False)"
    by (auto simp: update_approval_def split: if_splits)
  have "i \<in> row_id ` set (approvals d)" using getById_id [OF gd] by (metis imageI)
  then have two: "r2 = r1" "db2 = ?m"
    using assms(10) one m gd st assms(7,8) by (simp_all add: transition_def db_legal_def)
  show ?thesis using one two trd assms(6,8) by (auto simp: log_transition_def)
qed

theorem losing_claim_reported_as_success_witness:
  "\<exists>r. snd (transition 7 ''a'' 2 (claim_by ''w1'') sample_db) = Inr r \<and>
       snd (transition 8 ''a'' 2 (claim_by ''w2'') (fst (transition 7 ''a'' 2 (claim_by ''w1'') sample_db))) = Inr r"
proof -
  obtain db1 r1 where 1: "transition 7 ''a'' 2 (claim_by ''w1'') sample_db = (db1, r1)" by fastforce
  obtain db2 r2 where 2: "transition 8 ''a'' 2 (claim_by ''w2'') db1 = (db2, r2)" by fastforce
  from losing_claim_reported_as_success [of sample_db "''a''" sample_row 2, OF _ _ _ _ _ _ _ _ 1 2] 1 2
  show ?thesis by (simp add: sample_db_simps)
qed

section \<open>The persisted lifecycle against the domain lifecycle\<close>

fun domain_status :: "db_status \<Rightarrow> approval_status" where
  "domain_status Db_pending = PENDING"
| "domain_status Db_approved = APPROVED"
| "domain_status Db_rejected = REJECTED"
| "domain_status Db_expired = EXPIRED"
| "domain_status Db_stale = STALE"
| "domain_status Db_executing = EXECUTING"
| "domain_status Db_executed = EXECUTED"
| "domain_status Db_failed = EXECUTION_FAILED"

definition db_edges :: "(approval_status \<times> approval_status) set" where
  "db_edges = map_prod domain_status domain_status ` {(f, t). db_legal f t}"

definition fsm_edges :: "(approval_status \<times> approval_status) set" where
  "fsm_edges = {(s, s'). s \<noteq> s' \<and> (\<exists>tr c. approval_fire s tr c = Some s')}"

definition all_guards :: guard_context where
  "all_guards = empty_guards\<lparr>contextMatchesBinding := Some False, cancellationCurrent := Some True,
     stepsOneThroughSixPassed := Some True, externalEffectBegan := Some False,
     providerProvesNotStarted := Some True, leaseFenced := Some True, providerOutcomeVerified := Some True\<rparr>"

lemma fsm_edges_explicit:
  "fsm_edges = {(PENDING, APPROVED), (PENDING, REJECTED), (PENDING, EXPIRED), (PENDING, STALE), (PENDING, CANCELLED),
     (APPROVED, EXPIRED), (APPROVED, STALE), (APPROVED, CANCELLED), (APPROVED, EXECUTING),
     (EXECUTING, CANCELLED), (EXECUTING, EXECUTED), (EXECUTING, EXECUTION_FAILED)}" (is "_ = ?E")
proof
  show "fsm_edges \<subseteq> ?E" by (auto simp: fsm_edges_def fire_iff_step approval_step.simps)
  have "approval_fire PENDING Approve all_guards = Some APPROVED"
    "approval_fire PENDING Reject all_guards = Some REJECTED"
    "approval_fire PENDING Expire (all_guards\<lparr>expiresAtMs := Some 0\<rparr>) = Some EXPIRED"
    "approval_fire PENDING Mark_stale all_guards = Some STALE"
    "approval_fire PENDING Cancel_before_execution all_guards = Some CANCELLED"
    "approval_fire APPROVED Expire (all_guards\<lparr>expiresAtMs := Some 0\<rparr>) = Some EXPIRED"
    "approval_fire APPROVED Mark_stale all_guards = Some STALE"
    "approval_fire APPROVED Cancel_before_execution all_guards = Some CANCELLED"
    "approval_fire APPROVED Execution_claim all_guards = Some EXECUTING"
    "approval_fire EXECUTING Cancel_reconciled all_guards = Some CANCELLED"
    "approval_fire EXECUTING Execute_verified all_guards = Some EXECUTED"
    "approval_fire EXECUTING Execute_failed all_guards = Some EXECUTION_FAILED"
    by code_simp+
  then show "?E \<subseteq> fsm_edges" unfolding fsm_edges_def by blast
qed

text \<open>
  Every edge the store accepts is an edge of the approval state machine, and the
  edges of the state machine the store cannot persist are exactly the expiry of an approved
  approval and the three cancellations.
\<close>

theorem store_edges_within_fsm:
  "db_edges = fsm_edges - {(APPROVED, EXPIRED), (PENDING, CANCELLED), (APPROVED, CANCELLED), (EXECUTING, CANCELLED)}"
proof -
  have "{(f, t). db_legal f t} = {(Db_pending, Db_approved), (Db_pending, Db_rejected), (Db_pending, Db_expired),
      (Db_pending, Db_stale), (Db_approved, Db_stale), (Db_approved, Db_executing),
      (Db_executing, Db_executed), (Db_executing, Db_failed)}" (is "?L = ?R")
  proof (rule set_eqI)
    show "x \<in> ?L \<longleftrightarrow> x \<in> ?R" for x by (cases x; cases "fst x") (auto simp: db_legal_def)
  qed
  then have "db_edges = {(PENDING, APPROVED), (PENDING, REJECTED), (PENDING, EXPIRED), (PENDING, STALE),
      (APPROVED, STALE), (APPROVED, EXECUTING), (EXECUTING, EXECUTED), (EXECUTING, EXECUTION_FAILED)}"
    unfolding db_edges_def by simp
  then show ?thesis by (simp add: fsm_edges_explicit insert_Diff_if)
qed

section \<open>Properties of the policy version store\<close>

definition repo_versions :: "policy_db \<Rightarrow> string \<Rightarrow> nat list" where
  "repo_versions db repo = map v_version (filter (\<lambda>v. v_repository_id v = repo) (policy_versions db))"

text \<open>
  Version ids are unique, the versions of a repository are numbered from 1 without gaps in the
  order they were appended, heads are unique per repository and point to one of its versions.
\<close>

definition policy_wf :: "policy_db \<Rightarrow> bool" where
  "policy_wf db \<longleftrightarrow>
     distinct (map v_id (policy_versions db)) \<and>
     (\<forall>repo. repo_versions db repo = [1..<Suc (length (repo_versions db repo))]) \<and>
     distinct (map h_repository_id (policy_heads db)) \<and>
     (\<forall>h\<in>set (policy_heads db). \<exists>v\<in>set (policy_versions db).
        v_id v = active_policy_version_id h \<and> v_repository_id v = h_repository_id h)"

lemma foldr_max_upt: "foldr max [1..<Suc n] (0::nat) = n"
proof (induction n)
  case (Suc n)
  have "foldr max xs (Suc n) = max (Suc n) (foldr max xs 0)" for xs :: "nat list"
    by (induction xs) auto
  with Suc show ?case by simp
qed simp

lemma max_version_wf: "policy_wf db \<Longrightarrow> max_version (policy_versions db) repo = length (repo_versions db repo)"
  unfolding max_version_def repo_versions_def [symmetric]
  by (metis foldr_max_upt policy_wf_def)

lemma appendVersion_wf: "policy_wf db \<Longrightarrow> policy_wf (fst (appendVersion now newid input db))"
proof -
  assume wf: "policy_wf db"
  show ?thesis
  proof (cases "newid \<in> v_id ` set (policy_versions db)")
    case True
    with wf show ?thesis by (simp add: appendVersion_def)
  next
    case False
    let ?db = "fst (appendVersion now newid input db)"
    have "repo_versions ?db repo =
        repo_versions db repo @ (if repo = cp_repositoryId input then [Suc (length (repo_versions db repo))] else [])" for repo
      using False max_version_wf [OF wf, of "cp_repositoryId input"]
      by (simp add: appendVersion_def repo_versions_def Let_def)
    moreover have "policy_heads ?db = policy_heads db" "set (policy_versions db) \<subseteq> set (policy_versions ?db)"
      "distinct (map v_id (policy_versions ?db))"
      using False wf by (auto simp: appendVersion_def policy_wf_def Let_def)
    moreover have "repo_versions db repo = [1..<Suc (length (repo_versions db repo))]" for repo
      using wf by (simp add: policy_wf_def)
    then have "repo_versions db repo @ [Suc (length (repo_versions db repo))]
        = [1..<Suc (Suc (length (repo_versions db repo)))]" for repo
      by (metis One_nat_def Suc_le_mono le0 upt_Suc)
    ultimately show ?thesis using wf unfolding policy_wf_def
      by (auto simp del: upt_Suc) blast
  qed
qed

lemma upsert_head_heads:
  "snd (upsert_head now db repo n vu) \<Longrightarrow>
     set (policy_heads (fst (upsert_head now db repo n vu))) \<subseteq>
       {h \<in> set (policy_heads db). h_repository_id h \<noteq> repo} \<union>
       {h. h_repository_id h = repo \<and> active_policy_version_id h = fst vu}"
  by (auto simp: upsert_head_def find_None_iff split: option.splits if_splits)

lemma upsert_head_distinct:
  "distinct (map h_repository_id (policy_heads db)) \<Longrightarrow>
     distinct (map h_repository_id (policy_heads (fst (upsert_head now db repo n vu))))"
  by (auto simp: upsert_head_def find_None_iff comp_def if_distrib cong: if_cong split: option.splits)

lemma activateHead_wf: "policy_wf db \<Longrightarrow> policy_wf (fst (activateHead now repo vid n by' db))"
proof -
  assume wf: "policy_wf db"
  let ?owner = "map_option v_repository_id (find (\<lambda>v. v_id v = vid) (policy_versions db))"
  let ?u = "upsert_head now db repo n (vid, by')"
  have pv: "policy_versions (fst ?u) = policy_versions db"
    by (auto simp: upsert_head_def split: option.splits)
  show ?thesis
  proof (cases "?owner = Some repo \<and> snd ?u")
    case True
    then have same: "fst (activateHead now repo vid n by' db) = fst ?u"
      by (cases ?u) (auto simp: activateHead_def Let_def)
    from True obtain v where "v \<in> set (policy_versions db)" "v_id v = vid" "v_repository_id v = repo"
      by (auto dest: find_sound)
    with wf upsert_head_heads [of now db repo n "(vid, by')"] True upsert_head_distinct [of db now repo n "(vid, by')"]
    show ?thesis unfolding same policy_wf_def repo_versions_def pv by fastforce
  next
    case False
    then have "fst (activateHead now repo vid n by' db) = db"
      by (cases ?u) (auto simp: activateHead_def upsert_head_def Let_def split: option.splits if_splits)
    with wf show ?thesis by simp
  qed
qed

text \<open>
  Appending a version and activating a head keep the store well formed: version
  numbers per repository are 1, 2, 3, ... without gaps or duplicates, and a head never points to
  another repository's policy; the number returned by \<open>appendVersion\<close> is the next one.
\<close>

theorem policy_store_wf_preserved:
  assumes "policy_wf db"
  shows "policy_wf (fst (appendVersion now newid input db)) \<and>
    policy_wf (fst (activateHead now repo vid n who db)) \<and>
    (\<forall>i k. snd (appendVersion now newid input db) = Inr (i, k) \<longrightarrow>
       k = length (repo_versions db (cp_repositoryId input)) + 1)"
  using assms appendVersion_wf activateHead_wf max_version_wf
  by (auto simp: appendVersion_def Let_def split: if_splits)

text \<open>
  Activation then read: after a successful \<open>activateHead\<close> the active policy of the
  repository is the activated version with an etag one above the version the caller had to
  know (1 for a first head), and every other repository keeps its active policy.
\<close>

theorem activate_then_getActive:
  assumes wf: "policy_wf db" and act: "activateHead now repo vid n who db = (db', Inr ())"
  shows "(\<exists>v. getActive repo db' = Some (v, case head_version db repo of None \<Rightarrow> 1 | Some m \<Rightarrow> m + 1) \<and>
            v_id v = vid \<and> v_repository_id v = repo) \<and>
    (head_version db repo = None \<or> head_version db repo = Some n) \<and>
    (repo' \<noteq> repo \<longrightarrow> getActive repo' db' = getActive repo' db)"
proof -
  let ?u = "upsert_head now db repo n (vid, who)"
  from act have owner: "map_option v_repository_id (find (\<lambda>v. v_id v = vid) (policy_versions db)) = Some repo"
    and u: "?u = (db', True)"
    by (auto simp: activateHead_def Let_def split: if_splits prod.splits bool.splits)
  from owner obtain v where v: "find (\<lambda>v. v_id v = vid) (policy_versions db) = Some v" "v_repository_id v = repo" by auto
  then have vid: "v_id v = vid" by (auto simp: find_Some_iff)
  have pv: "policy_versions db' = policy_versions db"
    using u by (auto simp: upsert_head_def split: option.splits if_splits)
  have head: "\<exists>h. find (\<lambda>h. h_repository_id h = repo) (policy_heads db') = Some h \<and> active_policy_version_id h = vid \<and>
      h_row_version h = (case head_version db repo of None \<Rightarrow> 1 | Some m \<Rightarrow> m + 1)"
    and known: "head_version db repo = None \<or> head_version db repo = Some n"
    using u by (auto simp: upsert_head_def head_version_def find_snoc find_map_keep
        split: option.splits if_splits dest: find_sound)
  have other: "find (\<lambda>h. h_repository_id h = repo') (policy_heads db') = find (\<lambda>h. h_repository_id h = repo') (policy_heads db)"
    if "repo' \<noteq> repo"
    using u that by (auto simp: upsert_head_def find_snoc find_map_frame split: option.splits if_splits)
  from head v vid known other show ?thesis unfolding getActive_def pv by auto
qed

definition sample_policy :: canonical_policy where
  "sample_policy = \<lparr>cp_repositoryId = ''r'', policyJson = ''{}'', cp_canonicalHash = ''h'', createdBy = ''u''\<rparr>"

definition empty_policy_db :: policy_db where
  "empty_policy_db = \<lparr>approvals = [], approval_transitions = [], policy_versions = [], policy_heads = []\<rparr>"

lemma empty_policy_wf: "policy_wf empty_policy_db"
  by (simp add: policy_wf_def repo_versions_def empty_policy_db_def)

theorem policy_store_wf_preserved_witness:
  "policy_wf (fst (appendVersion 1 ''v1'' sample_policy empty_policy_db)) \<and>
   snd (appendVersion 1 ''v1'' sample_policy empty_policy_db) = Inr (''v1'', 1)"
  using policy_store_wf_preserved [OF empty_policy_wf, of 1 "''v1''" sample_policy]
  by (simp add: appendVersion_def empty_policy_db_def max_version_def)

theorem activate_then_getActive_witness:
  "\<exists>v. getActive ''r'' (fst (activateHead 2 ''r'' ''v1'' 0 ''u''
     (fst (appendVersion 1 ''v1'' sample_policy empty_policy_db)))) = Some (v, 1) \<and> v_id v = ''v1''"
proof -
  let ?db = "fst (appendVersion 1 ''v1'' sample_policy empty_policy_db)"
  have act: "activateHead 2 ''r'' ''v1'' 0 ''u'' ?db = (fst (activateHead 2 ''r'' ''v1'' 0 ''u'' ?db), Inr ())"
    by (simp add: appendVersion_def empty_policy_db_def activateHead_def upsert_head_def sample_policy_def)
  have "head_version ?db ''r'' = None"
    by (simp add: appendVersion_def empty_policy_db_def head_version_def)
  with activate_then_getActive [OF appendVersion_wf [OF empty_policy_wf] act, of "''s''"] show ?thesis by auto
qed

end
