(* ===== verification/Canonical_Json.thy ===== *)
theory Canonical_Json
  imports DG_Prelude
begin

text \<open>
  Canonical JSON of the approval fingerprints,
  \<open>packages/approvals/src/fingerprint/canonical.ts\<close>.  The value type has a constructor for every
  case \<open>walk\<close> distinguishes; a number is an integer or not finite (fractions are not modelled),
  and object members are listed once per key in \<open>Object.keys\<close> order.  \<open>normalize('NFC')\<close> is the
  parameter \<open>nfc\<close>; a string of code units below 256 has no lone surrogates, so that refusal
  cannot arise here.
\<close>

datatype js_value =
    JsUndefined
  | JsFunction
  | JsBigint
  | JsNull
  | JsBool bool
  | JsNum int
  | JsNonFinite
  | JsStr string
  | JsArr "js_value list"
  | JsObj "(string \<times> js_value) list"
  | JsDate
  | JsOther string   \<comment> \<open>any other value, with its \<open>typeof\<close>\<close>

definition hex_digit :: "nat \<Rightarrow> char" where
  "hex_digit n = (if n < 10 then char_of (48 + n) else char_of (87 + n))"

definition escape_char :: "char \<Rightarrow> string" where
  "escape_char c =
     (let n = (of_char c :: nat) in
      if n = 34 then [CHR 0x5C, CHR 0x22]
      else if n = 92 then [CHR 0x5C, CHR 0x5C]
      else if n = 8 then [CHR 0x5C, CHR ''b'']
      else if n = 12 then [CHR 0x5C, CHR ''f'']
      else if n = 10 then [CHR 0x5C, CHR ''n'']
      else if n = 13 then [CHR 0x5C, CHR ''r'']
      else if n = 9 then [CHR 0x5C, CHR ''t'']
      else if n < 32 then [CHR 0x5C, CHR ''u'', CHR ''0'', CHR ''0'', hex_digit (n div 16), hex_digit (n mod 16)]
      else [c])"

definition serializeString :: "(string \<Rightarrow> string) \<Rightarrow> string \<Rightarrow> string" where
  "serializeString nfc s = [CHR 0x22] @ concat (map escape_char (nfc s)) @ [CHR 0x22]"

definition canon_error :: "string \<Rightarrow> string" where
  "canon_error t = ''value of type '' @ quoted t @ '' is not allowed in canonical JSON''"

text \<open>\<open>node.map(walk)\<close>: the first error is thrown.\<close>

fun all_ok :: "(string + 'a) list \<Rightarrow> string + 'a list" where
  "all_ok [] = Inr []"
| "all_ok (r # rs) =
     (case r of Inl e \<Rightarrow> Inl e
      | Inr s \<Rightarrow> (case all_ok rs of Inl e \<Rightarrow> Inl e | Inr ss \<Rightarrow> Inr (s # ss)))"

text \<open>
  The loop over the sorted keys, with the set of normalized keys seen; a member carries its raw
  key, whether it is \<open>undefined\<close>, and the walk of its value.
\<close>

fun object_parts ::
  "(string \<Rightarrow> string) \<Rightarrow> string list \<Rightarrow> (string \<times> bool \<times> (string + string)) list \<Rightarrow> string + string list" where
  "object_parts nfc seen [] = Inr []"
| "object_parts nfc seen ((k, undef, r) # ms) =
     (if nfc k \<in> set seen then Inl ''normalized key collision''
      else if undef then object_parts nfc (nfc k # seen) ms
      else case r of
        Inl e \<Rightarrow> Inl e
      | Inr child \<Rightarrow>
          (case object_parts nfc (nfc k # seen) ms of
             Inl e \<Rightarrow> Inl e
           | Inr parts \<Rightarrow> Inr ((serializeString nfc k @ '':'' @ child) # parts)))"

definition by_key :: "string \<times> 'a \<Rightarrow> string \<times> 'a \<Rightarrow> int" where
  "by_key a b = js_compare (fst a) (fst b)"

fun canonicalize :: "(string \<Rightarrow> string) \<Rightarrow> js_value \<Rightarrow> string + string" where
  "canonicalize nfc JsNull = Inr ''null''"
| "canonicalize nfc JsUndefined = Inl (canon_error ''undefined'')"
| "canonicalize nfc JsFunction = Inl (canon_error ''function'')"
| "canonicalize nfc JsBigint = Inl (canon_error ''bigint'')"
| "canonicalize nfc (JsStr s) = Inr (serializeString nfc s)"
| "canonicalize nfc JsNonFinite = Inl ''non-finite numbers cannot be canonicalized''"
| "canonicalize nfc (JsNum n) = Inr (js_int_str n)"
| "canonicalize nfc (JsBool b) = Inr (if b then ''true'' else ''false'')"
| "canonicalize nfc (JsArr vs) =
     (case all_ok (map (canonicalize nfc) vs) of
        Inl e \<Rightarrow> Inl e
      | Inr ss \<Rightarrow> Inr (''['' @ js_join '','' ss @ '']''))"
| "canonicalize nfc (JsObj ms) =
     (case object_parts nfc [] (js_sort by_key (map (\<lambda>(k, v). (k, v = JsUndefined, canonicalize nfc v)) ms)) of
        Inl e \<Rightarrow> Inl e
      | Inr parts \<Rightarrow> Inr (''{'' @ js_join '','' parts @ ''}''))"
| "canonicalize nfc JsDate = Inl ''Date objects must be pre-converted to ISO strings by the caller''"
| "canonicalize nfc (JsOther t) = Inl (''unsupported value type '' @ quoted t)"

record fingerprint_result =
  canonicalJson :: string
  fp_hash :: string

definition fingerprint ::
  "(string \<Rightarrow> string) \<Rightarrow> (string \<Rightarrow> string) \<Rightarrow> js_value \<Rightarrow> string + fingerprint_result" where
  "fingerprint sha256Hex nfc v =
     (case canonicalize nfc v of
        Inl e \<Rightarrow> Inl e
      | Inr s \<Rightarrow> Inr \<lparr>canonicalJson = s, fp_hash = sha256Hex s\<rparr>)"

text \<open>\<open>JSON.stringify\<close> of a plain value, and the size of a text in UTF-8 bytes.\<close>

fun json_text :: "json \<Rightarrow> string" where
  "json_text JNull = ''null''"
| "json_text (JBool b) = (if b then ''true'' else ''false'')"
| "json_text (JNum n) = js_int_str n"
| "json_text (JStr s) = serializeString id s"
| "json_text (JArr vs) = ''['' @ js_join '','' (map json_text vs) @ '']''"
| "json_text (JObj ms) = ''{'' @ js_join '','' (map (\<lambda>(k, v). serializeString id k @ '':'' @ json_text v) ms) @ ''}''"

definition utf8_length :: "string \<Rightarrow> nat" where
  "utf8_length s = sum_list (map (\<lambda>c. if of_char c < (128::nat) then 1 else 2) s)"

section \<open>What the canonical form determines\<close>

text \<open>
  The content a canonical form stands for: strings and keys normalized, members in key order
  without the undefined ones.
\<close>

fun canon_value :: "(string \<Rightarrow> string) \<Rightarrow> js_value \<Rightarrow> js_value" where
  "canon_value nfc (JsStr s) = JsStr (nfc s)"
| "canon_value nfc (JsArr vs) = JsArr (map (canon_value nfc) vs)"
| "canon_value nfc (JsObj ms) =
     JsObj (map (\<lambda>(k, u, v). (nfc k, v))
       (filter (\<lambda>(k, u, v). \<not> u)
         (js_sort by_key (map (\<lambda>(k, v). (k, v = JsUndefined, canon_value nfc v)) ms))))"
| "canon_value nfc v = v"

text \<open>The plain printer of such contents.\<close>

fun render :: "js_value \<Rightarrow> string" where
  "render JsNull = ''null''"
| "render (JsBool b) = (if b then ''true'' else ''false'')"
| "render (JsNum n) = js_int_str n"
| "render (JsStr s) = serializeString id s"
| "render (JsArr vs) = ''['' @ js_join '','' (map render vs) @ '']''"
| "render (JsObj ms) = ''{'' @ js_join '','' (map (\<lambda>(k, v). serializeString id k @ '':'' @ render v) ms) @ ''}''"
| "render _ = []"

fun printable :: "js_value \<Rightarrow> bool" where
  "printable JsNull = True"
| "printable (JsBool b) = True"
| "printable (JsNum n) = True"
| "printable (JsStr s) = True"
| "printable (JsArr vs) = list_all printable vs"
| "printable (JsObj ms) = list_all (\<lambda>(k, v). printable v) ms"
| "printable _ = False"

lemma all_ok_map_Inr [simp]: "all_ok (map Inr ss) = Inr ss"
  by (induction ss) simp_all

lemma all_ok_Inr: "all_ok rs = Inr ss \<longleftrightarrow> rs = map Inr ss"
proof
  show "all_ok rs = Inr ss \<Longrightarrow> rs = map Inr ss"
    by (induction rs arbitrary: ss) (auto split: sum.splits)
qed simp

lemma js_insort_map:
  "(\<And>x y. cmp' (f x) (f y) = cmp x y) \<Longrightarrow> js_insort cmp' (f x) (map f xs) = map f (js_insort cmp x xs)"
  by (induction xs) auto

lemma js_sort_map:
  "(\<And>x y. cmp' (f x) (f y) = cmp x y) \<Longrightarrow> js_sort cmp' (map f xs) = map f (js_sort cmp xs)"
  by (induction xs) (simp_all add: js_sort_Cons js_insort_map)

lemma sort_members:
  "js_sort by_key (map (\<lambda>(k, v). (k, g v)) ms) = map (\<lambda>(k, v). (k, g v)) (js_sort by_key ms)"
  by (rule js_sort_map) (auto simp: by_key_def split: prod.splits)

definition member_text :: "string \<times> js_value \<Rightarrow> string" where
  "member_text kv = serializeString id (fst kv) @ '':'' @ render (snd kv)"

definition live_members :: "(string \<Rightarrow> string) \<Rightarrow> (string \<times> js_value) list \<Rightarrow> (string \<times> js_value) list" where
  "live_members nfc ms = map (\<lambda>(k, v). (nfc k, canon_value nfc v)) (filter (\<lambda>(k, v). v \<noteq> JsUndefined) ms)"

lemma canon_value_obj: "canon_value nfc (JsObj ms) = JsObj (live_members nfc (js_sort by_key ms))"
proof -
  have "map (\<lambda>(k, u, v). (nfc k, v))
      (filter (\<lambda>(k, u, v). \<not> u) (map (\<lambda>(k, v). (k, v = JsUndefined, canon_value nfc v)) xs)) = live_members nfc xs"
    for xs by (induction xs) (auto simp: live_members_def)
  then show ?thesis by (simp add: sort_members [where g = "\<lambda>v. (v = JsUndefined, canon_value nfc v)"])
qed

lemma render_obj: "render (JsObj ms) = ''{'' @ js_join '','' (map member_text ms) @ ''}''"
proof -
  have "(\<lambda>(k, v). serializeString id k @ '':'' @ render v) = member_text"
    by (auto simp: fun_eq_iff member_text_def)
  then show ?thesis by simp
qed

lemma object_parts_text:
  assumes "object_parts nfc seen (map (\<lambda>(k, v). (k, v = JsUndefined, canonicalize nfc v)) ms) = Inr parts"
    and "\<And>k v s. (k, v) \<in> set ms \<Longrightarrow> canonicalize nfc v = Inr s \<Longrightarrow>
           s = render (canon_value nfc v) \<and> printable (canon_value nfc v)"
  shows "parts = map member_text (live_members nfc ms) \<and> list_all (\<lambda>(k, v). printable v) (live_members nfc ms)"
  using assms
proof (induction ms arbitrary: seen parts)
  case Nil
  then show ?case by (simp add: live_members_def)
next
  case (Cons m ms)
  obtain k v where m: "m = (k, v)" by (cases m)
  show ?case
  proof (cases "v = JsUndefined")
    case True
    with Cons.prems(1) m have "object_parts nfc (nfc k # seen)
        (map (\<lambda>(k, v). (k, v = JsUndefined, canonicalize nfc v)) ms) = Inr parts" by (simp split: if_splits)
    from Cons.IH [OF this] Cons.prems(2) True m show ?thesis by (auto simp: live_members_def)
  next
    case False
    with Cons.prems(1) m obtain s ps where s: "canonicalize nfc v = Inr s"
      and ps: "object_parts nfc (nfc k # seen) (map (\<lambda>(k, v). (k, v = JsUndefined, canonicalize nfc v)) ms) = Inr ps"
      and parts: "parts = (serializeString nfc k @ '':'' @ s) # ps"
      by (auto split: if_splits sum.splits)
    have "serializeString nfc k = serializeString id (nfc k)" by (simp add: serializeString_def)
    with Cons.IH [OF ps] Cons.prems(2) [of k v s] Cons.prems(2) False m s parts show ?thesis
      by (auto simp: live_members_def member_text_def)
  qed
qed

lemma canonicalize_render:
  "canonicalize nfc v = Inr s \<Longrightarrow> s = render (canon_value nfc v) \<and> printable (canon_value nfc v)"
proof (induction v arbitrary: s)
  case (JsArr vs)
  then obtain ss where ss: "map (canonicalize nfc) vs = map Inr ss" and s: "s = ''['' @ js_join '','' ss @ '']''"
    by (auto simp: all_ok_Inr split: sum.splits)
  have "canonicalize nfc v = Inr t \<Longrightarrow> t = render (canon_value nfc v) \<and> printable (canon_value nfc v)"
    if "v \<in> set vs" for v t using JsArr.IH that by blast
  with ss have "ss = map (render \<circ> canon_value nfc) vs \<and> list_all (printable \<circ> canon_value nfc) vs"
  proof (induction vs arbitrary: ss)
    case (Cons v vs)
    then show ?case by (cases ss) auto
  qed simp
  with s show ?case by (simp add: list.pred_map)
next
  case (JsObj ms)
  have IH: "canonicalize nfc v = Inr t \<Longrightarrow> t = render (canon_value nfc v) \<and> printable (canon_value nfc v)"
    if "(k, v) \<in> set (js_sort by_key ms)" for k v t using JsObj.IH [of "(k, v)" v] that by simp
  from JsObj.prems obtain parts where
    p: "object_parts nfc [] (map (\<lambda>(k, v). (k, v = JsUndefined, canonicalize nfc v)) (js_sort by_key ms)) = Inr parts"
    and s: "s = ''{'' @ js_join '','' parts @ ''}''"
    by (auto simp: sort_members [where g = "\<lambda>v. (v = JsUndefined, canonicalize nfc v)"] split: sum.splits)
  from object_parts_text [OF p IH] s show ?case unfolding canon_value_obj render_obj by simp
qed (auto simp: serializeString_def split: if_splits)

section \<open>The printer is injective\<close>

definition unhex :: "char \<Rightarrow> nat" where
  "unhex c = (if of_char c < (58::nat) then of_char c - 48 else of_char c - 87)"

lemma unhex_hex_digit: "n < 16 \<Longrightarrow> unhex (hex_digit n) = n"
  by (simp add: unhex_def hex_digit_def)

text \<open>The part of an escape after the backslash; \<open>None\<close> for a character written as itself.\<close>

definition escape_tail :: "nat \<Rightarrow> string option" where
  "escape_tail n =
     (if n = 34 then Some [CHR 0x22] else if n = 92 then Some [CHR 0x5C] else if n = 8 then Some ''b''
      else if n = 12 then Some ''f'' else if n = 10 then Some ''n'' else if n = 13 then Some ''r''
      else if n = 9 then Some ''t''
      else if n < 32 then Some ([CHR ''u'', CHR ''0'', CHR ''0''] @ [hex_digit (n div 16), hex_digit (n mod 16)])
      else None)"

lemma escape_char_tail:
  "escape_char c = (case escape_tail (of_char c) of None \<Rightarrow> [c] | Some t \<Rightarrow> CHR 0x5C # t)"
  by (simp add: escape_char_def escape_tail_def Let_def)

definition decode_tail :: "string \<Rightarrow> nat \<times> string" where
  "decode_tail s =
     (let c = hd s; r = tl s in
      if c = CHR 0x22 then (34, r) else if c = CHR 0x5C then (92, r) else if c = CHR ''b'' then (8, r)
      else if c = CHR ''f'' then (12, r) else if c = CHR ''n'' then (10, r) else if c = CHR ''r'' then (13, r)
      else if c = CHR ''t'' then (9, r) else (unhex (r ! 2) * 16 + unhex (r ! 3), drop 4 r))"

lemma decode_escape_tail:
  assumes "escape_tail n = Some s"
  shows "decode_tail (s @ x) = (n, x)"
proof (cases "n \<in> {34, 92, 8, 12, 10, 13, 9}")
  case True
  with assms show ?thesis by (elim insertE emptyE) (auto simp: escape_tail_def decode_tail_def)
next
  case False
  with assms have n: "n < 32" and s: "s = [CHR ''u'', CHR ''0'', CHR ''0'', hex_digit (n div 16), hex_digit (n mod 16)]"
    by (auto simp: escape_tail_def split: if_splits)
  from n have "unhex (hex_digit (n div 16)) * 16 + unhex (hex_digit (n mod 16)) = n"
    by (simp add: unhex_hex_digit)
  then show ?thesis unfolding s decode_tail_def by simp
qed

lemma escape_tail_prefix_free:
  assumes "escape_tail m = Some s" "escape_tail n = Some t" "s @ x = t @ y"
  shows "m = n \<and> x = y"
  using decode_escape_tail [OF assms(1), of x] decode_escape_tail [OF assms(2), of y] assms(3) by simp

lemma backslash_escaped: "escape_tail (of_char (CHR 0x5C)) \<noteq> None"
  by (simp add: escape_tail_def)

lemma escape_char_prefix_free:
  assumes "escape_char c @ x = escape_char d @ y"
  shows "c = d \<and> x = y"
proof (cases "escape_tail (of_char c)")
  case None
  with assms backslash_escaped show ?thesis
    by (cases "escape_tail (of_char d)") (auto simp: escape_char_tail)
next
  case s: (Some s)
  show ?thesis
  proof (cases "escape_tail (of_char d)")
    case None
    with assms s backslash_escaped show ?thesis by (auto simp: escape_char_tail)
  next
    case t: (Some t)
    with assms s have "s @ x = t @ y" by (simp add: escape_char_tail)
    from escape_tail_prefix_free [OF s t this] show ?thesis by simp
  qed
qed

lemma escaped_first_not_quote: "escape_char c \<noteq> [] \<and> hd (escape_char c) \<noteq> CHR 0x22"
  by (auto simp: escape_char_def Let_def)

lemma escaped_string_unique:
  assumes "concat (map escape_char s) @ CHR 0x22 # x = concat (map escape_char t) @ CHR 0x22 # y"
  shows "s = t \<and> x = y"
  using assms
proof (induction s arbitrary: t)
  case Nil
  then show ?case
  proof (cases t)
    case (Cons d t')
    with Nil escaped_first_not_quote [of d] show ?thesis by (cases "escape_char d") auto
  qed simp
next
  case (Cons c s)
  show ?case
  proof (cases t)
    case Nil
    with Cons.prems escaped_first_not_quote [of c] show ?thesis by (cases "escape_char c") auto
  next
    case t: (Cons d t')
    with Cons.prems have "escape_char c @ (concat (map escape_char s) @ CHR 0x22 # x)
        = escape_char d @ (concat (map escape_char t') @ CHR 0x22 # y)" by simp
    from escape_char_prefix_free [OF this] Cons.IH [of t'] t show ?thesis by simp
  qed
qed

lemma serializeString_unique:
  "serializeString id s @ x = serializeString id t @ y \<Longrightarrow> s = t \<and> x = y"
  using escaped_string_unique [of s x t y] by (simp add: serializeString_def)

subsection \<open>Numbers\<close>

lemma js_nat_str_digits: "list_all js_digit (js_nat_str n) \<and> js_nat_str n \<noteq> []"
proof (induction n rule: js_nat_str.induct)
  case (1 n)
  have "js_digit (char_of (48 + k))" if "k < 10" for k :: nat using that by (simp add: js_digit_def Let_def)
  with 1 show ?case by (subst js_nat_str.simps) (auto simp: js_nat_str.simps [of n])
qed

fun digits_value :: "string \<Rightarrow> nat" where
  "digits_value ds = fold (\<lambda>c n. n * 10 + (of_char c - 48)) ds 0"

lemma digits_value_nat_str: "digits_value (js_nat_str n) = n"
proof (induction n rule: js_nat_str.induct)
  case (1 n)
  show ?case
  proof (cases "n < 10")
    case True
    then show ?thesis by (simp add: js_nat_str.simps)
  next
    case False
    with 1 show ?thesis by (subst js_nat_str.simps) simp
  qed
qed

lemma js_nat_str_inj: "js_nat_str m = js_nat_str n \<Longrightarrow> m = n"
  by (metis digits_value_nat_str)

text \<open>What may follow a value inside a canonical text: nothing, a comma or a closing bracket.\<close>

definition value_end :: "string \<Rightarrow> bool" where
  "value_end r \<longleftrightarrow> r = [] \<or> hd r \<in> {CHR '','', CHR '']'', CHR ''}''}"

lemma digits_then_end:
  assumes "list_all js_digit a" "list_all js_digit b" "a @ x = b @ y" "value_end x" "value_end y"
  shows "a = b \<and> x = y"
proof -
  have stop: "takeWhile js_digit (a @ x) = a" if "list_all js_digit a" "value_end x" for a x
  proof -
    have "takeWhile js_digit x = []"
      using that(2) by (cases x) (auto simp: value_end_def js_digit_def)
    with that(1) show ?thesis by (simp add: takeWhile_append2 list_all_iff)
  qed
  from stop [OF assms(1,4)] stop [OF assms(2,5)] assms(3) show ?thesis by auto
qed

lemma js_int_str_unique:
  assumes "js_int_str m @ x = js_int_str n @ y" and "value_end x" and "value_end y"
  shows "m = n \<and> x = y"
proof -
  have nodash: "hd (js_nat_str k) \<noteq> CHR ''-'' \<and> js_nat_str k \<noteq> []" for k
    using js_nat_str_digits [of k] by (cases "js_nat_str k") (auto simp: js_digit_def)
  have same: "a = b \<and> x = y" if "js_nat_str a @ x = js_nat_str b @ y" for a b
    using digits_then_end [OF _ _ that assms(2,3)] js_nat_str_digits js_nat_str_inj by blast
  have signs: "js_int_str a @ u \<noteq> js_int_str b @ v" if "a < 0" "\<not> b < 0" for a b u v
    using that nodash [of "nat b"] by (cases "js_nat_str (nat b)") (auto simp: js_int_str_def)
  consider "m < 0" "n < 0" | "\<not> m < 0" "\<not> n < 0"
    using assms(1) signs [of m n x y] signs [of n m y x] by metis
  then show ?thesis
  proof cases
    case 1
    with assms(1) same [of "nat (- m)" "nat (- n)"] show ?thesis by (auto simp: js_int_str_def)
  next
    case 2
    with assms(1) same [of "nat m" "nat n"] show ?thesis by (auto simp: js_int_str_def)
  qed
qed

subsection \<open>Values\<close>

fun comma_tail :: "('a \<Rightarrow> string) \<Rightarrow> 'a list \<Rightarrow> string" where
  "comma_tail f [] = []"
| "comma_tail f (z # zs) = CHR '','' # f z @ comma_tail f zs"

lemma js_join_tail: "js_join '','' (map f (x # xs)) = f x @ comma_tail f xs"
  by (induction xs arbitrary: x) simp_all

lemma value_end_tail:
  "e = CHR '']'' \<or> e = CHR ''}'' \<Longrightarrow> value_end (comma_tail f ys @ e # x)"
  by (cases ys) (auto simp: value_end_def)

text \<open>A comma-separated list closed by a bracket is read back uniquely if its elements are.\<close>

lemma list_unique:
  assumes "js_join '','' (map f xs) @ e # x = js_join '','' (map f ys) @ e # y"
    and e: "e = CHR '']'' \<or> e = CHR ''}''"
    and el: "\<And>a b u v. a \<in> set xs \<Longrightarrow> b \<in> set ys \<Longrightarrow> value_end u \<Longrightarrow> value_end v \<Longrightarrow> f a @ u = f b @ v \<Longrightarrow> a = b \<and> u = v"
    and ne: "\<And>b. b \<in> set xs \<union> set ys \<Longrightarrow> f b \<noteq> [] \<and> hd (f b) \<noteq> e"
  shows "xs = ys \<and> x = y"
proof -
  let ?t = "comma_tail f"
  have tails: "xs' = ys' \<and> x = y"
    if "?t xs' @ e # x = ?t ys' @ e # y" "set xs' \<subseteq> set xs" "set ys' \<subseteq> set ys" for xs' ys'
    using that
  proof (induction xs' arbitrary: ys')
    case Nil
    with e show ?case by (cases ys') auto
  next
    case (Cons a xs')
    show ?case
    proof (cases ys')
      case Nil
      with Cons.prems e show ?thesis by auto
    next
      case ys: (Cons b ys'')
      have "value_end (?t xs' @ e # x)" "value_end (?t ys'' @ e # y)" using e by (simp_all add: value_end_tail)
      with el [of a b "?t xs' @ e # x" "?t ys'' @ e # y"] Cons.prems ys
      have "a = b \<and> ?t xs' @ e # x = ?t ys'' @ e # y" by auto
      with Cons.IH [of ys''] Cons.prems ys show ?thesis by auto
    qed
  qed
  show ?thesis
  proof (cases xs)
    case Nil
    show ?thesis
    proof (cases ys)
      case ys: (Cons b ys')
      with assms(1) Nil ne [of b] show ?thesis by (cases "f b") (auto simp: js_join_tail simp del: list.map(2))
    qed (use assms(1) Nil in simp)
  next
    case xs: (Cons a xs')
    show ?thesis
    proof (cases ys)
      case Nil
      with assms(1) ne [of a] xs show ?thesis by (cases "f a") (auto simp: js_join_tail simp del: list.map(2))
    next
      case ys: (Cons b ys')
      have "value_end (?t xs' @ e # x)" "value_end (?t ys' @ e # y)" using e by (simp_all add: value_end_tail)
      with el [of a b "?t xs' @ e # x" "?t ys' @ e # y"] assms(1) xs ys
      have "a = b \<and> ?t xs' @ e # x = ?t ys' @ e # y" by (auto simp: js_join_tail simp del: list.map(2))
      with tails [of xs' ys'] xs ys show ?thesis by auto
    qed
  qed
qed

fun first_kind :: "js_value \<Rightarrow> nat" where
  "first_kind JsNull = 0"
| "first_kind (JsBool b) = (if b then 1 else 2)"
| "first_kind (JsNum n) = 3"
| "first_kind (JsStr s) = 4"
| "first_kind (JsArr vs) = 5"
| "first_kind (JsObj ms) = 6"
| "first_kind _ = 7"

definition kind_of_char :: "char \<Rightarrow> nat" where
  "kind_of_char c =
     (if c = CHR ''n'' then 0 else if c = CHR ''t'' then 1 else if c = CHR ''f'' then 2
      else if c = CHR ''-'' \<or> js_digit c then 3 else if c = CHR 0x22 then 4
      else if c = CHR ''['' then 5 else if c = CHR ''{'' then 6 else 7)"

lemma kind_of_digit: "js_digit c \<Longrightarrow> kind_of_char c = 3"
  by (auto simp: kind_of_char_def js_digit_def)

lemma int_str_first: "js_int_str n \<noteq> [] \<and> kind_of_char (hd (js_int_str n)) = 3"
proof -
  have "js_digit (hd (js_nat_str k)) \<and> js_nat_str k \<noteq> []" for k
    using js_nat_str_digits [of k] by (cases "js_nat_str k") auto
  moreover have "kind_of_char (CHR ''-'') = 3" by (simp add: kind_of_char_def)
  ultimately show ?thesis by (simp add: js_int_str_def kind_of_digit)
qed

lemma kind_of_char_simps:
  "kind_of_char (CHR ''n'') = 0" "kind_of_char (CHR ''t'') = 1" "kind_of_char (CHR ''f'') = 2"
  "kind_of_char (CHR 0x22) = 4" "kind_of_char (CHR ''['') = 5" "kind_of_char (CHR ''{'') = 6"
  by code_simp+

lemma render_first:
  "printable v \<Longrightarrow> render v \<noteq> [] \<and> kind_of_char (hd (render v)) = first_kind v"
  using int_str_first
  by (cases v) (simp_all add: kind_of_char_simps serializeString_def)

lemma render_nonempty: "printable v \<Longrightarrow> render v \<noteq> []"
  using render_first by blast

lemma render_close: "printable v \<Longrightarrow> hd (render v) \<noteq> CHR '']'' \<and> hd (render v) \<noteq> CHR ''}''"
proof -
  assume p: "printable v"
  have "kind_of_char (CHR '']'') = 7" "kind_of_char (CHR ''}'') = 7" by code_simp+
  moreover have "first_kind v \<noteq> 7" using p by (cases v) simp_all
  ultimately show ?thesis using render_first [OF p] by metis
qed

lemma same_kind:
  assumes "printable v" "printable v'" "render v @ x = render v' @ y"
  shows "first_kind v = first_kind v'"
proof -
  from assms(3) render_nonempty [OF assms(1)] render_nonempty [OF assms(2)]
  have "hd (render v) = hd (render v')" by (metis hd_append2)
  with render_first [OF assms(1)] render_first [OF assms(2)] show ?thesis by simp
qed

lemma render_unique:
  "printable v \<Longrightarrow> printable v' \<Longrightarrow> render v @ x = render v' @ y \<Longrightarrow> value_end x \<Longrightarrow> value_end y \<Longrightarrow> v = v' \<and> x = y"
proof (induction v arbitrary: v' x y)
  case JsNull
  with same_kind [of JsNull v' x y] show ?case by (cases v') (auto split: if_splits)
next
  case (JsBool b)
  with same_kind [of "JsBool b" v' x y] show ?case by (cases v') (auto split: if_splits)
next
  case (JsNum n)
  with same_kind [of "JsNum n" v' x y] obtain n' where "v' = JsNum n'" by (cases v') (auto split: if_splits)
  with JsNum.prems js_int_str_unique [of n x n' y] show ?case by simp
next
  case (JsStr s)
  with same_kind [of "JsStr s" v' x y] obtain s' where "v' = JsStr s'" by (cases v') (auto split: if_splits)
  with JsStr.prems serializeString_unique [of s x s' y] show ?case by simp
next
  case (JsArr vs)
  with same_kind [of "JsArr vs" v' x y] obtain vs' where v': "v' = JsArr vs'"
    by (cases v') (auto split: if_splits)
  have pr: "list_all printable vs" "list_all printable vs'" using JsArr.prems v' by simp_all
  have "js_join '','' (map render vs) @ CHR '']'' # x = js_join '','' (map render vs') @ CHR '']'' # y"
    using JsArr.prems(3) v' by simp
  then have "vs = vs' \<and> x = y"
  proof (rule list_unique)
    show "a = b \<and> u = v" if "a \<in> set vs" "b \<in> set vs'" "value_end u" "value_end v" "render a @ u = render b @ v" for a b u v
      using JsArr.IH [OF that(1) _ _ that(5,3,4)] pr that by (simp add: list_all_iff)
    show "render b \<noteq> [] \<and> hd (render b) \<noteq> CHR '']''" if "b \<in> set vs \<union> set vs'" for b
      using that pr render_nonempty render_close by (auto simp: list_all_iff)
  qed simp
  with v' show ?case by simp
next
  case (JsObj ms)
  with same_kind [of "JsObj ms" v' x y] obtain ms' where v': "v' = JsObj ms'"
    by (cases v') (auto split: if_splits)
  have pr: "list_all (\<lambda>(k, v). printable v) ms" "list_all (\<lambda>(k, v). printable v) ms'"
    using JsObj.prems v' by simp_all
  have "js_join '','' (map member_text ms) @ CHR ''}'' # x = js_join '','' (map member_text ms') @ CHR ''}'' # y"
    using JsObj.prems(3) unfolding v' render_obj by simp
  then have "ms = ms' \<and> x = y"
  proof (rule list_unique)
    fix a b u v
    assume a: "a \<in> set ms" "b \<in> set ms'" and ends: "value_end u" "value_end v"
      and eq: "member_text a @ u = member_text b @ v"
    from eq serializeString_unique [of "fst a" "CHR '':'' # render (snd a) @ u" "fst b" "CHR '':'' # render (snd b) @ v"]
    have "fst a = fst b" and r: "render (snd a) @ u = render (snd b) @ v" by (simp_all add: member_text_def)
    moreover have "printable (snd a)" "printable (snd b)" using pr a by (auto simp: list_all_iff)
    moreover have "snd a \<in> Basic_BNFs.snds a" by (cases a) simp
    ultimately show "a = b \<and> u = v" using JsObj.IH [OF a(1), of "snd a", OF _ _ _ r ends]
      by (auto simp: prod_eq_iff)
  next
    show "member_text b \<noteq> [] \<and> hd (member_text b) \<noteq> CHR ''}''" for b
      by (simp add: member_text_def serializeString_def)
  qed simp
  with v' show ?case by simp
qed simp_all

text \<open>
  Property C10.  Canonical JSON loses nothing: two values with the same canonical text have the
  same content (same structure, same numbers and flags, same normalized strings, same members
  under the same normalized keys).  Any change of content therefore changes the bytes that are
  hashed.
\<close>

theorem canonicalize_injective:
  assumes "canonicalize nfc v = Inr s" and "canonicalize nfc v' = Inr s"
  shows "canon_value nfc v = canon_value nfc v'"
  using canonicalize_render [OF assms(1)] canonicalize_render [OF assms(2)]
    render_unique [of "canon_value nfc v" "canon_value nfc v'" "[]" "[]"]
  by (simp add: value_end_def)

text \<open>Keys in order and equal contents make equal member lists.\<close>

lemma by_key_le: "by_key a b \<le> 0 \<longleftrightarrow> fst a \<le> fst b"
  by (auto simp: by_key_def js_compare_def)

lemma sorted_keys: "sorted (map fst (js_sort by_key ms))"
proof -
  have "consistent_cmp (by_key :: string \<times> 'b \<Rightarrow> string \<times> 'b \<Rightarrow> int)"
    unfolding by_key_def by (rule consistent_cmp_key [OF consistent_js_compare])
  from sorted_wrt_js_sort [OF this, of ms] show ?thesis by (simp add: by_key_le sorted_wrt_map)
qed

lemma keyed_list_eq:
  assumes "map fst xs = map fst ys" "set xs = set ys" "distinct (map fst xs)"
  shows "xs = ys"
proof -
  have "map_of xs = map_of ys" using assms by (simp add: map_of_inject_set)
  moreover have "map (\<lambda>k. (k, the (map_of zs k))) (map fst zs) = zs" if "distinct (map fst zs)" for zs :: "('a \<times> 'b) list"
    using that by (auto intro!: map_idI)
  ultimately show ?thesis using assms by metis
qed

lemma sort_permuted:
  assumes "mset ms = mset ms'" and "distinct (map fst ms)"
  shows "js_sort by_key ms = js_sort by_key ms'"
proof (rule keyed_list_eq)
  show "map fst (js_sort by_key ms) = map fst (js_sort by_key ms')"
  proof -
    have "sort (map fst ms) = map fst (js_sort by_key ms)"
      by (rule properties_for_sort) (simp_all add: sorted_keys)
    moreover have "sort (map fst ms) = map fst (js_sort by_key ms')"
      by (rule properties_for_sort) (simp_all add: sorted_keys assms(1))
    ultimately show ?thesis by simp
  qed
  show "set (js_sort by_key ms) = set (js_sort by_key ms')" using assms(1) by (metis set_js_sort set_mset_mset)
  have "mset (map fst (js_sort by_key ms)) = mset (map fst ms)" by simp
  with assms(2) show "distinct (map fst (js_sort by_key ms))" by (metis mset_eq_imp_distinct_iff)
qed

text \<open>
  The canonical form of an object does not depend on the order its members were
  inserted in.
\<close>

theorem canonicalize_member_order:
  assumes "mset ms = mset ms'" and "distinct (map fst ms)"
  shows "canonicalize nfc (JsObj ms) = canonicalize nfc (JsObj ms')"
  unfolding canonicalize.simps sort_members [where g = "\<lambda>v. (v = JsUndefined, canonicalize nfc v)"]
    sort_permuted [OF assms] ..

theorem canonicalize_member_order_witness:
  "canonicalize id (JsObj [(''b'', JsNum 1), (''a'', JsBool True)]) =
   canonicalize id (JsObj [(''a'', JsBool True), (''b'', JsNum 1)])"
  using canonicalize_member_order [of "[(''b'', JsNum 1), (''a'', JsBool True)]" "[(''a'', JsBool True), (''b'', JsNum 1)]" id]
  by (simp add: add_mset_commute)

lemma sample_canonical:
  "canonicalize id (JsObj [(''a'', JsStr ''x''), (''b'', JsUndefined)]) = Inr (''{'' @ [CHR 0x22] @ ''a'' @ [CHR 0x22] @ '':'' @ [CHR 0x22] @ ''x'' @ [CHR 0x22] @ ''}'')"
  "canonicalize id (JsObj [(''a'', JsStr ''x'')]) = Inr (''{'' @ [CHR 0x22] @ ''a'' @ [CHR 0x22] @ '':'' @ [CHR 0x22] @ ''x'' @ [CHR 0x22] @ ''}'')"
  by code_simp+

theorem canonicalize_injective_witness:
  "canon_value id (JsObj [(''a'', JsStr ''x''), (''b'', JsUndefined)]) = canon_value id (JsObj [(''a'', JsStr ''x'')])"
  by (rule canonicalize_injective [OF sample_canonical])

end
