(* ===== verification/Outbox.thy ===== *)
theory Outbox
  imports Canonical_Json Versioned_Store
begin

text \<open>
  The transactional outbox, \<open>packages/db/src/reliability/outbox.ts\<close>: the validating writer, the
  claim of due events with leases, and the compare-and-set outcomes (published, rescheduled, dead
  lettered) as functions on the table \<open>outbox_events\<close>.  The database clock in milliseconds, fresh
  identifiers and the rows locked by other transactions are arguments; statements are serialized.
\<close>

section \<open>The table\<close>

datatype outbox_status = Ob_pending | Ob_publishing | Ob_published | Ob_dead_lettered

record outbox_row =
  ob_id :: string
  aggregate_type :: "string option"
  aggregate_id :: "string option"
  aggregate_version :: "int option"
  event_type :: string
  schema_version :: int
  payload_json :: json
  correlation_json :: json
  ob_status :: outbox_status
  available_at :: int
  attempts :: int
  lease_owner :: "string option"
  ob_lease_expires_at :: "int option"
  published_at :: "int option"
  last_error_code :: "string option"
  ob_row_version :: int

record outbox_event_like =
  ev_eventType :: string
  ev_schemaVersion :: int
  ev_payload :: json
  ev_correlation :: json
  ev_aggregateType :: "string option"
  ev_aggregateId :: "string option"
  ev_aggregateVersion :: "int option"

datatype outbox_error = Validation_failed string string | Version_conflict

definition MAX_OUTBOX_ATTEMPTS :: int where "MAX_OUTBOX_ATTEMPTS = 10"

definition MAX_OUTBOX_SERIALIZED_BYTES :: nat where "MAX_OUTBOX_SERIALIZED_BYTES = 65536"

section \<open>The writer\<close>

fun nonEmptyObject :: "json \<Rightarrow> bool" where
  "nonEmptyObject (JObj ms) = (ms \<noteq> [])"
| "nonEmptyObject _ = False"

definition boundedJson :: "json \<Rightarrow> bool" where
  "boundedJson v = (utf8_length (json_text v) < MAX_OUTBOX_SERIALIZED_BYTES)"

definition append_refusal :: "outbox_event_like \<Rightarrow> outbox_error option" where
  "append_refusal e =
     (if length (js_trim (ev_eventType e)) = 0 then Some (Validation_failed ''eventType'' ''non_empty'')
      else if ev_schemaVersion e < 1 then Some (Validation_failed ''schemaVersion'' ''integer_gte_1'')
      else if \<not> nonEmptyObject (ev_payload e) then Some (Validation_failed ''payload'' ''non_empty_object'')
      else if \<not> nonEmptyObject (ev_correlation e) then Some (Validation_failed ''correlation'' ''non_empty_object'')
      else if \<not> boundedJson (ev_payload e) then Some (Validation_failed ''payload'' ''max_bytes_65536'')
      else if \<not> boundedJson (ev_correlation e) then Some (Validation_failed ''correlation'' ''max_bytes_65536'')
      else None)"

definition append_event ::
  "int \<Rightarrow> string \<Rightarrow> outbox_event_like \<Rightarrow> outbox_row list \<Rightarrow> outbox_error + outbox_row list" where
  "append_event now uuid e rows =
     (case append_refusal e of
        Some err \<Rightarrow> Inl err
      | None \<Rightarrow> Inr (rows @
          [\<lparr>ob_id = uuid, aggregate_type = ev_aggregateType e, aggregate_id = ev_aggregateId e,
            aggregate_version = ev_aggregateVersion e, event_type = ev_eventType e, schema_version = ev_schemaVersion e,
            payload_json = ev_payload e, correlation_json = ev_correlation e, ob_status = Ob_pending, available_at = now,
            attempts = 0, lease_owner = None, ob_lease_expires_at = None, published_at = None, last_error_code = None,
            ob_row_version = 1\<rparr>]))"

section \<open>Lower bounds on the size of a text\<close>

lemma utf8_append: "utf8_length (a @ b) = utf8_length a + utf8_length b"
  by (simp add: utf8_length_def)

lemma utf8_escape: "utf8_length [c] \<le> utf8_length (escape_char c)"
proof (cases "escape_tail (of_char c)")
  case None
  then show ?thesis by (simp add: escape_char_tail)
next
  case (Some t)
  then have "(of_char c :: nat) < 128" by (auto simp: escape_tail_def split: if_splits)
  with Some show ?thesis by (simp add: escape_char_tail utf8_length_def)
qed

lemma utf8_serialize: "utf8_length s + 2 \<le> utf8_length (serializeString id s)"
proof -
  have "utf8_length s \<le> utf8_length (concat (map escape_char s))"
  proof (induction s)
    case (Cons c s)
    have "utf8_length (c # s) = utf8_length [c] + utf8_length s" by (simp add: utf8_length_def)
    with Cons utf8_escape [of c] show ?case by (simp add: utf8_append)
  qed (simp add: utf8_length_def)
  moreover have "utf8_length [CHR 0x22] = 1" by code_simp
  ultimately show ?thesis by (simp only: serializeString_def id_apply utf8_append)
qed

lemma utf8_join: "x \<in> set xs \<Longrightarrow> utf8_length x \<le> utf8_length (js_join sep xs)"
  by (induction sep xs rule: js_join.induct) (auto simp: utf8_append)

lemma utf8_member: "(k, v) \<in> set ms \<Longrightarrow> utf8_length (serializeString id k) + utf8_length (json_text v) + 3 \<le> utf8_length (json_text (JObj ms))"
proof -
  assume "(k, v) \<in> set ms"
  then have "serializeString id k @ '':'' @ json_text v \<in> set (map (\<lambda>(k, v). serializeString id k @ '':'' @ json_text v) ms)" by force
  from utf8_join [OF this, of "'',''"] have "utf8_length (serializeString id k @ '':'' @ json_text v) \<le>
      utf8_length (js_join '','' (map (\<lambda>(k, v). serializeString id k @ '':'' @ json_text v) ms))" .
  moreover have "utf8_length '':'' = 1" "utf8_length ''{'' = 1" "utf8_length ''}'' = 1" by code_simp+
  ultimately show ?thesis by (simp only: json_text.simps utf8_append)
qed

section \<open>Claim and outcomes\<close>

definition claimable :: "int \<Rightarrow> outbox_row \<Rightarrow> bool" where
  "claimable now r \<longleftrightarrow>
     ob_status r = Ob_pending \<and> available_at r \<le> now \<or>
     ob_status r = Ob_publishing \<and> (case ob_lease_expires_at r of None \<Rightarrow> False | Some e \<Rightarrow> e < now)"

definition by_available :: "outbox_row \<Rightarrow> outbox_row \<Rightarrow> int" where
  "by_available a b =
     (if available_at a \<noteq> available_at b then available_at a - available_at b else js_compare (ob_id a) (ob_id b))"

definition claimed_row :: "int \<Rightarrow> string \<Rightarrow> int \<Rightarrow> outbox_row \<Rightarrow> outbox_row" where
  "claimed_row now owner lease r =
     r\<lparr>ob_status := Ob_publishing, lease_owner := Some owner, ob_lease_expires_at := Some (now + lease),
       ob_row_version := ob_row_version r + 1\<rparr>"

text \<open>\<open>locked\<close> are the rows other transactions hold, which \<open>SKIP LOCKED\<close> passes over.\<close>

definition claim_ids :: "int \<Rightarrow> string list \<Rightarrow> nat \<Rightarrow> outbox_row list \<Rightarrow> string list" where
  "claim_ids now locked batch rows =
     map ob_id (take batch (js_sort by_available (filter (\<lambda>r. claimable now r \<and> ob_id r \<notin> set locked) rows)))"

definition claim_events ::
  "int \<Rightarrow> string list \<Rightarrow> nat \<Rightarrow> int \<Rightarrow> string \<Rightarrow> outbox_row list \<Rightarrow> outbox_row list \<times> outbox_row list" where
  "claim_events now locked batch lease owner rows =
     (let ids = claim_ids now locked batch rows;
          rows' = map (\<lambda>r. if ob_id r \<in> set ids then claimed_row now owner lease r else r) rows
      in (rows', filter (\<lambda>r. ob_id r \<in> set ids) rows'))"

datatype outbox_outcome = Publish int | Reschedule int string | Dead_letter string

definition outcome_row :: "outbox_outcome \<Rightarrow> outbox_row \<Rightarrow> outbox_row" where
  "outcome_row oc r =
     (case oc of
        Publish now \<Rightarrow>
          r\<lparr>ob_status := Ob_published, published_at := Some now, lease_owner := None, ob_lease_expires_at := None,
            ob_row_version := ob_row_version r + 1\<rparr>
      | Reschedule nextAt code \<Rightarrow>
          r\<lparr>attempts := attempts r + 1,
            ob_status := (if attempts r + 1 \<ge> MAX_OUTBOX_ATTEMPTS then Ob_dead_lettered else Ob_pending),
            available_at := (if attempts r + 1 \<ge> MAX_OUTBOX_ATTEMPTS then available_at r else nextAt),
            last_error_code := Some (take 128 code), lease_owner := None, ob_lease_expires_at := None,
            ob_row_version := ob_row_version r + 1\<rparr>
      | Dead_letter code \<Rightarrow>
          r\<lparr>ob_status := Ob_dead_lettered, last_error_code := Some (take 128 code), lease_owner := None,
            ob_lease_expires_at := None, ob_row_version := ob_row_version r + 1\<rparr>)"

definition outcome_guard :: "string \<Rightarrow> int \<Rightarrow> outbox_row \<Rightarrow> bool" where
  "outcome_guard i n r \<longleftrightarrow> ob_id r = i \<and> ob_row_version r = n \<and> ob_status r = Ob_publishing"

text \<open>The UPDATE behind all three outcomes: the new table and the row RETURNING gives.\<close>

definition outcome_update ::
  "outbox_row list \<Rightarrow> string \<Rightarrow> int \<Rightarrow> outbox_outcome \<Rightarrow> outbox_row list \<times> outbox_row option" where
  "outcome_update rows i n oc =
     (map (\<lambda>r. if outcome_guard i n r then outcome_row oc r else r) rows,
      map_option (outcome_row oc) (find (outcome_guard i n) rows))"

definition markPublished :: "int \<Rightarrow> string \<Rightarrow> int \<Rightarrow> outbox_row list \<Rightarrow> outbox_row list \<times> (outbox_error + unit)" where
  "markPublished now i n rows =
     (case outcome_update rows i n (Publish now) of
        (rows', None) \<Rightarrow> (rows', Inl Version_conflict) | (rows', Some _) \<Rightarrow> (rows', Inr ()))"

definition reschedule ::
  "string \<Rightarrow> int \<Rightarrow> int \<Rightarrow> string \<Rightarrow> outbox_row list \<Rightarrow> outbox_row list \<times> (outbox_error + outbox_status \<times> int)" where
  "reschedule i n nextAt code rows =
     (case outcome_update rows i n (Reschedule nextAt code) of
        (rows', None) \<Rightarrow> (rows', Inl Version_conflict)
      | (rows', Some r) \<Rightarrow> (rows', Inr (ob_status r, attempts r)))"

definition deadLetter_event ::
  "string \<Rightarrow> int \<Rightarrow> string \<Rightarrow> outbox_row list \<Rightarrow> outbox_row list \<times> (outbox_error + unit)" where
  "deadLetter_event i n code rows =
     (case outcome_update rows i n (Dead_letter code) of
        (rows', None) \<Rightarrow> (rows', Inl Version_conflict) | (rows', Some _) \<Rightarrow> (rows', Inr ()))"

section \<open>Optimistic concurrency\<close>

definition outbox_keyed :: "outbox_row list \<Rightarrow> bool" where
  "outbox_keyed rows = distinct (map ob_id rows)"

definition event_row :: "outbox_row list \<Rightarrow> string \<Rightarrow> outbox_row option" where
  "event_row rows i = find (\<lambda>r. ob_id r = i) rows"

definition event_version :: "outbox_row list \<Rightarrow> string \<Rightarrow> int option" where
  "event_version rows i = map_option ob_row_version (event_row rows i)"

definition cas_outbox :: "outbox_row list \<Rightarrow> string \<Rightarrow> int \<Rightarrow> outbox_outcome \<Rightarrow> outbox_row list \<times> bool" where
  "cas_outbox rows i n oc = (case outcome_update rows i n oc of (rows', r) \<Rightarrow> (rows', r \<noteq> None))"

lemma outcome_row_simps [simp]:
  "ob_id (outcome_row oc r) = ob_id r" "ob_row_version (outcome_row oc r) = ob_row_version r + 1"
  "ob_status (outcome_row oc r) \<noteq> Ob_publishing"
  by (cases oc; simp add: outcome_row_def)+

lemma claimed_row_simps [simp]:
  "ob_id (claimed_row now owner lease r) = ob_id r"
  "ob_row_version (claimed_row now owner lease r) = ob_row_version r + 1"
  by (simp_all add: claimed_row_def)

lemma event_row_id: "event_row rows i = Some r \<Longrightarrow> ob_id r = i \<and> r \<in> set rows"
  unfolding event_row_def by (drule find_sound) simp

lemma event_row_outcome:
  "event_row (fst (outcome_update rows i n oc)) j =
     map_option (\<lambda>r. if outcome_guard i n r then outcome_row oc r else r) (event_row rows j)"
  by (simp add: event_row_def outcome_update_def find_map_keep)

lemma event_row_claim:
  "event_row (fst (claim_events now locked batch lease owner rows)) j =
     map_option (\<lambda>r. if ob_id r \<in> set (claim_ids now locked batch rows) then claimed_row now owner lease r else r)
       (event_row rows j)"
  by (simp add: event_row_def claim_events_def Let_def find_map_keep)

lemma outcome_returns:
  assumes "outbox_keyed rows"
  shows "snd (outcome_update rows i n oc) =
    (case event_row rows i of
       None \<Rightarrow> None
     | Some r \<Rightarrow> if ob_row_version r = n \<and> ob_status r = Ob_publishing then Some (outcome_row oc r) else None)"
proof (cases "find (outcome_guard i n) rows")
  case None
  then show ?thesis
    by (auto simp: outcome_update_def find_None_iff outcome_guard_def dest!: event_row_id split: option.splits)
next
  case (Some r)
  from find_sound [OF Some] have r: "outcome_guard i n r" "r \<in> set rows" by auto
  with assms find_unique [of ob_id rows r] have "event_row rows i = Some r"
    by (simp add: event_row_def outbox_keyed_def outcome_guard_def)
  with Some r show ?thesis by (simp add: outcome_update_def outcome_guard_def)
qed

lemma outcome_refused_same:
  assumes "outbox_keyed rows" and "snd (outcome_update rows i n oc) = None"
  shows "fst (outcome_update rows i n oc) = rows"
proof -
  have "\<not> outcome_guard i n r" if "r \<in> set rows" for r
    using assms(2) that by (auto simp: outcome_update_def find_None_iff)
  then show ?thesis by (auto simp: outcome_update_def intro!: map_idI)
qed

lemma keyed_outcome [simp]: "outbox_keyed (fst (outcome_update rows i n oc)) = outbox_keyed rows"
  by (simp add: outbox_keyed_def outcome_update_def comp_def if_distrib cong: if_cong)

lemma keyed_claim [simp]: "outbox_keyed (fst (claim_events now locked batch lease owner rows)) = outbox_keyed rows"
  by (simp add: outbox_keyed_def claim_events_def Let_def comp_def if_distrib cong: if_cong)

interpretation outbox_cas: versioned_store cas_outbox event_version outbox_keyed
proof unfold_locales
  fix s k n u s' v b k'
  assume inv: "outbox_keyed s"
  show "outbox_keyed (fst (cas_outbox s k n u))" using inv by (simp add: cas_outbox_def case_prod_beta)
  show "v = n \<and> event_version s' k = Some (n + 1)"
    if c: "cas_outbox s k n u = (s', True)" and v: "event_version s k = Some v"
  proof -
    from c have s': "s' = fst (outcome_update s k n u)" and "snd (outcome_update s k n u) \<noteq> None"
      by (auto simp: cas_outbox_def split: prod.splits)
    with outcome_returns [OF inv, of k n u] obtain r where
      r: "event_row s k = Some r" "ob_row_version r = n" "ob_status r = Ob_publishing"
      by (auto split: option.splits if_splits)
    moreover from event_row_id [OF r(1)] have "ob_id r = k" by simp
    ultimately show ?thesis using v by (simp add: event_version_def s' event_row_outcome outcome_guard_def)
  qed
  show "s' = s" if "cas_outbox s k n u = (s', False)"
    using that outcome_refused_same [OF inv, of k n u] by (auto simp: cas_outbox_def split: prod.splits)
  show "event_version s' k' = event_version s k'" if c: "cas_outbox s k n u = (s', b)" and "k' \<noteq> k"
  proof -
    from c have "s' = fst (outcome_update s k n u)" by (auto simp: cas_outbox_def split: prod.splits)
    with \<open>k' \<noteq> k\<close> show ?thesis
      by (cases "event_row s k'") (auto simp: event_version_def event_row_outcome outcome_guard_def dest: event_row_id)
  qed
qed
section \<open>Histories of the table\<close>

datatype outbox_op =
    Ob_append int string outbox_event_like
  | Ob_claim int "string list" nat int string
  | Ob_outcome string int outbox_outcome

text \<open>An append whose identifier exists already violates the primary key and changes nothing.\<close>

fun outbox_apply :: "outbox_op \<Rightarrow> outbox_row list \<Rightarrow> outbox_row list" where
  "outbox_apply (Ob_append now uuid e) rows =
     (case append_event now uuid e rows of Inl _ \<Rightarrow> rows
      | Inr rows' \<Rightarrow> if uuid \<in> ob_id ` set rows then rows else rows')"
| "outbox_apply (Ob_claim now locked batch lease owner) rows = fst (claim_events now locked batch lease owner rows)"
| "outbox_apply (Ob_outcome i n oc) rows = fst (outcome_update rows i n oc)"

lemma keyed_apply: "outbox_keyed rows \<Longrightarrow> outbox_keyed (outbox_apply op rows)"
  by (cases op) (auto simp: append_event_def outbox_keyed_def [of "_ @ _"] simp del: keyed_claim
      simp add: keyed_claim outbox_keyed_def [of rows] split: option.splits sum.splits)

lemma append_row:
  "event_row rows j = Some r \<Longrightarrow> event_row (outbox_apply (Ob_append now uuid e) rows) j = Some r"
  by (auto simp: append_event_def event_row_def find_snoc split: option.splits)

lemma event_row_step:
  assumes "event_row rows i = Some r"
  shows "\<exists>r'. event_row (outbox_apply op rows) i = Some r' \<and> ob_row_version r \<le> ob_row_version r' \<and>
    (r' = r \<or> r' = (case op of Ob_claim now locked batch lease owner \<Rightarrow> claimed_row now owner lease r
                    | Ob_outcome _ _ oc \<Rightarrow> outcome_row oc r | _ \<Rightarrow> r))"
proof (cases op)
  case (Ob_append now uuid e)
  with append_row [OF assms] show ?thesis by simp
next
  case (Ob_claim now locked batch lease owner)
  with assms show ?thesis by (simp add: event_row_claim)
next
  case (Ob_outcome i' n oc)
  with assms show ?thesis by (simp add: event_row_outcome)
qed

lemma version_run:
  assumes "event_version rows i = Some v"
  shows "\<exists>v'. event_version (fold outbox_apply ops rows) i = Some v' \<and> v \<le> v'"
  using assms
proof (induction ops arbitrary: rows v)
  case Nil
  then show ?case by simp
next
  case (Cons op ops)
  from Cons.prems obtain r where r: "event_row rows i = Some r" "ob_row_version r = v"
    by (auto simp: event_version_def)
  from event_row_step [OF r(1), of op] obtain r' where r': "event_row (outbox_apply op rows) i = Some r'"
    "ob_row_version r \<le> ob_row_version r'" by blast
  from Cons.IH [of "outbox_apply op rows" "ob_row_version r'"] r r' show ?case
    by (force simp: event_version_def)
qed

lemma keyed_run: "outbox_keyed rows \<Longrightarrow> outbox_keyed (fold outbox_apply ops rows)"
  by (induction ops arbitrary: rows) (simp_all add: keyed_apply)

lemma passed_version_refused:
  assumes "outbox_keyed rows" and "event_version rows i = Some v" and "n < v"
  shows "outcome_update rows i n oc = (rows, None)"
proof -
  from assms(2) obtain r where "event_row rows i = Some r" "ob_row_version r = v" by (auto simp: event_version_def)
  with outcome_returns [OF assms(1), of i n oc] assms(3) have "snd (outcome_update rows i n oc) = None" by simp
  with outcome_refused_same [OF assms(1), of i n oc] show ?thesis by (simp add: prod_eq_iff)
qed

text \<open>
  One outcome per claim: once an outcome (published, rescheduled or dead lettered)
  was recorded for an event at a row version, every later outcome at that version is refused and
  changes nothing, whatever appends, claims and outcomes the database runs in between.
\<close>

theorem one_outcome_per_claim:
  assumes "outbox_keyed rows" and "snd (outcome_update rows i n oc) \<noteq> None"
    and "rows' = fold outbox_apply ops (fst (outcome_update rows i n oc))"
  shows "outcome_update rows' i n oc' = (rows', None)"
proof -
  let ?s = "fst (outcome_update rows i n oc)"
  from assms(1,2) obtain r where r: "event_row rows i = Some r" "ob_row_version r = n" "ob_status r = Ob_publishing"
    using outcome_returns [OF assms(1), of i n oc] by (auto split: option.splits if_splits)
  with event_row_id [OF r(1)] have "event_version ?s i = Some (n + 1)"
    by (simp add: event_version_def event_row_outcome outcome_guard_def)
  from version_run [OF this, of ops] obtain v' where "event_version rows' i = Some v'" "n + 1 \<le> v'"
    unfolding assms(3) by blast
  moreover have "outbox_keyed rows'" unfolding assms(3) using assms(1) by (intro keyed_run) simp
  ultimately show ?thesis by (intro passed_version_refused) auto
qed

lemma claimed_in_table:
  assumes "outbox_keyed rows" and "rec \<in> set (snd (claim_events now locked batch lease owner rows))"
  shows "event_row (fst (claim_events now locked batch lease owner rows)) (ob_id rec) = Some rec"
proof -
  let ?c = "claim_events now locked batch lease owner rows"
  from assms(2) have "rec \<in> set (fst ?c)" by (auto simp: claim_events_def Let_def)
  moreover have "outbox_keyed (fst ?c)" using assms(1) by simp
  ultimately show ?thesis using find_unique [of ob_id "fst ?c" rec] by (simp add: event_row_def outbox_keyed_def)
qed

text \<open>
  A stale publisher is fenced: when an event was claimed, and later claimed again
  because the lease ran out or it was rescheduled, the first claimer's outcome at the version it
  was given is refused with a version conflict and leaves the table as it is.
\<close>

theorem stale_publisher_is_fenced:
  assumes "outbox_keyed rows" and "rec1 \<in> set (snd (claim_events now1 locked1 batch1 lease1 owner1 rows))"
    and "rows1 = fold outbox_apply ops (fst (claim_events now1 locked1 batch1 lease1 owner1 rows))"
    and "rec2 \<in> set (snd (claim_events now2 locked2 batch2 lease2 owner2 rows1))" and "ob_id rec2 = ob_id rec1"
    and "rows2 = fold outbox_apply ops' (fst (claim_events now2 locked2 batch2 lease2 owner2 rows1))"
  shows "markPublished t (ob_id rec1) (ob_row_version rec1) rows2 = (rows2, Inl Version_conflict) \<and>
    reschedule (ob_id rec1) (ob_row_version rec1) next_at code rows2 = (rows2, Inl Version_conflict) \<and>
    deadLetter_event (ob_id rec1) (ob_row_version rec1) code rows2 = (rows2, Inl Version_conflict)"
proof -
  let ?i = "ob_id rec1" and ?c1 = "fst (claim_events now1 locked1 batch1 lease1 owner1 rows)"
  have k1: "outbox_keyed rows1" unfolding assms(3) using assms(1) by (intro keyed_run) simp
  have k2: "outbox_keyed rows2" unfolding assms(6) using k1 by (intro keyed_run) simp
  from claimed_in_table [OF assms(1,2)] have "event_version ?c1 ?i = Some (ob_row_version rec1)"
    by (simp add: event_version_def)
  from version_run [OF this, of ops] obtain r where r: "event_row rows1 ?i = Some r" "ob_row_version rec1 \<le> ob_row_version r"
    unfolding assms(3) [symmetric] by (auto simp: event_version_def)
  from claimed_in_table [OF k1 assms(4)] have rec2: "event_row (fst (claim_events now2 locked2 batch2 lease2 owner2 rows1)) ?i = Some rec2"
    by (simp add: assms(5))
  moreover have "ob_id rec2 \<in> set (claim_ids now2 locked2 batch2 rows1)"
    using assms(4) by (auto simp: claim_events_def Let_def)
  ultimately have "ob_row_version rec2 = ob_row_version r + 1"
    using r(1) event_row_id [OF r(1)] assms(5) by (auto simp: event_row_claim)
  with rec2 r(2) version_run [of "fst (claim_events now2 locked2 batch2 lease2 owner2 rows1)" ?i "ob_row_version rec2" ops']
  obtain v where v: "event_version rows2 ?i = Some v" "ob_row_version rec1 < v"
    unfolding assms(6) [symmetric] by (auto simp: event_version_def)
  show ?thesis using passed_version_refused [OF k2 v]
    by (simp add: markPublished_def reschedule_def deadLetter_event_def)
qed

definition event_wf :: "outbox_row \<Rightarrow> bool" where
  "event_wf r \<longleftrightarrow> 0 \<le> attempts r \<and> attempts r \<le> MAX_OUTBOX_ATTEMPTS \<and>
     (ob_status r \<in> {Ob_pending, Ob_publishing} \<longrightarrow> attempts r < MAX_OUTBOX_ATTEMPTS) \<and>
     (ob_status r = Ob_publishing \<longleftrightarrow> lease_owner r \<noteq> None) \<and>
     (ob_status r = Ob_published \<longleftrightarrow> published_at r \<noteq> None)"

lemma claim_ids_claimable:
  assumes "outbox_keyed rows" and "r \<in> set rows" and "ob_id r \<in> set (claim_ids now locked batch rows)"
  shows "claimable now r"
proof -
  from assms(3) obtain r' where "r' \<in> set rows" "claimable now r'" "ob_id r' = ob_id r"
    by (auto simp: claim_ids_def dest!: in_set_takeD)
  with assms(1,2) show ?thesis by (metis distinct_map inj_on_eq_iff outbox_keyed_def)
qed

lemma event_wf_outcome: "event_wf r \<Longrightarrow> ob_status r = Ob_publishing \<Longrightarrow> event_wf (outcome_row oc r)"
  by (cases oc; cases "attempts r + 1 \<ge> MAX_OUTBOX_ATTEMPTS") (simp_all add: event_wf_def outcome_row_def)

lemma event_wf_apply:
  assumes "outbox_keyed rows" and "list_all event_wf rows"
  shows "list_all event_wf (outbox_apply op rows)"
proof (cases op)
  case (Ob_append now uuid e)
  with assms show ?thesis
    by (auto simp: append_event_def event_wf_def MAX_OUTBOX_ATTEMPTS_def split: option.splits)
next
  case (Ob_claim now locked batch lease owner)
  have "event_wf (claimed_row now owner lease r)" if "event_wf r" "claimable now r" for r
    using that by (auto simp: event_wf_def claimed_row_def claimable_def)
  with claim_ids_claimable [OF assms(1)] assms(2) Ob_claim show ?thesis
    by (auto simp: claim_events_def Let_def list_all_iff)
next
  case (Ob_outcome i n oc)
  with assms(2) show ?thesis by (auto simp: outcome_update_def outcome_guard_def list_all_iff event_wf_outcome)
qed

definition terminal_event :: "outbox_row \<Rightarrow> bool" where
  "terminal_event r \<longleftrightarrow> ob_status r \<in> {Ob_published, Ob_dead_lettered}"

lemma terminal_apply:
  assumes "outbox_keyed rows" and "event_row rows i = Some r" and "terminal_event r"
  shows "event_row (outbox_apply op rows) i = Some r"
proof (cases op)
  case (Ob_append now uuid e)
  with append_row [OF assms(2)] show ?thesis by simp
next
  case (Ob_claim now locked batch lease owner)
  from assms(3) have "\<not> claimable now r" by (auto simp: claimable_def terminal_event_def)
  with claim_ids_claimable [OF assms(1)] event_row_id [OF assms(2)] have "ob_id r \<notin> set (claim_ids now locked batch rows)" by blast
  with Ob_claim assms(2) show ?thesis by (simp add: event_row_claim)
next
  case (Ob_outcome j n oc)
  from assms(3) have "\<not> outcome_guard j n r" by (auto simp: outcome_guard_def terminal_event_def)
  with Ob_outcome assms(2) show ?thesis by (simp add: event_row_outcome)
qed

text \<open>
  The lifecycle of an event: from an empty table, after any history, identifiers
  are unique, attempts stay between zero and ten and below ten while the event is open, exactly the
  publishing events have a lease owner and exactly the published ones a publication time; and a
  published or dead-lettered event never changes again.
\<close>

theorem outbox_lifecycle:
  "let rows = fold outbox_apply ops [] in
     outbox_keyed rows \<and> list_all event_wf rows \<and>
     (\<forall>i r. event_row rows i = Some r \<and> terminal_event r \<longrightarrow> event_row (fold outbox_apply ops' rows) i = Some r)"
proof -
  let ?rows = "fold outbox_apply ops []"
  have keyed: "outbox_keyed ?rows" by (rule keyed_run) (simp add: outbox_keyed_def)
  have "outbox_keyed rows \<Longrightarrow> list_all event_wf rows \<Longrightarrow> list_all event_wf (fold outbox_apply ops rows)" for rows
    by (induction ops arbitrary: rows) (simp_all add: event_wf_apply keyed_apply)
  then have wf: "list_all event_wf ?rows" by (simp add: outbox_keyed_def)
  have "event_row (fold outbox_apply ops' rows) i = Some r"
    if "outbox_keyed rows" "event_row rows i = Some r" "terminal_event r" for rows i r
    using that by (induction ops' arbitrary: rows) (simp_all add: keyed_apply terminal_apply)
  with keyed wf show ?thesis by (auto simp: Let_def)
qed

section \<open>Witnesses\<close>

definition sample_outbox_event :: outbox_event_like where
  "sample_outbox_event =
     \<lparr>ev_eventType = ''workflow.queued'', ev_schemaVersion = 1, ev_payload = JObj [(''runId'', JStr ''r'')],
      ev_correlation = JObj [(''runId'', JStr ''r'')], ev_aggregateType = None, ev_aggregateId = None,
      ev_aggregateVersion = None\<rparr>"

definition sample_outbox :: "outbox_row list" where
  "sample_outbox =
     [\<lparr>ob_id = ''e'', aggregate_type = None, aggregate_id = None, aggregate_version = None, event_type = ''workflow.queued'',
       schema_version = 1, payload_json = ev_payload sample_outbox_event, correlation_json = ev_correlation sample_outbox_event,
       ob_status = Ob_pending, available_at = 5, attempts = 0, lease_owner = None, ob_lease_expires_at = None,
       published_at = None, last_error_code = None, ob_row_version = 1\<rparr>]"

lemma sample_outbox_keyed: "outbox_keyed sample_outbox"
  by (simp add: outbox_keyed_def sample_outbox_def)

definition claimed_sample :: "outbox_row list" where
  "claimed_sample = fst (claim_events 10 [] 5 100 ''p1'' sample_outbox)"

lemma claimed_sample_simp:
  "claimed_sample = [claimed_row 10 ''p1'' 100 (hd sample_outbox)]"
  "snd (claim_events 10 [] 5 100 ''p1'' sample_outbox) = [claimed_row 10 ''p1'' 100 (hd sample_outbox)]"
  by (simp_all add: claimed_sample_def claim_events_def claim_ids_def sample_outbox_def claimable_def js_sort_def)

theorem one_outcome_per_claim_witness:
  "outcome_update (fst (outcome_update claimed_sample ''e'' 2 (Publish 20))) ''e'' 2 (Dead_letter ''x'') =
     (fst (outcome_update claimed_sample ''e'' 2 (Publish 20)), None)"
proof -
  have "outbox_keyed claimed_sample" using sample_outbox_keyed by (simp add: claimed_sample_def)
  moreover have "snd (outcome_update claimed_sample ''e'' 2 (Publish 20)) \<noteq> None"
    by (simp add: claimed_sample_simp sample_outbox_def outcome_update_def outcome_guard_def claimed_row_def)
  ultimately show ?thesis
    using one_outcome_per_claim [of claimed_sample "''e''" 2 "Publish 20" _ "[]" "Dead_letter ''x''"] by simp
qed

theorem stale_publisher_is_fenced_witness:
  "let rows2 = fst (claim_events 200 [] 5 100 ''p2'' claimed_sample)
   in markPublished 210 ''e'' 2 rows2 = (rows2, Inl Version_conflict)"
proof -
  let ?r1 = "claimed_row 10 ''p1'' 100 (hd sample_outbox)" and ?r2 = "claimed_row 200 ''p2'' 100 (claimed_row 10 ''p1'' 100 (hd sample_outbox))"
  have "?r1 \<in> set (snd (claim_events 10 [] 5 100 ''p1'' sample_outbox))" by (simp add: claimed_sample_simp)
  moreover have "?r2 \<in> set (snd (claim_events 200 [] 5 100 ''p2'' claimed_sample))"
    by (simp add: claimed_sample_simp claim_events_def claim_ids_def claimable_def js_sort_def sample_outbox_def claimed_row_def)
  ultimately have "markPublished 210 (ob_id ?r1) (ob_row_version ?r1) (fst (claim_events 200 [] 5 100 ''p2'' claimed_sample)) =
      (fst (claim_events 200 [] 5 100 ''p2'' claimed_sample), Inl Version_conflict)"
    using stale_publisher_is_fenced [OF sample_outbox_keyed, of ?r1 10 "[]" 5 100 "''p1''" claimed_sample "[]" ?r2 200 "[]" 5 100
      "''p2''" "fst (claim_events 200 [] 5 100 ''p2'' claimed_sample)" "[]" 210]
    by (simp add: claimed_sample_def del: claimed_row_simps) simp
  then show ?thesis by (simp add: sample_outbox_def)
qed

theorem outbox_lifecycle_witness:
  "let rows = fold outbox_apply [Ob_append 5 ''e'' sample_outbox_event, Ob_claim 6 [] 1 10 ''p''] []
   in list_all event_wf rows"
  using outbox_lifecycle [of "[Ob_append 5 ''e'' sample_outbox_event, Ob_claim 6 [] 1 10 ''p'']" "[]"]
  unfolding Let_def by blast

end
