(* ===== verification/Approval_Durable.thy ===== *)
theory Approval_Durable
  imports Approval_Store Outbox
begin

text \<open>
  The resolution of an approval over the database: \<open>DurableApprovals\<close> of
  \<open>apps/api/src/composition/container.ts\<close>, on the tables of \<open>Approval_Store\<close> and \<open>Outbox\<close>.  A resolution is one
  transaction; the row lock its first statement takes excludes every other writer of the approval until it ends, so it
  is one step of a history.  An error of the program inside the transaction is caught there, and the transaction commits what
  was written before it; an error of the database aborts the transaction, which then has no effect.
\<close>

section \<open>DurableApprovals\<close>

record approvals_db =
  ad_policy :: policy_db
  ad_outbox :: "outbox_row list"

datatype resolution = Resolve_approved | Resolve_rejected

fun resolution_status :: "resolution \<Rightarrow> db_status" where
  "resolution_status Resolve_approved = Db_approved"
| "resolution_status Resolve_rejected = Db_rejected"

record resolve_options =
  ro_idempotencyKey :: string
  ro_expectedVersion :: int

datatype resolve_answer = Resolve_ok | Resolve_refused string

definition approval_run_id :: "approval_row \<Rightarrow> string" where
  "approval_run_id r = (case workflow_run_id r of None \<Rightarrow> [] | Some w \<Rightarrow> w)"

definition resolve_key :: "string \<Rightarrow> resolution \<Rightarrow> resolve_options option \<Rightarrow> string" where
  "resolve_key approvalId res options =
     (case options of
        Some opts \<Rightarrow> ro_idempotencyKey opts
      | None \<Rightarrow> ''web:'' @ approvalId @ '':'' @ db_status_str (resolution_status res))"

definition resolve_transition :: "string \<Rightarrow> resolution \<Rightarrow> string \<Rightarrow> resolve_options option \<Rightarrow> status_transition" where
  "resolve_transition approvalId res userId options =
     \<lparr>st_from = Db_pending, st_to = resolution_status res, st_actorType = Db_user, st_actorId = userId,
      st_reasonCode = (if res = Resolve_approved then ''user_approved'' else ''user_rejected''),
      st_commandKey = resolve_key approvalId res options, st_resolutionComment = None\<rparr>"

definition resume_event :: "string \<Rightarrow> string \<Rightarrow> int \<Rightarrow> string \<Rightarrow> outbox_event_like" where
  "resume_event approvalId runId expected key =
     \<lparr>ev_eventType = ''approval.resume_requested'', ev_schemaVersion = 1,
      ev_payload = JObj [(''approvalId'', JStr approvalId), (''workflowRunId'', JStr runId), (''action'', JStr ''resume''),
        (''resolutionVersion'', JNum (expected + 1))],
      ev_correlation = JObj [(''approvalId'', JStr approvalId), (''workflowRunId'', JStr runId), (''idempotencyKey'', JStr key)],
      ev_aggregateType = Some ''approval'', ev_aggregateId = Some approvalId, ev_aggregateVersion = None\<rparr>"

definition version_conflict_answer :: resolve_answer where
  "version_conflict_answer = Resolve_refused ''APPROVAL_VERSION_CONFLICT''"

text \<open>
  After the transition: the event of an approval is appended; a refusal of the writer is caught and the
  transition stays, a duplicate identifier aborts the transaction, and the answer is the same.
\<close>

definition finish_resolution ::
  "int \<Rightarrow> string \<Rightarrow> string \<Rightarrow> string \<Rightarrow> int \<Rightarrow> resolution \<Rightarrow> string \<Rightarrow> policy_db \<Rightarrow> approvals_db \<Rightarrow> approvals_db \<times> resolve_answer" where
  "finish_resolution now uuid approvalId runId expected res key p' db =
     (if res = Resolve_rejected then (db\<lparr>ad_policy := p'\<rparr>, Resolve_ok)
      else case append_event now uuid (resume_event approvalId runId expected key) (ad_outbox db) of
        Inl _ \<Rightarrow> (db\<lparr>ad_policy := p'\<rparr>, version_conflict_answer)
      | Inr rows \<Rightarrow>
          if uuid \<in> ob_id ` set (ad_outbox db) then (db, version_conflict_answer)
          else (\<lparr>ad_policy = p', ad_outbox = rows\<rparr>, Resolve_ok))"

definition durable_resolve ::
  "int \<Rightarrow> string \<Rightarrow> string \<Rightarrow> string \<Rightarrow> resolution \<Rightarrow> string \<Rightarrow> resolve_options option \<Rightarrow> approvals_db \<Rightarrow>
   approvals_db \<times> resolve_answer" where
  "durable_resolve now uuid runId approvalId res userId options db =
     (case getById approvalId (ad_policy db) of
        None \<Rightarrow> (db, Resolve_refused ''APPROVAL_UNKNOWN'')
      | Some row \<Rightarrow>
          if runId \<noteq> [] \<and> approval_run_id row \<noteq> runId then (db, Resolve_refused ''APPROVAL_UNKNOWN'')
          else if row_status row \<noteq> Db_pending then (db, Resolve_refused ''APPROVAL_ALREADY_RESOLVED'')
          else
            let expected = (case options of None \<Rightarrow> row_version row | Some opts \<Rightarrow> ro_expectedVersion opts) in
            case transition now approvalId expected (resolve_transition approvalId res userId options) (ad_policy db) of
              (p', Inl _) \<Rightarrow> (db\<lparr>ad_policy := p'\<rparr>, version_conflict_answer)
            | (p', Inr _) \<Rightarrow>
                finish_resolution now uuid approvalId (approval_run_id row) expected res (resolve_key approvalId res options) p' db)"

record approval_projection =
  ap_approvalId :: string
  ap_state :: string
  ap_reason :: string
  ap_repositoryId :: string
  ap_workflowRunId :: "string option"
  ap_actionType :: string
  ap_riskClass :: string
  ap_expiresAt :: string

definition mapApprovalProjection :: "approval_row \<Rightarrow> approval_projection" where
  "mapApprovalProjection r =
     \<lparr>ap_approvalId = row_id r, ap_state = db_status_str (row_status r), ap_reason = reason_summary r,
      ap_repositoryId = repository_id r, ap_workflowRunId = workflow_run_id r, ap_actionType = action_type r,
      ap_riskClass = row_risk_class r, ap_expiresAt = expires_at r\<rparr>"

definition listFor :: "string \<Rightarrow> approvals_db \<Rightarrow> approval_projection list" where
  "listFor runId db =
     map mapApprovalProjection
       (list_approvals \<lparr>f_repositoryId = None, f_status = None, f_runId = (if runId = [] then None else Some runId)\<rparr> (ad_policy db))"

section \<open>Histories of the two tables\<close>

text \<open>
  What else happens to the tables: approvals are requested, every other user of the store asks for
  transitions and its transaction commits, and the outbox is appended to, claimed and decided.
\<close>

datatype approval_op =
    Ap_insert int approval_insert
  | Ap_resolve int string string string resolution string "resolve_options option"
  | Ap_transition int string int status_transition
  | Ap_outbox outbox_op

fun approval_apply :: "approval_op \<Rightarrow> approvals_db \<Rightarrow> approvals_db \<times> resolve_answer option" where
  "approval_apply (Ap_insert now input) db = (db\<lparr>ad_policy := fst (insert_approval now input (ad_policy db))\<rparr>, None)"
| "approval_apply (Ap_resolve now uuid runId i res userId options) db =
     (case durable_resolve now uuid runId i res userId options db of (db', a) \<Rightarrow> (db', Some a))"
| "approval_apply (Ap_transition now i n t) db = (db\<lparr>ad_policy := fst (transition now i n t (ad_policy db))\<rparr>, None)"
| "approval_apply (Ap_outbox op) db = (db\<lparr>ad_outbox := outbox_apply op (ad_outbox db)\<rparr>, None)"

fun approval_run :: "approval_op list \<Rightarrow> approvals_db \<Rightarrow> approvals_db \<times> resolve_answer option list" where
  "approval_run [] db = (db, [])"
| "approval_run (op # ops) db =
     (case approval_apply op db of (db', a) \<Rightarrow> (case approval_run ops db' of (db'', as) \<Rightarrow> (db'', a # as)))"

definition empty_approvals_db :: approvals_db where
  "empty_approvals_db =
     \<lparr>ad_policy = \<lparr>approvals = [], approval_transitions = [], policy_versions = [], policy_heads = []\<rparr>, ad_outbox = []\<rparr>"

text \<open>The successful resolutions of an approval, by decision, and the resume events for it.\<close>

fun resolves_as :: "string \<Rightarrow> resolution \<Rightarrow> approval_op \<Rightarrow> resolve_answer option \<Rightarrow> bool" where
  "resolves_as i res (Ap_resolve _ _ _ i' res' _ _) a \<longleftrightarrow> i' = i \<and> res' = res \<and> a = Some Resolve_ok"
| "resolves_as i res _ a \<longleftrightarrow> False"

definition times_resolved :: "string \<Rightarrow> resolution \<Rightarrow> approval_op list \<Rightarrow> resolve_answer option list \<Rightarrow> nat" where
  "times_resolved i res ops as = length (filter (\<lambda>(op, a). resolves_as i res op a) (zip ops as))"

definition is_resume_event :: "string \<Rightarrow> outbox_row \<Rightarrow> bool" where
  "is_resume_event i r \<longleftrightarrow> event_type r = ''approval.resume_requested'' \<and> aggregate_id r = Some i"

definition resume_events :: "string \<Rightarrow> approvals_db \<Rightarrow> nat" where
  "resume_events i db = length (filter (is_resume_event i) (ad_outbox db))"

text \<open>The resolution is the only writer of resume events.\<close>

fun no_foreign_resume :: "approval_op \<Rightarrow> bool" where
  "no_foreign_resume (Ap_outbox (Ob_append _ _ e)) \<longleftrightarrow> ev_eventType e \<noteq> ''approval.resume_requested''"
| "no_foreign_resume _ \<longleftrightarrow> True"

section \<open>One step\<close>

text \<open>The approval has been decided: its row exists and is no longer pending.\<close>

definition decided :: "string \<Rightarrow> policy_db \<Rightarrow> bool" where
  "decided i p \<longleftrightarrow> (\<exists>r. getById i p = Some r \<and> row_status r \<noteq> Db_pending)"

lemma no_edge_into_pending: "\<not> db_legal f Db_pending"
  by (cases f) (simp_all add: db_legal_def)

lemma transition_steps:
  assumes "approvals_keyed p"
  obtains (same) "approvals (fst (transition now i n t p)) = approvals p"
      "isl (snd (transition now i n t p)) \<or> (\<exists>r. getById i p = Some r \<and> row_status r = st_to t)"
  | (updated) r where "getById i p = Some r" "row_status r = st_from t" "row_version r = n" "st_to t \<noteq> Db_pending"
      "snd (transition now i n t p) = Inr (updated_row now t r)"
      "approvals_keyed (fst (transition now i n t p))"
      "\<And>j. getById j (fst (transition now i n t p)) = (if j = i then Some (updated_row now t r) else getById j p)"
proof (cases "db_legal (st_from t) (st_to t) \<and> i \<in> row_id ` set (approvals p)")
  case False
  then show thesis using same by (auto simp: transition_def)
next
  case True
  let ?l = "log_transition i t p"
  have k: "approvals_keyed ?l" using assms by simp
  obtain d b where u: "update_approval now ?l i n t = (d, b)" by fastforce
  have get: "getById j d = map_option (\<lambda>r. if update_guard i n t r then updated_row now t r else r) (getById j p)" for j
    using getById_update [OF k, of j now i n t] u by simp
  have tr: "transition now i n t p =
      (case getById i d of
         Some r \<Rightarrow> if b \<or> row_status r = st_to t then (d, Inr r) else (d, Inl (''VERSION_CONFLICT:expected='' @ js_int_str n))
       | None \<Rightarrow> (d, Inl (''VERSION_CONFLICT:expected='' @ js_int_str n)))"
    using True u by (simp add: transition_def)
  show thesis
  proof (cases b)
    case True
    with update_applied_iff [OF k, of now i n t] u obtain r where
      r: "getById i p = Some r" "row_version r = n" "row_status r = st_from t" by auto
    have at: "getById j d = (if j = i then Some (updated_row now t r) else getById j p)" for j
    proof (cases "j = i")
      case True
      with r getById_id [OF r(1)] show ?thesis by (simp add: get update_guard_def)
    next
      case False
      with getById_id [of j p] show ?thesis by (cases "getById j p") (auto simp: get update_guard_def)
    qed
    have "st_to t \<noteq> Db_pending" using \<open>db_legal _ _ \<and> _\<close> no_edge_into_pending by metis
    moreover have "approvals_keyed d" using update_keyed [of now ?l i n t] u k by simp
    ultimately show thesis using updated [OF r(1,3,2)] at True by (simp add: tr)
  next
    case False
    then have d: "d = ?l" using u by (auto simp: update_approval_def split: if_splits)
    show thesis using False by (intro same) (auto simp: tr d split: option.split)
  qed
qed

lemma same_approvals: "approvals p' = approvals p \<Longrightarrow> getById j p' = getById j p \<and> approvals_keyed p' = approvals_keyed p"
  by (simp add: getById_def approvals_keyed_def)

lemma updated_status [simp]: "row_status (updated_row now t r) = st_to t"
  by (simp add: updated_row_def)

lemma transition_keeps:
  assumes "approvals_keyed p"
  shows "approvals_keyed (fst (transition now i n t p))" and "decided j p \<Longrightarrow> decided j (fst (transition now i n t p))"
proof -
  have "approvals_keyed (fst (transition now i n t p)) \<and> (decided j p \<longrightarrow> decided j (fst (transition now i n t p)))"
    using assms
  proof (cases rule: transition_steps [where now = now and i = i and n = n and t = t])
    case same
    from same_approvals [OF same(1)] assms show ?thesis by (simp add: decided_def)
  next
    case (updated r)
    then show ?thesis by (simp add: decided_def)
  qed
  then show "approvals_keyed (fst (transition now i n t p))" and "decided j p \<Longrightarrow> decided j (fst (transition now i n t p))"
    by simp_all
qed

lemma insert_keeps:
  assumes "approvals_keyed p"
  shows "approvals_keyed (fst (insert_approval now input p))" and "decided j p \<Longrightarrow> decided j (fst (insert_approval now input p))"
  using assms by (auto simp: insert_approval_def approvals_keyed_def decided_def getById_def find_snoc insert_row_def)

text \<open>A resolution that answers ok found the approval pending and leaves it decided, with its resume event if it approved.\<close>

lemma resolve_steps:
  fixes now :: int and uuid runId i userId :: string and res :: resolution and options :: "resolve_options option"
  assumes "approvals_keyed (ad_policy db)"
  defines "db' \<equiv> fst (durable_resolve now uuid runId i res userId options db)"
    and "a \<equiv> snd (durable_resolve now uuid runId i res userId options db)"
  shows "approvals_keyed (ad_policy db') \<and> (\<forall>j. decided j (ad_policy db) \<longrightarrow> decided j (ad_policy db')) \<and>
    (if a = Resolve_ok
     then \<not> decided i (ad_policy db) \<and>
       (\<exists>r. getById i (ad_policy db') = Some r \<and> row_status r = resolution_status res \<and> resolved_by r = Some userId) \<and>
       (\<forall>j. resume_events j db' = resume_events j db + (if j = i \<and> res = Resolve_approved then 1 else 0))
     else ad_outbox db' = ad_outbox db)"
proof (cases "getById i (ad_policy db)")
  case None
  then show ?thesis using assms(1) by (simp add: db'_def a_def durable_resolve_def)
next
  case (Some row)
  show ?thesis
  proof (cases "runId \<noteq> [] \<and> approval_run_id row \<noteq> runId \<or> row_status row \<noteq> Db_pending")
    case True
    with Some assms(1) show ?thesis by (auto simp: db'_def a_def durable_resolve_def)
  next
    case False
    let ?n = "case options of None \<Rightarrow> row_version row | Some opts \<Rightarrow> ro_expectedVersion opts"
    let ?t = "resolve_transition i res userId options"
    obtain p' x where tr: "transition now i ?n ?t (ad_policy db) = (p', x)" by fastforce
    note kept = transition_keeps [OF assms(1), where now = now and i = i and n = ?n and t = ?t, unfolded tr fst_conv]
    show ?thesis
    proof (cases x)
      case (Inl e)
      with False Some tr kept show ?thesis by (auto simp: db'_def a_def durable_resolve_def version_conflict_answer_def)
    next
      case (Inr r')
      have pend: "\<not> decided i (ad_policy db)" using False Some by (simp add: decided_def)
      have to: "st_to ?t = resolution_status res" "resolution_status res \<noteq> Db_pending" "st_actorType ?t = Db_user" "st_actorId ?t = userId"
        "resolution_status res \<in> {Db_approved, Db_rejected}"
        by (cases res; simp add: resolve_transition_def)+
      have row': "\<exists>r. getById i p' = Some r \<and> row_status r = resolution_status res \<and> resolved_by r = Some userId"
        using assms(1)
      proof (cases rule: transition_steps [where now = now and i = i and n = ?n and t = ?t])
        case same
        with tr Inr Some False to(1,2) show ?thesis by auto
      next
        case (updated r)
        with tr to show ?thesis by (auto simp: updated_row_def)
      qed
      have e: "durable_resolve now uuid runId i res userId options db =
          finish_resolution now uuid i (approval_run_id row) ?n res (resolve_key i res options) p' db"
        using False Some tr Inr by (auto simp: durable_resolve_def Let_def)
      have ev: "append_event now uuid (resume_event i w n k) rows = Inr rows' \<Longrightarrow>
          length (filter (is_resume_event j) rows') = length (filter (is_resume_event j) rows) + (if j = i then 1 else 0)" for w n k rows rows' j
        by (auto simp: append_event_def is_resume_event_def resume_event_def split: option.splits)
      show ?thesis
      proof (cases res)
        case Resolve_rejected
        with kept pend row' show ?thesis unfolding db'_def a_def e by (simp add: finish_resolution_def resume_events_def)
      next
        case Resolve_approved
        show ?thesis
        proof (cases "append_event now uuid (resume_event i (approval_run_id row) ?n (resolve_key i res options)) (ad_outbox db)")
          case (Inl err)
          with Resolve_approved kept show ?thesis unfolding db'_def a_def e
            by (simp add: finish_resolution_def version_conflict_answer_def)
        next
          case (Inr rows)
          show ?thesis
          proof (cases "uuid \<in> ob_id ` set (ad_outbox db)")
            case True
            with Inr Resolve_approved assms(1) show ?thesis unfolding db'_def a_def e
              by (simp add: finish_resolution_def version_conflict_answer_def)
          next
            case False
            with Inr Resolve_approved kept pend row' ev [OF Inr] show ?thesis unfolding db'_def a_def e
              by (simp add: finish_resolution_def resume_events_def)
          qed
        qed
      qed
    qed
  qed
qed

lemma outbox_step_events:
  assumes "no_foreign_resume (Ap_outbox op)"
  shows "length (filter (is_resume_event i) (outbox_apply op rows)) = length (filter (is_resume_event i) rows)"
proof -
  have m: "length (filter (is_resume_event i) (map f rows)) = length (filter (is_resume_event i) rows)"
    if "\<And>r. is_resume_event i (f r) = is_resume_event i r" for f
    using that by (simp add: filter_map comp_def)
  show ?thesis
  proof (cases op)
    case (Ob_append now uuid e)
    with assms show ?thesis by (auto simp: append_event_def is_resume_event_def split: option.splits)
  next
    case (Ob_claim now locked batch lease owner)
    have "fst (claim_events now locked batch lease owner rows) =
        map (\<lambda>r. if ob_id r \<in> set (claim_ids now locked batch rows) then claimed_row now owner lease r else r) rows"
      by (simp add: claim_events_def Let_def)
    moreover have "length (filter (is_resume_event i) \<dots>) = length (filter (is_resume_event i) rows)"
      by (rule m) (simp add: is_resume_event_def claimed_row_def)
    ultimately show ?thesis using Ob_claim by simp
  next
    case (Ob_outcome j n oc)
    have "fst (outcome_update rows j n oc) = map (\<lambda>r. if outcome_guard j n r then outcome_row oc r else r) rows"
      by (simp add: outcome_update_def)
    moreover have "length (filter (is_resume_event i) \<dots>) = length (filter (is_resume_event i) rows)"
      by (rule m) (simp add: is_resume_event_def outcome_row_def split: outbox_outcome.split)
    ultimately show ?thesis using Ob_outcome by simp
  qed
qed

section \<open>Every approval is decided once\<close>

text \<open>
  What a history keeps, for one approval: the counts of successful resolutions and of events, where a
  successful resolution needs an undecided approval.
\<close>

lemma approval_step:
  assumes "approvals_keyed (ad_policy db)" and "no_foreign_resume op" and "approval_apply op db = (db', a)"
  shows "approvals_keyed (ad_policy db') \<and> (decided i (ad_policy db) \<longrightarrow> decided i (ad_policy db')) \<and>
    ((\<exists>res. resolves_as i res op a) \<longrightarrow> \<not> decided i (ad_policy db) \<and> decided i (ad_policy db')) \<and>
    resume_events i db' = resume_events i db + (if resolves_as i Resolve_approved op a then 1 else 0)"
proof (cases op)
  case (Ap_insert now input)
  with assms insert_keeps [OF assms(1)] show ?thesis by (auto simp: resume_events_def)
next
  case (Ap_resolve now uuid runId j res userId options)
  let ?r = "durable_resolve now uuid runId j res userId options db"
  from Ap_resolve assms(3) have d: "db' = fst ?r" "a = Some (snd ?r)" by (auto split: prod.splits)
  have dec: "decided j (ad_policy (fst ?r))" if "snd ?r = Resolve_ok"
    using resolve_steps [OF assms(1), of now uuid runId j res userId options] that by (cases res) (auto simp: decided_def)
  show ?thesis
    using resolve_steps [OF assms(1), of now uuid runId j res userId options] dec
    unfolding d Ap_resolve by (cases "snd ?r = Resolve_ok") (auto simp: resume_events_def)
next
  case (Ap_transition now j n t)
  with assms transition_keeps [OF assms(1)] show ?thesis by (auto simp: resume_events_def)
next
  case (Ap_outbox oop)
  with assms outbox_step_events [of oop i "ad_outbox db"] show ?thesis by (auto simp: resume_events_def)
qed

lemma times_resolved_Cons:
  "times_resolved i res (op # ops) (a # as) = (if resolves_as i res op a then 1 else 0) + times_resolved i res ops as"
  by (simp add: times_resolved_def)

lemma resolves_one_way: "resolves_as i Resolve_approved op a \<Longrightarrow> \<not> resolves_as i Resolve_rejected op a"
  by (cases op) auto

lemma approval_run_counts:
  assumes "approvals_keyed (ad_policy db)" and "list_all no_foreign_resume ops" and "approval_run ops db = (db', as)"
  shows "approvals_keyed (ad_policy db') \<and> (decided i (ad_policy db) \<longrightarrow> decided i (ad_policy db')) \<and>
    times_resolved i Resolve_approved ops as + times_resolved i Resolve_rejected ops as \<le>
      (if decided i (ad_policy db) then 0 else if decided i (ad_policy db') then 1 else 0) \<and>
    resume_events i db' = resume_events i db + times_resolved i Resolve_approved ops as"
  using assms
proof (induction ops arbitrary: db as)
  case Nil
  then show ?case by (simp add: times_resolved_def)
next
  case (Cons op ops)
  obtain db1 a where s: "approval_apply op db = (db1, a)" by fastforce
  obtain db2 as' where r: "approval_run ops db1 = (db2, as')" by fastforce
  from Cons.prems(3) s r have x: "db' = db2" "as = a # as'" by simp_all
  note step = approval_step [OF Cons.prems(1) _ s, of i]
  from Cons.prems(2) step have one: "approvals_keyed (ad_policy db1)" "decided i (ad_policy db) \<longrightarrow> decided i (ad_policy db1)"
    "(\<exists>res. resolves_as i res op a) \<longrightarrow> \<not> decided i (ad_policy db) \<and> decided i (ad_policy db1)"
    "resume_events i db1 = resume_events i db + (if resolves_as i Resolve_approved op a then 1 else 0)" by auto
  from Cons.prems(2) have nf: "list_all no_foreign_resume ops" by simp
  note ih = Cons.IH [OF one(1) nf r [folded x(1)]]
  show ?case unfolding x(2) times_resolved_Cons
    using one ih resolves_one_way [of i op a] by (auto split: if_splits)
qed

text \<open>
  Property C9.  An approval is decided once: from empty tables, over any sequence of requests for
  approvals, resolutions over the database, transitions by every other user of the store and outbox statements, in which
  only resolutions write resume events, an approval is successfully resolved at most once, approvals and rejections
  counted together, by whichever surface and at whatever version they were sent; the outbox holds exactly one resume event
  for it if it was approved and none if not; and a resolution that answers ok found it pending and left it with
  the decision and the user recorded.
\<close>

theorem approval_is_decided_once:
  assumes "list_all no_foreign_resume ops" and "approval_run ops empty_approvals_db = (db, as)"
  shows "times_resolved i Resolve_approved ops as + times_resolved i Resolve_rejected ops as \<le> 1 \<and>
    resume_events i db = times_resolved i Resolve_approved ops as \<and>
    (\<forall>now uuid runId res userId options db'. durable_resolve now uuid runId i res userId options db = (db', Resolve_ok) \<longrightarrow>
       times_resolved i Resolve_approved ops as + times_resolved i Resolve_rejected ops as = 0 \<and>
       (\<exists>r r'. getById i (ad_policy db) = Some r \<and> row_status r = Db_pending \<and>
          getById i (ad_policy db') = Some r' \<and> row_status r' = resolution_status res \<and> resolved_by r' = Some userId))"
proof -
  have k: "approvals_keyed (ad_policy empty_approvals_db)" "\<not> decided i (ad_policy empty_approvals_db)"
    "resume_events i empty_approvals_db = 0"
    by (simp_all add: empty_approvals_db_def approvals_keyed_def decided_def getById_def resume_events_def)
  from approval_run_counts [OF k(1) assms, of i] k have c: "approvals_keyed (ad_policy db)"
    "times_resolved i Resolve_approved ops as + times_resolved i Resolve_rejected ops as \<le> (if decided i (ad_policy db) then 1 else 0)"
    "resume_events i db = times_resolved i Resolve_approved ops as" by auto
  have "times_resolved i Resolve_approved ops as + times_resolved i Resolve_rejected ops as = 0 \<and>
       (\<exists>r r'. getById i (ad_policy db) = Some r \<and> row_status r = Db_pending \<and>
          getById i (ad_policy db') = Some r' \<and> row_status r' = resolution_status res \<and> resolved_by r' = Some userId)"
    if ok: "durable_resolve now uuid runId i res userId options db = (db', Resolve_ok)" for now uuid runId res userId options db'
  proof -
    from resolve_steps [OF c(1), of now uuid runId i res userId options] ok have s: "\<not> decided i (ad_policy db)"
      "\<exists>r'. getById i (ad_policy db') = Some r' \<and> row_status r' = resolution_status res \<and> resolved_by r' = Some userId" by auto
    moreover from ok obtain r where "getById i (ad_policy db) = Some r"
      by (cases "getById i (ad_policy db)") (simp_all add: durable_resolve_def)
    ultimately show ?thesis using c(2) by (auto simp: decided_def)
  qed
  with c show ?thesis by (auto split: if_splits)
qed

section \<open>What a refused resolution leaves behind\<close>

text \<open>
  A refused resolution is recorded as having happened: when the version sent is not the current one of
  a pending approval, the caller is told to retry, nothing is resolved, but the transaction commits and the
  log of transitions gains an entry from pending to the decision by this user.
\<close>

theorem refused_resolution_is_logged:
  assumes "approvals_keyed (ad_policy db)" and "getById i (ad_policy db) = Some row" and "row_status row = Db_pending"
    and "runId = [] \<or> approval_run_id row = runId" and "ro_expectedVersion opts \<noteq> row_version row"
    and "\<forall>e \<in> set (approval_transitions (ad_policy db)). tr_approval_id e = i \<longrightarrow> command_key e \<noteq> ro_idempotencyKey opts"
  shows "\<exists>db' e. durable_resolve now uuid runId i res userId (Some opts) db = (db', Resolve_refused ''APPROVAL_VERSION_CONFLICT'') \<and>
    getById i (ad_policy db') = Some row \<and>
    approval_transitions (ad_policy db') = approval_transitions (ad_policy db) @ [e] \<and>
    tr_approval_id e = i \<and> from_status e = Db_pending \<and> to_status e = resolution_status res \<and> tr_actor_id e = userId"
proof -
  let ?t = "resolve_transition i res userId (Some opts)" and ?n = "ro_expectedVersion opts"
  let ?l = "log_transition i ?t (ad_policy db)"
  have t: "st_from ?t = Db_pending" "st_to ?t = resolution_status res" "st_commandKey ?t = ro_idempotencyKey opts"
    "db_legal Db_pending (resolution_status res)" "resolution_status res \<noteq> Db_pending"
    by (cases res; simp add: resolve_transition_def resolve_key_def db_legal_def)+
  have k: "approvals_keyed ?l" using assms(1) by simp
  have "\<not> snd (update_approval now ?l i ?n ?t)" using update_applied_iff [OF k, of now i ?n ?t] assms(2,5) by simp
  then have u: "update_approval now ?l i ?n ?t = (?l, False)" by (auto simp: update_approval_def split: if_splits)
  have "i \<in> row_id ` set (approvals (ad_policy db))" using getById_id [OF assms(2)] by (metis imageI)
  with u t assms(2,3) have "transition now i ?n ?t (ad_policy db) = (?l, Inl (''VERSION_CONFLICT:expected='' @ js_int_str ?n))"
    by (simp add: transition_def)
  with assms(2-4) have r: "durable_resolve now uuid runId i res userId (Some opts) db =
      (db\<lparr>ad_policy := ?l\<rparr>, Resolve_refused ''APPROVAL_VERSION_CONFLICT'')"
    by (auto simp: durable_resolve_def Let_def version_conflict_answer_def)
  let ?e = "\<lparr>tr_approval_id = i, from_status = st_from ?t, to_status = st_to ?t, tr_actor_type = st_actorType ?t,
    tr_actor_id = st_actorId ?t, tr_reason_code = st_reasonCode ?t, command_key = st_commandKey ?t\<rparr>"
  have "approval_transitions ?l = approval_transitions (ad_policy db) @ [?e]" using assms(6) t(3) by (auto simp: log_transition_def)
  moreover have "st_actorId ?t = userId" by (simp add: resolve_transition_def)
  ultimately show ?thesis using r assms(2) t(1,2) by (intro exI [of _ "db\<lparr>ad_policy := ?l\<rparr>"] exI [of _ ?e]) simp
qed

lemma transition_applies:
  assumes "approvals_keyed p" and "getById i p = Some row" and "row_status row = st_from t" and "db_legal (st_from t) (st_to t)"
  shows "\<exists>p'. transition now i (row_version row) t p = (p', Inr (updated_row now t row)) \<and> getById i p' = Some (updated_row now t row)"
proof -
  let ?l = "log_transition i t p"
  have k: "approvals_keyed ?l" using assms(1) by simp
  obtain p' b where u: "update_approval now ?l i (row_version row) t = (p', b)" by fastforce
  have b: b using update_applied_iff [OF k, of now i "row_version row" t] u assms(2,3) by simp
  have g: "getById i p' = Some (updated_row now t row)"
    using getById_update [OF k, of i now i "row_version row" t] u assms(2,3) getById_id [OF assms(2)] by (simp add: update_guard_def)
  have "i \<in> row_id ` set (approvals p)" using getById_id [OF assms(2)] by (metis imageI)
  with u assms(4) b g show ?thesis by (simp add: transition_def)
qed

text \<open>
  A long idempotency key approves without resuming: when the writer refuses the resume event, as it does for a
  correlation of 65536 bytes or more, the caller is told that the approval changed, but the approval is approved
  and no event will ever resume its run: every later resolution answers that it is resolved already.
\<close>

theorem refused_event_approves_silently:
  assumes "approvals_keyed (ad_policy db)" and "getById i (ad_policy db) = Some row" and "row_status row = Db_pending"
    and "runId = [] \<or> approval_run_id row = runId" and "ro_expectedVersion opts = row_version row"
    and "append_refusal (resume_event i (approval_run_id row) (row_version row) (ro_idempotencyKey opts)) \<noteq> None"
  shows "\<exists>db'. durable_resolve now uuid runId i Resolve_approved userId (Some opts) db =
      (db', Resolve_refused ''APPROVAL_VERSION_CONFLICT'') \<and> ad_outbox db' = ad_outbox db \<and>
    (\<exists>r. getById i (ad_policy db') = Some r \<and> row_status r = Db_approved) \<and>
    snd (durable_resolve now2 uuid2 [] i res user2 options2 db') = Resolve_refused ''APPROVAL_ALREADY_RESOLVED''"
proof -
  let ?t = "resolve_transition i Resolve_approved userId (Some opts)" and ?n = "row_version row"
  have t: "st_from ?t = Db_pending" "st_to ?t = Db_approved" "db_legal Db_pending Db_approved"
    by (simp_all add: resolve_transition_def db_legal_def)
  from transition_applies [OF assms(1,2), of ?t now] assms(3) t obtain p' where
    tr: "transition now i ?n ?t (ad_policy db) = (p', Inr (updated_row now ?t row))" and g: "getById i p' = Some (updated_row now ?t row)" by auto
  from assms(6) obtain err where "append_event now uuid (resume_event i (approval_run_id row) ?n (ro_idempotencyKey opts)) (ad_outbox db) = Inl err"
    by (auto simp: append_event_def)
  with assms(2-5) tr have "durable_resolve now uuid runId i Resolve_approved userId (Some opts) db =
      (db\<lparr>ad_policy := p'\<rparr>, Resolve_refused ''APPROVAL_VERSION_CONFLICT'')"
    by (auto simp: durable_resolve_def finish_resolution_def resolve_key_def Let_def version_conflict_answer_def)
  with g t(2) show ?thesis by (intro exI [of _ "db\<lparr>ad_policy := p'\<rparr>"]) (simp add: durable_resolve_def)
qed

section \<open>A concrete history\<close>

definition sample_approval_request :: approval_insert where
  "sample_approval_request =
     \<lparr>i_id = ''a1'', i_repositoryId = ''repo'', i_workflowRunId = Some ''run'', i_actionType = ''pr.merge'', i_riskClass = ''destructive'',
      i_reasonCode = ''policy'', i_reasonSummary = None, i_operationHash = ''o'', i_fingerprintHash = ''f'', i_expiresAt = ''t''\<rparr>"

definition sample_history :: "approval_op list" where
  "sample_history =
     [Ap_insert 1 sample_approval_request, Ap_resolve 2 ''e1'' ''run'' ''a1'' Resolve_approved ''u1'' (Some \<lparr>ro_idempotencyKey = ''k1'', ro_expectedVersion = 1\<rparr>),
      Ap_resolve 3 ''e2'' [] ''a1'' Resolve_rejected ''u2'' None, Ap_outbox (Ob_claim 4 [] 10 30000 ''w'')]"

definition pending_approvals_db :: approvals_db where
  "pending_approvals_db = fst (approval_run [Ap_insert 1 sample_approval_request] empty_approvals_db)"

lemma pending_approvals:
  "approvals_keyed (ad_policy pending_approvals_db)" "getById ''a1'' (ad_policy pending_approvals_db) = Some (insert_row 1 sample_approval_request)"
  "approval_transitions (ad_policy pending_approvals_db) = []"
  by (simp_all add: pending_approvals_db_def empty_approvals_db_def insert_approval_def approvals_keyed_def getById_def insert_row_def sample_approval_request_def)

lemma sample_resume_accepted: "append_refusal (resume_event ''a1'' ''run'' 1 ''k1'') = None"
proof -
  let ?e = "resume_event ''a1'' ''run'' 1 ''k1''"
  have "utf8_length (json_text (ev_payload ?e)) < 200" "utf8_length (json_text (ev_correlation ?e)) < 200"
    "length (js_trim (ev_eventType ?e)) \<noteq> 0" "nonEmptyObject (ev_payload ?e)" "nonEmptyObject (ev_correlation ?e)" by code_simp+
  moreover have "ev_schemaVersion ?e = 1" by (simp add: resume_event_def)
  ultimately show ?thesis by (simp add: append_refusal_def boundedJson_def MAX_OUTBOX_SERIALIZED_BYTES_def)
qed

lemma sample_resolution:
  "snd (durable_resolve 2 ''e1'' ''run'' ''a1'' Resolve_approved ''u1'' (Some \<lparr>ro_idempotencyKey = ''k1'', ro_expectedVersion = 1\<rparr>)
     pending_approvals_db) = Resolve_ok"
proof -
  let ?o = "Some \<lparr>ro_idempotencyKey = ''k1'', ro_expectedVersion = 1\<rparr>"
  let ?t = "resolve_transition ''a1'' Resolve_approved ''u1'' ?o"
  have f: "row_status (insert_row 1 sample_approval_request) = Db_pending" "row_version (insert_row 1 sample_approval_request) = 1"
    "approval_run_id (insert_row 1 sample_approval_request) = ''run''" "ad_outbox pending_approvals_db = []"
    by (simp_all add: insert_row_def approval_run_id_def sample_approval_request_def pending_approvals_db_def empty_approvals_db_def)
  have "st_from ?t = Db_pending" "db_legal Db_pending (st_to ?t)" by (simp_all add: resolve_transition_def db_legal_def)
  with transition_applies [OF pending_approvals(1,2), of ?t 2] f(1,2) obtain p' where
    "transition 2 ''a1'' 1 ?t (ad_policy pending_approvals_db) = (p', Inr (updated_row 2 ?t (insert_row 1 sample_approval_request)))" by auto
  then show ?thesis
    by (simp add: durable_resolve_def pending_approvals(2) f finish_resolution_def resolve_key_def append_event_def sample_resume_accepted)
qed

theorem approval_is_decided_once_witness:
  "resume_events ''a1'' (fst (approval_run sample_history empty_approvals_db)) = 1 \<and>
   times_resolved ''a1'' Resolve_rejected sample_history (snd (approval_run sample_history empty_approvals_db)) = 0"
proof -
  let ?op = "Ap_resolve 2 ''e1'' ''run'' ''a1'' Resolve_approved ''u1'' (Some \<lparr>ro_idempotencyKey = ''k1'', ro_expectedVersion = 1\<rparr>)"
  have 1: "approval_apply (Ap_insert 1 sample_approval_request) empty_approvals_db = (pending_approvals_db, None)"
    by (simp add: pending_approvals_db_def)
  obtain db2 where 2: "approval_apply ?op pending_approvals_db = (db2, Some Resolve_ok)"
    using sample_resolution by (simp only: approval_apply.simps prod.case_eq_if)
  obtain db as' where 3: "approval_run [Ap_resolve 3 ''e2'' [] ''a1'' Resolve_rejected ''u2'' None, Ap_outbox (Ob_claim 4 [] 10 30000 ''w'')] db2 = (db, as')"
    by (rule prod.exhaust)
  let ?as = "None # Some Resolve_ok # as'"
  have r: "approval_run sample_history empty_approvals_db = (db, ?as)"
    unfolding sample_history_def by (simp only: approval_run.simps(2) [of "Ap_insert 1 sample_approval_request"] approval_run.simps(2) [of ?op] 1 2 3 prod.case)
  have "1 \<le> times_resolved ''a1'' Resolve_approved sample_history ?as" by (simp add: sample_history_def times_resolved_Cons)
  moreover have "list_all no_foreign_resume sample_history" by (simp add: sample_history_def)
  ultimately show ?thesis using approval_is_decided_once [OF _ r, of "''a1''"] r by simp
qed

theorem refused_resolution_is_logged_witness:
  "\<exists>db' e. durable_resolve 2 ''e1'' [] ''a1'' Resolve_approved ''u1'' (Some \<lparr>ro_idempotencyKey = ''k1'', ro_expectedVersion = 7\<rparr>) pending_approvals_db =
      (db', Resolve_refused ''APPROVAL_VERSION_CONFLICT'') \<and> approval_transitions (ad_policy db') = [e] \<and> to_status e = Db_approved"
proof -
  have "row_status (insert_row 1 sample_approval_request) = Db_pending" "row_version (insert_row 1 sample_approval_request) = 1" by (simp_all add: insert_row_def)
  with refused_resolution_is_logged [OF pending_approvals(1,2), of "[]" "\<lparr>ro_idempotencyKey = ''k1'', ro_expectedVersion = 7\<rparr>"
      2 "''e1''" Resolve_approved "''u1''"]
  show ?thesis by (simp add: pending_approvals(3)) blast
qed

text \<open>An idempotency key of 65536 characters.\<close>

definition long_options :: resolve_options where
  "long_options = \<lparr>ro_idempotencyKey = replicate 65536 (CHR ''k''), ro_expectedVersion = 1\<rparr>"

lemma long_key_refused: "append_refusal (resume_event ''a1'' ''run'' 1 (ro_idempotencyKey long_options)) \<noteq> None"
proof -
  let ?k = "ro_idempotencyKey long_options"
  have "utf8_length ?k = 65536" by (simp add: long_options_def utf8_length_def sum_list_replicate)
  with utf8_serialize [of ?k] have "65538 \<le> utf8_length (json_text (JStr ?k))" by simp
  with utf8_member [of "''idempotencyKey''" "JStr ?k" "[(''approvalId'', JStr ''a1''), (''workflowRunId'', JStr ''run''), (''idempotencyKey'', JStr ?k)]"]
  have "\<not> boundedJson (ev_correlation (resume_event ''a1'' ''run'' 1 ?k))"
    by (simp add: boundedJson_def MAX_OUTBOX_SERIALIZED_BYTES_def resume_event_def)
  then show ?thesis by (simp add: append_refusal_def)
qed

theorem refused_event_approves_silently_witness:
  "\<exists>db'. durable_resolve 2 ''e1'' [] ''a1'' Resolve_approved ''u1'' (Some long_options) pending_approvals_db =
      (db', Resolve_refused ''APPROVAL_VERSION_CONFLICT'') \<and> ad_outbox db' = ad_outbox pending_approvals_db \<and>
    (\<exists>r. getById ''a1'' (ad_policy db') = Some r \<and> row_status r = Db_approved)"
proof -
  have "row_status (insert_row 1 sample_approval_request) = Db_pending" "row_version (insert_row 1 sample_approval_request) = 1"
    "approval_run_id (insert_row 1 sample_approval_request) = ''run''" "ro_expectedVersion long_options = 1"
    by (simp_all add: insert_row_def approval_run_id_def sample_approval_request_def long_options_def)
  with refused_event_approves_silently [OF pending_approvals(1,2), of "[]" long_options 2 "''e1''" "''u1''"] long_key_refused
  show ?thesis by simp blast
qed

end
