(* ===== verification/Idempotency.thy ===== *)
theory Idempotency
  imports Canonical_Json
begin

text \<open>
  Idempotency records, \<open>packages/db/src/reliability/idempotency.ts\<close>: key hashing, the canonical
  request text, and the begin / replay / complete protocol as functions on the table
  \<open>idempotency_records\<close>.  The database clock (milliseconds), the fresh token and sha256 are
  arguments; a statement runs on a locked row, so operations are serialized.
\<close>

definition idempotencyKeyHash :: "(string \<Rightarrow> string) \<Rightarrow> string \<Rightarrow> string \<Rightarrow> string" where
  "idempotencyKeyHash sha256 scope key = sha256 (scope @ [CHR 0x00] @ key)"

text \<open>
  \<open>canonicalJsonStringify\<close>; \<open>JSON.stringify\<close> of a big integer throws.  A date or an other object
  stands for a value without enumerable members.
\<close>

fun canonicalJsonStringify :: "js_value \<Rightarrow> string + string" where
  "canonicalJsonStringify (JsArr vs) =
     (case all_ok (map canonicalJsonStringify vs) of
        Inl e \<Rightarrow> Inl e | Inr ss \<Rightarrow> Inr (''['' @ js_join '','' ss @ '']''))"
| "canonicalJsonStringify (JsObj ms) =
     (case all_ok (map (\<lambda>(k, u, r). map_sum id (\<lambda>t. serializeString id k @ '':'' @ t) r)
              (js_sort by_key (filter (\<lambda>(k, u, r). \<not> u)
                 (map (\<lambda>(k, v). (k, v = JsUndefined, canonicalJsonStringify v)) ms)))) of
        Inl e \<Rightarrow> Inl e | Inr ss \<Rightarrow> Inr (''{'' @ js_join '','' ss @ ''}''))"
| "canonicalJsonStringify JsDate = Inr ''{}''"
| "canonicalJsonStringify (JsOther t) = Inr (if t = ''object'' then ''{}'' else ''null'')"
| "canonicalJsonStringify (JsStr s) = Inr (serializeString id s)"
| "canonicalJsonStringify (JsNum n) = Inr (js_int_str n)"
| "canonicalJsonStringify JsNonFinite = Inr ''null''"
| "canonicalJsonStringify (JsBool b) = Inr (if b then ''true'' else ''false'')"
| "canonicalJsonStringify JsBigint = Inl ''TypeError''"
| "canonicalJsonStringify JsNull = Inr ''null''"
| "canonicalJsonStringify JsUndefined = Inr ''null''"
| "canonicalJsonStringify JsFunction = Inr ''null''"

definition requestFingerprint :: "(string \<Rightarrow> string) \<Rightarrow> js_value \<Rightarrow> string + string" where
  "requestFingerprint sha256 v = map_sum id sha256 (canonicalJsonStringify v)"

section \<open>The store\<close>

datatype idem_status = Processing | Completed

record idem_row =
  ir_scope :: string
  ir_key_hash :: string
  ir_status :: idem_status
  owner_token :: string
  lease_expires_at :: "int option"
  request_fingerprint :: "string option"
  response_code :: "int option"
  response_json :: json
  ir_row_version :: int

record stored_result =
  responseCode :: int
  responseJson :: "json option"

datatype begin_outcome =
    Acquired string
  | Replay int json
  | Conflict

datatype idem_error = IDEMPOTENCY_KEY_REUSED | VALIDATION_FAILED string | UnknownToken string

record begin_input =
  b_scope :: string
  b_key :: string
  b_fingerprint :: string
  b_leaseMs :: int

definition row_key :: "idem_row \<Rightarrow> string \<times> string" where
  "row_key r = (ir_scope r, ir_key_hash r)"

definition key_of :: "(string \<Rightarrow> string) \<Rightarrow> begin_input \<Rightarrow> string \<times> string" where
  "key_of sha256 input = (b_scope input, idempotencyKeyHash sha256 (b_scope input) (b_key input))"

definition fresh_row :: "(string \<Rightarrow> string) \<Rightarrow> int \<Rightarrow> string \<Rightarrow> begin_input \<Rightarrow> idem_row" where
  "fresh_row sha256 now token input =
     \<lparr>ir_scope = b_scope input, ir_key_hash = idempotencyKeyHash sha256 (b_scope input) (b_key input),
      ir_status = Processing, owner_token = token, lease_expires_at = Some (now + b_leaseMs input),
      request_fingerprint = Some (b_fingerprint input), response_code = None, response_json = JNull,
      ir_row_version = 1\<rparr>"

definition lookup_key :: "string \<times> string \<Rightarrow> idem_row list \<Rightarrow> idem_row option" where
  "lookup_key k db = find (\<lambda>r. row_key r = k) db"

text \<open>\<open>RECLAIM_LEASE\<close>: the rows it updates and the update.\<close>

definition reclaimable :: "int \<Rightarrow> string \<times> string \<Rightarrow> idem_row \<Rightarrow> bool" where
  "reclaimable now k r \<longleftrightarrow>
     row_key r = k \<and> (case lease_expires_at r of None \<Rightarrow> False | Some e \<Rightarrow> e \<le> now)"

definition reclaimed_row :: "int \<Rightarrow> string \<Rightarrow> int \<Rightarrow> idem_row \<Rightarrow> idem_row" where
  "reclaimed_row now token leaseMs r =
     r\<lparr>owner_token := token, lease_expires_at := Some (now + leaseMs), ir_row_version := ir_row_version r + 1\<rparr>"

definition begin_request ::
  "(string \<Rightarrow> string) \<Rightarrow> int \<Rightarrow> string \<Rightarrow> begin_input \<Rightarrow> idem_row list \<Rightarrow>
     idem_row list \<times> (idem_error + begin_outcome)" where
  "begin_request sha256 now token input db =
     (let k = key_of sha256 input in
      case lookup_key k db of
        None \<Rightarrow> (db @ [fresh_row sha256 now token input], Inr (Acquired token))
      | Some row \<Rightarrow>
          if request_fingerprint row \<noteq> None \<and> request_fingerprint row \<noteq> Some (b_fingerprint input)
          then (db, Inl IDEMPOTENCY_KEY_REUSED)
          else if ir_status row = Completed then
            (db, Inr (Replay (case response_code row of None \<Rightarrow> 200 | Some c \<Rightarrow> c) (response_json row)))
          else if \<exists>r\<in>set db. reclaimable now k r then
            (map (\<lambda>r. if reclaimable now k r then reclaimed_row now token (b_leaseMs input) r else r) db,
             Inr (Acquired token))
          else (db, Inr Conflict))"

definition completable :: "string \<Rightarrow> idem_row \<Rightarrow> bool" where
  "completable token r \<longleftrightarrow> owner_token r = token \<and> ir_status r = Processing"

definition completed_row :: "stored_result \<Rightarrow> idem_row \<Rightarrow> idem_row" where
  "completed_row res r =
     r\<lparr>ir_status := Completed, response_code := Some (responseCode res),
       response_json := (case responseJson res of None \<Rightarrow> JNull | Some j \<Rightarrow> j),
       ir_row_version := ir_row_version r + 1\<rparr>"

definition complete_request ::
  "string \<Rightarrow> stored_result \<Rightarrow> idem_row list \<Rightarrow> idem_row list \<times> (idem_error + unit)" where
  "complete_request token res db =
     (if utf8_length (json_text (case responseJson res of None \<Rightarrow> JNull | Some j \<Rightarrow> j)) > 65536
      then (db, Inl (VALIDATION_FAILED ''idempotency response exceeds 64KB''))
      else if \<exists>r\<in>set db. completable token r
      then (map (\<lambda>r. if completable token r then completed_row res r else r) db, Inr ())
      else (db, Inl (UnknownToken token)))"

section \<open>Histories\<close>

datatype idem_op =
    Begin_op int string begin_input
  | Complete_op string stored_result

fun idem_apply :: "(string \<Rightarrow> string) \<Rightarrow> idem_op \<Rightarrow> idem_row list \<Rightarrow> idem_row list" where
  "idem_apply sha256 (Begin_op now token input) db = fst (begin_request sha256 now token input db)"
| "idem_apply sha256 (Complete_op token res) db = fst (complete_request token res db)"

definition idem_run :: "(string \<Rightarrow> string) \<Rightarrow> idem_op list \<Rightarrow> idem_row list \<Rightarrow> idem_row list" where
  "idem_run sha256 ops db = fold (idem_apply sha256) ops db"

fun op_before :: "int \<Rightarrow> idem_op \<Rightarrow> bool" where
  "op_before t (Begin_op now _ _) = (now < t)"
| "op_before t (Complete_op _ _) = True"

lemma lookup_map:
  "(\<And>r. row_key (f r) = row_key r) \<Longrightarrow> lookup_key k (map f db) = map_option f (lookup_key k db)"
  unfolding lookup_key_def by (induction db) auto

lemma lookup_snoc: "lookup_key k (db @ [r]) =
    (case lookup_key k db of None \<Rightarrow> if row_key r = k then Some r else None | Some x \<Rightarrow> Some x)"
  unfolding lookup_key_def by (induction db) auto

lemma lookup_key_sound: "lookup_key k db = Some r \<Longrightarrow> row_key r = k \<and> r \<in> set db"
  unfolding lookup_key_def by (auto simp: find_Some_iff)

lemma row_key_updates [simp]:
  "row_key (reclaimed_row now token l r) = row_key r"
  "row_key (completed_row res r) = row_key r"
  "row_key (fresh_row sha256 now token input) = key_of sha256 input"
  by (simp_all add: row_key_def reclaimed_row_def completed_row_def fresh_row_def key_of_def)

lemma lookup_complete:
  "lookup_key k (fst (complete_request token res db)) = lookup_key k db \<or>
   lookup_key k (fst (complete_request token res db)) =
     map_option (\<lambda>r. if completable token r then completed_row res r else r) (lookup_key k db)"
  by (auto simp: complete_request_def lookup_map)

lemma lookup_begin:
  "lookup_key k (fst (begin_request sha256 now token input db)) = lookup_key k db \<or>
   (lookup_key k db = None \<and> k = key_of sha256 input \<and>
      lookup_key k (fst (begin_request sha256 now token input db)) = Some (fresh_row sha256 now token input)) \<or>
   lookup_key k (fst (begin_request sha256 now token input db)) =
     map_option (\<lambda>r. if reclaimable now (key_of sha256 input) r then reclaimed_row now token (b_leaseMs input) r else r)
       (lookup_key k db) \<and>
   (\<exists>row. lookup_key (key_of sha256 input) db = Some row \<and> ir_status row = Processing)"
  by (auto simp: begin_request_def Let_def lookup_map lookup_snoc split: option.splits)
     (metis idem_status.exhaust)+

lemma completed_stable:
  assumes "lookup_key k db = Some r" and "ir_status r = Completed"
  shows "lookup_key k (idem_apply sha256 op db) = Some r"
proof (cases op)
  case (Begin_op now token input)
  from lookup_key_sound [OF assms(1)] have "row_key r = k" ..
  with Begin_op assms lookup_begin [of k sha256 now token input db] show ?thesis
    by (auto simp: reclaimable_def)
next
  case (Complete_op token res)
  with assms lookup_complete [of k token res db] show ?thesis by (auto simp: completable_def)
qed

lemma completed_stable_run:
  "lookup_key k db = Some r \<Longrightarrow> ir_status r = Completed \<Longrightarrow> lookup_key k (idem_run sha256 ops db) = Some r"
  unfolding idem_run_def by (induction ops arbitrary: db) (simp_all add: completed_stable)

text \<open>A request in flight: its row is owned by \<open>token\<close> under a lease until \<open>exp\<close>, or completed.\<close>

definition held :: "idem_row list \<Rightarrow> string \<times> string \<Rightarrow> string \<Rightarrow> int \<Rightarrow> bool" where
  "held db k token exp \<longleftrightarrow>
     (\<exists>r. lookup_key k db = Some r \<and>
        (ir_status r = Completed \<or> owner_token r = token \<and> lease_expires_at r = Some exp))"

lemma held_step:
  assumes "held db k token exp" and "op_before exp op"
  shows "held (idem_apply sha256 op db) k token exp"
proof -
  from assms(1) obtain r where r: "lookup_key k db = Some r"
    and own: "ir_status r = Completed \<or> owner_token r = token \<and> lease_expires_at r = Some exp"
    by (auto simp: held_def)
  show ?thesis
  proof (cases "ir_status r = Completed")
    case True
    with completed_stable [OF r, of sha256 op] show ?thesis by (auto simp: held_def)
  next
    case False
    with own have o: "owner_token r = token" "lease_expires_at r = Some exp" by auto
    show ?thesis
    proof (cases op)
      case (Begin_op now t input)
      with assms(2) o have "\<not> reclaimable now (key_of sha256 input) r" by (simp add: reclaimable_def)
      with Begin_op r o lookup_begin [of k sha256 now t input db] show ?thesis by (auto simp: held_def)
    next
      case (Complete_op t res)
      with r o lookup_complete [of k t res db] show ?thesis
        by (auto simp: held_def completed_row_def)
    qed
  qed
qed

lemma held_run: "held db k token exp \<Longrightarrow> list_all (op_before exp) ops \<Longrightarrow> held (idem_run sha256 ops db) k token exp"
  unfolding idem_run_def by (induction ops arbitrary: db) (simp_all add: held_step)

lemma unique_lookup:
  "distinct (map row_key db) \<Longrightarrow> r \<in> set db \<Longrightarrow> lookup_key (row_key r) db = Some r"
  unfolding lookup_key_def by (induction db) auto

lemma acquired_held:
  assumes "distinct (map row_key db)"
    and "begin_request sha256 now token input db = (db1, Inr (Acquired t))"
  shows "t = token \<and> held db1 (key_of sha256 input) token (now + b_leaseMs input) \<and>
    (\<exists>r. lookup_key (key_of sha256 input) db1 = Some r \<and> ir_status r = Processing)"
proof (cases "lookup_key (key_of sha256 input) db")
  case None
  with assms(2) show ?thesis
    by (auto simp: begin_request_def held_def lookup_snoc fresh_row_def [abs_def])
       (auto simp: row_key_def key_of_def)
next
  case (Some row)
  with assms(2) obtain r where proc: "ir_status row = Processing"
    and r: "r \<in> set db" "reclaimable now (key_of sha256 input) r"
    and db1: "db1 = map (\<lambda>r. if reclaimable now (key_of sha256 input) r then reclaimed_row now token (b_leaseMs input) r else r) db"
    and t: "t = token"
    by (cases "ir_status row") (auto simp: begin_request_def Let_def split: if_splits)
  from r(2) have "row_key r = key_of sha256 input" by (simp add: reclaimable_def)
  with unique_lookup [OF assms(1) r(1)] Some have "r = row" by simp
  then have "lookup_key (key_of sha256 input) db1 = Some (reclaimed_row now token (b_leaseMs input) row)"
    using Some r(2) by (simp add: db1 lookup_map)
  with proc t show ?thesis by (auto simp: held_def reclaimed_row_def)
qed

lemma distinct_apply:
  assumes "distinct (map row_key db)"
  shows "distinct (map row_key (idem_apply sha256 op db))"
proof (cases op)
  case (Begin_op now token input)
  have m: "map row_key (map (\<lambda>r. if P r then reclaimed_row now token l r else r) db) = map row_key db" for P l
    by simp
  show ?thesis
    using assms unfolding Begin_op idem_apply.simps begin_request_def Let_def
    by (simp add: m del: map_map split: option.split) (auto simp: lookup_key_def find_None_iff)
next
  case (Complete_op token res)
  have "map row_key (map (\<lambda>r. if P r then completed_row res r else r) db) = map row_key db" for P by simp
  with assms show ?thesis unfolding Complete_op by (simp add: complete_request_def del: map_map)
qed

lemma distinct_run: "distinct (map row_key db) \<Longrightarrow> distinct (map row_key (idem_run sha256 ops db))"
  unfolding idem_run_def by (induction ops arbitrary: db) (simp_all add: distinct_apply)

text \<open>
  Property C37.  One owner at a time: once \<open>begin\<close> acquired a key, no other request acquires the
  same key before the lease ends, whatever other begin and complete operations run in between.
\<close>

theorem lease_is_exclusive:
  assumes "distinct (map row_key db)"
    and "begin_request sha256 now token input db = (db1, Inr (Acquired t))"
    and "list_all (op_before (now + b_leaseMs input)) ops"
    and "key_of sha256 input' = key_of sha256 input" and "now' < now + b_leaseMs input"
  shows "\<forall>u. snd (begin_request sha256 now' token' input' (idem_run sha256 ops db1)) \<noteq> Inr (Acquired u)"
proof -
  let ?k = "key_of sha256 input" and ?db = "idem_run sha256 ops db1"
  have "held ?db ?k token (now + b_leaseMs input)"
    using acquired_held [OF assms(1,2)] by (intro held_run [OF _ assms(3)]) simp
  then obtain r where r: "lookup_key ?k ?db = Some r"
    and own: "ir_status r = Completed \<or> lease_expires_at r = Some (now + b_leaseMs input)"
    by (auto simp: held_def)
  have d1: "distinct (map row_key db1)"
    using distinct_run [OF assms(1), of sha256 "[Begin_op now token input]"] assms(2) by (simp add: idem_run_def)
  show ?thesis
  proof (cases "ir_status r = Completed")
    case True
    with r assms(4) show ?thesis by (auto simp: begin_request_def Let_def split: if_splits)
  next
    case False
    have "\<not> reclaimable now' ?k x" if "x \<in> set ?db" for x
      using unique_lookup [OF distinct_run [OF d1] that] r False own assms(5) by (auto simp: reclaimable_def)
    with r False assms(4) show ?thesis by (auto simp: begin_request_def Let_def split: if_splits)
  qed
qed

text \<open>
  Exactly one recorded answer: once a request was completed, every later \<open>begin\<close> of
  the same key with the same fingerprint replays exactly the stored code and body, one with
  another fingerprint is refused as key reuse, and neither any operation sequence in between nor
  the \<open>begin\<close> itself changes the record.
\<close>

theorem completed_request_replays:
  assumes "complete_request token res db = (db1, Inr ())"
    and "lookup_key k db = Some r" and "completable token r" and "request_fingerprint r = Some fp"
    and "key_of sha256 input = k"
  shows "begin_request sha256 now t input (idem_run sha256 ops db1) =
    (idem_run sha256 ops db1,
     if b_fingerprint input = fp
     then Inr (Replay (responseCode res) (case responseJson res of None \<Rightarrow> JNull | Some j \<Rightarrow> j))
     else Inl IDEMPOTENCY_KEY_REUSED)"
proof -
  have "db1 = map (\<lambda>r. if completable token r then completed_row res r else r) db"
    using assms(1) by (auto simp: complete_request_def split: if_splits)
  then have "lookup_key k db1 = Some (completed_row res r)"
    using assms(2,3) by (simp add: lookup_map)
  from completed_stable_run [OF this, of sha256 ops]
  have "lookup_key k (idem_run sha256 ops db1) = Some (completed_row res r)"
    by (simp add: completed_row_def)
  with assms(4,5) show ?thesis by (auto simp: begin_request_def completed_row_def)
qed

section \<open>Witnesses\<close>

definition sample_begin :: begin_input where
  "sample_begin = \<lparr>b_scope = ''s'', b_key = ''k'', b_fingerprint = ''f'', b_leaseMs = 1000\<rparr>"

definition sample_stored :: stored_result where
  "sample_stored = \<lparr>responseCode = 201, responseJson = Some (JStr ''ok'')\<rparr>"

theorem lease_is_exclusive_witness:
  "\<forall>u. snd (begin_request id 900 ''t2'' sample_begin [fresh_row id 0 ''t1'' sample_begin]) \<noteq> Inr (Acquired u)"
  using lease_is_exclusive [of "[]" id 0 "''t1''" sample_begin "[fresh_row id 0 ''t1'' sample_begin]" "''t1''" "[]" sample_begin 900 "''t2''"]
  by (simp add: begin_request_def lookup_key_def idem_run_def sample_begin_def)

theorem completed_request_replays_witness:
  "snd (begin_request id 5 ''t2'' sample_begin
     (fst (complete_request ''t1'' sample_stored [fresh_row id 0 ''t1'' sample_begin]))) = Inr (Replay 201 (JStr ''ok''))"
proof -
  let ?db = "[fresh_row id 0 ''t1'' sample_begin]"
  have "utf8_length (json_text (JStr ''ok'')) = 4"
    by (simp add: utf8_length_def serializeString_def escape_char_def)
  then have c: "complete_request ''t1'' sample_stored ?db = (fst (complete_request ''t1'' sample_stored ?db), Inr ())"
    by (simp add: complete_request_def sample_stored_def completable_def fresh_row_def)
  have l: "lookup_key (key_of id sample_begin) ?db = Some (fresh_row id 0 ''t1'' sample_begin)"
    by (simp add: lookup_key_def)
  from completed_request_replays [OF c l, of "''f''" id sample_begin 5 "''t2''" "[]"] show ?thesis
    by (simp add: completable_def fresh_row_def sample_begin_def sample_stored_def idem_run_def)
qed

end
