(* ===== verification/Workspace_FSM.thy ===== *)
theory Workspace_FSM
  imports DG_Prelude
begin

text \<open>
  The workspace lifecycle of \<open>packages/sandbox/src/workspaces/fsm.ts\<close>: the edge table, the guard of
  every trigger, and the throwing helper \<open>transitionWorkspace\<close>.
\<close>

datatype workspace_status =
    WS_REQUESTED | WS_PROVISIONING | WS_CHECKING_OUT | WS_VERIFYING | WS_READY | WS_DESTROYING
  | WS_DESTROYED | WS_FAILED | WS_QUARANTINED

fun workspace_status_str :: "workspace_status \<Rightarrow> string" where
  "workspace_status_str WS_REQUESTED = ''REQUESTED''"
| "workspace_status_str WS_PROVISIONING = ''PROVISIONING''"
| "workspace_status_str WS_CHECKING_OUT = ''CHECKING_OUT''"
| "workspace_status_str WS_VERIFYING = ''VERIFYING''"
| "workspace_status_str WS_READY = ''READY''"
| "workspace_status_str WS_DESTROYING = ''DESTROYING''"
| "workspace_status_str WS_DESTROYED = ''DESTROYED''"
| "workspace_status_str WS_FAILED = ''FAILED''"
| "workspace_status_str WS_QUARANTINED = ''QUARANTINED''"

definition WORKSPACE_TERMINAL_STATUSES :: "workspace_status list" where
  "WORKSPACE_TERMINAL_STATUSES = [WS_DESTROYED]"

definition WORKSPACE_CLEANUP_REQUIRED_STATUSES :: "workspace_status list" where
  "WORKSPACE_CLEANUP_REQUIRED_STATUSES = [WS_FAILED, WS_QUARANTINED]"

definition isTerminalWorkspace :: "workspace_status \<Rightarrow> bool" where
  "isTerminalWorkspace s \<longleftrightarrow> s \<in> set WORKSPACE_TERMINAL_STATUSES"

definition workspaceCleanupRequired :: "workspace_status \<Rightarrow> bool" where
  "workspaceCleanupRequired s \<longleftrightarrow> s \<in> set WORKSPACE_CLEANUP_REQUIRED_STATUSES"

datatype workspace_trigger =
    Begin_provisioning | Provision_complete | Checkout_complete | Verify_ok | Verify_fail | Ws_fail
  | Ws_quarantine | Begin_destroy | Destroy_confirmed | Destroy_uncertain

fun workspace_trigger_str :: "workspace_trigger \<Rightarrow> string" where
  "workspace_trigger_str Begin_provisioning = ''begin-provisioning''"
| "workspace_trigger_str Provision_complete = ''provision-complete''"
| "workspace_trigger_str Checkout_complete = ''checkout-complete''"
| "workspace_trigger_str Verify_ok = ''verify-ok''"
| "workspace_trigger_str Verify_fail = ''verify-fail''"
| "workspace_trigger_str Ws_fail = ''fail''"
| "workspace_trigger_str Ws_quarantine = ''quarantine''"
| "workspace_trigger_str Begin_destroy = ''begin-destroy''"
| "workspace_trigger_str Destroy_confirmed = ''destroy-confirmed''"
| "workspace_trigger_str Destroy_uncertain = ''destroy-uncertain''"

record workspace_guards =
  fenceValid :: "bool option"
  cancellationRequested :: "bool option"
  capabilitiesVerified :: "bool option"
  providerWorkspaceCreated :: "bool option"
  safeCheckoutApplied :: "bool option"
  headMatchesResolvedSha :: "bool option"
  remoteIdentityVerified :: "bool option"
  attestationComplete :: "bool option"
  verificationFailed :: "bool option"
  failureKnown :: "bool option"
  providerAmbiguity :: "bool option"
  providerProvesDestroyed :: "bool option"
  cleanupAttemptsExhausted :: "bool option"

record workspace_edge =
  ws_from :: workspace_status
  ws_to :: workspace_status
  ws_guard :: string

definition ws_edge :: "workspace_status \<Rightarrow> workspace_status \<Rightarrow> string \<Rightarrow> workspace_edge" where
  "ws_edge f t g = \<lparr>ws_from = f, ws_to = t, ws_guard = g\<rparr>"

fun WORKSPACE_LEGAL_EDGES :: "workspace_trigger \<Rightarrow> workspace_edge list" where
  "WORKSPACE_LEGAL_EDGES Begin_provisioning =
     [ws_edge WS_REQUESTED WS_PROVISIONING ''fence valid + no cancellation + capabilities/isolation verified'']"
| "WORKSPACE_LEGAL_EDGES Provision_complete =
     [ws_edge WS_PROVISIONING WS_CHECKING_OUT
        ''fence valid + provider workspace created under stable idempotency key'']"
| "WORKSPACE_LEGAL_EDGES Checkout_complete =
     [ws_edge WS_CHECKING_OUT WS_VERIFYING ''fence valid + safe checkout plan applied + observed HEAD captured'']"
| "WORKSPACE_LEGAL_EDGES Verify_ok =
     [ws_edge WS_VERIFYING WS_READY ''fence valid + exact SHA equality + remote identity + attestation complete'']"
| "WORKSPACE_LEGAL_EDGES Verify_fail =
     [ws_edge WS_VERIFYING WS_QUARANTINED ''checkout mismatch observed; workspace must never be used'']"
| "WORKSPACE_LEGAL_EDGES Ws_fail =
     [ws_edge WS_REQUESTED WS_FAILED ''known, non-ambiguous normalized failure'',
      ws_edge WS_PROVISIONING WS_FAILED ''known, non-ambiguous normalized failure'',
      ws_edge WS_CHECKING_OUT WS_FAILED ''known, non-ambiguous normalized failure'',
      ws_edge WS_VERIFYING WS_FAILED ''known, non-ambiguous normalized failure (e.g. REF_CHANGED)'']"
| "WORKSPACE_LEGAL_EDGES Ws_quarantine =
     [ws_edge WS_PROVISIONING WS_QUARANTINED ''provider create/inspect outcome ambiguous'',
      ws_edge WS_CHECKING_OUT WS_QUARANTINED ''provider checkout outcome ambiguous'',
      ws_edge WS_VERIFYING WS_QUARANTINED ''provider verification outcome ambiguous'',
      ws_edge WS_DESTROYING WS_QUARANTINED ''destruction attempts exhausted, still unproven'']"
| "WORKSPACE_LEGAL_EDGES Begin_destroy =
     [ws_edge WS_REQUESTED WS_DESTROYING ''fence valid or durable cancellation; lifecycle end'',
      ws_edge WS_PROVISIONING WS_DESTROYING ''fence valid or durable cancellation'',
      ws_edge WS_CHECKING_OUT WS_DESTROYING ''fence valid or durable cancellation'',
      ws_edge WS_VERIFYING WS_DESTROYING ''fence valid or durable cancellation'',
      ws_edge WS_READY WS_DESTROYING ''fence valid or durable cancellation; run complete'',
      ws_edge WS_FAILED WS_DESTROYING ''durable cleanup of failed workspace'',
      ws_edge WS_QUARANTINED WS_DESTROYING ''retry destruction of quarantined workspace'']"
| "WORKSPACE_LEGAL_EDGES Destroy_confirmed =
     [ws_edge WS_DESTROYING WS_DESTROYED ''provider proves workspace is gone (inspection, not assumption)'']"
| "WORKSPACE_LEGAL_EDGES Destroy_uncertain =
     [ws_edge WS_DESTROYING WS_QUARANTINED
        ''provider cannot prove destruction after exhausted attempts; never claim cleaned'']"

record workspace_verdict =
  wv_allowed :: bool
  wv_to :: "workspace_status option"
  wv_reason :: string

definition isLegalWorkspaceEdge :: "workspace_status \<Rightarrow> workspace_trigger \<Rightarrow> workspace_edge option" where
  "isLegalWorkspaceEdge f t = find (\<lambda>e. ws_from e = f) (WORKSPACE_LEGAL_EDGES t)"

abbreviation g :: "bool option \<Rightarrow> bool" where
  "g b \<equiv> b = Some True"

definition ws_allowed :: "workspace_edge \<Rightarrow> workspace_verdict" where
  "ws_allowed e = \<lparr>wv_allowed = True, wv_to = Some (ws_to e), wv_reason = ''guard satisfied''\<rparr>"

definition ws_denied :: "workspace_edge \<Rightarrow> string \<Rightarrow> workspace_verdict" where
  "ws_denied e r = \<lparr>wv_allowed = False, wv_to = Some (ws_to e), wv_reason = ws_guard e @ ''; '' @ r\<rparr>"

fun ws_guard_holds :: "workspace_trigger \<Rightarrow> workspace_guards \<Rightarrow> bool" where
  "ws_guard_holds Begin_provisioning c =
     (g (fenceValid c) \<and> \<not> g (cancellationRequested c) \<and> g (capabilitiesVerified c))"
| "ws_guard_holds Provision_complete c =
     (g (fenceValid c) \<and> \<not> g (cancellationRequested c) \<and> g (providerWorkspaceCreated c))"
| "ws_guard_holds Checkout_complete c =
     (g (fenceValid c) \<and> \<not> g (cancellationRequested c) \<and> g (safeCheckoutApplied c))"
| "ws_guard_holds Verify_ok c =
     (g (fenceValid c) \<and> \<not> g (cancellationRequested c) \<and> g (headMatchesResolvedSha c) \<and>
      g (remoteIdentityVerified c) \<and> g (attestationComplete c))"
| "ws_guard_holds Verify_fail c = g (verificationFailed c)"
| "ws_guard_holds Ws_fail c = (g (failureKnown c) \<and> (g (fenceValid c) \<or> g (cancellationRequested c)))"
| "ws_guard_holds Ws_quarantine c = g (providerAmbiguity c)"
| "ws_guard_holds Begin_destroy c = (g (fenceValid c) \<or> g (cancellationRequested c))"
| "ws_guard_holds Destroy_confirmed c = g (providerProvesDestroyed c)"
| "ws_guard_holds Destroy_uncertain c = (\<not> g (providerProvesDestroyed c) \<and> g (cleanupAttemptsExhausted c))"

fun ws_denial :: "workspace_trigger \<Rightarrow> string" where
  "ws_denial Begin_provisioning = ''fence, cancellation, or capability/isolation proof missing''"
| "ws_denial Provision_complete = ''fence or stable provider creation not proven''"
| "ws_denial Checkout_complete = ''fence or safe checkout application not proven''"
| "ws_denial Verify_ok = ''READY requires exact SHA equality, remote identity, and attestation''"
| "ws_denial Verify_fail = ''verification failure not observed''"
| "ws_denial Ws_fail = ''known failure with valid fence or cancellation required''"
| "ws_denial Ws_quarantine = ''provider outcome ambiguity not established''"
| "ws_denial Begin_destroy = ''begin-destroy requires a valid fence or durable cancellation''"
| "ws_denial Destroy_confirmed = ''provider must prove absence before DESTROYED''"
| "ws_denial Destroy_uncertain = ''destruction uncertainty requires exhausted cleanup attempts''"

definition resolveWorkspaceEdge ::
  "workspace_status \<Rightarrow> workspace_trigger \<Rightarrow> workspace_guards \<Rightarrow> workspace_verdict" where
  "resolveWorkspaceEdge f t c =
     (if isTerminalWorkspace f
      then \<lparr>wv_allowed = False, wv_to = None,
            wv_reason = ''workspace is terminal in '' @ quoted (workspace_status_str f)\<rparr>
      else case isLegalWorkspaceEdge f t of
        None \<Rightarrow> \<lparr>wv_allowed = False, wv_to = None,
                 wv_reason = ''illegal transition '' @ workspace_status_str f @ '' --'' @
                   workspace_trigger_str t @ ''--> (none)''\<rparr>
      | Some e \<Rightarrow> if ws_guard_holds t c then ws_allowed e else ws_denied e (ws_denial t))"

definition transitionWorkspace ::
  "workspace_status \<Rightarrow> workspace_trigger \<Rightarrow> workspace_guards \<Rightarrow> string + workspace_status" where
  "transitionWorkspace f t c =
     (let v = resolveWorkspaceEdge f t c in
      if wv_allowed v then (case wv_to v of Some s \<Rightarrow> Inr s | None \<Rightarrow> Inl ''WORKSPACE_ILLEGAL_TRANSITION'')
      else Inl ''WORKSPACE_ILLEGAL_TRANSITION'')"

section \<open>The lifecycle\<close>

definition ws_fire :: "workspace_status \<Rightarrow> workspace_trigger \<Rightarrow> workspace_guards \<Rightarrow> workspace_status option" where
  "ws_fire s t c = (case transitionWorkspace s t c of Inr s' \<Rightarrow> Some s' | Inl _ \<Rightarrow> None)"

lemmas ws_simps [fsm_simps] =
  ws_fire_def transitionWorkspace_def resolveWorkspaceEdge_def isTerminalWorkspace_def
  WORKSPACE_TERMINAL_STATUSES_def isLegalWorkspaceEdge_def ws_edge_def ws_allowed_def ws_denied_def Let_def

interpretation wsl: lifecycle ws_fire isTerminalWorkspace
  by unfold_locales (simp add: ws_fire_def transitionWorkspace_def resolveWorkspaceEdge_def)

text \<open>The statuses a workspace is in on its way to use, and those it never returns from to use.\<close>

definition ws_spoiled :: "workspace_status \<Rightarrow> bool" where
  "ws_spoiled s \<longleftrightarrow> s \<in> {WS_FAILED, WS_QUARANTINED, WS_DESTROYING, WS_DESTROYED}"

lemma spoiled_step: "ws_spoiled s \<Longrightarrow> ws_fire s t c = Some s' \<Longrightarrow> ws_spoiled s'"
  by (cases s; cases t) (auto simp: ws_spoiled_def fsm_simps split: if_splits)

lemma spoiled_run: "ws_spoiled s \<Longrightarrow> fsm_run ws_fire s es = Some s' \<Longrightarrow> ws_spoiled s'"
  using wsl.run_invariant [of s es s' ws_spoiled] spoiled_step by blast

lemma not_spoiled_ready: "fsm_run ws_fire s es = Some WS_READY \<Longrightarrow> \<not> ws_spoiled s"
  using spoiled_run [of s es WS_READY] by (auto simp: ws_spoiled_def)

lemma ws_run_Cons:
  "fsm_run ws_fire s ((t, c) # es) = Some u \<longleftrightarrow> (\<exists>m. ws_fire s t c = Some m \<and> fsm_run ws_fire m es = Some u)"
  by (auto split: option.splits)

definition ws_next :: "workspace_status \<Rightarrow> (workspace_trigger \<times> workspace_status) option" where
  "ws_next s =
     (case s of WS_REQUESTED \<Rightarrow> Some (Begin_provisioning, WS_PROVISIONING)
      | WS_PROVISIONING \<Rightarrow> Some (Provision_complete, WS_CHECKING_OUT)
      | WS_CHECKING_OUT \<Rightarrow> Some (Checkout_complete, WS_VERIFYING)
      | WS_VERIFYING \<Rightarrow> Some (Verify_ok, WS_READY)
      | _ \<Rightarrow> None)"

lemma ws_forward:
  assumes "ws_fire s t c = Some m" and "\<not> ws_spoiled m"
  shows "ws_next s = Some (t, m) \<and> ws_guard_holds t c"
  using assms by (cases s; cases t) (auto simp: ws_spoiled_def ws_next_def fsm_simps split: if_splits)

lemma ws_fire_next: "ws_next s = Some (t, m) \<Longrightarrow> ws_guard_holds t c \<Longrightarrow> ws_fire s t c = Some m"
  by (cases s) (auto simp: ws_next_def fsm_simps)

lemma ready_step:
  assumes "ws_next s = Some (t0, m0)"
  shows "fsm_run ws_fire s es = Some WS_READY \<longleftrightarrow>
    (\<exists>c es'. es = (t0, c) # es' \<and> ws_guard_holds t0 c \<and> fsm_run ws_fire m0 es' = Some WS_READY)"
proof (cases es)
  case Nil
  with assms show ?thesis by (auto simp: ws_next_def split: workspace_status.splits)
next
  case (Cons e es')
  obtain t c where e: "e = (t, c)" by (cases e)
  have "t = t0 \<and> m = m0 \<and> ws_guard_holds t0 c" if "ws_fire s t c = Some m" "fsm_run ws_fire m es' = Some WS_READY" for m
    using ws_forward [OF that(1) not_spoiled_ready [OF that(2)]] assms by auto
  with ws_fire_next [OF assms] show ?thesis unfolding Cons e ws_run_Cons by blast
qed

lemma ready_stays: "fsm_run ws_fire WS_READY es = Some WS_READY \<longleftrightarrow> es = []"
proof
  show "fsm_run ws_fire WS_READY es = Some WS_READY \<Longrightarrow> es = []"
  proof (cases es)
    case (Cons e es')
    assume r: "fsm_run ws_fire WS_READY es = Some WS_READY"
    obtain t c where "e = (t, c)" by (cases e)
    with r Cons obtain m where m: "ws_fire WS_READY t c = Some m" "fsm_run ws_fire m es' = Some WS_READY"
      using ws_run_Cons by blast
    from ws_forward [OF m(1) not_spoiled_ready [OF m(2)]] show ?thesis by (simp add: ws_next_def)
  qed simp
qed simp

text \<open>The fence is valid and no cancellation was requested.\<close>

definition ws_live :: "workspace_guards \<Rightarrow> bool" where
  "ws_live c \<longleftrightarrow> fenceValid c = Some True \<and> cancellationRequested c \<noteq> Some True"

lemma ready_path:
  "fsm_run ws_fire WS_REQUESTED es = Some WS_READY \<longleftrightarrow>
     (\<exists>c1 c2 c3 c4. es = [(Begin_provisioning, c1), (Provision_complete, c2), (Checkout_complete, c3), (Verify_ok, c4)] \<and>
        ws_guard_holds Begin_provisioning c1 \<and> ws_guard_holds Provision_complete c2 \<and>
        ws_guard_holds Checkout_complete c3 \<and> ws_guard_holds Verify_ok c4)"
proof -
  have n: "ws_next WS_REQUESTED = Some (Begin_provisioning, WS_PROVISIONING)"
    "ws_next WS_PROVISIONING = Some (Provision_complete, WS_CHECKING_OUT)"
    "ws_next WS_CHECKING_OUT = Some (Checkout_complete, WS_VERIFYING)"
    "ws_next WS_VERIFYING = Some (Verify_ok, WS_READY)" by (simp_all add: ws_next_def)
  show ?thesis
    unfolding ready_step [OF n(1)] ready_step [OF n(2)] ready_step [OF n(3)] ready_step [OF n(4)] ready_stays
    by blast
qed

text \<open>
  A workspace becomes READY by exactly one path: provisioning, creation, checkout
  and verification in this order, each with a valid fence and no cancellation, and with verified
  capabilities, the created provider workspace, the applied checkout, and at last the exact
  commit, the verified remote identity and the complete attestation.  No failed, quarantined or
  destroyed workspace is ever READY again.
\<close>

theorem workspace_ready_iff:
  "(fsm_run ws_fire WS_REQUESTED es = Some WS_READY \<longleftrightarrow>
     (\<exists>c1 c2 c3 c4. es = [(Begin_provisioning, c1), (Provision_complete, c2), (Checkout_complete, c3), (Verify_ok, c4)] \<and>
        ws_live c1 \<and> capabilitiesVerified c1 = Some True \<and>
        ws_live c2 \<and> providerWorkspaceCreated c2 = Some True \<and>
        ws_live c3 \<and> safeCheckoutApplied c3 = Some True \<and>
        ws_live c4 \<and> headMatchesResolvedSha c4 = Some True \<and> remoteIdentityVerified c4 = Some True \<and>
        attestationComplete c4 = Some True)) \<and>
   (ws_spoiled s \<longrightarrow> fsm_run ws_fire s es \<noteq> Some WS_READY)"
  using not_spoiled_ready unfolding ready_path by (auto simp: ws_live_def)

definition all_proven :: workspace_guards where
  "all_proven =
     \<lparr>fenceValid = Some True, cancellationRequested = None, capabilitiesVerified = Some True,
      providerWorkspaceCreated = Some True, safeCheckoutApplied = Some True, headMatchesResolvedSha = Some True,
      remoteIdentityVerified = Some True, attestationComplete = Some True, verificationFailed = None,
      failureKnown = None, providerAmbiguity = None, providerProvesDestroyed = None,
      cleanupAttemptsExhausted = None\<rparr>"

theorem workspace_ready_iff_witness:
  "let es = [(Begin_provisioning, all_proven), (Provision_complete, all_proven),
             (Checkout_complete, all_proven), (Verify_ok, all_proven)]
   in fsm_run ws_fire WS_REQUESTED es = Some WS_READY \<and> fsm_run ws_fire WS_QUARANTINED es \<noteq> Some WS_READY"
  unfolding Let_def
  using workspace_ready_iff [of "[(Begin_provisioning, all_proven), (Provision_complete, all_proven),
     (Checkout_complete, all_proven), (Verify_ok, all_proven)]" WS_QUARANTINED]
  by (simp add: ws_spoiled_def ws_live_def all_proven_def)

definition cleanup_guards :: workspace_guards where
  "cleanup_guards =
     \<lparr>fenceValid = None, cancellationRequested = Some True, capabilitiesVerified = None,
      providerWorkspaceCreated = None, safeCheckoutApplied = None, headMatchesResolvedSha = None,
      remoteIdentityVerified = None, attestationComplete = None, verificationFailed = None,
      failureKnown = None, providerAmbiguity = None, providerProvesDestroyed = Some True,
      cleanupAttemptsExhausted = None\<rparr>"

text \<open>
  A workspace is recorded as destroyed only by a confirmation with provider proof,
  and every workspace, whatever its status, can still be driven to DESTROYED.
\<close>

theorem workspace_destroyed_only_with_proof:
  "(ws_fire s t c = Some WS_DESTROYED \<longleftrightarrow>
      s = WS_DESTROYING \<and> t = Destroy_confirmed \<and> providerProvesDestroyed c = Some True) \<and>
   (\<exists>es. length es \<le> 2 \<and> fsm_run ws_fire s es = Some WS_DESTROYED)"
proof
  show "ws_fire s t c = Some WS_DESTROYED \<longleftrightarrow>
      s = WS_DESTROYING \<and> t = Destroy_confirmed \<and> providerProvesDestroyed c = Some True"
    by (cases s; cases t) (auto simp: fsm_simps)
  have "fsm_run ws_fire s [(Begin_destroy, cleanup_guards), (Destroy_confirmed, cleanup_guards)] = Some WS_DESTROYED"
    if "s \<noteq> WS_DESTROYING" "s \<noteq> WS_DESTROYED"
    using that by (cases s) (simp_all add: fsm_simps cleanup_guards_def)
  moreover have "fsm_run ws_fire WS_DESTROYING [(Destroy_confirmed, cleanup_guards)] = Some WS_DESTROYED"
    by (simp add: fsm_simps cleanup_guards_def)
  moreover have "fsm_run ws_fire WS_DESTROYED [] = Some WS_DESTROYED" by simp
  ultimately show "\<exists>es. length es \<le> 2 \<and> fsm_run ws_fire s es = Some WS_DESTROYED"
    by (metis le_numeral_extra(4) length_Cons list.size(3) nat_le_linear not_less_eq_eq numeral_2_eq_2)
qed

end
