(* ===== verification/Run_Command_FSM.thy ===== *)
theory Run_Command_FSM
  imports DG_Prelude
begin

text \<open>
  The table-driven lifecycles without guards: workflow runs and steps
  (\<open>packages/workflows/src/runs/fsm.ts\<close>) and sandbox commands
  (\<open>packages/sandbox/src/commands/command-fsm.ts\<close>).  Each resolver refuses a terminal status,
  then takes the first edge of the trigger that starts at the status.
\<close>

datatype run_state =
    Run_PENDING | Run_PROVISIONING | Run_RUNNING | Run_PAUSED | Run_WAITING_APPROVAL | Run_SUCCEEDED
  | Run_FAILED | Run_CANCELLED | Run_RECONCILING

datatype run_trigger =
    R_begin | R_provisioned | R_run | R_pause | R_resume | R_await_approval | R_approval_resolved
  | R_succeed | R_fail | R_cancel | R_reconcile

datatype ('s, 't) table_verdict = Edge_to 's | No_edge 's 't | Terminal_state 's

text \<open>The common shape of the three resolvers; the refusals stand for the illegal-transition verdicts.\<close>

definition resolve_table ::
  "('t \<Rightarrow> ('s \<times> 's) list) \<Rightarrow> 's list \<Rightarrow> 's \<Rightarrow> 't \<Rightarrow> ('s, 't) table_verdict" where
  "resolve_table edges terminals f t =
     (if f \<in> set terminals then Terminal_state f
      else case find (\<lambda>e. fst e = f) (edges t) of
        None \<Rightarrow> No_edge f t
      | Some e \<Rightarrow> Edge_to (snd e))"

definition table_fire ::
  "('t \<Rightarrow> ('s \<times> 's) list) \<Rightarrow> 's list \<Rightarrow> 's \<Rightarrow> 't \<Rightarrow> unit \<Rightarrow> 's option" where
  "table_fire edges terminals f t c =
     (case resolve_table edges terminals f t of Edge_to s \<Rightarrow> Some s | _ \<Rightarrow> None)"

fun RUN_EDGES :: "run_trigger \<Rightarrow> (run_state \<times> run_state) list" where
  "RUN_EDGES R_begin = [(Run_PENDING, Run_PROVISIONING)]"
| "RUN_EDGES R_provisioned = [(Run_PROVISIONING, Run_RUNNING)]"
| "RUN_EDGES R_run = [(Run_PENDING, Run_RUNNING)]"
| "RUN_EDGES R_pause = [(Run_RUNNING, Run_PAUSED)]"
| "RUN_EDGES R_resume = [(Run_PAUSED, Run_RUNNING)]"
| "RUN_EDGES R_await_approval = [(Run_RUNNING, Run_WAITING_APPROVAL)]"
| "RUN_EDGES R_approval_resolved = [(Run_WAITING_APPROVAL, Run_RUNNING)]"
| "RUN_EDGES R_succeed = [(Run_RUNNING, Run_SUCCEEDED)]"
| "RUN_EDGES R_fail =
     [(Run_PENDING, Run_FAILED), (Run_PROVISIONING, Run_FAILED), (Run_RUNNING, Run_FAILED),
      (Run_RECONCILING, Run_FAILED)]"
| "RUN_EDGES R_cancel =
     [(Run_PENDING, Run_CANCELLED), (Run_PROVISIONING, Run_CANCELLED), (Run_RUNNING, Run_CANCELLED),
      (Run_PAUSED, Run_CANCELLED), (Run_WAITING_APPROVAL, Run_CANCELLED)]"
| "RUN_EDGES R_reconcile =
     [(Run_PENDING, Run_RECONCILING), (Run_PROVISIONING, Run_RECONCILING), (Run_RUNNING, Run_RECONCILING),
      (Run_PAUSED, Run_RECONCILING), (Run_WAITING_APPROVAL, Run_RECONCILING)]"

definition RUN_TERMINALS :: "run_state list" where
  "RUN_TERMINALS = [Run_SUCCEEDED, Run_FAILED, Run_CANCELLED]"

definition resolveRunEdge :: "run_state \<Rightarrow> run_trigger \<Rightarrow> (run_state, run_trigger) table_verdict" where
  "resolveRunEdge = resolve_table RUN_EDGES RUN_TERMINALS"

definition run_fire :: "run_state \<Rightarrow> run_trigger \<Rightarrow> unit \<Rightarrow> run_state option" where
  "run_fire = table_fire RUN_EDGES RUN_TERMINALS"

datatype step_state =
    Step_PENDING | Step_PROVISIONING | Step_RUNNING | Step_PAUSED | Step_SUCCEEDED | Step_FAILED
  | Step_CANCELLED | Step_RECONCILING

datatype step_trigger = S_begin | S_provisioned | S_run | S_pause | S_resume | S_succeed | S_fail | S_cancel

fun STEP_EDGES :: "step_trigger \<Rightarrow> (step_state \<times> step_state) list" where
  "STEP_EDGES S_begin = [(Step_PENDING, Step_PROVISIONING)]"
| "STEP_EDGES S_provisioned = [(Step_PROVISIONING, Step_RUNNING)]"
| "STEP_EDGES S_run = [(Step_PENDING, Step_RUNNING)]"
| "STEP_EDGES S_pause = [(Step_RUNNING, Step_PAUSED)]"
| "STEP_EDGES S_resume = [(Step_PAUSED, Step_RUNNING)]"
| "STEP_EDGES S_succeed = [(Step_RUNNING, Step_SUCCEEDED)]"
| "STEP_EDGES S_fail = [(Step_PROVISIONING, Step_FAILED), (Step_RUNNING, Step_FAILED), (Step_PAUSED, Step_FAILED)]"
| "STEP_EDGES S_cancel =
     [(Step_PENDING, Step_CANCELLED), (Step_PROVISIONING, Step_CANCELLED), (Step_RUNNING, Step_CANCELLED),
      (Step_PAUSED, Step_CANCELLED)]"

definition STEP_TERMINALS :: "step_state list" where
  "STEP_TERMINALS = [Step_SUCCEEDED, Step_FAILED, Step_CANCELLED]"

definition resolveStepEdge :: "step_state \<Rightarrow> step_trigger \<Rightarrow> (step_state, step_trigger) table_verdict" where
  "resolveStepEdge = resolve_table STEP_EDGES STEP_TERMINALS"

definition step_fire :: "step_state \<Rightarrow> step_trigger \<Rightarrow> unit \<Rightarrow> step_state option" where
  "step_fire = table_fire STEP_EDGES STEP_TERMINALS"

datatype command_state =
    Cmd_PROPOSED | Cmd_AUTHORIZED | Cmd_QUEUED | Cmd_STARTING | Cmd_RUNNING | Cmd_SUCCEEDED | Cmd_FAILED
  | Cmd_TIMING_OUT | Cmd_CANCELLING | Cmd_TERMINATING | Cmd_TIMED_OUT | Cmd_CANCELLED
  | Cmd_TERMINATION_FAILED | Cmd_UNKNOWN | Cmd_RECONCILING | Cmd_QUARANTINED

datatype command_trigger =
    C_authorize | C_queue | C_start | C_running | C_succeed | C_fail | C_deadline | C_cancel_request
  | C_terminate | C_timed_out | C_cancelled | C_termination_failed | C_unknown | C_reconcile
  | C_quarantine | C_resolved

definition COMMAND_TERMINALS :: "command_state list" where
  "COMMAND_TERMINALS =
     [Cmd_SUCCEEDED, Cmd_FAILED, Cmd_TIMED_OUT, Cmd_CANCELLED, Cmd_TERMINATION_FAILED, Cmd_QUARANTINED]"

fun COMMAND_EDGES :: "command_trigger \<Rightarrow> (command_state \<times> command_state) list" where
  "COMMAND_EDGES C_authorize = [(Cmd_PROPOSED, Cmd_AUTHORIZED)]"
| "COMMAND_EDGES C_queue = [(Cmd_AUTHORIZED, Cmd_QUEUED)]"
| "COMMAND_EDGES C_start = [(Cmd_QUEUED, Cmd_STARTING)]"
| "COMMAND_EDGES C_running = [(Cmd_STARTING, Cmd_RUNNING)]"
| "COMMAND_EDGES C_succeed = [(Cmd_RUNNING, Cmd_SUCCEEDED)]"
| "COMMAND_EDGES C_fail = [(Cmd_RUNNING, Cmd_FAILED), (Cmd_STARTING, Cmd_FAILED)]"
| "COMMAND_EDGES C_deadline = [(Cmd_RUNNING, Cmd_TIMING_OUT)]"
| "COMMAND_EDGES C_cancel_request = [(Cmd_RUNNING, Cmd_CANCELLING)]"
| "COMMAND_EDGES C_terminate = [(Cmd_TIMING_OUT, Cmd_TERMINATING), (Cmd_CANCELLING, Cmd_TERMINATING)]"
| "COMMAND_EDGES C_timed_out = [(Cmd_TERMINATING, Cmd_TIMED_OUT)]"
| "COMMAND_EDGES C_cancelled = [(Cmd_TERMINATING, Cmd_CANCELLED)]"
| "COMMAND_EDGES C_termination_failed = [(Cmd_TERMINATING, Cmd_TERMINATION_FAILED)]"
| "COMMAND_EDGES C_unknown =
     [(Cmd_RUNNING, Cmd_UNKNOWN), (Cmd_STARTING, Cmd_UNKNOWN), (Cmd_TERMINATING, Cmd_UNKNOWN)]"
| "COMMAND_EDGES C_reconcile = [(Cmd_UNKNOWN, Cmd_RECONCILING)]"
| "COMMAND_EDGES C_quarantine = [(Cmd_RECONCILING, Cmd_QUARANTINED)]"
| "COMMAND_EDGES C_resolved = [(Cmd_RECONCILING, Cmd_SUCCEEDED), (Cmd_RECONCILING, Cmd_FAILED)]"

definition resolveCommandEdge ::
  "command_state \<Rightarrow> command_trigger \<Rightarrow> (command_state, command_trigger) table_verdict" where
  "resolveCommandEdge = resolve_table COMMAND_EDGES COMMAND_TERMINALS"

definition isTerminalCommand :: "command_state \<Rightarrow> bool" where
  "isTerminalCommand s \<longleftrightarrow> s \<in> set COMMAND_TERMINALS"

definition command_fire :: "command_state \<Rightarrow> command_trigger \<Rightarrow> unit \<Rightarrow> command_state option" where
  "command_fire = table_fire COMMAND_EDGES COMMAND_TERMINALS"

section \<open>The lifecycles\<close>

lemmas table_simps [fsm_simps] = table_fire_def resolve_table_def

lemma table_fire_terminal: "f \<in> set terminals \<Longrightarrow> table_fire edges terminals f t c = None"
  by (simp add: fsm_simps)

interpretation runl: lifecycle run_fire "\<lambda>s. s \<in> set RUN_TERMINALS"
  by unfold_locales (simp add: run_fire_def table_fire_terminal)

interpretation stepl: lifecycle step_fire "\<lambda>s. s \<in> set STEP_TERMINALS"
  by unfold_locales (simp add: step_fire_def table_fire_terminal)

fun command_rank :: "command_state \<Rightarrow> nat" where
  "command_rank Cmd_PROPOSED = 9"
| "command_rank Cmd_AUTHORIZED = 8"
| "command_rank Cmd_QUEUED = 7"
| "command_rank Cmd_STARTING = 6"
| "command_rank Cmd_RUNNING = 5"
| "command_rank Cmd_TIMING_OUT = 4"
| "command_rank Cmd_CANCELLING = 4"
| "command_rank Cmd_TERMINATING = 3"
| "command_rank Cmd_UNKNOWN = 2"
| "command_rank Cmd_RECONCILING = 1"
| "command_rank _ = 0"

interpretation cmdl: ranked_lifecycle command_fire isTerminalCommand command_rank
proof unfold_locales
  show "isTerminalCommand s \<Longrightarrow> command_fire s t c = None" for s t c
    by (simp add: command_fire_def isTerminalCommand_def table_fire_terminal)
  show "command_fire s t c = Some s' \<Longrightarrow> s' \<noteq> s \<Longrightarrow> command_rank s' < command_rank s" for s t c s'
    by (cases t) (auto simp: command_fire_def fsm_simps split: if_splits)
qed

section \<open>Properties\<close>

lemma reconciling_run: "s \<in> {Run_RECONCILING, Run_FAILED} \<Longrightarrow> run_fire s t c = Some s' \<Longrightarrow> s' \<in> {Run_RECONCILING, Run_FAILED}"
  by (cases t) (auto simp: run_fire_def fsm_simps RUN_TERMINALS_def split: if_splits)

text \<open>
  A workflow run succeeds only from RUNNING, no terminal run moves again, every
  non-terminal run can be brought to a terminal status, and a run that entered reconciliation can
  only fail: no event sequence resumes, cancels or completes it.
\<close>

theorem run_outcomes:
  "(run_fire s t c = Some Run_SUCCEEDED \<longleftrightarrow> s = Run_RUNNING \<and> t = R_succeed) \<and>
   (s \<in> set RUN_TERMINALS \<longleftrightarrow> (\<forall>t c. run_fire s t c = None)) \<and>
   (\<exists>es u. length es \<le> 1 \<and> fsm_run run_fire s es = Some u \<and> u \<in> set RUN_TERMINALS) \<and>
   (fsm_run run_fire Run_RECONCILING es = Some u \<longrightarrow> u = Run_RECONCILING \<or> u = Run_FAILED)"
proof (intro conjI)
  show "run_fire s t c = Some Run_SUCCEEDED \<longleftrightarrow> s = Run_RUNNING \<and> t = R_succeed"
    by (cases s; cases t) (auto simp: run_fire_def fsm_simps RUN_TERMINALS_def)
  have live: "\<exists>t u. run_fire s t () = Some u \<and> u \<in> set RUN_TERMINALS" if "s \<notin> set RUN_TERMINALS"
  proof (cases "s = Run_RECONCILING")
    case True
    then show ?thesis
      by (intro exI [of _ R_fail] exI [of _ Run_FAILED]) (simp add: run_fire_def fsm_simps RUN_TERMINALS_def)
  next
    case False
    with that show ?thesis
      by (intro exI [of _ R_cancel] exI [of _ Run_CANCELLED])
         (cases s; simp add: run_fire_def fsm_simps RUN_TERMINALS_def)
  qed
  with runl.terminal_refuses show "s \<in> set RUN_TERMINALS \<longleftrightarrow> (\<forall>t c. run_fire s t c = None)"
    by (metis option.distinct(1))
  show "\<exists>es u. length es \<le> 1 \<and> fsm_run run_fire s es = Some u \<and> u \<in> set RUN_TERMINALS"
  proof (cases "s \<in> set RUN_TERMINALS")
    case True
    then show ?thesis by (intro exI [of _ "[]"] exI [of _ s]) simp
  next
    case False
    from live [OF this] obtain t u where "run_fire s t () = Some u" "u \<in> set RUN_TERMINALS" by blast
    then show ?thesis by (intro exI [of _ "[(t, ())]"] exI [of _ u]) simp
  qed
  show "fsm_run run_fire Run_RECONCILING es = Some u \<longrightarrow> u = Run_RECONCILING \<or> u = Run_FAILED"
    using runl.run_invariant [of Run_RECONCILING es u "\<lambda>s. s \<in> {Run_RECONCILING, Run_FAILED}"] reconciling_run
    by blast
qed

theorem run_outcomes_witness:
  "fsm_run run_fire Run_RECONCILING [(R_fail, ())] = Some Run_FAILED \<and> Run_FAILED \<in> set RUN_TERMINALS"
proof -
  have "fsm_run run_fire Run_RECONCILING [(R_fail, ())] = Some Run_FAILED"
    by (simp add: run_fire_def fsm_simps RUN_TERMINALS_def)
  with run_outcomes [of Run_FAILED R_fail "()" "[(R_fail, ())]" Run_FAILED] show ?thesis
    by (simp add: RUN_TERMINALS_def)
qed

text \<open>
  A sandbox command changes state at most nine times; a command reaches SUCCEEDED
  only by its own success or by the resolution of a reconciliation; and that resolution has no
  failing outcome: the second edge of the trigger is never taken, so a command of unknown outcome
  can end only as SUCCEEDED or QUARANTINED.
\<close>

theorem command_outcomes:
  "fsm_changes command_fire s es \<le> 9 \<and>
   (command_fire s t c = Some Cmd_SUCCEEDED \<longleftrightarrow>
      (s = Cmd_RUNNING \<and> t = C_succeed) \<or> (s = Cmd_RECONCILING \<and> t = C_resolved)) \<and>
   (fsm_run command_fire Cmd_UNKNOWN es = Some u \<longrightarrow>
      u \<in> {Cmd_UNKNOWN, Cmd_RECONCILING, Cmd_SUCCEEDED, Cmd_QUARANTINED})"
proof (intro conjI)
  show "fsm_changes command_fire s es \<le> 9"
    using cmdl.changes_bounded [of s es] by (cases s) auto
  show "command_fire s t c = Some Cmd_SUCCEEDED \<longleftrightarrow>
      (s = Cmd_RUNNING \<and> t = C_succeed) \<or> (s = Cmd_RECONCILING \<and> t = C_resolved)"
    by (cases t) (auto simp: command_fire_def fsm_simps COMMAND_TERMINALS_def)
  have "s' \<in> {Cmd_UNKNOWN, Cmd_RECONCILING, Cmd_SUCCEEDED, Cmd_QUARANTINED}"
    if "s \<in> {Cmd_UNKNOWN, Cmd_RECONCILING, Cmd_SUCCEEDED, Cmd_QUARANTINED}" "command_fire s t c = Some s'" for s t c s'
    using that by (cases t) (auto simp: command_fire_def fsm_simps COMMAND_TERMINALS_def)
  then show "fsm_run command_fire Cmd_UNKNOWN es = Some u \<longrightarrow>
      u \<in> {Cmd_UNKNOWN, Cmd_RECONCILING, Cmd_SUCCEEDED, Cmd_QUARANTINED}"
    using cmdl.run_invariant [of Cmd_UNKNOWN es u "\<lambda>s. s \<in> {Cmd_UNKNOWN, Cmd_RECONCILING, Cmd_SUCCEEDED, Cmd_QUARANTINED}"]
    by blast
qed

theorem command_outcomes_witness:
  "fsm_run command_fire Cmd_UNKNOWN [(C_reconcile, ()), (C_resolved, ())] = Some Cmd_SUCCEEDED \<and>
   fsm_changes command_fire Cmd_UNKNOWN [(C_reconcile, ()), (C_resolved, ())] \<le> 9"
proof -
  have "fsm_run command_fire Cmd_UNKNOWN [(C_reconcile, ()), (C_resolved, ())] = Some Cmd_SUCCEEDED"
    by (simp add: command_fire_def fsm_simps COMMAND_TERMINALS_def)
  with command_outcomes [of Cmd_UNKNOWN "[(C_reconcile, ()), (C_resolved, ())]" C_resolved "()" Cmd_SUCCEEDED]
  show ?thesis by blast
qed

end
