(* ===== verification/Validation_Gates.thy ===== *)
theory Validation_Gates
  imports Policy_Contracts
begin

text \<open>
  Validation gates, \<open>packages/policy-engine/src/validation-gates\<close>: the default obligations and
  the merge algebra of \<open>schemas.ts\<close>, and the \<open>ValidationGateService\<close> of \<open>gates.ts\<close> with its
  assessment loop, outcome digest and staleness check.  The collation \<open>lc\<close> and the digest \<open>sha\<close>
  are arguments.  Provenance is a string, since the service re-checks it against its trusted set
  at run time.
\<close>

section \<open>Obligations\<close>

datatype gate_kind =
  PR_CREATE | PR_UPDATE | APPROVAL_REQUEST | PRIVILEGED_EXECUTION | MERGE | WORKFLOW_COMPLETE

fun gate_str :: "gate_kind \<Rightarrow> string" where
  "gate_str PR_CREATE = ''PR_CREATE''"
| "gate_str PR_UPDATE = ''PR_UPDATE''"
| "gate_str APPROVAL_REQUEST = ''APPROVAL_REQUEST''"
| "gate_str PRIVILEGED_EXECUTION = ''PRIVILEGED_EXECUTION''"
| "gate_str MERGE = ''MERGE''"
| "gate_str WORKFLOW_COMPLETE = ''WORKFLOW_COMPLETE''"

datatype obligation_scope = Scope_WORKFLOW | Scope_CHANGESET | Scope_TARGET_ACTION

record validation_obligation =
  ob_validatorId :: string
  ob_sourceRuleId :: string
  ob_scope :: obligation_scope
  applicableGates :: "gate_kind list"
  maxAgeSeconds :: int
  requireTargetFingerprint :: bool

datatype evidence_status = Ev_PASSED | Ev_FAILED | Ev_SKIPPED | Ev_CANCELLED | Ev_TIMED_OUT

record validation_evidence =
  ev_validatorId :: string
  ev_status :: evidence_status
  ev_targetFingerprint :: string
  producedAtMs :: int
  ev_provenance :: string
  providerVersion :: string
  resultKey :: string

definition changeset_obligation :: "string \<Rightarrow> gate_kind list \<Rightarrow> int \<Rightarrow> validation_obligation" where
  "changeset_obligation v gs age =
     \<lparr>ob_validatorId = v, ob_sourceRuleId = ''global-gate-changeset-defaults'', ob_scope = Scope_CHANGESET,
      applicableGates = gs, maxAgeSeconds = age, requireTargetFingerprint = True\<rparr>"

definition DEFAULT_OBLIGATIONS :: "validation_obligation list" where
  "DEFAULT_OBLIGATIONS =
     [changeset_obligation ''unit_tests''
        [PR_CREATE, PR_UPDATE, APPROVAL_REQUEST, PRIVILEGED_EXECUTION, MERGE] (24 * 3600),
      changeset_obligation ''typecheck''
        [PR_CREATE, PR_UPDATE, APPROVAL_REQUEST, PRIVILEGED_EXECUTION, MERGE] (24 * 3600),
      changeset_obligation ''lint'' [PR_CREATE, PR_UPDATE] (7 * 24 * 3600),
      changeset_obligation ''build'' [PR_CREATE, PR_UPDATE, MERGE] (24 * 3600),
      changeset_obligation ''security_scan''
        [PR_CREATE, PR_UPDATE, APPROVAL_REQUEST, PRIVILEGED_EXECUTION, MERGE] (24 * 3600),
      \<lparr>ob_validatorId = ''dependency_check'', ob_sourceRuleId = ''global-gate-merge-floor'', ob_scope = Scope_WORKFLOW,
       applicableGates = [MERGE], maxAgeSeconds = 12 * 3600, requireTargetFingerprint = False\<rparr>,
      \<lparr>ob_validatorId = ''review_provenance'', ob_sourceRuleId = ''global-gate-merge-floor'', ob_scope = Scope_TARGET_ACTION,
       applicableGates = [MERGE], maxAgeSeconds = 30 * 24 * 3600, requireTargetFingerprint = True\<rparr>]"

definition merge_scope :: "obligation_scope \<Rightarrow> obligation_scope \<Rightarrow> obligation_scope" where
  "merge_scope a b =
     (if a = Scope_TARGET_ACTION \<or> b = Scope_TARGET_ACTION then Scope_TARGET_ACTION
      else if a = Scope_CHANGESET \<or> b = Scope_CHANGESET then Scope_CHANGESET else Scope_WORKFLOW)"

definition merge_obligation ::
  "validation_obligation \<Rightarrow> validation_obligation \<Rightarrow> validation_obligation" where
  "merge_obligation existing ob =
     existing\<lparr>ob_sourceRuleId := ob_sourceRuleId existing @ ''+'' @ ob_sourceRuleId ob,
       maxAgeSeconds := min (maxAgeSeconds existing) (maxAgeSeconds ob),
       requireTargetFingerprint := (requireTargetFingerprint existing \<or> requireTargetFingerprint ob),
       applicableGates := js_nub (applicableGates existing @ applicableGates ob),
       ob_scope := merge_scope (ob_scope existing) (ob_scope ob)\<rparr>"

text \<open>One \<open>get\<close> and \<open>set\<close> of the insertion-ordered map from validator to obligation.\<close>

fun put_obligation ::
  "validation_obligation \<Rightarrow> validation_obligation list \<Rightarrow> validation_obligation list" where
  "put_obligation ob [] = [ob]"
| "put_obligation ob (m # ms) =
     (if ob_validatorId m = ob_validatorId ob then merge_obligation m ob # ms
      else m # put_obligation ob ms)"

definition mergeObligations ::
  "(string \<Rightarrow> string \<Rightarrow> int) \<Rightarrow> validation_obligation list list \<Rightarrow> validation_obligation list" where
  "mergeObligations lc groups =
     js_sort (\<lambda>a b. lc (ob_validatorId a) (ob_validatorId b)) (fold put_obligation (concat groups) [])"

section \<open>The gate service\<close>

record gate_context =
  gateKind :: gate_kind
  policySnapshotId :: string
  currentPolicyVersionId :: string
  validatorRegistryVersion :: string
  gc_targetFingerprint :: string
  gc_repositoryId :: string
  extraObligations :: "validation_obligation list option"

datatype verdict =
    V_PASSED | V_FAILED | V_SKIPPED | V_CANCELLED | V_TIMED_OUT
  | V_MISSING | V_STALE_AGE | V_WRONG_TARGET | V_UNKNOWN_PROVENANCE

fun verdict_str :: "verdict \<Rightarrow> string" where
  "verdict_str V_PASSED = ''PASSED''"
| "verdict_str V_FAILED = ''FAILED''"
| "verdict_str V_SKIPPED = ''SKIPPED''"
| "verdict_str V_CANCELLED = ''CANCELLED''"
| "verdict_str V_TIMED_OUT = ''TIMED_OUT''"
| "verdict_str V_MISSING = ''MISSING''"
| "verdict_str V_STALE_AGE = ''STALE_AGE''"
| "verdict_str V_WRONG_TARGET = ''WRONG_TARGET''"
| "verdict_str V_UNKNOWN_PROVENANCE = ''UNKNOWN_PROVENANCE''"

fun status_verdict :: "evidence_status \<Rightarrow> verdict" where
  "status_verdict Ev_PASSED = V_PASSED"
| "status_verdict Ev_FAILED = V_FAILED"
| "status_verdict Ev_SKIPPED = V_SKIPPED"
| "status_verdict Ev_CANCELLED = V_CANCELLED"
| "status_verdict Ev_TIMED_OUT = V_TIMED_OUT"

record obligation_assessment =
  as_validatorId :: string
  as_sourceRuleId :: string
  as_verdict :: verdict
  as_explanation :: string
  selectedEvidenceResultKey :: "string option"

datatype gate_status = SATISFIED | BLOCKED | UNKNOWN_GATE

record gate_outcome =
  go_status :: gate_status
  assessments :: "obligation_assessment list"
  go_targetFingerprint :: string
  evaluatedAtMs :: int
  go_policySnapshotId :: string
  go_currentPolicyVersionId :: string
  go_validatorRegistryVersion :: string
  outcomeHash :: string

definition TRUSTED_PROVENANCE :: "string list" where
  "TRUSTED_PROVENANCE = [''github_checks'', ''sandbox_validator'', ''devguard_service'']"

definition resolveObligations ::
  "(string \<Rightarrow> string \<Rightarrow> int) \<Rightarrow> validation_obligation list \<Rightarrow> gate_context \<Rightarrow> validation_obligation list" where
  "resolveObligations lc globalObligations ctx =
     (let applies = (\<lambda>ob. gateKind ctx \<in> set (applicableGates ob)) in
      mergeObligations lc
        [filter applies globalObligations,
         filter applies (case extraObligations ctx of None \<Rightarrow> [] | Some xs \<Rightarrow> xs)])"

definition assessment ::
  "validation_obligation \<Rightarrow> verdict \<Rightarrow> string \<Rightarrow> string option \<Rightarrow> obligation_assessment" where
  "assessment ob v expl key =
     \<lparr>as_validatorId = ob_validatorId ob, as_sourceRuleId = ob_sourceRuleId ob, as_verdict = v,
      as_explanation = expl, selectedEvidenceResultKey = key\<rparr>"

text \<open>The loop over the candidates: an early return or, with \<open>continue\<close>, the next candidate.\<close>

fun assess_candidates ::
  "gate_context \<Rightarrow> validation_obligation \<Rightarrow> int \<Rightarrow> validation_evidence list \<Rightarrow> obligation_assessment option" where
  "assess_candidates ctx ob nowMs [] = None"
| "assess_candidates ctx ob nowMs (c # cs) =
     (let ageSeconds = (nowMs - producedAtMs c) div 1000 in
      if ev_provenance c \<notin> set TRUSTED_PROVENANCE then
        Some (assessment ob V_UNKNOWN_PROVENANCE
          (''evidence '' @ quoted (resultKey c) @ '' carries untrusted provenance '' @ quoted (ev_provenance c)) None)
      else if requireTargetFingerprint ob \<and> ev_targetFingerprint c \<noteq> gc_targetFingerprint ctx then
        assess_candidates ctx ob nowMs cs
      else if producedAtMs c > nowMs then
        Some (assessment ob V_STALE_AGE (''evidence '' @ resultKey c @ '' was produced in the future'') (Some (resultKey c)))
      else if ageSeconds \<ge> maxAgeSeconds ob then
        Some (assessment ob V_STALE_AGE
          (''newest exact-target result '' @ resultKey c @ '' is '' @ js_int_str ageSeconds @ ''s old (max '' @
           js_int_str (maxAgeSeconds ob) @ ''s); at/over max is stale'') (Some (resultKey c)))
      else if ev_status c = Ev_PASSED then
        Some (assessment ob V_PASSED (''exact-target passed evidence '' @ resultKey c) (Some (resultKey c)))
      else
        Some (assessment ob (status_verdict (ev_status c))
          (''required evidence '' @ resultKey c @ '' was '' @ verdict_str (status_verdict (ev_status c)) @
           ''; only PASSED satisfies required obligations'') (Some (resultKey c))))"

definition newest_first ::
  "(string \<Rightarrow> string \<Rightarrow> int) \<Rightarrow> validation_evidence \<Rightarrow> validation_evidence \<Rightarrow> int" where
  "newest_first lc a b =
     (if producedAtMs b - producedAtMs a \<noteq> 0 then producedAtMs b - producedAtMs a
      else lc (resultKey a) (resultKey b))"

definition gate_candidates ::
  "(string \<Rightarrow> string \<Rightarrow> int) \<Rightarrow> validation_obligation \<Rightarrow> validation_evidence list \<Rightarrow> validation_evidence list" where
  "gate_candidates lc ob evidence =
     js_sort (newest_first lc) (filter (\<lambda>e. ev_validatorId e = ob_validatorId ob) evidence)"

text \<open>The ellipsis that ends the last message is written as its three UTF-8 bytes.\<close>

definition assess ::
  "(string \<Rightarrow> string \<Rightarrow> int) \<Rightarrow> gate_context \<Rightarrow> validation_evidence list \<Rightarrow> int \<Rightarrow> validation_obligation \<Rightarrow> obligation_assessment" where
  "assess lc ctx evidence nowMs ob =
     (let candidates = gate_candidates lc ob evidence in
      if candidates = [] then
        assessment ob V_MISSING (''no evidence for required validator '' @ quoted (ob_validatorId ob)) None
      else case assess_candidates ctx ob nowMs candidates of
             Some a \<Rightarrow> a
           | None \<Rightarrow> assessment ob V_WRONG_TARGET
               (js_nat_str (length candidates) @ '' result(s) exist but none bind to target fingerprint '' @
                take 12 (gc_targetFingerprint ctx) @ [CHR 0xE2, CHR 0x80, CHR 0xA6]) None)"

definition outcome_payload :: "gate_context \<Rightarrow> obligation_assessment list \<Rightarrow> int \<Rightarrow> json" where
  "outcome_payload ctx as nowMs =
     JArr [JStr (gate_str (gateKind ctx)), JStr (policySnapshotId ctx), JStr (currentPolicyVersionId ctx),
           JStr (validatorRegistryVersion ctx), JStr (gc_targetFingerprint ctx),
           JArr (map (\<lambda>a. JArr [JStr (as_validatorId a), JStr (as_sourceRuleId a), JStr (verdict_str (as_verdict a)),
                               json_opt JStr (selectedEvidenceResultKey a)]) as),
           JNum nowMs]"

definition evaluate_gate ::
  "(json \<Rightarrow> string) \<Rightarrow> (string \<Rightarrow> string \<Rightarrow> int) \<Rightarrow> validation_obligation list \<Rightarrow> gate_context \<Rightarrow>
   validation_evidence list \<Rightarrow> int \<Rightarrow> gate_outcome" where
  "evaluate_gate sha lc globalObligations ctx evidence nowMs =
     (let as = map (assess lc ctx evidence nowMs) (resolveObligations lc globalObligations ctx);
          unknown = list_ex (\<lambda>a. as_verdict a = V_UNKNOWN_PROVENANCE) as;
          blocked = list_ex (\<lambda>a. as_verdict a \<noteq> V_PASSED) as
      in \<lparr>go_status = (if unknown then UNKNOWN_GATE else if blocked then BLOCKED else SATISFIED),
          assessments = as, go_targetFingerprint = gc_targetFingerprint ctx, evaluatedAtMs = nowMs,
          go_policySnapshotId = policySnapshotId ctx, go_currentPolicyVersionId = currentPolicyVersionId ctx,
          go_validatorRegistryVersion = validatorRegistryVersion ctx,
          outcomeHash = sha (outcome_payload ctx as nowMs)\<rparr>)"

definition isStale ::
  "(json \<Rightarrow> string) \<Rightarrow> (string \<Rightarrow> string \<Rightarrow> int) \<Rightarrow> validation_obligation list \<Rightarrow> gate_outcome \<Rightarrow> gate_context \<Rightarrow>
   validation_evidence list \<Rightarrow> int \<Rightarrow> bool \<times> string list" where
  "isStale sha lc globalObligations outcome current currentEvidence nowMs =
     (let causes =
        (if go_targetFingerprint outcome \<noteq> gc_targetFingerprint current then [''target changed''] else []) @
        (if go_currentPolicyVersionId outcome \<noteq> currentPolicyVersionId current then [''policy changed''] else []) @
        (if go_validatorRegistryVersion outcome \<noteq> validatorRegistryVersion current then [''validator registry changed''] else []) @
        (if outcomeHash (evaluate_gate sha lc globalObligations current currentEvidence nowMs) \<noteq> outcomeHash outcome
         then [''evaluation inputs changed''] else [])
      in (causes \<noteq> [], causes))"
section \<open>The merge keeps the strictest constraint of every source\<close>

definition obligations_for :: "string \<Rightarrow> validation_obligation list \<Rightarrow> validation_obligation list" where
  "obligations_for v os = filter (\<lambda>ob. ob_validatorId ob = v) os"

definition strictest_of :: "validation_obligation \<Rightarrow> validation_obligation list \<Rightarrow> bool" where
  "strictest_of m os \<longleftrightarrow>
     maxAgeSeconds m = Min (maxAgeSeconds ` set os) \<and>
     (requireTargetFingerprint m \<longleftrightarrow> list_ex requireTargetFingerprint os) \<and>
     set (applicableGates m) = (\<Union>ob\<in>set os. set (applicableGates ob))"

lemma merge_obligation_validator [simp]: "ob_validatorId (merge_obligation m ob) = ob_validatorId m"
  by (simp add: merge_obligation_def)

lemma strictest_of_single: "strictest_of ob [ob]"
  by (simp add: strictest_of_def)

lemma strictest_of_snoc:
  assumes "strictest_of m os" and "os \<noteq> []"
  shows "strictest_of (merge_obligation m ob) (os @ [ob])"
proof -
  have "Min (insert (maxAgeSeconds ob) (maxAgeSeconds ` set os)) = min (maxAgeSeconds ob) (Min (maxAgeSeconds ` set os))"
    using assms(2) by (intro Min_insert) auto
  with assms show ?thesis by (auto simp: strictest_of_def merge_obligation_def min.commute)
qed

lemma validators_put:
  "map ob_validatorId (put_obligation ob ms) =
     (if ob_validatorId ob \<in> ob_validatorId ` set ms then map ob_validatorId ms
      else map ob_validatorId ms @ [ob_validatorId ob])"
  by (induction ms) auto

text \<open>After merging \<open>os\<close>: one entry per validator, the strictest of the obligations it came from.\<close>

definition merged_from :: "validation_obligation list \<Rightarrow> validation_obligation list \<Rightarrow> bool" where
  "merged_from ms os \<longleftrightarrow>
     distinct (map ob_validatorId ms) \<and> ob_validatorId ` set ms = ob_validatorId ` set os \<and>
     list_all (\<lambda>m. strictest_of m (obligations_for (ob_validatorId m) os)) ms"

lemma obligations_for_snoc:
  "obligations_for v (os @ [ob]) =
     (if ob_validatorId ob = v then obligations_for v os @ [ob] else obligations_for v os)"
  by (simp add: obligations_for_def)

lemma obligations_for_Nil: "obligations_for v os = [] \<longleftrightarrow> v \<notin> ob_validatorId ` set os"
  by (auto simp: obligations_for_def filter_empty_conv)

lemma strictest_put:
  assumes "distinct (map ob_validatorId ms)"
    and "\<forall>m\<in>set ms. obligations_for (ob_validatorId m) os \<noteq> [] \<and> strictest_of m (obligations_for (ob_validatorId m) os)"
    and "ob_validatorId ob \<notin> ob_validatorId ` set ms \<longrightarrow> obligations_for (ob_validatorId ob) os = []"
  shows "\<forall>m\<in>set (put_obligation ob ms). strictest_of m (obligations_for (ob_validatorId m) (os @ [ob]))"
  using assms
proof (induction ms)
  case Nil
  then show ?case by (simp add: obligations_for_snoc strictest_of_single)
next
  case (Cons m ms)
  show ?case
  proof (cases "ob_validatorId m = ob_validatorId ob")
    case True
    with Cons.prems(1) have "ob_validatorId ob \<notin> ob_validatorId ` set ms" by auto
    then have "\<forall>x\<in>set ms. ob_validatorId ob \<noteq> ob_validatorId x" by auto
    with True Cons.prems(2) show ?thesis by (simp add: obligations_for_snoc strictest_of_snoc)
  next
    case False
    with Cons.IH Cons.prems show ?thesis by (simp add: obligations_for_snoc)
  qed
qed

lemma merged_from_put:
  assumes "merged_from ms os"
  shows "merged_from (put_obligation ob ms) (os @ [ob])"
proof -
  from assms have d: "distinct (map ob_validatorId ms)" and v: "ob_validatorId ` set ms = ob_validatorId ` set os"
    and s: "\<forall>m\<in>set ms. strictest_of m (obligations_for (ob_validatorId m) os)"
    by (simp_all add: merged_from_def list_all_iff)
  have "\<forall>m\<in>set (put_obligation ob ms). strictest_of m (obligations_for (ob_validatorId m) (os @ [ob]))"
    using s v by (intro strictest_put [OF d]) (auto simp: obligations_for_Nil)
  moreover have "distinct (map ob_validatorId (put_obligation ob ms))" using d by (auto simp: validators_put)
  moreover have "ob_validatorId ` set (put_obligation ob ms) = insert (ob_validatorId ob) (ob_validatorId ` set ms)"
    unfolding set_map [symmetric] validators_put by auto
  ultimately show ?thesis using v by (simp add: merged_from_def list_all_iff)
qed

lemma merged_from_fold: "merged_from (fold put_obligation os []) os"
  by (induction os rule: rev_induct) (simp_all add: merged_from_put, simp add: merged_from_def)

lemma merged_from_perm:
  assumes "merged_from ms os" and "mset ms' = mset ms"
  shows "merged_from ms' os"
proof -
  from assms(2) have s: "set ms' = set ms" by (rule mset_eq_setD)
  from assms(2) have "mset (map ob_validatorId ms') = mset (map ob_validatorId ms)" by simp
  then have "distinct (map ob_validatorId ms') = distinct (map ob_validatorId ms)" by (rule mset_eq_imp_distinct_iff)
  with assms(1) s show ?thesis by (simp add: merged_from_def list_all_iff)
qed

lemma merged_from_merge: "merged_from (mergeObligations lc groups) (concat groups)"
  unfolding mergeObligations_def using merged_from_fold by (rule merged_from_perm) simp

lemma strictest_covers:
  assumes "strictest_of m os" and "ob \<in> set os"
  shows "maxAgeSeconds m \<le> maxAgeSeconds ob \<and> (requireTargetFingerprint ob \<longrightarrow> requireTargetFingerprint m)"
  using assms by (auto simp: strictest_of_def list_ex_iff)
section \<open>What a passing assessment proves\<close>

definition gate_bound :: "gate_context \<Rightarrow> validation_obligation \<Rightarrow> validation_evidence \<Rightarrow> bool" where
  "gate_bound ctx ob e \<longleftrightarrow>
     (requireTargetFingerprint ob \<longrightarrow> ev_targetFingerprint e = gc_targetFingerprint ctx)"

text \<open>Trusted, passing evidence of the validator for the gate's target, younger than the limit.\<close>

definition satisfying ::
  "gate_context \<Rightarrow> int \<Rightarrow> validation_obligation \<Rightarrow> validation_evidence \<Rightarrow> bool" where
  "satisfying ctx nowMs ob e \<longleftrightarrow>
     ev_validatorId e = ob_validatorId ob \<and> ev_provenance e \<in> set TRUSTED_PROVENANCE \<and> gate_bound ctx ob e \<and>
     producedAtMs e \<le> nowMs \<and> nowMs - producedAtMs e < 1000 * maxAgeSeconds ob \<and> ev_status e = Ev_PASSED"

lemma age_in_seconds: "((a :: int) div 1000 < m) \<longleftrightarrow> a < 1000 * m"
  by (auto simp: div_less_iff_less_mult mult.commute)

lemma assessment_verdict [simp]: "as_verdict (assessment ob v x k) = v"
  by (simp add: assessment_def)

lemma first_after_Cons:
  "(\<exists>pre e post. c # cs = pre @ e # post \<and> (\<forall>x\<in>set pre. S x) \<and> P e) \<longleftrightarrow>
   P c \<or> (S c \<and> (\<exists>pre e post. cs = pre @ e # post \<and> (\<forall>x\<in>set pre. S x) \<and> P e))"
  (is "?L \<longleftrightarrow> ?R")
proof
  assume ?L
  then obtain pre e post where "c # cs = pre @ e # post" "\<forall>x\<in>set pre. S x" "P e" by blast
  then show ?R by (cases pre) auto
next
  assume ?R
  then show ?L
  proof
    assume "P c"
    then show ?L by (intro exI [of _ "[]"]) simp
  next
    assume "S c \<and> (\<exists>pre e post. cs = pre @ e # post \<and> (\<forall>x\<in>set pre. S x) \<and> P e)"
    then obtain pre e post where "S c" "cs = pre @ e # post" "\<forall>x\<in>set pre. S x" "P e" by blast
    then show ?L by (intro exI [of _ "c # pre"]) auto
  qed
qed

lemma assess_candidates_passed:
  "(\<exists>a. assess_candidates ctx ob nowMs cs = Some a \<and> as_verdict a = V_PASSED) \<longleftrightarrow>
   (\<exists>pre e post. cs = pre @ e # post \<and>
      (\<forall>c\<in>set pre. ev_provenance c \<in> set TRUSTED_PROVENANCE \<and> \<not> gate_bound ctx ob c) \<and>
      ev_provenance e \<in> set TRUSTED_PROVENANCE \<and> gate_bound ctx ob e \<and> producedAtMs e \<le> nowMs \<and>
      nowMs - producedAtMs e < 1000 * maxAgeSeconds ob \<and> ev_status e = Ev_PASSED)"
  (is "?L cs \<longleftrightarrow> ?R cs")
proof (induction cs)
  case Nil
  then show ?case by simp
next
  case (Cons c cs)
  let ?skip = "ev_provenance c \<in> set TRUSTED_PROVENANCE \<and> \<not> gate_bound ctx ob c"
  let ?hit = "ev_provenance c \<in> set TRUSTED_PROVENANCE \<and> gate_bound ctx ob c \<and> producedAtMs c \<le> nowMs \<and>
      nowMs - producedAtMs c < 1000 * maxAgeSeconds ob \<and> ev_status c = Ev_PASSED"
  have L: "?L (c # cs) \<longleftrightarrow> (if ?skip then ?L cs else ?hit)"
    by (cases "ev_status c") (auto simp: gate_bound_def Let_def age_in_seconds [symmetric])
  have R: "?R (c # cs) \<longleftrightarrow> ?hit \<or> (?skip \<and> ?R cs)"
    by (rule first_after_Cons)
  show ?case unfolding L R Cons.IH by auto
qed

lemma consistent_newest_first:
  assumes "consistent_cmp lc"
  shows "consistent_cmp (newest_first lc)"
  using assms unfolding consistent_cmp_def newest_first_def
  by (auto split: if_splits; (smt (verit))?)

lemma assess_passed:
  assumes "as_verdict (assess lc ctx evidence nowMs ob) = V_PASSED" and "consistent_cmp lc"
  shows "\<exists>e\<in>set evidence. satisfying ctx nowMs ob e \<and>
    (\<forall>e'\<in>set evidence. ev_validatorId e' = ob_validatorId ob \<and> producedAtMs e < producedAtMs e' \<longrightarrow>
       ev_provenance e' \<in> set TRUSTED_PROVENANCE \<and> \<not> gate_bound ctx ob e')"
proof -
  let ?cs = "gate_candidates lc ob evidence"
  from assms(1) have "\<exists>a. assess_candidates ctx ob nowMs ?cs = Some a \<and> as_verdict a = V_PASSED"
    by (auto simp: assess_def Let_def split: if_splits option.splits)
  then obtain pre e post where split: "?cs = pre @ e # post"
    and pre: "\<forall>c\<in>set pre. ev_provenance c \<in> set TRUSTED_PROVENANCE \<and> \<not> gate_bound ctx ob c"
    and e: "ev_provenance e \<in> set TRUSTED_PROVENANCE" "gate_bound ctx ob e" "producedAtMs e \<le> nowMs"
      "nowMs - producedAtMs e < 1000 * maxAgeSeconds ob" "ev_status e = Ev_PASSED"
    unfolding assess_candidates_passed by blast
  have members: "set ?cs = {x \<in> set evidence. ev_validatorId x = ob_validatorId ob}"
    by (auto simp: gate_candidates_def)
  have "sorted_wrt (\<lambda>a b. newest_first lc a b \<le> 0) ?cs"
    unfolding gate_candidates_def by (rule sorted_wrt_js_sort [OF consistent_newest_first [OF assms(2)]])
  then have older: "producedAtMs x \<le> producedAtMs e" if "x \<in> set post" for x
    using that unfolding split by (auto simp: sorted_wrt_append newest_first_def split: if_splits)
  have "ev_provenance x \<in> set TRUSTED_PROVENANCE \<and> \<not> gate_bound ctx ob x"
    if "x \<in> set evidence" "ev_validatorId x = ob_validatorId ob" "producedAtMs e < producedAtMs x" for x
  proof -
    from that members have "x \<in> set ?cs" by auto
    with older [of x] that(3) pre show ?thesis unfolding split by auto
  qed
  moreover have "e \<in> set evidence \<and> ev_validatorId e = ob_validatorId ob" using members unfolding split by auto
  ultimately show ?thesis using e by (auto simp: satisfying_def)
qed

lemma satisfying_mono:
  assumes "satisfying ctx nowMs m e" and "ob_validatorId m = ob_validatorId ob"
    and "maxAgeSeconds m \<le> maxAgeSeconds ob" and "requireTargetFingerprint ob \<longrightarrow> requireTargetFingerprint m"
  shows "satisfying ctx nowMs ob e"
  using assms by (auto simp: satisfying_def gate_bound_def)
text \<open>
  The evidence that decides an obligation: it satisfies it, and whatever is newer for the same
  validator is trusted and about another target.
\<close>

definition deciding ::
  "gate_context \<Rightarrow> int \<Rightarrow> validation_obligation \<Rightarrow> validation_evidence list \<Rightarrow> validation_evidence \<Rightarrow> bool" where
  "deciding ctx nowMs ob evidence e \<longleftrightarrow> e \<in> set evidence \<and> satisfying ctx nowMs ob e \<and>
     list_all (\<lambda>e'. ev_validatorId e' = ob_validatorId ob \<and> producedAtMs e < producedAtMs e' \<longrightarrow>
       ev_provenance e' \<in> set TRUSTED_PROVENANCE \<and> \<not> gate_bound ctx ob e') evidence"

lemma assess_passed_deciding:
  assumes "as_verdict (assess lc ctx evidence nowMs ob) = V_PASSED" and "consistent_cmp lc"
  shows "\<exists>e. deciding ctx nowMs ob evidence e"
  using assess_passed [OF assms] by (auto simp: deciding_def list_all_iff)

lemma deciding_assess_passed:
  assumes "deciding ctx nowMs ob evidence e" and "consistent_cmp lc" and "distinct (map producedAtMs evidence)"
  shows "as_verdict (assess lc ctx evidence nowMs ob) = V_PASSED"
proof -
  let ?cs = "gate_candidates lc ob evidence"
  have members: "set ?cs = {x \<in> set evidence. ev_validatorId x = ob_validatorId ob}"
    by (auto simp: gate_candidates_def)
  from assms(1) have "e \<in> set ?cs" unfolding members by (auto simp: deciding_def satisfying_def)
  then obtain pre post where split: "?cs = pre @ e # post" by (meson split_list)
  have "distinct (map producedAtMs (filter (\<lambda>x. ev_validatorId x = ob_validatorId ob) evidence))"
    using assms(3) by (rule distinct_map_filter)
  then have "distinct (map producedAtMs ?cs)"
    unfolding gate_candidates_def by (metis mset_eq_imp_distinct_iff mset_js_sort mset_map)
  then have ne: "\<forall>c\<in>set pre. producedAtMs c \<noteq> producedAtMs e" unfolding split by (auto simp: image_iff)
  have "sorted_wrt (\<lambda>a b. newest_first lc a b \<le> 0) ?cs"
    unfolding gate_candidates_def by (rule sorted_wrt_js_sort [OF consistent_newest_first [OF assms(2)]])
  with ne have newer: "\<forall>c\<in>set pre. producedAtMs e < producedAtMs c"
    unfolding split by (force simp: sorted_wrt_append newest_first_def split: if_splits)
  have "set pre \<subseteq> {x \<in> set evidence. ev_validatorId x = ob_validatorId ob}" unfolding members [symmetric] split by auto
  with newer assms(1) have "\<forall>c\<in>set pre. ev_provenance c \<in> set TRUSTED_PROVENANCE \<and> \<not> gate_bound ctx ob c"
    by (auto simp: deciding_def list_all_iff)
  with assms(1) split have "\<exists>a. assess_candidates ctx ob nowMs ?cs = Some a \<and> as_verdict a = V_PASSED"
    unfolding assess_candidates_passed deciding_def satisfying_def by blast
  then show ?thesis by (auto simp: assess_def Let_def)
qed

lemma gate_status_satisfied:
  "go_status (evaluate_gate sha lc gl ctx evidence nowMs) = SATISFIED \<longleftrightarrow>
     list_all (\<lambda>ob. as_verdict (assess lc ctx evidence nowMs ob) = V_PASSED) (resolveObligations lc gl ctx)"
  by (auto simp: evaluate_gate_def Let_def list_all_iff list_ex_iff)

definition extras :: "gate_context \<Rightarrow> validation_obligation list" where
  "extras ctx = (case extraObligations ctx of None \<Rightarrow> [] | Some xs \<Rightarrow> xs)"

lemma resolve_covers:
  assumes "ob \<in> set (gl @ extras ctx)" and "gateKind ctx \<in> set (applicableGates ob)"
  shows "\<exists>m\<in>set (resolveObligations lc gl ctx). ob_validatorId m = ob_validatorId ob \<and>
    maxAgeSeconds m \<le> maxAgeSeconds ob \<and> (requireTargetFingerprint ob \<longrightarrow> requireTargetFingerprint m)"
proof -
  let ?applies = "\<lambda>ob. gateKind ctx \<in> set (applicableGates ob)"
  let ?os = "concat [filter ?applies gl, filter ?applies (extras ctx)]"
  have mf: "merged_from (resolveObligations lc gl ctx) ?os"
    unfolding resolveObligations_def Let_def extras_def by (rule merged_from_merge)
  from assms have ob: "ob \<in> set ?os" by auto
  with mf obtain m where m: "m \<in> set (resolveObligations lc gl ctx)" "ob_validatorId m = ob_validatorId ob"
    unfolding merged_from_def by (metis (no_types, lifting) imageE imageI)
  with mf have "strictest_of m (obligations_for (ob_validatorId ob) ?os)" by (auto simp: merged_from_def list_all_iff)
  from strictest_covers [OF this, of ob] ob m show ?thesis by (auto simp: obligations_for_def)
qed

lemma satisfied_gate_deciding:
  assumes "go_status (evaluate_gate sha lc gl ctx evidence nowMs) = SATISFIED" and "consistent_cmp lc"
    and "ob \<in> set (gl @ extras ctx)" and "gateKind ctx \<in> set (applicableGates ob)"
  shows "\<exists>m e. ob_validatorId m = ob_validatorId ob \<and> deciding ctx nowMs m evidence e \<and> satisfying ctx nowMs ob e"
proof -
  from resolve_covers [OF assms(3,4), of lc] obtain m where m: "m \<in> set (resolveObligations lc gl ctx)"
    "ob_validatorId m = ob_validatorId ob" "maxAgeSeconds m \<le> maxAgeSeconds ob"
    "requireTargetFingerprint ob \<longrightarrow> requireTargetFingerprint m" by blast
  from assms(1) m(1) have "as_verdict (assess lc ctx evidence nowMs m) = V_PASSED"
    by (auto simp: gate_status_satisfied list_all_iff)
  from assess_passed_deciding [OF this assms(2)] obtain e where e: "deciding ctx nowMs m evidence e" by blast
  then have "satisfying ctx nowMs ob e" using satisfying_mono [OF _ m(2-4)] by (auto simp: deciding_def)
  with e m(2) show ?thesis by blast
qed

text \<open>
  The merge of obligations from any sources has exactly one entry per validator
  that some source names, and each entry carries the strictest constraint of its sources: the
  least maximal age, the exact-target requirement if any source has it, and the union of the
  gates.
\<close>

theorem mergeObligations_strictest:
  "let ms = mergeObligations lc groups; os = concat groups in
     distinct (map ob_validatorId ms) \<and> ob_validatorId ` set ms = ob_validatorId ` set os \<and>
     list_all (\<lambda>m. let same = filter (\<lambda>ob. ob_validatorId ob = ob_validatorId m) os in
       maxAgeSeconds m = Min (maxAgeSeconds ` set same) \<and>
       requireTargetFingerprint m = list_ex requireTargetFingerprint same \<and>
       set (applicableGates m) = (\<Union>ob\<in>set same. set (applicableGates ob))) ms"
  using merged_from_merge [of lc groups]
  by (simp add: merged_from_def strictest_of_def obligations_for_def Let_def)

text \<open>
  No obligation is waived: when a gate is satisfied, every global obligation and
  every extra obligation that applies to the gate has trusted PASSED evidence for its target,
  produced before now and younger than its limit, however the other sources changed the
  obligations; nothing newer of that validator is about the same target or untrusted.
\<close>

theorem satisfied_gate_waives_nothing:
  assumes "go_status (evaluate_gate sha lc gl ctx evidence nowMs) = SATISFIED" and "consistent_cmp lc"
    and "ob \<in> set gl \<or> (\<exists>xs. extraObligations ctx = Some xs \<and> ob \<in> set xs)"
    and "gateKind ctx \<in> set (applicableGates ob)"
  shows "\<exists>e\<in>set evidence.
     ev_validatorId e = ob_validatorId ob \<and> ev_status e = Ev_PASSED \<and> ev_provenance e \<in> set TRUSTED_PROVENANCE \<and>
     producedAtMs e \<le> nowMs \<and> nowMs - producedAtMs e < 1000 * maxAgeSeconds ob \<and>
     (requireTargetFingerprint ob \<longrightarrow> ev_targetFingerprint e = gc_targetFingerprint ctx) \<and>
     (\<forall>e'\<in>set evidence. ev_validatorId e' = ob_validatorId ob \<and> producedAtMs e < producedAtMs e' \<longrightarrow>
        ev_provenance e' \<in> set TRUSTED_PROVENANCE \<and> ev_targetFingerprint e' \<noteq> gc_targetFingerprint ctx)"
proof -
  from assms(3) have "ob \<in> set (gl @ extras ctx)" by (auto simp: extras_def)
  from satisfied_gate_deciding [OF assms(1,2) this assms(4)] obtain m e where
    m: "ob_validatorId m = ob_validatorId ob" and e: "deciding ctx nowMs m evidence e" "satisfying ctx nowMs ob e" by blast
  from e(1) have "e \<in> set evidence" and "\<forall>e'\<in>set evidence. ev_validatorId e' = ob_validatorId ob \<and>
      producedAtMs e < producedAtMs e' \<longrightarrow>
      ev_provenance e' \<in> set TRUSTED_PROVENANCE \<and> ev_targetFingerprint e' \<noteq> gc_targetFingerprint ctx"
    by (auto simp: deciding_def list_all_iff gate_bound_def m)
  with e(2) show ?thesis by (auto simp: satisfying_def gate_bound_def)
qed

text \<open>
  The decision is exact: on evidence with distinct production times a gate is
  satisfied exactly when every merged obligation has deciding evidence, so sufficient fresh
  evidence always opens the gate, whatever the order it is supplied in.
\<close>

theorem gate_satisfied_exactly:
  assumes "consistent_cmp lc" and "distinct (map producedAtMs evidence)"
  shows "go_status (evaluate_gate sha lc gl ctx evidence nowMs) = SATISFIED \<longleftrightarrow>
    (\<forall>ob\<in>set (resolveObligations lc gl ctx). \<exists>e. deciding ctx nowMs ob evidence e)"
  unfolding gate_status_satisfied list_all_iff
  using assess_passed_deciding [OF _ assms(1)] deciding_assess_passed [OF _ assms] by blast

text \<open>
  An outcome goes stale with the clock alone: with the context and the evidence
  unchanged, the staleness check reports "evaluation inputs changed" at every instant other than
  the one of the evaluation, because the instant is part of the digest (provided the digest does
  not collide on the two payloads), and reports nothing at that instant.
\<close>

theorem unchanged_gate_is_stale_off_its_instant:
  assumes "let as = (\<lambda>n. map (assess lc ctx evidence n) (resolveObligations lc gl ctx)) in
      sha (outcome_payload ctx (as t) t) = sha (outcome_payload ctx (as t') t') \<longrightarrow>
      outcome_payload ctx (as t) t = outcome_payload ctx (as t') t'"
  shows "isStale sha lc gl (evaluate_gate sha lc gl ctx evidence t) ctx evidence t' =
    (if t' = t then (False, []) else (True, [''evaluation inputs changed'']))"
  using assms by (auto simp: isStale_def evaluate_gate_def Let_def outcome_payload_def)
section \<open>A gate on the default obligations\<close>

definition sample_gate :: gate_context where
  "sample_gate =
     \<lparr>gateKind = APPROVAL_REQUEST, policySnapshotId = ''p'', currentPolicyVersionId = ''1'',
      validatorRegistryVersion = ''1'', gc_targetFingerprint = ''t'', gc_repositoryId = ''r'', extraObligations = None\<rparr>"

definition sample_evidence :: "string \<Rightarrow> int \<Rightarrow> validation_evidence" where
  "sample_evidence v at =
     \<lparr>ev_validatorId = v, ev_status = Ev_PASSED, ev_targetFingerprint = ''t'', producedAtMs = at,
      ev_provenance = ''github_checks'', providerVersion = ''1'', resultKey = v\<rparr>"

definition sample_evidences :: "validation_evidence list" where
  "sample_evidences = [sample_evidence ''unit_tests'' 5, sample_evidence ''typecheck'' 6, sample_evidence ''security_scan'' 7]"

definition sample_obligation :: "string \<Rightarrow> validation_obligation" where
  "sample_obligation v =
     changeset_obligation v [PR_CREATE, PR_UPDATE, APPROVAL_REQUEST, PRIVILEGED_EXECUTION, MERGE] (24 * 3600)"

lemma sample_obligations:
  "set (resolveObligations lc DEFAULT_OBLIGATIONS sample_gate) =
     sample_obligation ` {''unit_tests'', ''typecheck'', ''security_scan''}"
  by (simp add: resolveObligations_def mergeObligations_def sample_gate_def DEFAULT_OBLIGATIONS_def
      changeset_obligation_def sample_obligation_def)

lemma sample_deciding:
  "deciding sample_gate 10 (sample_obligation ''unit_tests'') sample_evidences (sample_evidence ''unit_tests'' 5)"
  "deciding sample_gate 10 (sample_obligation ''typecheck'') sample_evidences (sample_evidence ''typecheck'' 6)"
  "deciding sample_gate 10 (sample_obligation ''security_scan'') sample_evidences (sample_evidence ''security_scan'' 7)"
  by (simp_all add: deciding_def satisfying_def gate_bound_def sample_evidences_def sample_evidence_def
      sample_obligation_def changeset_obligation_def sample_gate_def TRUSTED_PROVENANCE_def)

lemma sample_distinct: "distinct (map producedAtMs sample_evidences)"
  by (simp add: sample_evidences_def sample_evidence_def)

lemma sample_all_decided:
  "\<forall>ob\<in>set (resolveObligations lc DEFAULT_OBLIGATIONS sample_gate). \<exists>e. deciding sample_gate 10 ob sample_evidences e"
  unfolding sample_obligations using sample_deciding by blast

theorem gate_satisfied_exactly_witness:
  "go_status (evaluate_gate (\<lambda>_. []) js_compare DEFAULT_OBLIGATIONS sample_gate sample_evidences 10) = SATISFIED"
  using gate_satisfied_exactly [OF consistent_js_compare sample_distinct] sample_all_decided by blast

lemma sample_gate_satisfied:
  "go_status (evaluate_gate (\<lambda>_. []) js_compare DEFAULT_OBLIGATIONS sample_gate sample_evidences 10) = SATISFIED"
  unfolding gate_status_satisfied list_all_iff
  using deciding_assess_passed [OF _ consistent_js_compare sample_distinct] sample_all_decided by blast

theorem satisfied_gate_waives_nothing_witness:
  "\<exists>e\<in>set sample_evidences. ev_validatorId e = ''typecheck'' \<and> ev_status e = Ev_PASSED \<and> 10 - producedAtMs e < 86400000"
proof -
  let ?ob = "sample_obligation ''typecheck''"
  have "?ob \<in> set DEFAULT_OBLIGATIONS" and "gateKind sample_gate \<in> set (applicableGates ?ob)"
    by (simp_all add: DEFAULT_OBLIGATIONS_def sample_gate_def sample_obligation_def changeset_obligation_def)
  from satisfied_gate_waives_nothing [OF sample_gate_satisfied consistent_js_compare disjI1 [OF this(1)] this(2)]
  show ?thesis by (auto simp: sample_obligation_def changeset_obligation_def)
qed

text \<open>A digest for the witness below: the clock reading of the payload, in unary.\<close>

fun clock_digest :: "json \<Rightarrow> string" where
  "clock_digest (JArr [_, _, _, _, _, _, JNum n]) = replicate (nat n) (CHR ''1'')"
| "clock_digest _ = []"

theorem unchanged_gate_is_stale_off_its_instant_witness:
  "isStale clock_digest js_compare DEFAULT_OBLIGATIONS
     (evaluate_gate clock_digest js_compare DEFAULT_OBLIGATIONS sample_gate sample_evidences 10)
     sample_gate sample_evidences 11 = (True, [''evaluation inputs changed''])"
proof -
  have "length (clock_digest (outcome_payload ctx as t)) = nat t" for ctx as t by (simp add: outcome_payload_def)
  then have "clock_digest (outcome_payload ctx as 10) \<noteq> clock_digest (outcome_payload ctx as' 11)" for ctx as as'
    by (metis nat_numeral num.distinct(5) numeral_eq_iff)
  then show ?thesis using unchanged_gate_is_stale_off_its_instant
      [of js_compare sample_gate sample_evidences DEFAULT_OBLIGATIONS clock_digest 10 11]
    by (simp add: Let_def)
qed

end
