(* ===== verification/Risk_Classification.thy ===== *)
theory Risk_Classification
  imports Policy_Contracts Canonical_Json
begin

text \<open>
  Risk classification, \<open>packages/policy-engine/src/classification\<close>: the risk lattice and the
  trusted context of \<open>lattice.ts\<close>, the deployed rules and the classifier of \<open>rules.ts\<close>.  A rule's
  predicate is a function in its record, as in the source.  The collation and the digest are
  arguments.
\<close>

section \<open>The lattice\<close>

fun rankOf :: "risk_class \<Rightarrow> nat" where
  "rankOf Read = 0"
| "rankOf Reversible_write = 1"
| "rankOf Sensitive_write = 2"
| "rankOf Destructive = 3"
| "rankOf External_side_effect = 3"

definition joinRisks :: "risk_class \<Rightarrow> risk_class \<Rightarrow> risk_class" where
  "joinRisks a b =
     (if rankOf a > rankOf b then a else if rankOf b > rankOf a then b
      else if a = b then a else Destructive)"

definition monotonic :: "risk_class \<Rightarrow> risk_class \<Rightarrow> bool" where
  "monotonic from to \<longleftrightarrow> rankOf to \<ge> rankOf from"

section \<open>Trusted context\<close>

datatype target_kind =
    Target_repository | Target_branch | Target_tag | Target_pull_request | Target_issue
  | Target_file | Target_workflow_run | Target_deployment

fun target_kind_str :: "target_kind \<Rightarrow> string" where
  "target_kind_str Target_repository = ''repository''"
| "target_kind_str Target_branch = ''branch''"
| "target_kind_str Target_tag = ''tag''"
| "target_kind_str Target_pull_request = ''pull_request''"
| "target_kind_str Target_issue = ''issue''"
| "target_kind_str Target_file = ''file''"
| "target_kind_str Target_workflow_run = ''workflow_run''"
| "target_kind_str Target_deployment = ''deployment''"

datatype target_environment = Env_sandbox | Env_development | Env_staging | Env_production

fun environment_str :: "target_environment \<Rightarrow> string" where
  "environment_str Env_sandbox = ''sandbox''"
| "environment_str Env_development = ''development''"
| "environment_str Env_staging = ''staging''"
| "environment_str Env_production = ''production''"

record target_descriptor =
  td_kind :: target_kind
  td_id :: string
  td_ref :: "string option"
  td_protected :: "bool option"
  td_environment :: "target_environment option"

datatype fact_source =
    Github_adapter | Policy_service | Domain_state | Sandbox_runtime | Untrusted_model | Repository_content

fun fact_source_str :: "fact_source \<Rightarrow> string" where
  "fact_source_str Github_adapter = ''github_adapter''"
| "fact_source_str Policy_service = ''policy_service''"
| "fact_source_str Domain_state = ''domain_state''"
| "fact_source_str Sandbox_runtime = ''sandbox_runtime''"
| "fact_source_str Untrusted_model = ''untrusted_model''"
| "fact_source_str Repository_content = ''repository_content''"

record provenance =
  pv_source :: fact_source
  pv_fetchedAt :: string
  pv_version :: "string option"

datatype context_actor = Ctx_agent | Ctx_user | Ctx_webhook | Ctx_system

fun context_actor_str :: "context_actor \<Rightarrow> string" where
  "context_actor_str Ctx_agent = ''agent''"
| "context_actor_str Ctx_user = ''user''"
| "context_actor_str Ctx_webhook = ''webhook''"
| "context_actor_str Ctx_system = ''system''"

record operation_metadata =
  om_targetRef :: "string option"
  om_baseSha :: "string option"
  om_headSha :: "string option"
  om_path :: "string option"
  om_paths :: "string list option"
  om_commandFingerprint :: "string option"

record context_fact =
  cf_kind :: string
  cf_value :: json
  cf_provenance :: provenance

record action_context =
  ac_repositoryId :: string
  ac_workflowId :: string
  ac_actor :: context_actor
  ac_target :: target_descriptor
  ac_operation :: operation_metadata
  ac_facts :: "context_fact list"

fun isTrustedFact :: "string \<Rightarrow> provenance \<Rightarrow> bool" where
  "isTrustedFact factKind prov \<longleftrightarrow>
     pv_source prov \<in> {Github_adapter, Policy_service, Domain_state, Sandbox_runtime}"

section \<open>Rules\<close>

record context_risk_rule =
  cr_id :: string
  requiresFacts :: "string list option"
  matches :: "action_context \<Rightarrow> bool"
  escalateTo :: risk_class
  cr_obligations :: "string list option"
  cr_explanation :: string

definition SENSITIVE_PATH_FRAGMENTS :: "string list" where
  "SENSITIVE_PATH_FRAGMENTS =
     [''.github/workflows/'', ''.circleci/'', ''dockerfile'', ''terraform/'', ''.github/security'', ''security/'']"

definition normalizePath :: "string \<Rightarrow> string" where
  "normalizePath path =
     (let slashed = map (\<lambda>c. if c = CHR 0x5C then CHR ''/'' else c) path
      in js_lower (if js_startsWith slashed ''./'' then drop 2 slashed else slashed))"

definition looksSensitivePath :: "string \<Rightarrow> bool" where
  "looksSensitivePath path \<longleftrightarrow> list_ex (js_includes (normalizePath path)) SENSITIVE_PATH_FRAGMENTS"

definition rule_protected_branch :: context_risk_rule where
  "rule_protected_branch =
     \<lparr>cr_id = ''rule-01-protected-branch-write'', requiresFacts = None,
      matches = (\<lambda>c. td_protected (ac_target c) = Some True \<or>
        list_ex (\<lambda>ref. ref = Some ''main'' \<or> ref = Some ''master'')
          [td_ref (ac_target c), Some (td_id (ac_target c)), om_targetRef (ac_operation c)]),
      escalateTo = Sensitive_write, cr_obligations = None,
      cr_explanation = ''target is a protected/default branch''\<rparr>"

definition operation_paths :: "action_context \<Rightarrow> string list" where
  "operation_paths c =
     (case om_paths (ac_operation c) of None \<Rightarrow> [] | Some ps \<Rightarrow> ps) @
     (case om_path (ac_operation c) of None \<Rightarrow> [] | Some p \<Rightarrow> if p = [] then [] else [p])"

definition rule_sensitive_path :: context_risk_rule where
  "rule_sensitive_path =
     \<lparr>cr_id = ''rule-02-sensitive-path'', requiresFacts = None,
      matches = (\<lambda>c. list_ex looksSensitivePath (operation_paths c)),
      escalateTo = Sensitive_write, cr_obligations = None,
      cr_explanation = ''operation touches CI/security/infrastructure configuration paths''\<rparr>"

definition rule_history_rewrite :: context_risk_rule where
  "rule_history_rewrite =
     \<lparr>cr_id = ''rule-03-force-history-rewrite'', requiresFacts = None,
      matches = (\<lambda>c. ac_workflowId c = ''op.history_rewrite'' \<and>
        (td_kind (ac_target c) = Target_branch \<or> td_kind (ac_target c) = Target_repository)),
      escalateTo = Destructive, cr_obligations = None,
      cr_explanation = ''history rewrite on branch/repository target''\<rparr>"

definition rule_permanent_deletion :: context_risk_rule where
  "rule_permanent_deletion =
     \<lparr>cr_id = ''rule-04-permanent-deletion'', requiresFacts = None,
      matches = (\<lambda>c. ac_actor c = Ctx_agent \<and> td_kind (ac_target c) = Target_repository \<and>
        ac_workflowId c = ''op.delete''),
      escalateTo = Destructive, cr_obligations = None,
      cr_explanation = ''permanent deletion proposed by agent actor''\<rparr>"

definition rule_production :: context_risk_rule where
  "rule_production =
     \<lparr>cr_id = ''rule-05-production-environment'', requiresFacts = None,
      matches = (\<lambda>c. td_environment (ac_target c) = Some Env_production),
      escalateTo = External_side_effect, cr_obligations = Some [''approval.privileged''],
      cr_explanation = ''target environment is production''\<rparr>"

definition rule_external_effect :: context_risk_rule where
  "rule_external_effect =
     \<lparr>cr_id = ''rule-06-external-network-effect'', requiresFacts = None,
      matches = (\<lambda>c. js_startsWith (ac_workflowId c) ''ext.''),
      escalateTo = External_side_effect, cr_obligations = None,
      cr_explanation = ''workflow declared external network side effect''\<rparr>"

definition rule_breadth :: context_risk_rule where
  "rule_breadth =
     \<lparr>cr_id = ''rule-07-breadth-limit'', requiresFacts = None,
      matches = (\<lambda>c. (case om_paths (ac_operation c) of None \<Rightarrow> 0 | Some ps \<Rightarrow> length ps) > 50),
      escalateTo = Sensitive_write, cr_obligations = None,
      cr_explanation = ''change breadth exceeds 50 paths in one operation''\<rparr>"

definition by_rule_id :: "(string \<Rightarrow> string \<Rightarrow> int) \<Rightarrow> context_risk_rule \<Rightarrow> context_risk_rule \<Rightarrow> int" where
  "by_rule_id lc a b = lc (cr_id a) (cr_id b)"

definition CONTEXT_RISK_RULES :: "(string \<Rightarrow> string \<Rightarrow> int) \<Rightarrow> context_risk_rule list" where
  "CONTEXT_RISK_RULES lc =
     js_sort (by_rule_id lc)
       [rule_protected_branch, rule_sensitive_path, rule_history_rewrite, rule_permanent_deletion,
        rule_production, rule_external_effect, rule_breadth]"

section \<open>The classifier\<close>

datatype effective_risk = Known_risk risk_class | Unknown_risk

datatype confidence = DETERMINATE | UNKNOWN

record risk_factor =
  rf_ruleId :: string
  rf_explanation :: string

record classification =
  baselineRisk :: risk_class
  effectiveRisk :: effective_risk
  factors :: "risk_factor list"
  cl_obligations :: "string list"
  confidence :: confidence
  classifierVersion :: string
  cl_inputFingerprint :: string

definition CLASSIFIER_VERSION :: string where "CLASSIFIER_VERSION = ''classifier@1''"

definition BASE_OBLIGATIONS :: "string list" where
  "BASE_OBLIGATIONS = [''sandbox_only'', ''timeout_required'']"

definition factByName :: "action_context \<Rightarrow> string \<Rightarrow> (json \<times> provenance) option" where
  "factByName c name =
     map_option (\<lambda>f. (cf_value f, cf_provenance f))
       (find (\<lambda>f. cf_kind f = name \<and> isTrustedFact (cf_kind f) (cf_provenance f)) (ac_facts c))"

text \<open>The members of an object literal or parsed object: an absent optional member is left out.\<close>

definition present :: "string \<Rightarrow> ('a \<Rightarrow> json) \<Rightarrow> 'a option \<Rightarrow> (string \<times> json) list" where
  "present k f x = (case x of None \<Rightarrow> [] | Some a \<Rightarrow> [(k, f a)])"

definition target_json :: "target_descriptor \<Rightarrow> json" where
  "target_json t =
     JObj ([(''kind'', JStr (target_kind_str (td_kind t))), (''id'', JStr (td_id t))] @
       present ''ref'' JStr (td_ref t) @ present ''protected'' JBool (td_protected t) @
       present ''environment'' (JStr \<circ> environment_str) (td_environment t))"

definition operation_json :: "operation_metadata \<Rightarrow> json" where
  "operation_json m =
     JObj (present ''targetRef'' JStr (om_targetRef m) @ present ''baseSha'' JStr (om_baseSha m) @
       present ''headSha'' JStr (om_headSha m) @ present ''path'' JStr (om_path m) @
       present ''paths'' (\<lambda>ps. JArr (map JStr ps)) (om_paths m) @
       present ''commandFingerprint'' JStr (om_commandFingerprint m))"

definition fact_json :: "context_fact \<Rightarrow> json" where
  "fact_json f =
     JArr [JStr (cf_kind f), cf_value f, JStr (fact_source_str (pv_source (cf_provenance f))),
           json_opt JStr (pv_version (cf_provenance f))]"

definition classification_payload :: "(string \<Rightarrow> string \<Rightarrow> int) \<Rightarrow> risk_class \<Rightarrow> action_context \<Rightarrow> json" where
  "classification_payload lc b c =
     JArr [JStr (risk_str b), JStr (ac_repositoryId c), JStr (ac_workflowId c), JStr (context_actor_str (ac_actor c)),
           target_json (ac_target c), operation_json (ac_operation c),
           JArr (js_sort (\<lambda>x y. lc (json_text x) (json_text y)) (map fact_json (ac_facts c)))]"

definition unverified :: "action_context \<Rightarrow> context_risk_rule \<Rightarrow> bool" where
  "unverified c r \<longleftrightarrow>
     list_ex (\<lambda>q. factByName c q = None) (case requiresFacts r of None \<Rightarrow> [] | Some qs \<Rightarrow> qs)"

text \<open>The loop over the sorted rules; the flag is false after the early return of an unverified rule.\<close>

fun apply_rules ::
  "action_context \<Rightarrow> context_risk_rule list \<Rightarrow> risk_class \<times> risk_factor list \<times> string list \<Rightarrow>
   bool \<times> risk_class \<times> risk_factor list \<times> string list" where
  "apply_rules c [] (e, fs, os) = (True, e, fs, os)"
| "apply_rules c (r # rs) (e, fs, os) =
     (if \<not> matches r c then apply_rules c rs (e, fs, os)
      else if unverified c r then (False, e, fs, os)
      else apply_rules c rs
        (joinRisks e (escalateTo r), fs @ [\<lparr>rf_ruleId = cr_id r, rf_explanation = cr_explanation r\<rparr>],
         js_nub (os @ (case cr_obligations r of None \<Rightarrow> [] | Some xs \<Rightarrow> xs))))"

definition classify ::
  "(json \<Rightarrow> string) \<Rightarrow> (string \<Rightarrow> string \<Rightarrow> int) \<Rightarrow> risk_class \<Rightarrow> action_context \<Rightarrow> context_risk_rule list \<Rightarrow> classification" where
  "classify sha lc b c rules =
     (case apply_rules c (js_sort (by_rule_id lc) rules) (b, [], js_nub BASE_OBLIGATIONS) of
        (ok, e, fs, os) \<Rightarrow>
          \<lparr>baselineRisk = b, effectiveRisk = (if ok then Known_risk e else Unknown_risk), factors = fs,
           cl_obligations = (if ok then js_sort js_compare os else os),
           confidence = (if ok then DETERMINATE else UNKNOWN), classifierVersion = CLASSIFIER_VERSION,
           cl_inputFingerprint = sha (classification_payload lc b c)\<rparr>)"

record classification_change =
  changed :: bool
  escalated :: bool
  staleApproval :: bool

definition effective_rank :: "effective_risk \<Rightarrow> int" where
  "effective_rank r = (case r of Unknown_risk \<Rightarrow> 9007199254740991 | Known_risk k \<Rightarrow> int (rankOf k))"

definition compareClassifications ::
  "effective_risk \<Rightarrow> string \<Rightarrow> classification \<Rightarrow> classification_change" where
  "compareClassifications prevRisk prevFingerprint current =
     (let esc = (effectiveRisk current = Unknown_risk \<or> effective_rank (effectiveRisk current) > effective_rank prevRisk)
      in \<lparr>changed = (prevFingerprint \<noteq> cl_inputFingerprint current), escalated = esc, staleApproval = esc\<rparr>)"
section \<open>The join is a maximum\<close>

text \<open>
  The tie of the two terminal classes goes to \<open>Destructive\<close>, so the join is the maximum of a
  linear order and the library's \<open>Max\<close> describes folds of it.
\<close>

fun join_rank :: "risk_class \<Rightarrow> nat" where
  "join_rank Read = 0"
| "join_rank Reversible_write = 1"
| "join_rank Sensitive_write = 2"
| "join_rank External_side_effect = 3"
| "join_rank Destructive = 4"

instantiation risk_class :: linorder
begin

definition less_eq_risk_class :: "risk_class \<Rightarrow> risk_class \<Rightarrow> bool" where
  "less_eq_risk_class a b = (join_rank a \<le> join_rank b)"

definition less_risk_class :: "risk_class \<Rightarrow> risk_class \<Rightarrow> bool" where
  "less_risk_class a b = (join_rank a < join_rank b)"

instance
proof
  fix a b :: risk_class
  show "a \<le> b \<Longrightarrow> b \<le> a \<Longrightarrow> a = b"
    by (cases a; cases b) (simp_all add: less_eq_risk_class_def)
qed (auto simp: less_eq_risk_class_def less_risk_class_def)

end

lemmas risk_order_simps = less_eq_risk_class_def less_risk_class_def

lemma joinRisks_max: "joinRisks a b = max a b"
  by (cases a; cases b) (simp_all add: joinRisks_def max_def risk_order_simps)

lemma rank_mono: "a \<le> b \<Longrightarrow> rankOf a \<le> rankOf b"
  by (cases a; cases b) (simp_all add: risk_order_simps)

section \<open>What a classification says\<close>

definition matching :: "action_context \<Rightarrow> context_risk_rule list \<Rightarrow> context_risk_rule set" where
  "matching c rules = {r \<in> set rules. matches r c}"

definition factor_of :: "context_risk_rule \<Rightarrow> risk_factor" where
  "factor_of r = \<lparr>rf_ruleId = cr_id r, rf_explanation = cr_explanation r\<rparr>"

definition obligations_of :: "context_risk_rule \<Rightarrow> string list" where
  "obligations_of r = (case cr_obligations r of None \<Rightarrow> [] | Some xs \<Rightarrow> xs)"

lemma finite_matching [simp]: "finite (matching c rules)"
  by (simp add: matching_def)

lemma matching_Cons:
  "matching c (r # rs) = (if matches r c then insert r (matching c rs) else matching c rs)"
  by (auto simp: matching_def)

lemma matching_sort [simp]: "matching c (js_sort cmp rules) = matching c rules"
  by (simp add: matching_def)

lemma apply_rules_verified:
  "fst (apply_rules c rs st) \<longleftrightarrow> (\<forall>r\<in>matching c rs. \<not> unverified c r)"
  by (induction c rs st rule: apply_rules.induct) (auto simp: matching_Cons matching_def)

lemma apply_rules_result:
  assumes "\<forall>r\<in>matching c rs. \<not> unverified c r"
  shows "\<exists>os'. apply_rules c rs (e, fs, os) =
      (True, Max (insert e (escalateTo ` matching c rs)), fs @ map factor_of (filter (\<lambda>r. matches r c) rs), os') \<and>
    set os' = set os \<union> (\<Union>r\<in>matching c rs. set (obligations_of r))"
  using assms
proof (induction rs arbitrary: e fs os)
  case Nil
  then show ?case by (simp add: matching_def)
next
  case (Cons r rs)
  show ?case
  proof (cases "matches r c")
    case False
    with Cons show ?thesis by (simp add: matching_Cons)
  next
    case True
    let ?A = "escalateTo ` matching c rs"
    have "Max (insert (max e (escalateTo r)) ?A) = Max (insert e (insert (escalateTo r) ?A))"
      by (cases "?A = {}") (simp_all add: max.assoc max.commute)
    with True Cons.prems Cons.IH [of "joinRisks e (escalateTo r)" "fs @ [factor_of r]" "js_nub (os @ obligations_of r)"]
    show ?thesis
      by (auto simp: matching_Cons joinRisks_max factor_of_def obligations_of_def Un_assoc)
  qed
qed

lemma classify_verified:
  assumes "\<forall>r\<in>matching c rules. \<not> unverified c r"
  shows "confidence (classify sha lc b c rules) = DETERMINATE"
    and "effectiveRisk (classify sha lc b c rules) = Known_risk (Max (insert b (escalateTo ` matching c rules)))"
    and "set (factors (classify sha lc b c rules)) = factor_of ` matching c rules"
    and "set (cl_obligations (classify sha lc b c rules)) =
           set BASE_OBLIGATIONS \<union> (\<Union>r\<in>matching c rules. set (obligations_of r))"
proof -
  let ?rs = "js_sort (by_rule_id lc) rules" and ?M = "matching c rules"
  from assms have "\<forall>r\<in>matching c ?rs. \<not> unverified c r" by simp
  from apply_rules_result [OF this, of b "[]" "js_nub BASE_OBLIGATIONS"] obtain os' where
    "apply_rules c ?rs (b, [], js_nub BASE_OBLIGATIONS) =
       (True, Max (insert b (escalateTo ` ?M)), map factor_of (filter (\<lambda>r. matches r c) ?rs), os')"
    "set os' = set BASE_OBLIGATIONS \<union> (\<Union>r\<in>?M. set (obligations_of r))" by auto
  then show "confidence (classify sha lc b c rules) = DETERMINATE"
    and "effectiveRisk (classify sha lc b c rules) = Known_risk (Max (insert b (escalateTo ` ?M)))"
    and "set (factors (classify sha lc b c rules)) = factor_of ` ?M"
    and "set (cl_obligations (classify sha lc b c rules)) =
           set BASE_OBLIGATIONS \<union> (\<Union>r\<in>?M. set (obligations_of r))"
    by (auto simp: classify_def matching_def)
qed

lemma classify_unverified:
  assumes "\<not> (\<forall>r\<in>matching c rules. \<not> unverified c r)"
  shows "confidence (classify sha lc b c rules) = UNKNOWN"
    and "effectiveRisk (classify sha lc b c rules) = Unknown_risk"
proof -
  from assms have "\<not> fst (apply_rules c (js_sort (by_rule_id lc) rules) (b, [], js_nub BASE_OBLIGATIONS))"
    by (simp add: apply_rules_verified)
  then show "confidence (classify sha lc b c rules) = UNKNOWN"
    and "effectiveRisk (classify sha lc b c rules) = Unknown_risk"
    by (auto simp: classify_def split: prod.splits)
qed

text \<open>
  The classification is exactly the join of the baseline with every matching rule:
  it is UNKNOWN precisely when some matching rule needs a fact no trusted source supplied, and
  otherwise the effective risk is the maximum of the baseline and the escalations of the matching
  rules, the factors name all of them, and the obligations are the base obligations with theirs.
  Nothing depends on the order in which rules are registered.
\<close>

theorem classify_exact:
  "let cl = classify sha lc b c rules; M = {r \<in> set rules. matches r c} in
     if \<exists>r\<in>M. unverified c r then confidence cl = UNKNOWN \<and> effectiveRisk cl = Unknown_risk
     else confidence cl = DETERMINATE \<and> effectiveRisk cl = Known_risk (Max (insert b (escalateTo ` M))) \<and>
       rf_ruleId ` set (factors cl) = cr_id ` M \<and>
       set (cl_obligations cl) =
         set BASE_OBLIGATIONS \<union> (\<Union>r\<in>M. set (case cr_obligations r of None \<Rightarrow> [] | Some xs \<Rightarrow> xs))"
  using classify_verified [of c rules sha lc b] classify_unverified [of c rules sha lc b]
  unfolding matching_def obligations_of_def Let_def
  by (auto simp: factor_of_def image_image)

section \<open>The deployed rules\<close>

definition touches_guarded :: "action_context \<Rightarrow> bool" where
  "touches_guarded c \<longleftrightarrow>
     td_protected (ac_target c) = Some True \<or>
     td_ref (ac_target c) \<in> {Some ''main'', Some ''master''} \<or> td_id (ac_target c) \<in> {''main'', ''master''} \<or>
     om_targetRef (ac_operation c) \<in> {Some ''main'', Some ''master''} \<or>
     (\<exists>p\<in>set (operation_paths c). looksSensitivePath p) \<or>
     (\<exists>ps. om_paths (ac_operation c) = Some ps \<and> 50 < length ps)"

definition reaches_outside :: "action_context \<Rightarrow> bool" where
  "reaches_outside c \<longleftrightarrow>
     td_environment (ac_target c) = Some Env_production \<or> prefix ''ext.'' (ac_workflowId c)"

definition destroys :: "action_context \<Rightarrow> bool" where
  "destroys c \<longleftrightarrow>
     ac_workflowId c = ''op.history_rewrite'' \<and> td_kind (ac_target c) \<in> {Target_branch, Target_repository} \<or>
     ac_actor c = Ctx_agent \<and> td_kind (ac_target c) = Target_repository \<and> ac_workflowId c = ''op.delete''"

definition deployed_risk :: "risk_class \<Rightarrow> action_context \<Rightarrow> risk_class" where
  "deployed_risk b c =
     (if b = Destructive \<or> destroys c then Destructive
      else if b = External_side_effect \<or> reaches_outside c then External_side_effect
      else if b = Sensitive_write \<or> touches_guarded c then Sensitive_write else b)"

lemma set_CONTEXT_RISK_RULES:
  "set (CONTEXT_RISK_RULES lc) =
     {rule_protected_branch, rule_sensitive_path, rule_history_rewrite, rule_permanent_deletion,
      rule_production, rule_external_effect, rule_breadth}"
  by (simp add: CONTEXT_RISK_RULES_def)

lemma deployed_never_unverified: "r \<in> set (CONTEXT_RISK_RULES lc) \<Longrightarrow> \<not> unverified c r"
  by (auto simp: set_CONTEXT_RISK_RULES unverified_def rule_protected_branch_def rule_sensitive_path_def
      rule_history_rewrite_def rule_permanent_deletion_def rule_production_def rule_external_effect_def rule_breadth_def)

lemma image_filter_insert: "f ` {r \<in> insert a A. P r} = (if P a then {f a} else {}) \<union> f ` {r \<in> A. P r}"
  by auto

lemma deployed_matching:
  "escalateTo ` matching c (CONTEXT_RISK_RULES lc) =
     (if destroys c then {Destructive} else {}) \<union> (if reaches_outside c then {External_side_effect} else {}) \<union>
     (if touches_guarded c then {Sensitive_write} else {})"
proof -
  have eqs: "escalateTo rule_protected_branch = Sensitive_write" "escalateTo rule_sensitive_path = Sensitive_write"
    "escalateTo rule_breadth = Sensitive_write" "escalateTo rule_history_rewrite = Destructive"
    "escalateTo rule_permanent_deletion = Destructive" "escalateTo rule_production = External_side_effect"
    "escalateTo rule_external_effect = External_side_effect"
    by (simp_all add: rule_protected_branch_def rule_sensitive_path_def rule_history_rewrite_def
        rule_permanent_deletion_def rule_production_def rule_external_effect_def rule_breadth_def)
  have d: "destroys c \<longleftrightarrow> matches rule_history_rewrite c \<or> matches rule_permanent_deletion c"
    by (auto simp: destroys_def rule_history_rewrite_def rule_permanent_deletion_def)
  have o: "reaches_outside c \<longleftrightarrow> matches rule_production c \<or> matches rule_external_effect c"
    by (auto simp: reaches_outside_def rule_production_def rule_external_effect_def js_startsWith_def)
  have g: "touches_guarded c \<longleftrightarrow> matches rule_protected_branch c \<or> matches rule_sensitive_path c \<or> matches rule_breadth c"
    by (auto simp: touches_guarded_def rule_protected_branch_def rule_sensitive_path_def rule_breadth_def
        list_ex_iff split: option.splits)
  have m: "matching c (CONTEXT_RISK_RULES lc) = {r \<in> {rule_protected_branch, rule_sensitive_path, rule_history_rewrite,
      rule_permanent_deletion, rule_production, rule_external_effect, rule_breadth}. matches r c}"
    by (simp add: matching_def set_CONTEXT_RISK_RULES)
  show ?thesis unfolding m image_filter_insert eqs d o g by simp blast
qed

lemma deployed_effective:
  "effectiveRisk (classify sha lc b c (CONTEXT_RISK_RULES lc)) = Known_risk (deployed_risk b c)"
proof -
  have "\<forall>r\<in>matching c (CONTEXT_RISK_RULES lc). \<not> unverified c r"
    using deployed_never_unverified by (auto simp: matching_def)
  from classify_verified(2) [OF this] show ?thesis
    unfolding deployed_matching by (cases b) (auto simp: deployed_risk_def max_def risk_order_simps)
qed

text \<open>
  What the deployed rules classify: destructive exactly for a destructive baseline,
  a history rewrite or an agent's repository deletion; otherwise an external side effect exactly
  for such a baseline, a production target or a declared external workflow; otherwise sensitive
  exactly for such a baseline, a protected or default branch, a configuration path or more than
  fifty paths; otherwise the baseline.  The result is always determinate and never below the
  baseline.
\<close>

theorem deployed_classification_exact:
  "effectiveRisk (classify sha lc b c (CONTEXT_RISK_RULES lc)) = Known_risk (deployed_risk b c) \<and>
   confidence (classify sha lc b c (CONTEXT_RISK_RULES lc)) = DETERMINATE \<and>
   monotonic b (deployed_risk b c)"
proof -
  have "\<forall>r\<in>matching c (CONTEXT_RISK_RULES lc). \<not> unverified c r"
    using deployed_never_unverified by (auto simp: matching_def)
  from classify_verified(1) [OF this] deployed_effective show ?thesis
    by (cases b) (auto simp: monotonic_def deployed_risk_def)
qed

section \<open>Untrusted facts\<close>

definition trusted_only :: "action_context \<Rightarrow> action_context" where
  "trusted_only c = c\<lparr>ac_facts := filter (\<lambda>f. isTrustedFact (cf_kind f) (cf_provenance f)) (ac_facts c)\<rparr>"

lemma find_filter_conj: "find (\<lambda>x. P x \<and> Q x) (filter Q xs) = find (\<lambda>x. P x \<and> Q x) xs"
  by (induction xs) auto

lemma unverified_trusted_only: "unverified (trusted_only c) r = unverified c r"
  by (simp add: unverified_def factByName_def trusted_only_def find_filter_conj del: isTrustedFact.simps)

text \<open>
  Facts of untrusted origin are inert: dropping every fact that a model or the
  repository content supplied leaves the effective risk, the confidence, the factors and the
  obligations as they were, for every set of rules whose predicates do not read the fact list
  themselves (facts enter through the required facts); so no such fact lowers a risk or completes
  a missing confirmation.
\<close>

theorem untrusted_facts_are_inert:
  assumes "\<forall>r\<in>set rules. \<forall>fs. matches r (c\<lparr>ac_facts := fs\<rparr>) = matches r c"
  shows "effectiveRisk (classify sha lc b (trusted_only c) rules) = effectiveRisk (classify sha lc b c rules) \<and>
    confidence (classify sha lc b (trusted_only c) rules) = confidence (classify sha lc b c rules) \<and>
    factors (classify sha lc b (trusted_only c) rules) = factors (classify sha lc b c rules) \<and>
    cl_obligations (classify sha lc b (trusted_only c) rules) = cl_obligations (classify sha lc b c rules)"
proof -
  have "apply_rules (trusted_only c) rs st = apply_rules c rs st"
    if "\<forall>r\<in>set rs. matches r (trusted_only c) = matches r c" for rs st
    using that by (induction c rs st rule: apply_rules.induct) (auto simp: unverified_trusted_only)
  then have "apply_rules (trusted_only c) (js_sort (by_rule_id lc) rules) st = apply_rules c (js_sort (by_rule_id lc) rules) st" for st
    using assms by (simp add: trusted_only_def)
  then show ?thesis by (simp add: classify_def split: prod.splits)
qed

definition sample_context :: action_context where
  "sample_context =
     \<lparr>ac_repositoryId = ''r'', ac_workflowId = ''w'', ac_actor = Ctx_agent,
      ac_target = \<lparr>td_kind = Target_branch, td_id = ''b'', td_ref = None, td_protected = None, td_environment = Some Env_production\<rparr>,
      ac_operation = \<lparr>om_targetRef = None, om_baseSha = None, om_headSha = None, om_path = None, om_paths = None,
        om_commandFingerprint = None\<rparr>,
      ac_facts = [\<lparr>cf_kind = ''confirmed'', cf_value = JBool True,
        cf_provenance = \<lparr>pv_source = Untrusted_model, pv_fetchedAt = ''t'', pv_version = None\<rparr>\<rparr>]\<rparr>"

definition confirmed_rule :: context_risk_rule where
  "confirmed_rule = rule_production\<lparr>requiresFacts := Some [''confirmed'']\<rparr>"

theorem untrusted_facts_are_inert_witness:
  "ac_facts (trusted_only sample_context) = [] \<and>
   confidence (classify (\<lambda>_. []) js_compare Read (trusted_only sample_context) [confirmed_rule]) = UNKNOWN \<and>
   confidence (classify (\<lambda>_. []) js_compare Read sample_context [confirmed_rule]) = UNKNOWN"
proof -
  have "confidence (classify (\<lambda>_. []) js_compare Read (trusted_only sample_context) [confirmed_rule]) = UNKNOWN"
    by (rule classify_unverified)
       (simp add: matching_def confirmed_rule_def rule_production_def unverified_def factByName_def
          trusted_only_def sample_context_def)
  with untrusted_facts_are_inert [of "[confirmed_rule]" sample_context "\<lambda>_. []" js_compare Read] show ?thesis
    by (simp add: confirmed_rule_def rule_production_def) (simp add: trusted_only_def sample_context_def)
qed

end
