(* ===== verification/Queue_Transport.thy ===== *)
theory Queue_Transport
  imports Complex_Main Canonical_Json "HOL-Library.AList"
begin

text \<open>
  The job queue, \<open>packages/queue/src/envelope.ts\<close> and \<open>packages/queue/src/retry.ts\<close>: job envelopes
  and the handler registry, backoff with full jitter, the in-memory transport with its leases
  (insertion-ordered maps as association lists) and the cancellation fence.  Clock readings and
  the random source are arguments.
\<close>

section \<open>Envelopes\<close>

datatype queue_name =
    Webhook_processing | Workflow_execution | Sandbox_monitoring | Approval_resume
  | Outbox_publishing | Cleanup

datatype job_type =
    Webhook_process | Workflow_execute | Approval_resume_job | Outbox_publish | Sandbox_monitor
  | Cleanup_retention

fun job_type_str :: "job_type \<Rightarrow> string" where
  "job_type_str Webhook_process = ''webhook.process''"
| "job_type_str Workflow_execute = ''workflow.execute''"
| "job_type_str Approval_resume_job = ''approval.resume''"
| "job_type_str Outbox_publish = ''outbox.publish''"
| "job_type_str Sandbox_monitor = ''sandbox.monitor''"
| "job_type_str Cleanup_retention = ''cleanup.retention''"

record job_envelope =
  jobId :: string
  jobType :: string
  schemaVersion :: int
  queue :: queue_name
  uniqueKey :: string
  payload :: "(string \<times> json) list"
  tenantId :: "string option"
  env_repositoryId :: "string option"
  env_workflowRunId :: "string option"
  env_sessionId :: "string option"
  env_actionId :: "string option"
  correlationId :: string
  causationId :: "string option"
  traceparent :: "string option"
  cancellationGeneration :: int
  enqueuedAtIso :: string

record envelope_input =
  in_jobType :: job_type
  in_schemaVersion :: int
  in_queue :: queue_name
  in_uniqueKey :: string
  in_payload :: "(string \<times> json) list"
  in_correlationId :: string
  in_cancellationGeneration :: "int option"
  in_tenantId :: "string option"
  in_repositoryId :: "string option"
  in_workflowRunId :: "string option"
  in_sessionId :: "string option"
  in_actionId :: "string option"
  in_causationId :: "string option"
  in_traceparent :: "string option"

definition MAX_PAYLOAD_BYTES :: nat where "MAX_PAYLOAD_BYTES = 32 * 1024"

definition FORBIDDEN_PAYLOAD_FIELDS :: "string list" where
  "FORBIDDEN_PAYLOAD_FIELDS = [''password'', ''token'', ''secret'', ''authorization'']"

definition buildEnvelope :: "string \<Rightarrow> envelope_input \<Rightarrow> string + job_envelope" where
  "buildEnvelope nowIso i =
     (let payloadBytes = utf8_length (json_text (JObj (in_payload i))) in
      if payloadBytes > MAX_PAYLOAD_BYTES then
        Inl (''payload '' @ js_nat_str payloadBytes @ ''B exceeds '' @ js_nat_str MAX_PAYLOAD_BYTES @ ''B budget'')
      else case find (\<lambda>k. k \<in> fst ` set (in_payload i)) FORBIDDEN_PAYLOAD_FIELDS of
        Some k \<Rightarrow> Inl (''forbidden payload field '' @ quoted k)
      | None \<Rightarrow> Inr
          \<lparr>jobId = ''env1:'' @ job_type_str (in_jobType i) @ '':'' @ in_uniqueKey i, jobType = job_type_str (in_jobType i),
           schemaVersion = in_schemaVersion i, queue = in_queue i, uniqueKey = in_uniqueKey i, payload = in_payload i,
           tenantId = in_tenantId i, env_repositoryId = in_repositoryId i, env_workflowRunId = in_workflowRunId i,
           env_sessionId = in_sessionId i, env_actionId = in_actionId i, correlationId = in_correlationId i,
           causationId = in_causationId i, traceparent = in_traceparent i,
           cancellationGeneration = (case in_cancellationGeneration i of None \<Rightarrow> 0 | Some g \<Rightarrow> g),
           enqueuedAtIso = nowIso\<rparr>)"

text \<open>The registry: one handler per type and version.\<close>

definition handler_key :: "string \<Rightarrow> int \<Rightarrow> string" where
  "handler_key t v = t @ ''@'' @ js_int_str v"

definition register :: "job_type \<Rightarrow> int \<Rightarrow> 'h \<Rightarrow> (string \<times> 'h) list \<Rightarrow> string + (string \<times> 'h) list" where
  "register t v h hs =
     (let key = handler_key (job_type_str t) v in
      if key \<in> fst ` set hs then Inl (''duplicate handler registration for '' @ quoted key)
      else Inr (hs @ [(key, h)]))"

definition resolve_handler :: "(string \<times> 'h) list \<Rightarrow> string \<Rightarrow> int \<Rightarrow> string + 'h" where
  "resolve_handler hs t v =
     (case map_of hs (handler_key t v) of
        None \<Rightarrow> Inl (''no handler registered for '' @ quoted t @ ''@'' @ js_int_str v)
      | Some h \<Rightarrow> Inr h)"

section \<open>Backoff\<close>

record retry_options =
  maxAttempts :: int
  backoffBaseSeconds :: "int option"
  maxBackoffSeconds :: "int option"

definition attempts_only :: "int \<Rightarrow> retry_options" where
  "attempts_only n = \<lparr>maxAttempts = n, backoffBaseSeconds = None, maxBackoffSeconds = None\<rparr>"

fun QUEUE_RETRY_DEFAULTS :: "queue_name \<Rightarrow> retry_options" where
  "QUEUE_RETRY_DEFAULTS Webhook_processing = attempts_only 8"
| "QUEUE_RETRY_DEFAULTS Workflow_execution = attempts_only 10"
| "QUEUE_RETRY_DEFAULTS Sandbox_monitoring = attempts_only 6"
| "QUEUE_RETRY_DEFAULTS Approval_resume = attempts_only 12"
| "QUEUE_RETRY_DEFAULTS Outbox_publishing = attempts_only 15"
| "QUEUE_RETRY_DEFAULTS Cleanup = attempts_only 3"

text \<open>\<open>r\<close> is the value the random source returns, a rational in the unit interval.\<close>

definition backoffDelayMs :: "int \<Rightarrow> retry_options \<Rightarrow> rat \<Rightarrow> string + int" where
  "backoffDelayMs attempt opts r =
     (if attempt < 1 then Inl ''attempt is 1-based and must be >= 1''
      else
        let base = (case backoffBaseSeconds opts of None \<Rightarrow> 1 | Some b \<Rightarrow> b);
            cap = (case maxBackoffSeconds opts of None \<Rightarrow> 60 | Some m \<Rightarrow> m);
            e = min cap (base * 2 ^ nat (attempt - 1))
        in Inr \<lfloor>r * of_int e * 1000\<rfloor>)"

section \<open>The in-memory transport\<close>

record pending_entry =
  pe_envelope :: job_envelope
  availableAtMs :: int

record active_entry =
  ae_envelope :: job_envelope
  leaseUntilMs :: int
  ae_workerId :: string
  ae_attempts :: nat

record transport =
  pending :: "(string \<times> pending_entry) list"
  active :: "(string \<times> active_entry) list"
  dead :: "string list"
  attemptCount :: "(string \<times> nat) list"

definition empty_transport :: transport where
  "empty_transport = \<lparr>pending = [], active = [], dead = [], attemptCount = []\<rparr>"

definition attemptsOf :: "transport \<Rightarrow> string \<Rightarrow> nat" where
  "attemptsOf st k = (case map_of (attemptCount st) k of None \<Rightarrow> 0 | Some n \<Rightarrow> n)"

definition enqueue :: "int \<Rightarrow> job_envelope \<Rightarrow> int \<Rightarrow> transport \<Rightarrow> transport \<times> bool \<times> bool" where
  "enqueue now env delayMs st =
     (let key = uniqueKey env in
      if map_of (pending st) key \<noteq> None \<or> map_of (active st) key \<noteq> None then (st, False, True)
      else (st\<lparr>pending := AList.update key \<lparr>pe_envelope = env, availableAtMs = now + delayMs\<rparr> (pending st)\<rparr>, True, False))"

fun release_loop :: "int \<Rightarrow> (string \<times> active_entry) list \<Rightarrow> transport \<times> nat \<Rightarrow> transport \<times> nat" where
  "release_loop now [] (st, n) = (st, n)"
| "release_loop now ((k, held) # es) (st, n) =
     (if leaseUntilMs held \<le> now
      then release_loop now es
        (st\<lparr>active := AList.delete k (active st),
            pending := AList.update k \<lparr>pe_envelope = ae_envelope held, availableAtMs = now\<rparr> (pending st)\<rparr>, n + 1)
      else release_loop now es (st, n))"

definition releaseExpiredLeases :: "int \<Rightarrow> transport \<Rightarrow> transport \<times> nat" where
  "releaseExpiredLeases now st = release_loop now (active st) (st, 0)"

fun claim_loop ::
  "queue_name \<Rightarrow> int \<Rightarrow> int \<Rightarrow> string \<Rightarrow> (string \<times> pending_entry) list \<Rightarrow> transport \<times> job_envelope list \<Rightarrow>
   transport \<times> job_envelope list" where
  "claim_loop q now leaseMs w [] (st, claimed) = (st, claimed)"
| "claim_loop q now leaseMs w ((k, e) # es) (st, claimed) =
     (if queue (pe_envelope e) \<noteq> q \<or> availableAtMs e > now then claim_loop q now leaseMs w es (st, claimed)
      else
        let n = attemptsOf st k + 1;
            st' = st\<lparr>attemptCount := AList.update k n (attemptCount st), pending := AList.delete k (pending st),
                     active := AList.update k \<lparr>ae_envelope = pe_envelope e, leaseUntilMs = now + leaseMs, ae_workerId = w,
                       ae_attempts = n\<rparr> (active st)\<rparr>;
            claimed' = claimed @ [pe_envelope e]
        in if length claimed' \<ge> 10 then (st', claimed') else claim_loop q now leaseMs w es (st', claimed'))"

definition by_availability :: "string \<times> pending_entry \<Rightarrow> string \<times> pending_entry \<Rightarrow> int" where
  "by_availability a b = availableAtMs (snd a) - availableAtMs (snd b)"

text \<open>\<open>claim\<close> reads the clock twice: for the release of expired leases and for the claim.\<close>

definition claim :: "int \<Rightarrow> int \<Rightarrow> queue_name \<Rightarrow> int \<Rightarrow> string \<Rightarrow> transport \<Rightarrow> transport \<times> job_envelope list" where
  "claim now0 now q leaseMs w st =
     (let st0 = fst (releaseExpiredLeases now0 st)
      in claim_loop q now leaseMs w (js_sort by_availability (pending st0)) (st0, []))"

definition heartbeat :: "int \<Rightarrow> string \<Rightarrow> int \<Rightarrow> string \<Rightarrow> transport \<Rightarrow> transport \<times> bool" where
  "heartbeat now k leaseMs w st =
     (case map_of (active st) k of
        None \<Rightarrow> (st, False)
      | Some held \<Rightarrow>
          if ae_workerId held \<noteq> w then (st, False)
          else (st\<lparr>active := AList.update k (held\<lparr>leaseUntilMs := now + leaseMs\<rparr>) (active st)\<rparr>, True))"

datatype complete_result = Completed_job | Fenced_job | Missing_job

definition complete :: "string \<Rightarrow> string \<Rightarrow> transport \<Rightarrow> transport \<times> complete_result" where
  "complete k w st =
     (case map_of (active st) k of
        None \<Rightarrow> (st, Missing_job)
      | Some held \<Rightarrow>
          if ae_workerId held \<noteq> w then (st, Fenced_job)
          else (st\<lparr>active := AList.delete k (active st)\<rparr>, Completed_job))"

definition deadLetter :: "string \<Rightarrow> string \<Rightarrow> transport \<Rightarrow> transport" where
  "deadLetter k errorCode st =
     st\<lparr>active := AList.delete k (active st), pending := AList.delete k (pending st),
        dead := (if k \<in> set (dead st) then dead st else dead st @ [k])\<rparr>"

datatype remove_result = Removed_job | Active_job | Unknown_job

definition remove :: "string \<Rightarrow> transport \<Rightarrow> transport \<times> remove_result" where
  "remove k st =
     (if map_of (pending st) k \<noteq> None then (st\<lparr>pending := AList.delete k (pending st)\<rparr>, Removed_job)
      else if map_of (active st) k \<noteq> None then (st, Active_job) else (st, Unknown_job))"

definition pendingCount :: "transport \<Rightarrow> nat" where
  "pendingCount st = length (pending st)"

section \<open>The cancellation fence\<close>

type_synonym generations = "string \<Rightarrow> int option"

definition generation :: "generations \<Rightarrow> string \<Rightarrow> int" where
  "generation m r = (case m r of None \<Rightarrow> 0 | Some n \<Rightarrow> n)"

definition bump :: "string \<Rightarrow> generations \<Rightarrow> generations \<times> int" where
  "bump r m = (m(r \<mapsto> generation m r + 1), generation m r + 1)"

definition isFenced :: "generations \<Rightarrow> job_envelope \<Rightarrow> bool" where
  "isFenced m env =
     (case env_workflowRunId env of
        None \<Rightarrow> False
      | Some r \<Rightarrow> r \<noteq> [] \<and> cancellationGeneration env < generation m r)"
section \<open>The loops as updates of the maps\<close>

lemmas alist_simps = update_conv' delete_conv' distinct_update distinct_delete

lemma attemptsOf_update: "attemptsOf (st\<lparr>attemptCount := AList.update k n (attemptCount st)\<rparr>) j = (if j = k then n else attemptsOf st j)"
  by (simp add: attemptsOf_def update_conv')

lemma attemptsOf_frame [simp]:
  "attemptsOf (st\<lparr>pending := p\<rparr>) = attemptsOf st" "attemptsOf (st\<lparr>active := a\<rparr>) = attemptsOf st"
  "attemptsOf (st\<lparr>dead := d\<rparr>) = attemptsOf st"
  by (simp_all add: attemptsOf_def fun_eq_iff)

definition expired_at :: "int \<Rightarrow> active_entry option \<Rightarrow> bool" where
  "expired_at now h \<longleftrightarrow> (case h of None \<Rightarrow> False | Some e \<Rightarrow> leaseUntilMs e \<le> now)"

definition released :: "int \<Rightarrow> active_entry \<Rightarrow> pending_entry" where
  "released now h = \<lparr>pe_envelope = ae_envelope h, availableAtMs = now\<rparr>"

lemma release_loop_maps:
  assumes "distinct (map fst es)"
  shows "map_of (pending (fst (release_loop now es (st, n)))) k =
      (if expired_at now (map_of es k) then map_option (released now) (map_of es k) else map_of (pending st) k)"
    and "map_of (active (fst (release_loop now es (st, n)))) k =
      (if expired_at now (map_of es k) then None else map_of (active st) k)"
    and "attemptsOf (fst (release_loop now es (st, n))) = attemptsOf st"
    and "dead (fst (release_loop now es (st, n))) = dead st"
    and "distinct (map fst (pending st)) \<Longrightarrow> distinct (map fst (pending (fst (release_loop now es (st, n)))))"
    and "distinct (map fst (active st)) \<Longrightarrow> distinct (map fst (active (fst (release_loop now es (st, n)))))"
proof (atomize (full), use assms in \<open>induction es arbitrary: st n\<close>)
  case Nil
  then show ?case by (simp add: expired_at_def)
next
  case (Cons x es)
  obtain j h where x: "x = (j, h)" by fastforce
  from Cons.prems have nj: "map_of es j = None" and d: "distinct (map fst es)" by (auto simp: x map_of_eq_None_iff)
  show ?case
    using Cons.IH [OF d] nj by (cases "k = j") (auto simp: x expired_at_def released_def alist_simps)
qed

definition job_due :: "queue_name \<Rightarrow> int \<Rightarrow> string \<times> pending_entry \<Rightarrow> bool" where
  "job_due q now x \<longleftrightarrow> queue (pe_envelope (snd x)) = q \<and> availableAtMs (snd x) \<le> now"

definition leased :: "transport \<Rightarrow> int \<Rightarrow> int \<Rightarrow> string \<Rightarrow> string \<Rightarrow> pending_entry \<Rightarrow> active_entry" where
  "leased st now leaseMs w k e =
     \<lparr>ae_envelope = pe_envelope e, leaseUntilMs = now + leaseMs, ae_workerId = w, ae_attempts = attemptsOf st k + 1\<rparr>"

lemma claim_loop_maps:
  assumes "distinct (map fst es)" and "length claimed < 10"
  shows "let r = claim_loop q now leaseMs w es (st, claimed); taken = take (10 - length claimed) (filter (job_due q now) es) in
     snd r = claimed @ map (pe_envelope \<circ> snd) taken \<and>
     map_of (pending (fst r)) k = (if k \<in> fst ` set taken then None else map_of (pending st) k) \<and>
     map_of (active (fst r)) k =
       (case map_of taken k of None \<Rightarrow> map_of (active st) k | Some e \<Rightarrow> Some (leased st now leaseMs w k e)) \<and>
     attemptsOf (fst r) k = attemptsOf st k + (if k \<in> fst ` set taken then 1 else 0) \<and>
     dead (fst r) = dead st \<and>
     (distinct (map fst (pending st)) \<longrightarrow> distinct (map fst (pending (fst r)))) \<and>
     (distinct (map fst (active st)) \<longrightarrow> distinct (map fst (active (fst r))))"
  using assms
proof (induction es arbitrary: st claimed)
  case Nil
  then show ?case by simp
next
  case (Cons x es)
  obtain j e where x: "x = (j, e)" by fastforce
  from Cons.prems have d: "distinct (map fst es)" and nj: "j \<notin> fst ` set es" by (auto simp: x)
  show ?case
  proof (cases "job_due q now x")
    case False
    with Cons.IH [OF d Cons.prems(2)] show ?thesis by (auto simp: x job_due_def)
  next
    case True
    let ?st' = "st\<lparr>attemptCount := AList.update j (attemptsOf st j + 1) (attemptCount st), pending := AList.delete j (pending st),
       active := AList.update j (leased st now leaseMs w j e) (active st)\<rparr>"
    let ?c' = "claimed @ [pe_envelope e]"
    have at: "attemptsOf ?st' i = (if i = j then attemptsOf st j + 1 else attemptsOf st i)" for i
      by (simp add: attemptsOf_def update_conv')
    have step: "claim_loop q now leaseMs w (x # es) (st, claimed) =
        (if length ?c' \<ge> 10 then (?st', ?c') else claim_loop q now leaseMs w es (?st', ?c'))"
      using True by (simp add: x job_due_def leased_def Let_def)
    show ?thesis
    proof (cases "length ?c' \<ge> 10")
      case full: True
      then have t: "10 - length claimed = 1" using Cons.prems(2) by simp
      show ?thesis unfolding step t using full True at [of k]
        by (auto simp: x Let_def alist_simps)
    next
      case False
      then have t: "10 - length claimed = Suc (10 - length ?c')" by simp
      let ?t' = "take (10 - length ?c') (filter (job_due q now) es)"
      have keys: "j \<notin> fst ` set ?t'" using nj by (auto dest!: in_set_takeD)
      then have mo: "map_of ?t' j = None" by (simp add: map_of_eq_None_iff)
      have ls: "leased ?st' now leaseMs w i e' = leased st now leaseMs w i e'" if "i \<noteq> j" for i e'
        using that at [of i] by (simp add: leased_def)
      from Cons.IH [OF d, of ?c' ?st'] False show ?thesis
        unfolding step t using True keys mo at [of k] ls [of k]
        by (cases "k = j") (auto simp: x Let_def alist_simps split: option.splits)
    qed
  qed
qed
section \<open>The invariant of the transport\<close>

text \<open>
  Keys are unique, no job is pending and active at once, every entry is filed under the unique
  key of its envelope, and an active entry knows its own number of claims.
\<close>

definition transport_wf :: "transport \<Rightarrow> bool" where
  "transport_wf st \<longleftrightarrow>
     distinct (map fst (pending st)) \<and> distinct (map fst (active st)) \<and>
     (\<forall>k e. map_of (pending st) k = Some e \<longrightarrow> uniqueKey (pe_envelope e) = k \<and> map_of (active st) k = None) \<and>
     (\<forall>k e. map_of (active st) k = Some e \<longrightarrow>
        uniqueKey (ae_envelope e) = k \<and> ae_attempts e = attemptsOf st k \<and> 0 < attemptsOf st k)"

datatype queue_op =
    Op_enqueue int job_envelope int
  | Op_release int
  | Op_claim int int queue_name int string
  | Op_heartbeat int string int string
  | Op_complete string string
  | Op_deadLetter string string
  | Op_remove string

fun queue_apply :: "queue_op \<Rightarrow> transport \<Rightarrow> transport" where
  "queue_apply (Op_enqueue now env d) st = fst (enqueue now env d st)"
| "queue_apply (Op_release now) st = fst (releaseExpiredLeases now st)"
| "queue_apply (Op_claim now0 now q l w) st = fst (claim now0 now q l w st)"
| "queue_apply (Op_heartbeat now k l w) st = fst (heartbeat now k l w st)"
| "queue_apply (Op_complete k w) st = fst (complete k w st)"
| "queue_apply (Op_deadLetter k c) st = deadLetter k c st"
| "queue_apply (Op_remove k) st = fst (remove k st)"

lemma map_of_take_filter:
  assumes "distinct (map fst xs)" and "map_of (take n (filter P xs)) k = Some e"
  shows "map_of xs k = Some e"
proof -
  from assms(2) have "(k, e) \<in> set xs" by (auto dest!: map_of_SomeD in_set_takeD)
  with assms(1) show ?thesis by (simp add: map_of_is_SomeI)
qed

lemma map_of_js_sort:
  assumes "distinct (map fst xs)"
  shows "map_of (js_sort cmp xs) = map_of xs" and "distinct (map fst (js_sort cmp xs))"
proof -
  have "mset (map fst (js_sort cmp xs)) = mset (map fst xs)" by (simp add: mset_map)
  then show d: "distinct (map fst (js_sort cmp xs))" using assms mset_eq_imp_distinct_iff by metis
  show "map_of (js_sort cmp xs) = map_of xs"
    by (rule map_of_inject_set [THEN iffD2]) (use assms d in simp_all)
qed

lemma wf_release:
  assumes "transport_wf st"
  shows "transport_wf (fst (releaseExpiredLeases now st))"
proof -
  from assms have d: "distinct (map fst (active st))" by (simp add: transport_wf_def)
  show ?thesis using assms
    unfolding transport_wf_def releaseExpiredLeases_def release_loop_maps(1,2,3) [OF d]
    using release_loop_maps(5,6) [OF d]
    by (auto simp: released_def expired_at_def simp del: map_of_eq_Some_iff split: option.splits if_splits)
qed

text \<open>The entries a claim takes, after the release of expired leases: the first ten due ones.\<close>

definition takes :: "int \<Rightarrow> int \<Rightarrow> queue_name \<Rightarrow> transport \<Rightarrow> (string \<times> pending_entry) list" where
  "takes now0 now q st =
     take 10 (filter (job_due q now) (js_sort by_availability (pending (fst (releaseExpiredLeases now0 st)))))"

lemma claim_maps:
  fixes now0 now leaseMs :: int and q :: queue_name and w k :: string and e :: pending_entry
  assumes "transport_wf st"
  defines "st0 \<equiv> fst (releaseExpiredLeases now0 st)" and "r \<equiv> claim now0 now q leaseMs w st"
    and "tk \<equiv> takes now0 now q st"
  shows "snd r = map (pe_envelope \<circ> snd) tk"
    and "map_of (pending (fst r)) k = (if k \<in> fst ` set tk then None else map_of (pending st0) k)"
    and "map_of (active (fst r)) k =
       (case map_of tk k of None \<Rightarrow> map_of (active st0) k | Some e \<Rightarrow> Some (leased st0 now leaseMs w k e))"
    and "attemptsOf (fst r) k = attemptsOf st0 k + (if k \<in> fst ` set tk then 1 else 0)"
    and "dead (fst r) = dead st0"
    and "distinct (map fst (pending (fst r)))" and "distinct (map fst (active (fst r)))"
    and "map_of tk k = Some e \<Longrightarrow> map_of (pending st0) k = Some e"
proof -
  have wf0: "transport_wf st0" unfolding st0_def using assms(1) by (rule wf_release)
  then have dp: "distinct (map fst (pending st0))" and da: "distinct (map fst (active st0))"
    by (simp_all add: transport_wf_def)
  note d = map_of_js_sort [OF dp, of by_availability]
  have r: "r = claim_loop q now leaseMs w (js_sort by_availability (pending st0)) (st0, [])"
    by (simp add: r_def claim_def st0_def Let_def)
  from claim_loop_maps [OF d(2), of "[]" q now leaseMs w st0 k] dp da
  show "snd r = map (pe_envelope \<circ> snd) tk"
    and "map_of (pending (fst r)) k = (if k \<in> fst ` set tk then None else map_of (pending st0) k)"
    and "map_of (active (fst r)) k =
       (case map_of tk k of None \<Rightarrow> map_of (active st0) k | Some e \<Rightarrow> Some (leased st0 now leaseMs w k e))"
    and "attemptsOf (fst r) k = attemptsOf st0 k + (if k \<in> fst ` set tk then 1 else 0)"
    and "dead (fst r) = dead st0"
    and "distinct (map fst (pending (fst r)))" and "distinct (map fst (active (fst r)))"
    unfolding r tk_def takes_def st0_def [symmetric] by (simp_all add: Let_def)
  show "map_of tk k = Some e \<Longrightarrow> map_of (pending st0) k = Some e"
    unfolding tk_def takes_def st0_def [symmetric] using map_of_take_filter [OF d(2)] by (simp add: d(1))
qed

lemma wf_claim:
  assumes "transport_wf st"
  shows "transport_wf (fst (claim now0 now q leaseMs w st))"
proof -
  have "transport_wf (fst (releaseExpiredLeases now0 st))" using assms by (rule wf_release)
  moreover have "(k \<in> fst ` set xs) = (map_of xs k \<noteq> None)" for k and xs :: "(string \<times> pending_entry) list"
    by (simp add: map_of_eq_None_iff)
  ultimately show ?thesis
    unfolding transport_wf_def claim_maps(2,3,4) [OF assms]
    using claim_maps(6,7,8) [OF assms]
    by (fastforce simp: leased_def simp del: map_of_eq_Some_iff split: option.splits if_splits)
qed

lemma wf_queue_apply: "transport_wf st \<Longrightarrow> transport_wf (queue_apply op st)"
proof (cases op)
  case (Op_enqueue now env d)
  then show "transport_wf st \<Longrightarrow> transport_wf (queue_apply op st)"
    by (auto simp: transport_wf_def enqueue_def Let_def alist_simps simp del: map_of_eq_Some_iff)
next
  case (Op_heartbeat now k l w)
  then show "transport_wf st \<Longrightarrow> transport_wf (queue_apply op st)"
    by (cases "map_of (pending st) k")
       (auto simp: transport_wf_def heartbeat_def alist_simps simp del: map_of_eq_Some_iff split: option.splits)
next
  case (Op_complete k w)
  then show "transport_wf st \<Longrightarrow> transport_wf (queue_apply op st)"
    by (auto simp: transport_wf_def complete_def alist_simps simp del: map_of_eq_Some_iff split: option.splits)
next
  case (Op_deadLetter k c)
  then show "transport_wf st \<Longrightarrow> transport_wf (queue_apply op st)"
    by (auto simp: transport_wf_def deadLetter_def alist_simps simp del: map_of_eq_Some_iff)
next
  case (Op_remove k)
  then show "transport_wf st \<Longrightarrow> transport_wf (queue_apply op st)"
    by (auto simp: transport_wf_def remove_def alist_simps simp del: map_of_eq_Some_iff)
qed (simp_all add: wf_release wf_claim)

lemma wf_queue_run: "transport_wf st \<Longrightarrow> transport_wf (fold queue_apply ops st)"
  by (induction ops arbitrary: st) (simp_all add: wf_queue_apply)

lemma wf_empty: "transport_wf empty_transport"
  by (simp add: transport_wf_def empty_transport_def)
section \<open>Properties\<close>

text \<open>A worker holds a job: it is active under the worker with a lease that lasts to \<open>L\<close>.\<close>

definition holds_until :: "transport \<Rightarrow> string \<Rightarrow> string \<Rightarrow> int \<Rightarrow> bool" where
  "holds_until st k w L \<longleftrightarrow>
     (\<exists>e. map_of (active st) k = Some e \<and> ae_workerId e = w \<and> L \<le> leaseUntilMs e)"

text \<open>
  An operation that honours the lease: its clock reading, where it releases leases, is before
  \<open>L\<close>; it is not the holder's own completion or a heartbeat that shortens the lease; and it does
  not dead-letter the job.
\<close>

fun honours :: "string \<Rightarrow> string \<Rightarrow> int \<Rightarrow> queue_op \<Rightarrow> bool" where
  "honours k w L (Op_release now) = (now < L)"
| "honours k w L (Op_claim now0 now q l w') = (now0 < L)"
| "honours k w L (Op_heartbeat now k' l w') = (k' = k \<and> w' = w \<longrightarrow> L \<le> now + l)"
| "honours k w L (Op_complete k' w') = (\<not> (k' = k \<and> w' = w))"
| "honours k w L (Op_deadLetter k' c) = (k' \<noteq> k)"
| "honours k w L _ = True"

lemma holds_release:
  assumes "transport_wf st" and "holds_until st k w L" and "now < L"
  shows "holds_until (fst (releaseExpiredLeases now st)) k w L"
proof -
  from assms(1) have d: "distinct (map fst (active st))" by (simp add: transport_wf_def)
  show ?thesis using assms(2,3) unfolding holds_until_def releaseExpiredLeases_def release_loop_maps(2) [OF d]
    by (auto simp: expired_at_def simp del: map_of_eq_Some_iff)
qed

lemma claim_not_held:
  assumes "transport_wf st" and "holds_until st k w L" and "now0 < L"
  shows "map_of (takes now0 now q st) k = None"
proof (rule ccontr)
  assume "map_of (takes now0 now q st) k \<noteq> None"
  then obtain e where "map_of (takes now0 now q st) k = Some e" by blast
  from claim_maps(8) [OF assms(1) this] have "map_of (pending (fst (releaseExpiredLeases now0 st))) k = Some e" .
  with wf_release [OF assms(1), of now0] holds_release [OF assms] show False
    by (auto simp: transport_wf_def holds_until_def simp del: map_of_eq_Some_iff)
qed

lemma holds_apply:
  assumes "transport_wf st" and "holds_until st k w L" and "honours k w L op"
  shows "holds_until (queue_apply op st) k w L"
proof (cases op)
  case (Op_claim now0 now q l w')
  with assms have "holds_until (fst (releaseExpiredLeases now0 st)) k w L" and "map_of (takes now0 now q st) k = None"
    by (simp_all add: holds_release claim_not_held)
  with Op_claim show ?thesis by (simp add: holds_until_def claim_maps(3) [OF assms(1)] del: map_of_eq_Some_iff)
next
  case (Op_heartbeat now k' l w')
  with assms show ?thesis
    by (auto simp: holds_until_def heartbeat_def alist_simps simp del: map_of_eq_Some_iff split: option.splits)
next
  case (Op_complete k' w')
  with assms show ?thesis
    by (auto simp: holds_until_def complete_def alist_simps simp del: map_of_eq_Some_iff split: option.splits)
next
  case (Op_enqueue now env d)
  with assms show ?thesis by (simp add: holds_until_def enqueue_def Let_def del: map_of_eq_Some_iff)
next
  case (Op_remove k')
  with assms show ?thesis by (simp add: holds_until_def remove_def del: map_of_eq_Some_iff)
next
  case (Op_deadLetter k' c)
  with assms show ?thesis by (simp add: holds_until_def deadLetter_def alist_simps del: map_of_eq_Some_iff)
qed (use assms in \<open>simp add: holds_release\<close>)

lemma holds_run:
  assumes "transport_wf st" and "holds_until st k w L" and "list_all (honours k w L) ops"
  shows "holds_until (fold queue_apply ops st) k w L"
  using assms by (induction ops arbitrary: st) (simp_all add: holds_apply wf_queue_apply)

lemma claim_unique_keys:
  assumes "transport_wf st" and "env \<in> set (snd (claim now0 now q l w st))"
  shows "\<exists>e. map_of (takes now0 now q st) (uniqueKey env) = Some e \<and> env = pe_envelope e \<and> queue env = q"
proof -
  from assms(2) obtain k e where ke: "(k, e) \<in> set (takes now0 now q st)" "env = pe_envelope e"
    unfolding claim_maps(1) [OF assms(1)] by auto
  have "queue env = q" using ke by (auto simp: takes_def job_due_def dest!: in_set_takeD)
  let ?p = "pending (fst (releaseExpiredLeases now0 st))"
  from ke(1) have "(k, e) \<in> set ?p" by (auto simp: takes_def dest!: in_set_takeD)
  moreover have wf0: "transport_wf (fst (releaseExpiredLeases now0 st))" using assms(1) by (rule wf_release)
  ultimately have p: "map_of ?p k = Some e" by (simp add: transport_wf_def)
  with wf0 have "uniqueKey env = k" unfolding transport_wf_def ke(2) by blast
  moreover from ke(1) obtain e' where e': "map_of (takes now0 now q st) k = Some e'"
    by (metis fst_conv image_eqI map_of_eq_None_iff not_None_eq)
  moreover from claim_maps(8) [OF assms(1) e'] p have "e' = e" by simp
  ultimately show ?thesis using ke(2) \<open>queue env = q\<close> by auto
qed

text \<open>
  Property C20.  A lease is exclusive: once a claim returned a job to a worker, no later claim,
  by any worker and on any queue, returns that job before the lease ends, whatever operations run
  in between, as long as the job was not dead-lettered, completed by its holder or given a shorter
  lease by its own heartbeat.
\<close>

theorem claimed_job_is_exclusive:
  assumes "transport_wf st" and "env \<in> set (snd (claim now0 now q leaseMs w st))"
    and "list_all (honours (uniqueKey env) w (now + leaseMs)) ops" and "now0' < now + leaseMs"
  shows "uniqueKey env \<notin>
    uniqueKey ` set (snd (claim now0' now' q' leaseMs' w' (fold queue_apply ops (fst (claim now0 now q leaseMs w st)))))"
proof
  let ?k = "uniqueKey env" and ?st1 = "fst (claim now0 now q leaseMs w st)"
  let ?st2 = "fold queue_apply ops ?st1"
  from claim_unique_keys [OF assms(1,2)] obtain e where "map_of (takes now0 now q st) ?k = Some e" by blast
  then have h: "holds_until ?st1 ?k w (now + leaseMs)"
    by (simp add: holds_until_def claim_maps(3) [OF assms(1)] leased_def del: map_of_eq_Some_iff)
  have wf1: "transport_wf ?st1" using assms(1) by (rule wf_claim)
  have wf2: "transport_wf ?st2" using wf1 by (rule wf_queue_run)
  have h2: "holds_until ?st2 ?k w (now + leaseMs)" using wf1 h assms(3) by (rule holds_run)
  assume "?k \<in> uniqueKey ` set (snd (claim now0' now' q' leaseMs' w' ?st2))"
  then obtain env' where "env' \<in> set (snd (claim now0' now' q' leaseMs' w' ?st2))" "uniqueKey env' = ?k" by auto
  with claim_unique_keys [OF wf2] claim_not_held [OF wf2 h2 assms(4)] show False by fastforce
qed
text \<open>
  What a claim does, exactly: on a well-formed transport it returns the first ten
  jobs of the queue that are due, by availability, after the leases expired at the first clock
  reading were released; each is then active under the claiming worker with the full lease and
  one more attempt, no longer pending, and no other job changes beyond the release.
\<close>

theorem claim_exact:
  assumes "transport_wf st"
  shows "let st0 = fst (releaseExpiredLeases now0 st); st' = fst (claim now0 now q leaseMs w st);
       tk = take 10 (filter (job_due q now) (js_sort by_availability (pending st0))) in
     snd (claim now0 now q leaseMs w st) = map (pe_envelope \<circ> snd) tk \<and>
     (\<forall>k. if k \<in> fst ` set tk
          then map_of (pending st') k = None \<and> attemptsOf st' k = attemptsOf st0 k + 1 \<and>
            (\<exists>a. map_of (active st') k = Some a \<and> ae_workerId a = w \<and> leaseUntilMs a = now + leaseMs \<and>
                 uniqueKey (ae_envelope a) = k \<and> ae_attempts a = attemptsOf st0 k + 1)
          else map_of (pending st') k = map_of (pending st0) k \<and> map_of (active st') k = map_of (active st0) k \<and>
            attemptsOf st' k = attemptsOf st0 k) \<and>
     dead st' = dead st0"
proof -
  let ?st0 = "fst (releaseExpiredLeases now0 st)" and ?r = "claim now0 now q leaseMs w st" and ?tk = "takes now0 now q st"
  have wf: "transport_wf (fst ?r)" using assms by (rule wf_claim)
  have "if k \<in> fst ` set ?tk
     then map_of (pending (fst ?r)) k = None \<and> attemptsOf (fst ?r) k = attemptsOf ?st0 k + 1 \<and>
       (\<exists>a. map_of (active (fst ?r)) k = Some a \<and> ae_workerId a = w \<and> leaseUntilMs a = now + leaseMs \<and>
          uniqueKey (ae_envelope a) = k \<and> ae_attempts a = attemptsOf ?st0 k + 1)
     else map_of (pending (fst ?r)) k = map_of (pending ?st0) k \<and> map_of (active (fst ?r)) k = map_of (active ?st0) k \<and>
       attemptsOf (fst ?r) k = attemptsOf ?st0 k" for k
  proof (cases "map_of ?tk k")
    case None
    then have "k \<notin> fst ` set ?tk" by (simp add: map_of_eq_None_iff)
    with None show ?thesis using claim_maps(2,3,4) [OF assms, of now0 now q leaseMs w k]
      by (simp del: map_of_eq_None_iff)
  next
    case (Some e)
    then have k: "k \<in> fst ` set ?tk" by (metis map_of_eq_None_iff option.distinct(1))
    have act: "map_of (active (fst ?r)) k = Some (leased ?st0 now leaseMs w k e)"
      using Some claim_maps(3) [OF assms, of now0 now q leaseMs w k] by simp
    with wf have "uniqueKey (ae_envelope (leased ?st0 now leaseMs w k e)) = k" unfolding transport_wf_def by blast
    with act k show ?thesis using claim_maps(2,4) [OF assms, of now0 now q leaseMs w k] by (simp add: leased_def)
  qed
  then show ?thesis unfolding Let_def takes_def [symmetric]
    by (intro conjI allI claim_maps(1,5) [OF assms])
qed

definition queued :: "transport \<Rightarrow> string \<Rightarrow> bool" where
  "queued st k \<longleftrightarrow> map_of (pending st) k \<noteq> None \<or> map_of (active st) k \<noteq> None"

text \<open>The job filed under a key, pending or active.\<close>

definition job_of :: "transport \<Rightarrow> string \<Rightarrow> job_envelope option" where
  "job_of st k =
     (case map_of (pending st) k of
        Some e \<Rightarrow> Some (pe_envelope e)
      | None \<Rightarrow> map_option ae_envelope (map_of (active st) k))"

lemma queued_iff: "queued st k \<longleftrightarrow> job_of st k \<noteq> None"
  by (auto simp: queued_def job_of_def split: option.splits)

text \<open>What ends a job: its completion by the worker that holds it, its dead-lettering, its removal while pending.\<close>

fun settles :: "string \<Rightarrow> queue_op \<Rightarrow> transport \<Rightarrow> bool" where
  "settles k (Op_complete k' w) st \<longleftrightarrow>
     k' = k \<and> (case map_of (active st) k of None \<Rightarrow> False | Some e \<Rightarrow> ae_workerId e = w)"
| "settles k (Op_deadLetter k' c) st \<longleftrightarrow> k' = k"
| "settles k (Op_remove k') st \<longleftrightarrow> k' = k \<and> map_of (pending st) k \<noteq> None"
| "settles k _ st \<longleftrightarrow> False"

fun unsettled :: "string \<Rightarrow> queue_op list \<Rightarrow> transport \<Rightarrow> bool" where
  "unsettled k [] st \<longleftrightarrow> True"
| "unsettled k (op # ops) st \<longleftrightarrow> \<not> settles k op st \<and> unsettled k ops (queue_apply op st)"

lemma job_of_release:
  assumes "transport_wf st"
  shows "job_of (fst (releaseExpiredLeases now st)) k = job_of st k"
proof -
  from assms have d: "distinct (map fst (active st))"
    and x: "map_of (active st) k = Some e \<Longrightarrow> map_of (pending st) k = None" for e
    unfolding transport_wf_def by (blast, cases "map_of (pending st) k") force+
  show ?thesis unfolding job_of_def releaseExpiredLeases_def release_loop_maps(1,2) [OF d]
    using x by (cases "map_of (active st) k") (auto simp: expired_at_def released_def split: option.split)
qed

lemma job_of_claim:
  assumes "transport_wf st"
  shows "job_of (fst (claim now0 now q l w st)) k = job_of st k"
proof (cases "map_of (takes now0 now q st) k")
  case None
  then have "k \<notin> fst ` set (takes now0 now q st)" by (simp add: map_of_eq_None_iff)
  with None have "job_of (fst (claim now0 now q l w st)) k = job_of (fst (releaseExpiredLeases now0 st)) k"
    by (auto simp: job_of_def claim_maps(2,3) [OF assms] split: option.split)
  with job_of_release [OF assms] show ?thesis by simp
next
  case (Some e)
  then have "k \<in> fst ` set (takes now0 now q st)" by (force dest: map_of_SomeD)
  with Some have "job_of (fst (claim now0 now q l w st)) k = Some (pe_envelope e)"
    by (simp add: job_of_def claim_maps(2,3) [OF assms] leased_def)
  also have "\<dots> = job_of (fst (releaseExpiredLeases now0 st)) k"
    by (simp add: job_of_def claim_maps(8) [OF assms Some])
  finally show ?thesis by (simp add: job_of_release [OF assms])
qed

lemma job_of_apply:
  assumes "transport_wf st" and "queued st k"
  shows "job_of (queue_apply op st) k = (if settles k op st then None else job_of st k)"
proof (cases op)
  case (Op_claim now0 now q l w)
  with assms show ?thesis by (simp add: job_of_claim)
next
  case (Op_release now)
  with assms show ?thesis by (simp add: job_of_release)
next
  case (Op_complete k' w)
  from assms(1) have "map_of (active st) k = Some e \<Longrightarrow> map_of (pending st) k = None" for e
    unfolding transport_wf_def by (cases "map_of (pending st) k") force+
  with Op_complete show ?thesis by (auto simp: job_of_def complete_def alist_simps split: option.split)
next
  case (Op_remove k')
  from assms(1) have "map_of (pending st) k = Some e \<Longrightarrow> map_of (active st) k = None" for e
    unfolding transport_wf_def by blast
  with Op_remove show ?thesis by (auto simp: job_of_def remove_def alist_simps split: option.split)
qed (use assms in \<open>auto simp: queued_def job_of_def enqueue_def heartbeat_def deadLetter_def
      Let_def alist_simps simp del: map_of_eq_Some_iff split: option.splits\<close>)

lemma unsettled_job:
  "transport_wf st \<Longrightarrow> queued st k \<Longrightarrow> unsettled k ops st \<Longrightarrow> job_of (fold queue_apply ops st) k = job_of st k"
proof (induction ops arbitrary: st)
  case (Cons op ops)
  from Cons.prems job_of_apply [of st k op] have "job_of (queue_apply op st) k = job_of st k" by simp
  with Cons show ?case by (simp add: queued_iff wf_queue_apply)
qed simp

text \<open>
  Property C32.  The transport is always well formed and never loses a job: from an empty
  transport, after any operations, keys are unique and no job is pending and active at once; and an
  operation takes a queued job out of the queue exactly if it is its completion by the worker that
  holds it, its removal while pending or its dead-lettering, every other one, a completion by
  another worker among them, leaves the job with its envelope in the queue; so it is there
  with that envelope after any operations none of which settles it.
\<close>

theorem queue_never_loses_jobs:
  assumes "st = fold queue_apply ops empty_transport"
  shows "transport_wf st \<and>
    (queued st k \<longrightarrow>
       job_of (queue_apply op st) k = (if settles k op st then None else job_of st k) \<and>
       (unsettled k ops' st \<longrightarrow> job_of (fold queue_apply ops' st) k = job_of st k))"
proof -
  have wf: "transport_wf st" unfolding assms by (rule wf_queue_run [OF wf_empty])
  with job_of_apply [OF wf, of k op] unsettled_job [OF wf, of k ops'] show ?thesis by blast
qed

text \<open>
  Stale completions are fenced but stale dead-lettering is not: a completion by a
  worker that does not hold the job answers fenced or missing and changes nothing, while a
  dead-letter removes a job held by any other worker and takes it out of the queue.
\<close>

theorem only_completion_is_fenced:
  "(snd (complete k w st) = Completed_job \<longleftrightarrow> (\<exists>e. map_of (active st) k = Some e \<and> ae_workerId e = w)) \<and>
   (snd (complete k w st) \<noteq> Completed_job \<longrightarrow> fst (complete k w st) = st) \<and>
   \<not> queued (deadLetter k c st) k \<and> k \<in> set (dead (deadLetter k c st))"
  by (auto simp: complete_def deadLetter_def queued_def alist_simps simp del: map_of_eq_Some_iff split: option.splits)

text \<open>
  Backoff bounds: for a random value in the unit interval and positive options the
  delay of attempt n is a whole number of milliseconds from zero to below one thousand times the
  smaller of the cap and the base doubled n - 1 times, hence under a minute with the defaults; an
  attempt below one is refused.
\<close>

theorem backoff_bounds:
  assumes "0 \<le> r" and "r < 1" and "0 < (case backoffBaseSeconds opts of None \<Rightarrow> 1 | Some b \<Rightarrow> b)"
    and "0 < (case maxBackoffSeconds opts of None \<Rightarrow> 60 | Some m \<Rightarrow> m)"
  shows "(backoffDelayMs n opts r = Inl ''attempt is 1-based and must be >= 1'' \<longleftrightarrow> n < 1) \<and>
    (1 \<le> n \<longrightarrow> (\<exists>d. backoffDelayMs n opts r = Inr d \<and> 0 \<le> d \<and>
       d < 1000 * min (case maxBackoffSeconds opts of None \<Rightarrow> 60 | Some m \<Rightarrow> m)
                     ((case backoffBaseSeconds opts of None \<Rightarrow> 1 | Some b \<Rightarrow> b) * 2 ^ nat (n - 1))))"
proof -
  define base cap where "base = (case backoffBaseSeconds opts of None \<Rightarrow> 1 | Some b \<Rightarrow> b)"
    and "cap = (case maxBackoffSeconds opts of None \<Rightarrow> 60 | Some m \<Rightarrow> m)"
  define e where "e = min cap (base * 2 ^ nat (n - 1))"
  from assms(3,4) have e0: "0 < e" by (simp add: e_def base_def cap_def)
  have "r * of_int e * 1000 < of_int (1000 * e)" using assms(2) e0 by (simp add: mult_less_cancel_right1)
  then have "\<lfloor>r * of_int e * 1000\<rfloor> < 1000 * e" by (simp only: floor_less_iff)
  moreover have "0 \<le> \<lfloor>r * of_int e * 1000\<rfloor>" using assms(1) e0 by simp
  moreover have "1 \<le> n \<Longrightarrow> backoffDelayMs n opts r = Inr \<lfloor>r * of_int e * 1000\<rfloor>"
    by (simp add: backoffDelayMs_def Let_def e_def base_def cap_def)
  ultimately show ?thesis by (auto simp: backoffDelayMs_def Let_def e_def base_def cap_def)
qed

fun bumps :: "string list \<Rightarrow> generations \<Rightarrow> generations" where
  "bumps [] m = m"
| "bumps (r # rs) m = bumps rs (fst (bump r m))"

lemma generation_bump: "generation (fst (bump r m)) s = (if s = r then generation m r + 1 else generation m s)"
  by (simp add: bump_def generation_def)

lemma generation_bumps: "generation (bumps rs m) s = generation m s + int (count_list rs s)"
  by (induction rs arbitrary: m) (simp_all add: generation_bump)

text \<open>
  Cancellation is permanent: once a run's generation was bumped, every job issued
  under the previous generation or earlier is fenced, through any further bumps of any runs.
\<close>

theorem cancellation_is_permanent:
  assumes "env_workflowRunId env = Some r" and "r \<noteq> []" and "cancellationGeneration env \<le> generation m r"
  shows "isFenced (bumps rs (fst (bump r m))) env"
  using assms by (simp add: isFenced_def generation_bumps generation_bump)

section \<open>Witnesses\<close>

definition sample_job :: job_envelope where
  "sample_job =
     \<lparr>jobId = ''env1:workflow.execute:k'', jobType = ''workflow.execute'', schemaVersion = 1, queue = Workflow_execution,
      uniqueKey = ''k'', payload = [], tenantId = None, env_repositoryId = None, env_workflowRunId = Some ''run'',
      env_sessionId = None, env_actionId = None, correlationId = ''c'', causationId = None, traceparent = None,
      cancellationGeneration = 0, enqueuedAtIso = ''t''\<rparr>"

definition sample_transport :: transport where
  "sample_transport = fst (enqueue 5 sample_job 0 empty_transport)"

lemma sample_transport_wf: "transport_wf sample_transport"
  using wf_queue_apply [OF wf_empty, of "Op_enqueue 5 sample_job 0"] by (simp add: sample_transport_def)

lemma sample_claims_job: "snd (claim 6 6 Workflow_execution 100 ''w1'' sample_transport) = [sample_job]"
  by (simp add: claim_def releaseExpiredLeases_def sample_transport_def enqueue_def empty_transport_def Let_def
      sample_job_def js_sort_def)

theorem claimed_job_is_exclusive_witness:
  "''k'' \<notin> uniqueKey ` set (snd (claim 50 50 Workflow_execution 100 ''w2''
     (fold queue_apply [Op_complete ''k'' ''w2'', Op_enqueue 7 sample_job 0]
        (fst (claim 6 6 Workflow_execution 100 ''w1'' sample_transport)))))"
  using claimed_job_is_exclusive [OF sample_transport_wf, of sample_job 6 6 Workflow_execution 100 "''w1''"
      "[Op_complete ''k'' ''w2'', Op_enqueue 7 sample_job 0]" 50 50 Workflow_execution 100 "''w2''"]
  by (simp add: sample_claims_job sample_job_def)

theorem claim_exact_witness:
  "snd (claim 6 6 Workflow_execution 100 ''w1'' sample_transport) = [sample_job] \<and>
   attemptsOf (fst (claim 6 6 Workflow_execution 100 ''w1'' sample_transport)) ''k'' = 1"
proof -
  have r: "releaseExpiredLeases 6 sample_transport = (sample_transport, 0)"
    by (simp add: releaseExpiredLeases_def sample_transport_def enqueue_def empty_transport_def Let_def)
  have p: "pending sample_transport = [(''k'', \<lparr>pe_envelope = sample_job, availableAtMs = 5\<rparr>)]"
    by (simp add: sample_transport_def enqueue_def empty_transport_def Let_def sample_job_def)
  have d: "filter (job_due Workflow_execution 6) (js_sort by_availability (pending sample_transport)) = pending sample_transport"
    unfolding p by (simp add: job_due_def sample_job_def js_sort_def)
  have a: "attemptsOf sample_transport ''k'' = 0"
    by (simp add: attemptsOf_def sample_transport_def enqueue_def empty_transport_def Let_def)
  show ?thesis
    using claim_exact [OF sample_transport_wf, of 6 6 Workflow_execution 100 "''w1''"]
    by (simp add: Let_def r d a) (simp add: p a)
qed

theorem cancellation_is_permanent_witness: "isFenced (bumps [''other'', ''run''] (fst (bump ''run'' (\<lambda>_. None)))) sample_job"
  using cancellation_is_permanent [of sample_job "''run''" "\<lambda>_. None" "[''other'', ''run'']"]
  by (simp add: sample_job_def generation_def)

theorem queue_never_loses_jobs_witness:
  "job_of (fold queue_apply [Op_claim 6 6 Workflow_execution 100 ''w1'', Op_complete ''k'' ''w2'', Op_release 500]
     (fold queue_apply [Op_enqueue 5 sample_job 0] empty_transport)) ''k'' = Some sample_job"
proof -
  let ?st = "fold queue_apply [Op_enqueue 5 sample_job 0] empty_transport"
  have "unsettled ''k'' [Op_claim 6 6 Workflow_execution 100 ''w1'', Op_complete ''k'' ''w2'', Op_release 500] ?st"
    "job_of ?st ''k'' = Some sample_job" by code_simp+
  with queue_never_loses_jobs [OF refl, of "[Op_enqueue 5 sample_job 0]" "''k''" _
      "[Op_claim 6 6 Workflow_execution 100 ''w1'', Op_complete ''k'' ''w2'', Op_release 500]"]
  show ?thesis by (simp add: queued_iff)
qed

theorem only_completion_is_fenced_witness:
  "fst (complete ''k'' ''w2'' sample_transport) = sample_transport"
  using only_completion_is_fenced [of "''k''" "''w2''" sample_transport "''E''"]
  by (simp add: complete_def sample_transport_def enqueue_def empty_transport_def Let_def)

theorem backoff_bounds_witness:
  "\<exists>d. backoffDelayMs 9 (QUEUE_RETRY_DEFAULTS Cleanup) (1/2) = Inr d \<and> 0 \<le> d \<and> d < 60000"
  using backoff_bounds [of "1/2" "QUEUE_RETRY_DEFAULTS Cleanup" 9] by (simp add: attempts_only_def)

end
