(* ===== verification/Worker_Runtime.thy ===== *)
theory Worker_Runtime
  imports Queue_Transport Port_Effects
begin

text \<open>
  The worker loop, \<open>packages/queue/src/runtime.ts\<close>: one processing pass over the configured
  queues, and the disposition of a claimed job (fence check, handler, completion, retry with
  backoff, dead letter).  The transport, the handlers, the fence and the random source are ports;
  the in-memory transport is one instance.  Passes of one worker follow each other, so the set of
  jobs in flight is the reading \<open>inFlight\<close> taken at the start of the pass.  Log lines are not
  modelled.
\<close>

section \<open>The runtime\<close>

datatype job_outcome =
    Succeeded "string option"
  | Retryable_failure string "string option"
  | Permanent_failure string "string option"

record handler_context =
  hc_attempt :: nat
  hc_maxAttempts :: int
  leaseToken :: string

datatype runtime_call =
    ReleaseExpired int
  | Claim queue_name int string
  | Handle job_envelope handler_context
  | Complete string string
  | Enqueue job_envelope int
  | DeadLetter string string

type_synonym 'w handler = "job_envelope \<Rightarrow> handler_context \<Rightarrow> ('w, job_outcome) port"

record 'w runtime_ports =
  rt_release :: "int \<Rightarrow> ('w, nat) port"
  rt_claim :: "queue_name \<Rightarrow> int \<Rightarrow> string \<Rightarrow> ('w, job_envelope list) port"
  rt_complete :: "string \<Rightarrow> string \<Rightarrow> ('w, complete_result) port"
  rt_enqueue :: "job_envelope \<Rightarrow> int \<Rightarrow> ('w, bool \<times> bool) port"
  rt_deadLetter :: "string \<Rightarrow> string \<Rightarrow> ('w, unit) port"
  rt_attemptsOf :: "'w \<Rightarrow> string \<Rightarrow> nat"
  rt_isFenced :: "'w \<Rightarrow> job_envelope \<Rightarrow> bool"
  rt_random :: "'w \<Rightarrow> rat"

record runtime_options =
  queues :: "queue_name list"
  leaseMs :: int
  maxConcurrent :: nat
  workerId :: string
  maxAttemptsByQueue :: "queue_name \<Rightarrow> retry_options option"

record runtime_state =
  running :: bool
  draining :: bool
  stopRequested :: bool
  inFlight :: nat

definition start :: "runtime_state \<Rightarrow> runtime_state" where
  "start rt = rt\<lparr>running := True\<rparr>"

definition stop :: "runtime_state \<Rightarrow> runtime_state" where
  "stop rt = rt\<lparr>stopRequested := True, running := False\<rparr>"

definition retry_options_for :: "runtime_options \<Rightarrow> queue_name \<Rightarrow> retry_options" where
  "retry_options_for opts q =
     (let d = QUEUE_RETRY_DEFAULTS q in
      case maxAttemptsByQueue opts q of
        None \<Rightarrow> d
      | Some ov \<Rightarrow>
          \<lparr>maxAttempts = maxAttempts ov,
           backoffBaseSeconds = (case backoffBaseSeconds ov of None \<Rightarrow> backoffBaseSeconds d | Some b \<Rightarrow> Some b),
           maxBackoffSeconds = (case maxBackoffSeconds ov of None \<Rightarrow> maxBackoffSeconds d | Some m \<Rightarrow> Some m)\<rparr>)"

fun unknown_job_type :: "js_error \<Rightarrow> bool" where
  "unknown_job_type (ErrorClass c m) = (c = ''UnknownJobTypeError'')"
| "unknown_job_type _ = False"

definition job_context :: "runtime_options \<Rightarrow> job_envelope \<Rightarrow> nat \<Rightarrow> handler_context" where
  "job_context opts env attempt =
     \<lparr>hc_attempt = attempt, hc_maxAttempts = maxAttempts (retry_options_for opts (queue env)),
      leaseToken = workerId opts @ '':'' @ uniqueKey env\<rparr>"

text \<open>The \<open>try\<close> block and its handler; \<open>None\<close> is the early return after the dead letter.\<close>

definition run_handler ::
  "'w runtime_ports \<Rightarrow> runtime_options \<Rightarrow> (string \<times> 'w handler) list \<Rightarrow> job_envelope \<Rightarrow>
   ('w, runtime_call, job_outcome option) eff" where
  "run_handler ports opts reg env =
     catchE
       (case resolve_handler reg (jobType env) (schemaVersion env) of
          Inl m \<Rightarrow> throwE (ErrorClass ''UnknownJobTypeError'' m)
        | Inr h \<Rightarrow>
            readE (\<lambda>w. rt_attemptsOf ports w (uniqueKey env)) (\<lambda>n.
              bindE (callE (Handle env (job_context opts env n)) (h env (job_context opts env n)))
                (\<lambda>out. retE (Some out))))
       (\<lambda>e. if unknown_job_type e
            then bindE (callE (DeadLetter (uniqueKey env) ''JOB_UNKNOWN'') (rt_deadLetter ports (uniqueKey env) ''JOB_UNKNOWN''))
                   (\<lambda>_. retE None)
            else throwE e)"

definition schedule_retry ::
  "'w runtime_ports \<Rightarrow> runtime_options \<Rightarrow> job_envelope \<Rightarrow> nat \<Rightarrow> ('w, runtime_call, unit) eff" where
  "schedule_retry ports opts env attempts =
     readE (rt_random ports) (\<lambda>r.
       case backoffDelayMs (int attempts + 1) (retry_options_for opts (queue env)) r of
         Inl m \<Rightarrow> throwE (ErrorClass ''TypeError'' m)
       | Inr d \<Rightarrow>
           bindE (swallowE (bindE (callE (Complete (uniqueKey env) (workerId opts)) (rt_complete ports (uniqueKey env) (workerId opts)))
                    (\<lambda>_. retE ())))
             (\<lambda>_. bindE (callE (Enqueue env d) (rt_enqueue ports env d)) (\<lambda>_. retE ())))"

definition dispose ::
  "'w runtime_ports \<Rightarrow> runtime_options \<Rightarrow> job_envelope \<Rightarrow> job_outcome \<Rightarrow> ('w, runtime_call, unit) eff" where
  "dispose ports opts env out =
     (case out of
        Succeeded _ \<Rightarrow>
          bindE (callE (Complete (uniqueKey env) (workerId opts)) (rt_complete ports (uniqueKey env) (workerId opts)))
            (\<lambda>_. retE ())
      | Retryable_failure code _ \<Rightarrow>
          readE (\<lambda>w. rt_attemptsOf ports w (uniqueKey env)) (\<lambda>attempts.
            if int attempts \<ge> maxAttempts (retry_options_for opts (queue env))
            then callE (DeadLetter (uniqueKey env) code) (rt_deadLetter ports (uniqueKey env) code)
            else schedule_retry ports opts env attempts)
      | Permanent_failure code _ \<Rightarrow>
          callE (DeadLetter (uniqueKey env) code) (rt_deadLetter ports (uniqueKey env) code))"

definition executeClaimed ::
  "'w runtime_ports \<Rightarrow> runtime_options \<Rightarrow> (string \<times> 'w handler) list \<Rightarrow> job_envelope \<Rightarrow> ('w, runtime_call, unit) eff" where
  "executeClaimed ports opts reg env =
     readE (\<lambda>w. rt_isFenced ports w env) (\<lambda>fenced.
       if fenced
       then callE (DeadLetter (uniqueKey env) ''CANCELLED_FENCED'') (rt_deadLetter ports (uniqueKey env) ''CANCELLED_FENCED'')
       else bindE (run_handler ports opts reg env)
              (\<lambda>outcome. case outcome of None \<Rightarrow> retE () | Some out \<Rightarrow> dispose ports opts env out))"

fun execute_all ::
  "'w runtime_ports \<Rightarrow> runtime_options \<Rightarrow> (string \<times> 'w handler) list \<Rightarrow> job_envelope list \<Rightarrow> ('w, runtime_call, unit) eff" where
  "execute_all ports opts reg [] = retE ()"
| "execute_all ports opts reg (env # envs) =
     bindE (executeClaimed ports opts reg env) (\<lambda>_. execute_all ports opts reg envs)"

fun poll_queues ::
  "'w runtime_ports \<Rightarrow> runtime_options \<Rightarrow> (string \<times> 'w handler) list \<Rightarrow> nat \<Rightarrow> queue_name list \<Rightarrow> nat \<Rightarrow>
   ('w, runtime_call, nat) eff" where
  "poll_queues ports opts reg flight [] n = retE n"
| "poll_queues ports opts reg flight (q # qs) n =
     (if flight \<ge> maxConcurrent opts then retE n
      else bindE (callE (Claim q (leaseMs opts) (workerId opts)) (rt_claim ports q (leaseMs opts) (workerId opts)))
             (\<lambda>claimed. bindE (execute_all ports opts reg claimed)
                (\<lambda>_. poll_queues ports opts reg flight qs (n + length claimed))))"

definition processOnce ::
  "'w runtime_ports \<Rightarrow> runtime_options \<Rightarrow> (string \<times> 'w handler) list \<Rightarrow> runtime_state \<Rightarrow> int \<Rightarrow> ('w, runtime_call, nat) eff" where
  "processOnce ports opts reg rt nowMs =
     (if \<not> running rt \<or> draining rt \<or> stopRequested rt then retE 0
      else bindE (callE (ReleaseExpired nowMs) (rt_release ports nowMs))
             (\<lambda>_. poll_queues ports opts reg (inFlight rt) (queues opts) 0))"

section \<open>The runtime on the in-memory transport\<close>

text \<open>
  The world is the transport and the generations of the fence; the clock reads \<open>now\<close> throughout
  one pass, and the random source returns \<open>r\<close>.
\<close>

definition on_transport :: "(transport \<Rightarrow> transport \<times> 'a) \<Rightarrow> (transport \<times> generations, 'a) port" where
  "on_transport f w = (case f (fst w) of (st, a) \<Rightarrow> ((st, snd w), Inr a))"

definition memory_ports :: "int \<Rightarrow> rat \<Rightarrow> (transport \<times> generations) runtime_ports" where
  "memory_ports now r =
     \<lparr>rt_release = (\<lambda>t. on_transport (releaseExpiredLeases t)),
      rt_claim = (\<lambda>q l w. on_transport (claim now now q l w)),
      rt_complete = (\<lambda>k w. on_transport (complete k w)),
      rt_enqueue = (\<lambda>env d. on_transport (enqueue now env d)),
      rt_deadLetter = (\<lambda>k c. on_transport (\<lambda>st. (deadLetter k c st, ()))),
      rt_attemptsOf = (\<lambda>w. attemptsOf (fst w)), rt_isFenced = (\<lambda>w. isFenced (snd w)), rt_random = (\<lambda>_. r)\<rparr>"

definition one_queue :: "queue_name \<Rightarrow> int \<Rightarrow> string \<Rightarrow> runtime_options" where
  "one_queue q lease wid =
     \<lparr>queues = [q], leaseMs = lease, maxConcurrent = 1, workerId = wid, maxAttemptsByQueue = (\<lambda>_. None)\<rparr>"

definition idle_runtime :: runtime_state where
  "idle_runtime = \<lparr>running = True, draining = False, stopRequested = False, inFlight = 0\<rparr>"

text \<open>A registry whose handler for the job always gives the same answer.\<close>

definition always :: "js_error + job_outcome \<Rightarrow> job_envelope \<Rightarrow> (string \<times> 'w handler) list" where
  "always ans env = [(handler_key (jobType env) (schemaVersion env), \<lambda>_ _ w. (w, ans))]"

fun passes ::
  "(string \<times> (transport \<times> generations) handler) list \<Rightarrow> runtime_options \<Rightarrow> rat \<Rightarrow> int list \<Rightarrow>
   transport \<times> generations \<Rightarrow> transport \<times> generations" where
  "passes reg opts r [] w = w"
| "passes reg opts r (t # ts) w =
     passes reg opts r ts (eff_world (processOnce (memory_ports t r) opts reg idle_runtime t) w)"

lemma passes_snoc:
  "passes reg opts r (ts @ [t]) w =
     eff_world (processOnce (memory_ports t r) opts reg idle_runtime t) (passes reg opts r ts w)"
  by (induction ts arbitrary: w) simp_all

text \<open>The transport that holds one job, pending or claimed, with its number of attempts.\<close>

definition waiting :: "job_envelope \<Rightarrow> int \<Rightarrow> nat \<Rightarrow> transport" where
  "waiting env t n =
     \<lparr>pending = [(uniqueKey env, \<lparr>pe_envelope = env, availableAtMs = t\<rparr>)], active = [], dead = [],
      attemptCount = (if n = 0 then [] else [(uniqueKey env, n)])\<rparr>"

definition taken_by :: "string \<Rightarrow> job_envelope \<Rightarrow> int \<Rightarrow> nat \<Rightarrow> transport" where
  "taken_by w env t n =
     \<lparr>pending = [], active = [(uniqueKey env, \<lparr>ae_envelope = env, leaseUntilMs = t, ae_workerId = w, ae_attempts = n\<rparr>)],
      dead = [], attemptCount = [(uniqueKey env, n)]\<rparr>"

definition buried :: "job_envelope \<Rightarrow> nat \<Rightarrow> transport" where
  "buried env n = \<lparr>pending = [], active = [], dead = [uniqueKey env], attemptCount = [(uniqueKey env, n)]\<rparr>"

lemma claim_waiting:
  assumes "t \<le> now"
  shows "claim now now (queue env) l w (waiting env t n) = (taken_by w env (now + l) (n + 1), [env])"
  using assms
  by (simp add: claim_def releaseExpiredLeases_def waiting_def taken_by_def js_sort_def attemptsOf_def Let_def)

lemma release_waiting: "releaseExpiredLeases t (waiting env t' n) = (waiting env t' n, 0)"
  by (simp add: releaseExpiredLeases_def waiting_def)

lemma release_taken: "t \<ge> t' \<Longrightarrow> n \<noteq> 0 \<Longrightarrow> releaseExpiredLeases t (taken_by w env t' n) = (waiting env t n, 1)"
  by (simp add: releaseExpiredLeases_def waiting_def taken_by_def)

lemma attempts_taken: "attemptsOf (taken_by w env t n) (uniqueKey env) = n"
  by (simp add: attemptsOf_def taken_by_def)

lemma resolve_always: "resolve_handler (always ans env) (jobType env) (schemaVersion env) = Inr (\<lambda>_ _ w. (w, ans))"
  by (simp add: resolve_handler_def always_def)

lemma pass_one_queue:
  "eff_world (processOnce (memory_ports now r) (one_queue q l wid) reg idle_runtime now) w =
     (let (st', envs) = claim now now q l wid (fst (releaseExpiredLeases now (fst w)))
      in eff_world (execute_all (memory_ports now r) (one_queue q l wid) reg envs) (st', snd w))"
  by (simp add: processOnce_def idle_runtime_def one_queue_def eff_simps memory_ports_def on_transport_def
      split: prod.splits sum.splits)
fun spaced :: "int \<Rightarrow> int \<Rightarrow> int list \<Rightarrow> bool" where
  "spaced d t [] = True"
| "spaced d t (x # xs) = (t \<le> x \<and> spaced d (x + d) xs)"

lemma spaced_mono: "spaced d t xs \<Longrightarrow> t' \<le> t \<Longrightarrow> spaced d t' xs"
  by (cases xs) auto

lemma execute_one:
  "eff_world (execute_all ports opts reg [env]) w = eff_world (executeClaimed ports opts reg env) w"
  by (simp add: world_bindE split: sum.splits)

lemma world_throwing:
  assumes "\<not> unknown_job_type e" and "\<not> isFenced m env"
  shows "eff_world (executeClaimed (memory_ports now r) opts (always (Inl e) env) env) (st, m) = (st, m)"
  using assms by (simp add: executeClaimed_def run_handler_def resolve_always eff_simps memory_ports_def)

lemma throwing_pass:
  assumes "\<not> unknown_job_type e" and "\<not> isFenced m env" and "t \<le> now"
  shows "eff_world (processOnce (memory_ports now r) (one_queue (queue env) l wid) (always (Inl e) env) idle_runtime now)
      (waiting env t n, m) = (taken_by wid env (now + l) (n + 1), m)"
    and "n \<noteq> 0 \<Longrightarrow>
      eff_world (processOnce (memory_ports now r) (one_queue (queue env) l wid) (always (Inl e) env) idle_runtime now)
      (taken_by w' env t n, m) = (taken_by wid env (now + l) (n + 1), m)"
  using assms by (simp_all add: pass_one_queue release_waiting release_taken claim_waiting execute_one world_throwing
      del: execute_all.simps)

lemma throwing_passes:
  assumes "\<not> unknown_job_type e" and "\<not> isFenced m env" and "n \<noteq> 0" and "spaced l t ts"
  shows "\<exists>t'. passes (always (Inl e) env) (one_queue (queue env) l wid) r ts (taken_by wid env t n, m) =
    (taken_by wid env t' (n + length ts), m)"
  using assms(3,4)
proof (induction ts arbitrary: t n)
  case Nil
  then show ?case by auto
next
  case (Cons x xs)
  then show ?case using throwing_pass(2) [OF assms(1,2), of t x n] Cons.IH [of "n + 1" "x + l"] by simp
qed

text \<open>
  The attempt ceiling does not bound a job whose handler throws: on the in-memory
  transport, after any number of passes spaced by the lease, the job has been claimed once per
  pass, is still queued and was never dead-lettered, however many attempts its queue allows.
\<close>

theorem throwing_job_is_never_dead_lettered:
  assumes "\<not> unknown_job_type e" and "\<not> isFenced m env" and "spaced l t ts"
  shows "let st = fst (passes (always (Inl e) env) (one_queue (queue env) l wid) r ts (waiting env t 0, m))
    in attemptsOf st (uniqueKey env) = length ts \<and> queued st (uniqueKey env) \<and> dead st = []"
proof (cases ts)
  case Nil
  then show ?thesis by (simp add: attemptsOf_def waiting_def queued_def)
next
  case (Cons x xs)
  with assms(3) have x: "t \<le> x" and xs: "spaced l (x + l) xs" by simp_all
  from throwing_passes [OF assms(1,2) _ xs, of 1 wid r] obtain t' where
    "passes (always (Inl e) env) (one_queue (queue env) l wid) r ts (waiting env t 0, m) = (taken_by wid env t' (length ts), m)"
    by (auto simp: Cons throwing_pass(1) [OF assms(1,2) x])
  then show ?thesis by (simp add: attempts_taken) (simp add: taken_by_def queued_def)
qed

definition idle_after :: "job_envelope \<Rightarrow> nat \<Rightarrow> transport" where
  "idle_after env n = \<lparr>pending = [], active = [], dead = [], attemptCount = [(uniqueKey env, n)]\<rparr>"

lemma taken_steps:
  "complete (uniqueKey env) wid (taken_by wid env t n) = (idle_after env n, Completed_job)"
  "n \<noteq> 0 \<Longrightarrow> enqueue now env dl (idle_after env n) = (waiting env (now + dl) n, True, False)"
  "deadLetter (uniqueKey env) c (taken_by wid env t n) = buried env n"
  by (simp_all add: complete_def enqueue_def deadLetter_def taken_by_def idle_after_def waiting_def buried_def)

lemma retryable_pass:
  fixes r :: rat
  assumes "\<not> isFenced m env" and "t \<le> now" and "0 \<le> r" and "r < 1"
    and "N = maxAttempts (QUEUE_RETRY_DEFAULTS (queue env))"
  shows "\<exists>t'. t' \<le> now + 60000 \<and>
    eff_world (processOnce (memory_ports now r) (one_queue (queue env) l wid) (always (Inr (Retryable_failure c d)) env) idle_runtime now)
      (waiting env t n, m) = (if int n + 1 < N then waiting env t' (n + 1) else buried env (n + 1), m)"
proof -
  let ?ro = "QUEUE_RETRY_DEFAULTS (queue env)"
  have ro: "retry_options_for (one_queue (queue env) l wid) (queue env) = ?ro"
    by (simp add: retry_options_for_def one_queue_def)
  have wid: "workerId (one_queue (queue env) l wid) = wid" by (simp add: one_queue_def)
  obtain q where "?ro = attempts_only q" by (cases "queue env") auto
  then have b: "backoffDelayMs (int (n + 1) + 1) ?ro r = Inr \<lfloor>r * of_int (min 60 (2 ^ (n + 1))) * 1000\<rfloor>"
    by (simp add: backoffDelayMs_def attempts_only_def Let_def nat_add_distrib)
  let ?d = "\<lfloor>r * of_int (min 60 (2 ^ (n + 1))) * 1000\<rfloor>"
  have "r * of_int (min 60 (2 ^ (n + 1))) \<le> 1 * of_int 60"
    using assms(3,4) by (intro mult_mono) simp_all
  then have "r * of_int (min 60 (2 ^ (n + 1))) * 1000 \<le> of_int 60000" by simp
  then have dl: "?d \<le> 60000" by (metis floor_mono floor_of_int)
  have "eff_world (executeClaimed (memory_ports now r) (one_queue (queue env) l wid) (always (Inr (Retryable_failure c d)) env) env)
      (taken_by wid env (now + l) (n + 1), m) =
     (if int n + 1 < N then waiting env (now + ?d) (n + 1) else buried env (n + 1), m)"
    using assms(1,5) b
    by (simp add: executeClaimed_def run_handler_def resolve_always eff_simps dispose_def schedule_retry_def
        memory_ports_def on_transport_def attempts_taken ro wid eff_if taken_steps)
  then have "eff_world (processOnce (memory_ports now r) (one_queue (queue env) l wid) (always (Inr (Retryable_failure c d)) env) idle_runtime now)
      (waiting env t n, m) = (if int n + 1 < N then waiting env (now + ?d) (n + 1) else buried env (n + 1), m)"
    using assms(2) by (simp add: pass_one_queue release_waiting claim_waiting execute_one del: execute_all.simps)
  with dl show ?thesis by (intro exI [of _ "now + ?d"]) simp
qed

lemma buried_pass:
  "eff_world (processOnce (memory_ports now r) (one_queue q l wid) reg idle_runtime now) (buried env n, m) = (buried env n, m)"
  by (simp add: pass_one_queue buried_def releaseExpiredLeases_def claim_def)

lemma buried_passes: "passes reg (one_queue q l wid) r ts (buried env n, m) = (buried env n, m)"
  by (induction ts) (simp_all add: buried_pass)

lemma retryable_passes:
  fixes r :: rat
  assumes "\<not> isFenced m env" and "0 \<le> r" and "r < 1"
    and "N = nat (maxAttempts (QUEUE_RETRY_DEFAULTS (queue env)))" and "n < N" and "spaced 60000 t ts"
  shows "\<exists>t'. passes (always (Inr (Retryable_failure c d)) env) (one_queue (queue env) l wid) r ts (waiting env t n, m) =
    (if n + length ts < N then waiting env t' (n + length ts) else buried env N, m)"
  using assms(5,6)
proof (induction ts arbitrary: t n)
  case Nil
  then show ?case by auto
next
  case (Cons x xs)
  have N: "int N = maxAttempts (QUEUE_RETRY_DEFAULTS (queue env))"
    unfolding assms(4) by (cases "queue env") (simp_all add: attempts_only_def)
  from Cons.prems have x: "t \<le> x" and xs: "spaced 60000 (x + 60000) xs" by simp_all
  from retryable_pass [OF assms(1) x assms(2,3) N, of l wid c d n] obtain t' where t': "t' \<le> x + 60000" and
    w: "eff_world (processOnce (memory_ports x r) (one_queue (queue env) l wid) (always (Inr (Retryable_failure c d)) env) idle_runtime x)
      (waiting env t n, m) = (if int n + 1 < int N then waiting env t' (n + 1) else buried env (n + 1), m)" by blast
  show ?case
  proof (cases "n + 1 < N")
    case True
    from Cons.IH [OF True spaced_mono [OF xs t']] obtain t'' where
      "passes (always (Inr (Retryable_failure c d)) env) (one_queue (queue env) l wid) r xs (waiting env t' (n + 1), m) =
        (if n + 1 + length xs < N then waiting env t'' (n + 1 + length xs) else buried env N, m)" by blast
    with w True show ?thesis by (intro exI [of _ t'']) simp
  next
    case False
    with Cons.prems(1) have "N = n + 1" by simp
    with w False show ?thesis by (simp add: buried_passes)
  qed
qed

text \<open>
  Property C40.  A job that keeps failing with a retryable failure is retried exactly up to the
  ceiling of its queue and then dead-lettered.  The scope is one job that is not fenced, alone on the in-memory transport,
  and one worker that polls its queue only, with the default retry options, in passes at least a minute
  apart: after fewer passes than the ceiling the job is queued with one attempt per pass, and from the
  pass that reaches the ceiling on it is dead and no longer queued.
\<close>

theorem retryable_job_reaches_dead_letter:
  fixes r :: rat
  assumes "\<not> isFenced m env" and "0 \<le> r" and "r < 1" and "spaced 60000 t ts"
  shows "let st = fst (passes (always (Inr (Retryable_failure c d)) env) (one_queue (queue env) l wid) r ts (waiting env t 0, m));
      N = nat (maxAttempts (QUEUE_RETRY_DEFAULTS (queue env)))
    in if length ts < N then attemptsOf st (uniqueKey env) = length ts \<and> queued st (uniqueKey env) \<and> dead st = []
       else attemptsOf st (uniqueKey env) = N \<and> \<not> queued st (uniqueKey env) \<and> dead st = [uniqueKey env]"
proof -
  have "0 < nat (maxAttempts (QUEUE_RETRY_DEFAULTS (queue env)))" by (cases "queue env") (simp_all add: attempts_only_def)
  from retryable_passes [OF assms(1-3) refl this assms(4), of c d l wid] show ?thesis
    by (auto simp: Let_def waiting_def buried_def attemptsOf_def queued_def)
qed

theorem throwing_job_is_never_dead_lettered_witness:
  "let st = fst (passes (always (Inl (ErrorObject ''boom'')) sample_job) (one_queue Workflow_execution 100 ''w'') 0
       (map (\<lambda>i. 100 * int i) [0..<30]) (waiting sample_job 0 0, \<lambda>_. None))
   in attemptsOf st ''k'' = 30 \<and> dead st = []"
proof -
  have "spaced 100 0 (map (\<lambda>i. 100 * int i) [0..<30])" by (simp add: upt_rec)
  from throwing_job_is_never_dead_lettered [OF _ _ this, of "ErrorObject ''boom''" "\<lambda>_. None" sample_job "''w''" 0]
  show ?thesis by (simp add: Let_def isFenced_def generation_def sample_job_def)
qed

theorem retryable_job_reaches_dead_letter_witness:
  "let st = fst (passes (always (Inr (Retryable_failure ''E'' None)) sample_job) (one_queue Workflow_execution 100 ''w'') (1/2)
       (map (\<lambda>i. 60000 * int i) [0..<10]) (waiting sample_job 0 0, \<lambda>_. None))
   in dead st = [''k'']"
proof -
  have "spaced 60000 0 (map (\<lambda>i. 60000 * int i) [0..<10])" by (simp add: upt_rec)
  from retryable_job_reaches_dead_letter [OF _ _ _ this, of "\<lambda>_. None" sample_job "1/2" "''E''" None 100 "''w''"]
  show ?thesis by (simp add: Let_def isFenced_def generation_def sample_job_def attempts_only_def)
qed

end
