(* ===== verification/Authorization.thy ===== *)
theory Authorization
  imports Port_Effects
begin

text \<open>
  Repository authorization, \<open>packages/authorization/src\<close>: the capability catalogue and the query
  schema of \<open>capabilities.ts\<close>, the service of \<open>service.ts\<close> over arbitrary ports, and the in-memory
  evidence store of \<open>apps/api/src/composition/container.ts\<close>.  Clock readings and fresh identifiers
  are readings of the world; times are in milliseconds.
\<close>

section \<open>Capabilities and queries\<close>

datatype capability =
    Repository_read | Repository_connect | Policy_read | Policy_write | Workflow_start | Workflow_cancel
  | Approval_resolve | Artifact_read | Repository_privileged_action

definition FRESH_REQUIRED :: "capability list" where
  "FRESH_REQUIRED =
     [Policy_write, Approval_resolve, Repository_privileged_action, Workflow_cancel, Repository_connect]"

definition requiresFreshCheck :: "capability \<Rightarrow> bool" where
  "requiresFreshCheck c \<longleftrightarrow> c \<in> set FRESH_REQUIRED"

record system_binding =
  b_workflowRunId :: "string option"
  b_approvalId :: "string option"

datatype principal_ref =
    User_principal string string string       \<comment> \<open>user id, issuer, provider subject\<close>
  | System_principal string system_binding    \<comment> \<open>service id and persisted binding\<close>

record query_context =
  qc_workflowRunId :: "string option"
  qc_approvalId :: "string option"
  qc_targetExternalId :: "string option"

record authorization_query =
  q_principal :: principal_ref
  q_repositoryId :: string
  q_capability :: capability
  q_context :: "query_context option"

definition bounded128 :: "string \<Rightarrow> bool" where
  "bounded128 s \<longleftrightarrow> 1 \<le> length s \<and> length s \<le> 128"

definition opt_bounded :: "string option \<Rightarrow> bool" where
  "opt_bounded x = (case x of None \<Rightarrow> True | Some s \<Rightarrow> bounded128 s)"

text \<open>\<open>/^[a-z][a-z0-9.-]{2,64}$/\<close>\<close>

definition service_id_ok :: "string \<Rightarrow> bool" where
  "service_id_ok s =
     (case s of
        [] \<Rightarrow> False
      | c # cs \<Rightarrow> lower_letter c \<and> 2 \<le> length cs \<and> length cs \<le> 64 \<and>
          list_all (\<lambda>d. lower_letter d \<or> js_digit d \<or> d = CHR ''.'' \<or> d = CHR ''-'') cs)"

fun principal_ok :: "principal_ref \<Rightarrow> bool" where
  "principal_ok (User_principal u i p) = (bounded128 u \<and> bounded128 i \<and> bounded128 p)"
| "principal_ok (System_principal s b) = (service_id_ok s \<and> opt_bounded (b_workflowRunId b) \<and> opt_bounded (b_approvalId b))"

definition query_ok :: "authorization_query \<Rightarrow> bool" where
  "query_ok q \<longleftrightarrow>
     principal_ok (q_principal q) \<and> bounded128 (q_repositoryId q) \<and>
     (case q_context q of None \<Rightarrow> True
      | Some c \<Rightarrow> opt_bounded (qc_workflowRunId c) \<and> opt_bounded (qc_approvalId c) \<and> opt_bounded (qc_targetExternalId c))"

datatype auth_effect = Allow | Deny

datatype auth_source = Source_local | Source_github | Source_cache

record evidence_record =
  er_id :: string
  er_repositoryId :: string
  er_subjectKey :: string
  er_capability :: capability
  er_effect :: auth_effect
  er_reasonCode :: string
  er_source :: auth_source
  er_providerSnapshotHash :: "string option"
  er_checkedAt :: int
  er_expiresAt :: "int option"

datatype linkage_status = Link_pending | Link_active | Link_degraded | Link_disconnected

record linkage =
  l_status :: linkage_status
  installationRef :: string
  externalIdHint :: "string option"

datatype github_role = Role_admin | Role_maintain | Role_write | Role_triage | Role_read | Role_none

section \<open>The service\<close>

fun ROLE_FLOOR :: "capability \<Rightarrow> github_role list" where
  "ROLE_FLOOR Repository_read = [Role_read, Role_triage, Role_write, Role_maintain, Role_admin]"
| "ROLE_FLOOR Artifact_read = [Role_triage, Role_write, Role_maintain, Role_admin]"
| "ROLE_FLOOR Policy_read = [Role_triage, Role_write, Role_maintain, Role_admin]"
| "ROLE_FLOOR Workflow_start = [Role_write, Role_maintain, Role_admin]"
| "ROLE_FLOOR Workflow_cancel = [Role_write, Role_maintain, Role_admin]"
| "ROLE_FLOOR Policy_write = [Role_maintain, Role_admin]"
| "ROLE_FLOOR Approval_resolve = [Role_maintain, Role_admin]"
| "ROLE_FLOOR Repository_privileged_action = [Role_maintain, Role_admin]"
| "ROLE_FLOOR Repository_connect = [Role_admin]"

definition roleSatisfies :: "github_role \<Rightarrow> capability \<Rightarrow> bool" where
  "roleSatisfies r c \<longleftrightarrow> r \<in> set (ROLE_FLOOR c)"

fun subjectKeyOf :: "principal_ref \<Rightarrow> string" where
  "subjectKeyOf (User_principal u i p) = ''user:'' @ u"
| "subjectKeyOf (System_principal s b) = ''system:'' @ s"

record auth_result =
  ar_effect :: auth_effect
  ar_reasonCode :: string
  ar_evidenceId :: "string option"

definition denied :: "string \<Rightarrow> auth_result" where
  "denied code = \<lparr>ar_effect = Deny, ar_reasonCode = code, ar_evidenceId = None\<rparr>"

definition system_scoped :: auth_result where
  "system_scoped = \<lparr>ar_effect = Allow, ar_reasonCode = ''system_actor_scoped'', ar_evidenceId = None\<rparr>"

definition match_binding :: "string option \<Rightarrow> string option \<Rightarrow> string \<Rightarrow> auth_result" where
  "match_binding bound given what =
     (case bound of
        None \<Rightarrow> denied (''system_actor_missing_'' @ what @ ''_binding'')
      | Some b \<Rightarrow>
          (case given of
             None \<Rightarrow> denied (''system_actor_missing_'' @ what @ ''_context'')
           | Some g \<Rightarrow> if b \<noteq> g then denied ''system_actor_binding_mismatch'' else system_scoped))"

definition authorizeSystemActor :: "capability \<Rightarrow> system_binding \<Rightarrow> query_context option \<Rightarrow> auth_result" where
  "authorizeSystemActor c b ctx =
     (if c \<notin> {Workflow_start, Workflow_cancel, Approval_resolve} then denied ''system_actor_capability_forbidden''
      else case ctx of
        None \<Rightarrow> denied ''system_actor_missing_operation_context''
      | Some x \<Rightarrow>
          if c = Approval_resolve then match_binding (b_approvalId b) (qc_approvalId x) ''approval''
          else match_binding (b_workflowRunId b) (qc_workflowRunId x) ''run'')"

datatype auth_call =
    FindLinkage string
  | FindFresh string string capability int
  | FetchUserRole string "string option" string
  | AppendEvidence evidence_record

record 'w auth_ports =
  findLinkage :: "string \<Rightarrow> ('w, linkage option) port"
  findFresh :: "string \<Rightarrow> string \<Rightarrow> capability \<Rightarrow> int \<Rightarrow> ('w, evidence_record option) port"
  fetchUserRole :: "string \<Rightarrow> string option \<Rightarrow> string \<Rightarrow> ('w, github_role \<times> string) port"
  append :: "evidence_record \<Rightarrow> ('w, unit) port"
  nowMs :: "'w \<Rightarrow> int"
  randomUUID :: "'w \<Rightarrow> string"
  readCacheTtlSeconds :: int

definition role_evidence ::
  "authorization_query \<Rightarrow> string \<Rightarrow> int \<Rightarrow> int \<Rightarrow> github_role \<times> string \<Rightarrow> evidence_record" where
  "role_evidence q uuid at ttl fetched =
     (let c = q_capability q; allowed = roleSatisfies (fst fetched) c in
      \<lparr>er_id = uuid, er_repositoryId = q_repositoryId q, er_subjectKey = subjectKeyOf (q_principal q), er_capability = c,
       er_effect = (if allowed then Allow else Deny),
       er_reasonCode = (if allowed then ''role_satisfies_floor'' else ''role_below_floor''),
       er_source = Source_github, er_providerSnapshotHash = Some (snd fetched), er_checkedAt = at,
       er_expiresAt = (if allowed \<and> \<not> requiresFreshCheck c then Some (at + ttl * 1000) else None)\<rparr>)"

definition system_evidence :: "authorization_query \<Rightarrow> string \<Rightarrow> int \<Rightarrow> auth_result \<Rightarrow> evidence_record" where
  "system_evidence q uuid at res =
     \<lparr>er_id = uuid, er_repositoryId = q_repositoryId q, er_subjectKey = subjectKeyOf (q_principal q),
      er_capability = q_capability q, er_effect = Allow, er_reasonCode = ar_reasonCode res, er_source = Source_local,
      er_providerSnapshotHash = None, er_checkedAt = at, er_expiresAt = None\<rparr>"

text \<open>Step 3 for a user principal whose decision was not served from the evidence store.\<close>

definition check_provider ::
  "'w auth_ports \<Rightarrow> authorization_query \<Rightarrow> linkage \<Rightarrow> string \<Rightarrow> ('w, auth_call, auth_result) eff" where
  "check_provider ports q l subject =
     bindE (catchE (callE (FetchUserRole (installationRef l) (externalIdHint l) subject)
                          (fetchUserRole ports (installationRef l) (externalIdHint l) subject))
                   (\<lambda>_. throwE (MadeError ''DEPENDENCY_UNAVAILABLE''))) (\<lambda>fetched.
       readE (\<lambda>w. role_evidence q (randomUUID ports w) (nowMs ports w) (readCacheTtlSeconds ports) fetched) (\<lambda>ev.
         bindE (callE (AppendEvidence ev) (append ports ev)) (\<lambda>_.
           if er_effect ev = Allow
           then retE \<lparr>ar_effect = Allow, ar_reasonCode = er_reasonCode ev, ar_evidenceId = Some (er_id ev)\<rparr>
           else retE (denied ''role_below_floor''))))"

definition authorize_user ::
  "'w auth_ports \<Rightarrow> authorization_query \<Rightarrow> bool \<Rightarrow> linkage \<Rightarrow> string \<Rightarrow> ('w, auth_call, auth_result) eff" where
  "authorize_user ports q freshOption l subject =
     (let fresh = (freshOption \<or> requiresFreshCheck (q_capability q)); key = subjectKeyOf (q_principal q) in
      readE (nowMs ports) (\<lambda>now.
        if fresh then check_provider ports q l subject
        else bindE (callE (FindFresh key (q_repositoryId q) (q_capability q) now)
                          (findFresh ports key (q_repositoryId q) (q_capability q) now)) (\<lambda>cached.
          case cached of
            Some e \<Rightarrow> retE \<lparr>ar_effect = er_effect e, ar_reasonCode = er_reasonCode e, ar_evidenceId = Some (er_id e)\<rparr>
          | None \<Rightarrow> check_provider ports q l subject)))"

definition with_linkage ::
  "'w auth_ports \<Rightarrow> authorization_query \<Rightarrow> (linkage \<Rightarrow> ('w, auth_call, auth_result) eff) \<Rightarrow> ('w, auth_call, auth_result) eff" where
  "with_linkage ports q k =
     bindE (callE (FindLinkage (q_repositoryId q)) (findLinkage ports (q_repositoryId q))) (\<lambda>found.
       case found of
         None \<Rightarrow> throwE (MadeError ''REPOSITORY_FORBIDDEN'')
       | Some l \<Rightarrow>
           if l_status l = Link_disconnected then throwE (MadeError ''REPOSITORY_FORBIDDEN'')
           else if l_status l = Link_pending then retE (denied ''linkage_pending'')
           else k l)"

definition authorize ::
  "'w auth_ports \<Rightarrow> authorization_query \<Rightarrow> bool \<Rightarrow> ('w, auth_call, auth_result) eff" where
  "authorize ports q freshOption =
     (if \<not> query_ok q then retE (denied ''malformed_query'')
      else case q_principal q of
        System_principal s b \<Rightarrow>
          (let res = authorizeSystemActor (q_capability q) b (q_context q) in
           if ar_effect res = Deny then retE res
           else with_linkage ports q (\<lambda>_.
             readE (\<lambda>w. system_evidence q (randomUUID ports w) (nowMs ports w) res) (\<lambda>ev.
               bindE (callE (AppendEvidence ev) (append ports ev)) (\<lambda>_. retE res))))
      | User_principal u i subject \<Rightarrow>
          with_linkage ports q (\<lambda>l. authorize_user ports q freshOption l subject))"

definition requireAllow :: "auth_result \<Rightarrow> string \<Rightarrow> js_error + unit" where
  "requireAllow res requestId = (if ar_effect res \<noteq> Allow then Inl (MadeError ''REPOSITORY_FORBIDDEN'') else Inr ())"

section \<open>The in-memory evidence store\<close>

definition store_append :: "evidence_record \<Rightarrow> evidence_record list \<Rightarrow> evidence_record list" where
  "store_append e rows = rows @ [e]"

definition store_findFresh ::
  "string \<Rightarrow> string \<Rightarrow> capability \<Rightarrow> int \<Rightarrow> evidence_record list \<Rightarrow> evidence_record option" where
  "store_findFresh key repo c now rows =
     find (\<lambda>r. er_subjectKey r = key \<and> er_repositoryId r = repo \<and> er_capability r = c \<and> er_effect r = Allow \<and>
               (case er_expiresAt r of None \<Rightarrow> False | Some e \<Rightarrow> e > now)) rows"
section \<open>Properties\<close>

lemma with_linkage_allow:
  assumes "eff_result (with_linkage ports q k) w = Inr res" and "ar_effect res = Allow"
  obtains l w' where "findLinkage ports (q_repositoryId q) w = (w', Inr (Some l))" "l_status l \<in> {Link_active, Link_degraded}"
    "eff_result (k l) w' = Inr res" "eff_calls (with_linkage ports q k) w = FindLinkage (q_repositoryId q) # eff_calls (k l) w'"
    "eff_world (with_linkage ports q k) w = eff_world (k l) w'"
proof -
  obtain w' r where f: "findLinkage ports (q_repositoryId q) w = (w', r)" by fastforce
  from assms f obtain l where r: "r = Inr (Some l)" and s: "l_status l \<noteq> Link_disconnected" "l_status l \<noteq> Link_pending"
    and k: "eff_result (k l) w' = Inr res"
    by (auto simp: with_linkage_def eff_simps eff_if denied_def split: sum.splits option.splits if_splits)
  from s have "l_status l \<in> {Link_active, Link_degraded}" by (cases "l_status l") auto
  moreover have "eff_calls (with_linkage ports q k) w = FindLinkage (q_repositoryId q) # eff_calls (k l) w'"
    "eff_world (with_linkage ports q k) w = eff_world (k l) w'"
    using f r s by (simp_all add: with_linkage_def eff_simps)
  ultimately show ?thesis using that f r k by blast
qed

lemma check_provider_allow:
  assumes "eff_result (check_provider ports q l subject) w = Inr res" and "ar_effect res = Allow"
  obtains role h w' ev where
    "fetchUserRole ports (installationRef l) (externalIdHint l) subject w = (w', Inr (role, h))"
    "roleSatisfies role (q_capability q)"
    "ev = role_evidence q (randomUUID ports w') (nowMs ports w') (readCacheTtlSeconds ports) (role, h)"
    "eff_calls (check_provider ports q l subject) w =
       [FetchUserRole (installationRef l) (externalIdHint l) subject, AppendEvidence ev]"
    "ar_evidenceId res = Some (er_id ev)"
proof -
  obtain w' r where f: "fetchUserRole ports (installationRef l) (externalIdHint l) subject w = (w', r)" by fastforce
  from assms f obtain role h where r: "r = Inr (role, h)"
    by (auto simp: check_provider_def eff_simps split: sum.splits)
  let ?ev = "role_evidence q (randomUUID ports w') (nowMs ports w') (readCacheTtlSeconds ports) (role, h)"
  from assms f r have al: "er_effect ?ev = Allow" and i: "ar_evidenceId res = Some (er_id ?ev)"
    by (auto simp: check_provider_def eff_simps eff_if denied_def split: sum.splits if_splits)
  from al have "roleSatisfies role (q_capability q)" by (simp add: role_evidence_def Let_def split: if_splits)
  moreover have "eff_calls (check_provider ports q l subject) w =
       [FetchUserRole (installationRef l) (externalIdHint l) subject, AppendEvidence ?ev]"
    using f r by (auto simp: check_provider_def eff_simps eff_if split: sum.splits)
  ultimately show ?thesis using that f r i by blast
qed

text \<open>
  Property C21.  A privileged capability is never granted from stored evidence: when authorize
  allows a user a capability that requires a fresh check, or any capability with the fresh option,
  the repository is linked as active or degraded, the provider was asked in this very call and
  reported a role on the capability's floor for the user's subject, and the grant was recorded,
  without an expiry for a privileged capability, before it was returned.
\<close>

theorem privileged_allow_is_freshly_checked:
  assumes "q_principal q = User_principal u i subject" and "requiresFreshCheck (q_capability q) \<or> freshOption"
    and "eff_result (authorize ports q freshOption) w = Inr res" and "ar_effect res = Allow"
  shows "\<exists>l w1 role h w2 ev.
    findLinkage ports (q_repositoryId q) w = (w1, Inr (Some l)) \<and> l_status l \<in> {Link_active, Link_degraded} \<and>
    fetchUserRole ports (installationRef l) (externalIdHint l) subject w1 = (w2, Inr (role, h)) \<and>
    role \<in> set (ROLE_FLOOR (q_capability q)) \<and> er_effect ev = Allow \<and>
    (requiresFreshCheck (q_capability q) \<longrightarrow> er_expiresAt ev = None) \<and>
    eff_calls (authorize ports q freshOption) w =
      [FindLinkage (q_repositoryId q), FetchUserRole (installationRef l) (externalIdHint l) subject, AppendEvidence ev]"
proof -
  have ok: "query_ok q" using assms(3,4) by (auto simp: authorize_def denied_def split: if_splits)
  then have a: "authorize ports q freshOption = with_linkage ports q (\<lambda>l. authorize_user ports q freshOption l subject)"
    by (simp add: authorize_def assms(1))
  from with_linkage_allow [OF assms(3) [unfolded a] assms(4)] obtain l w1 where
    l: "findLinkage ports (q_repositoryId q) w = (w1, Inr (Some l))" "l_status l \<in> {Link_active, Link_degraded}"
    and r: "eff_result (authorize_user ports q freshOption l subject) w1 = Inr res"
    and c: "eff_calls (authorize ports q freshOption) w =
      FindLinkage (q_repositoryId q) # eff_calls (authorize_user ports q freshOption l subject) w1"
    unfolding a by blast
  have u: "eff_result (authorize_user ports q freshOption l subject) w1 = eff_result (check_provider ports q l subject) w1"
    "eff_calls (authorize_user ports q freshOption l subject) w1 = eff_calls (check_provider ports q l subject) w1"
    using assms(2) by (auto simp: authorize_user_def Let_def)
  obtain role h w2 ev where
    p: "fetchUserRole ports (installationRef l) (externalIdHint l) subject w1 = (w2, Inr (role, h))"
      "roleSatisfies role (q_capability q)"
      "ev = role_evidence q (randomUUID ports w2) (nowMs ports w2) (readCacheTtlSeconds ports) (role, h)"
      "eff_calls (check_provider ports q l subject) w1 =
         [FetchUserRole (installationRef l) (externalIdHint l) subject, AppendEvidence ev]"
    by (rule check_provider_allow [OF r [unfolded u] assms(4)])
  moreover from p(2,3) have "er_effect ev = Allow" "requiresFreshCheck (q_capability q) \<longrightarrow> er_expiresAt ev = None"
    by (simp_all add: role_evidence_def Let_def)
  moreover from p(2) have "role \<in> set (ROLE_FLOOR (q_capability q))" by (simp add: roleSatisfies_def)
  ultimately show ?thesis using l c u(2) by auto
qed

lemma match_binding_allow: "ar_effect (match_binding b g x) = Allow \<longleftrightarrow> (\<exists>v. b = Some v \<and> g = Some v)"
  by (auto simp: match_binding_def denied_def system_scoped_def split: option.splits)

lemma system_allow_iff:
  "ar_effect (authorizeSystemActor c b ctx) = Allow \<longleftrightarrow>
     (\<exists>x v. ctx = Some x \<and>
        (c \<in> {Workflow_start, Workflow_cancel} \<and> b_workflowRunId b = Some v \<and> qc_workflowRunId x = Some v \<or>
         c = Approval_resolve \<and> b_approvalId b = Some v \<and> qc_approvalId x = Some v))"
  by (cases c) (auto simp: authorizeSystemActor_def match_binding_allow denied_def split: option.splits)

text \<open>
  System actors act only inside their binding: whatever the ports answer, a system
  principal is allowed exactly starting or cancelling the run, or resolving the approval, that its
  persisted binding names and the operation context repeats; no provider role and no stored
  evidence is ever consulted for it, and the grant is recorded before it is returned.
\<close>

theorem system_actor_stays_in_binding:
  assumes "q_principal q = System_principal s b"
  shows "(\<forall>c\<in>set (eff_calls (authorize ports q freshOption) w).
            c = FindLinkage (q_repositoryId q) \<or> (\<exists>ev. c = AppendEvidence ev \<and> er_source ev = Source_local)) \<and>
    (\<forall>res. eff_result (authorize ports q freshOption) w = Inr res \<and> ar_effect res = Allow \<longrightarrow>
       (\<exists>x v. q_context q = Some x \<and>
          (q_capability q \<in> {Workflow_start, Workflow_cancel} \<and> b_workflowRunId b = Some v \<and> qc_workflowRunId x = Some v \<or>
           q_capability q = Approval_resolve \<and> b_approvalId b = Some v \<and> qc_approvalId x = Some v)) \<and>
       (\<exists>ev. eff_calls (authorize ports q freshOption) w = [FindLinkage (q_repositoryId q), AppendEvidence ev] \<and>
          er_effect ev = Allow \<and> er_subjectKey ev = ''system:'' @ s))"
proof (intro conjI allI impI)
  let ?res = "authorizeSystemActor (q_capability q) b (q_context q)"
  let ?k = "\<lambda>_ :: linkage. readE (\<lambda>w. system_evidence q (randomUUID ports w) (nowMs ports w) ?res)
     (\<lambda>ev. bindE (callE (AppendEvidence ev) (append ports ev)) (\<lambda>_. retE ?res))"
  have a: "authorize ports q freshOption =
      (if \<not> query_ok q then retE (denied ''malformed_query'') else if ar_effect ?res = Deny then retE ?res else with_linkage ports q ?k)"
    by (simp add: authorize_def assms Let_def)
  have kc: "eff_calls (?k l) w' = [AppendEvidence (system_evidence q (randomUUID ports w') (nowMs ports w') ?res)]" for l w'
    by (simp add: eff_simps split: sum.splits)
  show "\<forall>c\<in>set (eff_calls (authorize ports q freshOption) w).
      c = FindLinkage (q_repositoryId q) \<or> (\<exists>ev. c = AppendEvidence ev \<and> er_source ev = Source_local)"
    unfolding a by (auto simp: with_linkage_def eff_simps eff_if system_evidence_def split: sum.splits option.splits if_splits)
  fix res assume res: "eff_result (authorize ports q freshOption) w = Inr res \<and> ar_effect res = Allow"
  then have al: "authorize ports q freshOption = with_linkage ports q ?k" and ok: "ar_effect ?res = Allow"
    unfolding a by (auto simp: denied_def split: if_splits) (cases "ar_effect ?res"; simp)
  from ok show "\<exists>x v. q_context q = Some x \<and>
          (q_capability q \<in> {Workflow_start, Workflow_cancel} \<and> b_workflowRunId b = Some v \<and> qc_workflowRunId x = Some v \<or>
           q_capability q = Approval_resolve \<and> b_approvalId b = Some v \<and> qc_approvalId x = Some v)"
    by (simp only: system_allow_iff)
  from res have r1: "eff_result (with_linkage ports q ?k) w = Inr res" and r2: "ar_effect res = Allow"
    unfolding al by simp_all
  obtain l w' where "eff_calls (with_linkage ports q ?k) w = FindLinkage (q_repositoryId q) # eff_calls (?k l) w'"
    by (rule with_linkage_allow [OF r1 r2])
  then have "eff_calls (authorize ports q freshOption) w =
       [FindLinkage (q_repositoryId q), AppendEvidence (system_evidence q (randomUUID ports w') (nowMs ports w') ?res)]"
    unfolding al kc .
  then show "\<exists>ev. eff_calls (authorize ports q freshOption) w = [FindLinkage (q_repositoryId q), AppendEvidence ev] \<and>
          er_effect ev = Allow \<and> er_subjectKey ev = ''system:'' @ s"
    by (auto simp: system_evidence_def assms)
qed
section \<open>The service over the in-memory evidence store\<close>

definition evidence_backed :: "('w \<Rightarrow> evidence_record list) \<Rightarrow> 'w auth_ports \<Rightarrow> bool" where
  "evidence_backed rows ports \<longleftrightarrow>
     (\<forall>k r c n w. findFresh ports k r c n w = (w, Inr (store_findFresh k r c n (rows w)))) \<and>
     (\<forall>e w. rows (fst (append ports e w)) = store_append e (rows w)) \<and>
     (\<forall>r w. rows (fst (findLinkage ports r w)) = rows w) \<and>
     (\<forall>i x p w. rows (fst (fetchUserRole ports i x p w)) = rows w)"

text \<open>A record that can still be served: a provider-backed grant within its time to live.\<close>

definition evidence_sound :: "int \<Rightarrow> evidence_record \<Rightarrow> bool" where
  "evidence_sound ttl r \<longleftrightarrow>
     (case er_expiresAt r of
        None \<Rightarrow> True
      | Some e \<Rightarrow> er_effect r = Allow \<and> er_source r = Source_github \<and> er_reasonCode r = ''role_satisfies_floor'' \<and>
          e = er_checkedAt r + ttl * 1000 \<and> \<not> requiresFreshCheck (er_capability r))"

lemma sound_records:
  "evidence_sound ttl (role_evidence q uuid at ttl fetched)" "evidence_sound ttl (system_evidence q uuid at res)"
  by (simp_all add: evidence_sound_def role_evidence_def system_evidence_def Let_def)

lemma rows_check_provider:
  assumes "evidence_backed rows ports" and "list_all (evidence_sound (readCacheTtlSeconds ports)) (rows w)"
  shows "list_all (evidence_sound (readCacheTtlSeconds ports)) (rows (eff_world (check_provider ports q l subject) w))"
  using assms unfolding evidence_backed_def
  by (auto simp: check_provider_def eff_simps eff_if store_append_def sound_records split: sum.splits)

lemma rows_authorize_user:
  assumes "evidence_backed rows ports" and "list_all (evidence_sound (readCacheTtlSeconds ports)) (rows w)"
  shows "list_all (evidence_sound (readCacheTtlSeconds ports)) (rows (eff_world (authorize_user ports q f l subject) w))"
  using assms(2) rows_check_provider [OF assms] assms(1) [unfolded evidence_backed_def]
  by (auto simp: authorize_user_def Let_def eff_simps eff_if split: option.splits)

lemma rows_with_linkage:
  assumes "evidence_backed rows ports" and "P (rows w)"
    and "\<And>l w'. P (rows w') \<Longrightarrow> P (rows (eff_world (k l) w'))"
  shows "P (rows (eff_world (with_linkage ports q k) w))"
  using assms(2,3) assms(1) [unfolded evidence_backed_def]
  by (simp add: with_linkage_def eff_simps eff_if split: option.splits sum.splits)

lemma rows_authorize:
  assumes "evidence_backed rows ports" and "list_all (evidence_sound (readCacheTtlSeconds ports)) (rows w)"
  shows "list_all (evidence_sound (readCacheTtlSeconds ports)) (rows (eff_world (authorize ports q f) w))"
proof (cases "q_principal q")
  case (User_principal u i subject)
  then show ?thesis
    using assms rows_with_linkage [OF assms(1), of "list_all (evidence_sound (readCacheTtlSeconds ports))" w
        "\<lambda>l. authorize_user ports q f l subject" q] rows_authorize_user [OF assms(1)]
    by (simp add: authorize_def)
next
  case (System_principal s b)
  let ?res = "authorizeSystemActor (q_capability q) b (q_context q)"
  let ?k = "\<lambda>_ :: linkage. readE (\<lambda>w. system_evidence q (randomUUID ports w) (nowMs ports w) ?res)
     (\<lambda>ev. bindE (callE (AppendEvidence ev) (append ports ev)) (\<lambda>_. retE ?res))"
  have "list_all (evidence_sound (readCacheTtlSeconds ports)) (rows (eff_world (?k l) w'))"
    if "list_all (evidence_sound (readCacheTtlSeconds ports)) (rows w')" for l w'
    using that assms(1) [unfolded evidence_backed_def]
    by (auto simp: eff_simps store_append_def sound_records split: sum.splits)
  with rows_with_linkage [OF assms(1), of "list_all (evidence_sound (readCacheTtlSeconds ports))" w ?k q] assms(2)
  show ?thesis by (simp add: authorize_def System_principal Let_def eff_if)
qed

text \<open>
  Cached grants are bounded in time: over the evidence store every call keeps the
  store sound, and when a user is allowed a capability without asking the provider, the store
  holds a provider-backed grant for the same subject, repository and capability whose check is
  younger than the configured time to live, and the capability is not a privileged one.
\<close>

theorem cached_allow_is_recent:
  assumes "evidence_backed rows ports" and "list_all (evidence_sound (readCacheTtlSeconds ports)) (rows w)"
  shows "list_all (evidence_sound (readCacheTtlSeconds ports)) (rows (eff_world (authorize ports q f) w)) \<and>
    (\<forall>u i subject res. q_principal q = User_principal u i subject \<and> eff_result (authorize ports q f) w = Inr res \<and>
       ar_effect res = Allow \<and> (\<forall>a b c. FetchUserRole a b c \<notin> set (eff_calls (authorize ports q f) w)) \<longrightarrow>
       \<not> requiresFreshCheck (q_capability q) \<and>
       (\<exists>e\<in>set (rows w). er_subjectKey e = ''user:'' @ u \<and> er_repositoryId e = q_repositoryId q \<and>
          er_capability e = q_capability q \<and> er_effect e = Allow \<and> er_source e = Source_github \<and>
          nowMs ports (fst (findLinkage ports (q_repositoryId q) w)) < er_checkedAt e + readCacheTtlSeconds ports * 1000))"
proof (intro conjI allI impI, rule rows_authorize [OF assms])
  fix u i subject res
  assume h: "q_principal q = User_principal u i subject \<and> eff_result (authorize ports q f) w = Inr res \<and>
       ar_effect res = Allow \<and> (\<forall>a b c. FetchUserRole a b c \<notin> set (eff_calls (authorize ports q f) w))"
  then have "query_ok q" by (auto simp: authorize_def denied_def split: if_splits)
  with h have a: "authorize ports q f = with_linkage ports q (\<lambda>l. authorize_user ports q f l subject)"
    by (simp add: authorize_def)
  from h have r1: "eff_result (with_linkage ports q (\<lambda>l. authorize_user ports q f l subject)) w = Inr res"
    and r2: "ar_effect res = Allow" unfolding a by simp_all
  obtain l w1 where l: "findLinkage ports (q_repositoryId q) w = (w1, Inr (Some l))"
    and r: "eff_result (authorize_user ports q f l subject) w1 = Inr res"
    and c: "eff_calls (with_linkage ports q (\<lambda>l. authorize_user ports q f l subject)) w =
      FindLinkage (q_repositoryId q) # eff_calls (authorize_user ports q f l subject) w1"
    by (rule with_linkage_allow [OF r1 r2])
  have np: "\<forall>a b c. FetchUserRole a b c \<notin> set (eff_calls (authorize_user ports q f l subject) w1)"
    using h c unfolding a by simp
  have asks: "\<exists>a b c. FetchUserRole a b c \<in> set (eff_calls (check_provider ports q l subject) w')" for w'
    by (auto simp: check_provider_def eff_simps split: sum.splits)
  have rows1: "rows w1 = rows w" using assms(1) l by (metis evidence_backed_def fst_conv)
  from np obtain e where e: "store_findFresh (''user:'' @ u) (q_repositoryId q) (q_capability q) (nowMs ports w1) (rows w1) = Some e"
    and nf: "\<not> requiresFreshCheck (q_capability q)"
    using h assms(1) [unfolded evidence_backed_def] asks
    by (fastforce simp: authorize_user_def Let_def eff_simps eff_if split: option.splits if_splits)
  then have "e \<in> set (rows w)" "er_subjectKey e = ''user:'' @ u" "er_repositoryId e = q_repositoryId q" "er_capability e = q_capability q"
    "er_effect e = Allow" "\<exists>x. er_expiresAt e = Some x \<and> nowMs ports w1 < x"
    unfolding store_findFresh_def rows1 by (auto simp: find_Some_iff split: option.splits)
  moreover from this(1) assms(2) have "evidence_sound (readCacheTtlSeconds ports) e" by (simp add: list_all_iff)
  ultimately show "\<not> requiresFreshCheck (q_capability q)" and "\<exists>e\<in>set (rows w). er_subjectKey e = ''user:'' @ u \<and> er_repositoryId e = q_repositoryId q \<and>
          er_capability e = q_capability q \<and> er_effect e = Allow \<and> er_source e = Source_github \<and>
          nowMs ports (fst (findLinkage ports (q_repositoryId q) w)) < er_checkedAt e + readCacheTtlSeconds ports * 1000"
    using nf l by (auto simp: evidence_sound_def)
qed
section \<open>Witnesses\<close>

definition sample_auth_ports :: "evidence_record list auth_ports" where
  "sample_auth_ports =
     \<lparr>findLinkage = (\<lambda>_ w. (w, Inr (Some \<lparr>l_status = Link_active, installationRef = ''i'', externalIdHint = None\<rparr>))),
      findFresh = (\<lambda>k r c n w. (w, Inr (store_findFresh k r c n w))),
      fetchUserRole = (\<lambda>_ _ _ w. (w, Inr (Role_maintain, ''h''))),
      append = (\<lambda>e w. (store_append e w, Inr ())), nowMs = (\<lambda>_. 1000), randomUUID = (\<lambda>_. ''u''),
      readCacheTtlSeconds = 30\<rparr>"

definition user_query :: "capability \<Rightarrow> authorization_query" where
  "user_query c =
     \<lparr>q_principal = User_principal ''alice'' ''github'' ''42'', q_repositoryId = ''r'', q_capability = c, q_context = None\<rparr>"

definition cached_grant :: evidence_record where
  "cached_grant = role_evidence (user_query Policy_read) ''u'' 900 30 (Role_maintain, ''h'')"

definition system_query :: authorization_query where
  "system_query =
     \<lparr>q_principal = System_principal ''worker.resume'' \<lparr>b_workflowRunId = None, b_approvalId = Some ''a1''\<rparr>, q_repositoryId = ''r'',
      q_capability = Approval_resolve,
      q_context = Some \<lparr>qc_workflowRunId = None, qc_approvalId = Some ''a1'', qc_targetExternalId = None\<rparr>\<rparr>"

lemma user_query_ok: "query_ok (user_query c)"
  by (simp add: query_ok_def user_query_def bounded128_def)

theorem privileged_allow_is_freshly_checked_witness:
  "\<exists>ev. eff_calls (authorize sample_auth_ports (user_query Policy_write) False) [] =
     [FindLinkage ''r'', FetchUserRole ''i'' None ''42'', AppendEvidence ev]"
proof -
  have r: "eff_result (authorize sample_auth_ports (user_query Policy_write) False) [] =
      Inr \<lparr>ar_effect = Allow, ar_reasonCode = ''role_satisfies_floor'', ar_evidenceId = Some ''u''\<rparr>"
    using user_query_ok [of Policy_write]
    by (simp add: authorize_def user_query_def with_linkage_def authorize_user_def check_provider_def eff_simps
        sample_auth_ports_def requiresFreshCheck_def FRESH_REQUIRED_def role_evidence_def roleSatisfies_def)
  from privileged_allow_is_freshly_checked [OF _ _ r, of "''alice''" "''github''" "''42''"] show ?thesis
    by (auto simp: user_query_def sample_auth_ports_def requiresFreshCheck_def FRESH_REQUIRED_def)
qed

theorem system_actor_stays_in_binding_witness:
  "\<exists>ev. eff_calls (authorize sample_auth_ports system_query False) [] = [FindLinkage ''r'', AppendEvidence ev]"
proof -
  have "query_ok system_query"
    by (simp add: query_ok_def system_query_def bounded128_def opt_bounded_def service_id_ok_def lower_letter_def js_digit_def)
  then have r: "eff_result (authorize sample_auth_ports system_query False) [] = Inr system_scoped"
    by (simp add: authorize_def system_query_def with_linkage_def eff_simps sample_auth_ports_def
        authorizeSystemActor_def match_binding_def system_scoped_def Let_def)
  moreover have "q_principal system_query = System_principal ''worker.resume'' \<lparr>b_workflowRunId = None, b_approvalId = Some ''a1''\<rparr>"
    "q_repositoryId system_query = ''r''" by (simp_all add: system_query_def)
  ultimately show ?thesis
    using system_actor_stays_in_binding [of system_query _ _ sample_auth_ports False "[]"] by (fastforce simp: system_scoped_def)
qed

theorem cached_allow_is_recent_witness:
  "list_all (evidence_sound 30) (eff_world (authorize sample_auth_ports (user_query Policy_read) False) [cached_grant])"
proof -
  have "evidence_backed (\<lambda>w. w) sample_auth_ports" by (simp add: evidence_backed_def sample_auth_ports_def)
  moreover have "readCacheTtlSeconds sample_auth_ports = 30" by (simp add: sample_auth_ports_def)
  ultimately show ?thesis
    using cached_allow_is_recent [of "\<lambda>w. w" sample_auth_ports "[cached_grant]" "user_query Policy_read" False]
    by (simp add: cached_grant_def sound_records)
qed

end
