(* ===== verification/Tool_Gateway.thy ===== *)
theory Tool_Gateway
  imports Canonical_Json Port_Effects
begin

text \<open>
  The tool policy gateway of agent sessions, \<open>packages/agent/src/policy-gateway\<close>: tool profiles
  (\<open>tool-profiles.ts\<close>), argument normalization (\<open>argument-normalizer.ts\<close>), the intent store
  (\<open>intent-store.ts\<close>) and the gateway (\<open>mcp-policy-gateway.ts\<close>) over arbitrary ports.  Raw
  arguments are decoded JSON; sha256, the clock and fresh identifiers are parameters.
\<close>

section \<open>Contracts\<close>

datatype tool_policy_result = Tool_ALLOW | Tool_DENY | Tool_APPROVAL_REQUIRED

datatype intent_status =
    In_PROPOSED | In_EVALUATING | In_ALLOWED | In_DENIED | In_WAITING_APPROVAL | In_AUTHORIZED_EXECUTION
  | In_EXECUTING | In_COMPLETED | In_FAILED | In_CANCELLED | In_STALE

fun intent_status_str :: "intent_status \<Rightarrow> string" where
  "intent_status_str In_PROPOSED = ''PROPOSED''"
| "intent_status_str In_EVALUATING = ''EVALUATING''"
| "intent_status_str In_ALLOWED = ''ALLOWED''"
| "intent_status_str In_DENIED = ''DENIED''"
| "intent_status_str In_WAITING_APPROVAL = ''WAITING_APPROVAL''"
| "intent_status_str In_AUTHORIZED_EXECUTION = ''AUTHORIZED_EXECUTION''"
| "intent_status_str In_EXECUTING = ''EXECUTING''"
| "intent_status_str In_COMPLETED = ''COMPLETED''"
| "intent_status_str In_FAILED = ''FAILED''"
| "intent_status_str In_CANCELLED = ''CANCELLED''"
| "intent_status_str In_STALE = ''STALE''"

datatype provider_risk = Risk_read_only | Risk_low | Risk_medium | Risk_high | Risk_mutative_external

record tool_proposal =
  tp_provider :: string
  tp_sessionId :: string
  tp_turnId :: string
  providerToolCallId :: string
  tp_toolName :: string
  tp_schemaVersion :: string
  rawArgumentsDigest :: string
  toolProfileId :: string

definition proposal_ok :: "tool_proposal \<Rightarrow> bool" where
  "proposal_ok p \<longleftrightarrow>
     within 64 (tp_provider p) \<and> within 128 (tp_sessionId p) \<and> within 128 (tp_turnId p) \<and>
     within 128 (providerToolCallId p) \<and> within 128 (tp_toolName p) \<and> within 32 (tp_schemaVersion p) \<and>
     length (rawArgumentsDigest p) = 64 \<and> list_all hex_lower (rawArgumentsDigest p) \<and> within 128 (toolProfileId p)"

record tool_call_intent =
  in_id :: string
  in_provider :: string
  in_sessionId :: string
  in_turnId :: string
  in_providerToolCallId :: string
  in_toolName :: string
  in_profileId :: string
  in_actionId :: string
  in_providerRisk :: provider_risk
  in_policyDecision :: tool_policy_result
  in_status :: intent_status
  normalizedArgumentsDigest :: string
  in_idempotencyKey :: string
  in_cancellationGeneration :: int
  in_createdAtIso :: string
  in_updatedAtIso :: string

record checkpoint_link =
  cl_id :: string
  cl_toolIntentId :: string
  cl_actionId :: string
  cl_sessionId :: string
  cl_turnId :: string
  providerCheckpointRef :: string
  syncStatus :: string
  cl_createdAtIso :: string

record tool_profile_entry =
  pe_profileId :: string
  pe_toolName :: string
  pe_schemaVersion :: string
  pe_actionId :: string
  pe_providerRisk :: provider_risk
  pe_enabled :: bool
  pe_directMutative :: bool

record execution_grant =
  gr_toolIntentId :: string
  gr_actionId :: string
  gr_profileId :: string
  gr_toolName :: string
  gr_cancellationGeneration :: int

section \<open>Tool profiles\<close>

definition profile_key :: "tool_profile_entry \<Rightarrow> string" where
  "profile_key e = pe_profileId e @ [CHR 0x00] @ pe_toolName e"

definition new_ToolProfileRegistry :: "tool_profile_entry list \<Rightarrow> string + tool_profile_entry list" where
  "new_ToolProfileRegistry es =
     (if distinct (map profile_key es) then Inr es else Inl ''duplicate tool profile mapping'')"

definition lookup_tool :: "tool_profile_entry list \<Rightarrow> string \<Rightarrow> string \<Rightarrow> string + tool_profile_entry" where
  "lookup_tool es tool profile =
     (case find (\<lambda>e. pe_toolName e = tool \<and> pe_profileId e = profile) es of
        None \<Rightarrow> Inl ''UNKNOWN_TOOL_DENIED''
      | Some e \<Rightarrow>
          if \<not> pe_enabled e then Inl ''PROFILE_DISABLED''
          else if pe_directMutative e then Inl ''DIRECT_MUTATIVE_DENIED''
          else Inr e)"

definition preflight :: "tool_profile_entry list \<Rightarrow> bool" where
  "preflight es = list_all (\<lambda>e. \<not> (pe_enabled e \<and> pe_directMutative e)) es"

section \<open>Argument normalization\<close>

text \<open>\<open>/^(sessionId|session_id|turnId|workflowRunId|repository_?id)$/i\<close>\<close>

definition forbidden_key :: "string \<Rightarrow> bool" where
  "forbidden_key k \<longleftrightarrow>
     js_lower k \<in> set [''sessionid'', ''session_id'', ''turnid'', ''workflowrunid'', ''repository_id'', ''repositoryid'']"

text \<open>
  The loops of \<open>visit\<close>: \<open>None\<close> is a thrown error, the first child that throws or answers false
  decides.
\<close>

fun visit_all :: "bool option list \<Rightarrow> bool option" where
  "visit_all [] = Some True"
| "visit_all (r # rs) = (if r = Some True then visit_all rs else r)"

fun visit :: "nat \<Rightarrow> json \<Rightarrow> bool option" where
  "visit d (JArr vs) =
     (if d > 16 then None else if length vs > 100 then None else visit_all (map (visit (d + 1)) vs))"
| "visit d (JObj ms) =
     (if d > 16 then None
      else visit_all (map (\<lambda>(k, v). if forbidden_key k then Some False else visit (d + 1) v) ms))"
| "visit d (JStr s) = (if d > 16 then None else if length s > 64000 then None else Some True)"
| "visit d _ = (if d > 16 then None else Some True)"

fun is_object :: "json \<Rightarrow> bool" where
  "is_object (JObj ms) = True"
| "is_object _ = False"

definition blank_controls :: "string \<Rightarrow> string" where
  "blank_controls s = map (\<lambda>c. if (of_char c :: nat) < 32 \<or> (of_char c :: nat) = 127 then CHR '' '' else c) s"

definition normalizeToolArguments ::
  "(string \<Rightarrow> string) \<Rightarrow> json \<Rightarrow> string \<Rightarrow> string \<Rightarrow> string + string \<times> nat" where
  "normalizeToolArguments sha raw expected provided =
     (if expected \<noteq> provided then Inl ''TOOL_SCHEMA_MISMATCH''
      else if \<not> is_object raw then Inl ''MALFORMED_ARGUMENTS''
      else case visit 0 raw of
        None \<Rightarrow> Inl ''MALFORMED_ARGUMENTS''
      | Some False \<Rightarrow> Inl ''CROSS_REPO_SESSION_ARGUMENT''
      | Some True \<Rightarrow> let normalized = blank_controls (json_text raw) in Inr (sha normalized, utf8_length normalized))"

section \<open>The intent store\<close>

record intent_store =
  intents :: "string \<Rightarrow> tool_call_intent option"
  byCall :: "string \<Rightarrow> tool_call_intent option"

definition call_key :: "string \<Rightarrow> string \<Rightarrow> string \<Rightarrow> string" where
  "call_key provider session callId = json_text (JArr [JStr provider, JStr session, JStr callId])"

definition save_intent :: "tool_call_intent \<Rightarrow> intent_store \<Rightarrow> intent_store" where
  "save_intent i st =
     st\<lparr>intents := (intents st)(in_id i \<mapsto> i),
        byCall := (byCall st)(call_key (in_provider i) (in_sessionId i) (in_providerToolCallId i) \<mapsto> i)\<rparr>"

definition find_by_call :: "intent_store \<Rightarrow> string \<Rightarrow> string \<Rightarrow> string \<Rightarrow> tool_call_intent option" where
  "find_by_call st provider session callId = byCall st (call_key provider session callId)"

section \<open>The gateway\<close>

datatype gateway_call =
    FindByProviderCall string string string
  | Decide string provider_risk string string
  | SaveIntent tool_call_intent
  | GetIntent string
  | SetLink string checkpoint_link
  | Emit string string

record 'w gateway_ports =
  gp_find :: "string \<Rightarrow> string \<Rightarrow> string \<Rightarrow> ('w, tool_call_intent option) port"
  gp_decide :: "string \<Rightarrow> provider_risk \<Rightarrow> string \<Rightarrow> string \<Rightarrow> ('w, tool_policy_result) port"
  gp_save :: "tool_call_intent \<Rightarrow> ('w, unit) port"
  gp_get :: "string \<Rightarrow> ('w, tool_call_intent option) port"
  gp_setLink :: "string \<Rightarrow> checkpoint_link \<Rightarrow> ('w, unit) port"
  gp_emit :: "string \<Rightarrow> string \<Rightarrow> ('w, unit) port"
  gp_nowIso :: "'w \<Rightarrow> string"
  gp_uuid :: "'w \<Rightarrow> string"

fun AllowReadOnly_decide :: "provider_risk \<Rightarrow> tool_policy_result" where
  "AllowReadOnly_decide Risk_read_only = Tool_ALLOW"
| "AllowReadOnly_decide Risk_low = Tool_ALLOW"
| "AllowReadOnly_decide Risk_high = Tool_APPROVAL_REQUIRED"
| "AllowReadOnly_decide Risk_mutative_external = Tool_APPROVAL_REQUIRED"
| "AllowReadOnly_decide Risk_medium = Tool_ALLOW"

datatype tool_disposition =
    Disp_allow tool_call_intent
  | Disp_deny string string
  | Disp_approval_required tool_call_intent string

definition checkpoint_ref :: "string \<Rightarrow> string" where
  "checkpoint_ref i = ''cp-'' @ take 8 i"

definition replayed :: "tool_call_intent \<Rightarrow> tool_disposition" where
  "replayed e =
     (if in_status e = In_DENIED \<or> in_policyDecision e = Tool_DENY
      then Disp_deny (intent_status_str (in_status e)) ''already denied''
      else if in_policyDecision e = Tool_APPROVAL_REQUIRED then Disp_approval_required e (checkpoint_ref (in_id e))
      else Disp_allow e)"

definition status_for :: "tool_policy_result \<Rightarrow> intent_status" where
  "status_for d = (case d of Tool_ALLOW \<Rightarrow> In_ALLOWED | Tool_DENY \<Rightarrow> In_DENIED | _ \<Rightarrow> In_WAITING_APPROVAL)"

definition new_intent ::
  "string \<Rightarrow> string \<Rightarrow> tool_proposal \<Rightarrow> tool_profile_entry \<Rightarrow> string \<Rightarrow> tool_policy_result \<Rightarrow> tool_call_intent" where
  "new_intent uuid nowIso p entry digest d =
     \<lparr>in_id = uuid, in_provider = tp_provider p, in_sessionId = tp_sessionId p, in_turnId = tp_turnId p,
      in_providerToolCallId = providerToolCallId p, in_toolName = tp_toolName p, in_profileId = toolProfileId p,
      in_actionId = pe_actionId entry, in_providerRisk = pe_providerRisk entry, in_policyDecision = d,
      in_status = status_for d, normalizedArgumentsDigest = digest,
      in_idempotencyKey = providerToolCallId p @ '':'' @ digest, in_cancellationGeneration = 0,
      in_createdAtIso = nowIso, in_updatedAtIso = nowIso\<rparr>"

definition decide_and_persist ::
  "'w gateway_ports \<Rightarrow> tool_proposal \<Rightarrow> tool_profile_entry \<Rightarrow> string \<Rightarrow> ('w, gateway_call, tool_disposition) eff" where
  "decide_and_persist ports p entry digest =
     bindE (callE (Decide (pe_actionId entry) (pe_providerRisk entry) (tp_sessionId p) (tp_turnId p))
                  (gp_decide ports (pe_actionId entry) (pe_providerRisk entry) (tp_sessionId p) (tp_turnId p))) (\<lambda>d.
       readE (\<lambda>w. new_intent (gp_uuid ports w) (gp_nowIso ports w) p entry digest d) (\<lambda>i.
         bindE (callE (SaveIntent i) (gp_save ports i)) (\<lambda>_.
         bindE (callE (Emit ''tool.intent.persisted'' (in_id i)) (gp_emit ports ''tool.intent.persisted'' (in_id i))) (\<lambda>_.
         case d of
           Tool_DENY \<Rightarrow> retE (Disp_deny ''POLICY_DENIED'' ''action policy denied'')
         | Tool_APPROVAL_REQUIRED \<Rightarrow>
             bindE (callE (Emit ''tool.approval_required'' (in_id i)) (gp_emit ports ''tool.approval_required'' (in_id i)))
               (\<lambda>_. retE (Disp_approval_required i (checkpoint_ref (in_id i))))
         | Tool_ALLOW \<Rightarrow>
             bindE (callE (Emit ''tool.allowed'' (in_id i)) (gp_emit ports ''tool.allowed'' (in_id i)))
               (\<lambda>_. retE (Disp_allow i))))))"

definition intercept ::
  "(string \<Rightarrow> string) \<Rightarrow> 'w gateway_ports \<Rightarrow> tool_profile_entry list \<Rightarrow> tool_proposal \<Rightarrow> json \<Rightarrow>
   ('w, gateway_call, tool_disposition) eff" where
  "intercept sha ports reg p raw =
     (if \<not> proposal_ok p then retE (Disp_deny ''TOOL_POLICY_INTERCEPTION_REQUIRED'' ''malformed proposal'')
      else bindE (callE (FindByProviderCall (tp_provider p) (tp_sessionId p) (providerToolCallId p))
                        (gp_find ports (tp_provider p) (tp_sessionId p) (providerToolCallId p))) (\<lambda>existing.
        case existing of
          Some e \<Rightarrow> retE (replayed e)
        | None \<Rightarrow>
            (case lookup_tool reg (tp_toolName p) (toolProfileId p) of
               Inl code \<Rightarrow> retE (Disp_deny code ''tool not allowed'')
             | Inr entry \<Rightarrow>
                 (case normalizeToolArguments sha raw (pe_schemaVersion entry) (tp_schemaVersion p) of
                    Inl code \<Rightarrow> retE (Disp_deny code ''arguments rejected'')
                  | Inr (digest, _) \<Rightarrow> decide_and_persist ports p entry digest))))"

definition grant_link :: "string \<Rightarrow> string \<Rightarrow> tool_call_intent \<Rightarrow> string \<Rightarrow> string \<Rightarrow> checkpoint_link" where
  "grant_link uuid nowIso i intentId actionId =
     \<lparr>cl_id = uuid, cl_toolIntentId = intentId, cl_actionId = actionId, cl_sessionId = in_sessionId i,
      cl_turnId = in_turnId i, providerCheckpointRef = checkpoint_ref intentId, syncStatus = ''RESOLVED'',
      cl_createdAtIso = nowIso\<rparr>"

definition authorizeExecution ::
  "'w gateway_ports \<Rightarrow> string \<Rightarrow> string \<Rightarrow> ('w, gateway_call, execution_grant) eff" where
  "authorizeExecution ports intentId actionId =
     bindE (callE (GetIntent intentId) (gp_get ports intentId)) (\<lambda>found.
       case found of
         None \<Rightarrow> throwE (MadeError ''TOOL_CALL_NOT_FOUND'')
       | Some i \<Rightarrow>
           if in_actionId i \<noteq> actionId then throwE (MadeError ''TOOL_ACTION_MISMATCH'')
           else if in_policyDecision i \<noteq> Tool_APPROVAL_REQUIRED then throwE (MadeError ''AUTHORIZED_GRANT_REQUIRED'')
           else
             readE (\<lambda>w. i\<lparr>in_status := In_AUTHORIZED_EXECUTION, in_updatedAtIso := gp_nowIso ports w\<rparr>) (\<lambda>updated.
             bindE (callE (SaveIntent updated) (gp_save ports updated)) (\<lambda>_.
             readE (\<lambda>w. grant_link (gp_uuid ports w) (gp_nowIso ports w) i intentId actionId) (\<lambda>link.
             bindE (callE (SetLink (intentId @ '':grant'') link) (gp_setLink ports (intentId @ '':grant'') link)) (\<lambda>_.
             bindE (callE (Emit ''tool.authorized_execution'' (in_id i)) (gp_emit ports ''tool.authorized_execution'' (in_id i))) (\<lambda>_.
             retE \<lparr>gr_toolIntentId = in_id i, gr_actionId = in_actionId i, gr_profileId = in_profileId i,
                   gr_toolName = in_toolName i, gr_cancellationGeneration = in_cancellationGeneration i\<rparr>))))))"
section \<open>Arguments that pass\<close>

text \<open>
  What the arguments may contain at depth \<open>d\<close>: nothing below depth 16, no array over 100 entries,
  no string over 64000 characters, and no key that names a session, turn, run or repository.
\<close>

fun clean :: "nat \<Rightarrow> json \<Rightarrow> bool" where
  "clean d (JArr vs) = (d \<le> 16 \<and> length vs \<le> 100 \<and> list_all (clean (d + 1)) vs)"
| "clean d (JObj ms) = (d \<le> 16 \<and> list_all (\<lambda>(k, v). \<not> forbidden_key k \<and> clean (d + 1) v) ms)"
| "clean d (JStr s) = (d \<le> 16 \<and> length s \<le> 64000)"
| "clean d _ = (d \<le> 16)"

lemma visit_all_true: "visit_all rs = Some True \<longleftrightarrow> list_all (\<lambda>r. r = Some True) rs"
  by (induction rs) auto

lemma visit_clean: "visit d v = Some True \<longleftrightarrow> clean d v"
  by (induction d v rule: visit.induct) (auto simp: visit_all_true list_all_iff split: if_splits)

text \<open>
  The offences of a value, all of them in the order of the document; below an array that is too
  long, a value that is too deep or a key that is refused nothing more is listed.
\<close>

datatype argument_offence = Malformed | Names_context

fun offences :: "nat \<Rightarrow> json \<Rightarrow> argument_offence list" where
  "offences d (JArr vs) =
     (if d > 16 \<or> length vs > 100 then [Malformed] else concat (map (offences (d + 1)) vs))"
| "offences d (JObj ms) =
     (if d > 16 then [Malformed]
      else concat (map (\<lambda>(k, v). if forbidden_key k then [Names_context] else offences (d + 1) v) ms))"
| "offences d (JStr s) = (if d > 16 \<or> length s > 64000 then [Malformed] else [])"
| "offences d _ = (if d > 16 then [Malformed] else [])"

fun offence_code :: "argument_offence \<Rightarrow> string" where
  "offence_code Malformed = ''MALFORMED_ARGUMENTS''"
| "offence_code Names_context = ''CROSS_REPO_SESSION_ARGUMENT''"

fun verdict :: "argument_offence list \<Rightarrow> bool option" where
  "verdict [] = Some True"
| "verdict (Malformed # _) = None"
| "verdict (Names_context # _) = Some False"

lemma verdict_append: "verdict (xs @ ys) = (if verdict xs = Some True then verdict ys else verdict xs)"
  by (cases xs rule: verdict.cases) simp_all

lemma visit_all_verdict: "visit_all (map (\<lambda>x. verdict (f x)) xs) = verdict (concat (map f xs))"
  by (induction xs) (simp_all add: verdict_append)

lemma visit_verdict: "visit d v = verdict (offences d v)"
proof (induction d v rule: offences.induct)
  case (1 d vs)
  have "visit_all (map (visit (d + 1)) vs) = verdict (concat (map (offences (d + 1)) vs))" if "\<not> (d > 16 \<or> length vs > 100)"
    unfolding visit_all_verdict [symmetric] using 1 [OF that] by (simp cong: map_cong)
  then show ?case by auto
next
  case (2 d ms)
  let ?f = "\<lambda>(k, v). if forbidden_key k then [Names_context] else offences (d + 1) v"
  from 2 have "map (\<lambda>(k, v). if forbidden_key k then Some False else visit (d + 1) v) ms = map (\<lambda>x. verdict (?f x)) ms"
    if "\<not> d > 16" using that by (auto simp del: One_nat_def)
  then have "visit_all (map (\<lambda>(k, v). if forbidden_key k then Some False else visit (d + 1) v) ms) = verdict (concat (map ?f ms))"
    if "\<not> d > 16" by (subst visit_all_verdict [symmetric]) (simp only: that not_False_eq_True)
  then show ?case by auto
qed simp_all

lemma offences_clean: "offences d v = [] \<longleftrightarrow> clean d v"
  unfolding visit_clean [symmetric] visit_verdict by (cases "offences d v" rule: verdict.cases) simp_all

text \<open>
  Property C39.  What normalization answers: another schema version than the tool's is refused as
  TOOL_SCHEMA_MISMATCH, and a value that is no object as MALFORMED_ARGUMENTS; otherwise the first offence in the
  order of the document gives the code, MALFORMED_ARGUMENTS for a value below depth sixteen, an array of over one
  hundred entries or a string of over 64000 characters and CROSS_REPO_SESSION_ARGUMENT for a key that names a session,
  turn, run or repository; and without any offence the answer is the digest and the size of the normalized text.
\<close>

theorem normalizeToolArguments_exact:
  "normalizeToolArguments sha raw expected provided =
     (if expected \<noteq> provided then Inl ''TOOL_SCHEMA_MISMATCH''
      else if \<not> is_object raw then Inl ''MALFORMED_ARGUMENTS''
      else case offences 0 raw of
        offence # _ \<Rightarrow> Inl (offence_code offence)
      | [] \<Rightarrow> Inr (sha (blank_controls (json_text raw)), utf8_length (blank_controls (json_text raw)))) \<and>
   (offences 0 raw = [] \<longleftrightarrow> clean 0 raw)"
proof (rule conjI, goal_cases)
  case 1
  show ?case
    by (cases "offences 0 raw" rule: verdict.cases) (simp_all add: normalizeToolArguments_def visit_verdict Let_def)
qed (rule offences_clean)

section \<open>Decisions\<close>

text \<open>A proposal that gets as far as the policy decision, with its profile entry and digest.\<close>

definition decidable ::
  "(string \<Rightarrow> string) \<Rightarrow> tool_profile_entry list \<Rightarrow> tool_proposal \<Rightarrow> json \<Rightarrow> tool_profile_entry \<Rightarrow> string \<Rightarrow> bool" where
  "decidable sha reg p raw entry digest \<longleftrightarrow>
     entry \<in> set reg \<and> pe_toolName entry = tp_toolName p \<and> pe_profileId entry = toolProfileId p \<and>
     pe_enabled entry \<and> \<not> pe_directMutative entry \<and> pe_schemaVersion entry = tp_schemaVersion p \<and>
     is_object raw \<and> clean 0 raw \<and> digest = sha (blank_controls (json_text raw))"

lemma lookup_tool_sound:
  "lookup_tool reg tool profile = Inr e \<Longrightarrow>
     e \<in> set reg \<and> pe_toolName e = tool \<and> pe_profileId e = profile \<and> pe_enabled e \<and> \<not> pe_directMutative e"
  by (auto simp: lookup_tool_def find_Some_iff split: option.splits if_splits)

lemma normalize_sound:
  "normalizeToolArguments sha raw expected provided = Inr (digest, bytes) \<Longrightarrow>
     expected = provided \<and> is_object raw \<and> clean 0 raw \<and> digest = sha (blank_controls (json_text raw))"
  unfolding visit_clean [symmetric]
  by (auto simp: normalizeToolArguments_def Let_def split: if_splits option.splits bool.splits)

lemma intercept_cases:
  fixes ports :: "'w gateway_ports"
  obtains (denied) code detail where "eff_result (intercept sha ports reg p raw) w = Inr (Disp_deny code detail)"
      "set (eff_calls (intercept sha ports reg p raw) w) \<subseteq>
         {FindByProviderCall (tp_provider p) (tp_sessionId p) (providerToolCallId p)}"
  | (failed) e where "eff_result (intercept sha ports reg p raw) w = Inl e"
      "eff_calls (intercept sha ports reg p raw) w = [FindByProviderCall (tp_provider p) (tp_sessionId p) (providerToolCallId p)]"
  | (replay) w' e where
      "gp_find ports (tp_provider p) (tp_sessionId p) (providerToolCallId p) w = (w', Inr (Some e))"
      "eff_result (intercept sha ports reg p raw) w = Inr (replayed e)"
      "eff_calls (intercept sha ports reg p raw) w = [FindByProviderCall (tp_provider p) (tp_sessionId p) (providerToolCallId p)]"
  | (decided) w' entry digest where
      "gp_find ports (tp_provider p) (tp_sessionId p) (providerToolCallId p) w = (w', Inr None)"
      "decidable sha reg p raw entry digest"
      "eff_result (intercept sha ports reg p raw) w = eff_result (decide_and_persist ports p entry digest) w'"
      "eff_calls (intercept sha ports reg p raw) w =
         FindByProviderCall (tp_provider p) (tp_sessionId p) (providerToolCallId p) # eff_calls (decide_and_persist ports p entry digest) w'"
proof (cases "proposal_ok p")
  case False
  then show thesis using denied by (simp add: intercept_def)
next
  case ok: True
  obtain w' r where f: "gp_find ports (tp_provider p) (tp_sessionId p) (providerToolCallId p) w = (w', r)" by fastforce
  show thesis
  proof (cases r)
    case (Inl e)
    with f ok show thesis using failed by (simp add: intercept_def eff_simps)
  next
    case (Inr x)
    show thesis
    proof (cases x)
      case (Some e)
      with f ok Inr show thesis using replay by (simp add: intercept_def eff_simps)
    next
      case None
      show thesis
      proof (cases "lookup_tool reg (tp_toolName p) (toolProfileId p)")
        case (Inl code)
        with f ok Inr None show thesis using denied by (simp add: intercept_def eff_simps)
      next
        case l: (Inr entry)
        show thesis
        proof (cases "normalizeToolArguments sha raw (pe_schemaVersion entry) (tp_schemaVersion p)")
          case (Inl code)
          with f ok Inr None l show thesis using denied by (simp add: intercept_def eff_simps)
        next
          case n: (Inr db)
          obtain digest bytes where db: "db = (digest, bytes)" by fastforce
          have "decidable sha reg p raw entry digest"
            using lookup_tool_sound [OF l] normalize_sound [OF n [unfolded db]] by (auto simp: decidable_def)
          with f ok Inr None l n db show thesis using decided by (simp add: intercept_def eff_simps)
        qed
      qed
    qed
  qed
qed
lemma decide_and_persist_result:
  assumes "eff_result (decide_and_persist ports p entry digest) w = Inr d"
  obtains dec w' where
    "gp_decide ports (pe_actionId entry) (pe_providerRisk entry) (tp_sessionId p) (tp_turnId p) w = (w', Inr dec)"
    "let i = new_intent (gp_uuid ports w') (gp_nowIso ports w') p entry digest dec in
       d = (case dec of Tool_ALLOW \<Rightarrow> Disp_allow i | Tool_DENY \<Rightarrow> Disp_deny ''POLICY_DENIED'' ''action policy denied''
            | Tool_APPROVAL_REQUIRED \<Rightarrow> Disp_approval_required i (checkpoint_ref (in_id i))) \<and>
       eff_calls (decide_and_persist ports p entry digest) w =
         [Decide (pe_actionId entry) (pe_providerRisk entry) (tp_sessionId p) (tp_turnId p), SaveIntent i,
          Emit ''tool.intent.persisted'' (in_id i)] @
         (case dec of Tool_ALLOW \<Rightarrow> [Emit ''tool.allowed'' (in_id i)] | Tool_DENY \<Rightarrow> []
          | Tool_APPROVAL_REQUIRED \<Rightarrow> [Emit ''tool.approval_required'' (in_id i)])"
proof -
  obtain w' r where r: "gp_decide ports (pe_actionId entry) (pe_providerRisk entry) (tp_sessionId p) (tp_turnId p) w = (w', r)"
    by fastforce
  from assms r obtain dec where "r = Inr dec" by (cases r) (auto simp: decide_and_persist_def eff_simps)
  with assms r show ?thesis using that
    by (cases dec) (auto simp: decide_and_persist_def eff_simps Let_def split: sum.splits)
qed

text \<open>
  Property C12.  No new tool effect without a persisted decision: whatever the ports answer, when a
  proposal that is not a replay is answered ALLOW or APPROVAL_REQUIRED, its tool is an enabled,
  not directly mutative entry of the registry with the proposal's schema version, its arguments are
  clean, the policy was asked for exactly that entry's action and risk and gave that answer, and
  the intent binding the action, the call and the digest of the arguments was saved before the
  answer.
\<close>

theorem tool_effect_needs_persisted_decision:
  assumes "gp_find ports (tp_provider p) (tp_sessionId p) (providerToolCallId p) w = (w', Inr None)"
    and "eff_result (intercept sha ports reg p raw) w = Inr d" and "d = Disp_allow i \<or> d = Disp_approval_required i cp"
  shows "\<exists>entry digest dec rest. decidable sha reg p raw entry digest \<and>
    snd (gp_decide ports (pe_actionId entry) (pe_providerRisk entry) (tp_sessionId p) (tp_turnId p) w') = Inr dec \<and>
    dec = (case d of Disp_allow _ \<Rightarrow> Tool_ALLOW | _ \<Rightarrow> Tool_APPROVAL_REQUIRED) \<and>
    in_policyDecision i = dec \<and> in_actionId i = pe_actionId entry \<and> normalizedArgumentsDigest i = digest \<and>
    in_providerToolCallId i = providerToolCallId p \<and> in_sessionId i = tp_sessionId p \<and>
    eff_calls (intercept sha ports reg p raw) w =
      [FindByProviderCall (tp_provider p) (tp_sessionId p) (providerToolCallId p),
       Decide (pe_actionId entry) (pe_providerRisk entry) (tp_sessionId p) (tp_turnId p), SaveIntent i] @ rest \<and>
    list_all (\<lambda>c. \<exists>t. c = Emit t (in_id i)) rest"
proof (cases rule: intercept_cases [of sha ports reg p raw w])
  case (decided w1 entry digest)
  have w1: "w1 = w'" using decided(1) assms(1) by simp
  from assms(2) decided(3) have "eff_result (decide_and_persist ports p entry digest) w' = Inr d" by (simp add: w1)
  then obtain dec w2 where
    dec: "gp_decide ports (pe_actionId entry) (pe_providerRisk entry) (tp_sessionId p) (tp_turnId p) w' = (w2, Inr dec)"
    and rest: "let i = new_intent (gp_uuid ports w2) (gp_nowIso ports w2) p entry digest dec in
       d = (case dec of Tool_ALLOW \<Rightarrow> Disp_allow i | Tool_DENY \<Rightarrow> Disp_deny ''POLICY_DENIED'' ''action policy denied''
            | Tool_APPROVAL_REQUIRED \<Rightarrow> Disp_approval_required i (checkpoint_ref (in_id i))) \<and>
       eff_calls (decide_and_persist ports p entry digest) w' =
         [Decide (pe_actionId entry) (pe_providerRisk entry) (tp_sessionId p) (tp_turnId p), SaveIntent i,
          Emit ''tool.intent.persisted'' (in_id i)] @
         (case dec of Tool_ALLOW \<Rightarrow> [Emit ''tool.allowed'' (in_id i)] | Tool_DENY \<Rightarrow> []
          | Tool_APPROVAL_REQUIRED \<Rightarrow> [Emit ''tool.approval_required'' (in_id i)])"
    by (rule decide_and_persist_result)
  have i: "i = new_intent (gp_uuid ports w2) (gp_nowIso ports w2) p entry digest dec"
    and dd: "dec = (case d of Disp_allow _ \<Rightarrow> Tool_ALLOW | _ \<Rightarrow> Tool_APPROVAL_REQUIRED)"
    using rest assms(3) by (cases dec; auto simp: Let_def)+
  have "in_policyDecision i = dec \<and> in_actionId i = pe_actionId entry \<and> normalizedArgumentsDigest i = digest \<and>
    in_providerToolCallId i = providerToolCallId p \<and> in_sessionId i = tp_sessionId p" by (simp add: i new_intent_def)
  moreover have "\<exists>rest. eff_calls (intercept sha ports reg p raw) w =
      [FindByProviderCall (tp_provider p) (tp_sessionId p) (providerToolCallId p),
       Decide (pe_actionId entry) (pe_providerRisk entry) (tp_sessionId p) (tp_turnId p), SaveIntent i] @ rest \<and>
      list_all (\<lambda>c. \<exists>t. c = Emit t (in_id i)) rest"
    using rest decided(4) by (cases dec) (auto simp: w1 i Let_def)
  ultimately show ?thesis using decided(2) dec dd by auto
qed (use assms in auto)

text \<open>
  A repeated call id is answered from the first intent whatever it now asks for:
  for an intent decided ALLOW and not DENIED, every well-formed proposal with the same provider,
  session and call id is answered ALLOW, for any tool, profile, schema version and arguments,
  without a lookup, a check of the arguments, a policy decision or a save.
\<close>

theorem replay_ignores_tool_and_arguments:
  assumes "gp_find ports (tp_provider p) (tp_sessionId p) (providerToolCallId p) w = (w', Inr (Some e))"
    and "in_policyDecision e = Tool_ALLOW" and "in_status e \<noteq> In_DENIED" and "proposal_ok p"
  shows "eff_result (intercept sha ports reg p raw) w = Inr (Disp_allow e) \<and>
    eff_calls (intercept sha ports reg p raw) w = [FindByProviderCall (tp_provider p) (tp_sessionId p) (providerToolCallId p)]"
  using assms by (simp add: intercept_def eff_simps replayed_def)

text \<open>
  An execution grant needs no approval: for any intent that was decided
  APPROVAL_REQUIRED, in every status (waiting, cancelled, stale, already executed), asking for its
  own action yields the grant; the only calls are the load, the save as AUTHORIZED_EXECUTION, the
  checkpoint link and the event, none of which consults an approval.  Intents decided otherwise or
  of another action are refused without a change.
\<close>

theorem grant_consults_no_approval:
  assumes "gp_get ports iid w = (w1, Inr (Some i))"
    and "\<forall>x w. snd (gp_save ports x w) = Inr ()" and "\<forall>k l w. snd (gp_setLink ports k l w) = Inr ()"
    and "\<forall>t x w. snd (gp_emit ports t x w) = Inr ()"
  shows "if in_actionId i = a \<and> in_policyDecision i = Tool_APPROVAL_REQUIRED
    then (\<exists>g u l. eff_result (authorizeExecution ports iid a) w = Inr g \<and> gr_actionId g = a \<and> gr_toolIntentId g = in_id i \<and>
       u = i\<lparr>in_status := In_AUTHORIZED_EXECUTION, in_updatedAtIso := gp_nowIso ports w1\<rparr> \<and>
       eff_calls (authorizeExecution ports iid a) w =
         [GetIntent iid, SaveIntent u, SetLink (iid @ '':grant'') l, Emit ''tool.authorized_execution'' (in_id i)])
    else (\<exists>e. eff_result (authorizeExecution ports iid a) w = Inl e) \<and>
       eff_calls (authorizeExecution ports iid a) w = [GetIntent iid]"
  using assms by (auto simp: authorizeExecution_def eff_simps eff_if)

section \<open>Witnesses\<close>

definition sample_entry :: tool_profile_entry where
  "sample_entry =
     \<lparr>pe_profileId = ''p'', pe_toolName = ''read_file'', pe_schemaVersion = ''1'', pe_actionId = ''repository_read'',
      pe_providerRisk = Risk_read_only, pe_enabled = True, pe_directMutative = False\<rparr>"

definition sample_proposal :: tool_proposal where
  "sample_proposal =
     \<lparr>tp_provider = ''trueforge'', tp_sessionId = ''s'', tp_turnId = ''t'', providerToolCallId = ''c1'',
      tp_toolName = ''read_file'', tp_schemaVersion = ''1'', rawArgumentsDigest = replicate 64 (CHR ''0''), toolProfileId = ''p''\<rparr>"

definition sample_gateway :: "tool_policy_result \<Rightarrow> intent_store gateway_ports" where
  "sample_gateway d =
     \<lparr>gp_find = (\<lambda>a b c st. (st, Inr (find_by_call st a b c))), gp_decide = (\<lambda>_ _ _ _ st. (st, Inr d)),
      gp_save = (\<lambda>i st. (save_intent i st, Inr ())), gp_get = (\<lambda>i st. (st, Inr (intents st i))),
      gp_setLink = (\<lambda>_ _ st. (st, Inr ())), gp_emit = (\<lambda>_ _ st. (st, Inr ())), gp_nowIso = (\<lambda>_. ''now''), gp_uuid = (\<lambda>_. ''i1'')\<rparr>"

definition empty_intents :: intent_store where
  "empty_intents = \<lparr>intents = (\<lambda>_. None), byCall = (\<lambda>_. None)\<rparr>"

definition sample_intent :: "tool_policy_result \<Rightarrow> tool_call_intent" where
  "sample_intent d = new_intent ''i1'' ''now'' sample_proposal sample_entry ''d'' d"

lemma sample_proposal_ok: "proposal_ok sample_proposal"
  by (simp add: proposal_ok_def sample_proposal_def within_def hex_lower_def list_all_iff)

theorem tool_effect_needs_persisted_decision_witness:
  "\<exists>i rest. eff_calls (intercept (\<lambda>_. ''d'') (sample_gateway Tool_ALLOW) [sample_entry] sample_proposal (JObj [(''path'', JStr ''a'')])) empty_intents =
     [FindByProviderCall ''trueforge'' ''s'' ''c1'', Decide ''repository_read'' Risk_read_only ''s'' ''t'', SaveIntent i] @ rest"
proof -
  let ?p = "sample_gateway Tool_ALLOW" and ?raw = "JObj [(''path'', JStr ''a'')]"
  have f: "gp_find ?p (tp_provider sample_proposal) (tp_sessionId sample_proposal) (providerToolCallId sample_proposal) empty_intents =
      (empty_intents, Inr None)"
    by (simp add: sample_gateway_def find_by_call_def empty_intents_def)
  have n: "normalizeToolArguments (\<lambda>_. ''d'') ?raw ''1'' ''1'' = Inr (''d'', utf8_length (blank_controls (json_text ?raw)))"
    by (simp add: normalizeToolArguments_def Let_def forbidden_key_def js_lower_def js_lower_char_def)
  have r: "eff_result (intercept (\<lambda>_. ''d'') ?p [sample_entry] sample_proposal ?raw) empty_intents = Inr (Disp_allow (sample_intent Tool_ALLOW))"
    using sample_proposal_ok f n
    by (simp add: intercept_def eff_simps lookup_tool_def sample_entry_def sample_proposal_def)
       (simp add: decide_and_persist_def eff_simps sample_gateway_def sample_intent_def sample_entry_def sample_proposal_def)
  obtain entry where e: "decidable (\<lambda>_. ''d'') [sample_entry] sample_proposal ?raw entry ''d''"
    and "\<exists>rest. eff_calls (intercept (\<lambda>_. ''d'') ?p [sample_entry] sample_proposal ?raw) empty_intents =
      [FindByProviderCall (tp_provider sample_proposal) (tp_sessionId sample_proposal) (providerToolCallId sample_proposal),
       Decide (pe_actionId entry) (pe_providerRisk entry) (tp_sessionId sample_proposal) (tp_turnId sample_proposal),
       SaveIntent (sample_intent Tool_ALLOW)] @ rest"
    using tool_effect_needs_persisted_decision [OF f r, of "sample_intent Tool_ALLOW" "[]"] by (auto simp: decidable_def)
  moreover from e have "entry = sample_entry" by (simp add: decidable_def)
  ultimately show ?thesis by (auto simp: sample_entry_def sample_proposal_def)
qed

theorem replay_ignores_tool_and_arguments_witness:
  "eff_result (intercept (\<lambda>_. ''d'') (sample_gateway Tool_DENY) [] (sample_proposal\<lparr>tp_toolName := ''delete_repo''\<rparr>) (JStr ''anything''))
     (save_intent (sample_intent Tool_ALLOW) empty_intents) = Inr (Disp_allow (sample_intent Tool_ALLOW))"
proof -
  let ?q = "sample_proposal\<lparr>tp_toolName := ''delete_repo''\<rparr>" and ?st = "save_intent (sample_intent Tool_ALLOW) empty_intents"
  have f: "gp_find (sample_gateway Tool_DENY) (tp_provider ?q) (tp_sessionId ?q) (providerToolCallId ?q) ?st =
      (?st, Inr (Some (sample_intent Tool_ALLOW)))"
    by (simp add: sample_gateway_def find_by_call_def save_intent_def sample_intent_def new_intent_def)
  moreover have "proposal_ok ?q" using sample_proposal_ok by (simp add: proposal_ok_def within_def)
  moreover have "in_policyDecision (sample_intent Tool_ALLOW) = Tool_ALLOW" "in_status (sample_intent Tool_ALLOW) \<noteq> In_DENIED"
    by (simp_all add: sample_intent_def new_intent_def status_for_def)
  ultimately show ?thesis
    using replay_ignores_tool_and_arguments [of "sample_gateway Tool_DENY" ?q ?st ?st "sample_intent Tool_ALLOW" "\<lambda>_. ''d''" "[]" "JStr ''anything''"]
    by simp
qed

theorem grant_consults_no_approval_witness:
  "\<exists>g. eff_result (authorizeExecution (sample_gateway Tool_ALLOW) ''i1'' ''repository_read'')
     (save_intent ((sample_intent Tool_APPROVAL_REQUIRED)\<lparr>in_status := In_CANCELLED\<rparr>) empty_intents) = Inr g"
proof -
  let ?i = "(sample_intent Tool_APPROVAL_REQUIRED)\<lparr>in_status := In_CANCELLED\<rparr>"
  have "gp_get (sample_gateway Tool_ALLOW) ''i1'' (save_intent ?i empty_intents) = (save_intent ?i empty_intents, Inr (Some ?i))"
    by (simp add: sample_gateway_def save_intent_def sample_intent_def new_intent_def)
  from grant_consults_no_approval [OF this, of "''repository_read''"] show ?thesis
    by (auto simp: sample_gateway_def sample_intent_def new_intent_def sample_entry_def)
qed

end
