(* ===== verification/Workspace_Checkout.thy ===== *)
theory Workspace_Checkout
  imports Workspace_FSM Canonical_Json
begin

text \<open>
  The pure parts of workspace creation, \<open>packages/sandbox/src/workspaces\<close>: checkout selectors and
  resolved checkouts (\<open>selector.ts\<close>), the capability gate (\<open>capability-gate.ts\<close>), the safe checkout
  plan (\<open>safe-git.ts\<close>), checkout verification and attestation (\<open>verifier.ts\<close>), fences (\<open>fence.ts\<close>)
  and provider idempotency keys (\<open>idempotency.ts\<close>).  A raised error is its code; the details of
  validation errors are not modelled.  The digest is an argument.
\<close>

section \<open>Selectors\<close>

datatype checkout_selector =
    Sel_commit string
  | Sel_branch string "string option"
  | Sel_tag string "string option"
  | Sel_pull_request_head int "string option"

definition full_sha :: "string \<Rightarrow> bool" where
  "full_sha s \<longleftrightarrow> (length s = 40 \<or> length s = 64) \<and> list_all hex_lower s"

definition ref_char :: "char \<Rightarrow> bool" where
  "ref_char c \<longleftrightarrow> alphanumeric c \<or> c \<in> set ''._/''"

definition ends_with :: "string \<Rightarrow> string \<Rightarrow> bool" where
  "ends_with s t \<longleftrightarrow> length t \<le> length s \<and> drop (length s - length t) s = t"

definition isSafeRefName :: "string \<Rightarrow> bool" where
  "isSafeRefName name \<longleftrightarrow>
     name \<noteq> [] \<and> ref_char (hd name) \<and> list_all (\<lambda>c. ref_char c \<or> c = CHR ''-'') (tl name) \<and> length (tl name) \<le> 199 \<and>
     \<not> js_startsWith name ''-'' \<and> \<not> js_startsWith name ''?'' \<and>
     \<not> js_includes name ''..'' \<and> \<not> js_includes name [CHR ''@'', CHR 0x7B] \<and> \<not> js_includes name ''//'' \<and>
     \<not> ends_with name ''.'' \<and> \<not> ends_with name ''.lock''"

definition opt_sha :: "string option \<Rightarrow> bool" where
  "opt_sha x = (case x of None \<Rightarrow> True | Some s \<Rightarrow> full_sha s)"

definition ref_name_ok :: "string \<Rightarrow> bool" where
  "ref_name_ok name \<longleftrightarrow> within 200 name \<and> isSafeRefName name"

fun selector_ok :: "checkout_selector \<Rightarrow> bool" where
  "selector_ok (Sel_commit sha) = full_sha sha"
| "selector_ok (Sel_branch name e) = (ref_name_ok name \<and> opt_sha e)"
| "selector_ok (Sel_tag name e) = (ref_name_ok name \<and> opt_sha e)"
| "selector_ok (Sel_pull_request_head n e) = (n > 0 \<and> opt_sha e)"

definition parseCheckoutSelector :: "checkout_selector \<Rightarrow> string + checkout_selector" where
  "parseCheckoutSelector s = (if selector_ok s then Inr s else Inl ''VALIDATION_FAILED'')"

fun selector_kind :: "checkout_selector \<Rightarrow> string" where
  "selector_kind (Sel_commit _) = ''commit''"
| "selector_kind (Sel_branch _ _) = ''branch''"
| "selector_kind (Sel_tag _ _) = ''tag''"
| "selector_kind (Sel_pull_request_head _ _) = ''pull_request_head''"

fun describeSelector :: "checkout_selector \<Rightarrow> string" where
  "describeSelector (Sel_commit sha) = ''commit:'' @ take 12 sha"
| "describeSelector (Sel_branch name _) = ''branch:'' @ name"
| "describeSelector (Sel_tag name _) = ''tag:'' @ name"
| "describeSelector (Sel_pull_request_head n _) = ''pull_request_head:'' @ js_int_str n"

fun expectedShaOf :: "checkout_selector \<Rightarrow> string option" where
  "expectedShaOf (Sel_commit sha) = Some sha"
| "expectedShaOf (Sel_branch _ e) = e"
| "expectedShaOf (Sel_tag _ e) = e"
| "expectedShaOf (Sel_pull_request_head _ e) = e"

text \<open>The members of a selector in the order of its schema, for \<open>JSON.stringify\<close>.\<close>

definition sha_member :: "string option \<Rightarrow> (string \<times> json) list" where
  "sha_member e = (case e of None \<Rightarrow> [] | Some s \<Rightarrow> [(''expectedSha'', JStr s)])"

fun selector_json :: "checkout_selector \<Rightarrow> json" where
  "selector_json (Sel_commit sha) = JObj [(''kind'', JStr ''commit''), (''sha'', JStr sha)]"
| "selector_json (Sel_branch name e) = JObj ([(''kind'', JStr ''branch''), (''name'', JStr name)] @ sha_member e)"
| "selector_json (Sel_tag name e) = JObj ([(''kind'', JStr ''tag''), (''name'', JStr name)] @ sha_member e)"
| "selector_json (Sel_pull_request_head n e) =
     JObj ([(''kind'', JStr ''pull_request_head''), (''number'', JNum n)] @ sha_member e)"

record resolved_checkout =
  rc_repositoryId :: string
  canonicalOwner :: string
  canonicalName :: string
  rc_selector :: checkout_selector
  resolvedSha :: string
  remoteFingerprint :: string
  resolvedAtMs :: int

definition repository_shape :: "string \<Rightarrow> bool" where
  "repository_shape s \<longleftrightarrow> within 64 s \<and> list_all (\<lambda>c. alphanumeric c \<or> c = CHR ''-'') s"

definition owner_name :: "string \<Rightarrow> bool" where
  "owner_name s \<longleftrightarrow> within 100 s \<and> list_all (\<lambda>c. alphanumeric c \<or> c \<in> set ''_.-'') s"

text \<open>
  \<open>REMOTE_PATTERN\<close>: a host that starts and ends with a letter or digit, an optional port, and two
  path segments.  None of the classes contains the separators, so splitting is what matching does.
\<close>

definition host_shape :: "string \<Rightarrow> bool" where
  "host_shape h \<longleftrightarrow>
     h \<noteq> [] \<and> alphanumeric (hd h) \<and> alphanumeric (last h) \<and> list_all (\<lambda>c. alphanumeric c \<or> c \<in> set ''._-'') h"

definition authority_shape :: "string \<Rightarrow> bool" where
  "authority_shape a =
     (case js_split (CHR '':'') a of
        [h] \<Rightarrow> host_shape h
      | [h, p] \<Rightarrow> host_shape h \<and> within 5 p \<and> list_all js_digit p
      | _ \<Rightarrow> False)"

definition remote_shape :: "string \<Rightarrow> bool" where
  "remote_shape s =
     (case js_split (CHR ''/'') s of
        [a, owner, name] \<Rightarrow> authority_shape a \<and> owner_name owner \<and> owner_name name
      | _ \<Rightarrow> False)"

definition github_remote :: "string \<Rightarrow> string \<Rightarrow> string" where
  "github_remote owner name = ''github.com/'' @ owner @ ''/'' @ name"

definition parseResolvedCheckout :: "resolved_checkout \<Rightarrow> string + resolved_checkout" where
  "parseResolvedCheckout r =
     (case parseCheckoutSelector (rc_selector r) of
        Inl e \<Rightarrow> Inl e
      | Inr _ \<Rightarrow>
          if \<not> repository_shape (rc_repositoryId r) \<or>
             \<not> owner_name (canonicalOwner r) \<or> \<not> owner_name (canonicalName r) \<or>
             \<not> full_sha (resolvedSha r) \<or>
             \<not> remote_shape (remoteFingerprint r) \<or>
             remoteFingerprint r \<noteq> github_remote (canonicalOwner r) (canonicalName r) \<or>
             resolvedAtMs r \<le> 0
          then Inl ''VALIDATION_FAILED'' else Inr r)"

section \<open>The capability gate\<close>

definition WORKSPACE_CAPABILITY_NAMES :: "string list" where
  "WORKSPACE_CAPABILITY_NAMES =
     [''workspace.create'', ''workspace.inspect'', ''workspace.cancel'', ''workspace.destroy'',
      ''isolation.process'', ''isolation.filesystem'', ''isolation.no_host_bind'', ''checkout.native'',
      ''checkout.sandboxed_git'', ''limits.cpu'', ''limits.memory'', ''limits.network'', ''limits.secrets'',
      ''limits.cancellation'']"

record capability_manifest =
  cm_provider :: string
  cm_providerVersion :: string
  cm_capabilities :: "(string \<times> bool) list"   \<comment> \<open>name and verified\<close>

record capability_profile =
  cp_name :: string
  cp_required :: "string list"
  cp_oneOf :: "string list option"

definition manifest_ok :: "capability_manifest \<Rightarrow> bool" where
  "manifest_ok m \<longleftrightarrow>
     within 64 (cm_provider m) \<and> within 128 (cm_providerVersion m) \<and>
     1 \<le> length (cm_capabilities m) \<and> length (cm_capabilities m) \<le> 64 \<and>
     list_all (\<lambda>c. fst c \<in> set WORKSPACE_CAPABILITY_NAMES) (cm_capabilities m) \<and>
     distinct (map fst (cm_capabilities m))"

definition DEFAULT_WORKSPACE_CAPABILITY_PROFILE :: capability_profile where
  "DEFAULT_WORKSPACE_CAPABILITY_PROFILE =
     \<lparr>cp_name = ''sandbox-workspace-v1'',
      cp_required = [''workspace.create'', ''workspace.inspect'', ''workspace.cancel'', ''workspace.destroy'',
        ''isolation.process'', ''isolation.filesystem'', ''isolation.no_host_bind'', ''limits.cpu'',
        ''limits.memory'', ''limits.network'', ''limits.secrets'', ''limits.cancellation''],
      cp_oneOf = Some [''checkout.native'', ''checkout.sandboxed_git'']\<rparr>"

datatype capability_decision =
    Cap_allowed string string string "string list"   \<comment> \<open>snapshot id, provider, version, checked\<close>
  | Cap_blocked string string string                 \<comment> \<open>capability, reason, code\<close>

definition capabilitySnapshotId :: "(string \<Rightarrow> string) \<Rightarrow> capability_manifest \<Rightarrow> string" where
  "capabilitySnapshotId sha m =
     (let verified = js_sort js_compare (map fst (filter snd (cm_capabilities m)))
      in sha (''provider='' @ cm_provider m @ ''|version='' @ cm_providerVersion m @ ''|'' @ js_join '','' verified))"

definition alternatives_of :: "capability_profile \<Rightarrow> string list" where
  "alternatives_of p = (case cp_oneOf p of None \<Rightarrow> [] | Some xs \<Rightarrow> xs)"

definition requireWorkspaceCapabilities ::
  "(string \<Rightarrow> string) \<Rightarrow> capability_manifest \<Rightarrow> capability_profile \<Rightarrow> capability_decision" where
  "requireWorkspaceCapabilities sha m profile =
     (if \<not> manifest_ok m then Cap_blocked ''manifest'' ''unsupported'' ''SANDBOX_CAPABILITY_UNSUPPORTED''
      else
        let claims = map_of (cm_capabilities m) in
        case find (\<lambda>c. fst c \<notin> set WORKSPACE_CAPABILITY_NAMES) (cm_capabilities m) of
          Some c \<Rightarrow> Cap_blocked (fst c) ''unsupported'' ''SANDBOX_CAPABILITY_UNSUPPORTED''
        | None \<Rightarrow>
        (case filter (\<lambda>c. claims c \<noteq> Some True) (cp_required profile) of
           c # _ \<Rightarrow>
             if c = ''isolation.process'' \<or> c = ''isolation.filesystem'' \<or> c = ''isolation.no_host_bind''
             then Cap_blocked c ''unverified'' ''SANDBOX_ISOLATION_UNVERIFIED''
             else Cap_blocked c ''unsupported'' ''SANDBOX_CAPABILITY_UNSUPPORTED''
         | [] \<Rightarrow>
             if alternatives_of profile \<noteq> [] \<and> \<not> list_ex (\<lambda>c. claims c = Some True) (alternatives_of profile)
             then Cap_blocked (js_join ''|'' (alternatives_of profile)) ''unsupported'' ''SANDBOX_CAPABILITY_UNSUPPORTED''
             else Cap_allowed (capabilitySnapshotId sha m) (cm_provider m) (cm_providerVersion m)
                    (cp_required profile @ alternatives_of profile)))"

section \<open>The checkout plan\<close>

datatype checkout_execution = Execution_native | Execution_sandboxed_git

definition SAFE_GIT_DIRECTIVES :: "(string \<times> string) list" where
  "SAFE_GIT_DIRECTIVES =
     [(''core.hooksPath'', ''''), (''filter.lfs.required'', ''false''), (''filter.lfs.process'', ''''),
      (''filter.lfs.smudge'', ''''), (''credential.helper'', ''''), (''submodule.recurse'', ''false''),
      (''protocol.allow'', ''never''), (''protocol.https.allow'', ''always''), (''core.autocrlf'', ''false'')]"

record safe_checkout_plan =
  pl_repositoryId :: string
  pl_remoteFingerprint :: string
  pl_sha :: string
  pl_execution :: checkout_execution
  pl_transport :: string
  pl_credentials :: string
  hostFilesystem :: bool
  pl_fetchPolicy :: string
  pl_submodulePolicy :: string
  pl_lfsPolicy :: string
  directives :: "(string \<times> string) list"

definition fingerprint_shape :: "string \<Rightarrow> bool" where
  "fingerprint_shape s =
     (case js_split (CHR ''/'') s of
        [h, owner, name] \<Rightarrow> h = ''github.com'' \<and> owner_name owner \<and> owner_name name
      | _ \<Rightarrow> False)"

definition buildSafeCheckoutPlan ::
  "string \<Rightarrow> string \<Rightarrow> string \<Rightarrow> checkout_execution \<Rightarrow> string + safe_checkout_plan" where
  "buildSafeCheckoutPlan repo remote sha ex =
     (if \<not> repository_shape repo \<or> \<not> full_sha sha \<or> \<not> fingerprint_shape remote then Inl ''VALIDATION_FAILED''
      else Inr
        \<lparr>pl_repositoryId = repo, pl_remoteFingerprint = remote, pl_sha = sha, pl_execution = ex,
         pl_transport = ''https_allowlist'', pl_credentials = ''in_memory_provider_secret'', hostFilesystem = False,
         pl_fetchPolicy = ''exact_sha'', pl_submodulePolicy = ''blocked'', pl_lfsPolicy = ''blocked'',
         directives = SAFE_GIT_DIRECTIVES\<rparr>)"

definition assertNoHostCheckout :: "safe_checkout_plan \<Rightarrow> string option" where
  "assertNoHostCheckout p = (if hostFilesystem p then Some ''SANDBOX_HOST_EXECUTION_BLOCKED'' else None)"

section \<open>Verification\<close>

record checkout_observation =
  observedHeadSha :: string
  observedRemoteFingerprint :: string
  ob_treeHash :: "string option"

datatype mismatch_kind = Head_sha | Remote_identity | Tree_hash | Unverified_head

fun mismatch_str :: "mismatch_kind \<Rightarrow> string" where
  "mismatch_str Head_sha = ''head_sha''"
| "mismatch_str Remote_identity = ''remote_identity''"
| "mismatch_str Tree_hash = ''tree_hash''"
| "mismatch_str Unverified_head = ''unverified_head''"

datatype verification_outcome =
    Verified "string list"
  | Mismatch mismatch_kind string string   \<comment> \<open>kind, expected, observed\<close>

definition verifyCheckout :: "resolved_checkout \<Rightarrow> checkout_observation \<Rightarrow> verification_outcome" where
  "verifyCheckout r ob =
     (if \<not> full_sha (observedHeadSha ob) then Mismatch Unverified_head (resolvedSha r) (observedHeadSha ob)
      else if observedHeadSha ob \<noteq> resolvedSha r then Mismatch Head_sha (resolvedSha r) (observedHeadSha ob)
      else if observedRemoteFingerprint ob \<noteq> remoteFingerprint r
        then Mismatch Remote_identity (resolvedSha r) (observedHeadSha ob)
      else if ob_treeHash ob = Some [] then Mismatch Tree_hash (resolvedSha r) (observedHeadSha ob)
      else Verified ([''head_sha'', ''remote_identity''] @
             (case ob_treeHash ob of None \<Rightarrow> [] | Some t \<Rightarrow> if t = [] then [] else [''tree_hash''])))"

record checkout_attestation =
  at_id :: string
  at_workspaceId :: string
  at_repositoryId :: string
  at_canonicalOwner :: string
  at_canonicalName :: string
  at_remoteFingerprint :: string
  at_requestedSelectorKind :: string
  at_requestedRef :: string
  at_resolvedSha :: string
  at_observedHeadSha :: string
  at_treeHash :: "string option"
  at_fetchPolicy :: string
  at_submodulePolicy :: string
  at_lfsPolicy :: string
  at_verifiedAtMs :: int

definition buildAttestation ::
  "string \<Rightarrow> string \<Rightarrow> resolved_checkout \<Rightarrow> checkout_observation \<Rightarrow> int \<Rightarrow> string + checkout_attestation" where
  "buildAttestation aid wid r ob t =
     (case verifyCheckout r ob of
        Mismatch _ _ _ \<Rightarrow> Inl ''CHECKOUT_MISMATCH''
      | Verified _ \<Rightarrow> Inr
          \<lparr>at_id = aid, at_workspaceId = wid, at_repositoryId = rc_repositoryId r, at_canonicalOwner = canonicalOwner r,
           at_canonicalName = canonicalName r, at_remoteFingerprint = remoteFingerprint r,
           at_requestedSelectorKind = selector_kind (rc_selector r), at_requestedRef = describeSelector (rc_selector r),
           at_resolvedSha = resolvedSha r, at_observedHeadSha = observedHeadSha ob, at_treeHash = ob_treeHash ob,
           at_fetchPolicy = ''exact_sha'', at_submodulePolicy = ''blocked'', at_lfsPolicy = ''blocked'',
           at_verifiedAtMs = t\<rparr>)"

section \<open>Fences and idempotency keys\<close>

record workspace_fence =
  fe_workspaceId :: string
  fe_runId :: string
  fe_generation :: int
  fe_leaseToken :: string
  fe_leaseExpiresAtMs :: int

definition isLeaseExpired :: "workspace_fence \<Rightarrow> int \<Rightarrow> bool" where
  "isLeaseExpired f now \<longleftrightarrow> fe_leaseExpiresAtMs f \<le> now"

definition fence_rejection :: "workspace_fence \<Rightarrow> workspace_fence \<Rightarrow> int \<Rightarrow> string option" where
  "fence_rejection expected actual now =
     (if fe_workspaceId expected \<noteq> fe_workspaceId actual then Some ''workspace id mismatch''
      else if fe_runId expected \<noteq> fe_runId actual then Some ''run id mismatch''
      else if fe_generation expected \<noteq> fe_generation actual then Some ''generation mismatch (stale worker)''
      else if fe_leaseToken expected \<noteq> fe_leaseToken actual then Some ''lease token mismatch (fenced worker)''
      else if isLeaseExpired actual now then Some ''lease expired'' else None)"

definition key_char :: "char \<Rightarrow> bool" where
  "key_char c \<longleftrightarrow> alphanumeric c \<or> c \<in> set ''._-''"

definition key_segment :: "string \<Rightarrow> bool" where
  "key_segment s \<longleftrightarrow> within 64 s \<and> list_all key_char s"

definition workspaceCreationKey :: "string \<Rightarrow> int \<Rightarrow> string option" where
  "workspaceCreationKey runId gen =
     (if key_segment runId then Some (''devguard/workspace/'' @ runId @ ''/v'' @ js_int_str gen) else None)"

definition workspaceDestroyKey :: "string \<Rightarrow> int \<Rightarrow> string option" where
  "workspaceDestroyKey wid gen =
     (if key_segment wid then Some (''devguard/workspace/'' @ wid @ '':destroy:v'' @ js_int_str gen) else None)"

text \<open>
  The two key patterns: the prefix, a non-empty run of key characters, the separator, and digits.
  The separators start with a character outside the class, so the longest run is the match.
\<close>

definition key_shape :: "string \<Rightarrow> string \<Rightarrow> bool" where
  "key_shape sep s =
     (let p = ''devguard/workspace/''; rest = drop (length p) s; seg = takeWhile key_char rest;
          tail = dropWhile key_char rest; ds = drop (length sep) tail
      in js_startsWith s p \<and> seg \<noteq> [] \<and> js_startsWith tail sep \<and> ds \<noteq> [] \<and> list_all js_digit ds)"

definition isWorkspaceCreationKey :: "string \<Rightarrow> bool" where
  "isWorkspaceCreationKey s = key_shape ''/v'' s"

definition isWorkspaceDestroyKey :: "string \<Rightarrow> bool" where
  "isWorkspaceDestroyKey s = key_shape '':destroy:v'' s"

section \<open>What the gate and the checks decide\<close>

definition claims_verified :: "capability_manifest \<Rightarrow> string \<Rightarrow> bool" where
  "claims_verified m c \<longleftrightarrow> (c, True) \<in> set (cm_capabilities m)"

lemma claims_verified_map: "manifest_ok m \<Longrightarrow> map_of (cm_capabilities m) c = Some True \<longleftrightarrow> claims_verified m c"
  by (simp add: claims_verified_def manifest_ok_def)

lemma manifest_known: "manifest_ok m \<Longrightarrow> find (\<lambda>c. fst c \<notin> set WORKSPACE_CAPABILITY_NAMES) (cm_capabilities m) = None"
  by (auto simp: manifest_ok_def find_None_iff list_all_iff)

lemma gate_allows:
  "(\<exists>s p v ch. requireWorkspaceCapabilities sha m profile = Cap_allowed s p v ch) \<longleftrightarrow>
     manifest_ok m \<and> list_all (claims_verified m) (cp_required profile) \<and>
     (alternatives_of profile = [] \<or> list_ex (claims_verified m) (alternatives_of profile))"
proof (cases "manifest_ok m")
  case True
  then show ?thesis
    by (cases "filter (\<lambda>c. map_of (cm_capabilities m) c \<noteq> Some True) (cp_required profile)")
       (auto simp: requireWorkspaceCapabilities_def manifest_known Let_def claims_verified_map filter_empty_conv
          list_all_iff list_ex_iff dest!: filter_eq_ConsD)
qed (simp add: requireWorkspaceCapabilities_def)

text \<open>
  The gate admits a provider exactly when its manifest is well formed, every required
  capability is claimed and verified, and one of the checkout channels is; a blocking answer
  names isolation only for an isolation claim.
\<close>

theorem capability_gate_exact:
  "((\<exists>s p v ch. requireWorkspaceCapabilities sha m DEFAULT_WORKSPACE_CAPABILITY_PROFILE = Cap_allowed s p v ch) \<longleftrightarrow>
     manifest_ok m \<and> list_all (claims_verified m) (cp_required DEFAULT_WORKSPACE_CAPABILITY_PROFILE) \<and>
     (claims_verified m ''checkout.native'' \<or> claims_verified m ''checkout.sandboxed_git''))"
  unfolding gate_allows by (simp add: alternatives_of_def DEFAULT_WORKSPACE_CAPABILITY_PROFILE_def)

end
