(* ===== verification/Workspace_Manager.thy ===== *)
theory Workspace_Manager
  imports Workspace_Checkout Port_Effects
begin

text \<open>
  The workspace manager, \<open>packages/sandbox/src/workspaces/manager.ts\<close> with the record shapes of
  \<open>state.ts\<close> and \<open>ports.ts\<close> and the event schemas of \<open>packages/sandbox/src/events.ts\<close>: \<open>create\<close>,
  \<open>inspect\<close>, \<open>renewLease\<close> and \<open>requestDestroy\<close> over arbitrary ports.  The store, the provider, the
  resolver, the probe, the attestation and the event sink may answer anything, throw and change
  the world; clock and fresh identifiers are readings of the world.  Log lines are not modelled.
\<close>

section \<open>Records\<close>

record workspace_record =
  wr_workspaceId :: string
  wr_runId :: string
  wr_sessionId :: "string option"
  wr_repositoryId :: string
  wr_selector :: checkout_selector
  wr_requestedRefKind :: string
  wr_requestedRef :: string
  wr_resolvedSha :: "string option"
  wr_verifiedHeadSha :: "string option"
  wr_providerWorkspaceId :: "string option"
  wr_providerVersion :: "string option"
  wr_capabilitySnapshotId :: "string option"
  wr_limitProfileId :: string
  wr_status :: workspace_status
  wr_generation :: int
  wr_leaseOwner :: "string option"
  wr_leaseToken :: "string option"
  wr_leaseExpiresAtMs :: "int option"
  wr_rowVersion :: int
  wr_createdAtMs :: int
  wr_readyAtMs :: "int option"
  wr_destroyedAtMs :: "int option"
  wr_failureCode :: "string option"
  wr_failureDetailRedacted :: "string option"

record transition_patch =
  tp_resolvedSha :: "string option"
  tp_verifiedHeadSha :: "string option"
  tp_providerWorkspaceId :: "string option"
  tp_providerVersion :: "string option"
  tp_capabilitySnapshotId :: "string option"
  tp_readyAtMs :: "int option"
  tp_destroyedAtMs :: "int option"
  tp_failureCode :: "string option"
  tp_failureDetail :: "string option"
  tp_leaseOwner :: "string option"
  tp_leaseToken :: "string option"
  tp_leaseExpiresAtMs :: "int option"

definition no_patch :: transition_patch where
  "no_patch =
     \<lparr>tp_resolvedSha = None, tp_verifiedHeadSha = None, tp_providerWorkspaceId = None, tp_providerVersion = None,
      tp_capabilitySnapshotId = None, tp_readyAtMs = None, tp_destroyedAtMs = None, tp_failureCode = None,
      tp_failureDetail = None, tp_leaseOwner = None, tp_leaseToken = None, tp_leaseExpiresAtMs = None\<rparr>"

record workspace_reservation =
  re_workspaceId :: string
  re_runId :: string
  re_sessionId :: "string option"
  re_repositoryId :: string
  re_selector :: checkout_selector
  re_limitProfileId :: string
  re_generation :: int
  re_leaseOwner :: string
  re_leaseToken :: string
  re_leaseExpiresAtMs :: int
  re_createdAtMs :: int

record transition_input =
  ti_workspaceId :: string
  ti_expectedRowVersion :: int
  ti_expectedStatus :: workspace_status
  ti_to :: workspace_status
  ti_trigger :: workspace_trigger
  ti_patch :: transition_patch

record lease_renewal =
  lr_workspaceId :: string
  lr_expectedLeaseToken :: string
  lr_newLeaseToken :: string
  lr_leaseExpiresAtMs :: int
  lr_rowVersion :: int

datatype provider_status = Pv_creating | Pv_ready | Pv_degraded | Pv_destroyed | Pv_unknown

fun provider_status_str :: "provider_status \<Rightarrow> string" where
  "provider_status_str Pv_creating = ''creating''"
| "provider_status_str Pv_ready = ''ready''"
| "provider_status_str Pv_degraded = ''degraded''"
| "provider_status_str Pv_destroyed = ''destroyed''"
| "provider_status_str Pv_unknown = ''unknown''"

record provider_snapshot =
  ps_status :: provider_status
  ps_observedHeadSha :: "string option"
  ps_observedRemoteFingerprint :: "string option"
  ps_treeHash :: "string option"

record provider_create =
  pc_idempotencyKey :: string
  pc_limitProfileId :: string
  pc_capabilitySnapshotId :: string
  pc_generation :: int
  pc_leaseToken :: string
  pc_leaseExpiresAtMs :: int
  pc_checkout :: safe_checkout_plan

record provider_created =
  pr_providerWorkspaceId :: string
  pr_created :: bool
  pr_snapshot :: provider_snapshot

record provider_destroy =
  pd_providerWorkspaceId :: string
  pd_idempotencyKey :: string
  pd_generation :: int
  pd_leaseToken :: string
  pd_leaseExpiresAtMs :: int

section \<open>Events\<close>

datatype sandbox_event =
    SE_requested string string string string          \<comment> \<open>workspace, run, ref kind, ref\<close>
  | SE_created string string string string string      \<comment> \<open>workspace, run, provider workspace, version, snapshot\<close>
  | SE_ready string string string string string        \<comment> \<open>workspace, run, resolved, verified, snapshot\<close>
  | SE_failed string string string string              \<comment> \<open>workspace, run, code, detail\<close>
  | SE_quarantined string string string                \<comment> \<open>workspace, run, reason\<close>
  | SE_destroy_requested string string int string      \<comment> \<open>workspace, run, generation, reason\<close>
  | SE_resolved string string string string            \<comment> \<open>workspace, ref kind, ref, resolved\<close>
  | SE_completed string string string string "string option"   \<comment> \<open>workspace, resolved, head, remote, tree\<close>
  | SE_verification_failed string string string string \<comment> \<open>workspace, expected, observed, kind\<close>

text \<open>\<open>[0-9A-HJKMNP-TV-Z]\<close>, and the two well-formed identifier shapes.\<close>

definition ulid_char :: "char \<Rightarrow> bool" where
  "ulid_char c \<longleftrightarrow> js_digit c \<or> (upper_letter c \<and> c \<notin> set ''ILOU'')"

definition uuid_shape :: "string \<Rightarrow> bool" where
  "uuid_shape s \<longleftrightarrow>
     length s = 36 \<and> list_all (\<lambda>i. s ! i = CHR ''-'') [8, 13, 18, 23] \<and>
     list_all (\<lambda>i. i \<in> {8, 13, 18, 23} \<or> hex_lower (s ! i)) [0..<36] \<and>
     s ! 14 \<in> set ''12345678'' \<and> s ! 19 \<in> set ''89ab''"

definition isWellFormedRecordId :: "string \<Rightarrow> bool" where
  "isWellFormedRecordId s \<longleftrightarrow> uuid_shape s \<or> (length s = 26 \<and> list_all ulid_char s)"

definition provider_handle :: "string \<Rightarrow> bool" where
  "provider_handle s \<longleftrightarrow> within 128 s \<and> alphanumeric (hd s) \<and> list_all (\<lambda>c. alphanumeric c \<or> c \<in> set '':_-'') (tl s)"

definition sha256_hex :: "string \<Rightarrow> bool" where
  "sha256_hex s \<longleftrightarrow> length s = 64 \<and> list_all hex_lower s"

definition ref_kind_ok :: "string \<Rightarrow> bool" where
  "ref_kind_ok k \<longleftrightarrow> k \<in> {''commit'', ''branch'', ''tag'', ''pull_request_head''}"

fun event_payload_ok :: "sandbox_event \<Rightarrow> bool" where
  "event_payload_ok (SE_requested w r k f) = (isWellFormedRecordId w \<and> within 128 r \<and> ref_kind_ok k \<and> within 256 f)"
| "event_payload_ok (SE_created w r p v c) =
     (isWellFormedRecordId w \<and> within 128 r \<and> provider_handle p \<and> within 128 v \<and> sha256_hex c)"
| "event_payload_ok (SE_ready w r s h c) =
     (isWellFormedRecordId w \<and> within 128 r \<and> full_sha s \<and> full_sha h \<and> sha256_hex c)"
| "event_payload_ok (SE_failed w r c d) = (isWellFormedRecordId w \<and> within 128 r \<and> within 64 c \<and> length d \<le> 400)"
| "event_payload_ok (SE_quarantined w r e) = (isWellFormedRecordId w \<and> within 128 r \<and> within 200 e)"
| "event_payload_ok (SE_destroy_requested w r n e) = (isWellFormedRecordId w \<and> within 128 r \<and> 0 \<le> n \<and> within 64 e)"
| "event_payload_ok (SE_resolved w k f s) = (isWellFormedRecordId w \<and> ref_kind_ok k \<and> within 256 f \<and> full_sha s)"
| "event_payload_ok (SE_completed w s h m t) =
     (isWellFormedRecordId w \<and> full_sha s \<and> full_sha h \<and> within 128 m \<and>
      (case t of None \<Rightarrow> True | Some x \<Rightarrow> length x \<le> 128))"
| "event_payload_ok (SE_verification_failed w e b k) =
     (isWellFormedRecordId w \<and> full_sha e \<and> length b \<le> 128 \<and> within 64 k)"

section \<open>Ports\<close>

datatype workspace_call =
    W_Load string
  | W_LoadByRunId string
  | W_Reserve workspace_reservation
  | W_TryTransition transition_input
  | W_RenewLease lease_renewal
  | W_Probe
  | W_Resolve string checkout_selector int
  | W_ProviderCreate provider_create
  | W_ProviderDestroy provider_destroy
  | W_Attest checkout_attestation
  | W_Emit sandbox_event
  | W_Fence workspace_fence workspace_fence int   \<comment> \<open>\<open>assertFenceCurrent(expected, actual, now)\<close>\<close>

record 'w workspace_ports =
  wp_load :: "string \<Rightarrow> ('w, workspace_record) port"
  wp_loadByRunId :: "string \<Rightarrow> ('w, workspace_record option) port"
  wp_reserve :: "workspace_reservation \<Rightarrow> ('w, workspace_record) port"
  wp_tryTransition :: "transition_input \<Rightarrow> ('w, bool \<times> workspace_record) port"
  wp_renewLease :: "lease_renewal \<Rightarrow> ('w, bool \<times> workspace_record) port"
  wp_probe :: "('w, capability_manifest) port"
  wp_resolve :: "string \<Rightarrow> checkout_selector \<Rightarrow> int \<Rightarrow> ('w, resolved_checkout) port"
  wp_create :: "provider_create \<Rightarrow> ('w, provider_created) port"
  wp_destroy :: "provider_destroy \<Rightarrow> ('w, bool) port"   \<comment> \<open>the \<open>destroyed\<close> flag\<close>
  wp_attest :: "checkout_attestation \<Rightarrow> ('w, unit) port"
  wp_emit :: "sandbox_event \<Rightarrow> ('w, unit) port"
  wp_now :: "'w \<Rightarrow> int"
  wp_workspaceUuid :: "'w \<Rightarrow> string"
  wp_leaseToken :: "'w \<Rightarrow> string"
  wp_attestationUuid :: "'w \<Rightarrow> string"

record manager_options =
  leaseTtlMs :: int
  checkoutExecution :: checkout_execution

record create_workspace_input =
  ci_runId :: string
  ci_sessionId :: "string option"
  ci_repositoryId :: string
  ci_selector :: checkout_selector
  ci_limitProfileId :: string
  ci_nowMs :: int

record workspace_ref =
  rf_workspaceId :: string
  rf_runId :: string
  rf_sessionId :: "string option"
  rf_repositoryId :: string
  rf_resolvedSha :: "string option"
  rf_generation :: int
  rf_capabilitySnapshotId :: "string option"
  rf_status :: workspace_status
  rf_createdAtMs :: int

record workspace_status_view =
  sv_workspaceId :: string
  sv_status :: workspace_status
  sv_providerWorkspaceId :: "string option"
  sv_resolvedSha :: "string option"
  sv_verifiedHeadSha :: "string option"
  sv_providerVersion :: "string option"
  sv_failureCode :: "string option"
  sv_leaseExpiresAtMs :: "int option"
  sv_readyAtMs :: "int option"
  sv_cleanupRequired :: bool

datatype destroy_outcome = Outcome_destroyed | Outcome_pending_cleanup | Outcome_quarantined

definition DESTROY_REASONS :: "string list" where
  "DESTROY_REASONS =
     [''run_complete'', ''run_cancelled'', ''run_failed'', ''lease_expired'', ''cleanup'', ''quarantine'', ''maintenance'']"

definition fenceOf :: "workspace_record \<Rightarrow> workspace_fence" where
  "fenceOf r =
     \<lparr>fe_workspaceId = wr_workspaceId r, fe_runId = wr_runId r, fe_generation = wr_generation r,
      fe_leaseToken = (case wr_leaseToken r of None \<Rightarrow> [] | Some t \<Rightarrow> t),
      fe_leaseExpiresAtMs = (case wr_leaseExpiresAtMs r of None \<Rightarrow> 0 | Some t \<Rightarrow> t)\<rparr>"

definition bindingMismatch :: "workspace_record \<Rightarrow> create_workspace_input \<Rightarrow> string option" where
  "bindingMismatch e i =
     (if wr_repositoryId e \<noteq> ci_repositoryId i then Some ''repositoryId''
      else if wr_limitProfileId e \<noteq> ci_limitProfileId i then Some ''limitProfileId''
      else if wr_sessionId e \<noteq> ci_sessionId i then Some ''sessionId''
      else if json_text (selector_json (wr_selector e)) \<noteq> json_text (selector_json (ci_selector i)) then Some ''selector''
      else None)"

definition toRef :: "workspace_record \<Rightarrow> workspace_ref" where
  "toRef r =
     \<lparr>rf_workspaceId = wr_workspaceId r, rf_runId = wr_runId r, rf_sessionId = wr_sessionId r,
      rf_repositoryId = wr_repositoryId r, rf_resolvedSha = wr_resolvedSha r, rf_generation = wr_generation r,
      rf_capabilitySnapshotId = wr_capabilitySnapshotId r, rf_status = wr_status r, rf_createdAtMs = wr_createdAtMs r\<rparr>"

definition toStatusView :: "workspace_record \<Rightarrow> workspace_status_view" where
  "toStatusView r =
     \<lparr>sv_workspaceId = wr_workspaceId r, sv_status = wr_status r, sv_providerWorkspaceId = wr_providerWorkspaceId r,
      sv_resolvedSha = wr_resolvedSha r, sv_verifiedHeadSha = wr_verifiedHeadSha r,
      sv_providerVersion = wr_providerVersion r, sv_failureCode = wr_failureCode r,
      sv_leaseExpiresAtMs = wr_leaseExpiresAtMs r, sv_readyAtMs = wr_readyAtMs r,
      sv_cleanupRequired = workspaceCleanupRequired (wr_status r)\<rparr>"

definition observationOf :: "provider_snapshot \<Rightarrow> checkout_observation" where
  "observationOf s =
     \<lparr>observedHeadSha = (case ps_observedHeadSha s of None \<Rightarrow> [] | Some x \<Rightarrow> x),
      observedRemoteFingerprint = (case ps_observedRemoteFingerprint s of None \<Rightarrow> [] | Some x \<Rightarrow> x),
      ob_treeHash = ps_treeHash s\<rparr>"

section \<open>Internals\<close>

definition boundary_ids_ok :: "create_workspace_input \<Rightarrow> bool" where
  "boundary_ids_ok i \<longleftrightarrow>
     isWellFormedRecordId (ci_runId i) \<and> isWellFormedRecordId (ci_repositoryId i) \<and>
     (case ci_sessionId i of None \<Rightarrow> True | Some s \<Rightarrow> isWellFormedRecordId s)"

text \<open>
  The fence check reads the clock and answers or throws; it is listed among the calls with the
  fence of the record, the fence held and the time it compared.
\<close>

definition assertCurrent ::
  "'w workspace_ports \<Rightarrow> workspace_record \<Rightarrow> workspace_fence \<Rightarrow> ('w, workspace_call, unit) eff" where
  "assertCurrent ports r fence =
     readE (wp_now ports) (\<lambda>now.
       callE (W_Fence (fenceOf r) fence now) (\<lambda>w.
         (w, case fence_rejection (fenceOf r) fence now of
               Some _ \<Rightarrow> Inl (MadeError ''WORKSPACE_FENCE_REJECTED'')
             | None \<Rightarrow> Inr ())))"

text \<open>The envelope is built, and its payload validated, outside the \<open>try\<close> around the sink.\<close>

definition emitEvent :: "'w workspace_ports \<Rightarrow> sandbox_event \<Rightarrow> ('w, workspace_call, unit) eff" where
  "emitEvent ports ev =
     (if event_payload_ok ev then swallowE (callE (W_Emit ev) (wp_emit ports ev))
      else throwE (ErrorClass ''ZodError'' []))"

definition no_guards :: workspace_guards where
  "no_guards =
     \<lparr>fenceValid = None, cancellationRequested = None, capabilitiesVerified = None, providerWorkspaceCreated = None,
      safeCheckoutApplied = None, headMatchesResolvedSha = None, remoteIdentityVerified = None,
      attestationComplete = None, verificationFailed = None, failureKnown = None, providerAmbiguity = None,
      providerProvesDestroyed = None, cleanupAttemptsExhausted = None\<rparr>"

definition transition_ws ::
  "'w workspace_ports \<Rightarrow> workspace_record \<Rightarrow> workspace_fence \<Rightarrow> workspace_trigger \<Rightarrow> workspace_guards \<Rightarrow>
   transition_patch \<Rightarrow> ('w, workspace_call, workspace_record) eff" where
  "transition_ws ports r fence t gs patch =
     bindE (assertCurrent ports r fence) (\<lambda>_.
       case transitionWorkspace (wr_status r) t (gs\<lparr>fenceValid := Some True\<rparr>) of
         Inl code \<Rightarrow> throwE (MadeError code)
       | Inr to \<Rightarrow>
           (let ti = \<lparr>ti_workspaceId = wr_workspaceId r, ti_expectedRowVersion = wr_rowVersion r,
                      ti_expectedStatus = wr_status r, ti_to = to, ti_trigger = t, ti_patch = patch\<rparr>
            in bindE (callE (W_TryTransition ti) (wp_tryTransition ports ti)) (\<lambda>res.
                 if fst res then retE (snd res) else throwE (MadeError ''VERSION_CONFLICT''))))"

definition markFailed ::
  "'w workspace_ports \<Rightarrow> workspace_record \<Rightarrow> workspace_fence \<Rightarrow> string \<Rightarrow> string \<Rightarrow> ('w, workspace_call, unit) eff" where
  "markFailed ports r fence code detail =
     swallowE
       (bindE (transition_ws ports r fence Ws_fail (no_guards\<lparr>failureKnown := Some True\<rparr>)
                 (no_patch\<lparr>tp_failureCode := Some code, tp_failureDetail := Some detail\<rparr>))
          (\<lambda>_. emitEvent ports (SE_failed (wr_workspaceId r) (wr_runId r) code detail)))"

definition markAmbiguous ::
  "'w workspace_ports \<Rightarrow> workspace_record \<Rightarrow> workspace_fence \<Rightarrow> string \<Rightarrow> ('w, workspace_call, workspace_record) eff" where
  "markAmbiguous ports r fence detail =
     bindE (transition_ws ports r fence Ws_quarantine (no_guards\<lparr>providerAmbiguity := Some True\<rparr>)
              (no_patch\<lparr>tp_failureCode := Some ''WORKSPACE_QUARANTINED'', tp_failureDetail := Some detail\<rparr>))
       (\<lambda>quarantined. bindE (emitEvent ports (SE_quarantined (wr_workspaceId r) (wr_runId r) detail))
          (\<lambda>_. retE quarantined))"

definition providerCreate ::
  "'w workspace_ports \<Rightarrow> workspace_record \<Rightarrow> workspace_fence \<Rightarrow> provider_create \<Rightarrow>
   ('w, workspace_call, provider_created) eff" where
  "providerCreate ports r fence pc =
     bindE (assertCurrent ports r fence) (\<lambda>_.
     bindE (catchE (callE (W_ProviderCreate pc) (wp_create ports pc))
              (\<lambda>cause. bindE (markAmbiguous ports r fence ''provider create outcome ambiguous (rejection/timeout)'')
                 (\<lambda>_. throwE cause))) (\<lambda>result.
     bindE (assertCurrent ports r fence) (\<lambda>_. retE result)))"

definition providerDestroy ::
  "'w workspace_ports \<Rightarrow> workspace_record \<Rightarrow> workspace_fence \<Rightarrow> provider_destroy \<Rightarrow> ('w, workspace_call, bool) eff" where
  "providerDestroy ports r fence pd =
     bindE (assertCurrent ports r fence) (\<lambda>_.
     bindE (callE (W_ProviderDestroy pd) (wp_destroy ports pd)) (\<lambda>destroyed.
     bindE (assertCurrent ports r fence) (\<lambda>_. retE destroyed)))"

section \<open>Creation\<close>

definition required_capability :: "checkout_execution \<Rightarrow> string" where
  "required_capability ex = (if ex = Execution_native then ''checkout.native'' else ''checkout.sandboxed_git'')"

text \<open>The capability gate of \<open>create\<close>; the result is the snapshot id and the provider version.\<close>

definition gate_capabilities ::
  "(string \<Rightarrow> string) \<Rightarrow> 'w workspace_ports \<Rightarrow> manager_options \<Rightarrow> workspace_record \<Rightarrow> workspace_fence \<Rightarrow>
   ('w, workspace_call, string \<times> string) eff" where
  "gate_capabilities sha ports opts r fence =
     bindE (callE W_Probe (wp_probe ports)) (\<lambda>manifest.
       case requireWorkspaceCapabilities sha manifest DEFAULT_WORKSPACE_CAPABILITY_PROFILE of
         Cap_blocked c reason code \<Rightarrow>
           bindE (markFailed ports r fence code (''capability '' @ quoted c @ '' is '' @ reason))
             (\<lambda>_. throwE (MadeError code))
       | Cap_allowed snapshot _ version _ \<Rightarrow>
           if (required_capability (checkoutExecution opts), True) \<in> set (cm_capabilities manifest)
           then retE (snapshot, version)
           else bindE (markFailed ports r fence ''SANDBOX_CAPABILITY_UNSUPPORTED''
                         (required_capability (checkoutExecution opts) @ '' unverified''))
                  (\<lambda>_. throwE (MadeError ''SANDBOX_CAPABILITY_UNSUPPORTED'')))"

definition fetch_resolution ::
  "'w workspace_ports \<Rightarrow> create_workspace_input \<Rightarrow> workspace_record \<Rightarrow> workspace_fence \<Rightarrow>
   ('w, workspace_call, resolved_checkout) eff" where
  "fetch_resolution ports i r fence =
     catchE
       (bindE (callE (W_Resolve (ci_repositoryId i) (ci_selector i) (ci_nowMs i))
                     (wp_resolve ports (ci_repositoryId i) (ci_selector i) (ci_nowMs i)))
          (\<lambda>answer. case parseResolvedCheckout answer of
             Inl code \<Rightarrow> throwE (MadeError code) | Inr resolved \<Rightarrow> retE resolved))
       (\<lambda>cause. bindE (markFailed ports r fence ''REF_CHANGED'' ''ref resolution failed'') (\<lambda>_. throwE cause))"

definition resolve_ref ::
  "'w workspace_ports \<Rightarrow> create_workspace_input \<Rightarrow> workspace_record \<Rightarrow> workspace_fence \<Rightarrow> string \<Rightarrow>
   ('w, workspace_call, resolved_checkout) eff" where
  "resolve_ref ports i r fence wid =
     bindE (fetch_resolution ports i r fence) (\<lambda>resolved.
       if expectedShaOf (ci_selector i) \<notin> {None, Some (resolvedSha resolved)}
       then bindE (markFailed ports r fence ''REF_CHANGED'' ''selector moved during resolution'')
              (\<lambda>_. throwE (MadeError ''REF_CHANGED''))
       else bindE (emitEvent ports (SE_resolved wid (selector_kind (ci_selector i)) (describeSelector (ci_selector i))
                     (resolvedSha resolved)))
              (\<lambda>_. retE resolved))"

definition create_request ::
  "workspace_record \<Rightarrow> workspace_fence \<Rightarrow> string \<Rightarrow> string \<Rightarrow> safe_checkout_plan \<Rightarrow> provider_create" where
  "create_request r fence snapshot key plan =
     \<lparr>pc_idempotencyKey = key, pc_limitProfileId = wr_limitProfileId r, pc_capabilitySnapshotId = snapshot,
      pc_generation = wr_generation r, pc_leaseToken = fe_leaseToken fence,
      pc_leaseExpiresAtMs = fe_leaseExpiresAtMs fence, pc_checkout = plan\<rparr>"

definition quarantine_created ::
  "'w workspace_ports \<Rightarrow> create_workspace_input \<Rightarrow> workspace_record \<Rightarrow> workspace_fence \<Rightarrow> string \<Rightarrow> provider_created \<Rightarrow>
   ('w, workspace_call, 'a) eff" where
  "quarantine_created ports i r fence wid created =
     (let reason = ''provider status '' @ provider_status_str (ps_status (pr_snapshot created)) in
      bindE (transition_ws ports r fence Ws_quarantine (no_guards\<lparr>providerAmbiguity := Some True\<rparr>)
               (no_patch\<lparr>tp_providerWorkspaceId := Some (pr_providerWorkspaceId created),
                         tp_failureCode := Some ''WORKSPACE_QUARANTINED'', tp_failureDetail := Some reason\<rparr>)) (\<lambda>_.
      bindE (emitEvent ports (SE_quarantined wid (ci_runId i) reason)) (\<lambda>_.
      throwE (MadeError ''WORKSPACE_QUARANTINED''))))"

definition provision_with ::
  "'w workspace_ports \<Rightarrow> create_workspace_input \<Rightarrow> workspace_record \<Rightarrow> workspace_fence \<Rightarrow> string \<Rightarrow> string \<times> string \<Rightarrow>
   string \<Rightarrow> safe_checkout_plan \<Rightarrow> ('w, workspace_call, workspace_record \<times> provider_created) eff" where
  "provision_with ports i r fence wid cap key plan =
     bindE (providerCreate ports r fence (create_request r fence (fst cap) key plan)) (\<lambda>created.
     if ps_status (pr_snapshot created) \<noteq> Pv_ready then quarantine_created ports i r fence wid created
     else
     bindE (transition_ws ports r fence Provision_complete (no_guards\<lparr>providerWorkspaceCreated := Some True\<rparr>)
              (no_patch\<lparr>tp_providerWorkspaceId := Some (pr_providerWorkspaceId created)\<rparr>)) (\<lambda>r'.
     bindE (emitEvent ports (SE_created wid (ci_runId i) (pr_providerWorkspaceId created) (snd cap) (fst cap))) (\<lambda>_.
     retE (r', created))))"

definition key_shape_error :: "string \<Rightarrow> js_error" where
  "key_shape_error key =
     ErrorClass ''TypeError'' (''unexpected sandbox idempotency key shape: '' @ js_nat_str (length key) @ '' chars'')"

definition provision_planned ::
  "'w workspace_ports \<Rightarrow> manager_options \<Rightarrow> create_workspace_input \<Rightarrow> workspace_record \<Rightarrow> workspace_fence \<Rightarrow> string \<Rightarrow>
   string \<times> string \<Rightarrow> resolved_checkout \<Rightarrow> ('w, workspace_call, workspace_record \<times> provider_created) eff" where
  "provision_planned ports opts i r fence wid cap resolved =
     (case buildSafeCheckoutPlan (ci_repositoryId i) (remoteFingerprint resolved) (resolvedSha resolved) (checkoutExecution opts) of
        Inl code \<Rightarrow> throwE (MadeError code)
      | Inr plan \<Rightarrow>
     case assertNoHostCheckout plan of
       Some code \<Rightarrow> throwE (MadeError code)
     | None \<Rightarrow>
     case workspaceCreationKey (ci_runId i) (wr_generation r) of
       None \<Rightarrow> throwE (ErrorClass ''TypeError'' ''runId shape is not usable in an idempotency key'')
     | Some key \<Rightarrow>
     if \<not> isWorkspaceCreationKey key \<and> \<not> isWorkspaceDestroyKey key then throwE (key_shape_error key)
     else provision_with ports i r fence wid cap key plan)"

definition begin_patch :: "string \<times> string \<Rightarrow> resolved_checkout \<Rightarrow> transition_patch" where
  "begin_patch cap resolved =
     no_patch\<lparr>tp_resolvedSha := Some (resolvedSha resolved), tp_capabilitySnapshotId := Some (fst cap),
              tp_providerVersion := Some (snd cap)\<rparr>"

definition provision ::
  "'w workspace_ports \<Rightarrow> manager_options \<Rightarrow> create_workspace_input \<Rightarrow> workspace_record \<Rightarrow> workspace_fence \<Rightarrow> string \<Rightarrow>
   string \<times> string \<Rightarrow> resolved_checkout \<Rightarrow> ('w, workspace_call, workspace_record \<times> provider_created) eff" where
  "provision ports opts i r0 fence wid cap resolved =
     bindE (transition_ws ports r0 fence Begin_provisioning (no_guards\<lparr>capabilitiesVerified := Some True\<rparr>)
              (begin_patch cap resolved))
       (\<lambda>r. provision_planned ports opts i r fence wid cap resolved)"

definition check_out ::
  "'w workspace_ports \<Rightarrow> create_workspace_input \<Rightarrow> workspace_record \<Rightarrow> workspace_fence \<Rightarrow> string \<Rightarrow>
   resolved_checkout \<Rightarrow> provider_created \<Rightarrow> ('w, workspace_call, workspace_record) eff" where
  "check_out ports i r0 fence wid resolved created =
     (let observation = observationOf (pr_snapshot created) in
      bindE (transition_ws ports r0 fence Checkout_complete (no_guards\<lparr>safeCheckoutApplied := Some True\<rparr>)
               (no_patch\<lparr>tp_providerWorkspaceId := Some (pr_providerWorkspaceId created)\<rparr>)) (\<lambda>r.
      case verifyCheckout resolved observation of
        Verified _ \<Rightarrow> retE r
      | Mismatch kind expected observed \<Rightarrow>
          bindE (transition_ws ports r fence Verify_fail (no_guards\<lparr>verificationFailed := Some True\<rparr>)
                   (no_patch\<lparr>tp_verifiedHeadSha := Some (observedHeadSha observation),
                             tp_failureCode := Some ''CHECKOUT_MISMATCH'',
                             tp_failureDetail := Some (''mismatch kind: '' @ mismatch_str kind)\<rparr>)) (\<lambda>_.
          bindE (emitEvent ports (SE_verification_failed wid expected observed (mismatch_str kind))) (\<lambda>_.
          bindE (emitEvent ports (SE_quarantined wid (ci_runId i) (''checkout '' @ mismatch_str kind))) (\<lambda>_.
          throwE (MadeError ''CHECKOUT_MISMATCH''))))))"

definition verified_patch :: "provider_created \<Rightarrow> transition_patch" where
  "verified_patch created =
     no_patch\<lparr>tp_verifiedHeadSha := Some (observedHeadSha (observationOf (pr_snapshot created))),
              tp_providerWorkspaceId := Some (pr_providerWorkspaceId created)\<rparr>"

definition record_attestation ::
  "'w workspace_ports \<Rightarrow> create_workspace_input \<Rightarrow> workspace_record \<Rightarrow> workspace_fence \<Rightarrow> string \<Rightarrow>
   provider_created \<Rightarrow> checkout_attestation \<Rightarrow> ('w, workspace_call, unit) eff" where
  "record_attestation ports i r fence wid created att =
     catchE (callE (W_Attest att) (wp_attest ports att)) (\<lambda>cause.
       bindE (transition_ws ports r fence Ws_fail (no_guards\<lparr>failureKnown := Some True\<rparr>)
                ((verified_patch created)\<lparr>tp_failureCode := Some ''CHECKOUT_ATTESTATION_FAILED'',
                   tp_failureDetail := Some ''attestation persistence failed after verification''\<rparr>)) (\<lambda>_.
       bindE (emitEvent ports (SE_failed wid (ci_runId i) ''CHECKOUT_ATTESTATION_FAILED''
                ''attestation persistence failed after verification'')) (\<lambda>_.
       throwE cause)))"

definition finish_ready ::
  "'w workspace_ports \<Rightarrow> create_workspace_input \<Rightarrow> workspace_record \<Rightarrow> workspace_fence \<Rightarrow> string \<Rightarrow> string \<Rightarrow>
   resolved_checkout \<Rightarrow> provider_created \<Rightarrow> ('w, workspace_call, workspace_record) eff" where
  "finish_ready ports i r fence wid snapshot resolved created =
     (let observation = observationOf (pr_snapshot created) in
      bindE (transition_ws ports r fence Verify_ok
               (no_guards\<lparr>headMatchesResolvedSha := Some True, remoteIdentityVerified := Some True,
                          attestationComplete := Some True\<rparr>)
               ((verified_patch created)\<lparr>tp_readyAtMs := Some (ci_nowMs i)\<rparr>)) (\<lambda>r'.
      bindE (emitEvent ports (SE_completed wid (resolvedSha resolved) (observedHeadSha observation)
               (remoteFingerprint resolved) (ob_treeHash observation))) (\<lambda>_.
      bindE (emitEvent ports (SE_ready wid (ci_runId i) (resolvedSha resolved) (observedHeadSha observation) snapshot)) (\<lambda>_.
      retE r'))))"

definition attest_and_ready ::
  "'w workspace_ports \<Rightarrow> create_workspace_input \<Rightarrow> workspace_record \<Rightarrow> workspace_fence \<Rightarrow> string \<Rightarrow> string \<Rightarrow>
   resolved_checkout \<Rightarrow> provider_created \<Rightarrow> ('w, workspace_call, workspace_record) eff" where
  "attest_and_ready ports i r fence wid snapshot resolved created =
     readE (wp_attestationUuid ports) (\<lambda>aid.
     if \<not> isWellFormedRecordId aid then throwE (ErrorClass ''ZodError'' [])
     else case buildAttestation aid wid resolved (observationOf (pr_snapshot created)) (ci_nowMs i) of
       Inl code \<Rightarrow> throwE (MadeError code)
     | Inr att \<Rightarrow>
         bindE (record_attestation ports i r fence wid created att) (\<lambda>_.
           finish_ready ports i r fence wid snapshot resolved created))"

definition reservation_of ::
  "manager_options \<Rightarrow> create_workspace_input \<Rightarrow> string \<Rightarrow> string \<Rightarrow> workspace_reservation" where
  "reservation_of opts i wid token =
     \<lparr>re_workspaceId = wid, re_runId = ci_runId i, re_sessionId = ci_sessionId i, re_repositoryId = ci_repositoryId i,
      re_selector = ci_selector i, re_limitProfileId = ci_limitProfileId i, re_generation = 1, re_leaseOwner = ''worker'',
      re_leaseToken = token, re_leaseExpiresAtMs = ci_nowMs i + leaseTtlMs opts, re_createdAtMs = ci_nowMs i\<rparr>"

definition create_reserved ::
  "(string \<Rightarrow> string) \<Rightarrow> 'w workspace_ports \<Rightarrow> manager_options \<Rightarrow> create_workspace_input \<Rightarrow> string \<Rightarrow> string \<Rightarrow>
   ('w, workspace_call, workspace_ref) eff" where
  "create_reserved sha ports opts i wid token =
     bindE (callE (W_Reserve (reservation_of opts i wid token)) (wp_reserve ports (reservation_of opts i wid token))) (\<lambda>r.
     let fence = fenceOf r in
     bindE (emitEvent ports (SE_requested wid (ci_runId i) (selector_kind (ci_selector i)) (describeSelector (ci_selector i)))) (\<lambda>_.
     bindE (gate_capabilities sha ports opts r fence) (\<lambda>cap.
     bindE (resolve_ref ports i r fence wid) (\<lambda>resolved.
     bindE (provision ports opts i r fence wid cap resolved) (\<lambda>rc.
     bindE (check_out ports i (fst rc) fence wid resolved (snd rc)) (\<lambda>r2.
     bindE (attest_and_ready ports i r2 fence wid (fst cap) resolved (snd rc)) (\<lambda>r3.
     retE (toRef r3))))))))"

definition create ::
  "(string \<Rightarrow> string) \<Rightarrow> 'w workspace_ports \<Rightarrow> manager_options \<Rightarrow> create_workspace_input \<Rightarrow>
   ('w, workspace_call, workspace_ref) eff" where
  "create sha ports opts i =
     (if \<not> selector_ok (ci_selector i) then throwE (MadeError ''VALIDATION_FAILED'')
      else if \<not> boundary_ids_ok i then throwE (MadeError ''VALIDATION_FAILED'')
      else
      bindE (callE (W_LoadByRunId (ci_runId i)) (wp_loadByRunId ports (ci_runId i))) (\<lambda>existing.
      case existing of
        Some e \<Rightarrow>
          (case bindingMismatch e i of
             Some _ \<Rightarrow> throwE (MadeError ''WORKSPACE_REPLAY_MISMATCH'')
           | None \<Rightarrow> retE (toRef e))
      | None \<Rightarrow>
          readE (wp_workspaceUuid ports) (\<lambda>wid.
          if \<not> isWellFormedRecordId wid then throwE (ErrorClass ''ZodError'' [])
          else readE (wp_leaseToken ports) (\<lambda>token. create_reserved sha ports opts i wid token))))"

section \<open>Inspection, renewal and destruction\<close>

definition inspect :: "'w workspace_ports \<Rightarrow> string \<Rightarrow> ('w, workspace_call, workspace_status_view) eff" where
  "inspect ports wid = bindE (callE (W_Load wid) (wp_load ports wid)) (\<lambda>r. retE (toStatusView r))"

definition renewLease ::
  "'w workspace_ports \<Rightarrow> manager_options \<Rightarrow> string \<Rightarrow> workspace_fence \<Rightarrow> ('w, workspace_call, workspace_fence) eff" where
  "renewLease ports opts wid fence =
     bindE (callE (W_Load wid) (wp_load ports wid)) (\<lambda>r.
     bindE (assertCurrent ports r fence) (\<lambda>_.
     readE (\<lambda>w. (wp_leaseToken ports w, wp_now ports w + leaseTtlMs opts)) (\<lambda>(token, expires).
     let lr = \<lparr>lr_workspaceId = wid, lr_expectedLeaseToken = fe_leaseToken fence, lr_newLeaseToken = token,
               lr_leaseExpiresAtMs = expires, lr_rowVersion = wr_rowVersion r\<rparr> in
     bindE (callE (W_RenewLease lr) (wp_renewLease ports lr)) (\<lambda>res.
     if \<not> fst res then throwE (MadeError ''WORKSPACE_FENCE_REJECTED'')
     else retE \<lparr>fe_workspaceId = wid, fe_runId = wr_runId r, fe_generation = wr_generation r,
                fe_leaseToken = token, fe_leaseExpiresAtMs = expires\<rparr>))))"

definition confirm_destroyed ::
  "'w workspace_ports \<Rightarrow> workspace_record \<Rightarrow> workspace_fence \<Rightarrow> ('w, workspace_call, destroy_outcome) eff" where
  "confirm_destroyed ports r fence =
     readE (wp_now ports) (\<lambda>now.
     bindE (transition_ws ports r fence Destroy_confirmed (no_guards\<lparr>providerProvesDestroyed := Some True\<rparr>)
              (no_patch\<lparr>tp_destroyedAtMs := Some now\<rparr>)) (\<lambda>_. retE Outcome_destroyed))"

definition destroy_request :: "workspace_record \<Rightarrow> workspace_fence \<Rightarrow> string \<Rightarrow> string \<Rightarrow> provider_destroy" where
  "destroy_request r fence key pid =
     \<lparr>pd_providerWorkspaceId = pid, pd_idempotencyKey = key, pd_generation = wr_generation r,
      pd_leaseToken = fe_leaseToken fence, pd_leaseExpiresAtMs = fe_leaseExpiresAtMs fence\<rparr>"

definition quarantine_undestroyed ::
  "'w workspace_ports \<Rightarrow> string \<Rightarrow> workspace_record \<Rightarrow> workspace_fence \<Rightarrow> ('w, workspace_call, destroy_outcome) eff" where
  "quarantine_undestroyed ports wid r fence =
     bindE (transition_ws ports r fence Destroy_uncertain
              (no_guards\<lparr>providerProvesDestroyed := Some False, cleanupAttemptsExhausted := Some True\<rparr>)
              (no_patch\<lparr>tp_failureCode := Some ''WORKSPACE_QUARANTINED'',
                        tp_failureDetail := Some ''provider could not prove destruction''\<rparr>)) (\<lambda>r'.
     bindE (emitEvent ports (SE_quarantined wid (wr_runId r') ''destruction unproven'')) (\<lambda>_.
     retE Outcome_quarantined))"

definition destroy_at_provider ::
  "'w workspace_ports \<Rightarrow> string \<Rightarrow> workspace_record \<Rightarrow> workspace_fence \<Rightarrow> string \<Rightarrow> ('w, workspace_call, destroy_outcome) eff" where
  "destroy_at_provider ports wid r fence pid =
     (case workspaceDestroyKey wid (wr_generation r) of
        None \<Rightarrow> throwE (ErrorClass ''TypeError'' ''workspaceId shape is not usable in an idempotency key'')
      | Some key \<Rightarrow>
          if \<not> isWorkspaceCreationKey key \<and> \<not> isWorkspaceDestroyKey key then throwE (key_shape_error key)
          else bindE (providerDestroy ports r fence (destroy_request r fence key pid)) (\<lambda>destroyed.
            if destroyed then confirm_destroyed ports r fence else quarantine_undestroyed ports wid r fence))"

definition begin_destroy ::
  "'w workspace_ports \<Rightarrow> workspace_record \<Rightarrow> workspace_fence \<Rightarrow> ('w, workspace_call, workspace_record) eff" where
  "begin_destroy ports r fence =
     (if wr_status r = WS_DESTROYING then retE r
      else readE (wp_now ports) (\<lambda>now.
        transition_ws ports r fence Begin_destroy no_guards (no_patch\<lparr>tp_destroyedAtMs := Some now\<rparr>)))"

definition complete_destroy ::
  "'w workspace_ports \<Rightarrow> string \<Rightarrow> workspace_record \<Rightarrow> workspace_fence \<Rightarrow> ('w, workspace_call, destroy_outcome) eff" where
  "complete_destroy ports wid r fence =
     (case wr_providerWorkspaceId r of
        None \<Rightarrow> confirm_destroyed ports r fence
      | Some pid \<Rightarrow> destroy_at_provider ports wid r fence pid)"

definition destroy_loaded ::
  "'w workspace_ports \<Rightarrow> string \<Rightarrow> string \<Rightarrow> workspace_fence \<Rightarrow> workspace_record \<Rightarrow> ('w, workspace_call, destroy_outcome) eff" where
  "destroy_loaded ports wid reason fence r0 =
     (if wr_status r0 = WS_DESTROYED then retE Outcome_destroyed
      else
      bindE (assertCurrent ports r0 fence) (\<lambda>_.
      bindE (begin_destroy ports r0 fence) (\<lambda>r.
      bindE (emitEvent ports (SE_destroy_requested wid (wr_runId r) (wr_generation r) reason)) (\<lambda>_.
      complete_destroy ports wid r fence))))"

definition requestDestroy ::
  "'w workspace_ports \<Rightarrow> string \<Rightarrow> string \<Rightarrow> workspace_fence \<Rightarrow> ('w, workspace_call, destroy_outcome) eff" where
  "requestDestroy ports wid reason fence =
     (if reason \<notin> set DESTROY_REASONS then throwE (MadeError ''VALIDATION_FAILED'')
      else bindE (callE (W_Load wid) (wp_load ports wid)) (destroy_loaded ports wid reason fence))"

section \<open>Every change is fenced and follows the lifecycle\<close>

lemma within_assertCurrent [within_intros]: "(\<And>now. P (W_Fence (fenceOf r) f now)) \<Longrightarrow> calls_within P (assertCurrent ports r f)"
  unfolding assertCurrent_def by (intro within_intros)

lemma within_emitEvent [within_intros]: "P (W_Emit ev) \<Longrightarrow> calls_within P (emitEvent ports ev)"
  unfolding emitEvent_def by (intro within_intros)

lemma fire_transition:
  "transitionWorkspace s t gs = Inr to \<Longrightarrow> ws_fire s t gs = Some to"
  by (simp add: ws_fire_def)

lemma within_transition:
  assumes "\<And>now. P (W_Fence (fenceOf r) f now)"
    and "\<And>to. ws_fire (wr_status r) t (gs\<lparr>fenceValid := Some True\<rparr>) = Some to \<Longrightarrow>
    P (W_TryTransition \<lparr>ti_workspaceId = wr_workspaceId r, ti_expectedRowVersion = wr_rowVersion r,
         ti_expectedStatus = wr_status r, ti_to = to, ti_trigger = t, ti_patch = patch\<rparr>)"
  shows "calls_within P (transition_ws ports r f t gs patch)"
  unfolding transition_ws_def Let_def
  by (intro within_intros assms) (auto dest: fire_transition)

lemma world_assertCurrent [simp]: "eff_world (assertCurrent ports r f) w = w"
  and calls_assertCurrent [simp]: "eff_calls (assertCurrent ports r f) w = [W_Fence (fenceOf r) f (wp_now ports w)]"
  and result_assertCurrent [simp]: "eff_result (assertCurrent ports r f) w =
    (if fence_rejection (fenceOf r) f (wp_now ports w) = None then Inr () else Inl (MadeError ''WORKSPACE_FENCE_REJECTED''))"
  by (simp_all add: assertCurrent_def split: option.splits)

text \<open>
  A record the store answered, and the calls that change something: a status, a lease, or the
  provider's workspaces.  Each asks for a fence check of its own.
\<close>

definition stored :: "'w workspace_ports \<Rightarrow> workspace_record \<Rightarrow> bool" where
  "stored ports r \<longleftrightarrow>
     (\<exists>wid. answers (wp_load ports wid) r) \<or> (\<exists>v. answers (wp_reserve ports v) r) \<or>
     (\<exists>ti. answers (wp_tryTransition ports ti) (True, r))"

fun changes :: "workspace_call \<Rightarrow> bool" where
  "changes (W_TryTransition _) = True"
| "changes (W_RenewLease _) = True"
| "changes (W_ProviderCreate _) = True"
| "changes (W_ProviderDestroy _) = True"
| "changes _ = False"

text \<open>What a change must be, given the record its fence was checked against.\<close>

fun change_of :: "workspace_record \<Rightarrow> workspace_fence \<Rightarrow> workspace_call \<Rightarrow> bool" where
  "change_of r f (W_TryTransition ti) \<longleftrightarrow>
     ti_workspaceId ti = wr_workspaceId r \<and> ti_expectedRowVersion ti = wr_rowVersion r \<and> ti_expectedStatus ti = wr_status r \<and>
     (\<exists>gs. ws_fire (ti_expectedStatus ti) (ti_trigger ti) gs = Some (ti_to ti)) \<and>
     (ti_to ti = WS_READY \<longrightarrow> (\<exists>s. tp_verifiedHeadSha (ti_patch ti) = Some s \<and> full_sha s))"
| "change_of r f (W_RenewLease lr) \<longleftrightarrow> lr_rowVersion lr = wr_rowVersion r \<and> lr_expectedLeaseToken lr = fe_leaseToken f"
| "change_of r f (W_ProviderCreate pc) \<longleftrightarrow> pc_generation pc = wr_generation r \<and> pc_leaseToken pc = fe_leaseToken f"
| "change_of r f (W_ProviderDestroy pd) \<longleftrightarrow> pd_generation pd = wr_generation r \<and> pd_leaseToken pd = fe_leaseToken f"
| "change_of r f _ \<longleftrightarrow> True"

definition accepted_check :: "'w workspace_ports \<Rightarrow> (workspace_fence \<Rightarrow> bool) \<Rightarrow> workspace_call \<Rightarrow> workspace_call \<Rightarrow> bool" where
  "accepted_check ports held c d \<longleftrightarrow>
     (\<exists>r f now. c = W_Fence (fenceOf r) f now \<and> fence_rejection (fenceOf r) f now = None \<and> held f \<and> stored ports r \<and> change_of r f d)"

text \<open>Every change in the list comes directly after a check it needs; \<open>prev\<close> is the call before the list.\<close>

fun fenced_after :: "'w workspace_ports \<Rightarrow> (workspace_fence \<Rightarrow> bool) \<Rightarrow> workspace_call option \<Rightarrow> workspace_call list \<Rightarrow> bool" where
  "fenced_after ports held prev [] \<longleftrightarrow> True"
| "fenced_after ports held prev (c # cs) \<longleftrightarrow>
     (changes c \<longrightarrow> (\<exists>p. prev = Some p \<and> accepted_check ports held p c)) \<and> fenced_after ports held (Some c) cs"

lemma fenced_any: "fenced_after ports held None cs \<Longrightarrow> fenced_after ports held p cs"
  by (cases cs) auto

lemma fenced_append:
  "fenced_after ports held p cs \<Longrightarrow> fenced_after ports held None ds \<Longrightarrow> fenced_after ports held p (cs @ ds)"
  by (induction cs arbitrary: p) (auto intro: fenced_any)

lemma fenced_split:
  "fenced_after ports held p (xs @ d # ys) \<Longrightarrow> changes d \<Longrightarrow> xs \<noteq> [] \<Longrightarrow> accepted_check ports held (last xs) d"
  by (induction xs arbitrary: p) (auto split: if_splits)

lemma fenced_first: "fenced_after ports held None (d # ys) \<Longrightarrow> \<not> changes d"
  by auto

text \<open>\<open>all_fenced held m\<close>: in every world the calls of \<open>m\<close> are fenced.  The rules follow the structure of a service.\<close>

definition all_fenced :: "'w workspace_ports \<Rightarrow> (workspace_fence \<Rightarrow> bool) \<Rightarrow> ('w, workspace_call, 'a) eff \<Rightarrow> bool" where
  "all_fenced ports held m \<longleftrightarrow> (\<forall>w. fenced_after ports held None (eff_calls m w))"

named_theorems fenced_intros

lemma fenced_retE [fenced_intros]: "all_fenced ports held (retE a)"
  and fenced_throwE [fenced_intros]: "all_fenced ports held (throwE e)"
  by (simp_all add: all_fenced_def)

lemma fenced_callE [fenced_intros]: "\<not> changes c \<Longrightarrow> all_fenced ports held (callE c p)"
  by (simp add: all_fenced_def)

lemma fenced_readE [fenced_intros]: "(\<And>x. all_fenced ports held (k x)) \<Longrightarrow> all_fenced ports held (readE f k)"
  by (simp add: all_fenced_def)

lemma fenced_bind_result:
  "all_fenced ports held m \<Longrightarrow> (\<And>a w. eff_result m w = Inr a \<Longrightarrow> all_fenced ports held (k a)) \<Longrightarrow> all_fenced ports held (bindE m k)"
  by (auto simp: all_fenced_def calls_bindE split: sum.splits intro: fenced_append)

lemma fenced_bindE [fenced_intros]:
  "all_fenced ports held m \<Longrightarrow> (\<And>a. all_fenced ports held (k a)) \<Longrightarrow> all_fenced ports held (bindE m k)"
  by (rule fenced_bind_result)

lemma fenced_catchE [fenced_intros]:
  "all_fenced ports held m \<Longrightarrow> (\<And>e. all_fenced ports held (h e)) \<Longrightarrow> all_fenced ports held (catchE m h)"
  by (auto simp: all_fenced_def calls_catchE split: sum.splits intro: fenced_append)

lemma fenced_swallowE [fenced_intros]: "all_fenced ports held m \<Longrightarrow> all_fenced ports held (swallowE m)"
  by (simp add: all_fenced_def)

lemma fenced_if [fenced_intros]:
  "(b \<Longrightarrow> all_fenced ports held m) \<Longrightarrow> (\<not> b \<Longrightarrow> all_fenced ports held m') \<Longrightarrow> all_fenced ports held (if b then m else m')"
  by simp

lemma fenced_case_option [fenced_intros]:
  "(x = None \<Longrightarrow> all_fenced ports held m) \<Longrightarrow> (\<And>a. x = Some a \<Longrightarrow> all_fenced ports held (f a)) \<Longrightarrow>
   all_fenced ports held (case x of None \<Rightarrow> m | Some a \<Rightarrow> f a)"
  by (cases x) simp_all

lemma fenced_case_sum [fenced_intros]:
  "(\<And>e. x = Inl e \<Longrightarrow> all_fenced ports held (h e)) \<Longrightarrow> (\<And>a. x = Inr a \<Longrightarrow> all_fenced ports held (f a)) \<Longrightarrow>
   all_fenced ports held (case x of Inl e \<Rightarrow> h e | Inr a \<Rightarrow> f a)"
  by (cases x) simp_all

lemma fenced_emitEvent [fenced_intros]: "all_fenced ports held (emitEvent ports ev)"
  unfolding emitEvent_def by (intro fenced_intros) simp

lemma fenced_assertCurrent [fenced_intros]: "all_fenced ports held (assertCurrent ports r f)"
  by (simp add: all_fenced_def)

text \<open>A change made directly after the check of its record, whatever is done with its answer.\<close>

lemma fenced_change:
  assumes "held f" and "stored ports r" and "change_of r f d"
  shows "all_fenced ports held (bindE (assertCurrent ports r f) (\<lambda>_. callE d p))"
  using assms by (auto simp: all_fenced_def calls_bindE accepted_check_def)

lemma bindE_assoc: "bindE (bindE m k) l = bindE m (\<lambda>a. bindE (k a) l)"
  by (rule ext) (simp add: bindE_def split: prod.splits sum.splits)

lemma fenced_change_bind:
  assumes "held f" and "stored ports r" and "change_of r f d" and "\<And>a. answers p a \<Longrightarrow> all_fenced ports held (k a)"
  shows "all_fenced ports held (bindE (assertCurrent ports r f) (\<lambda>_. bindE (callE d p) k))"
proof -
  have "all_fenced ports held (bindE (bindE (assertCurrent ports r f) (\<lambda>_. callE d p)) k)"
    by (rule fenced_bind_result [OF fenced_change [where held = held, OF assms(1-3)]])
       (auto simp: result_bindE intro!: assms(4) answersI split: if_splits)
  then show ?thesis by (simp add: bindE_assoc)
qed

lemma fire_ready: "ws_fire s t gs = Some WS_READY \<Longrightarrow> t = Verify_ok"
  by (cases s; cases t) (auto simp: fsm_simps split: if_splits)

lemma fenced_transition:
  assumes "held f" and "stored ports r"
    and "t = Verify_ok \<Longrightarrow> \<exists>s. tp_verifiedHeadSha patch = Some s \<and> full_sha s"
  shows "all_fenced ports held (transition_ws ports r f t gs patch)"
proof (cases "transitionWorkspace (wr_status r) t (gs\<lparr>fenceValid := Some True\<rparr>)")
  case (Inl code)
  then show ?thesis unfolding transition_ws_def by (simp add: fenced_intros)
next
  case (Inr to)
  then have fire: "ws_fire (wr_status r) t (gs\<lparr>fenceValid := Some True\<rparr>) = Some to" by (rule fire_transition)
  show ?thesis unfolding transition_ws_def Let_def Inr sum.case
    by (rule fenced_change_bind [where held = held, OF assms(1,2)])
       (use fire assms(3) fire_ready in \<open>fastforce\<close>, intro fenced_intros)
qed

lemma transition_stored:
  assumes "eff_result (transition_ws ports r f t gs patch) w = Inr r'"
  shows "stored ports r'"
  using assms
  by (auto simp: transition_ws_def Let_def result_bindE eff_if stored_def split: sum.splits if_splits intro: answersI)
    (metis answersI prod.collapse)

lemma fenced_markFailed [fenced_intros]:
  "held f \<Longrightarrow> stored ports r \<Longrightarrow> all_fenced ports held (markFailed ports r f code detail)"
  unfolding markFailed_def by (intro fenced_intros fenced_transition) simp_all

lemma fenced_markAmbiguous:
  "held f \<Longrightarrow> stored ports r \<Longrightarrow> all_fenced ports held (markAmbiguous ports r f detail)"
  unfolding markAmbiguous_def by (intro fenced_intros fenced_transition) simp_all

text \<open>A provider call with its recovery: the check, the call, and what follows in either case.\<close>

lemma fenced_provider:
  assumes "held f" and "stored ports r" and "change_of r f d"
    and "\<And>e. all_fenced ports held (h e)" and "\<And>a. all_fenced ports held (k a)"
  shows "all_fenced ports held (bindE (assertCurrent ports r f) (\<lambda>_. bindE (catchE (callE d p) h) k))"
proof -
  have "bindE (assertCurrent ports r f) (\<lambda>_. bindE (catchE (callE d p) h) k) =
      bindE (bindE (assertCurrent ports r f) (\<lambda>_. bindE (callE d (\<lambda>w. (fst (p w), Inr (snd (p w))))) retE))
        (\<lambda>x. case x of Inl e \<Rightarrow> bindE (h e) k | Inr a \<Rightarrow> k a)"
    by (rule ext) (auto simp: bindE_def catchE_def callE_def retE_def split: prod.splits sum.splits)
  moreover have "all_fenced ports held \<dots>"
    by (intro fenced_bindE [OF fenced_change_bind] fenced_intros assms)
  ultimately show ?thesis by simp
qed

lemma fenced_providerCreate:
  assumes "held f" and "stored ports r" and "change_of r f (W_ProviderCreate pc)"
  shows "all_fenced ports held (providerCreate ports r f pc)"
  unfolding providerCreate_def
  by (intro fenced_provider fenced_intros fenced_markAmbiguous assms)

lemma fenced_gate [fenced_intros]:
  "held f \<Longrightarrow> stored ports r \<Longrightarrow> all_fenced ports held (gate_capabilities sha ports opts r f)"
  unfolding gate_capabilities_def
  by (intro fenced_intros) (auto intro!: fenced_intros split: capability_decision.split)

lemma fenced_resolve_ref [fenced_intros]:
  "held f \<Longrightarrow> stored ports r \<Longrightarrow> all_fenced ports held (resolve_ref ports i r f wid)"
  unfolding resolve_ref_def fetch_resolution_def by (intro fenced_intros) simp_all

lemma fenced_provision_with:
  "held f \<Longrightarrow> stored ports r \<Longrightarrow> all_fenced ports held (provision_with ports i r f wid cap key plan)"
  unfolding provision_with_def quarantine_created_def Let_def
  by (intro fenced_intros fenced_transition fenced_providerCreate) (simp_all add: create_request_def)

lemma fenced_provision [fenced_intros]:
  assumes "held f" and "stored ports r"
  shows "all_fenced ports held (provision ports opts i r f wid cap res)"
  unfolding provision_def provision_planned_def
  by (rule fenced_bind_result, intro fenced_transition assms, simp,
      intro fenced_intros fenced_provision_with assms) (erule transition_stored)

lemma provision_stored:
  assumes "eff_result (provision ports opts i r f wid cap res) w = Inr rc"
  shows "stored ports (fst rc)"
  using assms
  by (auto simp: provision_def provision_planned_def provision_with_def quarantine_created_def Let_def result_bindE eff_if
      dest: transition_stored split: sum.splits option.splits if_splits)

lemma fenced_check_out [fenced_intros]:
  assumes "held f" and "stored ports r"
  shows "all_fenced ports held (check_out ports i r f wid res cre)"
  unfolding check_out_def Let_def
  by (rule fenced_bind_result, intro fenced_transition assms, simp)
     (auto intro!: fenced_intros fenced_transition assms dest: transition_stored split: verification_outcome.split)

lemma check_out_stored:
  assumes "eff_result (check_out ports i r f wid res cre) w = Inr r'"
  shows "stored ports r'"
  using assms
  by (auto simp: check_out_def Let_def result_bindE dest: transition_stored split: sum.splits verification_outcome.splits)

lemma attested_head:
  "buildAttestation aid wid res ob t = Inr att \<Longrightarrow>
     verifyCheckout res ob \<noteq> Mismatch k e b \<and> full_sha (observedHeadSha ob) \<and> observedHeadSha ob = resolvedSha res \<and>
     observedRemoteFingerprint ob = remoteFingerprint res \<and>
     at_observedHeadSha att = resolvedSha res \<and> at_resolvedSha att = resolvedSha res \<and> at_workspaceId att = wid"
  by (auto simp: buildAttestation_def verifyCheckout_def split: verification_outcome.splits if_splits)

lemma fenced_attest [fenced_intros]:
  "held f \<Longrightarrow> stored ports r \<Longrightarrow> all_fenced ports held (attest_and_ready ports i r f wid snap res cre)"
  unfolding attest_and_ready_def record_attestation_def finish_ready_def Let_def
  by (intro fenced_intros fenced_transition) (auto simp: verified_patch_def dest: attested_head)

text \<open>The fence \<open>create\<close> holds is that of the reservation the store answered; the other operations are given theirs.\<close>

definition reserved_fence :: "'w workspace_ports \<Rightarrow> workspace_fence \<Rightarrow> bool" where
  "reserved_fence ports f \<longleftrightarrow> (\<exists>v r. answers (wp_reserve ports v) r \<and> f = fenceOf r)"

lemma fenced_create: "all_fenced ports (reserved_fence ports) (create sha ports opts i)"
proof -
  have "all_fenced ports (reserved_fence ports) (create_reserved sha ports opts i wid token)" for wid token
    unfolding create_reserved_def Let_def
  proof (rule fenced_bind_result)
    fix r w
    assume "eff_result (callE (W_Reserve (reservation_of opts i wid token)) (wp_reserve ports (reservation_of opts i wid token))) w = Inr r"
    then have a: "answers (wp_reserve ports (reservation_of opts i wid token)) r" by (simp add: answersI)
    then have h: "reserved_fence ports (fenceOf r)" and s: "stored ports r" by (auto simp: reserved_fence_def stored_def)
    show "all_fenced ports (reserved_fence ports)
      (bindE (emitEvent ports (SE_requested wid (ci_runId i) (selector_kind (ci_selector i)) (describeSelector (ci_selector i)))) (\<lambda>_.
       bindE (gate_capabilities sha ports opts r (fenceOf r)) (\<lambda>cap.
       bindE (resolve_ref ports i r (fenceOf r) wid) (\<lambda>resolved.
       bindE (provision ports opts i r (fenceOf r) wid cap resolved) (\<lambda>rc.
       bindE (check_out ports i (fst rc) (fenceOf r) wid resolved (snd rc)) (\<lambda>r2.
       bindE (attest_and_ready ports i r2 (fenceOf r) wid (fst cap) resolved (snd rc)) (\<lambda>r3.
       retE (toRef r3))))))))"
      by (intro fenced_bindE [OF fenced_emitEvent] fenced_bindE [OF fenced_gate] fenced_bindE [OF fenced_resolve_ref]
          fenced_bind_result [OF fenced_provision] fenced_bind_result [OF fenced_check_out] fenced_bindE [OF fenced_attest]
          fenced_retE h s) (erule provision_stored check_out_stored)+
  qed (intro fenced_intros, simp)
  then show ?thesis unfolding create_def by (intro fenced_intros) simp_all
qed

lemma begin_stored:
  "stored ports r0 \<Longrightarrow> eff_result (begin_destroy ports r0 f) w = Inr r \<Longrightarrow> stored ports r"
  by (auto simp: begin_destroy_def eff_if dest: transition_stored split: if_splits)

lemma fenced_confirm:
  "held f \<Longrightarrow> stored ports r \<Longrightarrow> all_fenced ports held (confirm_destroyed ports r f)"
  unfolding confirm_destroyed_def by (intro fenced_intros fenced_transition) simp_all

lemma fenced_complete:
  assumes "held f" and "stored ports r"
  shows "all_fenced ports held (complete_destroy ports wid r f)"
proof -
  have "all_fenced ports held (providerDestroy ports r f pd)" if "change_of r f (W_ProviderDestroy pd)" for pd
    unfolding providerDestroy_def by (rule fenced_change_bind [where held = held, OF assms that]) (intro fenced_intros)
  moreover have "change_of r f (W_ProviderDestroy (destroy_request r f key pid))" for key pid
    by (simp add: destroy_request_def)
  ultimately show ?thesis
    unfolding complete_destroy_def destroy_at_provider_def quarantine_undestroyed_def
    by (intro fenced_intros fenced_transition fenced_confirm assms) simp_all
qed

lemma loaded_stored: "snd (wp_load ports wid w) = Inr r \<Longrightarrow> stored ports r"
  by (auto simp: stored_def intro: answersI)

lemma fenced_requestDestroy: "all_fenced ports ((=) f) (requestDestroy ports wid reason f)"
proof -
  have "all_fenced ports ((=) f) (destroy_loaded ports wid reason f r0)" if "stored ports r0" for r0
  proof -
    have "all_fenced ports ((=) f) (begin_destroy ports r0 f)"
      unfolding begin_destroy_def by (intro fenced_intros fenced_transition that) simp_all
    then show ?thesis unfolding destroy_loaded_def
      by (intro fenced_if fenced_retE fenced_bindE [OF fenced_assertCurrent] fenced_bind_result [of ports "(=) f" "begin_destroy ports r0 f"])
         (auto intro!: fenced_intros fenced_complete dest: begin_stored [OF that])
  qed
  then show ?thesis unfolding requestDestroy_def
    by (intro fenced_if fenced_throwE fenced_bind_result [of ports "(=) f" "callE (W_Load wid) (wp_load ports wid)"])
       (auto intro!: fenced_intros dest: loaded_stored)
qed

lemma fenced_renewLease: "all_fenced ports ((=) f) (renewLease ports opts wid f)"
proof -
  have move: "bindE (assertCurrent ports r f) (\<lambda>_. readE g k) = readE g (\<lambda>x. bindE (assertCurrent ports r f) (\<lambda>_. k x))" for r g k
    by (rule ext) (simp add: bindE_def readE_def assertCurrent_def callE_def split: option.splits)
  show ?thesis unfolding renewLease_def Let_def move case_prod_beta
    by (intro fenced_intros fenced_bind_result [of ports "(=) f" "callE (W_Load wid) (wp_load ports wid)"] fenced_change_bind)
       (auto simp: stored_def intro: answersI)
qed


section \<open>What a successful creation did\<close>

fun effectful :: "workspace_call \<Rightarrow> bool" where
  "effectful (W_Emit _) = False"
| "effectful (W_Fence _ _ _) = False"
| "effectful _ = True"

definition steps :: "('w, workspace_call, 'a) eff \<Rightarrow> 'w \<Rightarrow> workspace_call list" where
  "steps m w = filter effectful (eff_calls m w)"

lemma steps_bindE:
  "eff_result (bindE m k) w = Inr b \<Longrightarrow>
     \<exists>a. eff_result m w = Inr a \<and> eff_result (k a) (eff_world m w) = Inr b \<and>
       steps (bindE m k) w = steps m w @ steps (k a) (eff_world m w)"
  by (elim bindE_success) (auto simp: steps_def)

lemma steps_emitEvent [simp]: "steps (emitEvent ports ev) w = []"
  by (simp add: steps_def emitEvent_def eff_if)

lemma steps_assertCurrent [simp]: "steps (assertCurrent ports r f) w = []"
  by (simp add: steps_def)

lemma steps_callE [simp]: "steps (callE c p) w = (if effectful c then [c] else [])"
  by (simp add: steps_def)

lemma steps_retE [simp]: "steps (retE a) w = []"
  by (simp add: steps_def)

lemma transition_success:
  assumes "eff_result (transition_ws ports r f t gs patch) w = Inr r'"
  shows "\<exists>ti. steps (transition_ws ports r f t gs patch) w = [W_TryTransition ti] \<and> ti_expectedStatus ti = wr_status r \<and>
    ti_trigger ti = t \<and> ti_patch ti = patch \<and> ti_workspaceId ti = wr_workspaceId r \<and> ti_expectedRowVersion ti = wr_rowVersion r \<and>
    ws_fire (wr_status r) t (gs\<lparr>fenceValid := Some True\<rparr>) = Some (ti_to ti) \<and>
    snd (wp_tryTransition ports ti w) = Inr (True, r')"
proof -
  from assms have f: "fence_rejection (fenceOf r) f (wp_now ports w) = None"
    by (auto simp: transition_ws_def result_bindE split: if_splits)
  then have a: "eff_result (assertCurrent ports r f) w = Inr ()" by simp
  from assms a obtain to where to: "transitionWorkspace (wr_status r) t (gs\<lparr>fenceValid := Some True\<rparr>) = Inr to"
    by (auto simp: transition_ws_def eff_simps split: sum.splits)
  let ?ti = "\<lparr>ti_workspaceId = wr_workspaceId r, ti_expectedRowVersion = wr_rowVersion r,
     ti_expectedStatus = wr_status r, ti_to = to, ti_trigger = t, ti_patch = patch\<rparr>"
  from assms a to have "steps (transition_ws ports r f t gs patch) w = [W_TryTransition ?ti]"
    and "snd (wp_tryTransition ports ?ti w) = Inr (True, r')"
    by (auto simp: transition_ws_def steps_def eff_simps eff_if Let_def split: sum.splits if_splits)
  with to show ?thesis by (intro exI [of _ ?ti]) (simp add: ws_fire_def)
qed

text \<open>The edge a transition to the next stage takes.\<close>

lemma forward_edge:
  "ws_fire s Begin_provisioning gs = Some to \<Longrightarrow> s = WS_REQUESTED \<and> to = WS_PROVISIONING"
  "ws_fire s Provision_complete gs = Some to \<Longrightarrow> s = WS_PROVISIONING \<and> to = WS_CHECKING_OUT"
  "ws_fire s Checkout_complete gs = Some to \<Longrightarrow> s = WS_CHECKING_OUT \<and> to = WS_VERIFYING"
  "ws_fire s Verify_ok gs = Some to \<Longrightarrow> s = WS_VERIFYING \<and> to = WS_READY"
  by (cases s; auto simp: fsm_simps split: if_splits)+

definition stage :: "workspace_trigger \<Rightarrow> workspace_status \<Rightarrow> workspace_status \<Rightarrow> transition_patch \<Rightarrow> workspace_call \<Rightarrow> bool" where
  "stage t s s' patch c \<longleftrightarrow>
     (\<exists>ti. c = W_TryTransition ti \<and> ti_trigger ti = t \<and> ti_expectedStatus ti = s \<and> ti_to ti = s' \<and> ti_patch ti = patch)"

lemma stage_success:
  assumes "eff_result (transition_ws ports r f t gs patch) w = Inr r'"
    and "t \<in> {Begin_provisioning, Provision_complete, Checkout_complete, Verify_ok}"
  shows "\<exists>c s s'. steps (transition_ws ports r f t gs patch) w = [c] \<and> ws_next s = Some (t, s') \<and> stage t s s' patch c"
proof -
  from transition_success [OF assms(1)] obtain ti where
    ti: "steps (transition_ws ports r f t gs patch) w = [W_TryTransition ti]" "ti_expectedStatus ti = wr_status r"
      "ti_trigger ti = t" "ti_patch ti = patch" "ws_fire (wr_status r) t (gs\<lparr>fenceValid := Some True\<rparr>) = Some (ti_to ti)"
    by blast
  with assms(2) have "ws_next (wr_status r) = Some (t, ti_to ti)" by (auto simp: ws_next_def dest!: forward_edge)
  with ti show ?thesis by (auto simp: stage_def)
qed

lemma gate_success:
  assumes "eff_result (gate_capabilities sha ports opts r f) w = Inr cap"
  shows "\<exists>m. snd (wp_probe ports w) = Inr m \<and> steps (gate_capabilities sha ports opts r f) w = [W_Probe] \<and>
    (\<exists>p v ch. requireWorkspaceCapabilities sha m DEFAULT_WORKSPACE_CAPABILITY_PROFILE = Cap_allowed (fst cap) p v ch) \<and>
    (required_capability (checkoutExecution opts), True) \<in> set (cm_capabilities m)"
  using assms
  by (auto simp: gate_capabilities_def eff_simps eff_if steps_def split: sum.splits capability_decision.splits if_splits)

lemma parse_unchanged: "parseResolvedCheckout a = Inr b \<Longrightarrow> b = a"
  by (auto simp: parseResolvedCheckout_def split: sum.splits if_splits)

lemma fetch_success:
  assumes "eff_result (fetch_resolution ports i r f) w = Inr res"
  shows "parseResolvedCheckout res = Inr res \<and>
    steps (fetch_resolution ports i r f) w = [W_Resolve (ci_repositoryId i) (ci_selector i) (ci_nowMs i)]"
proof -
  from assms obtain a where a: "snd (wp_resolve ports (ci_repositoryId i) (ci_selector i) (ci_nowMs i) w) = Inr a"
    "parseResolvedCheckout a = Inr res"
    by (auto simp: fetch_resolution_def result_catchE result_bindE split: sum.splits)
  with parse_unchanged [OF a(2)] show ?thesis
    by (simp add: fetch_resolution_def steps_def calls_catchE eff_simps)
qed

lemma resolve_success:
  assumes "eff_result (resolve_ref ports i r f wid) w = Inr res"
  shows "parseResolvedCheckout res = Inr res \<and> expectedShaOf (ci_selector i) \<in> {None, Some (resolvedSha res)} \<and>
    steps (resolve_ref ports i r f wid) w = [W_Resolve (ci_repositoryId i) (ci_selector i) (ci_nowMs i)]"
proof -
  from steps_bindE [OF assms [unfolded resolve_ref_def], folded resolve_ref_def] obtain a where
    a: "eff_result (fetch_resolution ports i r f) w = Inr a" and
    e: "expectedShaOf (ci_selector i) \<in> {None, Some (resolvedSha a)}" and
    k: "eff_result (bindE (emitEvent ports (SE_resolved wid (selector_kind (ci_selector i)) (describeSelector (ci_selector i))
          (resolvedSha a))) (\<lambda>_. retE a)) (eff_world (fetch_resolution ports i r f) w) = Inr res" and
    st: "steps (resolve_ref ports i r f wid) w = steps (fetch_resolution ports i r f) w @
       steps (bindE (emitEvent ports (SE_resolved wid (selector_kind (ci_selector i)) (describeSelector (ci_selector i))
          (resolvedSha a))) (\<lambda>_. retE a)) (eff_world (fetch_resolution ports i r f) w)"
    by (auto simp: result_bindE split: if_splits sum.splits)
  from steps_bindE [OF k] have "res = a" and "steps (resolve_ref ports i r f wid) w = steps (fetch_resolution ports i r f) w"
    using st by auto
  with fetch_success [OF a] e show ?thesis by simp
qed

lemma resolved_full: "parseResolvedCheckout r = Inr r' \<Longrightarrow> full_sha (resolvedSha r)"
  by (auto simp: parseResolvedCheckout_def split: sum.splits if_splits)

lemma providerCreate_success:
  assumes "eff_result (providerCreate ports r f pc) w = Inr created"
  shows "snd (wp_create ports pc w) = Inr created \<and> steps (providerCreate ports r f pc) w = [W_ProviderCreate pc]"
  using assms by (auto simp: providerCreate_def eff_simps steps_def split: sum.splits if_splits)

lemma provision_with_success:
  assumes "eff_result (provision_with ports i r f wid cap key plan) w = Inr (r', created)"
  shows "\<exists>c s s'. steps (provision_with ports i r f wid cap key plan) w =
      [W_ProviderCreate (create_request r f (fst cap) key plan), c] \<and>
    ws_next s = Some (Provision_complete, s') \<and>
    stage Provision_complete s s' (no_patch\<lparr>tp_providerWorkspaceId := Some (pr_providerWorkspaceId created)\<rparr>) c \<and>
    (\<exists>w'. snd (wp_create ports (create_request r f (fst cap) key plan) w') = Inr created) \<and>
    ps_status (pr_snapshot created) = Pv_ready"
proof -
  let ?pc = "create_request r f (fst cap) key plan"
  let ?w1 = "eff_world (providerCreate ports r f ?pc) w"
  have never: "eff_result (quarantine_created ports i r f wid a) v \<noteq> Inr (x :: workspace_record \<times> provider_created)" for a v x
    by (auto simp: quarantine_created_def Let_def result_bindE split: sum.splits)
  let ?rest = "\<lambda>a. bindE (transition_ws ports r f Provision_complete (no_guards\<lparr>providerWorkspaceCreated := Some True\<rparr>)
      (no_patch\<lparr>tp_providerWorkspaceId := Some (pr_providerWorkspaceId a)\<rparr>)) (\<lambda>r'.
     bindE (emitEvent ports (SE_created wid (ci_runId i) (pr_providerWorkspaceId a) (snd cap) (fst cap))) (\<lambda>_. retE (r', a)))"
  from steps_bindE [OF assms [unfolded provision_with_def], folded provision_with_def] never obtain a where
    a: "eff_result (providerCreate ports r f ?pc) w = Inr a" and ready: "ps_status (pr_snapshot a) = Pv_ready" and
    k: "eff_result (?rest a) ?w1 = Inr (r', created)" and
    st: "steps (provision_with ports i r f wid cap key plan) w = steps (providerCreate ports r f ?pc) w @ steps (?rest a) ?w1"
    by (auto split: if_splits)
  from steps_bindE [OF k] obtain x where
    x: "eff_result (transition_ws ports r f Provision_complete (no_guards\<lparr>providerWorkspaceCreated := Some True\<rparr>)
      (no_patch\<lparr>tp_providerWorkspaceId := Some (pr_providerWorkspaceId a)\<rparr>)) ?w1 = Inr x" and created: "created = a" and
    st2: "steps (?rest a) ?w1 = steps (transition_ws ports r f Provision_complete (no_guards\<lparr>providerWorkspaceCreated := Some True\<rparr>)
      (no_patch\<lparr>tp_providerWorkspaceId := Some (pr_providerWorkspaceId a)\<rparr>)) ?w1"
    by (auto dest!: steps_bindE)
  from stage_success [OF x] st st2 providerCreate_success [OF a] ready created show ?thesis by fastforce
qed

lemma planned_success:
  "eff_result (provision_planned ports opts i r f wid cap res) w = Inr x \<Longrightarrow>
     \<exists>key plan. buildSafeCheckoutPlan (ci_repositoryId i) (remoteFingerprint res) (resolvedSha res) (checkoutExecution opts) = Inr plan \<and>
       provision_planned ports opts i r f wid cap res = provision_with ports i r f wid cap key plan"
  by (auto simp: provision_planned_def split: sum.splits option.splits if_splits)

lemma provision_success:
  assumes "eff_result (provision ports opts i r f wid cap res) w = Inr (r', created)"
  shows "\<exists>c1 s1 s1' c2 s2 s2' r1 key plan. steps (provision ports opts i r f wid cap res) w =
      [c1, W_ProviderCreate (create_request r1 f (fst cap) key plan), c2] \<and>
    ws_next s1 = Some (Begin_provisioning, s1') \<and> stage Begin_provisioning s1 s1' (begin_patch cap res) c1 \<and>
    buildSafeCheckoutPlan (ci_repositoryId i) (remoteFingerprint res) (resolvedSha res) (checkoutExecution opts) = Inr plan \<and>
    ws_next s2 = Some (Provision_complete, s2') \<and>
    stage Provision_complete s2 s2' (no_patch\<lparr>tp_providerWorkspaceId := Some (pr_providerWorkspaceId created)\<rparr>) c2 \<and>
    (\<exists>w'. snd (wp_create ports (create_request r1 f (fst cap) key plan) w') = Inr created) \<and>
    ps_status (pr_snapshot created) = Pv_ready"
proof -
  let ?t = "transition_ws ports r f Begin_provisioning (no_guards\<lparr>capabilitiesVerified := Some True\<rparr>) (begin_patch cap res)"
  from steps_bindE [OF assms [unfolded provision_def], folded provision_def] obtain r1 where
    t: "eff_result ?t w = Inr r1" and
    k: "eff_result (provision_planned ports opts i r1 f wid cap res) (eff_world ?t w) = Inr (r', created)" and
    st: "steps (provision ports opts i r f wid cap res) w =
      steps ?t w @ steps (provision_planned ports opts i r1 f wid cap res) (eff_world ?t w)" by blast
  from planned_success [OF k] obtain key plan where
    plan: "buildSafeCheckoutPlan (ci_repositoryId i) (remoteFingerprint res) (resolvedSha res) (checkoutExecution opts) = Inr plan"
    and pw: "provision_planned ports opts i r1 f wid cap res = provision_with ports i r1 f wid cap key plan" by blast
  from stage_success [OF t] obtain c1 s1 s1' where
    c1: "steps ?t w = [c1]" "ws_next s1 = Some (Begin_provisioning, s1')" "stage Begin_provisioning s1 s1' (begin_patch cap res) c1"
    by auto
  from provision_with_success [OF k [unfolded pw]] st [unfolded pw c1(1)] plan c1(2,3) show ?thesis by fastforce
qed

lemma check_out_success:
  assumes "eff_result (check_out ports i r f wid res created) w = Inr r'"
  shows "\<exists>c s s'. steps (check_out ports i r f wid res created) w = [c] \<and> ws_next s = Some (Checkout_complete, s') \<and>
    stage Checkout_complete s s' (no_patch\<lparr>tp_providerWorkspaceId := Some (pr_providerWorkspaceId created)\<rparr>) c"
proof -
  let ?t = "transition_ws ports r f Checkout_complete (no_guards\<lparr>safeCheckoutApplied := Some True\<rparr>)
      (no_patch\<lparr>tp_providerWorkspaceId := Some (pr_providerWorkspaceId created)\<rparr>)"
  show ?thesis
  proof (cases "verifyCheckout res (observationOf (pr_snapshot created))")
    case (Verified cs)
    then have e: "check_out ports i r f wid res created = bindE ?t retE" by (simp add: check_out_def)
    from steps_bindE [OF assms [unfolded e]] obtain r1 where "eff_result ?t w = Inr r1" "steps (bindE ?t retE) w = steps ?t w" by auto
    with e stage_success [of ports r f _ _ _ w r1] show ?thesis by auto
  next
    case (Mismatch kind e b)
    with assms show ?thesis by (auto simp: check_out_def Let_def dest!: steps_bindE)
  qed
qed

lemma finish_success:
  assumes "eff_result (finish_ready ports i r f wid snap res created) w = Inr r'"
  shows "\<exists>c s s'. steps (finish_ready ports i r f wid snap res created) w = [c] \<and>
    ws_next s = Some (Verify_ok, s') \<and> stage Verify_ok s s' ((verified_patch created)\<lparr>tp_readyAtMs := Some (ci_nowMs i)\<rparr>) c \<and>
    length (remoteFingerprint res) \<le> 128"
proof -
  let ?t = "transition_ws ports r f Verify_ok
      (no_guards\<lparr>headMatchesResolvedSha := Some True, remoteIdentityVerified := Some True, attestationComplete := Some True\<rparr>)
      ((verified_patch created)\<lparr>tp_readyAtMs := Some (ci_nowMs i)\<rparr>)"
  have emitted: "event_payload_ok ev" if "eff_result (emitEvent ports ev) v = Inr u" for ev v u
    using that by (simp add: emitEvent_def eff_if split: if_splits)
  from steps_bindE [OF assms [unfolded finish_ready_def Let_def], folded finish_ready_def [unfolded Let_def]] obtain r1 where
    t: "eff_result ?t w = Inr r1" and "steps (finish_ready ports i r f wid snap res created) w = steps ?t w"
    and "length (remoteFingerprint res) \<le> 128"
    by (auto dest!: steps_bindE emitted simp: within_def)
  with stage_success [OF t] show ?thesis by auto
qed

lemma record_success:
  "eff_result (record_attestation ports i r f wid created att) w = Inr u \<Longrightarrow>
     steps (record_attestation ports i r f wid created att) w = [W_Attest att]"
  by (auto simp: record_attestation_def steps_def result_catchE calls_catchE result_bindE split: sum.splits)

lemma attest_success:
  assumes "eff_result (attest_and_ready ports i r f wid snap res created) w = Inr r'"
  shows "\<exists>aid att c s s'. steps (attest_and_ready ports i r f wid snap res created) w = [W_Attest att, c] \<and>
    buildAttestation aid wid res (observationOf (pr_snapshot created)) (ci_nowMs i) = Inr att \<and>
    ws_next s = Some (Verify_ok, s') \<and> stage Verify_ok s s' ((verified_patch created)\<lparr>tp_readyAtMs := Some (ci_nowMs i)\<rparr>) c \<and>
    length (remoteFingerprint res) \<le> 128"
proof -
  let ?aid = "wp_attestationUuid ports w"
  from assms obtain att where
    att: "buildAttestation ?aid wid res (observationOf (pr_snapshot created)) (ci_nowMs i) = Inr att" and
    wf: "isWellFormedRecordId ?aid"
    by (auto simp: attest_and_ready_def eff_if split: sum.splits if_splits)
  let ?m = "bindE (record_attestation ports i r f wid created att) (\<lambda>_. finish_ready ports i r f wid snap res created)"
  have m: "eff_result (attest_and_ready ports i r f wid snap res created) w = eff_result ?m w"
    "steps (attest_and_ready ports i r f wid snap res created) w = steps ?m w"
    using att wf by (simp_all add: attest_and_ready_def steps_def)
  from steps_bindE [OF assms [unfolded m(1)]] obtain u where
    u: "eff_result (record_attestation ports i r f wid created att) w = Inr u"
      "eff_result (finish_ready ports i r f wid snap res created) (eff_world (record_attestation ports i r f wid created att) w) = Inr r'"
      "steps ?m w = steps (record_attestation ports i r f wid created att) w @
         steps (finish_ready ports i r f wid snap res created) (eff_world (record_attestation ports i r f wid created att) w)"
    by blast
  from finish_success [OF u(2)] record_success [OF u(1)] u(3) m(2) att show ?thesis by fastforce
qed

lemma create_reserved_success:
  assumes "eff_result (create_reserved sha ports opts i wid token) w = Inr ref"
  shows "\<exists>m res created r f cap key plan att aid c1 c2 c3 c4.
    steps (create_reserved sha ports opts i wid token) w =
      [W_Reserve (reservation_of opts i wid token), W_Probe, W_Resolve (ci_repositoryId i) (ci_selector i) (ci_nowMs i), c1,
       W_ProviderCreate (create_request r f (fst cap) key plan), c2, c3, W_Attest att, c4] \<and>
    (\<exists>w'. snd (wp_probe ports w') = Inr m) \<and>
    (\<exists>p v ch. requireWorkspaceCapabilities sha m DEFAULT_WORKSPACE_CAPABILITY_PROFILE = Cap_allowed (fst cap) p v ch) \<and>
    (required_capability (checkoutExecution opts), True) \<in> set (cm_capabilities m) \<and>
    parseResolvedCheckout res = Inr res \<and> expectedShaOf (ci_selector i) \<in> {None, Some (resolvedSha res)} \<and>
    buildSafeCheckoutPlan (ci_repositoryId i) (remoteFingerprint res) (resolvedSha res) (checkoutExecution opts) = Inr plan \<and>
    buildAttestation aid wid res (observationOf (pr_snapshot created)) (ci_nowMs i) = Inr att \<and>
    stage Begin_provisioning WS_REQUESTED WS_PROVISIONING (begin_patch cap res) c1 \<and>
    stage Provision_complete WS_PROVISIONING WS_CHECKING_OUT
      (no_patch\<lparr>tp_providerWorkspaceId := Some (pr_providerWorkspaceId created)\<rparr>) c2 \<and>
    stage Checkout_complete WS_CHECKING_OUT WS_VERIFYING
      (no_patch\<lparr>tp_providerWorkspaceId := Some (pr_providerWorkspaceId created)\<rparr>) c3 \<and>
    stage Verify_ok WS_VERIFYING WS_READY ((verified_patch created)\<lparr>tp_readyAtMs := Some (ci_nowMs i)\<rparr>) c4 \<and>
    length (remoteFingerprint res) \<le> 128"
proof -
  have ends: "ws_next s = Some (Begin_provisioning, s') \<Longrightarrow> s = WS_REQUESTED \<and> s' = WS_PROVISIONING"
    "ws_next s = Some (Provision_complete, s') \<Longrightarrow> s = WS_PROVISIONING \<and> s' = WS_CHECKING_OUT"
    "ws_next s = Some (Checkout_complete, s') \<Longrightarrow> s = WS_CHECKING_OUT \<and> s' = WS_VERIFYING"
    "ws_next s = Some (Verify_ok, s') \<Longrightarrow> s = WS_VERIFYING \<and> s' = WS_READY" for s s'
    by (cases s; simp add: ws_next_def)+
  from assms [unfolded create_reserved_def Let_def] obtain r u cap res rc r2 r3 w1 w2 w3 w4 w5 w6 where
    "eff_result (gate_capabilities sha ports opts r (fenceOf r)) w2 = Inr cap" and
    "eff_result (resolve_ref ports i r (fenceOf r) wid) w3 = Inr res" and
    "eff_result (provision ports opts i r (fenceOf r) wid cap res) w4 = Inr (fst rc, snd rc)" and
    "eff_result (check_out ports i (fst rc) (fenceOf r) wid res (snd rc)) w5 = Inr r2" and
    "eff_result (attest_and_ready ports i r2 (fenceOf r) wid (fst cap) res (snd rc)) w6 = Inr r3" and
    st: "steps (create_reserved sha ports opts i wid token) w =
      [W_Reserve (reservation_of opts i wid token)] @ steps (gate_capabilities sha ports opts r (fenceOf r)) w2 @
      steps (resolve_ref ports i r (fenceOf r) wid) w3 @ steps (provision ports opts i r (fenceOf r) wid cap res) w4 @
      steps (check_out ports i (fst rc) (fenceOf r) wid res (snd rc)) w5 @
      steps (attest_and_ready ports i r2 (fenceOf r) wid (fst cap) res (snd rc)) w6"
    unfolding create_reserved_def Let_def by (auto dest!: steps_bindE)
  note gate = gate_success [OF this(1)] and resolve = resolve_success [OF this(2)] and prov = provision_success [OF this(3)]
    and co = check_out_success [OF this(4)] and att = attest_success [OF this(5)]
  from gate obtain m where m: "snd (wp_probe ports w2) = Inr m" "steps (gate_capabilities sha ports opts r (fenceOf r)) w2 = [W_Probe]"
    "\<exists>p v ch. requireWorkspaceCapabilities sha m DEFAULT_WORKSPACE_CAPABILITY_PROFILE = Cap_allowed (fst cap) p v ch"
    "(required_capability (checkoutExecution opts), True) \<in> set (cm_capabilities m)" by blast
  from prov obtain c1 c2 q key plan where p: "steps (provision ports opts i r (fenceOf r) wid cap res) w4 =
      [c1, W_ProviderCreate (create_request q (fenceOf r) (fst cap) key plan), c2]"
    "stage Begin_provisioning WS_REQUESTED WS_PROVISIONING (begin_patch cap res) c1"
    "buildSafeCheckoutPlan (ci_repositoryId i) (remoteFingerprint res) (resolvedSha res) (checkoutExecution opts) = Inr plan"
    "stage Provision_complete WS_PROVISIONING WS_CHECKING_OUT
       (no_patch\<lparr>tp_providerWorkspaceId := Some (pr_providerWorkspaceId (snd rc))\<rparr>) c2"
    by (auto dest!: ends)
  from co obtain c3 where c3: "steps (check_out ports i (fst rc) (fenceOf r) wid res (snd rc)) w5 = [c3]"
    "stage Checkout_complete WS_CHECKING_OUT WS_VERIFYING
       (no_patch\<lparr>tp_providerWorkspaceId := Some (pr_providerWorkspaceId (snd rc))\<rparr>) c3" by (auto dest!: ends)
  from att obtain aid a c4 where a: "steps (attest_and_ready ports i r2 (fenceOf r) wid (fst cap) res (snd rc)) w6 = [W_Attest a, c4]"
    "buildAttestation aid wid res (observationOf (pr_snapshot (snd rc))) (ci_nowMs i) = Inr a"
    "stage Verify_ok WS_VERIFYING WS_READY ((verified_patch (snd rc))\<lparr>tp_readyAtMs := Some (ci_nowMs i)\<rparr>) c4"
    "length (remoteFingerprint res) \<le> 128" by (auto dest!: ends)
  have "steps (create_reserved sha ports opts i wid token) w =
      [W_Reserve (reservation_of opts i wid token), W_Probe, W_Resolve (ci_repositoryId i) (ci_selector i) (ci_nowMs i), c1,
       W_ProviderCreate (create_request q (fenceOf r) (fst cap) key plan), c2, c3, W_Attest a, c4]"
    using st m(2) resolve p(1) c3(1) a(1) by simp
  with m(1,3,4) resolve p(2-4) c3(2) a(2-4) show ?thesis by blast
qed

text \<open>
  Property C28.  A created workspace is exactly what was authorized: whatever the ports answer,
  when \<open>create\<close> returns a new workspace, it reserved, probed, resolved, asked the provider and
  attested exactly once each, in this order, with the four transitions from REQUESTED to READY in
  between; the probed manifest verifies every required capability and the checkout channel in use;
  one full commit id, equal to the pinned one if the selector pins one, is the commit of the
  provider's checkout plan, the resolved and the observed commit of the attestation, and the
  verified head recorded with READY; and the plan never touches the host.
\<close>

theorem created_workspace_is_verified:
  assumes "wp_loadByRunId ports (ci_runId i) w = (w1, Inr None)" and "eff_result (create sha ports opts i) w = Inr ref"
  shows "\<exists>wid token m v commit t1 t2 t3 t4 pc att.
    filter effectful (eff_calls (create sha ports opts i) w) =
      [W_LoadByRunId (ci_runId i), W_Reserve (reservation_of opts i wid token), W_Probe,
       W_Resolve (ci_repositoryId i) (ci_selector i) (ci_nowMs i), W_TryTransition t1, W_ProviderCreate pc,
       W_TryTransition t2, W_TryTransition t3, W_Attest att, W_TryTransition t4] \<and>
    map (\<lambda>t. (ti_expectedStatus t, ti_to t)) [t1, t2, t3, t4] =
      [(WS_REQUESTED, WS_PROVISIONING), (WS_PROVISIONING, WS_CHECKING_OUT), (WS_CHECKING_OUT, WS_VERIFYING),
       (WS_VERIFYING, WS_READY)] \<and>
    snd (wp_probe ports v) = Inr m \<and> list_all (claims_verified m) (cp_required DEFAULT_WORKSPACE_CAPABILITY_PROFILE) \<and>
    claims_verified m (required_capability (checkoutExecution opts)) \<and>
    full_sha commit \<and> expectedShaOf (ci_selector i) \<in> {None, Some commit} \<and>
    pl_sha (pc_checkout pc) = commit \<and> \<not> hostFilesystem (pc_checkout pc) \<and>
    directives (pc_checkout pc) = SAFE_GIT_DIRECTIVES \<and>
    at_workspaceId att = wid \<and> at_resolvedSha att = commit \<and> at_observedHeadSha att = commit \<and>
    tp_verifiedHeadSha (ti_patch t4) = Some commit"
proof -
  let ?wid = "wp_workspaceUuid ports w1" and ?token = "wp_leaseToken ports w1"
  from assms have r: "eff_result (create_reserved sha ports opts i ?wid ?token) w1 = Inr ref"
    and s: "filter effectful (eff_calls (create sha ports opts i) w) =
      W_LoadByRunId (ci_runId i) # steps (create_reserved sha ports opts i ?wid ?token) w1"
    by (auto simp: create_def steps_def eff_simps eff_if split: if_splits)
  from create_reserved_success [OF r] obtain m res created q f cap key plan att aid c1 c2 c3 c4 v where
    st: "steps (create_reserved sha ports opts i ?wid ?token) w1 =
      [W_Reserve (reservation_of opts i ?wid ?token), W_Probe, W_Resolve (ci_repositoryId i) (ci_selector i) (ci_nowMs i), c1,
       W_ProviderCreate (create_request q f (fst cap) key plan), c2, c3, W_Attest att, c4]" and
    m: "snd (wp_probe ports v) = Inr m"
      "\<exists>p v ch. requireWorkspaceCapabilities sha m DEFAULT_WORKSPACE_CAPABILITY_PROFILE = Cap_allowed (fst cap) p v ch"
      "(required_capability (checkoutExecution opts), True) \<in> set (cm_capabilities m)" and
    res: "parseResolvedCheckout res = Inr res" "expectedShaOf (ci_selector i) \<in> {None, Some (resolvedSha res)}" and
    plan: "buildSafeCheckoutPlan (ci_repositoryId i) (remoteFingerprint res) (resolvedSha res) (checkoutExecution opts) = Inr plan" and
    att: "buildAttestation aid ?wid res (observationOf (pr_snapshot created)) (ci_nowMs i) = Inr att" and
    stages: "stage Begin_provisioning WS_REQUESTED WS_PROVISIONING (begin_patch cap res) c1"
      "stage Provision_complete WS_PROVISIONING WS_CHECKING_OUT
         (no_patch\<lparr>tp_providerWorkspaceId := Some (pr_providerWorkspaceId created)\<rparr>) c2"
      "stage Checkout_complete WS_CHECKING_OUT WS_VERIFYING
         (no_patch\<lparr>tp_providerWorkspaceId := Some (pr_providerWorkspaceId created)\<rparr>) c3"
      "stage Verify_ok WS_VERIFYING WS_READY ((verified_patch created)\<lparr>tp_readyAtMs := Some (ci_nowMs i)\<rparr>) c4"
    by blast
  from m(2) have caps: "list_all (claims_verified m) (cp_required DEFAULT_WORKSPACE_CAPABILITY_PROFILE)"
    using gate_allows [of sha m DEFAULT_WORKSPACE_CAPABILITY_PROFILE] by blast
  from plan have plan': "pl_sha plan = resolvedSha res" "\<not> hostFilesystem plan" "directives plan = SAFE_GIT_DIRECTIVES"
    by (auto simp: buildSafeCheckoutPlan_def split: if_splits)
  from stages obtain t1 t2 t3 t4 where
    c: "c1 = W_TryTransition t1" "c2 = W_TryTransition t2" "c3 = W_TryTransition t3" "c4 = W_TryTransition t4" and
    t: "map (\<lambda>t. (ti_expectedStatus t, ti_to t)) [t1, t2, t3, t4] =
      [(WS_REQUESTED, WS_PROVISIONING), (WS_PROVISIONING, WS_CHECKING_OUT), (WS_CHECKING_OUT, WS_VERIFYING),
       (WS_VERIFYING, WS_READY)]" and
    p: "ti_patch t4 = (verified_patch created)\<lparr>tp_readyAtMs := Some (ci_nowMs i)\<rparr>"
    by (auto simp: stage_def)
  from p attested_head [OF att] have "tp_verifiedHeadSha (ti_patch t4) = Some (resolvedSha res)"
    by (simp add: verified_patch_def)
  moreover let ?pc = "create_request q f (fst cap) key plan"
  have "filter effectful (eff_calls (create sha ports opts i) w) =
      [W_LoadByRunId (ci_runId i), W_Reserve (reservation_of opts i ?wid ?token), W_Probe,
       W_Resolve (ci_repositoryId i) (ci_selector i) (ci_nowMs i), W_TryTransition t1, W_ProviderCreate ?pc,
       W_TryTransition t2, W_TryTransition t3, W_Attest att, W_TryTransition t4]"
    unfolding s st c ..
  moreover have "pl_sha (pc_checkout ?pc) = resolvedSha res" "\<not> hostFilesystem (pc_checkout ?pc)"
    "directives (pc_checkout ?pc) = SAFE_GIT_DIRECTIVES" using plan' by (simp_all add: create_request_def)
  moreover have "claims_verified m (required_capability (checkoutExecution opts))" using m(3) by (simp add: claims_verified_def)
  moreover from attested_head [OF att, of Head_sha "[]" "[]"] have "at_workspaceId att = ?wid"
    "at_resolvedSha att = resolvedSha res" "at_observedHeadSha att = resolvedSha res" by simp_all
  moreover note m(1) caps res(2) t resolved_full [OF res(1)]
  ultimately show ?thesis by (intro exI conjI)
qed

text \<open>
  The events are validated after the transitions they report, so a repository whose remote
  identity is longer than an event allows can never be created successfully, although its
  workspace is recorded as READY.
\<close>

lemma ready_event_bounds_remote:
  assumes "eff_result (attest_and_ready ports i r f wid snap res created) w = Inr r'"
  shows "length (canonicalOwner res) + length (canonicalName res) \<le> 117 \<or>
    remoteFingerprint res \<noteq> github_remote (canonicalOwner res) (canonicalName res)"
  using attest_success [OF assms] by (auto simp: github_remote_def)

section \<open>What destruction answers mean\<close>

lemma confirm_success:
  assumes "eff_result (confirm_destroyed ports r f) w = Inr out"
  shows "out = Outcome_destroyed \<and> (\<exists>ti. steps (confirm_destroyed ports r f) w = [W_TryTransition ti] \<and>
    ti_expectedStatus ti = WS_DESTROYING \<and> ti_to ti = WS_DESTROYED)"
proof -
  let ?t = "transition_ws ports r f Destroy_confirmed (no_guards\<lparr>providerProvesDestroyed := Some True\<rparr>)
    (no_patch\<lparr>tp_destroyedAtMs := Some (wp_now ports w)\<rparr>)"
  have e: "steps (confirm_destroyed ports r f) w = steps (bindE ?t (\<lambda>_. retE Outcome_destroyed)) w"
    "eff_result (confirm_destroyed ports r f) w = eff_result (bindE ?t (\<lambda>_. retE Outcome_destroyed)) w"
    by (simp_all add: confirm_destroyed_def steps_def)
  have edge: "ws_fire s Destroy_confirmed gs = Some to \<Longrightarrow> s = WS_DESTROYING \<and> to = WS_DESTROYED" for s gs to
    by (cases s) (auto simp: fsm_simps split: if_splits)
  from steps_bindE [OF assms [unfolded e(2)]] obtain r1 where "eff_result ?t w = Inr r1" "out = Outcome_destroyed"
    "steps (confirm_destroyed ports r f) w = steps ?t w" unfolding e(1) by auto
  with transition_success [of ports r f _ _ _ w r1] edge show ?thesis by fastforce
qed

lemma providerDestroy_success:
  assumes "eff_result (providerDestroy ports r f pd) w = Inr d"
  shows "snd (wp_destroy ports pd w) = Inr d \<and> steps (providerDestroy ports r f pd) w = [W_ProviderDestroy pd]"
  using assms by (auto simp: providerDestroy_def eff_simps steps_def split: sum.splits if_splits)

lemma quarantine_success:
  assumes "eff_result (quarantine_undestroyed ports wid r f) w = Inr out"
  shows "out = Outcome_quarantined \<and> (\<exists>ti. steps (quarantine_undestroyed ports wid r f) w = [W_TryTransition ti] \<and>
    ti_expectedStatus ti = WS_DESTROYING \<and> ti_to ti = WS_QUARANTINED)"
proof -
  have edge: "ws_fire s Destroy_uncertain gs = Some to \<Longrightarrow> s = WS_DESTROYING \<and> to = WS_QUARANTINED" for s gs to
    by (cases s) (auto simp: fsm_simps split: if_splits)
  from steps_bindE [OF assms [unfolded quarantine_undestroyed_def], folded quarantine_undestroyed_def] obtain r1 gs patch where
    t: "eff_result (transition_ws ports r f Destroy_uncertain gs patch) w = Inr r1" and "out = Outcome_quarantined"
    "steps (quarantine_undestroyed ports wid r f) w = steps (transition_ws ports r f Destroy_uncertain gs patch) w"
    by (auto dest!: steps_bindE)
  with transition_success [OF t] edge show ?thesis by auto
qed

definition answer_for :: "bool \<Rightarrow> destroy_outcome \<times> workspace_status" where
  "answer_for destroyed = (if destroyed then (Outcome_destroyed, WS_DESTROYED) else (Outcome_quarantined, WS_QUARANTINED))"

lemma at_provider_success:
  assumes "eff_result (destroy_at_provider ports wid r f pid) w = Inr out"
  shows "\<exists>pd d w' ti. steps (destroy_at_provider ports wid r f pid) w = [W_ProviderDestroy pd, W_TryTransition ti] \<and>
    pd_providerWorkspaceId pd = pid \<and> snd (wp_destroy ports pd w') = Inr d \<and> ti_expectedStatus ti = WS_DESTROYING \<and>
    (out, ti_to ti) = answer_for d"
proof -
  let ?k = "\<lambda>d. if d then confirm_destroyed ports r f else quarantine_undestroyed ports wid r f"
  from assms obtain key where
    e: "destroy_at_provider ports wid r f pid = bindE (providerDestroy ports r f (destroy_request r f key pid)) ?k"
    by (auto simp: destroy_at_provider_def split: option.splits if_splits)
  let ?pd = "destroy_request r f key pid" and ?w = "eff_world (providerDestroy ports r f (destroy_request r f key pid)) w"
  from steps_bindE [OF assms [unfolded e]] obtain d where d: "eff_result (providerDestroy ports r f ?pd) w = Inr d"
    "eff_result (?k d) ?w = Inr out" "steps (destroy_at_provider ports wid r f pid) w =
      steps (providerDestroy ports r f ?pd) w @ steps (?k d) ?w" unfolding e by blast
  from d(2) obtain ti where ti: "steps (?k d) ?w = [W_TryTransition ti]" "ti_expectedStatus ti = WS_DESTROYING"
    "(out, ti_to ti) = answer_for d"
    by (cases d) (auto simp: answer_for_def dest!: confirm_success quarantine_success)
  have "pd_providerWorkspaceId ?pd = pid" by (simp add: destroy_request_def)
  moreover from d(3) ti(1) providerDestroy_success [OF d(1)]
  have "steps (destroy_at_provider ports wid r f pid) w = [W_ProviderDestroy ?pd, W_TryTransition ti]"
    "snd (wp_destroy ports ?pd w) = Inr d" by simp_all
  ultimately show ?thesis using ti(2,3) by blast
qed

text \<open>How a destruction began in the world \<open>w\<close>: the calls, and the record it goes on with.\<close>

definition began_by ::
  "'w workspace_ports \<Rightarrow> workspace_record \<Rightarrow> 'w \<Rightarrow> workspace_call list \<Rightarrow> workspace_record \<Rightarrow> bool" where
  "began_by ports r0 w pre r \<longleftrightarrow>
     (if wr_status r0 = WS_DESTROYING then pre = [] \<and> r = r0
      else \<exists>t0. pre = [W_TryTransition t0] \<and> ti_to t0 = WS_DESTROYING \<and> tp_providerWorkspaceId (ti_patch t0) = None \<and>
        snd (wp_tryTransition ports t0 w) = Inr (True, r))"

lemma begin_success:
  assumes "eff_result (begin_destroy ports r0 f) w = Inr r"
  shows "began_by ports r0 w (steps (begin_destroy ports r0 f) w) r"
proof (cases "wr_status r0 = WS_DESTROYING")
  case True
  with assms show ?thesis by (simp add: begin_destroy_def began_by_def)
next
  case False
  have edge: "ws_fire s Begin_destroy gs = Some to \<Longrightarrow> to = WS_DESTROYING" for s gs to
    by (cases s) (auto simp: fsm_simps split: if_splits)
  let ?t = "transition_ws ports r0 f Begin_destroy no_guards (no_patch\<lparr>tp_destroyedAtMs := Some (wp_now ports w)\<rparr>)"
  from False assms have t: "eff_result ?t w = Inr r" and "steps (begin_destroy ports r0 f) w = steps ?t w"
    by (simp_all add: begin_destroy_def steps_def)
  with False transition_success [OF t] edge show ?thesis by (auto simp: began_by_def no_patch_def)
qed

text \<open>How the destruction of a record in DESTROYING was completed: calls after the beginning, and the answer.\<close>

definition completed_by ::
  "'w workspace_ports \<Rightarrow> workspace_record \<Rightarrow> workspace_call list \<Rightarrow> destroy_outcome \<Rightarrow> bool" where
  "completed_by ports r cs out \<longleftrightarrow>
     (\<exists>ti. ti_expectedStatus ti = WS_DESTROYING \<and>
        (case wr_providerWorkspaceId r of
           None \<Rightarrow> cs = [W_TryTransition ti] \<and> (out, ti_to ti) = answer_for True
         | Some pid \<Rightarrow> \<exists>pd v d. cs = [W_ProviderDestroy pd, W_TryTransition ti] \<and> pd_providerWorkspaceId pd = pid \<and>
             snd (wp_destroy ports pd v) = Inr d \<and> (out, ti_to ti) = answer_for d))"

lemma complete_success:
  assumes "eff_result (complete_destroy ports wid r f) w = Inr out"
  shows "completed_by ports r (steps (complete_destroy ports wid r f) w) out"
proof (cases "wr_providerWorkspaceId r")
  case None
  with assms confirm_success [of ports r f w out] show ?thesis
    by (auto simp: complete_destroy_def completed_by_def answer_for_def)
next
  case (Some pid)
  with assms at_provider_success [of ports wid r f pid w out] show ?thesis
    by (auto simp: complete_destroy_def completed_by_def)
qed

lemma destroy_loaded_success:
  assumes "eff_result (destroy_loaded ports wid reason f r0) w = Inr out" and "wr_status r0 \<noteq> WS_DESTROYED"
  shows "\<exists>r pre cs. steps (destroy_loaded ports wid reason f r0) w = pre @ cs \<and> completed_by ports r cs out \<and>
    began_by ports r0 w pre r"
proof -
  let ?e = "\<lambda>r. SE_destroy_requested wid (wr_runId r) (wr_generation r) reason"
  have e: "destroy_loaded ports wid reason f r0 = bindE (assertCurrent ports r0 f) (\<lambda>_. bindE (begin_destroy ports r0 f) (\<lambda>r.
      bindE (emitEvent ports (?e r)) (\<lambda>_. complete_destroy ports wid r f)))"
    using assms(2) by (simp add: destroy_loaded_def)
  from steps_bindE [OF assms(1) [unfolded e]] obtain u where
    1: "eff_result (bindE (begin_destroy ports r0 f) (\<lambda>r. bindE (emitEvent ports (?e r)) (\<lambda>_. complete_destroy ports wid r f))) w = Inr out"
    and s1: "steps (destroy_loaded ports wid reason f r0) w =
      steps (bindE (begin_destroy ports r0 f) (\<lambda>r. bindE (emitEvent ports (?e r)) (\<lambda>_. complete_destroy ports wid r f))) w"
    unfolding e by auto
  from steps_bindE [OF 1] obtain r w1 where 2: "eff_result (begin_destroy ports r0 f) w = Inr r"
    "eff_result (bindE (emitEvent ports (?e r)) (\<lambda>_. complete_destroy ports wid r f)) w1 = Inr out"
    "steps (bindE (begin_destroy ports r0 f) (\<lambda>r. bindE (emitEvent ports (?e r)) (\<lambda>_. complete_destroy ports wid r f))) w =
      steps (begin_destroy ports r0 f) w @ steps (bindE (emitEvent ports (?e r)) (\<lambda>_. complete_destroy ports wid r f)) w1" by blast
  from steps_bindE [OF 2(2)] obtain w2 where 3: "eff_result (complete_destroy ports wid r f) w2 = Inr out"
    "steps (bindE (emitEvent ports (?e r)) (\<lambda>_. complete_destroy ports wid r f)) w1 = steps (complete_destroy ports wid r f) w2" by auto
  from s1 2(3) 3(2) have "steps (destroy_loaded ports wid reason f r0) w =
      steps (begin_destroy ports r0 f) w @ steps (complete_destroy ports wid r f) w2" by simp
  with begin_success [OF 2(1)] complete_success [OF 3(1)] show ?thesis by blast
qed

text \<open>
  What a destruction answer rests on: when \<open>requestDestroy\<close> answers, the workspace was
  already recorded DESTROYED and nothing else happened; or the record in DESTROYING has a provider
  workspace, the provider was asked once to destroy exactly that one, and the answer and the recorded
  status are destroyed exactly if the provider said so and quarantined otherwise; or the record has
  no provider workspace, the provider was not asked, and the workspace is recorded DESTROYED.
\<close>

theorem destroy_answer_is_backed:
  assumes "eff_result (requestDestroy ports wid reason f) w = Inr out"
  shows "\<exists>r0 w0. wp_load ports wid w = (w0, Inr r0) \<and>
    (if wr_status r0 = WS_DESTROYED then out = Outcome_destroyed \<and> eff_calls (requestDestroy ports wid reason f) w = [W_Load wid]
     else \<exists>r pre cs. filter effectful (eff_calls (requestDestroy ports wid reason f) w) = W_Load wid # pre @ cs \<and>
       began_by ports r0 w0 pre r \<and> completed_by ports r cs out)"
proof -
  from assms obtain r0 w0 where l: "wp_load ports wid w = (w0, Inr r0)" and
    k: "eff_result (destroy_loaded ports wid reason f r0) w0 = Inr out" and
    c: "eff_calls (requestDestroy ports wid reason f) w = W_Load wid # eff_calls (destroy_loaded ports wid reason f r0) w0"
    by (cases "wp_load ports wid w"; cases "snd (wp_load ports wid w)")
       (auto simp: requestDestroy_def eff_simps eff_if split: if_splits)
  show ?thesis
  proof (cases "wr_status r0 = WS_DESTROYED")
    case True
    with l k c show ?thesis by (simp add: destroy_loaded_def)
  next
    case False
    from destroy_loaded_success [OF k False] obtain r pre cs where d:
      "steps (destroy_loaded ports wid reason f r0) w0 = pre @ cs" "completed_by ports r cs out" "began_by ports r0 w0 pre r"
      by blast
    have "filter effectful (eff_calls (requestDestroy ports wid reason f) w) = W_Load wid # pre @ cs"
      using d(1) by (simp add: c steps_def)
    with d(2,3) have e: "\<exists>r pre cs. filter effectful (eff_calls (requestDestroy ports wid reason f) w) = W_Load wid # pre @ cs \<and>
       began_by ports r0 w0 pre r \<and> completed_by ports r cs out" by (intro exI conjI)
    show ?thesis
      by (rule exI [of _ r0], rule exI [of _ w0], rule conjI, rule l, subst if_not_P, rule False, rule e)
  qed
qed

section \<open>An ambiguous creation\<close>

text \<open>When the provider rejects, the quarantined record gets no provider workspace.\<close>

lemma rejected_create_keeps_no_handle:
  assumes "\<And>v. \<exists>e. snd (wp_create ports pc v) = Inl e"
  shows "calls_within (\<lambda>c. \<forall>ti. c = W_TryTransition ti \<longrightarrow>
      ti_to ti = WS_QUARANTINED \<and> tp_providerWorkspaceId (ti_patch ti) = None) (providerCreate ports r f pc)"
proof -
  have edge: "ws_fire s Ws_quarantine gs = Some to \<Longrightarrow> to = WS_QUARANTINED" for s gs to
    by (cases s) (auto simp: fsm_simps split: if_splits)
  show ?thesis unfolding providerCreate_def markAmbiguous_def
    by (intro within_intros within_transition) (auto simp: no_patch_def dest: edge)
qed

text \<open>
  A workspace whose creation was ambiguous is declared destroyed without asking: for a
  quarantined record without a provider workspace, which is what a rejected or timed out provider
  call leaves although the provider may have created one, and a store whose transition does not invent one, every answer of \<open>requestDestroy\<close> is
  destroyed, DESTROYED is recorded last, and the provider is never called.
\<close>

theorem ambiguous_creation_destroyed_unasked:
  assumes "wp_load ports wid w = (w0, Inr r)" and "wr_status r = WS_QUARANTINED" and "wr_providerWorkspaceId r = None"
    and "\<And>ti r'. tp_providerWorkspaceId (ti_patch ti) = None \<Longrightarrow> snd (wp_tryTransition ports ti w0) = Inr (True, r') \<Longrightarrow>
           wr_providerWorkspaceId r' = None"
    and "eff_result (requestDestroy ports wid reason f) w = Inr out"
  shows "out = Outcome_destroyed \<and> (\<exists>t0 ti. ti_to t0 = WS_DESTROYING \<and> ti_to ti = WS_DESTROYED \<and>
    filter effectful (eff_calls (requestDestroy ports wid reason f) w) = [W_Load wid, W_TryTransition t0, W_TryTransition ti])"
proof -
  from assms(1,5) have k: "eff_result (destroy_loaded ports wid reason f r) w0 = Inr out" and
    c: "filter effectful (eff_calls (requestDestroy ports wid reason f) w) = W_Load wid # steps (destroy_loaded ports wid reason f r) w0"
    by (auto simp: requestDestroy_def steps_def eff_simps eff_if split: if_splits)
  from destroy_loaded_success [OF k] assms(2) obtain r1 cs t0 where
    d: "steps (destroy_loaded ports wid reason f r) w0 = W_TryTransition t0 # cs" "completed_by ports r1 cs out"
      "ti_to t0 = WS_DESTROYING" "tp_providerWorkspaceId (ti_patch t0) = None"
      "snd (wp_tryTransition ports t0 w0) = Inr (True, r1)" by (auto simp: began_by_def)
  from assms(4) [OF d(4,5)] d(2) obtain ti where "cs = [W_TryTransition ti]" "out = Outcome_destroyed" "ti_to ti = WS_DESTROYED"
    by (auto simp: completed_by_def answer_for_def)
  with c d(1,3) show ?thesis by auto
qed

section \<open>A concrete deployment\<close>

text \<open>
  A store of at most one record with compare-and-swap transitions, a provider that checks out what
  it was asked to, and well-formed identifiers.
\<close>

definition demo_sha :: string where "demo_sha = replicate 40 (CHR ''a'')"
definition demo_digest :: "string \<Rightarrow> string" where "demo_digest _ = replicate 64 (CHR ''b'')"
definition demo_id :: string where "demo_id = replicate 26 (CHR ''7'')"

definition demo_selector :: checkout_selector where "demo_selector = Sel_commit demo_sha"

definition demo_input :: create_workspace_input where
  "demo_input = \<lparr>ci_runId = demo_id, ci_sessionId = None, ci_repositoryId = demo_id, ci_selector = demo_selector,
     ci_limitProfileId = ''default'', ci_nowMs = 1000\<rparr>"

definition demo_record :: "workspace_reservation \<Rightarrow> workspace_record" where
  "demo_record v = \<lparr>wr_workspaceId = re_workspaceId v, wr_runId = re_runId v, wr_sessionId = re_sessionId v,
     wr_repositoryId = re_repositoryId v, wr_selector = re_selector v, wr_requestedRefKind = ''commit'',
     wr_requestedRef = [], wr_resolvedSha = None, wr_verifiedHeadSha = None, wr_providerWorkspaceId = None,
     wr_providerVersion = None, wr_capabilitySnapshotId = None, wr_limitProfileId = re_limitProfileId v,
     wr_status = WS_REQUESTED, wr_generation = re_generation v, wr_leaseOwner = Some (re_leaseOwner v),
     wr_leaseToken = Some (re_leaseToken v), wr_leaseExpiresAtMs = Some (re_leaseExpiresAtMs v), wr_rowVersion = 0,
     wr_createdAtMs = re_createdAtMs v, wr_readyAtMs = None, wr_destroyedAtMs = None, wr_failureCode = None,
     wr_failureDetailRedacted = None\<rparr>"

definition demo_fence :: workspace_fence where
  "demo_fence = \<lparr>fe_workspaceId = demo_id, fe_runId = demo_id, fe_generation = 1, fe_leaseToken = ''t'', fe_leaseExpiresAtMs = 61000\<rparr>"

definition demo_apply :: "transition_input \<Rightarrow> workspace_record \<Rightarrow> workspace_record" where
  "demo_apply ti r = r\<lparr>wr_status := ti_to ti, wr_rowVersion := wr_rowVersion r + 1,
     wr_providerWorkspaceId := (case tp_providerWorkspaceId (ti_patch ti) of None \<Rightarrow> wr_providerWorkspaceId r | Some p \<Rightarrow> Some p)\<rparr>"

definition demo_transition :: "transition_input \<Rightarrow> (workspace_record option, bool \<times> workspace_record) port" where
  "demo_transition ti w =
     (case w of
        None \<Rightarrow> (w, Inl (ErrorObject ''not found''))
      | Some r \<Rightarrow>
          if wr_rowVersion r = ti_expectedRowVersion ti \<and> wr_status r = ti_expectedStatus ti
          then (Some (demo_apply ti r), Inr (True, demo_apply ti r)) else (w, Inr (False, r)))"

definition demo_manifest :: capability_manifest where
  "demo_manifest = \<lparr>cm_provider = ''p'', cm_providerVersion = ''1'',
     cm_capabilities = map (\<lambda>c. (c, True)) WORKSPACE_CAPABILITY_NAMES\<rparr>"

definition demo_resolved :: resolved_checkout where
  "demo_resolved = \<lparr>rc_repositoryId = demo_id, canonicalOwner = ''o'', canonicalName = ''n'', rc_selector = demo_selector,
     resolvedSha = demo_sha, remoteFingerprint = ''github.com/o/n'', resolvedAtMs = 1000\<rparr>"

definition demo_created :: "provider_create \<Rightarrow> provider_created" where
  "demo_created pc = \<lparr>pr_providerWorkspaceId = ''pw'', pr_created = True,
     pr_snapshot = \<lparr>ps_status = Pv_ready, ps_observedHeadSha = Some (pl_sha (pc_checkout pc)),
       ps_observedRemoteFingerprint = Some (pl_remoteFingerprint (pc_checkout pc)), ps_treeHash = None\<rparr>\<rparr>"

definition demo_ports :: "workspace_record option workspace_ports" where
  "demo_ports =
     \<lparr>wp_load = (\<lambda>wid w. (w, case w of None \<Rightarrow> Inl (ErrorObject ''not found'') | Some r \<Rightarrow> Inr r)),
      wp_loadByRunId = (\<lambda>rid w. (w, Inr w)),
      wp_reserve = (\<lambda>v w. (Some (demo_record v), Inr (demo_record v))),
      wp_tryTransition = demo_transition,
      wp_renewLease = (\<lambda>lr w. (w, Inl (ErrorObject ''unused''))),
      wp_probe = (\<lambda>w. (w, Inr demo_manifest)),
      wp_resolve = (\<lambda>repo s t w. (w, Inr demo_resolved)),
      wp_create = (\<lambda>pc w. (w, Inr (demo_created pc))),
      wp_destroy = (\<lambda>pd w. (w, Inr True)),
      wp_attest = (\<lambda>a w. (w, Inr ())),
      wp_emit = (\<lambda>e w. (w, Inr ())),
      wp_now = (\<lambda>w. 1000), wp_workspaceUuid = (\<lambda>w. demo_id), wp_leaseToken = (\<lambda>w. ''t''), wp_attestationUuid = (\<lambda>w. demo_id)\<rparr>"

definition demo_options :: manager_options where
  "demo_options = \<lparr>leaseTtlMs = 60000, checkoutExecution = Execution_native\<rparr>"

lemma demo_create: "map_sum (\<lambda>_. ()) rf_status (eff_result (create demo_digest demo_ports demo_options demo_input) None) = Inr WS_READY"
  by code_simp

lemma demo_create_success:
  "\<exists>ref. eff_result (create demo_digest demo_ports demo_options demo_input) None = Inr ref \<and> rf_status ref = WS_READY"
  using demo_create by (cases "eff_result (create demo_digest demo_ports demo_options demo_input) None") simp_all

theorem created_workspace_is_verified_witness:
  "\<exists>ref commit t4. eff_result (create demo_digest demo_ports demo_options demo_input) None = Inr ref \<and>
     full_sha commit \<and> ti_to t4 = WS_READY \<and> tp_verifiedHeadSha (ti_patch t4) = Some commit \<and>
     last (filter effectful (eff_calls (create demo_digest demo_ports demo_options demo_input) None)) = W_TryTransition t4"
proof -
  from demo_create_success obtain ref where
    r: "eff_result (create demo_digest demo_ports demo_options demo_input) None = Inr ref" by blast
  have l: "wp_loadByRunId demo_ports (ci_runId demo_input) None = (None, Inr None)" by (simp add: demo_ports_def)
  from created_workspace_is_verified [OF l r] obtain wid token t1 t2 t3 t4 pc att commit where
    "filter effectful (eff_calls (create demo_digest demo_ports demo_options demo_input) None) =
      [W_LoadByRunId (ci_runId demo_input), W_Reserve (reservation_of demo_options demo_input wid token), W_Probe,
       W_Resolve (ci_repositoryId demo_input) (ci_selector demo_input) (ci_nowMs demo_input), W_TryTransition t1,
       W_ProviderCreate pc, W_TryTransition t2, W_TryTransition t3, W_Attest att, W_TryTransition t4]"
    "ti_to t4 = WS_READY" "full_sha commit" "tp_verifiedHeadSha (ti_patch t4) = Some commit" by auto
  with r show ?thesis by (intro exI [of _ ref] exI [of _ commit] exI [of _ t4]) simp
qed

definition demo_quarantined :: workspace_record where
  "demo_quarantined = (demo_record (reservation_of demo_options demo_input demo_id ''t''))\<lparr>wr_status := WS_QUARANTINED\<rparr>"

definition demo_destroying :: workspace_record where
  "demo_destroying = demo_quarantined\<lparr>wr_status := WS_DESTROYING, wr_providerWorkspaceId := Some ''pw''\<rparr>"

lemma demo_destroy:
  "eff_result (requestDestroy demo_ports demo_id ''cleanup'' demo_fence) (Some demo_quarantined) = Inr Outcome_destroyed"
  "eff_result (requestDestroy demo_ports demo_id ''cleanup'' demo_fence) (Some demo_destroying) = Inr Outcome_destroyed"
  by code_simp+

theorem destroy_answer_is_backed_witness:
  "\<exists>r cs pd. completed_by demo_ports r cs Outcome_destroyed \<and> W_ProviderDestroy pd \<in> set cs \<and> pd_providerWorkspaceId pd = ''pw''"
proof -
  have l: "wp_load demo_ports demo_id (Some demo_destroying) = (Some demo_destroying, Inr demo_destroying)"
    by (simp add: demo_ports_def)
  have s: "wr_status demo_destroying = WS_DESTROYING" "wr_providerWorkspaceId demo_destroying = Some ''pw''"
    by (simp_all add: demo_destroying_def)
  from destroy_answer_is_backed [OF demo_destroy(2)] l s(1) obtain cs where
    "completed_by demo_ports demo_destroying cs Outcome_destroyed" by (auto simp: began_by_def)
  with s(2) obtain ti pd where "cs = [W_ProviderDestroy pd, W_TryTransition ti]" "pd_providerWorkspaceId pd = ''pw''"
    by (auto simp: completed_by_def)
  with \<open>completed_by demo_ports demo_destroying cs Outcome_destroyed\<close> show ?thesis
    by (intro exI [of _ demo_destroying] exI [of _ cs] exI [of _ pd]) simp
qed

fun is_transition :: "workspace_call \<Rightarrow> bool" where
  "is_transition (W_TryTransition _) = True"
| "is_transition _ = False"


theorem ambiguous_creation_destroyed_unasked_witness:
  "\<exists>t0 ti. ti_to t0 = WS_DESTROYING \<and> ti_to ti = WS_DESTROYED \<and>
     filter effectful (eff_calls (requestDestroy demo_ports demo_id ''cleanup'' demo_fence) (Some demo_quarantined)) =
       [W_Load demo_id, W_TryTransition t0, W_TryTransition ti]"
proof -
  have l: "wp_load demo_ports demo_id (Some demo_quarantined) = (Some demo_quarantined, Inr demo_quarantined)"
    by (simp add: demo_ports_def)
  have q: "wr_status demo_quarantined = WS_QUARANTINED" "wr_providerWorkspaceId demo_quarantined = None"
    by (simp_all add: demo_quarantined_def demo_record_def)
  have k: "wr_providerWorkspaceId r' = None" if "tp_providerWorkspaceId (ti_patch ti) = None"
    "snd (wp_tryTransition demo_ports ti (Some demo_quarantined)) = Inr (True, r')" for ti r'
    using that q(2) by (auto simp: demo_ports_def demo_transition_def demo_apply_def split: if_splits)
  from ambiguous_creation_destroyed_unasked [OF l q, OF _ demo_destroy(1)] k show ?thesis by blast
qed

end
