(* ===== verification/Workflow_Executor.thy ===== *)
theory Workflow_Executor
  imports Port_Effects
begin

text \<open>
  The step executor, \<open>packages/workflows/src/executor/executor.ts\<close>: the retry classifier, the
  in-memory lock manager and \<open>WorkflowExecutor.execute\<close>.  The lock table is shared with other
  executions, so it is part of the world: the command port and the step handlers are arbitrary and
  may change it, which is where other executions interleave; between two acquisitions of one
  execution, and between two releases, no other execution runs in the model, although each is
  awaited in the code.  The clock and the random source are
  readings of the world; an expiry instant is kept in milliseconds.
\<close>

section \<open>Retry classification\<close>

datatype retry_class = Retry_safe | Retry_reconcile | Retry_no_retry | Retry_human_intervention

record retry_disposition =
  rd_kind :: retry_class
  rd_delayMs :: "int option"
  rd_reconcilerId :: "string option"
  rd_terminalCode :: "string option"

definition terminal_retry :: "retry_class \<Rightarrow> string \<Rightarrow> retry_disposition" where
  "terminal_retry k code = \<lparr>rd_kind = k, rd_delayMs = None, rd_reconcilerId = None, rd_terminalCode = Some code\<rparr>"

definition reconcile_retry :: "string \<Rightarrow> retry_disposition" where
  "reconcile_retry code =
     \<lparr>rd_kind = Retry_reconcile, rd_delayMs = None, rd_reconcilerId = Some code, rd_terminalCode = None\<rparr>"

definition classify_retry :: "string \<Rightarrow> retry_disposition" where
  "classify_retry code =
     (if code = ''POLICY_DENIED'' \<or> code = ''VALIDATION_FAILED'' \<or> code = ''PERMISSION_DENIED'' \<or> code = ''STALE_APPROVAL''
      then terminal_retry Retry_no_retry code
      else if code = ''SIDE_EFFECT_OUTCOME_UNKNOWN'' \<or> code = ''COMMAND_OUTCOME_UNKNOWN'' \<or> code = ''AGENT_OUTCOME_UNKNOWN''
      then reconcile_retry code
      else if code = ''RATE_LIMITED'' \<or> code = ''TRANSIENT_PROVIDER_FAULT''
      then \<lparr>rd_kind = Retry_safe, rd_delayMs = Some 2000, rd_reconcilerId = None, rd_terminalCode = None\<rparr>
      else reconcile_retry code)"

section \<open>The lock manager\<close>

datatype lock_state = LOCK_WAITING | LOCK_HELD | LOCK_RELEASING | LOCK_RELEASED | LOCK_EXPIRED | LOCK_RECONCILING

record lock_entry =
  lk_state :: lock_state
  lk_ownerRunId :: string
  lk_token :: string
  lk_untilMs :: int

type_synonym lock_table = "string \<rightharpoonup> lock_entry"

definition lock_token :: "string \<Rightarrow> string \<Rightarrow> int \<Rightarrow> string \<Rightarrow> string" where
  "lock_token owner key now rnd = ''lock:'' @ owner @ '':'' @ key @ '':'' @ js_int_str now @ '':'' @ rnd"

definition acquire_lock :: "string \<Rightarrow> string \<Rightarrow> int \<Rightarrow> int \<Rightarrow> string \<Rightarrow> lock_table \<Rightarrow> lock_table \<times> (string + string)" where
  "acquire_lock key owner ttl now rnd L =
     (case L key of
        Some e \<Rightarrow>
          if lk_state e = LOCK_HELD then (L, Inl (''held by '' @ lk_ownerRunId e))
          else (L(key \<mapsto> \<lparr>lk_state = LOCK_HELD, lk_ownerRunId = owner, lk_token = lock_token owner key now rnd,
                         lk_untilMs = now + ttl\<rparr>), Inr (lock_token owner key now rnd))
      | None \<Rightarrow>
          (L(key \<mapsto> \<lparr>lk_state = LOCK_HELD, lk_ownerRunId = owner, lk_token = lock_token owner key now rnd,
                    lk_untilMs = now + ttl\<rparr>), Inr (lock_token owner key now rnd)))"

definition release_lock :: "string \<Rightarrow> string \<Rightarrow> string \<Rightarrow> lock_table \<Rightarrow> lock_table" where
  "release_lock key owner token L =
     (case L key of
        Some e \<Rightarrow> if lk_ownerRunId e = owner \<and> lk_token e = token then L(key \<mapsto> e\<lparr>lk_state := LOCK_RELEASED\<rparr>) else L
      | None \<Rightarrow> L)"

section \<open>The executor\<close>

record step_job =
  sj_runId :: string
  sj_stepId :: string
  sj_executionGeneration :: int
  sj_cancellationGeneration :: int
  sj_traceId :: string
  sj_attempt :: int

datatype handler_result = Handler_ok | Handler_failed string

datatype exec_call =
    X_Acquire string
  | X_Release string string
  | X_VerifyCancellation string
  | X_Dispatch step_job
  | X_Run string step_job

type_synonym 'w exec_world = "'w \<times> lock_table"

record 'w executor_deps =
  ex_handlers :: "string \<rightharpoonup> (step_job \<Rightarrow> ('w exec_world, handler_result) port)"
  ex_verifyCancellation :: "string \<Rightarrow> ('w exec_world, bool) port"
  ex_dispatch :: "step_job \<Rightarrow> ('w exec_world, unit) port"
  ex_now :: "'w exec_world \<Rightarrow> int"
  ex_random :: "'w exec_world \<Rightarrow> string"
  ex_maxRetries :: int

datatype execute_result =
    Executed_ok
  | Not_executed retry_disposition string

definition acquireE :: "'w executor_deps \<Rightarrow> string \<Rightarrow> string \<Rightarrow> ('w exec_world, exec_call, string + string) eff" where
  "acquireE deps key owner =
     callE (X_Acquire key)
       (\<lambda>w. case acquire_lock key owner 30000 (ex_now deps w) (ex_random deps w) (snd w) of
              (L, r) \<Rightarrow> ((fst w, L), Inr r))"

definition releaseE :: "string \<Rightarrow> string \<times> string \<Rightarrow> ('w exec_world, exec_call, unit) eff" where
  "releaseE owner a =
     callE (X_Release (fst a) (snd a)) (\<lambda>w. ((fst w, release_lock (fst a) owner (snd a) (snd w)), Inr ()))"

fun release_all :: "string \<Rightarrow> (string \<times> string) list \<Rightarrow> ('w exec_world, exec_call, unit) eff" where
  "release_all owner [] = retE ()"
| "release_all owner (a # as) = bindE (releaseE owner a) (\<lambda>_. release_all owner as)"

fun acquire_loop ::
  "'w executor_deps \<Rightarrow> string \<Rightarrow> string list \<Rightarrow> (string \<times> string) list \<Rightarrow>
   ('w exec_world, exec_call, string + (string \<times> string) list) eff" where
  "acquire_loop deps owner [] acquired = retE (Inr acquired)"
| "acquire_loop deps owner (k # ks) acquired =
     bindE (acquireE deps k owner) (\<lambda>r.
       case r of
         Inl detail \<Rightarrow> bindE (release_all owner acquired) (\<lambda>_. retE (Inl detail))
       | Inr token \<Rightarrow> acquire_loop deps owner ks (acquired @ [(k, token)]))"

definition run_locked ::
  "'w executor_deps \<Rightarrow> (step_job \<Rightarrow> ('w exec_world, handler_result) port) \<Rightarrow> step_job \<Rightarrow> string \<Rightarrow> (string \<times> string) list \<Rightarrow>
   ('w exec_world, exec_call, execute_result) eff" where
  "run_locked deps handler job kind acquired =
     bindE (callE (X_VerifyCancellation (sj_runId job)) (ex_verifyCancellation deps (sj_runId job))) (\<lambda>supported.
     if \<not> supported \<and> kind = ''command''
     then retE (Not_executed (terminal_retry Retry_human_intervention ''CANCELLATION_INCOMPLETE'') ''cancellation unsupported'')
     else
     bindE (callE (X_Dispatch job) (ex_dispatch deps job)) (\<lambda>_.
     bindE (callE (X_Run kind job) (handler job)) (\<lambda>result.
     bindE (release_all (sj_runId job) acquired) (\<lambda>_.
     retE (case result of
             Handler_ok \<Rightarrow> Executed_ok
           | Handler_failed code \<Rightarrow> Not_executed (classify_retry code) code)))))"

definition execute ::
  "'w executor_deps \<Rightarrow> step_job \<Rightarrow> string \<Rightarrow> string list \<Rightarrow> ('w exec_world, exec_call, execute_result) eff" where
  "execute deps job kind locks =
     (if sj_attempt job > ex_maxRetries deps
      then retE (Not_executed (terminal_retry Retry_human_intervention ''RETRY_BUDGET_EXHAUSTED'') ''retry budget exhausted'')
      else case ex_handlers deps kind of
        None \<Rightarrow> retE (Not_executed (terminal_retry Retry_no_retry ''EXECUTION_FENCED'') (''no handler for '' @ kind))
      | Some handler \<Rightarrow>
          bindE (acquire_loop deps (sj_runId job) (js_sort js_compare locks) []) (\<lambda>r.
            case r of
              Inl detail \<Rightarrow> retE (Not_executed (terminal_retry Retry_no_retry ''RESOURCE_LOCKED'') detail)
            | Inr acquired \<Rightarrow> run_locked deps handler job kind acquired))"

section \<open>What holding a lock means\<close>

definition held_keys :: "lock_table \<Rightarrow> string set" where
  "held_keys L = {k. \<exists>e. L k = Some e \<and> lk_state e = LOCK_HELD}"

lemma acquire_refused_iff:
  "(\<exists>d. snd (acquire_lock k owner ttl now rnd L) = Inl d) \<longleftrightarrow> k \<in> held_keys L"
  by (auto simp: acquire_lock_def held_keys_def split: option.splits)

lemma acquire_refused_same:
  "acquire_lock k owner ttl now rnd L = (L', Inl d) \<Longrightarrow> L' = L \<and> k \<in> held_keys L"
  by (auto simp: acquire_lock_def held_keys_def split: option.splits if_splits)

lemma acquire_granted:
  "acquire_lock k owner ttl now rnd L = (L', Inr t) \<Longrightarrow>
     k \<notin> held_keys L \<and> (\<exists>e. L' = L(k \<mapsto> e) \<and> lk_state e = LOCK_HELD \<and> lk_ownerRunId e = owner \<and> lk_token e = t)"
  by (auto simp: acquire_lock_def held_keys_def split: option.splits if_splits)

lemma release_other: "k' \<noteq> k \<Longrightarrow> release_lock k owner t L k' = L k'"
  by (simp add: release_lock_def split: option.split)

lemma release_own:
  "L k = Some e \<Longrightarrow> lk_ownerRunId e = owner \<Longrightarrow> lk_token e = t \<Longrightarrow>
     release_lock k owner t L = L(k \<mapsto> e\<lparr>lk_state := LOCK_RELEASED\<rparr>)"
  by (simp add: release_lock_def)

datatype lock_op =
    Op_acquire string string int int string   \<comment> \<open>key, owner, ttl, now, random\<close>
  | Op_release string string string           \<comment> \<open>key, owner, token\<close>

fun lock_apply :: "lock_op \<Rightarrow> lock_table \<Rightarrow> lock_table" where
  "lock_apply (Op_acquire k owner ttl now rnd) L = fst (acquire_lock k owner ttl now rnd L)"
| "lock_apply (Op_release k owner t) L = release_lock k owner t L"

lemma held_kept:
  assumes "L k = Some e" and "lk_state e = LOCK_HELD" and "op \<noteq> Op_release k (lk_ownerRunId e) (lk_token e)"
  shows "lock_apply op L k = Some e"
proof (cases op)
  case (Op_acquire k' owner ttl now rnd)
  with assms show ?thesis by (auto simp: acquire_lock_def split: option.split)
next
  case (Op_release k' owner t)
  with assms show ?thesis by (auto simp: release_lock_def split: option.split)
qed

lemma fold_held:
  assumes "L k = Some e" and "lk_state e = LOCK_HELD" and "Op_release k (lk_ownerRunId e) (lk_token e) \<notin> set ops"
  shows "fold lock_apply ops L k = Some e"
  using assms(1,3)
proof (induction ops arbitrary: L)
  case (Cons op ops)
  have "lock_apply op L k = Some e" using Cons.prems assms(2) by (intro held_kept) auto
  with Cons.IH [of "lock_apply op L"] Cons.prems(2) show ?case by simp
qed simp

text \<open>
  A held lock is exclusive and never lapses: from a state in which a run holds a lock, whatever
  operations of whatever runs follow at whatever times, as long as none is the release with the
  holder's own run and token, the entry is unchanged and every further acquisition of the key is
  refused naming the holder.
\<close>

theorem held_lock_is_exclusive:
  assumes "L k = Some e" and "lk_state e = LOCK_HELD"
    and "Op_release k (lk_ownerRunId e) (lk_token e) \<notin> set ops"
  shows "fold lock_apply ops L k = Some e \<and>
    acquire_lock k owner ttl now rnd (fold lock_apply ops L) = (fold lock_apply ops L, Inl (''held by '' @ lk_ownerRunId e))"
  using fold_held [of L k e ops, OF assms] assms(2) by (simp add: acquire_lock_def)

section \<open>What an execution does with its locks\<close>

definition mine :: "lock_table \<Rightarrow> string \<Rightarrow> string \<Rightarrow> string \<Rightarrow> bool" where
  "mine L owner k t \<longleftrightarrow> (\<exists>e. L k = Some e \<and> lk_state e = LOCK_HELD \<and> lk_ownerRunId e = owner \<and> lk_token e = t)"

lemma mine_held: "mine L owner k t \<Longrightarrow> k \<in> held_keys L"
  by (auto simp: mine_def held_keys_def)

lemma mine_release [simp]: "k' \<noteq> k \<Longrightarrow> mine (release_lock k owner t L) owner' k' t' = mine L owner' k' t'"
  by (simp add: mine_def release_other)

lemma mine_upd [simp]: "k' \<noteq> k \<Longrightarrow> mine (L(k \<mapsto> e)) owner k' t = mine L owner k' t"
  by (simp add: mine_def)

lemma mine_upd_same [simp]:
  "mine (L(k \<mapsto> e)) owner k t \<longleftrightarrow> lk_state e = LOCK_HELD \<and> lk_ownerRunId e = owner \<and> lk_token e = t"
  by (simp add: mine_def)

definition owned :: "lock_table \<Rightarrow> string \<Rightarrow> (string \<times> string) list \<Rightarrow> bool" where
  "owned L owner as \<longleftrightarrow> distinct (map fst as) \<and> (\<forall>k t. (k, t) \<in> set as \<longrightarrow> mine L owner k t)"

lemma owned_held: "owned L owner as \<Longrightarrow> set (map fst as) \<subseteq> held_keys L"
  by (auto simp: owned_def) (blast intro: mine_held)

lemma owned_Cons: "owned L owner ((k, t) # as) \<longleftrightarrow> k \<notin> set (map fst as) \<and> mine L owner k t \<and> owned L owner as"
  by (auto simp: owned_def)

lemma owned_release: "owned L owner as \<Longrightarrow> k \<notin> set (map fst as) \<Longrightarrow> owned (release_lock k owner' t L) owner as"
  by (auto simp: owned_def image_iff)

lemma owned_snoc:
  "owned L owner as \<Longrightarrow> k \<notin> set (map fst as) \<Longrightarrow> mine (L(k \<mapsto> e)) owner k t \<Longrightarrow> owned (L(k \<mapsto> e)) owner (as @ [(k, t)])"
  by (auto simp: owned_def image_iff)

lemma releaseE_simps [simp]:
  "eff_calls (releaseE owner a) w = [X_Release (fst a) (snd a)]"
  "eff_result (releaseE owner a) w = Inr ()"
  "eff_world (releaseE owner a) w = (fst w, release_lock (fst a) owner (snd a) (snd w))"
  by (simp_all add: releaseE_def)

lemma release_all_simps [simp]:
  "eff_calls (release_all owner as) w = map (\<lambda>a. X_Release (fst a) (snd a)) as"
  "eff_result (release_all owner as) w = Inr ()"
  by (induction as arbitrary: w) (simp_all add: eff_simps)

lemma held_release_own: "mine L owner k t \<Longrightarrow> held_keys (release_lock k owner t L) = held_keys L - {k}"
  by (auto simp: mine_def release_own held_keys_def split: if_splits)

lemma release_all_held:
  "owned (snd w) owner as \<Longrightarrow>
     held_keys (snd (eff_world (release_all owner as) w)) = held_keys (snd w) - set (map fst as)"
proof (induction as arbitrary: w)
  case (Cons a as)
  obtain k t where a: "a = (k, t)" by (cases a)
  with Cons.prems have o: "owned (release_lock k owner t (snd w)) owner as" "mine (snd w) owner k t"
    by (auto simp: owned_Cons intro: owned_release)
  from Cons.IH [of "(fst w, release_lock k owner t (snd w))"] o(1) show ?case
    by (auto simp: eff_simps a held_release_own [OF o(2)])
qed (simp add: eff_simps)

lemma acquireE_simps:
  "eff_calls (acquireE deps k owner) w = [X_Acquire k]"
  "\<exists>r. eff_result (acquireE deps k owner) w = Inr r \<and>
     acquire_lock k owner 30000 (ex_now deps w) (ex_random deps w) (snd w) = (snd (eff_world (acquireE deps k owner) w), r)"
  by (simp_all add: acquireE_def split: prod.split)

lemma acquireE_cases:
  obtains (refused) d where "eff_result (acquireE deps k owner) w = Inr (Inl d)"
      "snd (eff_world (acquireE deps k owner) w) = snd w" "k \<in> held_keys (snd w)"
  | (granted) t e where "eff_result (acquireE deps k owner) w = Inr (Inr t)"
      "snd (eff_world (acquireE deps k owner) w) = (snd w)(k \<mapsto> e)" "k \<notin> held_keys (snd w)"
      "lk_state e = LOCK_HELD" "lk_ownerRunId e = owner" "lk_token e = t"
proof -
  from acquireE_simps(2) obtain r where r: "eff_result (acquireE deps k owner) w = Inr r"
    "acquire_lock k owner 30000 (ex_now deps w) (ex_random deps w) (snd w) = (snd (eff_world (acquireE deps k owner) w), r)"
    by blast
  show thesis
  proof (cases r)
    case (Inl d)
    with r acquire_refused_same that(1) show ?thesis by metis
  next
    case (Inr t)
    with r(2) acquire_granted obtain e where "k \<notin> held_keys (snd w)"
      "snd (eff_world (acquireE deps k owner) w) = (snd w)(k \<mapsto> e)"
      "lk_state e = LOCK_HELD" "lk_ownerRunId e = owner" "lk_token e = t" by metis
    with r(1) Inr that(2) show ?thesis by blast
  qed
qed

lemma held_upd: "lk_state e = LOCK_HELD \<Longrightarrow> held_keys (L(k \<mapsto> e)) = insert k (held_keys L)"
  by (auto simp: held_keys_def)

text \<open>The loop gets all locks or none, and it gets them exactly if they are distinct and free.\<close>

lemma acquire_loop_outcome:
  assumes "owned (snd w) owner acq"
  shows "if distinct ks \<and> set ks \<inter> held_keys (snd w) = {}
    then \<exists>acq'. eff_result (acquire_loop deps owner ks acq) w = Inr (Inr acq') \<and> map fst acq' = map fst acq @ ks \<and>
      owned (snd (eff_world (acquire_loop deps owner ks acq) w)) owner acq' \<and>
      held_keys (snd (eff_world (acquire_loop deps owner ks acq) w)) = held_keys (snd w) \<union> set ks \<and>
      eff_calls (acquire_loop deps owner ks acq) w = map X_Acquire ks
    else \<exists>d. eff_result (acquire_loop deps owner ks acq) w = Inr (Inl d) \<and>
      held_keys (snd (eff_world (acquire_loop deps owner ks acq) w)) = held_keys (snd w) - set (map fst acq) \<and>
      (\<forall>c \<in> set (eff_calls (acquire_loop deps owner ks acq) w). (\<exists>k. c = X_Acquire k) \<or> (\<exists>k t. c = X_Release k t))"
  using assms
proof (induction ks arbitrary: acq w)
  case (Cons k ks)
  let ?w = "eff_world (acquireE deps k owner) w"
  show ?case
  proof (cases rule: acquireE_cases [of deps k owner w])
    case (refused d)
    then have "owned (snd ?w) owner acq" using Cons.prems by simp
    from release_all_held [OF this] refused show ?thesis
      by (auto simp: eff_simps acquireE_simps(1))
  next
    case (granted t e)
    have fresh: "k \<notin> set (map fst acq)" using owned_held [OF Cons.prems] granted(3) by blast
    have o: "owned (snd ?w) owner (acq @ [(k, t)])"
      using owned_snoc [OF Cons.prems fresh, of e t] granted by simp
    have h: "held_keys (snd ?w) = insert k (held_keys (snd w))" using granted by (simp add: held_upd)
    have c: "distinct (k # ks) \<and> set (k # ks) \<inter> held_keys (snd w) = {} \<longleftrightarrow> distinct ks \<and> set ks \<inter> held_keys (snd ?w) = {}"
      using granted(3) by (auto simp: h)
    from Cons.IH [OF o] show ?thesis
      unfolding c using granted(1,3) fresh h
      by (auto simp: eff_simps acquireE_simps(1) split: if_splits)
  qed
qed (simp add: owned_def)

definition keeps_locks :: "'w executor_deps \<Rightarrow> bool" where
  "keeps_locks deps \<longleftrightarrow>
     (\<forall>run w. snd (fst (ex_verifyCancellation deps run w)) = snd w) \<and>
     (\<forall>job w. snd (fst (ex_dispatch deps job w)) = snd w) \<and>
     (\<forall>kind h job w. ex_handlers deps kind = Some h \<longrightarrow> snd (fst (h job w)) = snd w)"

lemma run_locked_calls:
  "eff_calls (run_locked deps h job kind acq) w =
     X_VerifyCancellation (sj_runId job) #
     (case snd (ex_verifyCancellation deps (sj_runId job) w) of
        Inl _ \<Rightarrow> []
      | Inr supported \<Rightarrow>
          if \<not> supported \<and> kind = ''command'' then []
          else X_Dispatch job #
            (let w1 = fst (ex_verifyCancellation deps (sj_runId job) w) in
             case snd (ex_dispatch deps job w1) of
               Inl _ \<Rightarrow> []
             | Inr _ \<Rightarrow> X_Run kind job #
                 (case snd (h job (fst (ex_dispatch deps job w1))) of
                    Inl _ \<Rightarrow> [] | Inr _ \<Rightarrow> map (\<lambda>a. X_Release (fst a) (snd a)) acq)))"
  by (simp add: run_locked_def eff_simps eff_if Let_def split: sum.split)

lemma run_locked_balance:
  assumes "keeps_locks deps" and "ex_handlers deps kind = Some h" and "owned (snd w) (sj_runId job) acq"
  shows "case eff_result (run_locked deps h job kind acq) w of
      Inl _ \<Rightarrow> held_keys (snd (eff_world (run_locked deps h job kind acq) w)) = held_keys (snd w)
    | Inr Executed_ok \<Rightarrow> held_keys (snd (eff_world (run_locked deps h job kind acq) w)) = held_keys (snd w) - set (map fst acq)
    | Inr (Not_executed d _) \<Rightarrow> held_keys (snd (eff_world (run_locked deps h job kind acq) w)) =
        (if rd_terminalCode d = Some ''CANCELLATION_INCOMPLETE'' then held_keys (snd w) else held_keys (snd w) - set (map fst acq))"
proof -
  from assms(1,2) have k: "\<And>run w. snd (fst (ex_verifyCancellation deps run w)) = snd w"
    "\<And>job w. snd (fst (ex_dispatch deps job w)) = snd w" "\<And>job w. snd (fst (h job w)) = snd w"
    by (auto simp: keeps_locks_def)
  have rel: "held_keys (snd (eff_world (release_all (sj_runId job) acq) v)) = held_keys (snd w) - set (map fst acq)"
    if "snd v = snd w" for v :: "'a \<times> lock_table" using release_all_held [of v "sj_runId job" acq] assms(3) that by simp
  have code: "rd_terminalCode (classify_retry c) \<noteq> Some ''CANCELLATION_INCOMPLETE''" for c
    by (simp add: classify_retry_def terminal_retry_def reconcile_retry_def)
  show ?thesis
    by (auto simp: run_locked_def eff_simps eff_if k rel code terminal_retry_def split: sum.splits handler_result.splits)
qed

lemma execution_lock_balance_held:
  assumes "keeps_locks deps" and "sj_attempt job \<le> ex_maxRetries deps" and "ex_handlers deps kind = Some h"
  shows "if distinct locks \<and> set locks \<inter> held_keys (snd w) = {}
    then (case eff_result (execute deps job kind locks) w of
        Inl _ \<Rightarrow> held_keys (snd (eff_world (execute deps job kind locks) w)) = held_keys (snd w) \<union> set locks
      | Inr Executed_ok \<Rightarrow> held_keys (snd (eff_world (execute deps job kind locks) w)) = held_keys (snd w)
      | Inr (Not_executed d _) \<Rightarrow> held_keys (snd (eff_world (execute deps job kind locks) w)) =
          held_keys (snd w) \<union> (if rd_terminalCode d = Some ''CANCELLATION_INCOMPLETE'' then set locks else {}))
    else (\<exists>detail. eff_result (execute deps job kind locks) w =
            Inr (Not_executed (terminal_retry Retry_no_retry ''RESOURCE_LOCKED'') detail)) \<and>
      held_keys (snd (eff_world (execute deps job kind locks) w)) = held_keys (snd w)"
proof -
  let ?ks = "js_sort js_compare locks" and ?a = "acquire_loop deps (sj_runId job) (js_sort js_compare locks) []"
  have e: "execute deps job kind locks = bindE ?a (\<lambda>r. case r of
      Inl detail \<Rightarrow> retE (Not_executed (terminal_retry Retry_no_retry ''RESOURCE_LOCKED'') detail)
    | Inr acquired \<Rightarrow> run_locked deps h job kind acquired)" using assms(2,3) by (simp add: execute_def)
  have "owned (snd w) (sj_runId job) []" by (simp add: owned_def)
  note a = acquire_loop_outcome [OF this, where ks = ?ks and deps = deps]
  show ?thesis
  proof (cases "distinct locks \<and> set locks \<inter> held_keys (snd w) = {}")
    case True
    with a obtain acq where acq: "eff_result ?a w = Inr (Inr acq)" "set (map fst acq) = set locks"
      "owned (snd (eff_world ?a w)) (sj_runId job) acq" "held_keys (snd (eff_world ?a w)) = held_keys (snd w) \<union> set locks"
      by (auto simp del: set_map)
    from run_locked_balance [OF assms(1,3) acq(3)] True acq(1,2,4) show ?thesis
      by (auto simp: e eff_simps split: sum.splits execute_result.splits if_splits)
  next
    case False
    with a show ?thesis by (auto simp: e eff_simps)
  qed
qed

text \<open>
  The lock balance of an execution, for ports that leave the lock table alone.  Locks that are free
  and distinct are all taken, otherwise none is and the answer is RESOURCE_LOCKED.  An execution
  that answers leaves exactly the locks held that were held before; but when cancellation is
  unsupported for a command, and when a port or the handler throws, every lock of the step
  stays held.
\<close>

theorem execution_lock_balance:
  assumes "keeps_locks deps" and "sj_attempt job \<le> ex_maxRetries deps" and "ex_handlers deps kind = Some h"
  shows "if distinct locks \<and> set locks \<inter> held_keys (snd w) = {}
    then (case eff_result (execute deps job kind locks) w of
        Inl _ \<Rightarrow> held_keys (snd (eff_world (execute deps job kind locks) w)) = held_keys (snd w) \<union> set locks
      | Inr Executed_ok \<Rightarrow> held_keys (snd (eff_world (execute deps job kind locks) w)) = held_keys (snd w)
      | Inr (Not_executed d _) \<Rightarrow> held_keys (snd (eff_world (execute deps job kind locks) w)) =
          held_keys (snd w) \<union> (if rd_terminalCode d = Some ''CANCELLATION_INCOMPLETE'' then set locks else {}))
    else (\<exists>detail. eff_result (execute deps job kind locks) w =
            Inr (Not_executed (terminal_retry Retry_no_retry ''RESOURCE_LOCKED'') detail)) \<and>
      held_keys (snd (eff_world (execute deps job kind locks) w)) = held_keys (snd w)"
  by (rule execution_lock_balance_held [OF assms])

text \<open>
  Property C25.  A step handler runs at most once per execution, on whatever ports, and only after every lock of
  the step was free and was acquired in sorted order, cancellation support was asked and the job
  was dispatched; only releases follow.  Other executions change the lock table in the port calls and the handler,
  not between two acquisitions.
\<close>

theorem handler_runs_under_its_locks:
  assumes "X_Run k j \<in> set (eff_calls (execute deps job kind locks) w)"
  shows "k = kind \<and> j = job \<and> distinct locks \<and> set locks \<inter> held_keys (snd w) = {} \<and>
    (\<exists>rest. eff_calls (execute deps job kind locks) w =
       map X_Acquire (js_sort js_compare locks) @
       [X_VerifyCancellation (sj_runId job), X_Dispatch job, X_Run kind job] @ rest \<and>
       (\<forall>c \<in> set rest. \<exists>key token. c = X_Release key token))"
proof -
  let ?ks = "js_sort js_compare locks" and ?a = "acquire_loop deps (sj_runId job) (js_sort js_compare locks) []"
  from assms obtain h where e: "execute deps job kind locks = bindE ?a (\<lambda>r. case r of
      Inl detail \<Rightarrow> retE (Not_executed (terminal_retry Retry_no_retry ''RESOURCE_LOCKED'') detail)
    | Inr acquired \<Rightarrow> run_locked deps h job kind acquired)"
    by (auto simp: execute_def split: if_splits option.splits)
  have "owned (snd w) (sj_runId job) []" by (simp add: owned_def)
  note a = acquire_loop_outcome [OF this, where ks = ?ks and deps = deps]
  have free: "distinct locks \<and> set locks \<inter> held_keys (snd w) = {}"
    using a assms by (auto simp: e eff_simps split: if_splits)
  with a obtain acq where acq: "eff_result ?a w = Inr (Inr acq)" "eff_calls ?a w = map X_Acquire ?ks" by auto
  with assms free show ?thesis
    by (auto simp: e eff_simps run_locked_calls Let_def split: sum.splits if_splits)
qed

section \<open>Leaked locks\<close>

lemma held_locks_refuse:
  assumes "\<not> (distinct locks \<and> set locks \<inter> held_keys (snd w) = {})" and "sj_attempt job \<le> ex_maxRetries deps"
    and "ex_handlers deps kind = Some h"
  shows "\<exists>detail. eff_result (execute deps job kind locks) w =
    Inr (Not_executed (terminal_retry Retry_no_retry ''RESOURCE_LOCKED'') detail)"
proof -
  have "owned (snd w) (sj_runId job) []" by (simp add: owned_def)
  from acquire_loop_outcome [OF this, where ks = "js_sort js_compare locks" and deps = deps] assms show ?thesis
    by (auto simp: execute_def eff_simps)
qed

text \<open>
  A command step that is refused because cancellation is unsupported keeps its locks: afterwards,
  whatever other lock operations run at whatever times as long as they are not releases with the
  leaked token, every execution that needs one of the keys is answered RESOURCE_LOCKED, and a step
  that names a key twice is refused in every state.
\<close>

theorem refused_command_keeps_its_locks:
  assumes "keeps_locks deps" and "sj_attempt job \<le> ex_maxRetries deps" and "ex_handlers deps ''command'' = Some h"
    and "snd (ex_verifyCancellation deps (sj_runId job) (eff_world (acquire_loop deps (sj_runId job) (js_sort js_compare locks) []) w)) = Inr False"
    and "distinct locks" and "set locks \<inter> held_keys (snd w) = {}" and "key \<in> set locks"
    and "\<And>k owner t. Op_release k owner t \<notin> set ops"
    and "sj_attempt job' \<le> ex_maxRetries deps'" and "ex_handlers deps' kind' = Some h'" and "key \<in> set locks'"
    and "snd w' = fold lock_apply ops (snd (eff_world (execute deps job ''command'' locks) w))"
  shows "\<exists>detail. eff_result (execute deps' job' kind' locks') w' =
    Inr (Not_executed (terminal_retry Retry_no_retry ''RESOURCE_LOCKED'') detail)"
proof -
  let ?L = "snd (eff_world (execute deps job ''command'' locks) w)"
  have "owned (snd w) (sj_runId job) []" by (simp add: owned_def)
  from acquire_loop_outcome [OF this, where ks = "js_sort js_compare locks" and deps = deps] have "\<exists>d. eff_result (execute deps job ''command'' locks) w =
      Inr (Not_executed (terminal_retry Retry_human_intervention ''CANCELLATION_INCOMPLETE'') d)"
    using assms(2-6) by (auto simp: execute_def run_locked_def eff_simps)
  with execution_lock_balance_held [OF assms(1-3), of locks w] assms(5-7) have "key \<in> held_keys ?L" by (auto simp: terminal_retry_def)
  then obtain e where e: "?L key = Some e" "lk_state e = LOCK_HELD" by (auto simp: held_keys_def)
  have "fold lock_apply ops ?L key = Some e" using fold_held [of ?L key e ops, OF e] assms(8) by blast
  with e(2) assms(12) have "key \<in> held_keys (snd w')" by (auto simp: held_keys_def)
  with assms(11) held_locks_refuse [OF _ assms(9,10), of locks' w'] show ?thesis by blast
qed

section \<open>A concrete executor\<close>

definition sample_executor :: "bool \<Rightarrow> unit executor_deps" where
  "sample_executor supported =
     \<lparr>ex_handlers = [''command'' \<mapsto> (\<lambda>job w. (w, Inr Handler_ok))], ex_verifyCancellation = (\<lambda>run w. (w, Inr supported)),
      ex_dispatch = (\<lambda>job w. (w, Inr ())), ex_now = (\<lambda>w. 0), ex_random = (\<lambda>w. ''0.5''), ex_maxRetries = 3\<rparr>"

definition sample_step :: step_job where
  "sample_step = \<lparr>sj_runId = ''run'', sj_stepId = ''s'', sj_executionGeneration = 0, sj_cancellationGeneration = 0,
     sj_traceId = ''t'', sj_attempt = 1\<rparr>"

lemma sample_executor_keeps: "keeps_locks (sample_executor b)"
  by (simp add: keeps_locks_def sample_executor_def)

lemma sample_executor_fields:
  "sj_attempt sample_step \<le> ex_maxRetries (sample_executor b)"
  "ex_handlers (sample_executor b) ''command'' = Some (\<lambda>job w. (w, Inr Handler_ok))"
  by (simp_all add: sample_executor_def sample_step_def)

lemma no_locks: "held_keys Map.empty = {}"
  by (simp add: held_keys_def)

theorem held_lock_is_exclusive_witness:
  "acquire_lock ''k'' ''other'' 1 999999 ''x'' (fst (acquire_lock ''k'' ''run'' 30000 0 ''y'' Map.empty)) =
     (fst (acquire_lock ''k'' ''run'' 30000 0 ''y'' Map.empty), Inl ''held by run'')"
  using held_lock_is_exclusive [of "fst (acquire_lock ''k'' ''run'' 30000 0 ''y'' Map.empty)" "''k''"
      "\<lparr>lk_state = LOCK_HELD, lk_ownerRunId = ''run'', lk_token = lock_token ''run'' ''k'' 0 ''y'', lk_untilMs = 30000\<rparr>" "[]"
      "''other''" 1 999999 "''x''"]
  by (simp add: acquire_lock_def)

theorem execution_lock_balance_witness:
  "held_keys (snd (eff_world (execute (sample_executor True) sample_step ''command'' [''b'', ''a'']) ((), Map.empty))) = {}"
proof -
  have "eff_result (execute (sample_executor True) sample_step ''command'' [''b'', ''a'']) ((), Map.empty) = Inr Executed_ok"
    by code_simp
  with execution_lock_balance [OF sample_executor_keeps [of True] sample_executor_fields, where locks = "[''b'', ''a'']" and w = "((), Map.empty)"] show ?thesis
    by (simp add: no_locks)
qed

theorem handler_runs_under_its_locks_witness:
  "\<exists>rest. eff_calls (execute (sample_executor True) sample_step ''command'' [''b'', ''a'']) ((), Map.empty) =
     [X_Acquire ''a'', X_Acquire ''b'', X_VerifyCancellation ''run'', X_Dispatch sample_step, X_Run ''command'' sample_step] @ rest"
proof -
  have "list_ex (\<lambda>c. c = X_Run ''command'' sample_step)
      (eff_calls (execute (sample_executor True) sample_step ''command'' [''b'', ''a'']) ((), Map.empty))" by code_simp
  then have "X_Run ''command'' sample_step \<in>
      set (eff_calls (execute (sample_executor True) sample_step ''command'' [''b'', ''a'']) ((), Map.empty))"
    by (simp add: list_ex_iff)
  from handler_runs_under_its_locks [OF this] have "\<exists>rest. eff_calls (execute (sample_executor True) sample_step ''command'' [''b'', ''a'']) ((), Map.empty) =
     map X_Acquire (js_sort js_compare [''b'', ''a'']) @
       [X_VerifyCancellation (sj_runId sample_step), X_Dispatch sample_step, X_Run ''command'' sample_step] @ rest" by blast
  moreover have "js_sort js_compare [''b'', ''a''] = [''a'', ''b'']" by code_simp
  ultimately show ?thesis by (simp add: sample_step_def)
qed

theorem refused_command_keeps_its_locks_witness:
  "\<exists>detail. eff_result (execute (sample_executor True) sample_step ''command'' [''a''])
     (eff_world (execute (sample_executor False) sample_step ''command'' [''a'']) ((), Map.empty)) =
     Inr (Not_executed (terminal_retry Retry_no_retry ''RESOURCE_LOCKED'') detail)"
  by (rule refused_command_keeps_its_locks [OF sample_executor_keeps sample_executor_fields, where locks = "[''a'']"
      and key = "''a''" and ops = "[]" and w = "((), Map.empty)"])
     (simp_all add: no_locks sample_step_def sample_executor_def)

end
