(* ===== verification/Workflow_Validation.thy ===== *)
theory Workflow_Validation
  imports DG_Prelude
begin

text \<open>
  Validation aggregation, \<open>packages/workflows/src/validation/aggregator.ts\<close>: the aggregate gate with
  its outcome contract, the default freshness evaluator and the outcome store.  \<open>Date.parse\<close> is an
  argument (\<open>None\<close> for an unparsable text), and so is the clock.
\<close>

datatype item_state =
    VI_PENDING | VI_READY | VI_RUNNING | VI_COLLECTING_EVIDENCE | VI_RETRY_WAIT | VI_PASSED | VI_FAILED
  | VI_SKIPPED | VI_BLOCKED | VI_ERROR | VI_STALE | VI_CANCELLING | VI_CANCELLED

datatype aggregate_gate =
    AG_PLANNED | AG_RUNNING | AG_EVALUATING | AG_SATISFIED | AG_UNSATISFIED | AG_BLOCKED | AG_STALE

record validation_result =
  vr_validatorId :: string
  vr_validatorVersion :: string
  vr_status :: item_state
  vr_mandatory :: bool
  vr_targetSha :: string
  vr_observedAtIso :: string
  vr_validUntilIso :: "string option"
  vr_findingIds :: "string list"

datatype scan_state = Scan_SAFE | Scan_QUARANTINED | Scan_REJECTED

record outcome_evidence =
  oe_runId :: string
  oe_completedItems :: "string list"
  oe_notCompletedItems :: "string list"
  oe_artifactScanStates :: "string \<rightharpoonup> scan_state"
  oe_requiredArtifactIds :: "string list"
  oe_prPendingApproval :: bool

datatype outcome_kind =
    Out_success | Out_partial | Out_blocked | Out_failed | Out_cancelled | Out_rejected | Out_timed_out

datatype outcome_retryability = Out_safe | Out_reconcile | Out_required_user_action | Out_none

record workflow_outcome =
  wo_runId :: string
  wo_kind :: outcome_kind
  wo_summary :: string
  wo_retryability :: outcome_retryability
  wo_nextAction :: string

record aggregate_expectations =
  ae_targetSha :: "string option"
  ae_validatorIds :: "string list option"

definition outcome_of ::
  "outcome_evidence \<Rightarrow> outcome_kind \<Rightarrow> string \<Rightarrow> outcome_retryability \<Rightarrow> string \<Rightarrow> workflow_outcome" where
  "outcome_of ev kind summary retry next =
     \<lparr>wo_runId = oe_runId ev, wo_kind = kind, wo_summary = summary, wo_retryability = retry, wo_nextAction = next\<rparr>"

definition NoopFreshnessEvaluator :: "(string \<Rightarrow> int option) \<Rightarrow> int \<Rightarrow> validation_result \<Rightarrow> bool" where
  "NoopFreshnessEvaluator parse now r =
     (case vr_validUntilIso r of
        None \<Rightarrow> False
      | Some u \<Rightarrow>
          (case (parse (vr_observedAtIso r), parse u) of
             (Some observed, Some validUntil) \<Rightarrow> observed \<le> now \<and> validUntil \<ge> now
           | _ \<Rightarrow> False))"

definition bad_result :: "aggregate_expectations \<Rightarrow> validation_result \<Rightarrow> bool" where
  "bad_result ex r \<longleftrightarrow>
     vr_status r = VI_BLOCKED \<or> vr_status r = VI_ERROR \<or>
     (case ae_targetSha ex of None \<Rightarrow> False | Some sha \<Rightarrow> vr_targetSha r \<noteq> sha)"

definition evidence_missing :: "aggregate_expectations \<Rightarrow> validation_result list \<Rightarrow> bool" where
  "evidence_missing ex rs =
     (case ae_validatorIds ex of
        None \<Rightarrow> False
      | Some ids \<Rightarrow> list_ex (\<lambda>i. \<not> list_ex (\<lambda>r. vr_validatorId r = i \<and> vr_status r = VI_PASSED) rs) ids)"

definition aggregate ::
  "(validation_result \<Rightarrow> bool) \<Rightarrow> validation_result list \<Rightarrow> outcome_evidence \<Rightarrow> aggregate_expectations \<Rightarrow>
   aggregate_gate \<times> workflow_outcome" where
  "aggregate isFresh rs ev ex =
     (if evidence_missing ex rs
      then (AG_UNSATISFIED, outcome_of ev Out_failed ''required validation evidence missing'' Out_required_user_action
              ''run required validations'')
      else if list_ex (bad_result ex) rs
      then (AG_BLOCKED, outcome_of ev Out_blocked ''blocked'' Out_required_user_action ''resolve blocked validation'')
      else if list_ex (\<lambda>r. \<not> isFresh r) rs
      then (AG_STALE, outcome_of ev Out_blocked ''blocked'' Out_required_user_action ''re-run stale validation'')
      else case find (\<lambda>r. vr_mandatory r \<and> vr_status r \<noteq> VI_PASSED) rs of
        Some r \<Rightarrow>
          (AG_UNSATISFIED, outcome_of ev Out_failed (vr_validatorId r @ '' not passed'')
             (if vr_status r = VI_FAILED then Out_required_user_action else Out_safe) ''fix failed validation'')
      | None \<Rightarrow>
      case find (\<lambda>a. oe_artifactScanStates ev a \<noteq> Some Scan_SAFE) (oe_requiredArtifactIds ev) of
        Some a \<Rightarrow>
          (AG_UNSATISFIED, outcome_of ev Out_failed (''artifact '' @ a @ '' not safe'') Out_required_user_action
             ''quarantine/replace artifact'')
      | None \<Rightarrow>
      if oe_notCompletedItems ev \<noteq> []
      then (AG_UNSATISFIED, outcome_of ev Out_partial ''workflow items remain incomplete'' Out_required_user_action
              ''complete remaining items'')
      else if oe_prPendingApproval ev
      then (AG_UNSATISFIED, outcome_of ev Out_partial ''awaiting PR approval'' Out_required_user_action ''await approval'')
      else (AG_SATISFIED, outcome_of ev Out_success ''all validations passed and artifacts safe'' Out_none ''complete''))"

text \<open>\<open>InMemoryOutcomeStore\<close>\<close>

definition commit_outcome :: "workflow_outcome \<Rightarrow> (string \<rightharpoonup> workflow_outcome) \<Rightarrow> (string \<rightharpoonup> workflow_outcome)" where
  "commit_outcome out st = st(wo_runId out \<mapsto> out)"

definition get_outcome :: "string \<Rightarrow> (string \<rightharpoonup> workflow_outcome) \<Rightarrow> workflow_outcome option" where
  "get_outcome runId st = st runId"

section \<open>When a workflow may claim success\<close>

text \<open>The abstract contract of the gate: what has to hold of the evidence, without any order of checks.\<close>

definition all_evidence_holds ::
  "(validation_result \<Rightarrow> bool) \<Rightarrow> validation_result list \<Rightarrow> outcome_evidence \<Rightarrow> aggregate_expectations \<Rightarrow> bool" where
  "all_evidence_holds isFresh rs ev ex \<longleftrightarrow>
     (\<forall>ids i. ae_validatorIds ex = Some ids \<longrightarrow> i \<in> set ids \<longrightarrow> (\<exists>r \<in> set rs. vr_validatorId r = i \<and> vr_status r = VI_PASSED)) \<and>
     (\<forall>r \<in> set rs. vr_status r \<notin> {VI_BLOCKED, VI_ERROR} \<and> isFresh r \<and> (vr_mandatory r \<longrightarrow> vr_status r = VI_PASSED) \<and>
        (\<forall>sha. ae_targetSha ex = Some sha \<longrightarrow> vr_targetSha r = sha)) \<and>
     (\<forall>a \<in> set (oe_requiredArtifactIds ev). oe_artifactScanStates ev a = Some Scan_SAFE) \<and>
     oe_notCompletedItems ev = [] \<and> \<not> oe_prPendingApproval ev"

lemma missing_iff: "evidence_missing ex rs \<longleftrightarrow>
    \<not> (\<forall>ids i. ae_validatorIds ex = Some ids \<longrightarrow> i \<in> set ids \<longrightarrow> (\<exists>r \<in> set rs. vr_validatorId r = i \<and> vr_status r = VI_PASSED))"
  by (auto simp: evidence_missing_def list_ex_iff split: option.splits)

lemma bad_iff: "bad_result ex r \<longleftrightarrow>
    \<not> (vr_status r \<notin> {VI_BLOCKED, VI_ERROR} \<and> (\<forall>sha. ae_targetSha ex = Some sha \<longrightarrow> vr_targetSha r = sha))"
  by (auto simp: bad_result_def split: option.splits)

lemma aggregate_success:
  "(fst (aggregate isFresh rs ev ex) = AG_SATISFIED \<longleftrightarrow> all_evidence_holds isFresh rs ev ex) \<and>
   (wo_kind (snd (aggregate isFresh rs ev ex)) = Out_success \<longleftrightarrow> all_evidence_holds isFresh rs ev ex) \<and>
   wo_runId (snd (aggregate isFresh rs ev ex)) = oe_runId ev"
proof (cases "all_evidence_holds isFresh rs ev ex")
  case True
  then have "\<not> evidence_missing ex rs" "\<not> list_ex (bad_result ex) rs" "\<not> list_ex (\<lambda>r. \<not> isFresh r) rs"
    "find (\<lambda>r. vr_mandatory r \<and> vr_status r \<noteq> VI_PASSED) rs = None"
    "find (\<lambda>a. oe_artifactScanStates ev a \<noteq> Some Scan_SAFE) (oe_requiredArtifactIds ev) = None"
    "oe_notCompletedItems ev = []" "\<not> oe_prPendingApproval ev"
    by (auto simp: all_evidence_holds_def missing_iff bad_iff list_ex_iff find_None_iff)
  with True show ?thesis by (simp add: aggregate_def outcome_of_def)
next
  case False
  then have "evidence_missing ex rs \<or> list_ex (bad_result ex) rs \<or> list_ex (\<lambda>r. \<not> isFresh r) rs \<or>
    find (\<lambda>r. vr_mandatory r \<and> vr_status r \<noteq> VI_PASSED) rs \<noteq> None \<or>
    find (\<lambda>a. oe_artifactScanStates ev a \<noteq> Some Scan_SAFE) (oe_requiredArtifactIds ev) \<noteq> None \<or>
    oe_notCompletedItems ev \<noteq> [] \<or> oe_prPendingApproval ev"
    by (auto simp: all_evidence_holds_def missing_iff bad_iff list_ex_iff find_None_iff)
  with False show ?thesis by (auto simp: aggregate_def outcome_of_def split: option.split)
qed

text \<open>The promise of the module: a success is linked to a PASSED result.\<close>

definition linked_evidence :: "validation_result list \<Rightarrow> bool" where
  "linked_evidence rs \<longleftrightarrow> list_ex (\<lambda>r. vr_status r = VI_PASSED) rs"

definition nothing_demanded :: "aggregate_expectations \<Rightarrow> validation_result list \<Rightarrow> bool" where
  "nothing_demanded ex rs \<longleftrightarrow>
     (case ae_validatorIds ex of None \<Rightarrow> True | Some ids \<Rightarrow> ids = []) \<and> \<not> list_ex vr_mandatory rs"

lemma unlinked_success:
  "all_evidence_holds isFresh rs ev ex \<Longrightarrow> \<not> linked_evidence rs \<Longrightarrow> nothing_demanded ex rs"
  by (cases "ae_validatorIds ex")
     (auto simp: all_evidence_holds_def linked_evidence_def nothing_demanded_def list_ex_iff neq_Nil_conv)

text \<open>
  Property C26.  When the aggregate gate claims success.  As soon as a validator is expected, a result is mandatory or a
  result is PASSED, it is SATISFIED with the kind success exactly if every expected validator has a PASSED
  result, every result is neither blocked nor an error nor stale nor for another commit, every
  mandatory result is PASSED, every required artifact is scanned SAFE, no item is incomplete and no
  approval is pending, and a PASSED result is among the results, as the module promises.  The promise breaks exactly in the
  remaining case, where nothing is demanded: with no expected validator, no mandatory result and no
  PASSED one, the gate claims success nevertheless when the results there are, possibly none, are not
  blocked, in error, stale or for another commit and the other conditions hold.
\<close>

theorem aggregate_satisfied_exactly:
  "(fst (aggregate isFresh rs ev ex) = AG_SATISFIED \<longleftrightarrow> wo_kind (snd (aggregate isFresh rs ev ex)) = Out_success) \<and>
   wo_runId (snd (aggregate isFresh rs ev ex)) = oe_runId ev \<and>
   (wo_kind (snd (aggregate isFresh rs ev ex)) = Out_success \<longleftrightarrow>
     (if nothing_demanded ex rs \<and> \<not> linked_evidence rs
      then list_all (\<lambda>r. vr_status r \<notin> {VI_BLOCKED, VI_ERROR} \<and> isFresh r \<and> ae_targetSha ex \<in> {None, Some (vr_targetSha r)}) rs \<and>
        list_all (\<lambda>a. oe_artifactScanStates ev a = Some Scan_SAFE) (oe_requiredArtifactIds ev) \<and>
        oe_notCompletedItems ev = [] \<and> \<not> oe_prPendingApproval ev
      else all_evidence_holds isFresh rs ev ex \<and> linked_evidence rs))"
proof (cases "nothing_demanded ex rs \<and> \<not> linked_evidence rs")
  case False
  with unlinked_success [of isFresh rs ev ex] aggregate_success [of isFresh rs ev ex] show ?thesis by auto
next
  case True
  then have "all_evidence_holds isFresh rs ev ex \<longleftrightarrow>
      list_all (\<lambda>r. vr_status r \<notin> {VI_BLOCKED, VI_ERROR} \<and> isFresh r \<and> ae_targetSha ex \<in> {None, Some (vr_targetSha r)}) rs \<and>
      list_all (\<lambda>a. oe_artifactScanStates ev a = Some Scan_SAFE) (oe_requiredArtifactIds ev) \<and>
      oe_notCompletedItems ev = [] \<and> \<not> oe_prPendingApproval ev"
    by (cases "ae_targetSha ex")
       (auto simp: all_evidence_holds_def linked_evidence_def nothing_demanded_def list_ex_iff list_all_iff split: option.splits)
  with True aggregate_success [of isFresh rs ev ex] show ?thesis by simp
qed

text \<open>
  Success without evidence: with no results at all, no expected validators and no required
  artifacts, the aggregate claims that all validations passed.
\<close>

theorem success_claimed_without_evidence:
  assumes "ae_validatorIds ex = None" and "oe_requiredArtifactIds ev = []" and "oe_notCompletedItems ev = []"
    and "\<not> oe_prPendingApproval ev"
  shows "aggregate isFresh [] ev ex =
    (AG_SATISFIED, \<lparr>wo_runId = oe_runId ev, wo_kind = Out_success, wo_summary = ''all validations passed and artifacts safe'',
       wo_retryability = Out_none, wo_nextAction = ''complete''\<rparr>)"
  using assms by (simp add: aggregate_def outcome_of_def evidence_missing_def)

theorem success_claimed_without_evidence_witness:
  "fst (aggregate (NoopFreshnessEvaluator (\<lambda>_. None) 0) []
     \<lparr>oe_runId = ''r'', oe_completedItems = [], oe_notCompletedItems = [], oe_artifactScanStates = Map.empty,
      oe_requiredArtifactIds = [], oe_prPendingApproval = False\<rparr>
     \<lparr>ae_targetSha = Some ''abc'', ae_validatorIds = None\<rparr>) = AG_SATISFIED"
  by (subst success_claimed_without_evidence) simp_all

end
