(* ===== verification/Invocation.thy ===== *)
theory Invocation
  imports DG_Prelude
begin

text \<open>
  Workflow invocation, \<open>packages/policy-engine/src/invocation\<close>: the canonical workflow ids, aliases and
  manual commands (\<open>registry.ts\<close>), the trigger matcher, dedupe keys and manual authorization
  (\<open>matcher.ts\<close>), and the input schemas of manual commands (\<open>command-input.ts\<close>).  \<open>localeCompare\<close>,
  the digest and the library's UUID check are arguments.
\<close>

section \<open>Canonical ids and aliases\<close>

definition WORKFLOW_IDS_V1 :: "string list" where
  "WORKFLOW_IDS_V1 =
     [''implement_issue'', ''diagnose_failure'', ''security_audit'', ''security_patch'', ''dependency_upgrade'',
      ''review_remediation'', ''repository_health_check'', ''manual_refactor'']"

definition TRIGGER_IDS_V1 :: "string list" where
  "TRIGGER_IDS_V1 =
     [''issues.opened'', ''issues.labeled'', ''pull_request.opened'', ''pull_request.synchronize'',
      ''pull_request.reopened'', ''pull_request_review.submitted'', ''pull_request_review_comment.created'',
      ''check_run.completed'', ''push.default_branch'']"

definition COMMAND_ALIASES_V1 :: "(string \<times> string) list" where
  "COMMAND_ALIASES_V1 =
     [(''fix_tests'', ''diagnose_failure''), (''diagnose_bug'', ''diagnose_failure''),
      (''security_scan'', ''security_audit''), (''dependency_update'', ''dependency_upgrade''),
      (''refactor'', ''manual_refactor''), (''review'', ''review_remediation''), (''fix'', ''diagnose_failure''),
      (''audit'', ''security_audit''), (''patch'', ''security_patch''), (''implement'', ''implement_issue'')]"

definition NON_WORKFLOW_NAMES :: "string list" where
  "NON_WORKFLOW_NAMES = [''run_tests'', ''static_analysis'', ''integration_tests'', ''dependency_check'']"

text \<open>
  What an alias lookup can find: a workflow id, or for an inherited name a value of the object
  prototype, which is not a string.
\<close>

datatype workflow_ref = Workflow string | Inherited_property

definition alias_of :: "string \<Rightarrow> workflow_ref option" where
  "alias_of k =
     (case map_of COMMAND_ALIASES_V1 k of
        Some w \<Rightarrow> Some (Workflow w)
      | None \<Rightarrow> if k \<in> set OBJECT_PROTOTYPE_NAMES then Some Inherited_property else None)"

datatype workflow_id_result =
    WI_resolved workflow_ref "string option"   \<comment> \<open>id, via alias\<close>
  | WI_unknown string
  | WI_not_a_workflow string string            \<comment> \<open>input, hint\<close>

definition normalizeWorkflowId :: "string \<Rightarrow> workflow_id_result" where
  "normalizeWorkflowId input =
     (let trimmed = js_trim input in
      if trimmed = [] then WI_unknown input
      else if trimmed \<in> set WORKFLOW_IDS_V1 then WI_resolved (Workflow trimmed) None
      else if trimmed \<in> set NON_WORKFLOW_NAMES
        then WI_not_a_workflow input (quoted trimmed @ '' is a validation step/obligation name, not a standalone workflow'')
      else case alias_of trimmed of
        Some w \<Rightarrow> WI_resolved w (Some trimmed)
      | None \<Rightarrow> WI_unknown input)"

text \<open>\<open>normalizeCommandId\<close>; the error is the hint of \<open>CommandUnknownError\<close>.\<close>

definition normalizeCommandId :: "string \<Rightarrow> string option + workflow_ref" where
  "normalizeCommandId input =
     (case normalizeWorkflowId input of
        WI_resolved w _ \<Rightarrow> Inr w
      | WI_not_a_workflow _ hint \<Rightarrow> Inl (Some hint)
      | WI_unknown _ \<Rightarrow> Inl None)"

definition INVOCATION_REGISTRY_VERSION :: string where
  "INVOCATION_REGISTRY_VERSION = ''invocation-registry@1''"

record manual_command =
  mc_workflowId :: string
  mc_inputSchemaId :: string
  mc_available :: bool
  mc_rateLimitPerHour :: int

definition MANUAL_COMMANDS_V1 :: "manual_command list" where
  "MANUAL_COMMANDS_V1 =
     map (\<lambda>(w, schema, limit). \<lparr>mc_workflowId = w, mc_inputSchemaId = schema, mc_available = True, mc_rateLimitPerHour = limit\<rparr>)
       [(''implement_issue'', ''input.implement-issue@1'', 10), (''diagnose_failure'', ''input.diagnose-failure@1'', 20),
        (''security_audit'', ''input.security-audit@1'', 6), (''security_patch'', ''input.security-patch@1'', 6),
        (''dependency_upgrade'', ''input.dependency-upgrade@1'', 4), (''review_remediation'', ''input.review-remediation@1'', 12),
        (''repository_health_check'', ''input.repository-health@1'', 4), (''manual_refactor'', ''input.manual-refactor@1'', 4)]"

section \<open>Trigger rules\<close>

record trigger_filter =
  tf_labelsAny :: "string list option"
  tf_branchesAny :: "string list option"
  tf_conclusionsAny :: "string list option"
  tf_prOrigin :: "string option"

record trigger_rule =
  tr_ruleId :: string
  tr_eventTrigger :: string
  tr_workflowId :: string
  tr_filter :: "trigger_filter option"
  tr_enabled :: bool
  tr_maxFanOut :: int
  tr_cooldownSeconds :: int

record normalized_event =
  ne_deliveryId :: string
  ne_repositoryExternalId :: string
  ne_trigger :: string
  ne_resourceIdentity :: string
  ne_labels :: "string list"
  ne_branch :: "string option"
  ne_conclusions :: "string list option"
  ne_prOrigin :: "string option"
  ne_actorLogin :: string

record trigger_snapshot =
  ts_policySnapshotId :: string
  ts_rules :: "trigger_rule list"

record matched_candidate =
  ca_workflowId :: string
  ca_matchedRuleIds :: "string list"
  ca_dedupeKey :: string
  ca_resourceKey :: string
  ca_maxFanOut :: int

datatype match_result =
    Match_candidates "matched_candidate list"
  | Match_none
  | Match_rejected string string   \<comment> \<open>reason code, detail\<close>

text \<open>An empty branch is falsy, so it never matches a branch filter.\<close>

definition filterMatches :: "trigger_rule \<Rightarrow> normalized_event \<Rightarrow> bool" where
  "filterMatches rule event =
     (case tr_filter rule of
        None \<Rightarrow> True
      | Some f \<Rightarrow>
          (case tf_labelsAny f of None \<Rightarrow> True | Some ls \<Rightarrow> list_ex (\<lambda>l. l \<in> set (ne_labels event)) ls) \<and>
          (case tf_branchesAny f of None \<Rightarrow> True
           | Some bs \<Rightarrow> (case ne_branch event of None \<Rightarrow> False | Some b \<Rightarrow> b \<noteq> [] \<and> b \<in> set bs)) \<and>
          (case tf_conclusionsAny f of None \<Rightarrow> True
           | Some cs \<Rightarrow> list_ex (\<lambda>c. c \<in> set cs) (case ne_conclusions event of None \<Rightarrow> [] | Some xs \<Rightarrow> xs)) \<and>
          (case tf_prOrigin f of None \<Rightarrow> True | Some p \<Rightarrow> ne_prOrigin event = Some p))"

definition invocationDedupeKey ::
  "(string \<Rightarrow> string) \<Rightarrow> string \<Rightarrow> string \<Rightarrow> string \<Rightarrow> string \<Rightarrow> string \<Rightarrow> string \<Rightarrow> string" where
  "invocationDedupeKey sha256 repositoryId sourceKey ruleId workflowId resourceIdentity policySnapshotId =
     sha256 (js_join ''|'' [repositoryId, sourceKey, ruleId, workflowId, resourceIdentity, policySnapshotId,
       INVOCATION_REGISTRY_VERSION])"

text \<open>The map \<open>byWorkflow\<close> in insertion order: the rule ids and the first rule of every workflow.\<close>

type_synonym rule_groups = "(string \<times> string list \<times> trigger_rule) list"

fun group_add :: "trigger_rule \<Rightarrow> rule_groups \<Rightarrow> rule_groups" where
  "group_add rule [] = [(tr_workflowId rule, [tr_ruleId rule], rule)]"
| "group_add rule ((w, ids, r) # gs) =
     (if w = tr_workflowId rule then (w, js_sort js_compare (ids @ [tr_ruleId rule]), r) # gs
      else (w, ids, r) # group_add rule gs)"

definition MAX_SAFE :: int where "MAX_SAFE = 9007199254740991"

definition fan_out_cap :: "trigger_rule list \<Rightarrow> int" where
  "fan_out_cap rules = fold (\<lambda>r cap. min cap (tr_maxFanOut r)) rules MAX_SAFE"

definition cooling :: "int \<Rightarrow> (string \<rightharpoonup> int) \<Rightarrow> normalized_event \<Rightarrow> trigger_rule \<Rightarrow> bool" where
  "cooling now lastAt event rule =
     (case lastAt (tr_ruleId rule @ ''|'' @ ne_resourceIdentity event) of
        None \<Rightarrow> False
      | Some at \<Rightarrow> now - at < tr_cooldownSeconds rule * 1000)"

definition candidate_of ::
  "(string \<Rightarrow> string) \<Rightarrow> normalized_event \<Rightarrow> trigger_snapshot \<Rightarrow> string \<times> string list \<times> trigger_rule \<Rightarrow> matched_candidate" where
  "candidate_of sha256 event snapshot g =
     (case g of (w, ids, rule) \<Rightarrow>
        \<lparr>ca_workflowId = w, ca_matchedRuleIds = ids,
         ca_dedupeKey = invocationDedupeKey sha256 (ne_repositoryExternalId event) (ne_deliveryId event) (js_join ''+'' ids) w
           (ne_resourceIdentity event) (ts_policySnapshotId snapshot),
         ca_resourceKey = ne_resourceIdentity event, ca_maxFanOut = tr_maxFanOut rule\<rparr>)"

definition matching_rules ::
  "(string \<Rightarrow> string \<Rightarrow> int) \<Rightarrow> normalized_event \<Rightarrow> trigger_snapshot \<Rightarrow> trigger_rule list" where
  "matching_rules localeCompare event snapshot =
     filter (\<lambda>r. filterMatches r event)
       (js_sort (\<lambda>a b. localeCompare (tr_ruleId a) (tr_ruleId b))
          (filter (\<lambda>r. tr_enabled r \<and> tr_eventTrigger r = ne_trigger event) (ts_rules snapshot)))"

definition matchEvent ::
  "(string \<Rightarrow> string \<Rightarrow> int) \<Rightarrow> (string \<Rightarrow> string) \<Rightarrow> normalized_event \<Rightarrow> trigger_snapshot \<Rightarrow> int \<Rightarrow> (string \<rightharpoonup> int) \<Rightarrow>
   match_result" where
  "matchEvent localeCompare sha256 event snapshot now lastAt =
     (let matching = matching_rules localeCompare event snapshot in
      if matching = [] then Match_none
      else case find (cooling now lastAt event) matching of
        Some rule \<Rightarrow> Match_rejected ''COOLDOWN_ACTIVE''
          (''rule '' @ quoted (tr_ruleId rule) @ '' is within its '' @ js_int_str (tr_cooldownSeconds rule) @
           ''s cooldown for this resource'')
      | None \<Rightarrow>
          (let groups = fold group_add matching [] in
           if int (length groups) > fan_out_cap matching
           then Match_rejected ''FAN_OUT_EXCEEDED''
             (js_nat_str (length groups) @ '' distinct workflows exceed the strictest fan-out cap '' @
              js_int_str (fan_out_cap matching))
           else Match_candidates
             (map (candidate_of sha256 event snapshot) (js_sort (\<lambda>a b. localeCompare (fst a) (fst b)) groups))))"

section \<open>Manual commands\<close>

record manual_request =
  mr_workflowIdInput :: string
  mr_repositoryId :: string
  mr_idempotencyKey :: string
  mr_callerHasRepositoryAccess :: bool
  mr_policySnapshotId :: string

datatype manual_result =
    Manual_authorized string string "string option"   \<comment> \<open>workflow, dedupe key, alias\<close>
  | Manual_unknown string
  | Manual_not_a_workflow string string
  | Manual_unavailable string
  | Manual_no_access
  | Manual_rate_limited int

definition authorize_manual ::
  "(string \<Rightarrow> string) \<Rightarrow> manual_request \<Rightarrow> (string \<Rightarrow> workflow_id_result) \<Rightarrow> manual_command list \<Rightarrow> int option \<Rightarrow> manual_result" where
  "authorize_manual sha256 req normId defs recent =
     (case normId (mr_workflowIdInput req) of
        WI_unknown _ \<Rightarrow> Manual_unknown (mr_workflowIdInput req)
      | WI_not_a_workflow _ hint \<Rightarrow> Manual_not_a_workflow (mr_workflowIdInput req) hint
      | WI_resolved w via \<Rightarrow>
          (case find (\<lambda>d. Workflow (mc_workflowId d) = w) defs of
             None \<Rightarrow> Manual_unknown (mr_workflowIdInput req)
           | Some d \<Rightarrow>
               if \<not> mc_available d then Manual_unavailable (mc_workflowId d)
               else if \<not> mr_callerHasRepositoryAccess req then Manual_no_access
               else if (case recent of None \<Rightarrow> 0 | Some n \<Rightarrow> n) \<ge> mc_rateLimitPerHour d
                 then Manual_rate_limited (mc_rateLimitPerHour d)
               else Manual_authorized (mc_workflowId d)
                 (invocationDedupeKey sha256 (mr_repositoryId req) (mr_idempotencyKey req) ''manual'' (mc_workflowId d) ''manual''
                    (mr_policySnapshotId req)) via))"

section \<open>Manual command input\<close>

definition only_keys :: "string list \<Rightarrow> (string \<times> json) list \<Rightarrow> bool" where
  "only_keys ks ms \<longleftrightarrow> list_all (\<lambda>m. fst m \<in> set ks) ms"

definition bounded_string :: "nat \<Rightarrow> json \<Rightarrow> bool" where
  "bounded_string n v = (case v of JStr s \<Rightarrow> within n s | _ \<Rightarrow> False)"

definition positive_number :: "json \<Rightarrow> bool" where
  "positive_number v = (case v of JNum n \<Rightarrow> 0 < n \<and> n \<le> 10000000 | _ \<Rightarrow> False)"

definition req_field :: "string \<Rightarrow> (json \<Rightarrow> bool) \<Rightarrow> (string \<times> json) list \<Rightarrow> bool" where
  "req_field k P ms = (case map_of ms k of None \<Rightarrow> False | Some v \<Rightarrow> P v)"

definition opt_field :: "string \<Rightarrow> (json \<Rightarrow> bool) \<Rightarrow> (string \<times> json) list \<Rightarrow> bool" where
  "opt_field k P ms = (case map_of ms k of None \<Rightarrow> True | Some v \<Rightarrow> P v)"

definition list_of :: "nat \<Rightarrow> nat \<Rightarrow> (json \<Rightarrow> bool) \<Rightarrow> json \<Rightarrow> bool" where
  "list_of lo hi P v = (case v of JArr vs \<Rightarrow> lo \<le> length vs \<and> length vs \<le> hi \<and> list_all P vs | _ \<Rightarrow> False)"

definition command_input_ok :: "(string \<Rightarrow> bool) \<Rightarrow> string \<Rightarrow> (string \<times> json) list \<Rightarrow> bool" where
  "command_input_ok is_uuid w ms =
     (if w = ''review_remediation'' then only_keys [''pullRequestNumber''] ms \<and> req_field ''pullRequestNumber'' positive_number ms
      else if w = ''diagnose_failure'' then
        only_keys [''pullRequestNumber'', ''checkRunId''] ms \<and> req_field ''pullRequestNumber'' positive_number ms \<and>
        opt_field ''checkRunId'' (bounded_string 128) ms
      else if w = ''implement_issue'' then only_keys [''issueNumber''] ms \<and> req_field ''issueNumber'' positive_number ms
      else if w = ''security_audit'' then
        only_keys [''ref'', ''scopes''] ms \<and> opt_field ''ref'' (bounded_string 256) ms \<and>
        opt_field ''scopes'' (list_of 0 16 (bounded_string 64)) ms
      else if w = ''security_patch'' then
        only_keys [''findingIds''] ms \<and>
        req_field ''findingIds'' (list_of 1 50 (\<lambda>v. case v of JStr s \<Rightarrow> is_uuid s | _ \<Rightarrow> False)) ms
      else w \<in> {''dependency_upgrade'', ''repository_health_check'', ''manual_refactor''} \<and> only_keys [] ms)"

text \<open>The parsed object lists its members in the order of the schema.\<close>

definition schema_keys :: "string \<Rightarrow> string list" where
  "schema_keys w =
     (if w = ''review_remediation'' then [''pullRequestNumber'']
      else if w = ''diagnose_failure'' then [''pullRequestNumber'', ''checkRunId'']
      else if w = ''implement_issue'' then [''issueNumber'']
      else if w = ''security_audit'' then [''ref'', ''scopes'']
      else if w = ''security_patch'' then [''findingIds''] else [])"

definition validateManualCommandInput :: "(string \<Rightarrow> bool) \<Rightarrow> string \<Rightarrow> json \<Rightarrow> string + json" where
  "validateManualCommandInput is_uuid w input =
     (case (if input = JNull \<and> w \<notin> {''review_remediation'', ''diagnose_failure'', ''implement_issue'', ''security_patch''}
            then JObj [] else input) of
        JObj ms \<Rightarrow>
          if command_input_ok is_uuid w ms
          then Inr (JObj (List.map_filter (\<lambda>k. map_option (\<lambda>v. (k, v)) (map_of ms k)) (schema_keys w)))
          else Inl ''VALIDATION_FAILED''
      | _ \<Rightarrow> Inl ''VALIDATION_FAILED'')"

section \<open>Grouping\<close>

definition grouped :: "trigger_rule list \<Rightarrow> rule_groups \<Rightarrow> bool" where
  "grouped rules gs \<longleftrightarrow>
     distinct (map fst gs) \<and> set (map fst gs) = tr_workflowId ` set rules \<and>
     (\<forall>w ids r. (w, ids, r) \<in> set gs \<longrightarrow> mset ids = mset (map tr_ruleId (filter (\<lambda>x. tr_workflowId x = w) rules)))"

lemma group_add_keys:
  "map fst (group_add rule gs) =
     (if tr_workflowId rule \<in> set (map fst gs) then map fst gs else map fst gs @ [tr_workflowId rule])"
  by (induction rule gs rule: group_add.induct) auto

lemma group_add_mem:
  "distinct (map fst gs) \<Longrightarrow> (w, ids, r) \<in> set (group_add rule gs) \<Longrightarrow>
     if w \<noteq> tr_workflowId rule then (w, ids, r) \<in> set gs
     else if w \<in> set (map fst gs) then \<exists>ids0. (w, ids0, r) \<in> set gs \<and> mset ids = add_mset (tr_ruleId rule) (mset ids0)
     else ids = [tr_ruleId rule] \<and> r = rule"
proof (induction rule gs rule: group_add.induct)
  case (2 rule w' ids' r' gs)
  show ?case
  proof (cases "w' = tr_workflowId rule")
    case True
    with "2.prems" show ?thesis by (auto simp: image_iff)
  next
    case False
    from "2.prems" False have d: "distinct (map fst gs)" and m: "(w, ids, r) = (w', ids', r') \<or> (w, ids, r) \<in> set (group_add rule gs)"
      by auto
    from m "2.IH" [OF False d] "2.prems"(1) False show ?thesis by (auto split: if_splits) force
  qed
qed auto

lemma grouped_add:
  assumes "grouped rules gs"
  shows "grouped (rules @ [rule]) (group_add rule gs)"
proof -
  have d: "distinct (map fst gs)" and k: "set (map fst gs) = tr_workflowId ` set rules"
    and i: "\<And>w ids r. (w, ids, r) \<in> set gs \<Longrightarrow> mset ids = mset (map tr_ruleId (filter (\<lambda>x. tr_workflowId x = w) rules))"
    using assms by (auto simp: grouped_def)
  have none: "filter (\<lambda>x. tr_workflowId x = w) rules = []" if "w \<notin> set (map fst gs)" for w
    using that unfolding k by (auto simp: filter_empty_conv)
  have "mset ids = mset (map tr_ruleId (filter (\<lambda>x. tr_workflowId x = w) (rules @ [rule])))"
    if m: "(w, ids, r) \<in> set (group_add rule gs)" for w ids r
    using group_add_mem [OF d m] i none [of w] by (auto split: if_splits simp: filter_empty_conv)
  with d k show ?thesis by (auto simp: grouped_def group_add_keys)
qed

lemma grouped_fold: "grouped rules gs \<Longrightarrow> grouped (rules @ extra) (fold group_add extra gs)"
proof (induction extra arbitrary: rules gs)
  case (Cons r extra)
  from Cons.IH [OF grouped_add [OF Cons.prems, of r]] show ?case by simp
qed simp

lemma grouped_all: "grouped rules (fold group_add rules [])"
  using grouped_fold [of "[]" "[]" rules] by (simp add: grouped_def)

lemma fan_out_cap_le: "fan_out_cap rules \<le> MAX_SAFE \<and> (\<forall>r \<in> set rules. fan_out_cap rules \<le> tr_maxFanOut r)"
proof -
  have "fold (\<lambda>r cap. min cap (tr_maxFanOut r)) rules c \<le> c \<and>
      (\<forall>r \<in> set rules. fold (\<lambda>r cap. min cap (tr_maxFanOut r)) rules c \<le> tr_maxFanOut r)" for c
  proof (induction rules arbitrary: c)
    case (Cons r rules)
    from Cons.IH [of "min c (tr_maxFanOut r)"] show ?case by auto
  qed simp
  then show ?thesis by (simp add: fan_out_cap_def)
qed

section \<open>What a match means\<close>

text \<open>The rules an event concerns, without any order.\<close>

definition concerns :: "normalized_event \<Rightarrow> trigger_rule \<Rightarrow> bool" where
  "concerns event r \<longleftrightarrow> tr_enabled r \<and> tr_eventTrigger r = ne_trigger event \<and> filterMatches r event"

lemma mset_matching: "mset (matching_rules lc event snapshot) = filter_mset (concerns event) (mset (ts_rules snapshot))"
  by (simp add: matching_rules_def concerns_def [abs_def] filter_filter_mset conj_assoc)

lemma set_matching: "set (matching_rules lc event snapshot) = {r \<in> set (ts_rules snapshot). concerns event r}"
  by (auto simp: matching_rules_def concerns_def)

text \<open>
  Every rule an event concerns is accounted for: when candidates are returned there is exactly one per
  workflow that such a rule names, it lists the ids of exactly those rules of its workflow, none of
  the rules is cooling down for the resource, and there are no more candidates than any of the
  rules allows.
\<close>

theorem candidates_account_for_every_rule:
  assumes "matchEvent lc sha256 event snapshot now lastAt = Match_candidates cs"
  shows "distinct (map ca_workflowId cs) \<and>
    set (map ca_workflowId cs) = tr_workflowId ` {r \<in> set (ts_rules snapshot). concerns event r} \<and>
    (\<forall>c \<in> set cs. mset (ca_matchedRuleIds c) =
       image_mset tr_ruleId (filter_mset (\<lambda>r. concerns event r \<and> tr_workflowId r = ca_workflowId c) (mset (ts_rules snapshot)))) \<and>
    (\<forall>r \<in> set (ts_rules snapshot). concerns event r \<longrightarrow> \<not> cooling now lastAt event r \<and> int (length cs) \<le> tr_maxFanOut r)"
proof -
  let ?m = "matching_rules lc event snapshot"
  let ?g = "fold group_add ?m []"
  from assms have cs: "cs = map (candidate_of sha256 event snapshot) (js_sort (\<lambda>a b. lc (fst a) (fst b)) ?g)"
    and cool: "find (cooling now lastAt event) ?m = None" and cap: "int (length ?g) \<le> fan_out_cap ?m"
    by (auto simp: matchEvent_def Let_def split: if_splits option.splits)
  have w: "map ca_workflowId cs = map fst (js_sort (\<lambda>a b. lc (fst a) (fst b)) ?g)"
    by (simp add: cs candidate_of_def split_def)
  have g: "grouped ?m ?g" by (rule grouped_all)
  then have "distinct (map fst (js_sort (\<lambda>a b. lc (fst a) (fst b)) ?g))"
    by (simp add: grouped_def distinct_map)
  moreover have "set (map ca_workflowId cs) = tr_workflowId ` {r \<in> set (ts_rules snapshot). concerns event r}"
    using g by (simp add: w grouped_def set_matching)
  moreover have "mset (ca_matchedRuleIds c) =
      image_mset tr_ruleId (filter_mset (\<lambda>r. concerns event r \<and> tr_workflowId r = ca_workflowId c) (mset (ts_rules snapshot)))"
    if "c \<in> set cs" for c
  proof -
    from that obtain v ids r where v: "(v, ids, r) \<in> set ?g" "c = candidate_of sha256 event snapshot (v, ids, r)" by (auto simp: cs)
    with g have "mset ids = mset (map tr_ruleId (filter (\<lambda>x. tr_workflowId x = v) ?m))" unfolding grouped_def by blast
    with v(2) show ?thesis by (simp add: candidate_of_def mset_filter mset_matching filter_filter_mset conj_commute)
  qed
  moreover have "\<not> cooling now lastAt event r \<and> int (length cs) \<le> tr_maxFanOut r"
    if "r \<in> set (ts_rules snapshot)" "concerns event r" for r
  proof -
    from that have m: "r \<in> set ?m" by (simp add: set_matching)
    with cool have "\<not> cooling now lastAt event r" by (auto simp: find_None_iff)
    moreover from fan_out_cap_le [of ?m] m cap have "int (length cs) \<le> tr_maxFanOut r" by (auto simp: cs)
    ultimately show ?thesis ..
  qed
  ultimately show ?thesis by (simp add: w)
qed

text \<open>
  The order in which a policy lists its rules does not matter: with distinct rule ids and a collation
  that orders different ids strictly, permuted rules give the same answer, candidates, rule
  ids, dedupe keys and refusals included.
\<close>

theorem match_is_order_independent:
  assumes "consistent_cmp lc" and "\<And>a b. lc a b \<le> 0 \<Longrightarrow> lc b a \<le> 0 \<Longrightarrow> a = b"
    and "mset (ts_rules s) = mset (ts_rules s')" and "ts_policySnapshotId s = ts_policySnapshotId s'"
    and "distinct (map tr_ruleId (ts_rules s))"
  shows "matchEvent lc sha256 event s now lastAt = matchEvent lc sha256 event s' now lastAt"
proof -
  let ?f = "\<lambda>s. filter (\<lambda>r. tr_enabled r \<and> tr_eventTrigger r = ne_trigger event) (ts_rules s)"
  have inj: "x = y" if "x \<in> set (ts_rules s)" "y \<in> set (ts_rules s)" "tr_ruleId x = tr_ruleId y" for x y
    using that assms(5) by (auto simp: distinct_map inj_on_def)
  have "js_sort (\<lambda>a b. lc (tr_ruleId a) (tr_ruleId b)) (?f s) = js_sort (\<lambda>a b. lc (tr_ruleId a) (tr_ruleId b)) (?f s')"
  proof (rule js_sort_permuted)
    show "consistent_cmp (\<lambda>a b. lc (tr_ruleId a) (tr_ruleId b))" by (rule consistent_cmp_key [OF assms(1)])
    show "mset (?f s) = mset (?f s')" by (simp add: assms(3))
    show "x = y" if "x \<in> set (?f s)" "y \<in> set (?f s)" "lc (tr_ruleId x) (tr_ruleId y) \<le> 0" "lc (tr_ruleId y) (tr_ruleId x) \<le> 0" for x y
      using that assms(2) inj by auto
  qed
  then have m: "matching_rules lc event s = matching_rules lc event s'" by (simp add: matching_rules_def)
  have c: "candidate_of sha256 event s = candidate_of sha256 event s'" by (simp add: fun_eq_iff candidate_of_def assms(4))
  show ?thesis unfolding matchEvent_def Let_def m c ..
qed

section \<open>What a name resolves to\<close>

lemma alias_targets: "map_of COMMAND_ALIASES_V1 k = Some w \<Longrightarrow> w \<in> set WORKFLOW_IDS_V1 \<and> k \<notin> set WORKFLOW_IDS_V1 \<and> k \<notin> set NON_WORKFLOW_NAMES"
  by (auto simp: COMMAND_ALIASES_V1_def WORKFLOW_IDS_V1_def NON_WORKFLOW_NAMES_def split: if_splits)

lemma inherited_names: "list_all (\<lambda>k. k \<notin> set WORKFLOW_IDS_V1 \<and> k \<notin> set NON_WORKFLOW_NAMES \<and> map_of COMMAND_ALIASES_V1 k = None \<and> js_trim k = k \<and> k \<noteq> [])
    OBJECT_PROTOTYPE_NAMES"
  by code_simp

lemma resolved_iff:
  "normalizeWorkflowId s = WI_resolved (Workflow w) via \<longleftrightarrow>
     w \<in> set WORKFLOW_IDS_V1 \<and> (if js_trim s \<in> set WORKFLOW_IDS_V1 then w = js_trim s \<and> via = None
       else map_of COMMAND_ALIASES_V1 (js_trim s) = Some w \<and> via = Some (js_trim s))"
proof -
  have n: "[] \<notin> set WORKFLOW_IDS_V1" "map_of COMMAND_ALIASES_V1 [] = None" by code_simp+
  then show ?thesis using alias_targets [of "js_trim s"]
    by (auto simp: normalizeWorkflowId_def alias_of_def Let_def split: option.splits if_splits)
qed

lemma find_keyed_iff:
  assumes "distinct (map f ds)" and "inj g"
  shows "find (\<lambda>d. g (f d) = v) ds = Some d \<longleftrightarrow> d \<in> set ds \<and> v = g (f d)"
  using assms(1)
proof (induction ds)
  case (Cons a ds)
  show ?case
  proof (cases "g (f a) = v")
    case True
    have "d = a" if "d \<in> set ds" "g (f a) = g (f d)"
      using that Cons.prems injD [OF assms(2) that(2)] by force
    with True show ?thesis by auto
  next
    case False
    with Cons show ?thesis by auto
  qed
qed simp

lemma find_command_iff:
  "find (\<lambda>d. Workflow (mc_workflowId d) = v) MANUAL_COMMANDS_V1 = Some d \<longleftrightarrow> d \<in> set MANUAL_COMMANDS_V1 \<and> v = Workflow (mc_workflowId d)"
  by (rule find_keyed_iff) (code_simp, simp add: inj_def)

lemma every_command_available: "d \<in> set MANUAL_COMMANDS_V1 \<Longrightarrow> mc_available d"
proof -
  have "list_all mc_available MANUAL_COMMANDS_V1" by code_simp
  then show "d \<in> set MANUAL_COMMANDS_V1 \<Longrightarrow> mc_available d" by (simp add: list_all_iff)
qed

text \<open>
  Manual authorization is exact on the deployed registry: a request is authorized for a workflow if
  and only if the trimmed input is that workflow's id or one of its aliases, the caller has access and
  the count of recent invocations is below the workflow's hourly limit.
\<close>

theorem manual_authorization_exact:
  "(\<exists>key. authorize_manual sha256 req normalizeWorkflowId MANUAL_COMMANDS_V1 recent = Manual_authorized w key via) \<longleftrightarrow>
     normalizeWorkflowId (mr_workflowIdInput req) = WI_resolved (Workflow w) via \<and> mr_callerHasRepositoryAccess req \<and>
     (\<exists>d \<in> set MANUAL_COMMANDS_V1. mc_workflowId d = w \<and> (case recent of None \<Rightarrow> 0 | Some n \<Rightarrow> n) < mc_rateLimitPerHour d)"
proof (cases "normalizeWorkflowId (mr_workflowIdInput req)")
  case (WI_resolved v u)
  show ?thesis
  proof (cases "find (\<lambda>d. Workflow (mc_workflowId d) = v) MANUAL_COMMANDS_V1")
    case None
    have "v \<noteq> Workflow (mc_workflowId d)" if "d \<in> set MANUAL_COMMANDS_V1" for d
      using that find_command_iff [of v d] None by simp
    then have "\<not> (\<exists>d \<in> set MANUAL_COMMANDS_V1. mc_workflowId d = w \<and> v = Workflow w)" by blast
    with None WI_resolved show ?thesis by (auto simp: authorize_manual_def)
  next
    case (Some d)
    then have d: "d \<in> set MANUAL_COMMANDS_V1" "v = Workflow (mc_workflowId d)" by (simp_all add: find_command_iff)
    let ?n = "case recent of None \<Rightarrow> 0 | Some n \<Rightarrow> n"
    have "d' = d" if "d' \<in> set MANUAL_COMMANDS_V1" "mc_workflowId d' = mc_workflowId d" for d'
      using that d(2) Some find_command_iff [of v d'] by simp
    with d(1) have e: "(\<exists>d' \<in> set MANUAL_COMMANDS_V1. mc_workflowId d' = mc_workflowId d \<and> ?n < mc_rateLimitPerHour d') \<longleftrightarrow>
        ?n < mc_rateLimitPerHour d" by blast
    from Some WI_resolved every_command_available [OF d(1)]
    have "(\<exists>key. authorize_manual sha256 req normalizeWorkflowId MANUAL_COMMANDS_V1 recent = Manual_authorized w key via) \<longleftrightarrow>
        mr_callerHasRepositoryAccess req \<and> ?n < mc_rateLimitPerHour d \<and> w = mc_workflowId d \<and> via = u"
      by (auto simp: authorize_manual_def)
    then show ?thesis using e WI_resolved d(2) by auto
  qed
qed (simp_all add: authorize_manual_def)

text \<open>
  An inherited property name such as \<open>constructor\<close> is reported as RESOLVED, with a value that is no
  workflow id, although the registry promises that unknown references are rejected.
\<close>

theorem inherited_name_is_resolved:
  assumes "k \<in> set OBJECT_PROTOTYPE_NAMES"
  shows "normalizeWorkflowId k = WI_resolved Inherited_property (Some k) \<and> normalizeCommandId k = Inr Inherited_property"
  using assms inherited_names
  by (auto simp: list_all_iff normalizeWorkflowId_def normalizeCommandId_def alias_of_def Let_def)

theorem inherited_name_is_resolved_witness:
  "normalizeCommandId ''constructor'' = Inr Inherited_property"
  using inherited_name_is_resolved [of "''constructor''"] by (simp add: OBJECT_PROTOTYPE_NAMES_def)

section \<open>A concrete event\<close>

definition sample_rule :: "string \<Rightarrow> string \<Rightarrow> trigger_rule" where
  "sample_rule i w = \<lparr>tr_ruleId = i, tr_eventTrigger = ''issues.opened'', tr_workflowId = w, tr_filter = None, tr_enabled = True,
     tr_maxFanOut = 2, tr_cooldownSeconds = 60\<rparr>"

definition sample_event :: normalized_event where
  "sample_event = \<lparr>ne_deliveryId = ''d'', ne_repositoryExternalId = ''r'', ne_trigger = ''issues.opened'', ne_resourceIdentity = ''7'',
     ne_labels = [], ne_branch = None, ne_conclusions = None, ne_prOrigin = None, ne_actorLogin = ''a''\<rparr>"

definition sample_triggers :: trigger_snapshot where
  "sample_triggers = \<lparr>ts_policySnapshotId = ''p'', ts_rules = [sample_rule ''b'' ''security_audit'', sample_rule ''a'' ''security_audit'']\<rparr>"

theorem candidates_account_for_every_rule_witness:
  "\<exists>c. matchEvent js_compare id sample_event sample_triggers 0 Map.empty = Match_candidates [c] \<and>
     mset (ca_matchedRuleIds c) = {#''a'', ''b''#}"
proof -
  obtain cs where m: "matchEvent js_compare id sample_event sample_triggers 0 Map.empty = Match_candidates cs" "length cs = 1"
    by (simp add: matchEvent_def matching_rules_def sample_triggers_def sample_event_def sample_rule_def filterMatches_def
        js_sort_Cons js_compare_def cooling_def fan_out_cap_def MAX_SAFE_def)
  then obtain c where c: "cs = [c]" by (cases cs) auto
  from candidates_account_for_every_rule [OF m(1)] have
    "set (map ca_workflowId cs) = tr_workflowId ` {r \<in> set (ts_rules sample_triggers). concerns sample_event r}"
    "mset (ca_matchedRuleIds c) =
      image_mset tr_ruleId (filter_mset (\<lambda>r. concerns sample_event r \<and> tr_workflowId r = ca_workflowId c) (mset (ts_rules sample_triggers)))"
    by (auto simp: c)
  moreover have e: "concerns sample_event (sample_rule i w)" for i w
    by (simp add: concerns_def sample_rule_def sample_event_def filterMatches_def)
  then have "{r \<in> set (ts_rules sample_triggers). concerns sample_event r} = set (ts_rules sample_triggers)"
    by (auto simp: sample_triggers_def)
  ultimately have "ca_workflowId c = ''security_audit''" "mset (ca_matchedRuleIds c) = {#''a'', ''b''#}"
    using e by (auto simp: c sample_triggers_def) (simp_all add: sample_rule_def)
  with m(1) c show ?thesis by blast
qed

theorem match_is_order_independent_witness:
  "matchEvent js_compare id sample_event sample_triggers 0 Map.empty =
     matchEvent js_compare id sample_event (sample_triggers\<lparr>ts_rules := rev (ts_rules sample_triggers)\<rparr>) 0 Map.empty"
  by (rule match_is_order_independent [OF consistent_js_compare])
     (auto simp: js_compare_def sample_triggers_def sample_rule_def split: if_splits)

end
