(* ===== verification/Command_Bus.thy ===== *)
theory Command_Bus
  imports Invocation Outbox Port_Effects
begin

text \<open>
  The command bus, \<open>packages/workflows/src/commands/command-bus.ts\<close>, with the persistence of queued
  runs behind it: \<open>PostgresCommandBusPersistencePort\<close> of
  \<open>apps/api/src/composition/command-bus-adapter.ts\<close> over \<open>WorkflowRunStore.create\<close> and
  \<open>findByIdempotencyKeyHash\<close> of \<open>packages/db/src/repositories/workflow-evidence.ts\<close>.  The unit of work
  is a function on the run table and the outbox that changes both or neither.  The members of the
  column \<open>trigger_reference_json\<close> are columns of the model; the creation time of a run, which the
  receipt repeats, is left out.
\<close>

section \<open>The request\<close>

datatype origin_surface = OS_web | OS_cli | OS_github_comment | OS_github_event | OS_schedule

fun origin_str :: "origin_surface \<Rightarrow> string" where
  "origin_str OS_web = ''web''"
| "origin_str OS_cli = ''cli''"
| "origin_str OS_github_comment = ''github_comment''"
| "origin_str OS_github_event = ''github_event''"
| "origin_str OS_schedule = ''schedule''"

record submit_input =
  su_commandId :: workflow_ref   \<comment> \<open>a string, or what an alias table inherited\<close>
  su_definitionVersion :: "string option"
  su_input :: "json option"
  su_repositoryId :: string
  su_originSurface :: origin_surface
  su_idempotencyKey :: string
  su_createdBy :: "string option"
  su_trustedSurface :: bool

record queued_run =
  qr_runId :: string
  qr_repositoryId :: string
  qr_workflowType :: string
  qr_triggerType :: string
  qr_idempotencyKeyHash :: string
  qr_originSurface :: origin_surface
  qr_eventPayload :: json
  qr_requestFingerprint :: string
  qr_definitionVersion :: "string option"
  qr_createdBy :: "string option"

datatype create_outcome = Run_created string | Run_replayed string

record submit_result =
  sr_runId :: string
  sr_replayed :: bool
  sr_commandId :: string
  sr_originSurface :: origin_surface

datatype bus_call = CB_CreateQueuedRun queued_run

record 'w bus_ports =
  cb_createQueuedRun :: "queued_run \<Rightarrow> ('w, create_outcome) port"
  cb_newRunId :: "'w \<Rightarrow> string"

definition COMMAND_BUS_MVP_IDS :: "string list" where
  "COMMAND_BUS_MVP_IDS =
     [''implement_issue'', ''diagnose_failure'', ''security_audit'', ''security_patch'', ''review_remediation'']"

definition listAvailableCommands :: "(string \<times> string) list" where
  "listAvailableCommands =
     map (\<lambda>d. (mc_workflowId d, mc_inputSchemaId d)) (filter (\<lambda>d. mc_workflowId d \<in> set COMMAND_BUS_MVP_IDS) MANUAL_COMMANDS_V1)"

definition idempotencyKeyHashOf :: "(string \<Rightarrow> string) \<Rightarrow> string \<Rightarrow> string" where
  "idempotencyKeyHashOf sha256 key = sha256 (''devguard.command.idempotency.v1:'' @ key)"

section \<open>Versions and fingerprints\<close>

definition version_char :: "char \<Rightarrow> bool" where
  "version_char c \<longleftrightarrow> alphanumeric c \<or> c = CHR ''.'' \<or> c = CHR ''-''"

text \<open>
  \<open>/^\d+\.\d+\.\d+(?:-[0-9A-Za-z.-]+)?(?:\+[0-9A-Za-z.-]+)?$/\<close>: the core is the longest run of digits
  and dots, since neither suffix starts with one, and the pre-release part ends at the first plus.
\<close>

definition build_suffix :: "string \<Rightarrow> bool" where
  "build_suffix s = (case s of [] \<Rightarrow> True | c # b \<Rightarrow> c = CHR ''+'' \<and> b \<noteq> [] \<and> list_all version_char b)"

definition version_suffix :: "string \<Rightarrow> bool" where
  "version_suffix s =
     (case s of
        c # rest \<Rightarrow>
          if c = CHR ''-'' then takeWhile version_char rest \<noteq> [] \<and> build_suffix (dropWhile version_char rest)
          else build_suffix s
      | [] \<Rightarrow> True)"

definition core_char :: "char \<Rightarrow> bool" where
  "core_char c \<longleftrightarrow> js_digit c \<or> c = CHR ''.''"

definition semver :: "string \<Rightarrow> bool" where
  "semver s \<longleftrightarrow>
     length (js_split (CHR ''.'') (takeWhile core_char s)) = 3 \<and>
     list_all all_digits (js_split (CHR ''.'') (takeWhile core_char s)) \<and> version_suffix (dropWhile core_char s)"

definition canonical_version :: "string \<Rightarrow> string" where
  "canonical_version v =
     (if all_digits v then v @ ''.0.0''
      else if length (js_split (CHR ''.'') v) = 2 \<and> list_all all_digits (js_split (CHR ''.'') v) then v @ ''.0''
      else v)"

definition normalizeDefinitionVersion :: "string option \<Rightarrow> string + string option" where
  "normalizeDefinitionVersion raw =
     (case raw of
        None \<Rightarrow> Inr None
      | Some r \<Rightarrow>
          (let v = js_trim r in
           if v = [] \<or> 64 < length v then Inl ''1..64 chars''
           else if semver (canonical_version v) then Inr (Some (canonical_version v))
           else Inl ''semver_required''))"

definition isPlainJsonObject :: "json \<Rightarrow> bool" where
  "isPlainJsonObject v = (case v of JObj _ \<Rightarrow> True | _ \<Rightarrow> False)"

fun stableStringify :: "json \<Rightarrow> string" where
  "stableStringify (JArr vs) = ''['' @ js_join '','' (map stableStringify vs) @ '']''"
| "stableStringify (JObj ms) =
     ''{'' @ js_join '','' (map (\<lambda>(k, t). serializeString id k @ '':'' @ t)
        (js_sort by_key (map (\<lambda>(k, v). (k, stableStringify v)) ms))) @ ''}''"
| "stableStringify JNull = ''null''"
| "stableStringify (JBool b) = (if b then ''true'' else ''false'')"
| "stableStringify (JNum n) = js_int_str n"
| "stableStringify (JStr s) = serializeString id s"

definition optional_member :: "string \<Rightarrow> json option \<Rightarrow> (string \<times> json) list" where
  "optional_member k v = (case v of None \<Rightarrow> [] | Some x \<Rightarrow> [(k, x)])"

definition request_json :: "string \<Rightarrow> string \<Rightarrow> origin_surface \<Rightarrow> string option \<Rightarrow> json option \<Rightarrow> json" where
  "request_json w repo surface version input =
     JObj ([(''commandId'', JStr w), (''repositoryId'', JStr repo), (''originSurface'', JStr (origin_str surface))] @
       optional_member ''definitionVersion'' (map_option JStr version) @ optional_member ''input'' input)"

definition canonicalRequestFingerprint ::
  "string \<Rightarrow> string \<Rightarrow> origin_surface \<Rightarrow> string option \<Rightarrow> json option \<Rightarrow> string" where
  "canonicalRequestFingerprint w repo surface version input = stableStringify (request_json w repo surface version input)"

section \<open>Submission\<close>

definition trigger_type_of :: "origin_surface \<Rightarrow> string" where
  "trigger_type_of s = (if s = OS_github_comment \<or> s = OS_github_event then ''webhook'' else ''manual'')"

definition unknown_command :: "string \<Rightarrow> string option \<Rightarrow> js_error" where
  "unknown_command raw hint =
     ErrorClass ''CommandUnknownError''
       (''Unknown command '' @ quoted raw @ (case hint of None \<Rightarrow> [] | Some h \<Rightarrow> '': '' @ h))"

definition disabled_command :: "string \<Rightarrow> js_error" where
  "disabled_command w =
     ErrorClass ''CommandDisabledError'' (''Command '' @ quoted w @ '' is not enabled for manual launch.'')"

text \<open>The string form of the value an inherited name resolves to.\<close>

definition inherited_text :: "string \<Rightarrow> string" where
  "inherited_text k =
     (if k = ''__proto__'' then ''[object Object]''
      else ''function '' @ (if k = ''constructor'' then ''Object'' else k) @ ''() { [native code] }'')"

text \<open>The canonical id; a value without a \<open>trim\<close> method, and one that is not a string, end in an error.\<close>

definition resolve_submitted :: "workflow_ref \<Rightarrow> js_error + string" where
  "resolve_submitted ref =
     (case ref of
        Inherited_property \<Rightarrow> Inl (ErrorClass ''TypeError'' ''input.trim is not a function'')
      | Workflow raw \<Rightarrow>
          (case normalizeCommandId raw of
             Inl hint \<Rightarrow> Inl (unknown_command raw hint)
           | Inr Inherited_property \<Rightarrow> Inl (disabled_command (inherited_text (js_trim raw)))
           | Inr (Workflow w) \<Rightarrow> if w \<in> set COMMAND_BUS_MVP_IDS then Inr w else Inl (disabled_command w)))"

definition submit_refusal :: "submit_input \<Rightarrow> js_error option" where
  "submit_refusal q =
     (if \<not> su_trustedSurface q \<and> su_originSurface q \<noteq> OS_web \<and> su_originSurface q \<noteq> OS_cli
      then Some (ErrorClass ''CommandOriginForgedError''
        (''Origin surface '' @ quoted (origin_str (su_originSurface q)) @ '' cannot be asserted by an HTTP client.''))
      else if su_originSurface q = OS_schedule then Some (MadeError ''VALIDATION_FAILED'')
      else if length (js_trim (su_idempotencyKey q)) < 16 then Some (MadeError ''VALIDATION_FAILED'')
      else if (case su_input q of None \<Rightarrow> False | Some v \<Rightarrow> \<not> isPlainJsonObject v) then Some (MadeError ''VALIDATION_FAILED'')
      else None)"

definition normalized_input :: "(string \<Rightarrow> bool) \<Rightarrow> submit_input \<Rightarrow> string \<Rightarrow> string + json option" where
  "normalized_input is_uuid q w =
     (case su_input q of
        None \<Rightarrow> Inr None
      | Some v \<Rightarrow>
          if su_originSurface q = OS_web \<or> su_originSurface q = OS_cli
          then (case validateManualCommandInput is_uuid w v of Inl e \<Rightarrow> Inl e | Inr x \<Rightarrow> Inr (Some x))
          else Inr (Some v))"

definition queued_run_of ::
  "(string \<Rightarrow> string) \<Rightarrow> submit_input \<Rightarrow> string \<Rightarrow> json option \<Rightarrow> string option \<Rightarrow> string \<Rightarrow> queued_run" where
  "queued_run_of sha256 q w input version runId =
     \<lparr>qr_runId = runId, qr_repositoryId = su_repositoryId q, qr_workflowType = w,
      qr_triggerType = trigger_type_of (su_originSurface q),
      qr_idempotencyKeyHash = idempotencyKeyHashOf sha256 (su_idempotencyKey q), qr_originSurface = su_originSurface q,
      qr_eventPayload = JObj ([(''repositoryId'', JStr (su_repositoryId q)),
         (''trigger'', JStr (trigger_type_of (su_originSurface q)))] @
         optional_member ''requestedBy'' (map_option JStr (su_createdBy q))),
      qr_requestFingerprint = canonicalRequestFingerprint w (su_repositoryId q) (su_originSurface q) version input,
      qr_definitionVersion = version, qr_createdBy = su_createdBy q\<rparr>"

text \<open>What a request is turned into before anything is persisted, in the order of the checks.\<close>

definition prepare_run :: "(string \<Rightarrow> string) \<Rightarrow> (string \<Rightarrow> bool) \<Rightarrow> submit_input \<Rightarrow> js_error + (string \<Rightarrow> queued_run)" where
  "prepare_run sha256 is_uuid q =
     (case resolve_submitted (su_commandId q) of
        Inl e \<Rightarrow> Inl e
      | Inr w \<Rightarrow>
     case submit_refusal q of
        Some e \<Rightarrow> Inl e
      | None \<Rightarrow>
     case normalized_input is_uuid q w of
        Inl code \<Rightarrow> Inl (MadeError code)
      | Inr input \<Rightarrow>
     case normalizeDefinitionVersion (su_definitionVersion q) of
        Inl _ \<Rightarrow> Inl (MadeError ''VALIDATION_FAILED'')
      | Inr version \<Rightarrow> Inr (queued_run_of sha256 q w input version))"

definition submit ::
  "(string \<Rightarrow> string) \<Rightarrow> (string \<Rightarrow> bool) \<Rightarrow> 'w bus_ports \<Rightarrow> submit_input \<Rightarrow> ('w, bus_call, submit_result) eff" where
  "submit sha256 is_uuid ports q =
     (case prepare_run sha256 is_uuid q of
        Inl e \<Rightarrow> throwE e
      | Inr mk \<Rightarrow>
          readE (cb_newRunId ports) (\<lambda>runId.
          bindE (callE (CB_CreateQueuedRun (mk runId)) (cb_createQueuedRun ports (mk runId))) (\<lambda>outcome.
          retE \<lparr>sr_runId = (case outcome of Run_created r \<Rightarrow> r | Run_replayed r \<Rightarrow> r),
                sr_replayed = (case outcome of Run_created _ \<Rightarrow> False | Run_replayed _ \<Rightarrow> True),
                sr_commandId = qr_workflowType (mk runId), sr_originSurface = su_originSurface q\<rparr>)))"

section \<open>The durable store\<close>

record run_row =
  rn_id :: string
  rn_repositoryId :: string
  rn_workflowType :: string
  rn_definitionVersion :: string
  rn_triggerType :: string
  rn_requestFingerprint :: string
  rn_idempotencyKeyHash :: "string option"
  rn_createdBy :: string
  rn_originSurface :: origin_surface

record run_db =
  runs :: "run_row list"
  run_outbox :: "outbox_row list"

text \<open>
  The value of the column \<open>origin_surface\<close>: the API passes the surface of the request, the worker's copy of
  the adapter (\<open>apps/worker/src/composition/command-bus-persistence.ts\<close>) leaves it to the default.
\<close>

type_synonym origin_column = "queued_run \<Rightarrow> origin_surface"

definition api_column :: origin_column where
  "api_column = qr_originSurface"

definition worker_column :: origin_column where
  "worker_column = (\<lambda>_. OS_web)"

definition run_row_of :: "origin_column \<Rightarrow> queued_run \<Rightarrow> run_row" where
  "run_row_of col q =
     \<lparr>rn_id = qr_runId q, rn_repositoryId = qr_repositoryId q, rn_workflowType = qr_workflowType q,
      rn_definitionVersion = (case qr_definitionVersion q of None \<Rightarrow> ''1.0.0'' | Some v \<Rightarrow> v),
      rn_triggerType = qr_triggerType q, rn_requestFingerprint = qr_requestFingerprint q,
      rn_idempotencyKeyHash = Some (qr_idempotencyKeyHash q),
      rn_createdBy = (case qr_createdBy q of None \<Rightarrow> ''system'' | Some u \<Rightarrow> u), rn_originSurface = col q\<rparr>"

text \<open>\<open>INSERT ... ON CONFLICT (idempotency_key_hash) DO NOTHING\<close>; a duplicate primary key is an error of the database.\<close>

definition create_run :: "run_row \<Rightarrow> run_row list \<Rightarrow> js_error + run_row list" where
  "create_run r rows =
     (if rn_idempotencyKeyHash r \<noteq> None \<and> list_ex (\<lambda>x. rn_idempotencyKeyHash x = rn_idempotencyKeyHash r) rows
      then Inl (ErrorObject ''IDEMPOTENCY_REPLAY:run already exists for this key'')
      else if list_ex (\<lambda>x. rn_id x = rn_id r) rows then Inl (ErrorObject ''duplicate key value'')
      else Inr (rows @ [r]))"

definition findByIdempotencyKeyHash :: "string \<Rightarrow> run_row list \<Rightarrow> run_row option" where
  "findByIdempotencyKeyHash h rows = find (\<lambda>x. rn_idempotencyKeyHash x = Some h) rows"

definition queued_event :: "queued_run \<Rightarrow> outbox_event_like" where
  "queued_event q =
     \<lparr>ev_eventType = ''workflow.queued'', ev_schemaVersion = 1, ev_payload = qr_eventPayload q,
      ev_correlation = JObj ([(''runId'', JStr (qr_runId q)), (''repositoryId'', JStr (qr_repositoryId q)),
        (''commandId'', JStr (qr_workflowType q)), (''originSurface'', JStr (origin_str (qr_originSurface q)))] @
        optional_member ''definitionVersion'' (map_option JStr (qr_definitionVersion q))),
      ev_aggregateType = Some ''workflow_run'', ev_aggregateId = Some (qr_runId q), ev_aggregateVersion = None\<rparr>"

definition replay_answer :: "queued_run \<Rightarrow> run_row \<Rightarrow> js_error + create_outcome" where
  "replay_answer q existing =
     (if rn_requestFingerprint existing = qr_requestFingerprint q then Inr (Run_replayed (rn_id existing))
      else Inl (MadeError ''IDEMPOTENCY_KEY_CONFLICT''))"

text \<open>The transaction: on an error nothing is changed.\<close>

definition createQueuedRun :: "origin_column \<Rightarrow> int \<Rightarrow> string \<Rightarrow> queued_run \<Rightarrow> run_db \<Rightarrow> run_db \<times> (js_error + create_outcome)" where
  "createQueuedRun col now uuid q db =
     (case create_run (run_row_of col q) (runs db) of
        Inl e \<Rightarrow>
          (db, if e = ErrorObject ''IDEMPOTENCY_REPLAY:run already exists for this key'' then
                 (case findByIdempotencyKeyHash (qr_idempotencyKeyHash q) (runs db) of
                    Some existing \<Rightarrow> replay_answer q existing
                  | None \<Rightarrow> Inl e)
               else Inl e)
      | Inr rows \<Rightarrow>
          (case append_event now uuid (queued_event q) (run_outbox db) of
             Inl _ \<Rightarrow> (db, Inl (MadeError ''VALIDATION_FAILED''))
           | Inr events \<Rightarrow> (db\<lparr>runs := rows, run_outbox := events\<rparr>, Inr (Run_created (qr_runId q)))))"

definition worker_createQueuedRun :: "int \<Rightarrow> string \<Rightarrow> queued_run \<Rightarrow> run_db \<Rightarrow> run_db \<times> (js_error + create_outcome)" where
  "worker_createQueuedRun = createQueuedRun worker_column"

section \<open>What a fingerprint determines\<close>

text \<open>The content of a JSON value, whatever the order of its members.\<close>

fun content :: "json \<Rightarrow> js_value" where
  "content JNull = JsNull"
| "content (JBool b) = JsBool b"
| "content (JNum n) = JsNum n"
| "content (JStr s) = JsStr s"
| "content (JArr vs) = JsArr (map content vs)"
| "content (JObj ms) = JsObj (js_sort by_key (map (\<lambda>(k, v). (k, content v)) ms))"

lemma stable_render: "stableStringify j = render (content j) \<and> printable (content j)"
proof (induction j)
  case (JObj ms)
  then have m: "map (\<lambda>(k, v). (k, stableStringify v)) ms = map (\<lambda>(k, v). (k, render v)) (map (\<lambda>(k, v). (k, content v)) ms)"
    and p: "list_all (\<lambda>(k, v). printable v) (map (\<lambda>(k, v). (k, content v)) ms)" by (fastforce simp: list_all_iff)+
  have "js_sort by_key (map (\<lambda>(k, v). (k, stableStringify v)) ms) =
      map (\<lambda>(k, v). (k, render v)) (js_sort by_key (map (\<lambda>(k, v). (k, content v)) ms))" unfolding m by (rule sort_members)
  moreover have "list_all (\<lambda>(k, v). printable v) (js_sort by_key (map (\<lambda>(k, v). (k, content v)) ms))"
    using p by (simp add: list_all_iff)
  ultimately show ?case
    by (simp only: stableStringify.simps content.simps render.simps printable.simps map_map) (simp add: comp_def split_def)
next
  case (JArr vs)
  then have "map stableStringify vs = map (render \<circ> content) vs" and "list_all (printable \<circ> content) vs"
    by (auto simp: list_all_iff)
  then show ?case by (simp add: comp_def list_all_iff cong: map_cong)
qed simp_all

lemma stable_injective: "stableStringify j = stableStringify j' \<Longrightarrow> content j = content j'"
  using stable_render [of j] stable_render [of j'] render_unique [of "content j" "content j'" "[]" "[]"]
  by (simp add: value_end_def)

lemma origin_str_inj [simp]: "origin_str a = origin_str b \<longleftrightarrow> a = b"
  by (cases a; cases b) simp_all

lemma request_content:
  "content (request_json w repo surface version input) =
     JsObj ((''commandId'', JsStr w) #
       (case version of None \<Rightarrow> [] | Some v \<Rightarrow> [(''definitionVersion'', JsStr v)]) @
       (case input of None \<Rightarrow> [] | Some i \<Rightarrow> [(''input'', content i)]) @
       [(''originSurface'', JsStr (origin_str surface)), (''repositoryId'', JsStr repo)])"
proof -
  have [simp]: "js_compare ''commandId'' ''definitionVersion'' = -1" "js_compare ''commandId'' ''input'' = -1"
    "js_compare ''commandId'' ''originSurface'' = -1" "js_compare ''commandId'' ''repositoryId'' = -1"
    "js_compare ''definitionVersion'' ''input'' = -1" "js_compare ''repositoryId'' ''definitionVersion'' = 1"
    "js_compare ''repositoryId'' ''input'' = 1" "js_compare ''originSurface'' ''definitionVersion'' = 1"
    "js_compare ''originSurface'' ''input'' = 1" "js_compare ''repositoryId'' ''originSurface'' = 1" by code_simp+
  show ?thesis
    by (cases version; cases input) (simp_all add: request_json_def optional_member_def js_sort_Cons by_key_def)
qed

lemma fingerprint_determines_request:
  assumes "canonicalRequestFingerprint w repo s v i = canonicalRequestFingerprint w' repo' s' v' i'"
  shows "w = w' \<and> repo = repo' \<and> s = s' \<and> v = v' \<and> map_option content i = map_option content i'"
  using stable_injective [OF assms [unfolded canonicalRequestFingerprint_def]]
  by (cases v; cases v'; cases i; cases i') (auto simp: request_content)

section \<open>The store admits a key once\<close>

definition run_db_ok :: "run_db \<Rightarrow> bool" where
  "run_db_ok db \<longleftrightarrow>
     distinct (map rn_id (runs db)) \<and> distinct (map rn_idempotencyKeyHash (runs db)) \<and>
     map aggregate_id (run_outbox db) = map (\<lambda>r. Some (rn_id r)) (runs db) \<and>
     list_all (\<lambda>e. event_type e = ''workflow.queued'') (run_outbox db)"

lemma created_cases:
  obtains (created) e where "createQueuedRun col now uuid q db =
        (db\<lparr>runs := runs db @ [run_row_of col q], run_outbox := run_outbox db @ [e]\<rparr>, Inr (Run_created (qr_runId q)))"
      "aggregate_id e = Some (qr_runId q)" "event_type e = ''workflow.queued''"
      "Some (qr_idempotencyKeyHash q) \<notin> set (map rn_idempotencyKeyHash (runs db))" "qr_runId q \<notin> set (map rn_id (runs db))"
  | (replayed) r where "createQueuedRun col now uuid q db = (db, replay_answer q r)"
      "findByIdempotencyKeyHash (qr_idempotencyKeyHash q) (runs db) = Some r"
  | (failed) err where "createQueuedRun col now uuid q db = (db, Inl err)"
      "findByIdempotencyKeyHash (qr_idempotencyKeyHash q) (runs db) = None"
proof (cases "findByIdempotencyKeyHash (qr_idempotencyKeyHash q) (runs db)")
  case None
  then have n: "\<not> list_ex (\<lambda>x. rn_idempotencyKeyHash x = rn_idempotencyKeyHash (run_row_of col q)) (runs db)"
    by (auto simp: findByIdempotencyKeyHash_def find_None_iff list_ex_iff run_row_of_def)
  have r: "rn_id (run_row_of col q) = qr_runId q" "rn_idempotencyKeyHash (run_row_of col q) = Some (qr_idempotencyKeyHash q)"
    by (simp_all add: run_row_of_def)
  show ?thesis
  proof (cases "list_ex (\<lambda>x. rn_id x = rn_id (run_row_of col q)) (runs db) \<or> append_refusal (queued_event q) \<noteq> None")
    case True
    with n None have "\<exists>err. createQueuedRun col now uuid q db = (db, Inl err)"
      by (auto simp: createQueuedRun_def create_run_def append_event_def)
    with None failed show ?thesis by blast
  next
    case False
    then obtain e where e: "append_event now uuid (queued_event q) (run_outbox db) = Inr (run_outbox db @ [e])"
      "aggregate_id e = Some (qr_runId q)" "event_type e = ''workflow.queued''" by (simp add: append_event_def queued_event_def)
    from False n have c: "create_run (run_row_of col q) (runs db) = Inr (runs db @ [run_row_of col q])" by (simp add: create_run_def)
    with e(1) have "createQueuedRun col now uuid q db =
        (db\<lparr>runs := runs db @ [run_row_of col q], run_outbox := run_outbox db @ [e]\<rparr>, Inr (Run_created (qr_runId q)))"
      by (simp add: createQueuedRun_def)
    moreover from n False r have "Some (qr_idempotencyKeyHash q) \<notin> set (map rn_idempotencyKeyHash (runs db))"
      "qr_runId q \<notin> set (map rn_id (runs db))" by (auto simp: list_ex_iff)
    ultimately show ?thesis using e(2,3) by (intro created)
  qed
next
  case (Some r)
  then have "list_ex (\<lambda>x. rn_idempotencyKeyHash x = rn_idempotencyKeyHash (run_row_of col q)) (runs db)"
    by (auto simp: findByIdempotencyKeyHash_def find_Some_iff list_ex_iff run_row_of_def)
  with Some replayed show ?thesis by (simp add: createQueuedRun_def create_run_def run_row_of_def)
qed

lemma run_db_ok_create: "run_db_ok db \<Longrightarrow> run_db_ok (fst (createQueuedRun col now uuid q db))"
  by (cases rule: created_cases [of col now uuid q db]) (auto simp: run_db_ok_def run_row_of_def)

text \<open>A sequence of transactions, each at its own time.\<close>

fun create_all :: "(origin_column \<times> int \<times> string \<times> queued_run) list \<Rightarrow> run_db \<Rightarrow> run_db" where
  "create_all [] db = db"
| "create_all ((col, now, uuid, q) # ops) db = create_all ops (fst (createQueuedRun col now uuid q db))"

lemma key_kept:
  "findByIdempotencyKeyHash h (runs db) = Some r \<Longrightarrow>
     findByIdempotencyKeyHash h (runs (fst (createQueuedRun col now uuid q db))) = Some r"
  by (cases rule: created_cases [of col now uuid q db]) (auto simp: findByIdempotencyKeyHash_def find_snoc)

lemma key_kept_all:
  "findByIdempotencyKeyHash h (runs db) = Some r \<Longrightarrow> findByIdempotencyKeyHash h (runs (create_all ops db)) = Some r"
  by (induction ops db rule: create_all.induct) (auto intro: key_kept)

lemma run_db_ok_all: "run_db_ok db \<Longrightarrow> run_db_ok (create_all ops db)"
  by (induction ops db rule: create_all.induct) (auto intro: run_db_ok_create)

text \<open>
  Property C33.  Whatever sequence of transactions ran since the tables were empty, the runs have distinct ids and
  distinct idempotency keys, and the outbox holds exactly one queued event for each run, in the order
  in which the runs were created: no run without its event, and no event without its run.
\<close>

theorem every_queued_run_has_its_event:
  "run_db_ok (create_all ops \<lparr>runs = [], run_outbox = []\<rparr>)"
  by (rule run_db_ok_all) (simp add: run_db_ok_def)

lemma created_row_found:
  assumes "createQueuedRun col now uuid q db = (db', Inr (Run_created rid))"
  shows "rid = qr_runId q \<and> findByIdempotencyKeyHash (qr_idempotencyKeyHash q) (runs db') = Some (run_row_of col q)"
  using assms
proof (cases rule: created_cases [of col now uuid q db])
  case (created e)
  moreover have "find (\<lambda>x. rn_idempotencyKeyHash x = Some (qr_idempotencyKeyHash q)) (runs db) = None"
    using created(4) by (force simp: find_None_iff)
  ultimately show ?thesis using assms by (auto simp: findByIdempotencyKeyHash_def find_snoc run_row_of_def)
qed (auto simp: replay_answer_def split: if_splits)

lemma known_key_answer:
  assumes "findByIdempotencyKeyHash (qr_idempotencyKeyHash q) (runs db) = Some r"
  shows "createQueuedRun col now uuid q db = (db, replay_answer q r)"
  using assms
proof (cases rule: created_cases [of col now uuid q db])
  case (created e)
  from assms have "r \<in> set (runs db)" "rn_idempotencyKeyHash r = Some (qr_idempotencyKeyHash q)"
    by (auto simp: findByIdempotencyKeyHash_def find_Some_iff)
  with created(4) have False by force
  then show ?thesis ..
qed simp_all

section \<open>The bus over the store\<close>

text \<open>The API's composition: the persistence port is the transaction on the tables.\<close>

definition run_store_ports :: "origin_column \<Rightarrow> (run_db \<Rightarrow> string) \<Rightarrow> int \<Rightarrow> string \<Rightarrow> run_db bus_ports" where
  "run_store_ports col newId now uuid = \<lparr>cb_createQueuedRun = createQueuedRun col now uuid, cb_newRunId = newId\<rparr>"

text \<open>What two requests have in common when they ask for the same thing.\<close>

definition request_identity ::
  "(string \<Rightarrow> bool) \<Rightarrow> submit_input \<Rightarrow> string \<times> string \<times> origin_surface \<times> string option \<times> js_value option" where
  "request_identity is_uuid q =
     (let w = projr (resolve_submitted (su_commandId q)) in
      (w, su_repositoryId q, su_originSurface q, projr (normalizeDefinitionVersion (su_definitionVersion q)),
       map_option content (projr (normalized_input is_uuid q w))))"

lemma same_fingerprint_iff:
  "canonicalRequestFingerprint w repo s v i = canonicalRequestFingerprint w' repo' s' v' i' \<longleftrightarrow>
     w = w' \<and> repo = repo' \<and> s = s' \<and> v = v' \<and> map_option content i = map_option content i'"
proof
  assume "w = w' \<and> repo = repo' \<and> s = s' \<and> v = v' \<and> map_option content i = map_option content i'"
  then have "content (request_json w repo s v i) = content (request_json w' repo' s' v' i')"
    by (cases i; cases i') (auto simp: request_content)
  then show "canonicalRequestFingerprint w repo s v i = canonicalRequestFingerprint w' repo' s' v' i'"
    using stable_render [of "request_json w repo s v i"] stable_render [of "request_json w' repo' s' v' i'"]
    by (simp add: canonicalRequestFingerprint_def)
qed (rule fingerprint_determines_request)

lemma prepared:
  assumes "prepare_run sha256 is_uuid q = Inr mk"
  obtains w input version where "resolve_submitted (su_commandId q) = Inr w" and "submit_refusal q = None"
    and "normalized_input is_uuid q w = Inr input" and "normalizeDefinitionVersion (su_definitionVersion q) = Inr version"
    and "mk = queued_run_of sha256 q w input version"
  using assms by (auto simp: prepare_run_def split: sum.splits option.splits)

lemma submit_prepared:
  assumes "prepare_run sha256 is_uuid q = Inr mk"
  shows "submit sha256 is_uuid (run_store_ports col newId now uuid) q db =
    (case createQueuedRun col now uuid (mk (newId db)) db of
       (db', Inl e) \<Rightarrow> (db', [CB_CreateQueuedRun (mk (newId db))], Inl e)
     | (db', Inr outcome) \<Rightarrow> (db', [CB_CreateQueuedRun (mk (newId db))],
         Inr \<lparr>sr_runId = (case outcome of Run_created r \<Rightarrow> r | Run_replayed r \<Rightarrow> r),
              sr_replayed = (case outcome of Run_created _ \<Rightarrow> False | Run_replayed _ \<Rightarrow> True),
              sr_commandId = qr_workflowType (mk (newId db)), sr_originSurface = su_originSurface q\<rparr>))"
  using assms by (auto simp: submit_def run_store_ports_def readE_def eff_defs split: prod.splits sum.splits)

lemma resolved_is_mvp: "resolve_submitted ref = Inr w \<Longrightarrow> w \<in> set COMMAND_BUS_MVP_IDS"
  by (auto simp: resolve_submitted_def split: workflow_ref.splits sum.splits if_splits)

lemma prepared_run:
  assumes "prepare_run sha256 is_uuid q = Inr mk"
  shows "qr_runId (mk rid) = rid \<and> qr_idempotencyKeyHash (mk rid) = idempotencyKeyHashOf sha256 (su_idempotencyKey q) \<and>
    qr_workflowType (mk rid) = fst (request_identity is_uuid q) \<and> qr_repositoryId (mk rid) = su_repositoryId q \<and>
    qr_originSurface (mk rid) = su_originSurface q"
  by (rule prepared [OF assms]) (simp add: queued_run_of_def request_identity_def)

lemma same_fingerprint:
  assumes "prepare_run sha256 is_uuid q = Inr mk" and "prepare_run sha256 is_uuid q' = Inr mk'"
  shows "qr_requestFingerprint (mk rid) = qr_requestFingerprint (mk' rid') \<longleftrightarrow> request_identity is_uuid q = request_identity is_uuid q'"
  by (rule prepared [OF assms(1)], rule prepared [OF assms(2)])
     (simp add: queued_run_of_def request_identity_def same_fingerprint_iff)

lemma known_request_answered:
  assumes "submit sha256 is_uuid (run_store_ports col newId now uuid) q db = (db', calls, Inr res)" and "\<not> sr_replayed res"
    and "prepare_run sha256 is_uuid q' = Inr mk'" and "su_idempotencyKey q' = su_idempotencyKey q"
  shows "submit sha256 is_uuid (run_store_ports col' newId' now' uuid') q' (create_all ops db') =
    (create_all ops db', [CB_CreateQueuedRun (mk' (newId' (create_all ops db')))],
     if request_identity is_uuid q' = request_identity is_uuid q then Inr (res\<lparr>sr_replayed := True\<rparr>)
     else Inl (MadeError ''IDEMPOTENCY_KEY_CONFLICT''))"
proof -
  from assms(1) obtain mk where mk: "prepare_run sha256 is_uuid q = Inr mk"
    by (cases "prepare_run sha256 is_uuid q") (simp_all add: submit_def throwE_def)
  let ?r = "mk (newId db)" and ?db2 = "create_all ops db'"
  from assms(1,2) have c: "createQueuedRun col now uuid ?r db = (db', Inr (Run_created (sr_runId res)))"
    and res: "sr_commandId res = qr_workflowType ?r" "sr_originSurface res = su_originSurface q" "\<not> sr_replayed res"
    by (auto simp: submit_prepared [OF mk] split: prod.splits sum.splits create_outcome.splits)
  let ?r' = "mk' (newId' ?db2)"
  have h: "qr_idempotencyKeyHash ?r' = qr_idempotencyKeyHash ?r" using prepared_run [OF mk] prepared_run [OF assms(3)] assms(4) by simp
  from created_row_found [OF c] have rid: "sr_runId res = qr_runId ?r"
    and "findByIdempotencyKeyHash (qr_idempotencyKeyHash ?r) (runs db') = Some (run_row_of col ?r)" by simp_all
  then have "createQueuedRun col' now' uuid' ?r' ?db2 = (?db2, replay_answer ?r' (run_row_of col ?r))"
    using key_kept_all h by (intro known_key_answer) simp
  moreover have "replay_answer ?r' (run_row_of col ?r) =
    (if request_identity is_uuid q' = request_identity is_uuid q then Inr (Run_replayed (sr_runId res))
     else Inl (MadeError ''IDEMPOTENCY_KEY_CONFLICT''))"
    using same_fingerprint [OF mk assms(3), of "newId db" "newId' ?db2"] rid by (auto simp: replay_answer_def run_row_of_def)
  moreover have "qr_workflowType ?r' = qr_workflowType ?r \<and> su_originSurface q' = su_originSurface q"
    if "request_identity is_uuid q' = request_identity is_uuid q"
    using that prepared_run [OF mk, of "newId db"] prepared_run [OF assms(3), of "newId' ?db2"]
    by (simp add: request_identity_def Let_def)
  ultimately show ?thesis using res by (cases res) (auto simp: Let_def eff_world_def eff_result_def submit_prepared [OF assms(3)])
qed

text \<open>
  Property C3.  A submission is executed once: after a submission that created a run, and whatever other
  submissions were stored since, an admissible submission with the same idempotency key changes
  nothing; it answers with the first run exactly when it asks for the same thing - workflow,
  repository, surface, version and the content of the validated input - and with
  IDEMPOTENCY_KEY_CONFLICT otherwise.
\<close>

theorem resubmission_is_exactly_once:
  assumes "submit sha256 is_uuid (run_store_ports col newId now uuid) q db = (db', calls, Inr res)" and "\<not> sr_replayed res"
    and "prepare_run sha256 is_uuid q' = Inr mk'" and "su_idempotencyKey q' = su_idempotencyKey q"
  shows "let db2 = create_all ops db' in
    eff_world (submit sha256 is_uuid (run_store_ports col' newId' now' uuid') q') db2 = db2 \<and>
    eff_result (submit sha256 is_uuid (run_store_ports col' newId' now' uuid') q') db2 =
      (if request_identity is_uuid q' = request_identity is_uuid q then Inr (res\<lparr>sr_replayed := True\<rparr>)
       else Inl (MadeError ''IDEMPOTENCY_KEY_CONFLICT''))"
  using known_request_answered [OF assms] by (simp add: eff_world_def eff_result_def Let_def)

text \<open>
  Whatever the ports do, a submission asks for at most one run, and only for a workflow of the MVP
  list; a surface other than web and cli is reached by the trusted path only, a schedule never, the
  key has at least sixteen characters, and the input of a web or cli launch passed the schema
  of its workflow.
\<close>

definition launch_allowed :: "(string \<Rightarrow> bool) \<Rightarrow> submit_input \<Rightarrow> queued_run \<Rightarrow> bool" where
  "launch_allowed is_uuid q r \<longleftrightarrow>
     qr_workflowType r \<in> set COMMAND_BUS_MVP_IDS \<and> qr_originSurface r = su_originSurface q \<and>
     qr_repositoryId r = su_repositoryId q \<and>
     (su_originSurface q \<in> {OS_web, OS_cli} \<or> su_trustedSurface q \<and> su_originSurface q \<noteq> OS_schedule) \<and>
     16 \<le> length (js_trim (su_idempotencyKey q)) \<and>
     (case su_input q of
        None \<Rightarrow> True
      | Some v \<Rightarrow> isPlainJsonObject v \<and>
          (su_originSurface q \<in> {OS_web, OS_cli} \<longrightarrow> (\<exists>v'. validateManualCommandInput is_uuid (qr_workflowType r) v = Inr v')))"

lemma prepared_allowed:
  assumes "prepare_run sha256 is_uuid q = Inr mk"
  shows "launch_allowed is_uuid q (mk rid)"
proof (rule prepared [OF assms])
  fix w input version
  assume a: "resolve_submitted (su_commandId q) = Inr w" "submit_refusal q = None" "normalized_input is_uuid q w = Inr input"
    and mk: "mk = queued_run_of sha256 q w input version"
  from a(2) have "su_originSurface q \<in> {OS_web, OS_cli} \<or> su_trustedSurface q \<and> su_originSurface q \<noteq> OS_schedule"
    "16 \<le> length (js_trim (su_idempotencyKey q))" "case su_input q of None \<Rightarrow> True | Some v \<Rightarrow> isPlainJsonObject v"
    by (auto simp: submit_refusal_def split: if_splits option.splits)
  with a(3) resolved_is_mvp [OF a(1)] mk show ?thesis
    by (auto simp: launch_allowed_def queued_run_of_def normalized_input_def split: option.splits sum.splits if_splits)
qed

theorem submit_asks_once_and_only_when_allowed:
  "\<exists>rs. eff_calls (submit sha256 is_uuid ports q) w = map CB_CreateQueuedRun rs \<and> length rs \<le> 1 \<and>
     list_all (launch_allowed is_uuid q) rs"
proof (cases "prepare_run sha256 is_uuid q")
  case (Inl e)
  then show ?thesis by (intro exI [of _ "[]"]) (simp add: submit_def)
next
  case (Inr mk)
  then have "eff_calls (submit sha256 is_uuid ports q) w = map CB_CreateQueuedRun [mk (cb_newRunId ports w)]"
    by (simp add: submit_def calls_bindE split: sum.splits)
  with prepared_allowed [OF Inr] show ?thesis by (intro exI [of _ "[mk (cb_newRunId ports w)]"]) simp
qed

text \<open>
  The validated input of a launch reaches no consumer: two launches that differ in their input alone
  are stored as the same run, up to the fingerprint, and announced by the same event.
\<close>

theorem launch_input_reaches_no_consumer:
  "list_all (\<lambda>col. (run_row_of col (queued_run_of sha256 q w i v rid))\<lparr>rn_requestFingerprint := f\<rparr> =
     (run_row_of col (queued_run_of sha256 q w i' v rid))\<lparr>rn_requestFingerprint := f\<rparr>) [api_column, worker_column] \<and>
   queued_event (queued_run_of sha256 q w i v rid) = queued_event (queued_run_of sha256 q w i' v rid)"
  by (simp add: run_row_of_def queued_event_def queued_run_of_def api_column_def worker_column_def)

section \<open>A concrete submission\<close>

definition sample_submission :: submit_input where
  "sample_submission =
     \<lparr>su_commandId = Workflow ''audit'', su_definitionVersion = Some ''1'', su_input = None, su_repositoryId = ''r'', su_originSurface = OS_web,
      su_idempotencyKey = ''0123456789abcdef'', su_createdBy = None, su_trustedSurface = False\<rparr>"

lemma sample_prepared:
  "prepare_run id (\<lambda>_. True) sample_submission = Inr (queued_run_of id sample_submission ''security_audit'' None (Some ''1.0.0''))"
proof -
  have "resolve_submitted (Workflow ''audit'') = Inr ''security_audit''" by code_simp
  moreover have "submit_refusal sample_submission = None" by code_simp
  moreover have "normalizeDefinitionVersion (Some ''1'') = Inr (Some ''1.0.0'')" by code_simp
  moreover have "su_commandId sample_submission = Workflow ''audit''" "su_definitionVersion sample_submission = Some ''1''"
    "su_input sample_submission = None" by (simp_all add: sample_submission_def)
  ultimately show ?thesis by (simp add: prepare_run_def normalized_input_def)
qed

lemma sample_created:
  "\<exists>db'. submit id (\<lambda>_. True) (run_store_ports api_column (\<lambda>_. ''run'') 0 ''e'') sample_submission \<lparr>runs = [], run_outbox = []\<rparr> =
     (db', [CB_CreateQueuedRun (queued_run_of id sample_submission ''security_audit'' None (Some ''1.0.0'') ''run'')],
      Inr \<lparr>sr_runId = ''run'', sr_replayed = False, sr_commandId = ''security_audit'', sr_originSurface = OS_web\<rparr>)"
proof -
  let ?q = "queued_run_of id sample_submission ''security_audit'' None (Some ''1.0.0'') ''run''"
  have "utf8_length (json_text (ev_payload (queued_event ?q))) = 39" "utf8_length (json_text (ev_correlation (queued_event ?q))) = 113"
    "length (js_trim (ev_eventType (queued_event ?q))) = 15" "nonEmptyObject (ev_payload (queued_event ?q))"
    "nonEmptyObject (ev_correlation (queued_event ?q))" by code_simp+
  moreover have "ev_schemaVersion (queued_event ?q) = 1" by (simp add: queued_event_def)
  ultimately have "append_refusal (queued_event ?q) = None"
    by (simp add: append_refusal_def boundedJson_def MAX_OUTBOX_SERIALIZED_BYTES_def)
  then have "snd (createQueuedRun api_column 0 ''e'' ?q \<lparr>runs = [], run_outbox = []\<rparr>) = Inr (Run_created ''run'')"
    by (simp add: createQueuedRun_def create_run_def append_event_def) (simp add: queued_run_of_def)
  moreover have "qr_workflowType ?q = ''security_audit''" "su_originSurface sample_submission = OS_web"
    by (simp_all add: queued_run_of_def sample_submission_def)
  ultimately show ?thesis by (cases "createQueuedRun api_column 0 ''e'' ?q \<lparr>runs = [], run_outbox = []\<rparr>") (simp add: submit_prepared [OF sample_prepared])
qed

theorem resubmission_is_exactly_once_witness:
  "\<exists>db. eff_result (submit id (\<lambda>_. True) (run_store_ports api_column (\<lambda>_. ''other'') 9 ''f'') sample_submission) db =
     Inr \<lparr>sr_runId = ''run'', sr_replayed = True, sr_commandId = ''security_audit'', sr_originSurface = OS_web\<rparr>"
proof -
  obtain db' where "submit id (\<lambda>_. True) (run_store_ports api_column (\<lambda>_. ''run'') 0 ''e'') sample_submission \<lparr>runs = [], run_outbox = []\<rparr> =
     (db', [CB_CreateQueuedRun (queued_run_of id sample_submission ''security_audit'' None (Some ''1.0.0'') ''run'')],
      Inr \<lparr>sr_runId = ''run'', sr_replayed = False, sr_commandId = ''security_audit'', sr_originSurface = OS_web\<rparr>)"
    using sample_created by blast
  from resubmission_is_exactly_once [OF this _ sample_prepared refl, where ops = "[]" and newId' = "\<lambda>_. ''other''" and now' = 9 and uuid' = "''f''"]
  show ?thesis by (intro exI [of _ db']) simp
qed

end
