(* ===== verification/Comment_Commands.thy ===== *)
theory Comment_Commands
  imports Command_Bus "HOL-Library.Monad_Syntax"
begin

text \<open>
  Commands written as comments: the parser
  \<open>packages/workflows/src/commands/github-comment-parser.ts\<close>, the bounded view of the webhook
  \<open>issue-comment-event.ts\<close> and \<open>CommentCommandService\<close> of \<open>comment-command-service.ts\<close>, which resolves
  the repository and the commenter, asks for authorization and submits to the command bus.  Numbers
  are the integers of the JSON model.
\<close>

section \<open>The webhook payload\<close>

record issue_comment_event =
  ic_commentId :: int
  ic_body :: string
  ic_userId :: int
  ic_login :: string
  ic_issueNumber :: int
  ic_pull_request :: "json option"
  ic_repositoryId :: int
  ic_owner :: string
  ic_name :: string
  ic_full_name :: "string option"
  ic_installation :: "int option"

text \<open>Property reads of a decoded object; what is not an object of the right shape is no answer.\<close>

fun obj_of :: "json \<Rightarrow> (string \<times> json) list option" where
  "obj_of (JObj ms) = Some ms"
| "obj_of (JArr _) = Some []"
| "obj_of _ = None"

fun num_of :: "json \<Rightarrow> int option" where
  "num_of (JNum n) = Some n"
| "num_of _ = None"

fun str_of :: "json \<Rightarrow> string option" where
  "str_of (JStr s) = Some s"
| "str_of _ = None"

definition member :: "(json \<Rightarrow> 'a option) \<Rightarrow> string \<Rightarrow> (string \<times> json) list \<Rightarrow> 'a option" where
  "member f k ms = Option.bind (map_of ms k) f"

text \<open>A value that is an object, as it is.\<close>

definition object_of :: "json \<Rightarrow> json option" where
  "object_of j = map_option (\<lambda>_. j) (obj_of j)"

definition parseIssueCommentWebhook :: "json \<Rightarrow> issue_comment_event option" where
  "parseIssueCommentWebhook payload = do {
     record \<leftarrow> obj_of payload;
     action \<leftarrow> member str_of ''action'' record;
     _ \<leftarrow> (if action = ''created'' then Some () else None);
     c \<leftarrow> member obj_of ''comment'' record;
     i \<leftarrow> member obj_of ''issue'' record;
     r \<leftarrow> member obj_of ''repository'' record;
     u \<leftarrow> member obj_of ''user'' c;
     cid \<leftarrow> member num_of ''id'' c;
     body \<leftarrow> member str_of ''body'' c;
     uid \<leftarrow> member num_of ''id'' u;
     login \<leftarrow> member str_of ''login'' u;
     n \<leftarrow> member num_of ''number'' i;
     ow \<leftarrow> member obj_of ''owner'' r;
     rid \<leftarrow> member num_of ''id'' r;
     name \<leftarrow> member str_of ''name'' r;
     owner \<leftarrow> member str_of ''login'' ow;
     Some \<lparr>ic_commentId = cid, ic_body = body, ic_userId = uid, ic_login = login, ic_issueNumber = n,
       ic_pull_request = member object_of ''pull_request'' i, ic_repositoryId = rid, ic_owner = owner, ic_name = name,
       ic_full_name = member str_of ''full_name'' r,
       ic_installation = Option.bind (member obj_of ''installation'' record) (member num_of ''id'')\<rparr>
   }"

definition issueCommentIsOnPullRequest :: "issue_comment_event \<Rightarrow> bool" where
  "issueCommentIsOnPullRequest event \<longleftrightarrow> ic_pull_request event \<noteq> None"

section \<open>Parsing\<close>

datatype comment_outcome_parsed =
    PC_ignored
  | PC_meta string
  | PC_command string workflow_ref "(string \<times> json) list" string   \<comment> \<open>verb, command id, input, notes\<close>
  | PC_denied string string                                          \<comment> \<open>code, detail\<close>

fun unify_newlines :: "string \<Rightarrow> string" where
  "unify_newlines [] = []"
| "unify_newlines [c] = [c]"
| "unify_newlines (c # d # s) =
     (if c = CHR 0x0D \<and> d = CHR 0x0A then d # unify_newlines s else c # unify_newlines (d # s))"

definition comment_lines :: "string \<Rightarrow> string list" where
  "comment_lines body = js_split (CHR 0x0A) (unify_newlines body)"

text \<open>The lines from the first one with text.\<close>

definition spoken_lines :: "string \<Rightarrow> string list" where
  "spoken_lines body = dropWhile (\<lambda>l. js_trim l = []) (comment_lines body)"

definition notes_of :: "string \<Rightarrow> string" where
  "notes_of body = js_trim (js_join [CHR 0x0A] (tl (spoken_lines body)))"

definition word_char :: "char \<Rightarrow> bool" where
  "word_char c \<longleftrightarrow> alphanumeric c \<or> c = CHR ''_''"

text \<open>\<open>^[@/]login\b\<close>, ignoring case: what follows the mention, if it is there.\<close>

definition after_mention :: "string \<Rightarrow> string \<Rightarrow> string option" where
  "after_mention login line =
     (case line of
        [] \<Rightarrow> None
      | c # rest \<Rightarrow>
          (let named = take (length login) rest; after = drop (length login) rest in
           if c \<in> {CHR ''@'', CHR ''/''} \<and> js_lower named = login \<and>
              word_char (last (c # named)) \<noteq> (after \<noteq> [] \<and> word_char (hd after))
           then Some after else None))"

definition readKeyValues :: "string list \<Rightarrow> (string \<rightharpoonup> string)" where
  "readKeyValues tokens =
     foldl (\<lambda>out token.
       let key = takeWhile (\<lambda>c. c \<noteq> CHR ''='') token; value = tl (dropWhile (\<lambda>c. c \<noteq> CHR ''='') token) in
       if CHR ''='' \<in> set token \<and> key \<noteq> [] \<and> value \<noteq> [] then out(js_lower key \<mapsto> value) else out) Map.empty tokens"

definition isNestedReview :: "string \<Rightarrow> bool" where
  "isNestedReview token \<longleftrightarrow> js_lower token \<in> {''remediation'', ''remediations''}"

fun decimal_value :: "int \<Rightarrow> string \<Rightarrow> int" where
  "decimal_value n [] = n"
| "decimal_value n (c # cs) = decimal_value (10 * n + (of_char c - 48)) cs"

definition readIssueShorthand :: "string \<Rightarrow> string list \<Rightarrow> (string \<rightharpoonup> string) \<Rightarrow> int option" where
  "readIssueShorthand verb positional kv =
     (if (case kv ''issue'' of None \<Rightarrow> False | Some s \<Rightarrow> all_digits s) then Some (decimal_value 0 (the (kv ''issue'')))
      else if length positional = 2 \<and> js_lower (positional ! 0) = ''issue'' \<and> all_digits (positional ! 1)
        then Some (decimal_value 0 (positional ! 1))
      else if verb = ''implement'' \<and> length positional = 1 \<and> all_digits (positional ! 0)
        then Some (decimal_value 0 (positional ! 0))
      else None)"

definition number_member :: "string \<Rightarrow> string option \<Rightarrow> (string \<times> json) list" where
  "number_member k v = (case v of Some s \<Rightarrow> if all_digits s then [(k, JNum (decimal_value 0 s))] else [] | None \<Rightarrow> [])"

definition buildReviewInput :: "(string \<rightharpoonup> string) \<Rightarrow> (string \<times> json) list" where
  "buildReviewInput kv = number_member ''pullRequestNumber'' (kv ''pr'')"

definition check_member :: "(string \<rightharpoonup> string) \<Rightarrow> (string \<times> json) list" where
  "check_member kv = optional_member ''checkRunId'' (map_option JStr (kv ''check''))"

definition finding_member :: "(string \<rightharpoonup> string) \<Rightarrow> (string \<times> json) list" where
  "finding_member kv =
     (case (case kv ''finding'' of Some f \<Rightarrow> Some f | None \<Rightarrow> kv ''findings'') of
        None \<Rightarrow> []
      | Some f \<Rightarrow> [(''findingIds'', JArr (map JStr (filter (\<lambda>v. v \<noteq> []) (map js_trim (js_split (CHR '','') f)))))])"

definition parseTail :: "workflow_ref \<Rightarrow> string \<Rightarrow> string list \<Rightarrow> string + (string \<times> json) list" where
  "parseTail commandId verb tail =
     (let kv = readKeyValues tail; positional = filter (\<lambda>t. CHR ''='' \<notin> set t) tail in
      if commandId = Workflow ''review_remediation'' then
        (if positional = [] \<or> length positional = 1 \<and> isNestedReview (positional ! 0) then Inr (buildReviewInput kv)
         else Inl ''Unexpected tokens after review.'')
      else if commandId = Workflow ''diagnose_failure'' then
        (case readIssueShorthand verb positional kv of
           Some issue \<Rightarrow> Inr ((''pullRequestNumber'', JNum issue) # check_member kv)
         | None \<Rightarrow>
             if positional \<noteq> [] then Inl ''Unexpected tokens after fix.''
             else Inr (filter (\<lambda>m. snd m \<noteq> JNum 0) (number_member ''pullRequestNumber'' (kv ''pr'')) @ check_member kv))
      else if commandId = Workflow ''implement_issue'' then
        (case readIssueShorthand verb positional kv of
           Some issue \<Rightarrow> Inr [(''issueNumber'', JNum issue)]
         | None \<Rightarrow>
             if positional \<noteq> [] then Inl ''Unexpected tokens after implement.''
             else (case kv ''issue'' of
                None \<Rightarrow> Inr []
              | Some s \<Rightarrow> if \<not> all_digits s \<or> decimal_value 0 s \<le> 0 then Inl ''Invalid issue number.''
                          else Inr [(''issueNumber'', JNum (decimal_value 0 s))]))
      else if commandId = Workflow ''security_patch'' then
        (if positional \<noteq> [] then Inl ''Unexpected tokens after patch.'' else Inr (finding_member kv))
      else if commandId = Workflow ''security_audit'' then
        (if positional \<noteq> [] then Inl ''Unexpected tokens after audit.''
         else Inr (optional_member ''ref'' (map_option JStr (kv ''ref''))))
      else if positional \<noteq> [] then Inl (''Unexpected tokens after '' @ verb @ ''.'')
      else Inr [])"

definition parse_mentioned :: "string \<Rightarrow> string \<Rightarrow> comment_outcome_parsed" where
  "parse_mentioned afterMention notes =
     (case js_words afterMention of
        [] \<Rightarrow> PC_meta ''help''
      | token # tail \<Rightarrow>
          (let verb = js_lower token in
           if verb \<in> {''help'', ''status''} then PC_meta verb
           else (case alias_of verb of
              None \<Rightarrow> PC_denied ''COMMAND_UNKNOWN'' (''Unknown verb '' @ quoted verb @ ''.'')
            | Some alias \<Rightarrow>
                (case parseTail alias verb tail of
                   Inl detail \<Rightarrow> PC_denied ''COMMAND_UNKNOWN'' detail
                 | Inr input \<Rightarrow> PC_command verb alias input notes))))"

definition parseDevguardComment :: "string \<Rightarrow> string option \<Rightarrow> string option \<Rightarrow> comment_outcome_parsed" where
  "parseDevguardComment body mention author =
     (let login = js_lower (case mention of None \<Rightarrow> ''devguard'' | Some m \<Rightarrow> m) in
      if map_option js_lower author = Some login then PC_denied ''BOT_SELF'' ''ignore comments from the app login''
      else (case spoken_lines body of
         [] \<Rightarrow> PC_ignored
       | firstLine # _ \<Rightarrow>
           (case after_mention login (js_trim firstLine) of
              None \<Rightarrow> PC_ignored
            | Some after \<Rightarrow> parse_mentioned (js_trim after) (notes_of body))))"

definition githubCommentIdempotencyKey :: "int \<Rightarrow> string \<Rightarrow> string" where
  "githubCommentIdempotencyKey commentId commandId = ''github_comment:'' @ js_int_str commentId @ '':'' @ commandId"

section \<open>The service\<close>

definition GITHUB_ISSUER :: string where "GITHUB_ISSUER = ''https://github.com''"

datatype comment_outcome =
    CO_ignored
  | CO_meta string
  | CO_denied string string
  | CO_submitted string bool workflow_ref   \<comment> \<open>run id, replayed, command id\<close>

datatype comment_call =
    CC_FindRepository string
  | CC_ResolveUser string string string      \<comment> \<open>issuer, subject, login\<close>
  | CC_Authorize string string string string \<comment> \<open>user id, issuer, subject, repository id\<close>
  | CC_Bus bus_call
  | CC_PostAck string

record 'w comment_ports =
  co_findByGitHubRepositoryId :: "string \<Rightarrow> ('w, (string \<times> string) option) port"   \<comment> \<open>id, status\<close>
  co_resolveOrCreateUser :: "string \<Rightarrow> string \<Rightarrow> string \<Rightarrow> ('w, string) port"
  co_authorizeWorkflowStart :: "string \<Rightarrow> string \<Rightarrow> string \<Rightarrow> string \<Rightarrow> ('w, bool \<times> string option) port"
  co_postAck :: "(issue_comment_event \<Rightarrow> string \<Rightarrow> ('w, unit) port) option"
  co_bus :: "'w bus_ports"
  co_mentionLogin :: "string option"
  co_acksEnabled :: bool   \<comment> \<open>\<open>acksEnabled !== false\<close>\<close>

definition formatAck :: "comment_outcome \<Rightarrow> string option" where
  "formatAck outcome =
     (case outcome of
        CO_ignored \<Rightarrow> None
      | CO_meta verb \<Rightarrow> Some (if verb = ''help'' then ''DevGuard commands: review, fix, audit, patch, implement, status, help.''
          else ''Use `@devguard status` on a run in the DevGuard UI for live workflow state.'')
      | CO_denied code detail \<Rightarrow>
          if code = ''BOT_SELF'' then None
          else if code = ''COMMAND_UNKNOWN''
            then Some (''Unknown command. Reply with `@devguard help` for the verb list. ('' @ detail @ '')'')
          else Some (''Could not start a workflow: '' @ detail)
      | CO_submitted runId replayed _ \<Rightarrow>
          if replayed then Some (''This comment already started run `'' @ runId @ ''`.'')
          else Some (''Queued workflow run `'' @ runId @ ''` (origin GitHub comment).''))"

definition maybeAck :: "'w comment_ports \<Rightarrow> issue_comment_event \<Rightarrow> comment_outcome \<Rightarrow> ('w, comment_call, unit) eff" where
  "maybeAck ports event outcome =
     (case (if co_acksEnabled ports then co_postAck ports else None) of
        None \<Rightarrow> retE ()
      | Some post \<Rightarrow>
          (case formatAck outcome of
             None \<Rightarrow> retE ()
           | Some message \<Rightarrow> callE (CC_PostAck message) (post event message)))"

text \<open>Acknowledge an outcome and return it.\<close>

definition answer :: "'w comment_ports \<Rightarrow> issue_comment_event \<Rightarrow> comment_outcome \<Rightarrow> ('w, comment_call, comment_outcome) eff" where
  "answer ports event outcome = bindE (maybeAck ports event outcome) (\<lambda>_. retE outcome)"

definition enrichInput :: "workflow_ref \<Rightarrow> (string \<times> json) list \<Rightarrow> issue_comment_event \<Rightarrow> (string \<times> json) list" where
  "enrichInput commandId input event =
     input @
     (if commandId \<in> {Workflow ''review_remediation'', Workflow ''diagnose_failure''} \<and>
         map_of input ''pullRequestNumber'' = None \<and> issueCommentIsOnPullRequest event
      then [(''pullRequestNumber'', JNum (ic_issueNumber event))] else []) @
     (if commandId = Workflow ''implement_issue'' \<and> map_of input ''issueNumber'' = None
      then [(''issueNumber'', JNum (ic_issueNumber event))] else []) @
     (if notes_of (ic_body event) \<noteq> [] then [(''notes'', JStr (notes_of (ic_body event)))] else [])"

text \<open>The calls of another component among one's own.\<close>

definition viaE :: "('c \<Rightarrow> 'd) \<Rightarrow> ('w, 'c, 'a) eff \<Rightarrow> ('w, 'd, 'a) eff" where
  "viaE f m w = (case m w of (w', cs, r) \<Rightarrow> (w', map f cs, r))"

definition command_text :: "workflow_ref \<Rightarrow> string \<Rightarrow> string" where
  "command_text commandId verb = (case commandId of Workflow w \<Rightarrow> w | Inherited_property \<Rightarrow> inherited_text verb)"

definition comment_submission ::
  "issue_comment_event \<Rightarrow> string \<Rightarrow> string \<Rightarrow> string \<Rightarrow> workflow_ref \<Rightarrow> (string \<times> json) list \<Rightarrow> submit_input" where
  "comment_submission event repoId userId verb commandId input =
     \<lparr>su_commandId = commandId, su_definitionVersion = Some ''1.0.0'',
      su_input = Some (JObj (enrichInput commandId input event)), su_repositoryId = repoId, su_originSurface = OS_github_comment,
      su_idempotencyKey = githubCommentIdempotencyKey (ic_commentId event) (command_text commandId verb),
      su_createdBy = Some userId, su_trustedSurface = True\<rparr>"

definition submitCommand ::
  "(string \<Rightarrow> string) \<Rightarrow> (string \<Rightarrow> bool) \<Rightarrow> 'w comment_ports \<Rightarrow> issue_comment_event \<Rightarrow> string \<Rightarrow> workflow_ref \<Rightarrow> (string \<times> json) list \<Rightarrow>
   ('w, comment_call, comment_outcome) eff" where
  "submitCommand sha256 is_uuid ports event verb commandId input =
     bindE (callE (CC_FindRepository (js_int_str (ic_repositoryId event)))
              (co_findByGitHubRepositoryId ports (js_int_str (ic_repositoryId event)))) (\<lambda>repo.
       case repo of
         None \<Rightarrow> answer ports event (CO_denied ''REPOSITORY_UNKNOWN'' ''Repository is not connected to DevGuard.'')
       | Some (repoId, status) \<Rightarrow>
           if status \<noteq> ''active''
           then answer ports event (CO_denied ''REPOSITORY_UNKNOWN'' ''Repository is not connected to DevGuard.'')
           else
             bindE (callE (CC_ResolveUser GITHUB_ISSUER (js_int_str (ic_userId event)) (ic_login event))
                      (co_resolveOrCreateUser ports GITHUB_ISSUER (js_int_str (ic_userId event)) (ic_login event))) (\<lambda>userId.
             bindE (callE (CC_Authorize userId GITHUB_ISSUER (js_int_str (ic_userId event)) repoId)
                      (co_authorizeWorkflowStart ports userId GITHUB_ISSUER (js_int_str (ic_userId event)) repoId)) (\<lambda>(allowed, reasonCode).
             if \<not> allowed
             then answer ports event (CO_denied (case reasonCode of None \<Rightarrow> ''FORBIDDEN'' | Some c \<Rightarrow> c)
                    ''You do not have permission to start workflows on this repository.'')
             else
               bindE (viaE CC_Bus (submit sha256 is_uuid (co_bus ports)
                        (comment_submission event repoId userId verb commandId input))) (\<lambda>receipt.
               answer ports event (CO_submitted (sr_runId receipt) (sr_replayed receipt) commandId)))))"

definition handle ::
  "(string \<Rightarrow> string) \<Rightarrow> (string \<Rightarrow> bool) \<Rightarrow> 'w comment_ports \<Rightarrow> issue_comment_event \<Rightarrow> ('w, comment_call, comment_outcome) eff" where
  "handle sha256 is_uuid ports event =
     (case parseDevguardComment (ic_body event) (co_mentionLogin ports) (Some (ic_login event)) of
        PC_ignored \<Rightarrow> retE CO_ignored
      | PC_denied code detail \<Rightarrow> answer ports event (CO_denied code detail)
      | PC_meta verb \<Rightarrow> answer ports event (CO_meta verb)
      | PC_command verb commandId input _ \<Rightarrow> submitCommand sha256 is_uuid ports event verb commandId input)"

section \<open>The first line alone selects the command\<close>

lemma unify_newlines_line:
  "CHR 0x0A \<notin> set l \<Longrightarrow> CHR 0x0D \<notin> set l \<Longrightarrow> unify_newlines (l @ CHR 0x0A # rest) = l @ CHR 0x0A # unify_newlines rest"
proof (induction l)
  case Nil
  show ?case by (cases rest) simp_all
next
  case (Cons c l)
  then show ?case by (cases l) auto
qed

lemma unify_newlines_plain: "CHR 0x0A \<notin> set l \<Longrightarrow> unify_newlines l = l"
  by (induction l rule: unify_newlines.induct) auto

lemma split_line: "d \<notin> set l \<Longrightarrow> js_split d (l @ d # rest) = l # js_split d rest"
  by (induction l) auto

lemma split_plain: "d \<notin> set l \<Longrightarrow> js_split d l = [l]"
  by (induction l) auto

fun without_notes :: "comment_outcome_parsed \<Rightarrow> comment_outcome_parsed" where
  "without_notes (PC_command verb c i _) = PC_command verb c i []"
| "without_notes p = p"

lemma parse_mentioned_notes: "without_notes (parse_mentioned after n) = without_notes (parse_mentioned after n')"
  by (simp add: parse_mentioned_def Let_def split: list.splits option.splits sum.splits)

text \<open>
  What follows the first line with text cannot change what a comment asks for: the verb, the command
  and its input are those of the line alone; the rest is at most carried as notes.
\<close>

theorem comment_remainder_is_inert:
  assumes "CHR 0x0A \<notin> set line" and "CHR 0x0D \<notin> set line" and "js_trim line \<noteq> []"
  shows "without_notes (parseDevguardComment (line @ CHR 0x0A # rest) mention author) =
     without_notes (parseDevguardComment line mention author)"
proof -
  have "spoken_lines line = [line]" "spoken_lines (line @ CHR 0x0A # rest) = line # comment_lines rest"
    using assms by (simp_all add: spoken_lines_def comment_lines_def unify_newlines_line unify_newlines_plain split_line split_plain)
  then show ?thesis
    by (auto simp: parseDevguardComment_def Let_def intro: parse_mentioned_notes split: option.splits)
qed

theorem comment_remainder_is_inert_witness:
  "without_notes (parseDevguardComment (''@devguard audit'' @ CHR 0x0A # ''@devguard patch'') None None) =
     without_notes (parseDevguardComment ''@devguard audit'' None None)"
proof -
  have "js_trim ''@devguard audit'' \<noteq> []" by code_simp
  then show ?thesis by (intro comment_remainder_is_inert) simp_all
qed

section \<open>Only an authorized comment starts a run\<close>

lemma calls_viaE [simp]: "eff_calls (viaE f m) w = map f (eff_calls m w)"
  and result_viaE [simp]: "eff_result (viaE f m) w = eff_result m w"
  and world_viaE [simp]: "eff_world (viaE f m) w = eff_world m w"
  by (simp_all add: eff_calls_def eff_result_def eff_world_def viaE_def split: prod.splits)

lemma answer_calls: "CC_Bus b \<notin> set (eff_calls (answer ports event outcome) w)"
  by (auto simp: answer_def maybeAck_def eff_simps split: option.splits sum.splits)

text \<open>What a submission by comment went through, with the world each port saw.\<close>

definition comment_admitted :: "'w comment_ports \<Rightarrow> issue_comment_event \<Rightarrow> string \<Rightarrow> string \<Rightarrow> 'w \<Rightarrow> 'w \<Rightarrow> bool" where
  "comment_admitted ports event repoId userId w w3 \<longleftrightarrow>
     (\<exists>w1 w2 reason. co_findByGitHubRepositoryId ports (js_int_str (ic_repositoryId event)) w = (w1, Inr (Some (repoId, ''active''))) \<and>
        co_resolveOrCreateUser ports GITHUB_ISSUER (js_int_str (ic_userId event)) (ic_login event) w1 = (w2, Inr userId) \<and>
        co_authorizeWorkflowStart ports userId GITHUB_ISSUER (js_int_str (ic_userId event)) repoId w2 = (w3, Inr (True, reason)))"

text \<open>A property of the world that every port but the bus keeps.\<close>

definition ports_keep :: "('w \<Rightarrow> bool) \<Rightarrow> 'w comment_ports \<Rightarrow> bool" where
  "ports_keep I ports \<longleftrightarrow>
     (\<forall>k w. I w \<longrightarrow> I (fst (co_findByGitHubRepositoryId ports k w))) \<and>
     (\<forall>i s l w. I w \<longrightarrow> I (fst (co_resolveOrCreateUser ports i s l w))) \<and>
     (\<forall>u i s r w. I w \<longrightarrow> I (fst (co_authorizeWorkflowStart ports u i s r w))) \<and>
     (\<forall>post e m w. co_postAck ports = Some post \<longrightarrow> I w \<longrightarrow> I (fst (post e m w)))"

lemma answer_keeps:
  assumes "ports_keep I ports" and "I w"
  shows "I (eff_world (answer ports event outcome) w)"
  using assms by (auto simp: answer_def maybeAck_def eff_simps ports_keep_def split: option.splits sum.splits if_splits)

lemma answer_outcome: "eff_result (answer ports event outcome) w = Inr x \<Longrightarrow> x = outcome"
  by (simp add: answer_def result_bindE split: sum.splits)

text \<open>A command either ends without the bus, or was admitted and is the bus's answer to one submission.\<close>

definition ends_without_bus :: "('w \<Rightarrow> bool) \<Rightarrow> ('w, comment_call, comment_outcome) eff \<Rightarrow> 'w \<Rightarrow> bool" where
  "ends_without_bus I m w \<longleftrightarrow> I (eff_world m w) \<and> (\<forall>b. CC_Bus b \<notin> set (eff_calls m w)) \<and>
     (\<forall>rid rep c. eff_result m w \<noteq> Inr (CO_submitted rid rep c))"

definition bus_answer where
  "bus_answer sha256 is_uuid ports event repoId userId verb c input =
     bindE (viaE CC_Bus (submit sha256 is_uuid (co_bus ports) (comment_submission event repoId userId verb c input)))
       (\<lambda>receipt. answer ports event (CO_submitted (sr_runId receipt) (sr_replayed receipt) c))"

definition ends_as :: "('w, comment_call, 'a) eff \<Rightarrow> 'w \<Rightarrow> ('w, comment_call, 'a) eff \<Rightarrow> 'w \<Rightarrow> bool" where
  "ends_as m w m' w' \<longleftrightarrow> eff_world m w = eff_world m' w' \<and> eff_result m w = eff_result m' w' \<and>
     (\<forall>b. CC_Bus b \<in> set (eff_calls m w) \<longleftrightarrow> CC_Bus b \<in> set (eff_calls m' w'))"

lemma answer_without_bus:
  "ports_keep I ports \<Longrightarrow> I w \<Longrightarrow> (\<And>rid rep c. outcome \<noteq> CO_submitted rid rep c) \<Longrightarrow>
     ends_without_bus I (answer ports event outcome) w"
  by (auto simp: ends_without_bus_def answer_keeps answer_calls dest: answer_outcome)

text \<open>One port call that is not the bus, and what follows it.\<close>

lemma without_bus_call:
  assumes "\<And>b. c \<noteq> CC_Bus b"
  shows "ends_without_bus I (bindE (callE c p) k) w \<longleftrightarrow>
    (case snd (p w) of Inl e \<Rightarrow> I (fst (p w)) | Inr a \<Rightarrow> ends_without_bus I (k a) (fst (p w)))"
  using assms by (auto simp: ends_without_bus_def eff_simps split: sum.splits)

lemma ends_as_call:
  assumes "\<And>b. c \<noteq> CC_Bus b" and "snd (p w) = Inr a"
  shows "ends_as (bindE (callE c p) k) w m w'' \<longleftrightarrow> ends_as (k a) (fst (p w)) m w''"
proof -
  have "CC_Bus b \<noteq> c" for b using assms(1) by metis
  then show ?thesis using assms(2) by (simp add: ends_as_def eff_simps)
qed

lemma submitCommand_cases:
  assumes "ports_keep I ports" and "I w"
  obtains (refused) "ends_without_bus I (submitCommand sha256 is_uuid ports event verb c input) w"
  | (admitted) repoId userId w3 where "comment_admitted ports event repoId userId w w3" and "I w3"
      and "ends_as (submitCommand sha256 is_uuid ports event verb c input) w
             (bus_answer sha256 is_uuid ports event repoId userId verb c input) w3"
proof -
  let ?s = "js_int_str (ic_userId event)" and ?m = "submitCommand sha256 is_uuid ports event verb c input"
  note keep = assms(1) [unfolded ports_keep_def]
  obtain w1 repo where f: "co_findByGitHubRepositoryId ports (js_int_str (ic_repositoryId event)) w = (w1, repo)" by fastforce
  have i1: "I w1" using keep assms(2) f by (metis fst_conv)
  show ?thesis
  proof (cases "\<exists>repoId. repo = Inr (Some (repoId, ''active''))")
    case False
    have "ends_without_bus I ?m w"
      unfolding submitCommand_def using False i1
      by (auto simp: without_bus_call f intro!: answer_without_bus assms(1) split: sum.splits option.splits)
    then show ?thesis by (rule refused)
  next
    case True
    then obtain repoId where repo: "repo = Inr (Some (repoId, ''active''))" by blast
    obtain w2 user where u: "co_resolveOrCreateUser ports GITHUB_ISSUER ?s (ic_login event) w1 = (w2, user)" by fastforce
    have i2: "I w2" using keep i1 u by (metis fst_conv)
    show ?thesis
    proof (cases user)
      case (Inl err)
      have "ends_without_bus I ?m w" unfolding submitCommand_def using i2
        by (simp add: without_bus_call f repo u Inl)
      then show ?thesis by (rule refused)
    next
      case (Inr userId)
      obtain w3 auth where a: "co_authorizeWorkflowStart ports userId GITHUB_ISSUER ?s repoId w2 = (w3, auth)" by fastforce
      have i3: "I w3" using keep i2 a by (metis fst_conv)
      show ?thesis
      proof (cases "\<exists>reason. auth = Inr (True, reason)")
        case False
        have "ends_without_bus I ?m w" unfolding submitCommand_def using i3 False
          by (auto simp: without_bus_call f repo u Inr a
              intro!: answer_without_bus assms(1) split: sum.splits)
        then show ?thesis by (rule refused)
      next
        case True
        then obtain reason where r: "auth = Inr (True, reason)" by blast
        have "ends_as ?m w (bus_answer sha256 is_uuid ports event repoId userId verb c input) w3" unfolding submitCommand_def
          by (simp add: ends_as_call f repo u Inr a r)
             (simp add: bus_answer_def ends_as_def)
        moreover have "comment_admitted ports event repoId userId w w3"
          unfolding comment_admitted_def using f u a repo Inr r by blast
        ultimately show ?thesis using i3 by (intro admitted)
      qed
    qed
  qed
qed

text \<open>
  Property C4.  A comment reaches the run table only through the gate: whenever handling a comment asks for a run,
  the repository was found active, the commenter was resolved and authorized to start workflows on
  exactly that repository in the worlds those ports saw, and the run names that repository, that user
  and the comment surface, with a workflow of the MVP list.
\<close>

theorem comment_runs_are_authorized:
  assumes "CC_Bus (CB_CreateQueuedRun r) \<in> set (eff_calls (handle sha256 is_uuid ports event) w)"
  shows "\<exists>repoId userId w3. comment_admitted ports event repoId userId w w3 \<and> qr_repositoryId r = repoId \<and>
    qr_createdBy r = Some userId \<and> qr_originSurface r = OS_github_comment \<and> qr_workflowType r \<in> set COMMAND_BUS_MVP_IDS"
proof -
  from assms obtain verb c input where m: "CC_Bus (CB_CreateQueuedRun r) \<in>
      set (eff_calls (submitCommand sha256 is_uuid ports event verb c input) w)"
    by (auto simp: handle_def answer_calls split: comment_outcome_parsed.splits)
  have k: "ports_keep (\<lambda>_. True) ports" by (simp add: ports_keep_def)
  show ?thesis
  proof (rule submitCommand_cases [OF k TrueI])
    assume "ends_without_bus (\<lambda>_. True) (submitCommand sha256 is_uuid ports event verb c input) w"
    with m show ?thesis by (simp add: ends_without_bus_def)
  next
    fix repoId userId w3
    assume admitted: "comment_admitted ports event repoId userId w w3"
      "ends_as (submitCommand sha256 is_uuid ports event verb c input) w
         (bus_answer sha256 is_uuid ports event repoId userId verb c input) w3"
    let ?q = "comment_submission event repoId userId verb c input"
    from admitted m have "CC_Bus (CB_CreateQueuedRun r) \<in> set (eff_calls (bus_answer sha256 is_uuid ports event repoId userId verb c input) w3)"
      by (simp add: ends_as_def)
    then have r: "CB_CreateQueuedRun r \<in> set (eff_calls (submit sha256 is_uuid (co_bus ports) ?q) w3)"
      by (auto simp: bus_answer_def calls_bindE answer_calls split: sum.splits)
    then obtain mk where mk: "prepare_run sha256 is_uuid ?q = Inr mk" "r = mk (cb_newRunId (co_bus ports) w3)"
      by (auto simp: submit_def calls_bindE split: sum.splits)
    have "launch_allowed is_uuid ?q r" using prepared_allowed [OF mk(1)] mk(2) by simp
    moreover have "qr_createdBy r = Some userId"
      by (rule prepared [OF mk(1)]) (simp add: mk(2) queued_run_of_def comment_submission_def)
    ultimately show ?thesis using admitted(1)
      by (auto simp: launch_allowed_def comment_submission_def)
  qed
qed

section \<open>A redelivered comment starts nothing new\<close>

text \<open>
  The worker's composition: the bus writes the run table, every other port works on the rest of the
  world.
\<close>

definition beside :: "('e, 'a) port \<Rightarrow> (run_db \<times> 'e, 'a) port" where
  "beside p w = (case p (snd w) of (e', r) \<Rightarrow> ((fst w, e'), r))"

definition deployed :: "(run_db \<times> 'e \<Rightarrow> string) \<Rightarrow> int \<Rightarrow> string \<Rightarrow> 'e comment_ports \<Rightarrow> (run_db \<times> 'e) comment_ports" where
  "deployed newId now uuid P =
     \<lparr>co_findByGitHubRepositoryId = (\<lambda>k. beside (co_findByGitHubRepositoryId P k)),
      co_resolveOrCreateUser = (\<lambda>i s l. beside (co_resolveOrCreateUser P i s l)),
      co_authorizeWorkflowStart = (\<lambda>u i s r. beside (co_authorizeWorkflowStart P u i s r)),
      co_postAck = map_option (\<lambda>post e m. beside (post e m)) (co_postAck P),
      co_bus = \<lparr>cb_createQueuedRun = (\<lambda>q w. case worker_createQueuedRun now uuid q (fst w) of (db', r) \<Rightarrow> ((db', snd w), r)), cb_newRunId = newId\<rparr>,
      co_mentionLogin = co_mentionLogin P, co_acksEnabled = co_acksEnabled P\<rparr>"

lemma deployed_keep: "ports_keep (\<lambda>w. fst w = db) (deployed newId now uuid P)"
  by (auto simp: ports_keep_def deployed_def beside_def split: prod.splits)

lemma submit_deployed:
  "submit sha256 is_uuid (co_bus (deployed newId now uuid P)) q (db, e) =
     (case submit sha256 is_uuid (run_store_ports worker_column (\<lambda>db. newId (db, e)) now uuid) q db of (db', cs, r) \<Rightarrow> ((db', e), cs, r))"
  by (simp add: submit_def deployed_def run_store_ports_def worker_createQueuedRun_def readE_def eff_defs split: prod.splits sum.splits)

lemma answer_world: "fst (eff_world (answer (deployed newId now uuid P) event outcome) w) = fst w"
  using answer_keeps [OF deployed_keep, of w "fst w"] by simp

lemma bus_answer_deployed:
  "fst (eff_world (bus_answer sha256 is_uuid (deployed newId now uuid P) event repoId userId verb c input) (db, e)) =
     eff_world (submit sha256 is_uuid (run_store_ports worker_column (\<lambda>db. newId (db, e)) now uuid) (comment_submission event repoId userId verb c input)) db \<and>
   (eff_result (bus_answer sha256 is_uuid (deployed newId now uuid P) event repoId userId verb c input) (db, e) = Inr (CO_submitted rid rep c') \<longrightarrow>
     c' = c \<and> (\<exists>res. eff_result (submit sha256 is_uuid (run_store_ports worker_column (\<lambda>db. newId (db, e)) now uuid)
       (comment_submission event repoId userId verb c input)) db = Inr res \<and> sr_runId res = rid \<and> sr_replayed res = rep))"
proof -
  let ?q = "comment_submission event repoId userId verb c input" and ?D = "deployed newId now uuid P"
  obtain db' cs r where s: "submit sha256 is_uuid (run_store_ports worker_column (\<lambda>db. newId (db, e)) now uuid) ?q db = (db', cs, r)"
    by (metis prod_cases3)
  then have d: "submit sha256 is_uuid (co_bus ?D) ?q (db, e) = ((db', e), cs, r)" by (simp add: submit_deployed)
  show ?thesis
    by (cases r) (auto simp: bus_answer_def eff_simps answer_world eff_world_def [of "submit _ _ _ _"] eff_result_def [of "submit _ _ _ _"]
        s d dest!: answer_outcome)
qed

text \<open>The user a submission is made for is no part of what is submitted.\<close>

lemma prepared_for_other_user:
  assumes "prepare_run sha256 is_uuid (comment_submission event repoId userId verb c input) = Inr mk"
  shows "\<exists>mk'. prepare_run sha256 is_uuid (comment_submission event repoId userId' verb c input) = Inr mk'"
  using assms by (auto simp: prepare_run_def comment_submission_def submit_refusal_def normalized_input_def split: sum.splits option.splits if_splits)

lemma identity_for_other_user:
  "request_identity is_uuid (comment_submission event repoId userId' verb c input) =
     request_identity is_uuid (comment_submission event repoId userId verb c input)"
  by (simp add: request_identity_def comment_submission_def normalized_input_def)

lemma submission_repeated:
  assumes "eff_result (submit sha256 is_uuid (run_store_ports col newId now uuid) (comment_submission event repoId userId verb c input)) db = Inr res"
    and "eff_world (submit sha256 is_uuid (run_store_ports col newId now uuid) (comment_submission event repoId userId verb c input)) db = db'"
    and "\<not> sr_replayed res"
  shows "eff_world (submit sha256 is_uuid (run_store_ports col' newId' now' uuid') (comment_submission event repoId userId' verb c input))
      (create_all ops db') = create_all ops db' \<and>
    eff_result (submit sha256 is_uuid (run_store_ports col' newId' now' uuid') (comment_submission event repoId userId' verb c input))
      (create_all ops db') = Inr (res\<lparr>sr_replayed := True\<rparr>)"
proof -
  let ?q = "\<lambda>u. comment_submission event repoId u verb c input"
  from assms(1,2) obtain cs where s: "submit sha256 is_uuid (run_store_ports col newId now uuid) (?q userId) db = (db', cs, Inr res)"
    by (metis eff_result_def eff_world_def prod.collapse)
  then obtain mk where "prepare_run sha256 is_uuid (?q userId) = Inr mk"
    by (cases "prepare_run sha256 is_uuid (?q userId)") (simp_all add: submit_def throwE_def)
  then obtain mk' where mk': "prepare_run sha256 is_uuid (?q userId') = Inr mk'" using prepared_for_other_user by blast
  have "su_idempotencyKey (?q userId') = su_idempotencyKey (?q userId)" by (simp add: comment_submission_def)
  from known_request_answered [OF s assms(3) mk' this] show ?thesis
    by (simp add: eff_world_def eff_result_def identity_for_other_user [of is_uuid event repoId userId' verb c input userId])
qed

lemma handled_command:
  assumes "eff_result (handle sha256 is_uuid ports event) w = Inr (CO_submitted rid rep c)"
  obtains verb c' input n where
    "parseDevguardComment (ic_body event) (co_mentionLogin ports) (Some (ic_login event)) = PC_command verb c' input n"
  using assms by (auto simp: handle_def dest: answer_outcome split: comment_outcome_parsed.splits)

lemma submitCommand_deployed:
  assumes M: "M = submitCommand sha256 is_uuid (deployed newId now uuid P) event verb c input"
    and S: "S = (\<lambda>e u r. submit sha256 is_uuid (run_store_ports worker_column (\<lambda>db. newId (db, e)) now uuid) (comment_submission event r u verb c input))"
  obtains (refused) "fst (eff_world M (db, e)) = db"
      and "\<And>rid rep c'. eff_result M (db, e) \<noteq> Inr (CO_submitted rid rep c')"
  | (admitted) repoId userId ea eb where
      "co_findByGitHubRepositoryId P (js_int_str (ic_repositoryId event)) e = (ea, Inr (Some (repoId, ''active'')))"
      and "fst (eff_world M (db, e)) = eff_world (S eb userId repoId) db"
      and "\<And>rid rep c'. eff_result M (db, e) = Inr (CO_submitted rid rep c') \<Longrightarrow>
        c' = c \<and> (\<exists>res. eff_result (S eb userId repoId) db = Inr res \<and>
          sr_runId res = rid \<and> sr_replayed res = rep)"
proof (rule submitCommand_cases [of "\<lambda>w. fst w = db" "deployed newId now uuid P" "(db, e)" sha256 is_uuid event verb c input, OF deployed_keep])
  assume "ends_without_bus (\<lambda>w. fst w = db) (submitCommand sha256 is_uuid (deployed newId now uuid P) event verb c input) (db, e)"
  then show thesis by (intro refused) (simp_all add: ends_without_bus_def M)
next
  fix repoId userId v
  assume adm: "comment_admitted (deployed newId now uuid P) event repoId userId (db, e) v" and v: "fst v = db"
    and as: "ends_as (submitCommand sha256 is_uuid (deployed newId now uuid P) event verb c input) (db, e)
      (bus_answer sha256 is_uuid (deployed newId now uuid P) event repoId userId verb c input) v"
  from v obtain eb where eb: "v = (db, eb)" by (cases v) simp
  from adm obtain ea where "co_findByGitHubRepositoryId P (js_int_str (ic_repositoryId event)) e = (ea, Inr (Some (repoId, ''active'')))"
    by (auto simp: comment_admitted_def deployed_def beside_def split: prod.splits)
  then show thesis
  proof (rule admitted)
    show "fst (eff_world M (db, e)) = eff_world (S eb userId repoId) db"
      using as eb by (simp add: ends_as_def M S bus_answer_deployed [THEN conjunct1])
  next
    fix rid rep c'
    assume "eff_result M (db, e) = Inr (CO_submitted rid rep c')"
    then have "eff_result (bus_answer sha256 is_uuid (deployed newId now uuid P) event repoId userId verb c input) (db, eb) =
      Inr (CO_submitted rid rep c')" using as eb by (simp add: ends_as_def M)
    then show "c' = c \<and> (\<exists>res. eff_result (S eb userId repoId) db = Inr res \<and> sr_runId res = rid \<and> sr_replayed res = rep)"
      unfolding S by (rule bus_answer_deployed [THEN conjunct2, THEN mp])
  qed
qed simp

text \<open>
  Property C22.  Delivering the same comment again starts nothing new: after a comment was answered with a new run,
  and whatever was stored since, handling it again leaves the run table and the outbox as they are,
  whatever user, authorization and acknowledgement the second delivery meets; if it is answered
  with a run, it is the first one, marked as replayed.  The one thing relied on is that the
  repository port knows the repository under the same id.
\<close>

theorem redelivered_comment_starts_nothing:
  assumes first: "handle sha256 is_uuid (deployed newId now uuid P) event (db, e) = ((db', e'), calls, Inr (CO_submitted rid False c))"
    and mention: "co_mentionLogin P' = co_mentionLogin P"
    and repo: "\<And>i i' e1 e2. co_findByGitHubRepositoryId P (js_int_str (ic_repositoryId event)) e = (e1, Inr (Some (i, ''active''))) \<Longrightarrow>
      co_findByGitHubRepositoryId P' (js_int_str (ic_repositoryId event)) f = (e2, Inr (Some (i', ''active''))) \<Longrightarrow> i' = i"
  shows "let db2 = create_all ops db'; again = handle sha256 is_uuid (deployed newId' now' uuid' P') event in
    fst (eff_world again (db2, f)) = db2 \<and>
    (\<forall>rid' rep c'. eff_result again (db2, f) = Inr (CO_submitted rid' rep c') \<longrightarrow> rid' = rid \<and> rep \<and> c' = c)"
proof -
  let ?D = "deployed newId now uuid P" and ?D' = "deployed newId' now' uuid' P'" and ?db2 = "create_all ops db'"
  have r1: "eff_result (handle sha256 is_uuid ?D event) (db, e) = Inr (CO_submitted rid False c)"
    and w1: "fst (eff_world (handle sha256 is_uuid ?D event) (db, e)) = db'" using first by (simp_all add: eff_result_def eff_world_def)
  obtain verb c0 input n where
    parsed: "parseDevguardComment (ic_body event) (co_mentionLogin P) (Some (ic_login event)) = PC_command verb c0 input n"
    by (rule handled_command [OF r1]) (simp add: deployed_def)
  then have h: "handle sha256 is_uuid ?D event = submitCommand sha256 is_uuid ?D event verb c0 input"
    and h': "handle sha256 is_uuid ?D' event = submitCommand sha256 is_uuid ?D' event verb c0 input"
    using mention by (simp_all add: handle_def deployed_def)
  from r1 w1 obtain repoId userId e1 e3 res where
    found: "co_findByGitHubRepositoryId P (js_int_str (ic_repositoryId event)) e = (e1, Inr (Some (repoId, ''active'')))"
    and c: "c = c0" and res: "sr_runId res = rid" "\<not> sr_replayed res"
    and s: "eff_result (submit sha256 is_uuid (run_store_ports worker_column (\<lambda>db. newId (db, e3)) now uuid) (comment_submission event repoId userId verb c0 input)) db = Inr res"
      "eff_world (submit sha256 is_uuid (run_store_ports worker_column (\<lambda>db. newId (db, e3)) now uuid) (comment_submission event repoId userId verb c0 input)) db = db'"
    unfolding h by (cases rule: submitCommand_deployed [of _ sha256 is_uuid newId now uuid P event verb c0 input _ db e, OF refl refl]) fastforce+
  note again = submission_repeated [OF s res(2)]
  show ?thesis unfolding Let_def h' using refl refl
  proof (cases rule: submitCommand_deployed [of _ sha256 is_uuid newId' now' uuid' P' event verb c0 input _ ?db2 f])
    case (admitted repoId' userId' f1 f3)
    moreover have "repoId' = repoId" using repo found admitted(1) by blast
    ultimately show "fst (eff_world (submitCommand sha256 is_uuid ?D' event verb c0 input) (?db2, f)) = ?db2 \<and>
      (\<forall>rid' rep c'. eff_result (submitCommand sha256 is_uuid ?D' event verb c0 input) (?db2, f) = Inr (CO_submitted rid' rep c') \<longrightarrow>
        rid' = rid \<and> rep \<and> c' = c)"
      using again [of worker_column "\<lambda>db. newId' (db, f3)" now' uuid' userId' ops] res c by fastforce
  qed simp
qed

lemma submitted_row:
  assumes "eff_result (submit sha256 is_uuid (run_store_ports col newId now uuid) q) db = Inr res" and "\<not> sr_replayed res"
  shows "\<exists>r \<in> set (runs (eff_world (submit sha256 is_uuid (run_store_ports col newId now uuid) q) db)).
    rn_id r = sr_runId res \<and> (\<exists>run. rn_originSurface r = col run \<and> qr_originSurface run = su_originSurface q)"
proof -
  from assms(1) obtain mk where mk: "prepare_run sha256 is_uuid q = Inr mk"
    by (cases "prepare_run sha256 is_uuid q") (simp_all add: submit_def)
  obtain db' r where c: "createQueuedRun col now uuid (mk (newId db)) db = (db', r)" by fastforce
  from assms c have "r = Inr (Run_created (sr_runId res))"
    by (auto simp: eff_result_def submit_prepared [OF mk] split: sum.splits create_outcome.splits)
  with c have f: "sr_runId res = qr_runId (mk (newId db))" "findByIdempotencyKeyHash (qr_idempotencyKeyHash (mk (newId db))) (runs db') =
      Some (run_row_of col (mk (newId db)))" using created_row_found by auto
  moreover have "eff_world (submit sha256 is_uuid (run_store_ports col newId now uuid) q) db = db'"
    by (simp add: eff_world_def submit_prepared [OF mk] c split: sum.splits)
  moreover from f(2) have "run_row_of col (mk (newId db)) \<in> set (runs db')"
    unfolding findByIdempotencyKeyHash_def by (auto simp: find_Some_iff)
  ultimately show ?thesis using prepared_run [OF mk, of "newId db"]
    by (intro bexI [of _ "run_row_of col (mk (newId db))"]) (auto simp: run_row_of_def)
qed

text \<open>
  A run started by a comment is recorded as started on the web: the worker's persistence adapter does not
  pass the surface, and the column takes its default.
\<close>

theorem comment_run_is_recorded_as_web:
  assumes "handle sha256 is_uuid (deployed newId now uuid P) event (db, e) = ((db', e'), calls, Inr (CO_submitted rid False c))"
  shows "\<exists>r \<in> set (runs db'). rn_id r = rid \<and> rn_originSurface r = OS_web"
proof -
  let ?D = "deployed newId now uuid P"
  have r: "eff_result (handle sha256 is_uuid ?D event) (db, e) = Inr (CO_submitted rid False c)"
    and w: "fst (eff_world (handle sha256 is_uuid ?D event) (db, e)) = db'" using assms by (simp_all add: eff_result_def eff_world_def)
  obtain verb d input n where "parseDevguardComment (ic_body event) (co_mentionLogin P) (Some (ic_login event)) = PC_command verb d input n"
    by (rule handled_command [OF r]) (simp add: deployed_def)
  then have h: "handle sha256 is_uuid ?D event = submitCommand sha256 is_uuid ?D event verb d input"
    by (simp add: handle_def deployed_def)
  show ?thesis using refl refl
  proof (cases rule: submitCommand_deployed [of _ sha256 is_uuid newId now uuid P event verb d input _ db e])
    case refused
    with r h show ?thesis by simp
  next
    case (admitted repoId userId ea eb)
    with r w h obtain res where "eff_result (submit sha256 is_uuid (run_store_ports worker_column (\<lambda>db. newId (db, eb)) now uuid)
        (comment_submission event repoId userId verb d input)) db = Inr res" "sr_runId res = rid" "\<not> sr_replayed res" by force
    with submitted_row [OF this(1,3)] admitted(2) w h show ?thesis by (auto simp: worker_column_def)
  qed
qed

section \<open>Concrete comments\<close>

definition sample_comment :: "string \<Rightarrow> issue_comment_event" where
  "sample_comment body =
     \<lparr>ic_commentId = 7, ic_body = body, ic_userId = 5, ic_login = ''ann'', ic_issueNumber = 3, ic_pull_request = None,
      ic_repositoryId = 9, ic_owner = ''o'', ic_name = ''n'', ic_full_name = None, ic_installation = None\<rparr>"

definition sample_comment_ports :: "unit comment_ports" where
  "sample_comment_ports =
     \<lparr>co_findByGitHubRepositoryId = (\<lambda>_ w. (w, Inr (Some (''repo'', ''active'')))), co_resolveOrCreateUser = (\<lambda>_ _ _ w. (w, Inr ''u'')),
      co_authorizeWorkflowStart = (\<lambda>_ _ _ _ w. (w, Inr (True, None))), co_postAck = None,
      co_bus = \<lparr>cb_createQueuedRun = (\<lambda>q w. (w, Inr (Run_created (qr_runId q)))), cb_newRunId = (\<lambda>_. ''run'')\<rparr>,
      co_mentionLogin = None, co_acksEnabled = True\<rparr>"

text \<open>
  An explicit issue number zero is accepted although the parser has a rejection for it: the shorthand
  reader answers first, so the branch that reports an invalid number is never reached for digits.
\<close>

theorem zero_issue_number_is_accepted:
  "parseDevguardComment ''@devguard implement issue=0'' None None =
     PC_command ''implement'' (Workflow ''implement_issue'') [(''issueNumber'', JNum 0)] []"
  by code_simp

text \<open>
  A verb that names an inherited property is taken for an alias: for an admitted commenter the handler
  ends in a type error, after the user was created, with no answer to the comment.
\<close>

theorem inherited_verb_crashes:
  assumes "ic_body event = ''@devguard constructor''" and "co_mentionLogin ports = None" and "js_lower (ic_login event) \<noteq> ''devguard''"
    and "comment_admitted ports event repoId userId w v"
  shows "eff_result (handle sha256 is_uuid ports event) w = Inl (ErrorClass ''TypeError'' ''input.trim is not a function'') \<and>
    (\<forall>m. CC_PostAck m \<notin> set (eff_calls (handle sha256 is_uuid ports event) w))"
proof -
  have "js_lower ''devguard'' = ''devguard''" by code_simp
  then have "parseDevguardComment ''@devguard constructor'' None (Some l) = parseDevguardComment ''@devguard constructor'' None None"
    if "js_lower l \<noteq> ''devguard''" for l using that by (simp add: parseDevguardComment_def)
  moreover have "parseDevguardComment ''@devguard constructor'' None None = PC_command ''constructor'' Inherited_property [] []" by code_simp
  ultimately have h: "handle sha256 is_uuid ports event = submitCommand sha256 is_uuid ports event ''constructor'' Inherited_property []"
    using assms(1-3) by (simp add: handle_def)
  have t: "submit sha256 is_uuid b (comment_submission event repoId userId ''constructor'' Inherited_property []) =
      throwE (ErrorClass ''TypeError'' ''input.trim is not a function'')" for b
    by (simp add: submit_def prepare_run_def resolve_submitted_def comment_submission_def)
  from assms(4) obtain w' w'' reason where
    a: "co_findByGitHubRepositoryId ports (js_int_str (ic_repositoryId event)) w = (w', Inr (Some (repoId, ''active'')))"
      "co_resolveOrCreateUser ports GITHUB_ISSUER (js_int_str (ic_userId event)) (ic_login event) w' = (w'', Inr userId)"
      "co_authorizeWorkflowStart ports userId GITHUB_ISSUER (js_int_str (ic_userId event)) repoId w'' = (v, Inr (True, reason))"
    unfolding comment_admitted_def by blast
  show ?thesis unfolding h submitCommand_def by (simp add: eff_simps a t)
qed

theorem inherited_verb_crashes_witness:
  "eff_result (handle id (\<lambda>_. True) sample_comment_ports (sample_comment ''@devguard constructor'')) () =
     Inl (ErrorClass ''TypeError'' ''input.trim is not a function'')"
proof -
  have "js_lower ''ann'' \<noteq> ''devguard''" by code_simp
  then show ?thesis
    by (intro inherited_verb_crashes [where repoId = "''repo''" and userId = "''u''" and v = "()", THEN conjunct1])
       (simp_all add: sample_comment_def sample_comment_ports_def comment_admitted_def)
qed

definition audit_run :: queued_run where
  "audit_run = queued_run_of id (comment_submission (sample_comment ''@devguard audit'') ''repo'' ''u'' ''audit'' (Workflow ''security_audit'') [])
     ''security_audit'' (Some (JObj [])) (Some ''1.0.0'') ''run''"

lemma sample_audit_submission:
  "prepare_run id (\<lambda>_. True) (comment_submission (sample_comment ''@devguard audit'') ''repo'' ''u'' ''audit'' (Workflow ''security_audit'') []) =
     Inr (queued_run_of id (comment_submission (sample_comment ''@devguard audit'') ''repo'' ''u'' ''audit'' (Workflow ''security_audit'') [])
       ''security_audit'' (Some (JObj [])) (Some ''1.0.0''))"
proof -
  let ?q = "comment_submission (sample_comment ''@devguard audit'') ''repo'' ''u'' ''audit'' (Workflow ''security_audit'') []"
  have "resolve_submitted (Workflow ''security_audit'') = Inr ''security_audit''" by code_simp
  moreover have "submit_refusal ?q = None" by code_simp
  moreover have "normalizeDefinitionVersion (Some ''1.0.0'') = Inr (Some ''1.0.0'')" by code_simp
  moreover have "normalized_input (\<lambda>_. True) ?q ''security_audit'' = Inr (Some (JObj []))" by code_simp
  ultimately show ?thesis by (simp add: prepare_run_def) (simp add: comment_submission_def)
qed

lemma audit_announced: "append_refusal (queued_event audit_run) = None"
proof -
  have "utf8_length (json_text (ev_payload (queued_event audit_run))) = 61" "utf8_length (json_text (ev_correlation (queued_event audit_run))) = 127"
    "length (js_trim (ev_eventType (queued_event audit_run))) = 15" "nonEmptyObject (ev_payload (queued_event audit_run))"
    "nonEmptyObject (ev_correlation (queued_event audit_run))" by code_simp+
  moreover have "ev_schemaVersion (queued_event audit_run) = 1" by (simp add: queued_event_def)
  ultimately show ?thesis by (simp add: append_refusal_def boundedJson_def MAX_OUTBOX_SERIALIZED_BYTES_def)
qed

lemma audit_created: "snd (createQueuedRun worker_column 0 ''e'' audit_run \<lparr>runs = [], run_outbox = []\<rparr>) = Inr (Run_created ''run'')"
  using audit_announced by (simp add: createQueuedRun_def create_run_def append_event_def) (simp add: audit_run_def queued_run_of_def)

lemma audit_parsed: "parseDevguardComment ''@devguard audit'' None (Some ''ann'') = PC_command ''audit'' (Workflow ''security_audit'') [] []"
  by code_simp

lemma sample_audit_handled:
  "\<exists>db' calls. handle id (\<lambda>_. True) (deployed (\<lambda>_. ''run'') 0 ''e'' sample_comment_ports) (sample_comment ''@devguard audit'') (\<lparr>runs = [], run_outbox = []\<rparr>, ()) =
     ((db', ()), calls, Inr (CO_submitted ''run'' False (Workflow ''security_audit''))) \<and> CC_Bus (CB_CreateQueuedRun audit_run) \<in> set calls"
proof -
  let ?D = "deployed (\<lambda>_. ''run'') 0 ''e'' sample_comment_ports" and ?e = "sample_comment ''@devguard audit''"
  let ?q = "comment_submission ?e ''repo'' ''u'' ''audit'' (Workflow ''security_audit'') []"
  obtain db' where "createQueuedRun worker_column 0 ''e'' audit_run \<lparr>runs = [], run_outbox = []\<rparr> = (db', Inr (Run_created ''run''))"
    using audit_created by (cases "createQueuedRun worker_column 0 ''e'' audit_run \<lparr>runs = [], run_outbox = []\<rparr>") simp
  then have s: "\<exists>res. submit id (\<lambda>_. True) (co_bus ?D) ?q (\<lparr>runs = [], run_outbox = []\<rparr>, ()) = ((db', ()), [CB_CreateQueuedRun audit_run], Inr res) \<and>
      sr_runId res = ''run'' \<and> \<not> sr_replayed res"
    by (simp add: submit_deployed submit_prepared [OF sample_audit_submission] audit_run_def)
  then obtain res where s: "submit id (\<lambda>_. True) (co_bus ?D) ?q (\<lparr>runs = [], run_outbox = []\<rparr>, ()) = ((db', ()), [CB_CreateQueuedRun audit_run], Inr res)"
    and res: "sr_runId res = ''run''" "\<not> sr_replayed res" by blast
  have h: "handle id (\<lambda>_. True) ?D ?e = submitCommand id (\<lambda>_. True) ?D ?e ''audit'' (Workflow ''security_audit'') []"
    by (simp add: handle_def deployed_def sample_comment_ports_def sample_comment_def audit_parsed)
  have p: "co_findByGitHubRepositoryId ?D k w = (w, Inr (Some (''repo'', ''active'')))" "co_resolveOrCreateUser ?D i t l w = (w, Inr ''u'')"
    "co_authorizeWorkflowStart ?D u i t r w = (w, Inr (True, None))" "co_postAck ?D = None" for k w i t l u r
    by (cases w, simp add: deployed_def sample_comment_ports_def beside_def)+
  show ?thesis unfolding h submitCommand_def
    by (simp add: bindE_def callE_def p viaE_def s res answer_def maybeAck_def retE_def)
qed

theorem redelivered_comment_starts_nothing_witness:
  "let db = fst (eff_world (handle id (\<lambda>_. True) (deployed (\<lambda>_. ''run'') 0 ''e'' sample_comment_ports) (sample_comment ''@devguard audit''))
       (\<lparr>runs = [], run_outbox = []\<rparr>, ())) in
   fst (eff_world (handle id (\<lambda>_. True) (deployed (\<lambda>_. ''other'') 9 ''f'' sample_comment_ports) (sample_comment ''@devguard audit'')) (db, ())) = db"
proof -
  obtain db' calls where h: "handle id (\<lambda>_. True) (deployed (\<lambda>_. ''run'') 0 ''e'' sample_comment_ports) (sample_comment ''@devguard audit'')
      (\<lparr>runs = [], run_outbox = []\<rparr>, ()) = ((db', ()), calls, Inr (CO_submitted ''run'' False (Workflow ''security_audit'')))"
    using sample_audit_handled by blast
  from redelivered_comment_starts_nothing [OF h refl, of "()" "[]" "\<lambda>_. ''other''" 9 "''f''"]
  show ?thesis by (simp add: eff_world_def [of _ "(\<lparr>runs = [], run_outbox = []\<rparr>, ())"] h Let_def)
qed

theorem comment_runs_are_authorized_witness:
  "\<exists>repoId userId v. comment_admitted (deployed (\<lambda>_. ''run'') 0 ''e'' sample_comment_ports) (sample_comment ''@devguard audit'') repoId userId
     (\<lparr>runs = [], run_outbox = []\<rparr>, ()) v \<and> qr_repositoryId audit_run = repoId \<and> qr_createdBy audit_run = Some userId"
proof -
  have "CC_Bus (CB_CreateQueuedRun audit_run) \<in> set (eff_calls (handle id (\<lambda>_. True) (deployed (\<lambda>_. ''run'') 0 ''e'' sample_comment_ports)
      (sample_comment ''@devguard audit'')) (\<lparr>runs = [], run_outbox = []\<rparr>, ()))"
    using sample_audit_handled by (auto simp: eff_calls_def)
  from comment_runs_are_authorized [OF this] show ?thesis by blast
qed

theorem comment_run_is_recorded_as_web_witness:
  "\<exists>r \<in> set (runs (fst (eff_world (handle id (\<lambda>_. True) (deployed (\<lambda>_. ''run'') 0 ''e'' sample_comment_ports) (sample_comment ''@devguard audit''))
     (\<lparr>runs = [], run_outbox = []\<rparr>, ())))). rn_id r = ''run'' \<and> rn_originSurface r = OS_web"
proof -
  obtain db' calls where h: "handle id (\<lambda>_. True) (deployed (\<lambda>_. ''run'') 0 ''e'' sample_comment_ports) (sample_comment ''@devguard audit'')
      (\<lparr>runs = [], run_outbox = []\<rparr>, ()) = ((db', ()), calls, Inr (CO_submitted ''run'' False (Workflow ''security_audit'')))"
    using sample_audit_handled by blast
  from comment_run_is_recorded_as_web [OF h] show ?thesis by (simp add: eff_world_def h)
qed

end
