(* ===== verification/Webhook_Delivery.thy ===== *)
theory Webhook_Delivery
  imports Comment_Commands
begin

text \<open>
  Webhooks from GitHub, from the HTTP request to the durable delivery: the route and its signature
  check of \<open>apps/api/src/routes/github.routes.ts\<close>, \<open>DurableWebhookAcceptance\<close> of
  \<open>apps/api/src/composition/durable-webhook-acceptance.ts\<close> and \<open>PostgresWebhookDeliveryStore\<close> of
  \<open>packages/db/src/repositories/webhook-delivery.ts\<close>, with the delivery state machine that
  \<open>packages/queue/src/jobs/contracts.ts\<close> mirrors.  The keyed hash, the hash, the decoding of bytes and
  \<open>JSON.parse\<close> are arguments; nothing is assumed of them.
\<close>

section \<open>The delivery state machine\<close>

datatype delivery_state = WD_accepted | WD_processing | WD_routed | WD_ignored | WD_failed_retryable | WD_dead_lettered

fun LEGAL :: "delivery_state \<Rightarrow> delivery_state list" where
  "LEGAL WD_accepted = [WD_processing, WD_failed_retryable]"
| "LEGAL WD_processing = [WD_routed, WD_ignored, WD_failed_retryable, WD_dead_lettered]"
| "LEGAL WD_routed = [WD_routed]"
| "LEGAL WD_ignored = [WD_ignored]"
| "LEGAL WD_failed_retryable = [WD_processing, WD_dead_lettered]"
| "LEGAL WD_dead_lettered = []"

definition resolveDeliveryEdge :: "delivery_state \<Rightarrow> delivery_state \<Rightarrow> bool" where
  "resolveDeliveryEdge from to =
     (if from = WD_dead_lettered then False
      else if from = WD_routed \<or> from = WD_ignored then to = from
      else if to = from then True
      else to \<in> set (LEGAL from))"

fun terminal_delivery :: "delivery_state \<Rightarrow> bool" where
  "terminal_delivery WD_routed = True"
| "terminal_delivery WD_ignored = True"
| "terminal_delivery WD_dead_lettered = True"
| "terminal_delivery _ = False"

section \<open>The delivery ledger\<close>

record delivery_row =
  wd_id :: string
  wd_event :: string
  wd_hash :: string
  wd_payloadRef :: string
  wd_repositoryId :: "string option"
  wd_state :: delivery_state

record delivery_input =
  di_id :: string
  di_event :: string
  di_hash :: string
  di_payloadRef :: "string option"
  di_repositoryId :: "string option"

definition insert_delivery :: "delivery_input \<Rightarrow> delivery_row list \<Rightarrow> js_error + delivery_row list \<times> bool" where
  "insert_delivery d rows =
     (case find (\<lambda>r. wd_id r = di_id d) rows of
        None \<Rightarrow> Inr (rows @ [\<lparr>wd_id = di_id d, wd_event = di_event d, wd_hash = di_hash d,
          wd_payloadRef = (case di_payloadRef d of None \<Rightarrow> [] | Some p \<Rightarrow> p), wd_repositoryId = di_repositoryId d,
          wd_state = WD_accepted\<rparr>], False)
      | Some row \<Rightarrow>
          if wd_hash row \<noteq> di_hash d \<or> wd_event row \<noteq> di_event d \<or> wd_repositoryId row \<noteq> di_repositoryId d
          then Inl (ErrorObject ''WEBHOOK_DELIVERY_CONFLICT'')
          else Inr (rows, True))"

definition delivery_state_of :: "string \<Rightarrow> delivery_row list \<Rightarrow> delivery_state option" where
  "delivery_state_of i rows = map_option wd_state (find (\<lambda>r. wd_id r = i) rows)"

definition set_delivery :: "string \<Rightarrow> delivery_state \<Rightarrow> delivery_row list \<Rightarrow> delivery_row list" where
  "set_delivery i s rows = map (\<lambda>r. if wd_id r = i then r\<lparr>wd_state := s\<rparr> else r) rows"

datatype accept_outcome =
    Accepted_new
  | Accepted_duplicate delivery_state
  | Accept_conflict delivery_state

definition acceptDelivery :: "delivery_input \<Rightarrow> delivery_row list \<Rightarrow> delivery_row list \<times> accept_outcome" where
  "acceptDelivery d rows =
     (let state = (case delivery_state_of (di_id d) rows of None \<Rightarrow> WD_accepted | Some s \<Rightarrow> s) in
      case insert_delivery (d\<lparr>di_payloadRef := None\<rparr>) rows of
        Inl _ \<Rightarrow> (rows, Accept_conflict state)
      | Inr (rows', replay) \<Rightarrow> (rows', if replay then Accepted_duplicate state else Accepted_new))"

definition claim_delivery :: "string \<Rightarrow> delivery_row list \<Rightarrow> delivery_row list \<times> delivery_state option" where
  "claim_delivery i rows =
     (if delivery_state_of i rows \<in> {Some WD_accepted, Some WD_failed_retryable}
      then (set_delivery i WD_processing rows, Some WD_processing) else (rows, None))"

fun delivery_state_str :: "delivery_state \<Rightarrow> string" where
  "delivery_state_str WD_accepted = ''ACCEPTED''"
| "delivery_state_str WD_processing = ''PROCESSING''"
| "delivery_state_str WD_routed = ''ROUTED''"
| "delivery_state_str WD_ignored = ''IGNORED''"
| "delivery_state_str WD_failed_retryable = ''FAILED_RETRYABLE''"
| "delivery_state_str WD_dead_lettered = ''DEAD_LETTERED''"

definition illegal_transition :: "delivery_state \<Rightarrow> delivery_state \<Rightarrow> js_error" where
  "illegal_transition from to =
     ErrorObject (''ILLEGAL_DELIVERY_TRANSITION:'' @ delivery_state_str from @ ''->'' @ delivery_state_str to)"

definition transition_delivery ::
  "string \<Rightarrow> delivery_state \<Rightarrow> delivery_state \<Rightarrow> delivery_row list \<Rightarrow> delivery_row list \<times> (js_error + delivery_state)" where
  "transition_delivery i from to rows =
     (if to \<notin> set (LEGAL from) \<or> delivery_state_of i rows \<noteq> Some from then (rows, Inl (illegal_transition from to))
      else (set_delivery i to rows, Inr to))"

section \<open>Acceptance\<close>

record hook_db =
  deliveries :: "delivery_row list"
  hook_outbox :: "outbox_row list"

record hook_request =
  hk_deliveryId :: string
  hk_event :: string
  hk_payloadJson :: string

definition MAX_JOB_PAYLOAD_BYTES :: nat where "MAX_JOB_PAYLOAD_BYTES = 32768"

text \<open>The bounded view as an object, in the order \<open>parseIssueCommentWebhook\<close> builds it.\<close>

definition event_json :: "issue_comment_event \<Rightarrow> json" where
  "event_json e =
     JObj ([(''action'', JStr ''created''),
       (''comment'', JObj [(''id'', JNum (ic_commentId e)), (''body'', JStr (ic_body e)),
         (''user'', JObj [(''id'', JNum (ic_userId e)), (''login'', JStr (ic_login e))])]),
       (''issue'', JObj ((''number'', JNum (ic_issueNumber e)) # optional_member ''pull_request'' (ic_pull_request e))),
       (''repository'', JObj ([(''id'', JNum (ic_repositoryId e)), (''owner'', JObj [(''login'', JStr (ic_owner e))]),
         (''name'', JStr (ic_name e))] @ optional_member ''full_name'' (map_option JStr (ic_full_name e))))] @
       optional_member ''installation'' (map_option (\<lambda>n. JObj [(''id'', JNum n)]) (ic_installation e)))"

definition excerpt_of :: "issue_comment_event \<Rightarrow> string option" where
  "excerpt_of e =
     (let excerpt = json_text (event_json e) in
      if utf8_length excerpt \<le> MAX_JOB_PAYLOAD_BYTES then Some excerpt else None)"

text \<open>
  What is read off the payload: the repository it names and the excerpt for the worker.  An error of
  the lookup is caught with those of \<open>JSON.parse\<close>.
\<close>

definition inspect_payload ::
  "(string \<Rightarrow> json option) \<Rightarrow> (string \<Rightarrow> ('e, string option) port) option \<Rightarrow> string \<Rightarrow> 'e \<Rightarrow> 'e \<times> string option \<times> string option" where
  "inspect_payload parse resolve text e =
     (case Option.bind (parse text) parseIssueCommentWebhook of
        None \<Rightarrow> (e, None, None)
      | Some ev \<Rightarrow>
          (case resolve of
             None \<Rightarrow> (e, None, excerpt_of ev)
           | Some lookup \<Rightarrow>
               (case lookup (js_int_str (ic_repositoryId ev)) e of
                  (e', Inl _) \<Rightarrow> (e', None, None)
                | (e', Inr repo) \<Rightarrow> (e', repo, excerpt_of ev))))"

definition delivery_of :: "(string \<Rightarrow> string) \<Rightarrow> hook_request \<Rightarrow> string option \<Rightarrow> delivery_input" where
  "delivery_of sha256 q repo =
     \<lparr>di_id = hk_deliveryId q, di_event = hk_event q, di_hash = sha256 (hk_payloadJson q),
      di_payloadRef = Some (''sha256:'' @ sha256 (hk_payloadJson q)), di_repositoryId = repo\<rparr>"

definition accepted_event :: "(string \<Rightarrow> string) \<Rightarrow> hook_request \<Rightarrow> string option \<Rightarrow> string option \<Rightarrow> outbox_event_like" where
  "accepted_event sha256 q repo excerpt =
     \<lparr>ev_eventType = ''webhook.accepted'', ev_schemaVersion = 1,
      ev_payload = JObj ([(''deliveryId'', JStr (hk_deliveryId q)), (''event'', JStr (hk_event q))] @
        optional_member ''repositoryId'' (map_option JStr repo) @ optional_member ''issueCommentPayload'' (map_option JStr excerpt)),
      ev_correlation = JObj ([(''deliveryId'', JStr (hk_deliveryId q)), (''payloadRef'', JStr (''sha256:'' @ sha256 (hk_payloadJson q)))] @
        optional_member ''repositoryId'' (map_option JStr repo)),
      ev_aggregateType = Some ''github_webhook_delivery'', ev_aggregateId = Some (hk_deliveryId q), ev_aggregateVersion = None\<rparr>"

text \<open>The transaction: the ledger row and the outbox event, or neither.\<close>

definition store_delivery ::
  "int \<Rightarrow> string \<Rightarrow> (string \<Rightarrow> string) \<Rightarrow> hook_request \<Rightarrow> string option \<Rightarrow> string option \<Rightarrow> hook_db \<Rightarrow> hook_db \<times> (js_error + bool)" where
  "store_delivery now uuid sha256 q repo excerpt db =
     (case insert_delivery (delivery_of sha256 q repo) (deliveries db) of
        Inl e \<Rightarrow> (db, Inl e)
      | Inr (rows, True) \<Rightarrow> (db, Inr True)
      | Inr (rows, False) \<Rightarrow>
          (case append_event now uuid (accepted_event sha256 q repo excerpt) (hook_outbox db) of
             Inl _ \<Rightarrow> (db, Inl (MadeError ''VALIDATION_FAILED''))
           | Inr events \<Rightarrow> (db\<lparr>deliveries := rows, hook_outbox := events\<rparr>, Inr False)))"

record 'e accept_config =
  ac_parse :: "string \<Rightarrow> json option"
  ac_sha256 :: "string \<Rightarrow> string"
  ac_resolveRepositoryId :: "(string \<Rightarrow> ('e, string option) port) option"

text \<open>\<open>accept\<close>; the result is whether the delivery is a replay.\<close>

definition accept_webhook ::
  "'e accept_config \<Rightarrow> int \<Rightarrow> string \<Rightarrow> hook_request \<Rightarrow> hook_db \<times> 'e \<Rightarrow> (hook_db \<times> 'e) \<times> (js_error + bool)" where
  "accept_webhook cfg now uuid q w =
     (case inspect_payload (ac_parse cfg) (ac_resolveRepositoryId cfg) (hk_payloadJson q) (snd w) of
        (e', repo, excerpt) \<Rightarrow>
          (case store_delivery now uuid (ac_sha256 cfg) q repo excerpt (fst w) of (db', r) \<Rightarrow> ((db', e'), r)))"

section \<open>The route\<close>

definition verifyGithubHmac :: "(string \<Rightarrow> string \<Rightarrow> string) \<Rightarrow> string \<Rightarrow> string \<Rightarrow> string \<Rightarrow> bool" where
  "verifyGithubHmac hmac secretKey expected raw =
     (let expectedHex = (if js_startsWith expected ''sha256='' then drop 7 expected else []) in
      if \<not> (length expectedHex = 64 \<and> list_all hex_lower expectedHex) then False
      else hmac secretKey raw = expectedHex)"

datatype hook_answer =
    Signature_invalid_401
  | Headers_invalid_400
  | Rejected_400
  | Accepted_202 string

record http_hook =
  hh_rawBody :: "string option"
  hh_signature :: "string option"
  hh_event :: "string option"
  hh_delivery :: "string option"

definition header :: "string option \<Rightarrow> string" where
  "header h = (case h of None \<Rightarrow> [] | Some v \<Rightarrow> v)"

definition webhook_route ::
  "(string \<Rightarrow> string \<Rightarrow> string) \<Rightarrow> (string \<Rightarrow> string) \<Rightarrow> string option \<Rightarrow> 'e accept_config \<Rightarrow> int \<Rightarrow> string \<Rightarrow> http_hook \<Rightarrow>
   hook_db \<times> 'e \<Rightarrow> (hook_db \<times> 'e) \<times> (js_error + hook_answer)" where
  "webhook_route hmac decode secret cfg now uuid q w =
     (case (secret, hh_rawBody q) of
        (Some secretKey, Some raw) \<Rightarrow>
          if \<not> verifyGithubHmac hmac secretKey (header (hh_signature q)) raw then (w, Inr Signature_invalid_401)
          else if header (hh_event q) = [] \<or> header (hh_delivery q) = [] then (w, Inr Headers_invalid_400)
          else
            (case accept_webhook cfg now uuid \<lparr>hk_deliveryId = header (hh_delivery q), hk_event = header (hh_event q),
                    hk_payloadJson = decode raw\<rparr> w of
               (w', Inl e) \<Rightarrow> (w', Inl e)
             | (w', Inr _) \<Rightarrow> (w', Inr (Accepted_202 (header (hh_delivery q)))))
      | _ \<Rightarrow> (w, Inr Signature_invalid_401))"

section \<open>The excerpt survives the job\<close>

lemma parse_pull_request:
  "parseIssueCommentWebhook payload = Some e \<Longrightarrow> ic_pull_request e = Some j \<Longrightarrow> object_of j = Some j"
  by (auto simp: parseIssueCommentWebhook_def member_def object_of_def bind_eq_Some_conv split: if_splits)

text \<open>
  What the API extracts is what the worker reads: the bounded view of an accepted payload, written as
  JSON and read again by the same parser, is the same view.
\<close>

theorem issue_comment_roundtrip:
  assumes "parseIssueCommentWebhook payload = Some e"
  shows "parseIssueCommentWebhook (event_json e) = Some e"
proof -
  have "Option.bind (ic_pull_request e) object_of = ic_pull_request e"
    using parse_pull_request [OF assms] by (cases "ic_pull_request e") simp_all
  then show ?thesis
    by (cases e; cases "ic_pull_request e"; cases "ic_full_name e"; cases "ic_installation e")
       (simp_all add: parseIssueCommentWebhook_def event_json_def member_def optional_member_def)
qed

section \<open>Only a signed request is accepted\<close>

lemma verified_iff:
  "verifyGithubHmac hmac k sig raw \<longleftrightarrow>
     length (hmac k raw) = 64 \<and> list_all hex_lower (hmac k raw) \<and> sig = ''sha256='' @ hmac k raw"
  by (auto simp: verifyGithubHmac_def js_startsWith_def prefix_def Let_def)

text \<open>
  Property C5.  A request that is not signed with the configured key over its exact bytes is refused with 401 and
  changes nothing: whenever the tables change, or anything but a refusal is answered, a secret
  is configured and the signature header is the keyed hash of the raw body.
\<close>

theorem accepted_webhook_was_signed:
  assumes "webhook_route hmac decode secret cfg now uuid q w = (w', r)"
    and "w' \<noteq> w \<or> r \<noteq> Inr Signature_invalid_401"
  shows "\<exists>k raw. secret = Some k \<and> hh_rawBody q = Some raw \<and> header (hh_signature q) = ''sha256='' @ hmac k raw"
  using assms by (auto simp: webhook_route_def verified_iff split: option.splits if_splits)

section \<open>The ledger and the outbox\<close>

datatype hook_op =
    Hook_accept int string "string \<Rightarrow> string" hook_request "string option" "string option"
  | Hook_claim string
  | Hook_transition string delivery_state delivery_state

fun hook_apply :: "hook_op \<Rightarrow> hook_db \<Rightarrow> hook_db" where
  "hook_apply (Hook_accept now uuid sha256 q repo excerpt) db = fst (store_delivery now uuid sha256 q repo excerpt db)"
| "hook_apply (Hook_claim i) db = db\<lparr>deliveries := fst (claim_delivery i (deliveries db))\<rparr>"
| "hook_apply (Hook_transition i from to) db = db\<lparr>deliveries := fst (transition_delivery i from to (deliveries db))\<rparr>"

definition hook_all :: "hook_op list \<Rightarrow> hook_db \<Rightarrow> hook_db" where
  "hook_all ops db = fold hook_apply ops db"

definition hook_ok :: "hook_db \<Rightarrow> bool" where
  "hook_ok db \<longleftrightarrow>
     distinct (map wd_id (deliveries db)) \<and>
     map aggregate_id (hook_outbox db) = map (\<lambda>r. Some (wd_id r)) (deliveries db) \<and>
     list_all (\<lambda>e. event_type e = ''webhook.accepted'') (hook_outbox db)"

lemma set_delivery_ids [simp]: "map wd_id (set_delivery i s rows) = map wd_id rows"
  by (simp add: set_delivery_def comp_def if_distrib cong: if_cong)

lemma set_delivery_some_ids [simp]: "map (\<lambda>r. Some (wd_id r)) (set_delivery i s rows) = map (\<lambda>r. Some (wd_id r)) rows"
  by (simp add: set_delivery_def)

lemma append_event_new:
  assumes "append_refusal ev = None"
  obtains e where "append_event now uuid ev rows = Inr (rows @ [e])" and "aggregate_id e = ev_aggregateId ev"
    and "event_type e = ev_eventType ev" and "payload_json e = ev_payload ev"
  using assms by (simp add: append_event_def)

lemma store_cases:
  obtains (new) row e where "store_delivery now uuid sha256 q repo excerpt db =
        (db\<lparr>deliveries := deliveries db @ [row], hook_outbox := hook_outbox db @ [e]\<rparr>, Inr False)"
      "row = \<lparr>wd_id = hk_deliveryId q, wd_event = hk_event q, wd_hash = sha256 (hk_payloadJson q),
          wd_payloadRef = ''sha256:'' @ sha256 (hk_payloadJson q), wd_repositoryId = repo, wd_state = WD_accepted\<rparr>"
      "find (\<lambda>r. wd_id r = hk_deliveryId q) (deliveries db) = None"
      "aggregate_id e = Some (hk_deliveryId q)" "event_type e = ''webhook.accepted''"
      "payload_json e = ev_payload (accepted_event sha256 q repo excerpt)"
  | (unchanged) r where "store_delivery now uuid sha256 q repo excerpt db = (db, r)" "r \<noteq> Inr False"
proof (cases "find (\<lambda>r. wd_id r = hk_deliveryId q) (deliveries db) = None \<and> append_refusal (accepted_event sha256 q repo excerpt) = None")
  case True
  then obtain e where e: "append_event now uuid (accepted_event sha256 q repo excerpt) (hook_outbox db) = Inr (hook_outbox db @ [e])"
    "aggregate_id e = ev_aggregateId (accepted_event sha256 q repo excerpt)" "event_type e = ev_eventType (accepted_event sha256 q repo excerpt)"
    "payload_json e = ev_payload (accepted_event sha256 q repo excerpt)" by (auto elim: append_event_new)
  from True e(1) show thesis
    by (intro new [OF _ refl])
       (use e in \<open>simp_all add: store_delivery_def insert_delivery_def delivery_of_def accepted_event_def\<close>)
next
  case False
  then have "fst (store_delivery now uuid sha256 q repo excerpt db) = db \<and> snd (store_delivery now uuid sha256 q repo excerpt db) \<noteq> Inr False"
    by (cases "find (\<lambda>r. wd_id r = hk_deliveryId q) (deliveries db)")
       (auto simp: store_delivery_def insert_delivery_def delivery_of_def append_event_def)
  then show thesis by (metis unchanged prod.collapse)
qed

lemma hook_ok_apply: "hook_ok db \<Longrightarrow> hook_ok (hook_apply op db)"
proof (cases op)
  case (Hook_accept now uuid sha256 q repo excerpt)
  assume "hook_ok db"
  then show ?thesis unfolding Hook_accept
    by (cases rule: store_cases [of now uuid sha256 q repo excerpt db]) (auto simp: hook_ok_def find_None_iff)
qed (auto simp: hook_ok_def claim_delivery_def transition_delivery_def)

text \<open>
  Whatever requests, claims and transitions happened since the tables were empty, the ledger has one
  row per delivery id and the outbox exactly one \<open>webhook.accepted\<close> event per row, in the same order: no
  accepted delivery without its processing intent, and none announced twice.
\<close>

theorem every_accepted_delivery_is_announced_once:
  "hook_ok (hook_all ops \<lparr>deliveries = [], hook_outbox = []\<rparr>)"
proof -
  have "hook_ok db \<Longrightarrow> hook_ok (fold hook_apply ops db)" for db
    by (induction ops arbitrary: db) (auto intro: hook_ok_apply)
  then show ?thesis by (simp add: hook_all_def hook_ok_def)
qed

lemma state_of_set:
  "delivery_state_of j (set_delivery i s rows) =
     (if j = i then map_option (\<lambda>_. s) (delivery_state_of j rows) else delivery_state_of j rows)"
  by (induction rows) (auto simp: delivery_state_of_def set_delivery_def)

lemma terminal_legal: "terminal_delivery s \<Longrightarrow> t \<in> set (LEGAL s) \<Longrightarrow> t = s"
  by (cases s) auto

lemma terminal_kept:
  assumes "delivery_state_of i (deliveries db) = Some s" and "terminal_delivery s"
  shows "delivery_state_of i (deliveries (hook_apply op db)) = Some s"
proof (cases op)
  case (Hook_accept now uuid sha256 q repo excerpt)
  then show ?thesis using assms(1)
    by (cases rule: store_cases [of now uuid sha256 q repo excerpt db]) (auto simp: delivery_state_of_def find_snoc)
next
  case (Hook_claim j)
  with assms show ?thesis by (auto simp: claim_delivery_def state_of_set)
next
  case (Hook_transition j s' t)
  with assms terminal_legal [of s t] show ?thesis by (auto simp: transition_delivery_def state_of_set)
qed

lemma terminal_kept_all:
  assumes "delivery_state_of i (deliveries db) = Some s" and "terminal_delivery s"
  shows "delivery_state_of i (deliveries (hook_all ops db)) = Some s"
  using assms(1) unfolding hook_all_def
  by (induction ops arbitrary: db) (simp_all add: terminal_kept [OF _ assms(2)])

text \<open>A delivery that was routed, ignored or dead-lettered stays so, whatever happens to the tables.\<close>

theorem terminal_delivery_is_final:
  assumes "delivery_state_of i (deliveries db) = Some s" and "terminal_delivery s"
  shows "delivery_state_of i (deliveries (hook_all ops db)) = Some s"
  by (rule terminal_kept_all [OF assms])

section \<open>Redelivery\<close>

lemma delivery_kept:
  assumes "find (\<lambda>r. wd_id r = i) (deliveries db) = Some r"
  shows "\<exists>r'. find (\<lambda>r. wd_id r = i) (deliveries (hook_apply op db)) = Some r' \<and>
    wd_event r' = wd_event r \<and> wd_hash r' = wd_hash r \<and> wd_repositoryId r' = wd_repositoryId r"
proof -
  have s: "\<exists>r'. find (\<lambda>r. wd_id r = i) (set_delivery j t (deliveries db)) = Some r' \<and>
    wd_event r' = wd_event r \<and> wd_hash r' = wd_hash r \<and> wd_repositoryId r' = wd_repositoryId r" for j t
    unfolding set_delivery_def using assms by (simp add: find_map_keep)
  show ?thesis
  proof (cases op)
    case (Hook_accept now uuid sha256 q repo excerpt)
    then show ?thesis using assms
      by (cases rule: store_cases [of now uuid sha256 q repo excerpt db]) (auto simp: find_snoc)
  qed (use s assms in \<open>auto simp: claim_delivery_def transition_delivery_def\<close>)
qed

lemma delivery_kept_all:
  assumes "find (\<lambda>r. wd_id r = i) (deliveries db) = Some r"
  shows "\<exists>r'. find (\<lambda>r. wd_id r = i) (deliveries (hook_all ops db)) = Some r' \<and>
    wd_event r' = wd_event r \<and> wd_hash r' = wd_hash r \<and> wd_repositoryId r' = wd_repositoryId r"
  using assms unfolding hook_all_def
proof (induction ops arbitrary: db r)
  case (Cons op ops)
  from delivery_kept [OF Cons.prems, of op] Cons.IH show ?case by fastforce
qed simp

lemma stored_once:
  assumes "store_delivery now uuid sha256 q repo excerpt db = (db', Inr False)" and "hk_deliveryId q' = hk_deliveryId q"
  shows "store_delivery now' uuid' sha256 q' repo' excerpt' (hook_all ops db') =
    (hook_all ops db',
     if hk_event q' = hk_event q \<and> sha256 (hk_payloadJson q') = sha256 (hk_payloadJson q) \<and> repo' = repo then Inr True
     else Inl (ErrorObject ''WEBHOOK_DELIVERY_CONFLICT''))"
proof -
  have "\<exists>r. find (\<lambda>r. wd_id r = hk_deliveryId q) (deliveries db') = Some r \<and> wd_event r = hk_event q \<and>
      wd_hash r = sha256 (hk_payloadJson q) \<and> wd_repositoryId r = repo"
    using assms(1) by (cases rule: store_cases [of now uuid sha256 q repo excerpt db]) (auto simp: find_snoc)
  with delivery_kept_all [of "hk_deliveryId q" db' _ ops] obtain r where
    "find (\<lambda>r. wd_id r = hk_deliveryId q) (deliveries (hook_all ops db')) = Some r" "wd_event r = hk_event q"
    "wd_hash r = sha256 (hk_payloadJson q)" "wd_repositoryId r = repo" by fastforce
  with assms(2) show ?thesis by (auto simp: store_delivery_def insert_delivery_def delivery_of_def)
qed

text \<open>
  A delivery is stored once: after a request was accepted as new, and whatever happened to the tables
  since, a request with the same delivery id changes nothing; it is acknowledged as a replay
  exactly when its event, the hash of its payload and the repository it resolves to are the first
  ones, and fails with WEBHOOK_DELIVERY_CONFLICT otherwise.
\<close>

theorem redelivery_is_exact:
  assumes "store_delivery now uuid sha256 q repo excerpt db = (db', Inr False)" and "hk_deliveryId q' = hk_deliveryId q"
  shows "store_delivery now' uuid' sha256 q' repo' excerpt' (hook_all ops db') =
    (hook_all ops db',
     if hk_event q' = hk_event q \<and> sha256 (hk_payloadJson q') = sha256 (hk_payloadJson q) \<and> repo' = repo then Inr True
     else Inl (ErrorObject ''WEBHOOK_DELIVERY_CONFLICT''))"
  by (rule stored_once [OF assms])

text \<open>
  Property C36.  A failure of the repository lookup costs the command for good: the delivery is accepted, but
  its event carries no comment for the worker, and when the lookup works again and finds the
  repository, GitHub's redelivery is refused as a conflict.
\<close>

theorem lookup_failure_drops_the_command:
  assumes "accept_webhook cfg now uuid q (db, e) = ((db', e'), Inr False)"
    and "Option.bind (ac_parse cfg (hk_payloadJson q)) parseIssueCommentWebhook = Some ev"
    and "ac_resolveRepositoryId cfg = Some lookup"
    and "lookup (js_int_str (ic_repositoryId ev)) e = (e', Inl err)"
    and "lookup (js_int_str (ic_repositoryId ev)) f = (f', Inr (Some repo))"
  shows "(\<exists>x. hook_outbox db' = hook_outbox db @ [x] \<and>
      payload_json x = JObj [(''deliveryId'', JStr (hk_deliveryId q)), (''event'', JStr (hk_event q))]) \<and>
    accept_webhook cfg now' uuid' q (hook_all ops db', f) = ((hook_all ops db', f'), Inl (ErrorObject ''WEBHOOK_DELIVERY_CONFLICT''))"
proof -
  from assms have s: "store_delivery now uuid (ac_sha256 cfg) q None None db = (db', Inr False)"
    by (auto simp: accept_webhook_def inspect_payload_def split: prod.splits)
  then have "\<exists>x. hook_outbox db' = hook_outbox db @ [x] \<and> payload_json x = ev_payload (accepted_event (ac_sha256 cfg) q None None)"
    by (cases rule: store_cases [of now uuid "ac_sha256 cfg" q None None db]) auto
  moreover have "accept_webhook cfg now' uuid' q (hook_all ops db', f) =
      ((hook_all ops db', f'), Inl (ErrorObject ''WEBHOOK_DELIVERY_CONFLICT''))"
    using assms(2,3,5) stored_once [OF s refl, of now' uuid' "Some repo" "excerpt_of ev" ops]
    by (simp add: accept_webhook_def inspect_payload_def)
  ultimately show ?thesis by (simp add: accepted_event_def optional_member_def)
qed

section \<open>A concrete delivery\<close>

definition sample_hook :: hook_request where
  "sample_hook = \<lparr>hk_deliveryId = ''d1'', hk_event = ''issue_comment'', hk_payloadJson = ''x''\<rparr>"

definition sample_accept :: "bool accept_config" where
  "sample_accept =
     \<lparr>ac_parse = (\<lambda>_. Some (event_json (sample_comment ''@devguard audit''))), ac_sha256 = id,
      ac_resolveRepositoryId = Some (\<lambda>_ up. (up, if up then Inr (Some ''repo'') else Inl (ErrorObject ''down'')))\<rparr>"

lemma sample_event_parsed: "parseIssueCommentWebhook (event_json (sample_comment body)) = Some (sample_comment body)"
  by (simp add: parseIssueCommentWebhook_def event_json_def member_def optional_member_def sample_comment_def)

lemma sample_announced: "append_refusal (accepted_event id sample_hook None None) = None"
proof -
  let ?ev = "accepted_event id sample_hook None None"
  have "utf8_length (json_text (ev_payload ?ev)) = 43" "utf8_length (json_text (ev_correlation ?ev)) = 43"
    "length (js_trim (ev_eventType ?ev)) = 16" "nonEmptyObject (ev_payload ?ev)" "nonEmptyObject (ev_correlation ?ev)" by code_simp+
  moreover have "ev_schemaVersion ?ev = 1" by (simp add: accepted_event_def)
  ultimately show ?thesis by (simp add: append_refusal_def boundedJson_def MAX_OUTBOX_SERIALIZED_BYTES_def)
qed

lemma sample_hook_stored: "snd (store_delivery 0 ''u'' id sample_hook None None \<lparr>deliveries = [], hook_outbox = []\<rparr>) = Inr False"
  using sample_announced by (simp add: store_delivery_def insert_delivery_def append_event_def)

theorem issue_comment_roundtrip_witness:
  "parseIssueCommentWebhook (event_json (sample_comment ''hi'')) = Some (sample_comment ''hi'')"
  using issue_comment_roundtrip [OF sample_event_parsed] .

theorem redelivery_is_exact_witness:
  "\<exists>db. store_delivery 5 ''v'' id sample_hook None None db = (db, Inr True)"
proof -
  obtain db' where "store_delivery 0 ''u'' id sample_hook None None \<lparr>deliveries = [], hook_outbox = []\<rparr> = (db', Inr False)"
    using sample_hook_stored by (cases "store_delivery 0 ''u'' id sample_hook None None \<lparr>deliveries = [], hook_outbox = []\<rparr>") simp
  from redelivery_is_exact [OF this refl, of 5 "''v''" None None "[]"] show ?thesis by (intro exI) simp
qed

theorem lookup_failure_drops_the_command_witness:
  "\<exists>db. snd (accept_webhook sample_accept 9 ''v'' sample_hook (db, True)) = Inl (ErrorObject ''WEBHOOK_DELIVERY_CONFLICT'')"
proof -
  obtain db' where "store_delivery 0 ''u'' id sample_hook None None \<lparr>deliveries = [], hook_outbox = []\<rparr> = (db', Inr False)"
    using sample_hook_stored by (cases "store_delivery 0 ''u'' id sample_hook None None \<lparr>deliveries = [], hook_outbox = []\<rparr>") simp
  then have "accept_webhook sample_accept 0 ''u'' sample_hook (\<lparr>deliveries = [], hook_outbox = []\<rparr>, False) = ((db', False), Inr False)"
    by (simp add: accept_webhook_def inspect_payload_def sample_accept_def sample_event_parsed)
  moreover have "Option.bind (ac_parse sample_accept (hk_payloadJson sample_hook)) parseIssueCommentWebhook = Some (sample_comment ''@devguard audit'')"
    by (simp add: sample_accept_def sample_event_parsed)
  moreover have "ac_resolveRepositoryId sample_accept = Some (\<lambda>_ up. (up, if up then Inr (Some ''repo'') else Inl (ErrorObject ''down'')))"
    by (simp add: sample_accept_def)
  ultimately have "accept_webhook sample_accept 9 ''v'' sample_hook (hook_all [] db', True) =
      ((hook_all [] db', True), Inl (ErrorObject ''WEBHOOK_DELIVERY_CONFLICT''))"
    by (rule lookup_failure_drops_the_command [THEN conjunct2]) simp_all
  then show ?thesis by (intro exI [of _ "hook_all [] db'"]) simp
qed

theorem terminal_delivery_is_final_witness:
  "delivery_state_of ''d1'' (deliveries (hook_all [Hook_claim ''d1'', Hook_transition ''d1'' WD_routed WD_routed]
     \<lparr>deliveries = [\<lparr>wd_id = ''d1'', wd_event = [], wd_hash = [], wd_payloadRef = [], wd_repositoryId = None, wd_state = WD_routed\<rparr>],
      hook_outbox = []\<rparr>)) = Some WD_routed"
  by (rule terminal_delivery_is_final) (simp_all add: delivery_state_of_def)

definition sample_mac :: string where
  "sample_mac = replicate 64 (CHR ''a'')"

theorem accepted_webhook_was_signed_witness:
  "\<exists>k raw. Some ''key'' = Some k \<and> Some ''body'' = Some raw \<and> ''sha256='' @ sample_mac = ''sha256='' @ (\<lambda>_ _. sample_mac) k raw"
proof -
  let ?q = "\<lparr>hh_rawBody = Some ''body'', hh_signature = Some (''sha256='' @ sample_mac), hh_event = None, hh_delivery = None\<rparr>"
  have "webhook_route (\<lambda>_ _. sample_mac) id (Some ''key'') sample_accept 0 [] ?q (\<lparr>deliveries = [], hook_outbox = []\<rparr>, True) =
      ((\<lparr>deliveries = [], hook_outbox = []\<rparr>, True), Inr Headers_invalid_400)"
    by (simp add: webhook_route_def verified_iff header_def sample_mac_def list_all_iff hex_lower_def)
  from accepted_webhook_was_signed [OF this] show ?thesis by (simp add: header_def)
qed

end
