(* ===== verification/Outbox_Publish.thy ===== *)
theory Outbox_Publish
  imports Webhook_Delivery Queue_Transport
begin

text \<open>
  From the outbox to the queue: \<open>publishOutboxOnce\<close> of \<open>apps/worker/src/composition/outbox-publish.ts\<close>
  claims a batch of events, turns each into a job envelope and records the outcome.  The table
  is that of \<open>Outbox\<close>, the envelope that of \<open>Queue_Transport\<close>; the queue's \<open>enqueue\<close> is a port that may
  fail.  Between the statements of a pass other connections append, claim and decide events; what
  they do before each statement is an argument.  A statement of the pass itself may be refused, but
  the connection does not break.  One pass reads the clock once.  Messages of catalogued errors are an argument.
\<close>

section \<open>Reading JSON members\<close>

definition members_of :: "json \<Rightarrow> (string \<times> json) list" where
  "members_of j = (case j of JObj ms \<Rightarrow> ms | _ \<Rightarrow> [])"

text \<open>\<open>String(v)\<close>\<close>

fun js_String :: "json \<Rightarrow> string" where
  "js_String JNull = ''null''"
| "js_String (JBool b) = (if b then ''true'' else ''false'')"
| "js_String (JNum n) = js_int_str n"
| "js_String (JStr s) = s"
| "js_String (JArr vs) = js_join '','' (map (\<lambda>v. if v = JNull then [] else js_String v) vs)"
| "js_String (JObj _) = ''[object Object]''"

text \<open>\<open>a ?? b ?? ...\<close> over the members found.\<close>

fun first_present :: "json option list \<Rightarrow> json option" where
  "first_present [] = None"
| "first_present (x # xs) = (case x of None \<Rightarrow> first_present xs | Some v \<Rightarrow> if v = JNull then first_present xs else Some v)"

definition text_or_empty :: "json option list \<Rightarrow> string" where
  "text_or_empty xs = (case first_present xs of None \<Rightarrow> [] | Some v \<Rightarrow> js_String v)"

text \<open>\<open>Number(v)\<close> where the result is an integer; anything else is no number, which JSON prints as null.\<close>

definition js_Number :: "json \<Rightarrow> json" where
  "js_Number v =
     (case v of
        JNum n \<Rightarrow> JNum n
      | JBool b \<Rightarrow> JNum (if b then 1 else 0)
      | JNull \<Rightarrow> JNum 0
      | JStr s \<Rightarrow> if js_trim s = [] then JNum 0 else if all_digits (js_trim s) then JNum (decimal_value 0 (js_trim s)) else JNull
      | _ \<Rightarrow> JNull)"

section \<open>Envelopes\<close>

definition DEFAULT_MAPPINGS :: "(string \<times> job_type \<times> queue_name) list" where
  "DEFAULT_MAPPINGS =
     [(''workflow.queued'', Workflow_execute, Workflow_execution), (''webhook.accepted'', Webhook_process, Webhook_processing),
      (''approval.resume_requested'', Approval_resume_job, Approval_resume)]"

definition comment_member :: "(string \<times> json) list \<Rightarrow> (string \<times> json) list" where
  "comment_member pl = (case map_of pl ''issueCommentPayload'' of Some (JStr s) \<Rightarrow> [(''issueCommentPayload'', JStr s)] | _ \<Rightarrow> [])"

definition buildPayload ::
  "job_type \<Rightarrow> (string \<times> json) list \<Rightarrow> (string \<times> json) list \<Rightarrow> string \<Rightarrow> string \<Rightarrow> (string \<times> json) list" where
  "buildPayload jt pl co runId deliveryId =
     (if jt = Workflow_execute then [(''runId'', JStr runId), (''stepId'', JStr ''start''), (''stepAttempt'', JNum 0)]
      else if jt = Approval_resume_job then
        [(''approvalId'', JStr (text_or_empty [map_of pl ''approvalId''])),
         (''resolutionVersion'', js_Number (case first_present [map_of pl ''resolutionVersion''] of None \<Rightarrow> JNum 1 | Some v \<Rightarrow> v))]
      else
        [(''deliveryId'', JStr deliveryId),
         (''repositoryId'', JStr (text_or_empty [map_of co ''repositoryId'', map_of pl ''repositoryId''])),
         (''payloadRef'', JStr (text_or_empty [map_of co ''payloadRef'', map_of pl ''payloadRef''])),
         (''event'', JStr (text_or_empty [map_of pl ''event'', map_of co ''payloadRef'']))] @ comment_member pl)"

definition non_empty :: "string \<Rightarrow> string option" where
  "non_empty s = (if s = [] then None else Some s)"

definition toEnvelope :: "string \<Rightarrow> outbox_row \<Rightarrow> job_type \<Rightarrow> queue_name \<Rightarrow> string + job_envelope" where
  "toEnvelope nowIso row jt qn =
     (let pl = members_of (payload_json row); co = members_of (correlation_json row);
          runId = text_or_empty [map_of co ''runId'', map_of pl ''runId'', map_of co ''workflowRunId''];
          deliveryId = text_or_empty [map_of co ''deliveryId''];
          repositoryId = text_or_empty [map_of co ''repositoryId'', map_of pl ''repositoryId''];
          anchor = (if runId \<noteq> [] then runId else if deliveryId \<noteq> [] then deliveryId else ob_id row)
      in buildEnvelope nowIso
        \<lparr>in_jobType = jt, in_schemaVersion = 1, in_queue = qn, in_uniqueKey = ''outbox:'' @ ob_id row,
         in_payload = buildPayload jt pl co runId deliveryId, in_correlationId = ''outbox:'' @ anchor,
         in_cancellationGeneration = Some 0, in_tenantId = None, in_repositoryId = non_empty repositoryId,
         in_workflowRunId = non_empty runId, in_sessionId = None, in_actionId = None, in_causationId = None, in_traceparent = None\<rparr>)"

section \<open>One pass\<close>

record 'q publish_env =
  pe_now :: int
  pe_nowIso :: string
  pe_enqueue :: "job_envelope \<Rightarrow> int \<Rightarrow> ('q, unit) port"
  pe_catalogue :: "string \<Rightarrow> string"   \<comment> \<open>the message of a catalogued error\<close>
  pe_leaseMs :: int
  pe_batchSize :: nat
  pe_workerId :: string
  pe_others :: "string \<Rightarrow> nat \<Rightarrow> outbox_op list"   \<comment> \<open>of other connections, before each statement on a row\<close>

definition publish_error_code :: "(string \<Rightarrow> string) \<Rightarrow> js_error \<Rightarrow> string" where
  "publish_error_code catalogue e =
     (case e of
        NonError _ \<Rightarrow> ''outbox_publish_failed''
      | ErrorObject m \<Rightarrow> take 128 m
      | ErrorClass _ m \<Rightarrow> take 128 m
      | MadeError c \<Rightarrow> take 128 (catalogue c))"

type_synonym 'q publish_world = "outbox_row list \<times> 'q"

text \<open>The table as statement \<open>k\<close> on \<open>row\<close> finds it.\<close>

definition disturbed :: "'q publish_env \<Rightarrow> outbox_row \<Rightarrow> nat \<Rightarrow> outbox_row list \<Rightarrow> outbox_row list" where
  "disturbed env row k rows = fold outbox_apply (pe_others env (ob_id row) k) rows"

definition give_up :: "'q publish_env \<Rightarrow> outbox_row \<Rightarrow> js_error \<Rightarrow> 'q publish_world \<Rightarrow> 'q publish_world \<times> (js_error + bool)" where
  "give_up env row e w =
     (case reschedule (ob_id row) (ob_row_version row) (pe_now env + 5000) (publish_error_code (pe_catalogue env) e)
            (disturbed env row 1 (fst w)) of
        (rows', Inl _) \<Rightarrow> ((rows', snd w), Inl (MadeError ''VERSION_CONFLICT''))
      | (rows', Inr _) \<Rightarrow> ((rows', snd w), Inr False))"

text \<open>One row: whether it was published.\<close>

definition publish_row :: "'q publish_env \<Rightarrow> outbox_row \<Rightarrow> 'q publish_world \<Rightarrow> 'q publish_world \<times> (js_error + bool)" where
  "publish_row env row w =
     (case map_of DEFAULT_MAPPINGS (event_type row) of
        None \<Rightarrow>
          (case deadLetter_event (ob_id row) (ob_row_version row) ''OUTBOX_EVENT_UNKNOWN''
                  (disturbed env row 0 (fst w)) of
             (rows', Inl _) \<Rightarrow> give_up env row (MadeError ''VERSION_CONFLICT'') (rows', snd w)
           | (rows', Inr _) \<Rightarrow> ((rows', snd w), Inr False))
      | Some (jt, qn) \<Rightarrow>
          (case toEnvelope (pe_nowIso env) row jt qn of
             Inl m \<Rightarrow> give_up env row (ErrorClass ''EnvelopeValidationError'' m) w
           | Inr job \<Rightarrow>
               (case pe_enqueue env job 0 (snd w) of
                  (q', Inl e) \<Rightarrow> give_up env row e (fst w, q')
                | (q', Inr _) \<Rightarrow>
                    (case markPublished (pe_now env) (ob_id row) (ob_row_version row) (disturbed env row 0 (fst w)) of
                       (rows', Inl _) \<Rightarrow> give_up env row (MadeError ''VERSION_CONFLICT'') (rows', q')
                     | (rows', Inr _) \<Rightarrow> ((rows', q'), Inr True)))))"

fun publish_rows :: "'q publish_env \<Rightarrow> outbox_row list \<Rightarrow> nat \<Rightarrow> 'q publish_world \<Rightarrow> 'q publish_world \<times> (js_error + nat)" where
  "publish_rows env [] n w = (w, Inr n)"
| "publish_rows env (row # rest) n w =
     (case publish_row env row w of
        (w', Inl e) \<Rightarrow> (w', Inl e)
      | (w', Inr done) \<Rightarrow> publish_rows env rest (if done then n + 1 else n) w')"

definition publishOutboxOnce :: "'q publish_env \<Rightarrow> string list \<Rightarrow> 'q publish_world \<Rightarrow> 'q publish_world \<times> (js_error + nat)" where
  "publishOutboxOnce env locked w =
     (case claim_events (pe_now env) locked (pe_batchSize env) (pe_leaseMs env) (pe_workerId env) (fst w) of
        (rows', claimed) \<Rightarrow> publish_rows env claimed 0 (rows', snd w))"

section \<open>Every claimed event is disposed of\<close>

text \<open>The outcome each event of a batch is due, with the queue threaded through.\<close>

definition due_outcome :: "'q publish_env \<Rightarrow> outbox_row \<Rightarrow> 'q \<Rightarrow> 'q \<times> outbox_outcome" where
  "due_outcome env row q =
     (let failed = (\<lambda>e. Reschedule (pe_now env + 5000) (publish_error_code (pe_catalogue env) e)) in
      case map_of DEFAULT_MAPPINGS (event_type row) of
        None \<Rightarrow> (q, Dead_letter ''OUTBOX_EVENT_UNKNOWN'')
      | Some (jt, qn) \<Rightarrow>
          (case toEnvelope (pe_nowIso env) row jt qn of
             Inl m \<Rightarrow> (q, failed (ErrorClass ''EnvelopeValidationError'' m))
           | Inr job \<Rightarrow>
               (case pe_enqueue env job 0 q of (q', Inl e) \<Rightarrow> (q', failed e) | (q', Inr _) \<Rightarrow> (q', Publish (pe_now env)))))"

fun due_outcomes :: "'q publish_env \<Rightarrow> outbox_row list \<Rightarrow> 'q \<Rightarrow> 'q \<times> outbox_outcome list" where
  "due_outcomes env [] q = (q, [])"
| "due_outcomes env (row # rest) q =
     (case due_outcome env row q of (q', oc) \<Rightarrow> (case due_outcomes env rest q' of (q'', ocs) \<Rightarrow> (q'', oc # ocs)))"

fun is_publish :: "outbox_outcome \<Rightarrow> bool" where
  "is_publish (Publish _) = True"
| "is_publish _ = False"

text \<open>A row of the table that is being published.\<close>

definition held_row :: "outbox_row list \<Rightarrow> outbox_row \<Rightarrow> bool" where
  "held_row rows r \<longleftrightarrow> event_row rows (ob_id r) = Some r \<and> ob_status r = Ob_publishing"

lemma held_update:
  assumes "outbox_keyed rows" and "held_row rows r"
  shows "snd (outcome_update rows (ob_id r) (ob_row_version r) oc) = Some (outcome_row oc r)"
    and "event_row (fst (outcome_update rows (ob_id r) (ob_row_version r) oc)) j =
      (if j = ob_id r then Some (outcome_row oc r) else event_row rows j)"
proof -
  show "snd (outcome_update rows (ob_id r) (ob_row_version r) oc) = Some (outcome_row oc r)"
    using assms by (simp add: outcome_returns held_row_def)
  show "event_row (fst (outcome_update rows (ob_id r) (ob_row_version r) oc)) j =
      (if j = ob_id r then Some (outcome_row oc r) else event_row rows j)"
  proof (cases "j = ob_id r")
    case True
    with assms(2) show ?thesis by (simp add: event_row_outcome held_row_def outcome_guard_def)
  next
    case False
    then have "\<not> outcome_guard (ob_id r) (ob_row_version r) x" if "event_row rows j = Some x" for x
      using event_row_id [OF that] by (simp add: outcome_guard_def)
    with False show ?thesis by (cases "event_row rows j") (simp_all add: event_row_outcome)
  qed
qed

definition undisturbed :: "'q publish_env \<Rightarrow> bool" where
  "undisturbed env \<longleftrightarrow> pe_others env = (\<lambda>_ _. [])"

lemma publish_row_exact:
  assumes "outbox_keyed rows" and "held_row rows r" and "undisturbed env"
  shows "publish_row env r (rows, q) =
    (case due_outcome env r q of (q', oc) \<Rightarrow> ((fst (outcome_update rows (ob_id r) (ob_row_version r) oc), q'), Inr (is_publish oc)))"
proof -
  have dist: "disturbed env r k x = x" for k x using assms(3) by (simp add: disturbed_def undisturbed_def)
  have h: "\<exists>t. outcome_update rows (ob_id r) (ob_row_version r) oc = (t, Some (outcome_row oc r))" for oc
    using held_update(1) [OF assms(1,2), of oc] by (cases "outcome_update rows (ob_id r) (ob_row_version r) oc") simp
  have g: "give_up env r e (rows, x) = ((fst (outcome_update rows (ob_id r) (ob_row_version r)
      (Reschedule (pe_now env + 5000) (publish_error_code (pe_catalogue env) e))), x), Inr False)" for e x
    using h [of "Reschedule (pe_now env + 5000) (publish_error_code (pe_catalogue env) e)"]
    by (elim exE) (simp add: give_up_def reschedule_def dist)
  have d: "deadLetter_event (ob_id r) (ob_row_version r) c rows =
      (fst (outcome_update rows (ob_id r) (ob_row_version r) (Dead_letter c)), Inr ())" for c
    using h [of "Dead_letter c"] by (elim exE) (simp add: deadLetter_event_def)
  have m: "markPublished n (ob_id r) (ob_row_version r) rows =
      (fst (outcome_update rows (ob_id r) (ob_row_version r) (Publish n)), Inr ())" for n
    using h [of "Publish n"] by (elim exE) (simp add: markPublished_def)
  show ?thesis by (simp add: publish_row_def due_outcome_def g d m dist split: option.split sum.split prod.split)
qed

lemma publish_rows_exact:
  assumes "outbox_keyed rows" and "list_all (held_row rows) batch" and "distinct (map ob_id batch)" and "undisturbed env"
  shows "\<exists>rows'. publish_rows env batch n (rows, q) =
      ((rows', fst (due_outcomes env batch q)), Inr (n + length (filter is_publish (snd (due_outcomes env batch q))))) \<and>
    (\<forall>j. event_row rows' j =
       (case map_of (zip (map ob_id batch) (zip batch (snd (due_outcomes env batch q)))) j of
          None \<Rightarrow> event_row rows j | Some (r, oc) \<Rightarrow> Some (outcome_row oc r)))"
  using assms
proof (induction batch arbitrary: rows n q)
  case (Cons r batch)
  obtain q' oc where d: "due_outcome env r q = (q', oc)" by fastforce
  obtain q'' ocs where ds: "due_outcomes env batch q' = (q'', ocs)" by fastforce
  let ?rows = "fst (outcome_update rows (ob_id r) (ob_row_version r) oc)"
  have r: "held_row rows r" using Cons.prems by simp
  note up = held_update(2) [OF Cons.prems(1) r, of oc]
  have "held_row ?rows x" if "x \<in> set batch" for x
  proof -
    from Cons.prems(3) have "ob_id r \<notin> ob_id ` set batch" by simp
    with that have "ob_id x \<noteq> ob_id r" by (metis image_eqI)
    moreover from that Cons.prems(2) have "held_row rows x" by (simp add: list_all_iff)
    ultimately show ?thesis unfolding held_row_def up by simp
  qed
  then obtain rows' where rec: "publish_rows env batch (if is_publish oc then n + 1 else n) (?rows, q') =
      ((rows', q''), Inr ((if is_publish oc then n + 1 else n) + length (filter is_publish ocs)))"
    "\<And>j. event_row rows' j = (case map_of (zip (map ob_id batch) (zip batch ocs)) j of
        None \<Rightarrow> event_row ?rows j | Some (r, oc) \<Rightarrow> Some (outcome_row oc r))"
    using Cons.IH [of ?rows "if is_publish oc then n + 1 else n" q'] Cons.prems(1,3,4) ds by (auto simp: list_all_iff)
  have "map_of (zip (map ob_id batch) (zip batch ocs)) (ob_id r) = None"
    using Cons.prems(3) by (auto simp: map_of_eq_None_iff dest: set_zip_leftD)
  with rec up show ?case
    by (intro exI [of _ rows']) (auto simp: publish_row_exact [OF Cons.prems(1) r Cons.prems(4)] d ds split: option.splits)
qed simp

lemma claimed_rows_held:
  assumes "outbox_keyed rows" and "claim_events now locked batch lease owner rows = (rows', claimed)"
  shows "outbox_keyed rows' \<and> list_all (held_row rows') claimed \<and> distinct (map ob_id claimed)"
proof -
  have k: "outbox_keyed rows'" using assms keyed_claim [of now locked batch lease owner rows] by simp
  have c: "claimed = filter (\<lambda>r. ob_id r \<in> set (claim_ids now locked batch rows)) rows'"
    "rows' = map (\<lambda>r. if ob_id r \<in> set (claim_ids now locked batch rows) then claimed_row now owner lease r else r) rows"
    using assms(2) by (auto simp: claim_events_def Let_def)
  have "ob_status r = Ob_publishing" if "r \<in> set claimed" for r
    using that by (auto simp: c claimed_row_def split: if_splits)
  moreover have "event_row rows' (ob_id r) = Some r" if "r \<in> set claimed" for r
    using that k find_unique [of ob_id rows' r] by (auto simp: c(1) event_row_def outbox_keyed_def)
  moreover have "distinct (map ob_id claimed)" using k by (simp add: c(1) outbox_keyed_def distinct_map_filter)
  ultimately show ?thesis using k by (simp add: list_all_iff held_row_def)
qed

section \<open>A pass among other connections\<close>

text \<open>
  \<open>moved\<close>: somebody has decided or claimed the event again since the claim that returned \<open>r\<close>; and
  until that happens its row is as claimed.
\<close>

definition moved :: "outbox_row list \<Rightarrow> outbox_row \<Rightarrow> bool" where
  "moved rows r \<longleftrightarrow> (\<exists>v. event_version rows (ob_id r) = Some v \<and> ob_row_version r < v)"

definition as_claimed :: "outbox_row list \<Rightarrow> outbox_row \<Rightarrow> bool" where
  "as_claimed rows r \<longleftrightarrow> ob_status r = Ob_publishing \<and> (event_row rows (ob_id r) = Some r \<or> moved rows r)"

lemma moved_apply: "moved rows r \<Longrightarrow> moved (outbox_apply op rows) r"
  using version_run [of rows "ob_id r" _ "[op]"] by (force simp: moved_def)

lemma as_claimed_apply: "as_claimed rows r \<Longrightarrow> as_claimed (outbox_apply op rows) r"
proof -
  assume a: "as_claimed rows r"
  show ?thesis
  proof (cases "moved rows r")
    case True
    with a moved_apply show ?thesis by (simp add: as_claimed_def)
  next
    case False
    with a have e: "event_row rows (ob_id r) = Some r" by (simp add: as_claimed_def)
    from event_row_step [OF e, of op] obtain r' where r': "event_row (outbox_apply op rows) (ob_id r) = Some r'"
      "r' = r \<or> ob_row_version r' = ob_row_version r + 1" by (auto split: outbox_op.splits)
    with a show ?thesis by (auto simp: as_claimed_def moved_def event_version_def)
  qed
qed

lemma outcome_as_op: "fst (outcome_update rows i n oc) = outbox_apply (Ob_outcome i n oc) rows"
  by simp

lemma run_claimed:
  "as_claimed rows r \<Longrightarrow> as_claimed (fold outbox_apply ops rows) r"
  "moved rows r \<Longrightarrow> moved (fold outbox_apply ops rows) r"
  by (induction ops arbitrary: rows) (simp_all add: as_claimed_apply moved_apply)

text \<open>A statement at the claimed version: it decides the event, or it is refused because the event has moved.\<close>

lemma statement_decides:
  assumes "outbox_keyed rows" and "as_claimed rows r"
  shows "moved (fst (outcome_update rows (ob_id r) (ob_row_version r) oc)) r"
proof (cases "moved rows r")
  case True
  then show ?thesis unfolding outcome_as_op by (rule moved_apply)
next
  case False
  with assms(2) have "held_row rows r" by (simp add: as_claimed_def held_row_def)
  from held_update(2) [OF assms(1) this, of oc "ob_id r"] show ?thesis by (simp add: moved_def event_version_def)
qed

lemma refused_moved:
  assumes "outbox_keyed rows" and "as_claimed rows r" and "outcome_update rows (ob_id r) (ob_row_version r) oc = (rows', None)"
  shows "moved rows r"
proof (rule ccontr)
  assume "\<not> moved rows r"
  with assms(2) have "held_row rows r" by (simp add: as_claimed_def held_row_def)
  from held_update(1) [OF assms(1) this, of oc] assms(3) show False by simp
qed

text \<open>What running \<open>publish_row\<close> can do to the table: only statements, of others and its own.\<close>

definition reaches :: "outbox_row list \<Rightarrow> outbox_row list \<Rightarrow> bool" where
  "reaches rows rows' \<longleftrightarrow> (\<exists>ops. rows' = fold outbox_apply ops rows)"

lemma reaches_refl: "reaches rows rows"
  unfolding reaches_def by (rule exI [of _ "[]"]) simp

lemma reaches_trans: "reaches a b \<Longrightarrow> reaches b c \<Longrightarrow> reaches a c"
  unfolding reaches_def by (metis fold_append comp_apply)

lemma reaches_disturbed: "reaches a b \<Longrightarrow> reaches a (disturbed env r k b)"
  unfolding disturbed_def by (rule reaches_trans) (auto simp: reaches_def)

lemma reaches_outcome: "reaches a b \<Longrightarrow> outcome_update b i n oc = (c, x) \<Longrightarrow> reaches a c"
  by (rule reaches_trans, assumption, unfold reaches_def, rule exI [of _ "[Ob_outcome i n oc]"]) simp

lemma reaches_keeps:
  assumes "reaches a b"
  shows "outbox_keyed a \<Longrightarrow> outbox_keyed b" and "as_claimed a r \<Longrightarrow> as_claimed b r" and "moved a r \<Longrightarrow> moved b r"
  using assms keyed_run run_claimed by (auto simp: reaches_def)

lemma give_up_outcome:
  assumes "outbox_keyed rows" and "as_claimed rows r" and "give_up env r e (rows, q) = ((rows', q'), res)"
  shows "reaches rows rows' \<and> moved rows' r \<and> (res = Inr False \<or> res = Inl (MadeError ''VERSION_CONFLICT''))"
proof -
  let ?d = "disturbed env r 1 rows"
  have d: "reaches rows ?d" by (intro reaches_disturbed reaches_refl)
  let ?u = "outcome_update ?d (ob_id r) (ob_row_version r) (Reschedule (pe_now env + 5000) (publish_error_code (pe_catalogue env) e))"
  from assms(3) have w: "rows' = fst ?u" "res = Inr False \<or> res = Inl (MadeError ''VERSION_CONFLICT'')"
    by (auto simp: give_up_def reschedule_def split: prod.splits option.splits)
  have "reaches rows (fst ?u)" by (rule reaches_outcome [OF d]) (rule prod.collapse [symmetric])
  with w statement_decides [OF reaches_keeps(1) [OF d assms(1)] reaches_keeps(2) [OF d assms(2)]] show ?thesis by simp
qed

lemma publish_row_outcome:
  assumes "outbox_keyed rows" and "as_claimed rows r" and "publish_row env r (rows, q) = ((rows', q'), res)"
  shows "reaches rows rows' \<and> moved rows' r \<and> (\<forall>e. res = Inl e \<longrightarrow> e = MadeError ''VERSION_CONFLICT'')"
proof -
  let ?d = "disturbed env r 0 rows"
  have d: "reaches rows ?d" by (intro reaches_disturbed reaches_refl)
  note kept = reaches_keeps(1) [OF d assms(1)] reaches_keeps(2) [OF d assms(2)]
  have tried: ?thesis if u: "outcome_update ?d (ob_id r) (ob_row_version r) oc = (t, x)"
    and decided: "x \<noteq> None \<Longrightarrow> rows' = t \<and> (\<exists>b. res = Inr b)"
    and again: "x = None \<Longrightarrow> give_up env r (MadeError ''VERSION_CONFLICT'') (t, q1) = ((rows', q'), res)" for oc t x q1
  proof (cases x)
    case None
    have t: "reaches rows t" by (rule reaches_outcome [OF d u])
    from give_up_outcome [OF reaches_keeps(1) [OF t assms(1)] reaches_keeps(2) [OF t assms(2)] again [OF None]] t show ?thesis
      by (auto intro: reaches_trans)
  next
    case (Some y)
    with decided reaches_outcome [OF d u] statement_decides [OF kept, of oc] u show ?thesis by auto
  qed
  have failed: ?thesis if "give_up env r e (rows, q1) = ((rows', q'), res)" for e q1
    using give_up_outcome [OF assms(1,2) that] by auto
  show ?thesis
  proof (cases "map_of DEFAULT_MAPPINGS (event_type r)")
    case None
    obtain t x where u: "outcome_update ?d (ob_id r) (ob_row_version r) (Dead_letter ''OUTBOX_EVENT_UNKNOWN'') = (t, x)" by fastforce
    with None assms(3) show ?thesis
      by (intro tried [OF u, of q]) (auto simp: publish_row_def deadLetter_event_def)
  next
    case (Some m)
    obtain jt qn where m: "m = (jt, qn)" by fastforce
    show ?thesis
    proof (cases "toEnvelope (pe_nowIso env) r jt qn")
      case (Inl e)
      with Some m assms(3) show ?thesis by (intro failed) (simp add: publish_row_def)
    next
      case (Inr job)
      obtain q1 a where e: "pe_enqueue env job 0 q = (q1, a)" by fastforce
      show ?thesis
      proof (cases a)
        case (Inl err)
        with Some m Inr e assms(3) show ?thesis by (intro failed) (simp add: publish_row_def)
      next
        case (Inr y)
        obtain t x where u: "outcome_update ?d (ob_id r) (ob_row_version r) (Publish (pe_now env)) = (t, x)" by fastforce
        with Some m \<open>toEnvelope (pe_nowIso env) r jt qn = Inr job\<close> e Inr assms(3) show ?thesis
          by (intro tried [OF u, of q1]) (auto simp: publish_row_def markPublished_def)
      qed
    qed
  qed
qed

lemma publish_rows_outcome:
  assumes "outbox_keyed rows" and "list_all (as_claimed rows) batch" and "publish_rows env batch n (rows, q) = ((rows', q'), res)"
  shows "reaches rows rows' \<and> (case res of
      Inr _ \<Rightarrow> list_all (moved rows') batch
    | Inl e \<Rightarrow> e = MadeError ''VERSION_CONFLICT'' \<and> (\<exists>pre r post. batch = pre @ r # post \<and> list_all (moved rows') (pre @ [r])))"
  using assms
proof (induction batch arbitrary: rows n q)
  case Nil
  then show ?case by (auto simp: reaches_refl)
next
  case (Cons r batch)
  obtain rows1 q1 a where p: "publish_row env r (rows, q) = ((rows1, q1), a)" by (metis prod.collapse)
  from Cons.prems(2) have r: "as_claimed rows r" by simp
  note o1 = publish_row_outcome [OF Cons.prems(1) r p]
  show ?case
  proof (cases a)
    case (Inl e)
    with p Cons.prems(3) o1 have "reaches rows rows'" "res = Inl (MadeError ''VERSION_CONFLICT'')" "moved rows' r" by auto
    then show ?thesis by (auto intro!: exI [of _ "[]"])
  next
    case (Inr b)
    then have rest: "publish_rows env batch (if b then n + 1 else n) (rows1, q1) = ((rows', q'), res)"
      using Cons.prems(3) p by simp
    from o1 have "outbox_keyed rows1" "list_all (as_claimed rows1) batch"
      using reaches_keeps(1,2) Cons.prems(1,2) by (auto simp: list_all_iff)
    from Cons.IH [OF this rest] have ih: "reaches rows1 rows'" "case res of
        Inr _ \<Rightarrow> list_all (moved rows') batch
      | Inl e \<Rightarrow> e = MadeError ''VERSION_CONFLICT'' \<and> (\<exists>pre r post. batch = pre @ r # post \<and> list_all (moved rows') (pre @ [r]))"
      by simp_all
    from o1 ih(1) have m: "reaches rows rows'" "moved rows' r" by (auto intro: reaches_trans reaches_keeps(3))
    show ?thesis
    proof (cases res)
      case (Inr k)
      with ih(2) m show ?thesis by simp
    next
      case (Inl e)
      with ih(2) obtain pre x post where "e = MadeError ''VERSION_CONFLICT''" "batch = pre @ x # post"
        "list_all (moved rows') (pre @ [x])" by auto
      then have "r # batch = (r # pre) @ x # post" "list_all (moved rows') ((r # pre) @ [x])" using m(2) by simp_all
      with m(1) Inl \<open>e = _\<close> show ?thesis by (simp only: sum.case) blast
    qed
  qed
qed


section \<open>A budget that cannot be met\<close>

declare utf8_append [simp]

text \<open>
  Property C35.  The API hands a comment to the worker when its excerpt has at most 32768 bytes, but the whole job,
  with the excerpt escaped once more, has to fit in the same 32768 bytes: no envelope is ever
  built for an accepted comment whose excerpt exceeds 32742 bytes, so every pass puts its event
  off until it is dead-lettered.
\<close>

theorem accepted_comment_exceeds_job_budget:
  assumes "payload_json row = ev_payload (accepted_event sha256 q repo (Some excerpt))" and "event_type row = ''webhook.accepted''"
    and "32742 < utf8_length excerpt"
  shows "\<exists>m. toEnvelope (pe_nowIso env) row Webhook_process Webhook_processing = Inl m \<and>
    due_outcome env row x = (x, Reschedule (pe_now env + 5000) (take 128 m))"
proof -
  have c: "comment_member (members_of (payload_json row)) = [(''issueCommentPayload'', JStr excerpt)]"
    by (cases repo) (simp_all add: assms(1) accepted_event_def members_of_def comment_member_def optional_member_def)
  have "utf8_length (serializeString id ''issueCommentPayload'') = 21" by code_simp
  then have "MAX_PAYLOAD_BYTES < utf8_length (json_text (JObj (buildPayload Webhook_process (members_of (payload_json row)) co i d)))" for co i d
    using utf8_member [of "''issueCommentPayload''" "JStr excerpt" "buildPayload Webhook_process (members_of (payload_json row)) co i d"]
      utf8_serialize [of excerpt] assms(3) by (simp add: buildPayload_def c MAX_PAYLOAD_BYTES_def)
  then obtain m where "toEnvelope (pe_nowIso env) row Webhook_process Webhook_processing = Inl m"
    by (auto simp: toEnvelope_def buildEnvelope_def Let_def)
  then show ?thesis by (simp add: due_outcome_def DEFAULT_MAPPINGS_def assms(2) publish_error_code_def)
qed

section \<open>A concrete pass\<close>

definition long_comment :: issue_comment_event where
  "long_comment = sample_comment (replicate 32600 (CHR ''a''))"

lemma escape_letters: "concat (map escape_char (replicate n (CHR ''a''))) = replicate n (CHR ''a'')"
proof -
  have "escape_char (CHR ''a'') = ''a''" by code_simp
  then show ?thesis by (induction n) simp_all
qed

lemma utf8_letters: "utf8_length (replicate n (CHR ''a'')) = n"
  by (simp add: utf8_length_def sum_list_replicate)

lemma long_excerpt: "utf8_length (json_text (event_json (sample_comment (replicate n (CHR ''a''))))) = n + 155"
  by (simp add: event_json_def sample_comment_def optional_member_def serializeString_def escape_letters)
     (simp add: escape_char_def utf8_length_def sum_list_replicate js_int_str_def js_nat_str.simps)

definition quiet_env :: "unit publish_env" where
  "quiet_env = \<lparr>pe_now = 0, pe_nowIso = [], pe_enqueue = (\<lambda>_ _ q. (q, Inr ())), pe_catalogue = id, pe_leaseMs = 30000, pe_batchSize = 64,
     pe_workerId = ''w'', pe_others = (\<lambda>_ _. [])\<rparr>"

definition quiet_row :: "string \<Rightarrow> outbox_row" where
  "quiet_row excerpt =
     \<lparr>ob_id = ''o1'', aggregate_type = None, aggregate_id = Some ''d1'', aggregate_version = None, event_type = ''webhook.accepted'',
      schema_version = 1, payload_json = ev_payload (accepted_event id sample_hook None (Some excerpt)),
      correlation_json = ev_correlation (accepted_event id sample_hook None (Some excerpt)), ob_status = Ob_pending, available_at = 0,
      attempts = 0, lease_owner = None, ob_lease_expires_at = None, published_at = None, last_error_code = None, ob_row_version = 1\<rparr>"

theorem accepted_comment_exceeds_job_budget_witness:
  "excerpt_of long_comment = Some (json_text (event_json long_comment)) \<and>
   (\<exists>m. due_outcome quiet_env (quiet_row (json_text (event_json long_comment))) () = ((), Reschedule 5000 (take 128 m)))"
proof -
  have l: "utf8_length (json_text (event_json long_comment)) = 32755" by (simp add: long_comment_def long_excerpt)
  have "32742 < utf8_length (json_text (event_json long_comment))" unfolding l by simp
  then have "\<exists>m. toEnvelope (pe_nowIso quiet_env) (quiet_row (json_text (event_json long_comment))) Webhook_process Webhook_processing = Inl m \<and>
    due_outcome quiet_env (quiet_row (json_text (event_json long_comment))) () = ((), Reschedule (pe_now quiet_env + 5000) (take 128 m))"
    by (rule accepted_comment_exceeds_job_budget [rotated 2]) (simp_all add: quiet_row_def)
  then show ?thesis using l by (auto simp: excerpt_of_def MAX_JOB_PAYLOAD_BYTES_def quiet_env_def)
qed

lemma quiet_claim:
  "claim_events 0 [] 64 30000 ''w'' [quiet_row s] = ([claimed_row 0 ''w'' 30000 (quiet_row s)], [claimed_row 0 ''w'' 30000 (quiet_row s)])"
  by (simp add: claim_events_def claim_ids_def claimable_def js_sort_Cons quiet_row_def claimed_row_def)


end
