(* ===== verification/Webhook_Processing.thy ===== *)
theory Webhook_Processing
  imports Webhook_Delivery Worker_Runtime
begin

text \<open>
  Webhook jobs in the worker: \<open>WebhookProcessingService\<close> of \<open>packages/queue/src/jobs/job-processing.ts\<close>
  and the handler \<open>registerWebhookProcess\<close> of \<open>apps/worker/src/composition/handlers.ts\<close>, with the payload
  reader \<open>webhook-comment.ts\<close>.  The delivery store, the router, the run creator and the comment service
  are ports; \<open>ledger_ports\<close> is the store on the ledger of \<open>Webhook_Delivery\<close>.
\<close>

section \<open>Ports\<close>

datatype process_call =
    DP_State string
  | DP_Claim string
  | DP_Transition string delivery_state delivery_state
  | DP_Route string string
  | DP_CreateRuns string "string list"
  | DP_Comment comment_call

record 'w delivery_ports =
  dp_state :: "string \<Rightarrow> ('w, delivery_state option) port"
  dp_claim :: "string \<Rightarrow> ('w, delivery_state option) port"
  dp_transition :: "string \<Rightarrow> delivery_state \<Rightarrow> delivery_state \<Rightarrow> ('w, delivery_state) port"

record 'w routing_ports =
  rp_route :: "string \<Rightarrow> string \<Rightarrow> ('w, bool \<times> string list) port"       \<comment> \<open>repository id, event\<close>
  rp_createRuns :: "string \<Rightarrow> string list \<Rightarrow> ('w, string list) port"

definition error_message :: "(string \<Rightarrow> string) \<Rightarrow> string \<Rightarrow> js_error \<Rightarrow> string" where
  "error_message catalogue other e =
     (case e of NonError _ \<Rightarrow> other | ErrorObject m \<Rightarrow> m | ErrorClass _ m \<Rightarrow> m | MadeError c \<Rightarrow> catalogue c)"

definition read_state :: "'w delivery_ports \<Rightarrow> string \<Rightarrow> ('w, process_call, delivery_state option) eff" where
  "read_state P d = callE (DP_State d) (dp_state P d)"

definition move_delivery :: "'w delivery_ports \<Rightarrow> string \<Rightarrow> delivery_state \<Rightarrow> delivery_state \<Rightarrow> ('w, process_call, unit) eff" where
  "move_delivery P d s t = bindE (callE (DP_Transition d s t) (dp_transition P d s t)) (\<lambda>_. retE ())"

text \<open>After a failure: a delivery that is still open becomes retryable, and errors on the way are dropped.\<close>

definition mark_retryable :: "'w delivery_ports \<Rightarrow> string \<Rightarrow> ('w, process_call, unit) eff" where
  "mark_retryable P d =
     swallowE (bindE (read_state P d) (\<lambda>state.
       case state of
         None \<Rightarrow> retE ()
       | Some s \<Rightarrow> if s = WD_accepted \<or> s = WD_processing then move_delivery P d s WD_failed_retryable else retE ()))"

section \<open>The processing service\<close>

datatype job_result = Job_ok "string option" | Job_failed bool string   \<comment> \<open>retryable, detail\<close>

definition route_delivery ::
  "'w delivery_ports \<Rightarrow> 'w routing_ports \<Rightarrow> string \<Rightarrow> string \<Rightarrow> string \<Rightarrow> delivery_state \<Rightarrow> ('w, process_call, job_result) eff" where
  "route_delivery P R d repositoryId event claimed =
     bindE (callE (DP_Route repositoryId event) (rp_route R repositoryId event)) (\<lambda>(matched, triggerKeys).
     bindE (if claimed \<noteq> WD_processing then move_delivery P d claimed WD_processing else retE ()) (\<lambda>_.
     if \<not> matched then bindE (move_delivery P d WD_processing WD_ignored) (\<lambda>_. retE (Job_ok None))
     else
       bindE (callE (DP_CreateRuns repositoryId triggerKeys) (rp_createRuns R repositoryId triggerKeys)) (\<lambda>runIds.
       bindE (move_delivery P d WD_processing WD_routed) (\<lambda>_.
       retE (Job_ok (case runIds of [] \<Rightarrow> None | r # _ \<Rightarrow> Some r))))))"

definition process_delivery ::
  "(string \<Rightarrow> string) \<Rightarrow> 'w delivery_ports \<Rightarrow> 'w routing_ports \<Rightarrow> string \<Rightarrow> string \<Rightarrow> string \<Rightarrow> ('w, process_call, job_result) eff" where
  "process_delivery catalogue P R d repositoryId event =
     bindE (read_state P d) (\<lambda>current.
     if (case current of None \<Rightarrow> False | Some s \<Rightarrow> terminal_delivery s) then retE (Job_ok None)
     else
       bindE (callE (DP_Claim d) (dp_claim P d)) (\<lambda>claimed.
       case claimed of
         None \<Rightarrow> retE (Job_failed True ''delivery unavailable'')
       | Some state \<Rightarrow>
           catchE (route_delivery P R d repositoryId event state)
             (\<lambda>e. bindE (mark_retryable P d) (\<lambda>_. retE (Job_failed True (error_message catalogue ''processing failed'' e))))))"

section \<open>The job handler\<close>

record webhook_job =
  wj_deliveryId :: "string option"
  wj_repositoryId :: "string option"
  wj_payloadRef :: "string option"
  wj_event :: "string option"
  wj_issueCommentPayload :: "string option"

definition parseWorkerIssueCommentPayload :: "(string \<Rightarrow> json option) \<Rightarrow> string option \<Rightarrow> issue_comment_event option" where
  "parseWorkerIssueCommentPayload parse t =
     (case t of None \<Rightarrow> None | Some s \<Rightarrow> if s = [] then None else Option.bind (parse s) parseIssueCommentWebhook)"

fun comment_kind :: "comment_outcome \<Rightarrow> string" where
  "comment_kind CO_ignored = ''ignored''"
| "comment_kind (CO_meta _) = ''meta''"
| "comment_kind (CO_denied _ _) = ''denied''"
| "comment_kind (CO_submitted _ _ _) = ''submitted''"

type_synonym 'w comment_service = "issue_comment_event \<Rightarrow> ('w, comment_call, comment_outcome) eff"

record 'w hook_config =
  hc_parse :: "string \<Rightarrow> json option"
  hc_catalogue :: "string \<Rightarrow> string"
  hc_store :: "'w delivery_ports"
  hc_comments :: "'w comment_service option"

definition answer_comment ::
  "'w hook_config \<Rightarrow> 'w comment_service \<Rightarrow> string \<Rightarrow> issue_comment_event \<Rightarrow> ('w, process_call, job_outcome) eff" where
  "answer_comment cfg service d ev =
     bindE (callE (DP_Claim d) (dp_claim (hc_store cfg) d)) (\<lambda>claimed.
     case claimed of
       None \<Rightarrow> retE (Retryable_failure ''WEBHOOK_PROCESS_FAILED'' None)
     | Some state \<Rightarrow>
         catchE
           (bindE (viaE DP_Comment (service ev)) (\<lambda>outcome.
            bindE (move_delivery (hc_store cfg) d state (if comment_kind outcome = ''ignored'' then WD_ignored else WD_routed)) (\<lambda>_.
            retE (Succeeded (Some (comment_kind outcome))))))
           (\<lambda>e. bindE (mark_retryable (hc_store cfg) d) (\<lambda>_.
            retE (Retryable_failure ''WEBHOOK_PROCESS_FAILED'' (Some (error_message (hc_catalogue cfg) ''comment_command_failed'' e))))))"

text \<open>The router and the run creator the worker is composed with match nothing.\<close>

definition no_routes :: "'w routing_ports" where
  "no_routes = \<lparr>rp_route = (\<lambda>_ _ w. (w, Inr (False, []))), rp_createRuns = (\<lambda>_ _ w. (w, Inr []))\<rparr>"

definition webhook_process :: "'w hook_config \<Rightarrow> webhook_job \<Rightarrow> ('w, process_call, job_outcome) eff" where
  "webhook_process cfg job =
     (case wj_deliveryId job of
        None \<Rightarrow> retE (Permanent_failure ''webhook_job_missing_delivery'' None)
      | Some d \<Rightarrow>
          (case (parseWorkerIssueCommentPayload (hc_parse cfg) (wj_issueCommentPayload job), hc_comments cfg) of
             (Some ev, Some service) \<Rightarrow> answer_comment cfg service d ev
           | _ \<Rightarrow>
               bindE (process_delivery (hc_catalogue cfg) (hc_store cfg) no_routes d
                   (case wj_repositoryId job of None \<Rightarrow> [] | Some r \<Rightarrow> r)
                   (case wj_payloadRef job of Some p \<Rightarrow> p | None \<Rightarrow> (case wj_event job of Some e \<Rightarrow> e | None \<Rightarrow> ''ping''))) (\<lambda>r.
               retE (case r of
                  Job_ok next \<Rightarrow> Succeeded (Some (case next of None \<Rightarrow> ''routed'' | Some n \<Rightarrow> n))
                | Job_failed _ detail \<Rightarrow> Retryable_failure ''WEBHOOK_PROCESS_FAILED'' (Some detail)))))"

section \<open>The ledger as the store\<close>

definition on_ledger :: "(delivery_row list \<Rightarrow> delivery_row list \<times> 'a) \<Rightarrow> hook_db \<times> 'x \<Rightarrow> (hook_db \<times> 'x) \<times> 'a" where
  "on_ledger f w = (case f (deliveries (fst w)) of (rows, r) \<Rightarrow> (((fst w)\<lparr>deliveries := rows\<rparr>, snd w), r))"

definition ledger_ports :: "(hook_db \<times> 'x) delivery_ports" where
  "ledger_ports =
     \<lparr>dp_state = (\<lambda>d w. (w, Inr (delivery_state_of d (deliveries (fst w))))),
      dp_claim = (\<lambda>d. on_ledger (\<lambda>rows. case claim_delivery d rows of (rows', r) \<Rightarrow> (rows', Inr r))),
      dp_transition = (\<lambda>d s t. on_ledger (transition_delivery d s t))\<rparr>"

text \<open>A comment service that works beside the ledger.\<close>

definition beside_ledger :: "'x comment_service \<Rightarrow> (hook_db \<times> 'x) comment_service" where
  "beside_ledger service ev w = (case service ev (snd w) of (x', cs, r) \<Rightarrow> ((fst w, x'), cs, r))"

definition worker_config ::
  "(string \<Rightarrow> json option) \<Rightarrow> (string \<Rightarrow> string) \<Rightarrow> 'x comment_service option \<Rightarrow> (hook_db \<times> 'x) hook_config" where
  "worker_config parse catalogue service =
     \<lparr>hc_parse = parse, hc_catalogue = catalogue, hc_store = ledger_ports, hc_comments = map_option beside_ledger service\<rparr>"

section \<open>What a comment job does to the ledger\<close>

abbreviation open_delivery :: "hook_db \<Rightarrow> string \<Rightarrow> bool" where
  "open_delivery db d \<equiv> delivery_state_of d (deliveries db) \<in> {Some WD_accepted, Some WD_failed_retryable}"

lemma set_delivery_twice [simp]: "set_delivery d t (set_delivery d s rows) = set_delivery d t rows"
  by (simp add: set_delivery_def)

definition final_state :: "js_error + comment_outcome \<Rightarrow> delivery_state" where
  "final_state r = (case r of Inl _ \<Rightarrow> WD_failed_retryable | Inr outcome \<Rightarrow> if comment_kind outcome = ''ignored'' then WD_ignored else WD_routed)"

definition comment_job_outcome :: "(string \<Rightarrow> string) \<Rightarrow> js_error + comment_outcome \<Rightarrow> job_outcome" where
  "comment_job_outcome catalogue r =
     (case r of
        Inl e \<Rightarrow> Retryable_failure ''WEBHOOK_PROCESS_FAILED'' (Some (error_message catalogue ''comment_command_failed'' e))
      | Inr outcome \<Rightarrow> Succeeded (Some (comment_kind outcome)))"

lemma ledger_simps:
  "dp_state ledger_ports d (db, x) = ((db, x), Inr (delivery_state_of d (deliveries db)))"
  "dp_claim ledger_ports d (db, x) =
     ((db\<lparr>deliveries := fst (claim_delivery d (deliveries db))\<rparr>, x), Inr (snd (claim_delivery d (deliveries db))))"
  "dp_transition ledger_ports d s t (db, x) =
     ((db\<lparr>deliveries := fst (transition_delivery d s t (deliveries db))\<rparr>, x), snd (transition_delivery d s t (deliveries db)))"
  by (simp_all add: ledger_ports_def on_ledger_def split: prod.splits)

lemma answer_closed:
  assumes "\<not> open_delivery db d"
  shows "answer_comment (worker_config parse catalogue S) service d ev (db, x) =
    ((db, x), [DP_Claim d], Inr (Retryable_failure ''WEBHOOK_PROCESS_FAILED'' None))"
  using assms by (auto simp: answer_comment_def worker_config_def bindE_def callE_def retE_def ledger_simps claim_delivery_def)

lemma answer_open:
  assumes "open_delivery db d" and "service ev x = (x', cs, r)"
  shows "answer_comment (worker_config parse catalogue S) (beside_ledger service) d ev (db, x) =
    ((db\<lparr>deliveries := set_delivery d (final_state r) (deliveries db)\<rparr>, x'),
     DP_Claim d # map DP_Comment cs @ (case r of Inl _ \<Rightarrow> [DP_State d] | Inr _ \<Rightarrow> []) @ [DP_Transition d WD_processing (final_state r)],
     Inr (comment_job_outcome catalogue r))"
proof -
  obtain s where s: "delivery_state_of d (deliveries db) = Some s" and o: "s \<in> {WD_accepted, WD_failed_retryable}"
    using assms(1) by auto
  have c: "claim_delivery d (deliveries db) = (set_delivery d WD_processing (deliveries db), Some WD_processing)"
    using assms(1) by (simp add: claim_delivery_def)
  have p: "delivery_state_of d (set_delivery d WD_processing (deliveries db)) = Some WD_processing" by (simp add: state_of_set s)
  have t: "transition_delivery d WD_processing t (set_delivery d WD_processing (deliveries db)) = (set_delivery d t (deliveries db), Inr t)"
    if "t \<in> set (LEGAL WD_processing)" for t using that by (simp add: transition_delivery_def p)
  have b: "viaE DP_Comment (beside_ledger service ev) (db1, x) = ((db1, x'), map DP_Comment cs, r)" for db1
    using assms(2) by (simp add: viaE_def beside_ledger_def)
  show ?thesis
    by (cases r)
       (auto simp: answer_comment_def worker_config_def bindE_def catchE_def swallowE_def callE_def retE_def ledger_simps c b move_delivery_def t
          mark_retryable_def read_state_def p final_state_def comment_job_outcome_def)
qed

lemma process_comment:
  assumes "wj_deliveryId job = Some d" and "parseWorkerIssueCommentPayload parse (wj_issueCommentPayload job) = Some ev"
  shows "webhook_process (worker_config parse catalogue (Some service)) job =
    answer_comment (worker_config parse catalogue (Some service)) (beside_ledger service) d ev"
  using assms by (simp add: webhook_process_def worker_config_def)

lemma process_plain:
  assumes "wj_deliveryId job = Some d" and "parseWorkerIssueCommentPayload parse (wj_issueCommentPayload job) = None \<or> S = None"
  obtains r e where "webhook_process (worker_config parse catalogue S) job =
    bindE (process_delivery catalogue ledger_ports no_routes d r e) (\<lambda>r. retE (case r of
        Job_ok next \<Rightarrow> Succeeded (Some (case next of None \<Rightarrow> ''routed'' | Some n \<Rightarrow> n))
      | Job_failed _ detail \<Rightarrow> Retryable_failure ''WEBHOOK_PROCESS_FAILED'' (Some detail)))"
  using assms by (cases S; cases "parseWorkerIssueCommentPayload parse (wj_issueCommentPayload job)")
    (simp_all add: webhook_process_def worker_config_def)

lemma process_terminal:
  assumes "delivery_state_of d (deliveries db) = Some s" and "terminal_delivery s"
  shows "process_delivery catalogue ledger_ports R d r e (db, x) = ((db, x), [DP_State d], Inr (Job_ok None))"
  using assms by (simp add: process_delivery_def read_state_def bindE_def callE_def retE_def ledger_simps)

lemma process_busy:
  assumes "delivery_state_of d (deliveries db) = Some WD_processing"
  shows "process_delivery catalogue ledger_ports R d r e (db, x) =
    ((db, x), [DP_State d, DP_Claim d], Inr (Job_failed True ''delivery unavailable''))"
  using assms by (simp add: process_delivery_def read_state_def bindE_def callE_def retE_def ledger_simps claim_delivery_def)

text \<open>
  Property C23.  A comment is answered once per delivery: when a job for a delivery with a comment succeeded, the
  delivery is closed, and no later job for it - whatever happened to the ledger in between, and
  whatever the job carries - calls the comment service again.
\<close>

theorem comment_delivery_is_answered_once:
  assumes "webhook_process (worker_config parse catalogue (Some service)) job (db, x) = ((db', x'), calls, Inr (Succeeded detail))"
    and "parseWorkerIssueCommentPayload parse (wj_issueCommentPayload job) = Some ev" and "wj_deliveryId job = Some d"
    and "wj_deliveryId job' = Some d"
  shows "DP_Comment c \<notin> set (eff_calls (webhook_process (worker_config parse' catalogue' (Some service')) job') (hook_all ops db', y))"
proof -
  let ?db2 = "hook_all ops db'"
  obtain z cs r where s: "service ev x = (z, cs, r)" by (metis prod_cases3)
  have op: "open_delivery db d"
  proof (rule ccontr)
    assume n: "\<not> open_delivery db d"
    from assms(1) show False unfolding process_comment [OF assms(3,2)] answer_closed [OF n] by simp
  qed
  from answer_open [where service = service and ev = ev and x = x, OF op s] assms(1) [unfolded process_comment [OF assms(3,2)]] have
    db': "db' = db\<lparr>deliveries := set_delivery d (final_state r) (deliveries db)\<rparr>" and "comment_job_outcome catalogue r = Succeeded detail"
    by simp_all
  then have t: "terminal_delivery (final_state r)" by (auto simp: comment_job_outcome_def final_state_def split: sum.splits)
  from op have "delivery_state_of d (deliveries db') = Some (final_state r)" by (auto simp: db' state_of_set)
  then have f: "delivery_state_of d (deliveries ?db2) = Some (final_state r)" by (rule terminal_kept_all [OF _ t])
  with t have closed: "\<not> open_delivery ?db2 d" by auto
  show ?thesis
  proof (cases "parseWorkerIssueCommentPayload parse' (wj_issueCommentPayload job')")
    case (Some ev')
    show ?thesis unfolding process_comment [OF assms(4) Some] eff_calls_def answer_closed [OF closed] by simp
  next
    case None
    then obtain a e where p: "webhook_process (worker_config parse' catalogue' (Some service')) job' =
      bindE (process_delivery catalogue' ledger_ports no_routes d a e) (\<lambda>r. retE (case r of
        Job_ok next \<Rightarrow> Succeeded (Some (case next of None \<Rightarrow> ''routed'' | Some n \<Rightarrow> n))
      | Job_failed _ detail \<Rightarrow> Retryable_failure ''WEBHOOK_PROCESS_FAILED'' (Some detail)))"
      using process_plain [OF assms(4), of parse' "Some service'" catalogue'] by blast
    show ?thesis unfolding p by (simp add: eff_calls_def bindE_def retE_def process_terminal [OF f t])
  qed
qed

text \<open>
  A failed attempt can be tried again: if the comment service throws, the job asks for a retry
  and the delivery is left where the next job can claim it.
\<close>

theorem failed_comment_can_be_retried:
  assumes "open_delivery db d" and "service ev x = (x', cs, Inl e)"
    and "parseWorkerIssueCommentPayload parse (wj_issueCommentPayload job) = Some ev" and "wj_deliveryId job = Some d"
  shows "\<exists>db' calls m. webhook_process (worker_config parse catalogue (Some service)) job (db, x) =
      ((db', x'), calls, Inr (Retryable_failure ''WEBHOOK_PROCESS_FAILED'' (Some m))) \<and> open_delivery db' d"
proof -
  from assms(1) have "delivery_state_of d (deliveries db) \<noteq> None" by auto
  then have "open_delivery (db\<lparr>deliveries := set_delivery d WD_failed_retryable (deliveries db)\<rparr>) d" by (auto simp: state_of_set)
  moreover have "answer_comment (worker_config parse catalogue (Some service)) (beside_ledger service) d ev (db, x) =
    ((db\<lparr>deliveries := set_delivery d WD_failed_retryable (deliveries db)\<rparr>, x'),
     DP_Claim d # map DP_Comment cs @ [DP_State d] @ [DP_Transition d WD_processing WD_failed_retryable],
     Inr (Retryable_failure ''WEBHOOK_PROCESS_FAILED'' (Some (error_message catalogue ''comment_command_failed'' e))))"
    using answer_open [where service = service and r = "Inl e", OF assms(1,2)] by (simp add: final_state_def comment_job_outcome_def)
  ultimately show ?thesis unfolding process_comment [OF assms(4,3)] by blast
qed

text \<open>
  A repeated job for a closed delivery with a comment is not the replay without effect that the
  service promises: it is reported as a failure to be retried, while the same job without a comment succeeds.
\<close>

theorem closed_comment_delivery_fails_again:
  assumes "delivery_state_of d (deliveries db) = Some s" and "terminal_delivery s"
    and "parseWorkerIssueCommentPayload parse (wj_issueCommentPayload job) = Some ev" and "wj_deliveryId job = Some d"
  shows "eff_result (webhook_process (worker_config parse catalogue (Some service)) job) (db, x) =
      Inr (Retryable_failure ''WEBHOOK_PROCESS_FAILED'' None) \<and>
    eff_result (webhook_process (worker_config parse catalogue (Some service)) (job\<lparr>wj_issueCommentPayload := None\<rparr>)) (db, x) =
      Inr (Succeeded (Some ''routed''))"
proof -
  have "\<not> open_delivery db d" using assms(1,2) by auto
  note closed = answer_closed [OF this]
  have "wj_deliveryId (job\<lparr>wj_issueCommentPayload := None\<rparr>) = Some d"
    "parseWorkerIssueCommentPayload parse (wj_issueCommentPayload (job\<lparr>wj_issueCommentPayload := None\<rparr>)) = None"
    using assms(4) by (simp_all add: parseWorkerIssueCommentPayload_def)
  then obtain a e where p: "webhook_process (worker_config parse catalogue (Some service)) (job\<lparr>wj_issueCommentPayload := None\<rparr>) =
      bindE (process_delivery catalogue ledger_ports no_routes d a e) (\<lambda>r. retE (case r of
        Job_ok next \<Rightarrow> Succeeded (Some (case next of None \<Rightarrow> ''routed'' | Some n \<Rightarrow> n))
      | Job_failed _ detail \<Rightarrow> Retryable_failure ''WEBHOOK_PROCESS_FAILED'' (Some detail)))"
    using process_plain by blast
  show ?thesis unfolding p process_comment [OF assms(4,3)] eff_result_def closed
    by (simp add: bindE_def retE_def process_terminal [OF assms(1,2)])
qed

text \<open>
  A delivery whose worker died while it was being processed is never taken up again: no job for
  it changes anything or succeeds.
\<close>

theorem processing_delivery_is_stuck:
  assumes "delivery_state_of d (deliveries db) = Some WD_processing" and "wj_deliveryId job = Some d"
  shows "\<exists>calls detail. webhook_process (worker_config parse catalogue S) job (db, x) =
    ((db, x), calls, Inr (Retryable_failure ''WEBHOOK_PROCESS_FAILED'' detail))"
proof -
  have c: "\<not> open_delivery db d" using assms(1) by auto
  show ?thesis
  proof (cases "parseWorkerIssueCommentPayload parse (wj_issueCommentPayload job) = None \<or> S = None")
    case True
    then obtain a e where p: "webhook_process (worker_config parse catalogue S) job =
      bindE (process_delivery catalogue ledger_ports no_routes d a e) (\<lambda>r. retE (case r of
        Job_ok next \<Rightarrow> Succeeded (Some (case next of None \<Rightarrow> ''routed'' | Some n \<Rightarrow> n))
      | Job_failed _ detail \<Rightarrow> Retryable_failure ''WEBHOOK_PROCESS_FAILED'' (Some detail)))"
      using process_plain [OF assms(2)] by blast
    show ?thesis unfolding p by (simp add: bindE_def retE_def process_busy [OF assms(1)])
  next
    case False
    then obtain ev service where ev: "parseWorkerIssueCommentPayload parse (wj_issueCommentPayload job) = Some ev" and S: "S = Some service" by auto
    show ?thesis unfolding S process_comment [OF assms(2) ev] answer_closed [OF c] by simp
  qed
qed

section \<open>A concrete job\<close>

definition sample_ledger :: "delivery_state \<Rightarrow> hook_db" where
  "sample_ledger s =
     \<lparr>deliveries = [\<lparr>wd_id = ''d1'', wd_event = ''issue_comment'', wd_hash = ''h'', wd_payloadRef = [], wd_repositoryId = None, wd_state = s\<rparr>],
      hook_outbox = []\<rparr>"

definition sample_webhook_job :: webhook_job where
  "sample_webhook_job =
     \<lparr>wj_deliveryId = Some ''d1'', wj_repositoryId = None, wj_payloadRef = None, wj_event = None, wj_issueCommentPayload = Some ''{}''\<rparr>"

definition sample_decode :: "string \<Rightarrow> json option" where
  "sample_decode _ = Some (event_json (sample_comment ''hello''))"

lemma sample_job_comment:
  "parseWorkerIssueCommentPayload sample_decode (wj_issueCommentPayload sample_webhook_job) = Some (sample_comment ''hello'')"
  "wj_deliveryId sample_webhook_job = Some ''d1''"
  by (simp_all add: parseWorkerIssueCommentPayload_def sample_webhook_job_def sample_decode_def sample_event_parsed)

theorem comment_delivery_is_answered_once_witness:
  "\<exists>db. DP_Comment (CC_FindRepository ''9'') \<notin>
     set (eff_calls (webhook_process (worker_config sample_decode id (Some (\<lambda>_. retE CO_ignored))) sample_webhook_job) (db, ()))"
proof -
  let ?s = "(\<lambda>_. retE CO_ignored) :: unit comment_service"
  have s: "?s (sample_comment ''hello'') () = ((), [], Inr CO_ignored)" by (simp add: retE_def)
  have o: "open_delivery (sample_ledger WD_accepted) ''d1''" by (simp add: sample_ledger_def delivery_state_of_def)
  have w: "webhook_process (worker_config sample_decode id (Some ?s)) sample_webhook_job (sample_ledger WD_accepted, ()) =
      ((sample_ledger WD_ignored, ()), [DP_Claim ''d1'', DP_Transition ''d1'' WD_processing WD_ignored], Inr (Succeeded (Some ''ignored'')))"
    unfolding process_comment [OF sample_job_comment(2,1)] answer_open [where service = ?s, OF o s]
    by (simp add: final_state_def comment_job_outcome_def sample_ledger_def set_delivery_def)
  show ?thesis by (intro exI) (rule comment_delivery_is_answered_once [OF w sample_job_comment sample_job_comment(2), where ops = "[]"])
qed

theorem failed_comment_can_be_retried_witness:
  "\<exists>db' calls m. webhook_process (worker_config sample_decode id (Some (\<lambda>_. throwE (ErrorObject ''down'')))) sample_webhook_job
       (sample_ledger WD_accepted, ()) = ((db', ()), calls, Inr (Retryable_failure ''WEBHOOK_PROCESS_FAILED'' (Some m))) \<and> open_delivery db' ''d1''"
proof -
  have o: "open_delivery (sample_ledger WD_accepted) ''d1''" by (simp add: sample_ledger_def delivery_state_of_def)
  have s: "((\<lambda>_. throwE (ErrorObject ''down'')) :: unit comment_service) (sample_comment ''hello'') () = ((), [], Inl (ErrorObject ''down''))"
    by (simp add: throwE_def)
  show ?thesis
    by (rule failed_comment_can_be_retried [where service = "(\<lambda>_. throwE (ErrorObject ''down'')) :: unit comment_service", OF o s sample_job_comment])
qed

theorem closed_comment_delivery_fails_again_witness:
  "eff_result (webhook_process (worker_config sample_decode id (Some (\<lambda>_. retE CO_ignored))) sample_webhook_job) (sample_ledger WD_routed, ()) =
     Inr (Retryable_failure ''WEBHOOK_PROCESS_FAILED'' None)"
proof -
  have "delivery_state_of ''d1'' (deliveries (sample_ledger WD_routed)) = Some WD_routed" by (simp add: sample_ledger_def delivery_state_of_def)
  then show ?thesis by (rule closed_comment_delivery_fails_again [OF _ _ sample_job_comment, THEN conjunct1]) simp
qed

theorem processing_delivery_is_stuck_witness:
  "\<exists>calls detail. webhook_process (worker_config sample_decode id None) sample_webhook_job (sample_ledger WD_processing, ()) =
     ((sample_ledger WD_processing, ()), calls, Inr (Retryable_failure ''WEBHOOK_PROCESS_FAILED'' detail))"
proof -
  have "delivery_state_of ''d1'' (deliveries (sample_ledger WD_processing)) = Some WD_processing" by (simp add: sample_ledger_def delivery_state_of_def)
  from processing_delivery_is_stuck [OF this sample_job_comment(2)] show ?thesis .
qed

end
