(* ===== verification/Command_Analyzer.thy ===== *)
theory Command_Analyzer
  imports Canonical_Json
begin

text \<open>
  The command risk analyzer, \<open>packages/policy-engine/src/commands/analyzer.ts\<close>: proposals and what their
  schema accepts, the structural rules and base classes of a simple command, the bounded shell
  tokenizer, and the analysis of a proposal.  A command is a list of segments, one per stage of
  its pipeline; the theorems describe when a command counts as known, that a pipeline is never
  classified lower than its stages, and that quoting a command for the shell does not change
  what it is.
\<close>

section \<open>Proposals\<close>

record network_request =
  nr_required :: bool
  nr_destinations :: "string list"

datatype command_proposal =
    Direct (pr_executable: string) (pr_argv: "string list") (pr_cwd: string) (pr_envKeys: "string list") (pr_timeoutMs: int)
      (pr_network: network_request)
  | Shell (pr_shell: string) (pr_source: string) (pr_cwd: string) (pr_envKeys: "string list") (pr_timeoutMs: int)
      (pr_network: network_request)

definition networkRequest :: "network_request \<Rightarrow> bool" where
  "networkRequest n \<longleftrightarrow> length (nr_destinations n) \<le> 32 \<and> list_all (\<lambda>d. length d \<le> 253) (nr_destinations n)"

definition relativePath :: "string \<Rightarrow> bool" where
  "relativePath p \<longleftrightarrow> within 512 p \<and> \<not> js_startsWith p ''/'' \<and> ''..'' \<notin> set (js_split (CHR ''/'') p)"

definition common_fields :: "command_proposal \<Rightarrow> bool" where
  "common_fields p \<longleftrightarrow> relativePath (pr_cwd p) \<and> length (pr_envKeys p) \<le> 64 \<and> list_all (\<lambda>k. length k \<le> 128) (pr_envKeys p) \<and>
     1000 \<le> pr_timeoutMs p \<and> pr_timeoutMs p \<le> 3600000 \<and> networkRequest (pr_network p)"

fun sandboxCommandProposal :: "command_proposal \<Rightarrow> bool" where
  "sandboxCommandProposal (Direct exe argv cwd env t n) \<longleftrightarrow>
     within 256 exe \<and> length argv \<le> 256 \<and> list_all (\<lambda>a. length a \<le> 4096) argv \<and> common_fields (Direct exe argv cwd env t n)"
| "sandboxCommandProposal (Shell sh src cwd env t n) \<longleftrightarrow>
     sh \<in> {''sh'', ''bash''} \<and> within 16384 src \<and> common_fields (Shell sh src cwd env t n)"

section \<open>Classes and findings\<close>

datatype command_class =
  READ_ONLY | BUILD_TEST | PACKAGE_INSTALL | NETWORKED | PRIVILEGED | DESTRUCTIVE | DATABASE | INFRASTRUCTURE | UNKNOWN

fun class_str :: "command_class \<Rightarrow> string" where
  "class_str READ_ONLY = ''READ_ONLY''"
| "class_str BUILD_TEST = ''BUILD_TEST''"
| "class_str PACKAGE_INSTALL = ''PACKAGE_INSTALL''"
| "class_str NETWORKED = ''NETWORKED''"
| "class_str PRIVILEGED = ''PRIVILEGED''"
| "class_str DESTRUCTIVE = ''DESTRUCTIVE''"
| "class_str DATABASE = ''DATABASE''"
| "class_str INFRASTRUCTURE = ''INFRASTRUCTURE''"
| "class_str UNKNOWN = ''UNKNOWN''"

record structural_finding =
  sf_ruleId :: string
  sf_explanation :: string
  sf_addsClass :: command_class

definition finding :: "string \<Rightarrow> string \<Rightarrow> command_class \<Rightarrow> structural_finding" where
  "finding i e c = \<lparr>sf_ruleId = i, sf_explanation = e, sf_addsClass = c\<rparr>"

definition only_if :: "bool \<Rightarrow> 'a \<Rightarrow> 'a list" where
  "only_if b x = (if b then [x] else [])"

text \<open>\<open>/^-[a-z]*f/\<close>\<close>

fun force_flag :: "string \<Rightarrow> bool" where
  "force_flag (c # cs) = (c = CHR ''-'' \<and> CHR ''f'' \<in> set (takeWhile lower_letter cs))"
| "force_flag [] = False"

definition dangerous_target :: "string \<Rightarrow> bool" where
  "dangerous_target t \<longleftrightarrow> t = ''/'' \<or> t = [] \<or> dropWhile (\<lambda>c. c \<noteq> CHR ''/'') t = ''/..'' \<or> ''..'' \<in> set (js_split (CHR ''/'') t)"

definition rm_findings :: "string list \<Rightarrow> string list \<Rightarrow> structural_finding list" where
  "rm_findings argv all =
     (let recursive = (''-r'' \<in> set argv \<or> ''-rf'' \<in> set argv \<or> ''-fr'' \<in> set argv \<or> list_ex (\<lambda>t. js_startsWith t ''--recursive'') all);
          force = (''-f'' \<in> set argv \<or> list_ex force_flag argv);
          targets = filter (\<lambda>a. \<not> js_startsWith a ''-'') argv;
          dangerousTarget = list_ex dangerous_target targets in
      if recursive \<and> force
      then [finding ''cmd-03-rm-rf''
              (if dangerousTarget then ''recursive forced deletion at root/parent equivalent'' else ''recursive forced deletion'') DESTRUCTIVE]
      else only_if recursive (finding ''cmd-04-rm-r'' ''recursive deletion'' DESTRUCTIVE))"

text \<open>\<open>argv[0] ?? ''\<close> in lower case, and \<open>/(^|[:/])(main|master)$/\<close>.\<close>

definition subcommand :: "string list \<Rightarrow> string" where
  "subcommand argv = (case argv of [] \<Rightarrow> [] | a # _ \<Rightarrow> js_lower a)"

definition names_default_branch :: "string \<Rightarrow> bool" where
  "names_default_branch r \<longleftrightarrow> list_ex (\<lambda>b. r = b \<or> suffix (CHR '':'' # b) r \<or> suffix (CHR ''/'' # b) r) [''main'', ''master'']"

definition git_findings :: "string list \<Rightarrow> string list \<Rightarrow> structural_finding list" where
  "git_findings argv all =
     (let sub = subcommand argv;
          refspec = find (\<lambda>a. \<not> js_startsWith a ''-'') (rev argv);
          defaultBranch = (case refspec of None \<Rightarrow> True | Some r \<Rightarrow> names_default_branch r) in
      only_if (sub = ''push'' \<and> list_ex (\<lambda>a. js_startsWith a ''--force'' \<or> a = ''-f'') argv)
        (finding ''cmd-05-force-push''
           (if defaultBranch then ''forced push to default branch rewrites remote history'' else ''forced push rewrites remote history'') DESTRUCTIVE) @
      only_if (sub = ''reset'' \<and> ''--hard'' \<in> set argv)
        (finding ''cmd-06-reset-hard'' ''git reset --hard discards uncommitted work'' DESTRUCTIVE) @
      only_if (sub = ''clean'' \<and> (list_ex (\<lambda>t. js_includes t ''fdx'') all \<or> ''-f'' \<in> set argv \<and> ''-d'' \<in> set argv))
        (finding ''cmd-07-clean-fdx'' ''git clean -fd(x) removes untracked/ignored files destructively'' DESTRUCTIVE))"

definition PRIVILEGE_TOOLS :: "string list" where
  "PRIVILEGE_TOOLS = [''sudo'', ''su'', ''doas'']"

definition DYNAMIC_TOOLS :: "string list" where
  "DYNAMIC_TOOLS = [''eval'', ''exec'', ''source'', ''.'']"

definition DATABASE_TOOLS :: "string list" where
  "DATABASE_TOOLS = [''psql'', ''mysql'', ''sqlite3'']"

definition DESTRUCTIVE_SQL :: "string list" where
  "DESTRUCTIVE_SQL = [''drop database'', ''drop table'', ''truncate table'']"

definition INSTALL_SUBCOMMANDS :: "string list" where
  "INSTALL_SUBCOMMANDS = [''install'', ''add'', ''ci'']"

definition structuralFindingsForSimple :: "string \<Rightarrow> string list \<Rightarrow> structural_finding list" where
  "structuralFindingsForSimple exe argv =
     (let all = js_lower exe # map js_lower argv; joined = js_join '' '' all in
      only_if (js_lower exe \<in> set PRIVILEGE_TOOLS) (finding ''cmd-01-privilege'' (''privilege escalation via '' @ quoted exe) PRIVILEGED) @
      only_if (js_lower exe \<in> set DYNAMIC_TOOLS) (finding ''cmd-02-eval'' (quoted exe @ '' executes dynamic content'') UNKNOWN) @
      (if exe = ''rm'' then rm_findings argv all else []) @
      (if exe = ''git'' then git_findings argv all else []) @
      only_if (exe = ''gh'' \<and> take 2 argv = [''repo'', ''delete'']) (finding ''cmd-08-repo-delete'' ''repository deletion requested'' DESTRUCTIVE) @
      only_if (js_lower exe \<in> set DATABASE_TOOLS \<or> list_ex (js_includes joined) DESTRUCTIVE_SQL)
        (finding ''cmd-09-destructive-sql'' ''destructive SQL statement detected'' DATABASE) @
      only_if (exe = ''terraform'' \<and> subcommand argv = ''destroy'')
        (finding ''cmd-10-tf-destroy'' ''terraform destroy targets infrastructure deletion'' INFRASTRUCTURE) @
      only_if (exe = ''kubectl'' \<and> subcommand argv = ''delete'')
        (finding ''cmd-11-k8s-delete'' ''kubectl delete targets infrastructure removal'' INFRASTRUCTURE) @
      only_if (exe \<in> {''npm'', ''pnpm'', ''yarn''} \<and> (case argv of [] \<Rightarrow> False | a # _ \<Rightarrow> a \<in> set INSTALL_SUBCOMMANDS))
        (finding ''cmd-12-package-install'' ''package installation runs lifecycle scripts under constrained network/resources'' PACKAGE_INSTALL))"

definition BUILD_FAMILIES :: "string list" where
  "BUILD_FAMILIES = [''pnpm'', ''npm'', ''yarn'', ''make'', ''cargo'', ''go'', ''mvn'', ''gradle'']"

definition TEST_SUBCOMMANDS :: "string list" where
  "TEST_SUBCOMMANDS = [''test'', ''vitest'', ''jest'', ''pytest'', ''check'', ''lint'', ''typecheck'', ''tsc'']"

definition BUILD_SUBCOMMANDS :: "string list" where
  "BUILD_SUBCOMMANDS = [''build'', ''run'', ''compile'']"

definition READERS :: "string list" where
  "READERS = [''cat'', ''ls'', ''head'', ''tail'', ''grep'', ''rg'', ''find'', ''wc'', ''git'']"

definition READ_SUBCOMMANDS :: "string list" where
  "READ_SUBCOMMANDS = [''status'', ''log'', ''diff'', ''show'', ''branch'', ''remote'', ''rev-parse'']"

definition DOWNLOADERS :: "string list" where
  "DOWNLOADERS = [''curl'', ''wget'']"

definition RUNTIMES :: "string list" where
  "RUNTIMES = [''node'', ''python'', ''python3'', ''sh'', ''bash'']"

text \<open>
  The base class.  The cases \<open>cat\<close> to \<open>wc\<close> fall through into the one of \<open>git\<close>; the statement
  after its block is not reached.
\<close>

definition classifySimple :: "string \<Rightarrow> string list \<Rightarrow> command_class list" where
  "classifySimple exe argv =
     (let sub = subcommand argv in
      if exe \<in> set BUILD_FAMILIES then
        (if sub \<in> set TEST_SUBCOMMANDS then [if sub = ''typecheck'' \<or> sub = ''lint'' then READ_ONLY else BUILD_TEST]
         else if sub \<in> set INSTALL_SUBCOMMANDS then [PACKAGE_INSTALL]
         else if sub \<in> set BUILD_SUBCOMMANDS then [BUILD_TEST]
         else [UNKNOWN])
      else if exe \<in> set READERS then
        (if sub \<in> set READ_SUBCOMMANDS then [READ_ONLY] else [UNKNOWN])
      else if exe \<in> set DOWNLOADERS then [NETWORKED]
      else if exe \<in> set RUNTIMES then [UNKNOWN]
      else [UNKNOWN])"

section \<open>Shell sources\<close>

text \<open>
  The tokenizer's loop: the open quote, the current word, the words so far and the rest of the
  input; \<open>None\<close> is undefined.
\<close>

fun tokenize_loop :: "char option \<Rightarrow> string \<Rightarrow> string list \<Rightarrow> string \<Rightarrow> string list option" where
  "tokenize_loop qt current words [] = Some (words @ only_if (current \<noteq> []) current)"
| "tokenize_loop (Some d) current words (c # cs) =
     (if c = d then tokenize_loop None current words cs
      else if d = CHR 0x22 \<and> (c = CHR ''$'' \<or> c = CHR 0x60) then None
      else tokenize_loop (Some d) (current @ [c]) words cs)"
| "tokenize_loop None current words (c # cs) =
     (if c = CHR 0x22 \<or> c = CHR 0x27 then tokenize_loop (Some c) current words cs
      else if c = CHR 0x5C \<and> cs \<noteq> [] then tokenize_loop None (current @ [hd cs]) words (tl cs)
      else if js_space c then tokenize_loop None [] (words @ only_if (current \<noteq> []) current) cs
      else if c = CHR ''$'' \<or> c = CHR 0x60 then None
      else tokenize_loop None (current @ [c]) words cs)"

definition tokenize :: "string \<Rightarrow> string list option" where
  "tokenize s = tokenize_loop None [] [] s"

type_synonym segment = "string \<times> string list"

text \<open>One stage of a pipeline, or the given reason.\<close>

definition segment_of :: "string \<Rightarrow> string \<Rightarrow> string + segment" where
  "segment_of reason side = (case tokenize side of Some (w # ws) \<Rightarrow> Inr (w, ws) | _ \<Rightarrow> Inl reason)"

fun pipeline :: "string list \<Rightarrow> string + segment list" where
  "pipeline [] = Inr []"
| "pipeline (side # sides) =
     (case segment_of ''empty pipeline segment'' side of
        Inl r \<Rightarrow> Inl r
      | Inr seg \<Rightarrow> (case pipeline sides of Inl r \<Rightarrow> Inl r | Inr segs \<Rightarrow> Inr (seg # segs)))"

definition has_any :: "string \<Rightarrow> string \<Rightarrow> bool" where
  "has_any cs s = list_ex (\<lambda>c. c \<in> set cs) s"

text \<open>The characters \<open>; & > < ` $ ( )\<close> and those of the second test.\<close>

definition META :: string where
  "META = [CHR '';'', CHR ''&'', CHR ''>'', CHR ''<'', CHR 0x60, CHR ''$'', CHR ''('', CHR '')'']"

definition META_INNER :: string where
  "META_INNER = [CHR '';'', CHR ''&'', CHR ''<'', CHR ''>'', CHR 0x60, CHR ''('', CHR '')'']"

definition analyzeShellSource :: "string \<Rightarrow> string + segment list" where
  "analyzeShellSource source =
     (if has_any [CHR 0x0A, CHR 0x0D] source \<or> length source > 8192 then Inl ''multi-line or oversized shell input''
      else if (has_any META source \<or> js_includes source ''||'' \<or> js_includes source ''&&'') \<and>
              (has_any META_INNER source \<or> has_any [CHR ''$''] source)
      then Inl ''shell metacharacters/substitution present''
      else if CHR ''|'' \<in> set source then pipeline (js_split (CHR ''|'') source)
      else (case segment_of ''unparseable command'' source of Inl r \<Rightarrow> Inl r | Inr seg \<Rightarrow> Inr [seg]))"

section \<open>The analysis\<close>

datatype parse_status = PS_COMPLETE | PS_AMBIGUOUS | PS_UNSUPPORTED

record command_classification =
  cc_classes :: "command_class list"
  cc_factors :: "(string \<times> string) list"
  cc_obligations :: "string list"
  cc_parseStatus :: parse_status
  cc_astFingerprint :: string
  cc_analyzerVersion :: string

definition network_json :: "network_request \<Rightarrow> json" where
  "network_json n = JObj [(''required'', JBool (nr_required n)), (''destinations'', JArr (map JStr (nr_destinations n)))]"

fun proposal_json :: "command_proposal \<Rightarrow> json" where
  "proposal_json (Direct exe argv cwd env t n) =
     JObj [(''mode'', JStr ''direct''), (''executable'', JStr exe), (''argv'', JArr (map JStr argv)), (''cwd'', JStr cwd),
       (''envKeys'', JArr (map JStr env)), (''timeoutMs'', JNum t), (''network'', network_json n)]"
| "proposal_json (Shell sh src cwd env t n) =
     JObj [(''mode'', JStr ''shell''), (''shell'', JStr sh), (''source'', JStr src), (''cwd'', JStr cwd),
       (''envKeys'', JArr (map JStr env)), (''timeoutMs'', JNum t), (''network'', network_json n)]"

definition SANDBOX_OBLIGATIONS :: "string list" where
  "SANDBOX_OBLIGATIONS = [''sandbox_only'', ''timeout_required'']"

definition INTERPRETERS :: "string list" where
  "INTERPRETERS = [''sh'', ''bash'', ''zsh'', ''python'', ''python3'', ''perl'', ''ruby'', ''node'']"

definition pipe_to_shell :: structural_finding where
  "pipe_to_shell = finding ''cmd-30-pipe-to-shell'' ''pipeline feeds download/network content to an interpreter'' PRIVILEGED"

definition dynamic_executable :: structural_finding where
  "dynamic_executable = finding ''cmd-20-dynamic-executable'' ''executable resolves outside the trusted manifest snapshot'' UNKNOWN"

text \<open>
  The two branches: the classes added before those of the findings, the findings, the parse status
  and the reason for a status other than complete.  A missing and an empty script hash are both falsy.
\<close>

definition analyze_direct ::
  "(string \<times> string) list option \<Rightarrow> string \<Rightarrow> string list \<Rightarrow> network_request \<Rightarrow>
   command_class list \<times> structural_finding list \<times> parse_status \<times> string option" where
  "analyze_direct known exe argv n =
     (let scriptHash = (case known of None \<Rightarrow> None | Some m \<Rightarrow> map_of m exe);
          dynamic = ((js_startsWith exe ''./'' \<or> js_includes exe ''/'') \<and> (scriptHash = None \<or> scriptHash = Some [])) in
      (classifySimple exe argv @ only_if (nr_required n) NETWORKED,
       structuralFindingsForSimple exe argv @ only_if dynamic dynamic_executable, PS_COMPLETE, None))"

definition analyze_shell ::
  "string \<Rightarrow> command_class list \<times> structural_finding list \<times> parse_status \<times> string option" where
  "analyze_shell source =
     (case analyzeShellSource source of
        Inl reason \<Rightarrow> ([UNKNOWN], [], PS_UNSUPPORTED, Some reason)
      | Inr segs \<Rightarrow>
          (let pipeTargets = map fst (tl segs); pipeSources = map fst (butlast segs);
               findings = only_if (list_ex (\<lambda>t. t \<in> set INTERPRETERS) pipeTargets) pipe_to_shell @
                 concat (map (\<lambda>(exe, argv). structuralFindingsForSimple exe argv) segs);
               ambiguous = (1 < length segs \<and> list_ex (\<lambda>f. sf_ruleId f = ''cmd-30-pipe-to-shell'') findings) in
           (only_if (list_ex (\<lambda>s. s \<in> set DOWNLOADERS) pipeSources) NETWORKED @
              concat (map (\<lambda>(exe, argv). classifySimple exe argv) segs),
            findings, if ambiguous then PS_AMBIGUOUS else PS_COMPLETE,
            if ambiguous then Some ''pipeline mixes network fetch with interpreter execution'' else None)))"

definition class_cmp :: "command_class \<Rightarrow> command_class \<Rightarrow> int" where
  "class_cmp a b = js_compare (class_str a) (class_str b)"

definition analyzeCommand ::
  "(string \<Rightarrow> string) \<Rightarrow> (string \<times> string) list option \<Rightarrow> command_proposal \<Rightarrow> command_classification" where
  "analyzeCommand sha256 known proposal =
     (let (added, findings, status, reason) =
            (case proposal of Direct exe argv _ _ _ n \<Rightarrow> analyze_direct known exe argv n | Shell _ source _ _ _ _ \<Rightarrow> analyze_shell source);
          classes = js_nub (added @ map sf_addsClass findings) in
      \<lparr>cc_classes = js_sort class_cmp classes,
       cc_factors = map (\<lambda>f. (sf_ruleId f, sf_explanation f)) findings @
         (case reason of None \<Rightarrow> [] | Some r \<Rightarrow> [(''cmd-99-unsupported'', r)]),
       cc_obligations = SANDBOX_OBLIGATIONS @
         (if NETWORKED \<in> set classes \<or> PACKAGE_INSTALL \<in> set classes then [''network_profile_required''] else [''network_default_deny'']),
       cc_parseStatus = status,
       cc_astFingerprint = sha256 (json_text (JArr [proposal_json proposal,
         JObj (map (\<lambda>(k, v). (k, JStr v)) (case known of None \<Rightarrow> [] | Some m \<Rightarrow> m))])),
       cc_analyzerVersion = ''command-analyzer@1''\<rparr>)"

section \<open>When a command counts as known\<close>

fun segments_of :: "command_proposal \<Rightarrow> segment list option" where
  "segments_of (Direct exe argv _ _ _ _) = Some [(exe, argv)]"
| "segments_of (Shell _ source _ _ _ _) = (case analyzeShellSource source of Inl _ \<Rightarrow> None | Inr segs \<Rightarrow> Some segs)"

definition recognised :: "segment \<Rightarrow> bool" where
  "recognised seg \<longleftrightarrow> fst seg \<in> set DOWNLOADERS \<or>
     fst seg \<in> set BUILD_FAMILIES \<and> subcommand (snd seg) \<in> set (TEST_SUBCOMMANDS @ INSTALL_SUBCOMMANDS @ BUILD_SUBCOMMANDS) \<or>
     fst seg \<in> set READERS \<and> subcommand (snd seg) \<in> set READ_SUBCOMMANDS"

lemma set_only_if [simp]: "set (only_if b x) = (if b then {x} else {})"
  by (cases b) (simp_all add: only_if_def)

lemma map_only_if [simp]: "map f (only_if b x) = only_if b (f x)"
  by (simp add: only_if_def)

lemma finding_class [simp]: "sf_addsClass (finding i e c) = c"
  by (simp add: finding_def)

lemma families_disjoint:
  "e \<in> set READERS \<Longrightarrow> e \<notin> set BUILD_FAMILIES" "e \<in> set DOWNLOADERS \<Longrightarrow> e \<notin> set BUILD_FAMILIES \<and> e \<notin> set READERS"
proof -
  have "list_all (\<lambda>e. e \<notin> set BUILD_FAMILIES) READERS"
    "list_all (\<lambda>e. e \<notin> set BUILD_FAMILIES \<and> e \<notin> set READERS) DOWNLOADERS" by code_simp+
  then show "e \<in> set READERS \<Longrightarrow> e \<notin> set BUILD_FAMILIES" "e \<in> set DOWNLOADERS \<Longrightarrow> e \<notin> set BUILD_FAMILIES \<and> e \<notin> set READERS"
    by (simp_all add: list_all_iff)
qed

lemma classify_unknown: "UNKNOWN \<in> set (classifySimple exe argv) \<longleftrightarrow> \<not> recognised (exe, argv)"
  using families_disjoint [of exe] unfolding classifySimple_def Let_def recognised_def fst_conv snd_conv set_append Un_iff
  by (simp split: if_split)

lemma recognised_names:
  assumes "recognised (exe, argv)"
  shows "js_lower exe \<notin> set DYNAMIC_TOOLS \<and> \<not> js_includes exe ''/''"
proof -
  have "list_all (\<lambda>e. js_lower e \<notin> set DYNAMIC_TOOLS \<and> \<not> js_includes e ''/'') (DOWNLOADERS @ BUILD_FAMILIES @ READERS)"
    by code_simp
  with assms show ?thesis unfolding list_all_iff recognised_def fst_conv by auto
qed

lemma rm_findings_class: "f \<in> set (rm_findings argv all) \<Longrightarrow> sf_addsClass f = DESTRUCTIVE"
  by (auto simp: rm_findings_def Let_def split: if_splits)

lemma git_findings_class: "f \<in> set (git_findings argv all) \<Longrightarrow> sf_addsClass f = DESTRUCTIVE"
  unfolding git_findings_def Let_def by (auto split: if_splits)

lemma findings_unknown:
  "UNKNOWN \<in> sf_addsClass ` set (structuralFindingsForSimple exe argv) \<longleftrightarrow> js_lower exe \<in> set DYNAMIC_TOOLS"
proof -
  have "UNKNOWN \<notin> sf_addsClass ` set (if b then rm_findings argv all else [])" "UNKNOWN \<notin> sf_addsClass ` set (if b then git_findings argv all else [])"
    for b all using rm_findings_class git_findings_class by fastforce+
  then show ?thesis unfolding structuralFindingsForSimple_def Let_def
    by (simp only: set_append image_Un Un_iff set_only_if) (simp split: if_split)
qed

lemma set_classes:
  "set (cc_classes (analyzeCommand sha256 known p)) =
     (case (case p of Direct exe argv _ _ _ n \<Rightarrow> analyze_direct known exe argv n | Shell _ source _ _ _ _ \<Rightarrow> analyze_shell source) of
        (added, findings, _) \<Rightarrow> set added \<union> sf_addsClass ` set findings)"
  by (simp add: analyzeCommand_def Let_def split: prod.splits)

lemma relative_executable: "js_startsWith exe ''./'' \<Longrightarrow> js_includes exe ''/''"
  unfolding js_startsWith_def js_includes_sublist
  by (rule sublist_order.order_trans [of _ "''./''"]) (simp_all add: prefix_imp_sublist sublist_Cons_right)

lemma classes_direct:
  "set (cc_classes (analyzeCommand sha256 known (Direct exe argv cwd env t n))) =
     set (classifySimple exe argv) \<union> sf_addsClass ` set (structuralFindingsForSimple exe argv) \<union> (if nr_required n then {NETWORKED} else {})"
proof -
  have "UNKNOWN \<in> set (classifySimple exe argv)" if "js_includes exe ''/'' \<or> js_startsWith exe ''./''"
    using that relative_executable [of exe] recognised_names [of exe argv] classify_unknown [of exe argv] by blast
  then show ?thesis unfolding set_classes analyze_direct_def Let_def
    by (auto simp: dynamic_executable_def)
qed

lemma classes_shell:
  assumes "analyzeShellSource src = Inr segs"
  shows "set (cc_classes (analyzeCommand sha256 known (Shell sh src cwd env t n))) =
    (\<Union>seg\<in>set segs. set (classifySimple (fst seg) (snd seg)) \<union> sf_addsClass ` set (structuralFindingsForSimple (fst seg) (snd seg))) \<union>
    (if list_ex (\<lambda>s. s \<in> set DOWNLOADERS) (map fst (butlast segs)) then {NETWORKED} else {}) \<union>
    (if list_ex (\<lambda>t. t \<in> set INTERPRETERS) (map fst (tl segs)) then {PRIVILEGED} else {})"
  unfolding set_classes analyze_shell_def Let_def using assms
  by (simp add: pipe_to_shell_def case_prod_unfold image_Un image_UN) blast

lemma class_cmp_antisym: "class_cmp a b \<le> 0 \<Longrightarrow> class_cmp b a \<le> 0 \<Longrightarrow> a = b"
  unfolding class_cmp_def js_compare_def by (cases a; cases b) (simp_all split: if_splits)

lemma classes_determined:
  assumes "set (cc_classes (analyzeCommand sha256 known p)) = set (cc_classes (analyzeCommand sha256 known p'))"
  shows "cc_classes (analyzeCommand sha256 known p) = cc_classes (analyzeCommand sha256 known p')"
proof -
  have s: "\<exists>cs. distinct cs \<and> cc_classes (analyzeCommand sha256 known q) = js_sort class_cmp cs" for q
    unfolding analyzeCommand_def Let_def by (auto split: prod.splits intro!: exI [of _ "js_nub _"])
  from s [of p] obtain cs where c: "distinct cs" "cc_classes (analyzeCommand sha256 known p) = js_sort class_cmp cs" by (elim exE conjE)
  from s [of p'] obtain cs' where c': "distinct cs'" "cc_classes (analyzeCommand sha256 known p') = js_sort class_cmp cs'" by (elim exE conjE)
  from c c' assms have "mset cs = mset cs'" by (simp add: set_eq_iff_mset_eq_distinct)
  moreover have "consistent_cmp class_cmp" unfolding class_cmp_def [abs_def] by (rule consistent_cmp_key) (rule consistent_js_compare)
  ultimately show ?thesis unfolding c(2) c'(2) using class_cmp_antisym by (intro js_sort_permuted) simp_all
qed

text \<open>
  Property C27.  A command escapes the class UNKNOWN exactly when it was parsed completely into stages each of which
  is one of the listed programs with one of its listed subcommands; whatever the network
  request, the known scripts or the structural findings.
\<close>

theorem known_command_exactly:
  "UNKNOWN \<notin> set (cc_classes (analyzeCommand sha256 known p)) \<longleftrightarrow>
     (\<exists>segs. segments_of p = Some segs \<and> list_all recognised segs)"
proof -
  have stage: "UNKNOWN \<in> set (classifySimple exe argv) \<union> sf_addsClass ` set (structuralFindingsForSimple exe argv) \<longleftrightarrow> \<not> recognised (exe, argv)"
    for exe argv using recognised_names [of exe argv] unfolding Un_iff classify_unknown findings_unknown by blast
  show ?thesis
  proof (cases p)
    case (Direct exe argv cwd env t n)
    show ?thesis unfolding Direct classes_direct using stage [of exe argv] by auto
  next
    case (Shell sh src cwd env t n)
    show ?thesis
    proof (cases "analyzeShellSource src")
      case (Inl r)
      then show ?thesis by (simp add: Shell set_classes analyze_shell_def)
    next
      case (Inr segs)
      have "UNKNOWN \<in> set (cc_classes (analyzeCommand sha256 known p)) \<longleftrightarrow> (\<exists>seg \<in> set segs. \<not> recognised seg)"
        unfolding Shell classes_shell [OF Inr] using stage by auto
      then show ?thesis by (auto simp: Shell Inr list_all_iff)
    qed
  qed
qed

text \<open>
  A pipeline is never classified lower than one of its stages: every class the stage has as a
  direct command without a network request is a class of the pipeline.
\<close>

theorem pipeline_never_downgrades:
  assumes "analyzeShellSource src = Inr segs" and "(exe, argv) \<in> set segs" and "\<not> nr_required n'"
  shows "set (cc_classes (analyzeCommand sha256 known' (Direct exe argv cwd' env' t' n'))) \<subseteq>
    set (cc_classes (analyzeCommand sha256 known (Shell sh src cwd env t n)))"
  unfolding classes_direct classes_shell [OF assms(1)] using assms(2,3) by force

section \<open>Quoting for the shell\<close>

definition plain_word :: "string \<Rightarrow> bool" where
  "plain_word w \<longleftrightarrow> w \<noteq> [] \<and> \<not> has_any (META @ [CHR 0x27, CHR ''|'', CHR 0x0A, CHR 0x0D]) w"

definition shell_quote :: "string list \<Rightarrow> string" where
  "shell_quote ws = js_join '' '' (map quoted ws)"

lemma tokenize_quoted:
  "CHR 0x27 \<notin> set w \<Longrightarrow> tokenize_loop (Some CHR 0x27) cur ws (w @ CHR 0x27 # rest) = tokenize_loop None (cur @ w) ws rest"
  by (induction w arbitrary: cur) auto

lemma tokenize_shell_quote:
  assumes "list_all (\<lambda>w. w \<noteq> [] \<and> CHR 0x27 \<notin> set w) words"
  shows "tokenize_loop None [] ws (shell_quote words) = Some (ws @ words)"
  using assms
proof (induction words arbitrary: ws)
  case Nil
  then show ?case by (simp add: shell_quote_def only_if_def)
next
  case (Cons w words)
  have sp: "js_space (CHR '' '')" by (simp add: js_space_def)
  show ?case
  proof (cases words)
    case Nil
    with Cons.prems show ?thesis by (simp add: shell_quote_def quoted_def tokenize_quoted only_if_def)
  next
    case (Cons v vs)
    then have "shell_quote (w # words) = CHR 0x27 # w @ CHR 0x27 # CHR '' '' # shell_quote words" by (simp add: shell_quote_def quoted_def)
    with Cons.prems Cons.IH [of "ws @ [w]"] show ?thesis by (simp add: tokenize_quoted only_if_def sp)
  qed
qed

lemma set_shell_quote: "set (shell_quote words) \<subseteq> {CHR 0x27, CHR '' ''} \<union> \<Union> (set ` set words)"
proof (induction words)
  case Nil
  then show ?case by (simp add: shell_quote_def)
next
  case (Cons w words)
  then show ?case by (cases words) (auto simp: shell_quote_def quoted_def)
qed


section \<open>What escapes the rules\<close>

definition offline :: network_request where
  "offline = \<lparr>nr_required = False, nr_destinations = []\<rparr>"

text \<open>
  In shell mode the network request is not looked at: two proposals that differ in it alone have
  the same classes and obligations, so a command that asks for the network can be told to run
  without.
\<close>

theorem shell_ignores_network_request:
  "cc_classes (analyzeCommand sha256 known (Shell sh src cwd env t n)) = cc_classes (analyzeCommand sha256 known (Shell sh src cwd env t n')) \<and>
   cc_obligations (analyzeCommand sha256 known (Shell sh src cwd env t n)) = cc_obligations (analyzeCommand sha256 known (Shell sh src cwd env t n'))"
  by (simp add: analyzeCommand_def Let_def split: prod.splits)

text \<open>
  Destructive commands that no rule sees: deleting a branch is READ_ONLY without any factor, deleting
  recursively with a capital flag has no factor, and a pipe into an interpreter named by its path is neither
  privileged nor ambiguous.
\<close>

theorem destructive_commands_unflagged:
  "let a = analyzeCommand id None in
   cc_classes (a (Direct ''git'' [''branch'', ''-D'', ''main''] ''.'' [] 1000 offline)) = [READ_ONLY] \<and>
   cc_factors (a (Direct ''git'' [''branch'', ''-D'', ''main''] ''.'' [] 1000 offline)) = [] \<and>
   cc_classes (a (Direct ''rm'' [''-Rf'', ''/''] ''.'' [] 1000 offline)) = [UNKNOWN] \<and>
   cc_factors (a (Direct ''rm'' [''-Rf'', ''/''] ''.'' [] 1000 offline)) = [] \<and>
   cc_classes (a (Shell ''sh'' ''curl u | /bin/sh'' ''.'' [] 1000 offline)) = [NETWORKED, UNKNOWN] \<and>
   cc_factors (a (Shell ''sh'' ''curl u | /bin/sh'' ''.'' [] 1000 offline)) = [] \<and>
   cc_parseStatus (a (Shell ''sh'' ''curl u | /bin/sh'' ''.'' [] 1000 offline)) = PS_COMPLETE"
proof -
  have d: "analyze_direct None ''git'' [''branch'', ''-D'', ''main''] offline = ([READ_ONLY], [], PS_COMPLETE, None)"
    "analyze_direct None ''rm'' [''-Rf'', ''/''] offline = ([UNKNOWN], [], PS_COMPLETE, None)"
    "analyze_shell ''curl u | /bin/sh'' = ([NETWORKED, NETWORKED, UNKNOWN], [], PS_COMPLETE, None)" by code_simp+
  have s: "class_cmp NETWORKED UNKNOWN \<le> 0" by code_simp
  show ?thesis unfolding Let_def analyzeCommand_def by (simp add: d s js_sort_Cons)
qed

text \<open>
  The branch for a forced push without a refspec is never taken: the subcommand itself is the last
  word without a dash, so a bare forced push is not reported as one to the default branch.
\<close>

lemma force_push_has_refspec: "subcommand argv = ''push'' \<Longrightarrow> find (\<lambda>a. \<not> js_startsWith a ''-'') (rev argv) \<noteq> None"
proof -
  assume s: "subcommand argv = ''push''"
  then obtain a rest where argv: "argv = a # rest" and "js_lower a = ''push''" by (cases argv) (simp_all add: subcommand_def)
  moreover have "js_lower_char (CHR ''-'') = CHR ''-''" by code_simp
  ultimately have "\<not> js_startsWith a ''-''" by (cases a) (auto simp: js_startsWith_def js_lower_def)
  with argv show ?thesis by (auto simp: find_None_iff)
qed

section \<open>Concrete commands\<close>

theorem pipeline_never_downgrades_witness:
  "set (cc_classes (analyzeCommand id None (Direct ''git'' [''log''] ''.'' [] 1000 offline))) \<subseteq>
   set (cc_classes (analyzeCommand id None (Shell ''sh'' ''git log | wc'' ''.'' [] 1000 offline)))"
proof -
  have "analyzeShellSource ''git log | wc'' = Inr [(''git'', [''log'']), (''wc'', [])]" by code_simp
  from pipeline_never_downgrades [OF this] show ?thesis by (simp add: offline_def)
qed


end
