(* ===== verification/Agent_Lifecycle.thy ===== *)
theory Agent_Lifecycle
  imports Port_Effects
begin

text \<open>
  Agent sessions and turns, \<open>packages/agent/src/sessions\<close>: the records and input schemas of \<open>contracts.ts\<close>,
  the two state machines of \<open>fsm.ts\<close>, the event normalizer of \<open>event-normalizer.ts\<close> and the context
  assembly of \<open>context-cancellation.ts\<close>.  The digest and the library's UUID check are arguments.
\<close>

section \<open>Sessions and turns\<close>

datatype session_status =
  SS_CREATING | SS_READY | SS_TURN_ACTIVE | SS_CANCELLING | SS_CANCELLED | SS_COMPLETED | SS_FAILED | SS_RECONCILING

datatype turn_status =
  TS_REQUESTED | TS_SUBMITTING | TS_RUNNING | TS_PAUSED | TS_SUCCEEDED | TS_FAILED | TS_CANCELLED | TS_RECONCILING

datatype turn_purpose = TP_WORKFLOW | TP_USER_FOLLOWUP | TP_REQUIRED_ACTION_RESULT | TP_RECOVERY

record agent_session =
  as_id :: string
  as_workflowRunId :: string
  as_repositoryId :: string
  as_agentDefinitionId :: string
  as_agentVersion :: string
  as_provider :: string
  as_contractSnapshotDigest :: string
  as_providerSessionId :: "string option"
  as_providerThreadId :: "string option"
  as_status :: session_status
  as_currentTurnId :: "string option"
  as_cancellationGeneration :: int
  as_version :: int
  as_startedAtIso :: string
  as_updatedAtIso :: string
  as_commandKey :: string

record agent_turn =
  at_id :: string
  at_sessionId :: string
  at_ordinal :: int
  at_purpose :: turn_purpose
  at_commandKey :: string
  at_inputDigest :: string
  at_toolProfileId :: string
  at_status :: turn_status
  at_providerTurnId :: "string option"
  at_providerTerminalReason :: "string option"
  at_finalResponseDigest :: "string option"
  at_errorCode :: "string option"
  at_startedAtIso :: string
  at_completedAtIso :: "string option"
  at_version :: "int option"

record agent_session_ref =
  sr_sessionId :: string
  sr_provider :: string
  sr_providerSessionId :: "string option"
  sr_providerThreadId :: "string option"
  sr_providerVersion :: string
  sr_status :: session_status

record agent_turn_ref =
  tf_turnId :: string
  tf_sessionId :: string
  tf_ordinal :: int
  tf_providerTurnId :: "string option"
  tf_status :: turn_status

record ensure_session =
  en_workflowRunId :: string
  en_repositoryId :: string
  en_agentDefinitionId :: string
  en_agentVersion :: string
  en_contractSnapshotDigest :: string
  en_commandKey :: string

record submit_turn =
  st_sessionId :: string
  st_commandId :: string
  st_purpose :: turn_purpose
  st_workflowObjectiveRef :: string
  st_workflowDefinitionVersion :: string
  st_policySnapshotRef :: string
  st_trustContextSnapshotRef :: string
  st_toolProfileId :: string
  st_contextDigest :: string
  st_expectedVersion :: int
  st_expectedCancellationGeneration :: int
  st_linkedPausedTurnId :: "string option"

definition digest64 :: "string \<Rightarrow> bool" where
  "digest64 s \<longleftrightarrow> length s = 64 \<and> list_all hex_lower s"

definition ensureAgentSessionSchema :: "(string \<Rightarrow> bool) \<Rightarrow> ensure_session \<Rightarrow> bool" where
  "ensureAgentSessionSchema is_uuid r \<longleftrightarrow>
     is_uuid (en_workflowRunId r) \<and> within 128 (en_repositoryId r) \<and> within 128 (en_agentDefinitionId r) \<and>
     within 64 (en_agentVersion r) \<and> digest64 (en_contractSnapshotDigest r) \<and> within 128 (en_commandKey r)"

definition submitAgentTurnSchema :: "submit_turn \<Rightarrow> bool" where
  "submitAgentTurnSchema r \<longleftrightarrow>
     within 128 (st_sessionId r) \<and> within 128 (st_commandId r) \<and> within 128 (st_workflowObjectiveRef r) \<and>
     within 64 (st_workflowDefinitionVersion r) \<and> within 128 (st_policySnapshotRef r) \<and> within 128 (st_trustContextSnapshotRef r) \<and>
     within 128 (st_toolProfileId r) \<and> digest64 (st_contextDigest r) \<and> 0 \<le> st_expectedVersion r \<and>
     0 \<le> st_expectedCancellationGeneration r \<and> (case st_linkedPausedTurnId r of None \<Rightarrow> True | Some i \<Rightarrow> within 128 i)"

definition idInputSchema :: "string \<Rightarrow> bool" where
  "idInputSchema i \<longleftrightarrow> within 128 i"

section \<open>The state machines\<close>

datatype session_trigger =
  ST_begin | ST_ready | ST_turn_active | ST_idle | ST_cancel | ST_cancelled | ST_complete | ST_fail | ST_reconcile | ST_restore

fun SESSION_EDGES :: "session_trigger \<Rightarrow> (session_status \<times> session_status) list" where
  "SESSION_EDGES ST_begin = [(SS_CREATING, SS_READY)]"
| "SESSION_EDGES ST_ready = [(SS_CREATING, SS_READY)]"
| "SESSION_EDGES ST_turn_active = [(SS_READY, SS_TURN_ACTIVE)]"
| "SESSION_EDGES ST_idle = [(SS_TURN_ACTIVE, SS_READY)]"
| "SESSION_EDGES ST_cancel = [(SS_READY, SS_CANCELLING), (SS_TURN_ACTIVE, SS_CANCELLING)]"
| "SESSION_EDGES ST_cancelled = [(SS_CANCELLING, SS_CANCELLED)]"
| "SESSION_EDGES ST_complete = [(SS_READY, SS_COMPLETED), (SS_TURN_ACTIVE, SS_COMPLETED)]"
| "SESSION_EDGES ST_fail = [(SS_CREATING, SS_FAILED), (SS_CANCELLING, SS_FAILED), (SS_RECONCILING, SS_FAILED)]"
| "SESSION_EDGES ST_reconcile =
     [(SS_CREATING, SS_RECONCILING), (SS_READY, SS_RECONCILING), (SS_TURN_ACTIVE, SS_RECONCILING), (SS_CANCELLING, SS_RECONCILING)]"
| "SESSION_EDGES ST_restore = [(SS_RECONCILING, SS_READY)]"

definition resolveSessionEdge :: "session_status \<Rightarrow> session_trigger \<Rightarrow> session_status option" where
  "resolveSessionEdge from t = map_option snd (find (\<lambda>e. fst e = from) (SESSION_EDGES t))"

datatype turn_trigger =
  TT_submit | TT_started | TT_pause | TT_resume | TT_succeed | TT_fail | TT_cancel | TT_reconcile | TT_restore

fun TURN_EDGES :: "turn_trigger \<Rightarrow> (turn_status \<times> turn_status) list" where
  "TURN_EDGES TT_submit = [(TS_REQUESTED, TS_SUBMITTING)]"
| "TURN_EDGES TT_started = [(TS_SUBMITTING, TS_RUNNING)]"
| "TURN_EDGES TT_pause = [(TS_RUNNING, TS_PAUSED)]"
| "TURN_EDGES TT_resume = [(TS_PAUSED, TS_RUNNING)]"
| "TURN_EDGES TT_succeed = [(TS_RUNNING, TS_SUCCEEDED)]"
| "TURN_EDGES TT_fail = [(TS_SUBMITTING, TS_FAILED), (TS_RUNNING, TS_FAILED), (TS_PAUSED, TS_FAILED), (TS_RECONCILING, TS_FAILED)]"
| "TURN_EDGES TT_cancel =
     [(TS_REQUESTED, TS_CANCELLED), (TS_SUBMITTING, TS_CANCELLED), (TS_RUNNING, TS_CANCELLED), (TS_PAUSED, TS_CANCELLED)]"
| "TURN_EDGES TT_reconcile = [(TS_SUBMITTING, TS_RECONCILING), (TS_RUNNING, TS_RECONCILING), (TS_PAUSED, TS_RECONCILING)]"
| "TURN_EDGES TT_restore = [(TS_RECONCILING, TS_RUNNING)]"

definition resolveTurnEdge :: "turn_status \<Rightarrow> turn_trigger \<Rightarrow> turn_status option" where
  "resolveTurnEdge from t = map_option snd (find (\<lambda>e. fst e = from) (TURN_EDGES t))"

definition isTerminalSession :: "session_status \<Rightarrow> bool" where
  "isTerminalSession s \<longleftrightarrow> s = SS_CANCELLED \<or> s = SS_COMPLETED \<or> s = SS_FAILED"

definition isTerminalTurn :: "turn_status \<Rightarrow> bool" where
  "isTerminalTurn s \<longleftrightarrow> s = TS_SUCCEEDED \<or> s = TS_FAILED \<or> s = TS_CANCELLED"

definition session_fire :: "session_status \<Rightarrow> session_trigger \<Rightarrow> unit \<Rightarrow> session_status option" where
  "session_fire s t c = resolveSessionEdge s t"

definition turn_fire :: "turn_status \<Rightarrow> turn_trigger \<Rightarrow> unit \<Rightarrow> turn_status option" where
  "turn_fire s t c = resolveTurnEdge s t"

lemmas agent_fire [fsm_simps] = session_fire_def resolveSessionEdge_def turn_fire_def resolveTurnEdge_def

interpretation sessionl: lifecycle session_fire isTerminalSession
  by unfold_locales (case_tac t; auto simp: fsm_simps isTerminalSession_def)

interpretation turnl: lifecycle turn_fire isTerminalTurn
  by unfold_locales (case_tac t; auto simp: fsm_simps isTerminalTurn_def)

text \<open>The steps of the two machines as relations.\<close>

inductive session_step :: "session_status \<Rightarrow> session_status \<Rightarrow> bool" where
  session_stepI: "resolveSessionEdge s t = Some s' \<Longrightarrow> session_step s s'"

lemma session_step_explicit:
  "session_step s s' \<longleftrightarrow>
     (s, s') \<in> {(SS_CREATING, SS_READY), (SS_READY, SS_TURN_ACTIVE), (SS_TURN_ACTIVE, SS_READY), (SS_CANCELLING, SS_CANCELLED)} \<or>
     s \<in> {SS_READY, SS_TURN_ACTIVE} \<and> s' \<in> {SS_CANCELLING, SS_COMPLETED} \<or>
     s \<in> {SS_CREATING, SS_CANCELLING, SS_RECONCILING} \<and> s' = SS_FAILED \<or>
     s \<in> {SS_CREATING, SS_READY, SS_TURN_ACTIVE, SS_CANCELLING} \<and> s' = SS_RECONCILING \<or>
     s = SS_RECONCILING \<and> s' = SS_READY"
  (is "_ \<longleftrightarrow> ?R")
proof
  assume "session_step s s'"
  then obtain t where "resolveSessionEdge s t = Some s'" by (auto elim: session_step.cases)
  then show ?R by (cases t) (auto simp: resolveSessionEdge_def split: if_splits)
next
  have step: "resolveSessionEdge s t = Some s' \<Longrightarrow> session_step s s'" for t by (rule session_stepI)
  assume ?R
  then show "session_step s s'"
    using step [of ST_begin] step [of ST_turn_active] step [of ST_idle] step [of ST_cancelled] step [of ST_cancel] step [of ST_complete]
      step [of ST_fail] step [of ST_reconcile] step [of ST_restore]
    by (auto simp: resolveSessionEdge_def)
qed

lemma turn_fire_target:
  "turn_fire u t c = Some TS_SUCCEEDED \<longleftrightarrow> u = TS_RUNNING \<and> t = TT_succeed"
  "turn_fire u t c = Some TS_RUNNING \<longleftrightarrow> (u, t) \<in> {(TS_SUBMITTING, TT_started), (TS_PAUSED, TT_resume), (TS_RECONCILING, TT_restore)}"
  "turn_fire u t c = Some TS_SUBMITTING \<longleftrightarrow> u = TS_REQUESTED \<and> t = TT_submit"
  "turn_fire u t c \<noteq> Some TS_REQUESTED"
  "turn_fire TS_REQUESTED t c = Some u' \<Longrightarrow> u' \<in> {TS_SUBMITTING, TS_CANCELLED}"
  by (cases t; cases u; auto simp: fsm_simps)+

text \<open>
  A turn succeeds only from RUNNING, after it was submitted first; nothing follows a success.
\<close>

theorem turn_succeeds_only_after_submission:
  assumes "fsm_run turn_fire TS_REQUESTED es = Some TS_SUCCEEDED"
  shows "\<exists>c d us. es = (TT_submit, c) # us @ [(TT_succeed, d)] \<and> fsm_run turn_fire TS_SUBMITTING us = Some TS_RUNNING"
proof -
  obtain e rest m where es: "es = e # rest" and m: "turn_fire TS_REQUESTED (fst e) (snd e) = Some m"
    and run: "fsm_run turn_fire m rest = Some TS_SUCCEEDED" using assms by (cases es) (auto split: option.splits)
  have "m \<noteq> TS_CANCELLED"
    using run turnl.terminal_run_stays [of TS_CANCELLED rest TS_SUCCEEDED] by (auto simp: isTerminalTurn_def)
  with turn_fire_target(5) [OF m] have sub: "m = TS_SUBMITTING" by auto
  with m have e: "fst e = TT_submit" by (simp add: turn_fire_target)
  obtain us t d vs u u' where r: "rest = us @ (t, d) # vs" "fsm_run turn_fire m us = Some u"
    "u \<noteq> TS_SUCCEEDED" "turn_fire u t d = Some u'" "u' = TS_SUCCEEDED" "fsm_run turn_fire u' vs = Some TS_SUCCEEDED"
    using fsm_run_enters [OF run, of "\<lambda>s. s = TS_SUCCEEDED"] sub by auto
  moreover have "vs = []" using turnl.terminal_run_stays [of u' vs TS_SUCCEEDED] r by (simp add: isTerminalTurn_def)
  ultimately show ?thesis using es e sub
    by (intro exI [of _ "snd e"] exI [of _ d] exI [of _ us]) (cases e; auto simp: turn_fire_target)
qed

theorem turn_succeeds_only_after_submission_witness:
  "\<exists>c d us. [(TT_submit, ()), (TT_started, ()), (TT_pause, ()), (TT_resume, ()), (TT_succeed, ())] = (TT_submit, c) # us @ [(TT_succeed, d)]"
proof -
  have "fsm_run turn_fire TS_REQUESTED [(TT_submit, ()), (TT_started, ()), (TT_pause, ()), (TT_resume, ()), (TT_succeed, ())] = Some TS_SUCCEEDED"
    by (simp add: fsm_simps)
  from turn_succeeds_only_after_submission [OF this] show ?thesis by blast
qed

section \<open>Turn events\<close>

datatype turn_event_type = TE_started | TE_delta | TE_paused | TE_completed | TE_failed

record raw_turn_event =
  re_cursor :: string
  re_sourceType :: string
  re_status :: string
  re_text :: "string option"
  re_occurredAtIso :: string

text \<open>The mapped type, or for an inherited name the value of the object prototype.\<close>

datatype event_type_ref = Event_type turn_event_type | Inherited_type

record turn_event =
  te_id :: string
  te_type :: event_type_ref
  te_turnId :: string
  te_sequence :: int
  te_providerCursor :: string
  te_providerSourceType :: string
  te_status :: string
  te_textDigest :: "string option"
  te_occurredAtIso :: string

definition SOURCE_TO_TYPE :: "(string \<times> turn_event_type) list" where
  "SOURCE_TO_TYPE =
     [(''session_started'', TE_started), (''delta'', TE_delta), (''state_changed_paused'', TE_paused),
      (''turn_completed'', TE_completed), (''turn_failed'', TE_failed)]"

definition source_type :: "string \<Rightarrow> event_type_ref option" where
  "source_type s =
     (case map_of SOURCE_TO_TYPE s of
        Some t \<Rightarrow> Some (Event_type t)
      | None \<Rightarrow> if s \<in> set OBJECT_PROTOTYPE_NAMES then Some Inherited_type else None)"

definition seen_key :: "string \<Rightarrow> string \<Rightarrow> string" where
  "seen_key turnId cursor = turnId @ '':'' @ cursor"

text \<open>The set of seen keys is the state of the normalizer; the sequence port may reject.\<close>

definition normalize ::
  "(string \<Rightarrow> string) \<Rightarrow> (string \<Rightarrow> js_error + int) \<Rightarrow> raw_turn_event \<Rightarrow> string \<Rightarrow> string set \<Rightarrow>
   string set \<times> (js_error + (string + turn_event))" where
  "normalize sha256 sequenceOf raw turnId seen =
     (if seen_key turnId (re_cursor raw) \<in> seen then (seen, Inr (Inl ''MALFORMED''))
      else (case source_type (re_sourceType raw) of
        None \<Rightarrow> (seen, Inr (Inl ''UNKNOWN_SOURCE''))
      | Some t \<Rightarrow>
          (case sequenceOf turnId of
             Inl e \<Rightarrow> (seen, Inl e)
           | Inr n \<Rightarrow>
               (insert (seen_key turnId (re_cursor raw)) seen,
                Inr (Inr \<lparr>te_id = ''ev-'' @ take 16 (sha256 (re_cursor raw)), te_type = t, te_turnId = turnId, te_sequence = n + 1,
                  te_providerCursor = re_cursor raw, te_providerSourceType = re_sourceType raw, te_status = re_status raw,
                  te_textDigest = map_option (\<lambda>x. take 64 (sha256 x)) (re_text raw), te_occurredAtIso = re_occurredAtIso raw\<rparr>)))))"

text \<open>A stream of raw events through one normalizer, and the events it lets through.\<close>

fun normalize_all ::
  "(string \<Rightarrow> string) \<Rightarrow> (string \<Rightarrow> js_error + int) \<Rightarrow> (raw_turn_event \<times> string) list \<Rightarrow> string set \<Rightarrow> turn_event list" where
  "normalize_all sha256 sequenceOf [] seen = []"
| "normalize_all sha256 sequenceOf ((raw, turnId) # rs) seen =
     (case normalize sha256 sequenceOf raw turnId seen of
        (seen', Inr (Inr ev)) \<Rightarrow> ev # normalize_all sha256 sequenceOf rs seen'
      | (seen', _) \<Rightarrow> normalize_all sha256 sequenceOf rs seen')"

lemma normalize_all_fresh:
  "ev \<in> set (normalize_all sha256 sequenceOf rs seen) \<Longrightarrow> seen_key (te_turnId ev) (te_providerCursor ev) \<notin> seen"
proof (induction rs arbitrary: seen)
  case (Cons r rs)
  obtain raw i where r: "r = (raw, i)" by (cases r)
  from Cons show ?case unfolding r by (auto simp: normalize_def split: if_splits option.splits sum.splits)
qed simp

text \<open>
  An event is delivered at most once: whatever stream of raw events a normalizer reads, the events
  it lets through have different keys of turn and cursor, and each comes from a raw event of
  the stream with the same cursor, source and status.
\<close>

theorem turn_events_are_delivered_once:
  "distinct (map (\<lambda>ev. seen_key (te_turnId ev) (te_providerCursor ev)) (normalize_all sha256 sequenceOf rs seen)) \<and>
   list_all (\<lambda>ev. \<exists>raw. (raw, te_turnId ev) \<in> set rs \<and> re_cursor raw = te_providerCursor ev \<and> re_sourceType raw = te_providerSourceType ev \<and>
     re_status raw = te_status ev \<and> source_type (re_sourceType raw) = Some (te_type ev)) (normalize_all sha256 sequenceOf rs seen)"
proof (induction rs arbitrary: seen)
  case (Cons r rs)
  obtain raw i where r: "r = (raw, i)" by (cases r)
  obtain seen' x where n: "normalize sha256 sequenceOf raw i seen = (seen', x)" by fastforce
  show ?case
  proof (cases "\<exists>ev. x = Inr (Inr ev)")
    case True
    then obtain ev where x: "x = Inr (Inr ev)" ..
    with n have ev: "te_turnId ev = i" "te_providerCursor ev = re_cursor raw" "te_providerSourceType ev = re_sourceType raw"
      "te_status ev = re_status raw" "source_type (re_sourceType raw) = Some (te_type ev)" "seen_key i (re_cursor raw) \<in> seen'"
      by (auto simp: normalize_def split: if_splits option.splits sum.splits)
    with Cons.IH [of seen'] normalize_all_fresh [of _ sha256 sequenceOf rs seen'] n x show ?thesis
      unfolding r by (fastforce simp: list_all_iff)
  next
    case False
    with n have "normalize_all sha256 sequenceOf (r # rs) seen = normalize_all sha256 sequenceOf rs seen'"
      unfolding r by (auto split: sum.splits)
    with Cons.IH [of seen'] show ?thesis by (fastforce simp: list_all_iff)
  qed
qed simp

text \<open>
  Without a sequence port the sequence numbers do not grow: every event of every turn has number one.
\<close>

lemma default_sequence_is_constant:
  "ev \<in> set (normalize_all sha256 (\<lambda>_. Inr 0) rs seen) \<Longrightarrow> te_sequence ev = 1"
proof (induction rs arbitrary: seen)
  case (Cons r rs)
  obtain raw i where r: "r = (raw, i)" by (cases r)
  from Cons show ?case unfolding r by (auto simp: normalize_def split: if_splits option.splits)
qed simp

section \<open>Context\<close>

datatype context_category = CX_policy | CX_repository_instruction | CX_workflow | CX_task

fun category_str :: "context_category \<Rightarrow> string" where
  "category_str CX_policy = ''policy''"
| "category_str CX_repository_instruction = ''repository_instruction''"
| "category_str CX_workflow = ''workflow''"
| "category_str CX_task = ''task''"

record context_ref =
  cr_ref :: string
  cr_digest :: string
  cr_category :: context_category
  cr_capturedAtIso :: string

record built_context =
  bc_trustSnapshotRefs :: "context_ref list"
  bc_digest :: string
  bc_boundedCharacterCount :: int

definition MAX_CONTEXT_CHARS :: int where
  "MAX_CONTEXT_CHARS = 512000"

definition context_text :: "context_ref list \<Rightarrow> string" where
  "context_text refs = js_join ''|'' (map (\<lambda>r. category_str (cr_category r) @ '':'' @ cr_digest r) refs)"

definition buildContext :: "(string \<Rightarrow> string) \<Rightarrow> context_ref list \<Rightarrow> built_context" where
  "buildContext sha256 refs =
     (let bounded = take 64 refs in
      \<lparr>bc_trustSnapshotRefs = bounded, bc_digest = sha256 (context_text bounded),
       bc_boundedCharacterCount = min MAX_CONTEXT_CHARS (int (length bounded) * 4096)\<rparr>)"

definition nextCancellationGeneration :: "int \<Rightarrow> int" where
  "nextCancellationGeneration current = current + 1"

definition SUB_AGENT_MAX :: int where
  "SUB_AGENT_MAX = 8"

definition submitSubAgentTurns :: "int \<Rightarrow> int" where
  "submitSubAgentTurns n = (let bounded = min (max 0 n) SUB_AGENT_MAX in if bounded = 0 then 0 else bounded)"

text \<open>What the digest of a context binds: the category and digest of each kept reference, in order.\<close>

lemma split_first:
  assumes "a @ x = b @ y" and "d \<notin> set a" and "d \<notin> set b" and "x = [] \<or> hd x = d" and "y = [] \<or> hd y = d"
  shows "a = b \<and> x = y"
  using assms
proof (induction a arbitrary: b)
  case Nil
  then show ?case by (cases b) auto
next
  case (Cons c a)
  then show ?case by (cases b) auto
qed

lemma category_str_inj [simp]: "category_str a = category_str b \<longleftrightarrow> a = b"
  by (cases a; cases b) simp_all

lemma category_plain: "CHR '':'' \<notin> set (category_str a)" "CHR ''|'' \<notin> set (category_str a)"
  by (cases a; simp)+

lemma digest64_plain: "digest64 d \<Longrightarrow> CHR ''|'' \<notin> set d"
  by (auto simp: digest64_def list_all_iff hex_lower_def)

lemma context_text_inj:
  assumes "context_text xs = context_text ys" and "list_all (\<lambda>r. digest64 (cr_digest r)) (xs @ ys)"
  shows "map (\<lambda>r. (cr_category r, cr_digest r)) xs = map (\<lambda>r. (cr_category r, cr_digest r)) ys"
  using assms
proof (induction xs arbitrary: ys)
  case Nil
  have some: "context_text (y # zs) \<noteq> []" for y zs by (cases zs) (simp_all add: context_text_def)
  from Nil.prems(1) have "context_text ys = []" by (simp add: context_text_def)
  with some show ?case by (cases ys) simp_all
next
  case (Cons x xs)
  let ?t = "\<lambda>r. category_str (cr_category r) @ '':'' @ cr_digest r"
  have long: "context_text (z # zs) = ?t z @ (if zs = [] then [] else CHR ''|'' # context_text zs)" for z zs
    by (cases zs) (simp_all add: context_text_def)
  have "context_text [] = []" by (simp add: context_text_def)
  with Cons.prems(1) long [of x xs] obtain y ys' where ys: "ys = y # ys'" by (cases ys) auto
  have plain: "CHR ''|'' \<notin> set (?t x)" "CHR ''|'' \<notin> set (?t y)"
    using Cons.prems(2) digest64_plain category_plain by (auto simp: ys)
  have eq: "?t x @ (if xs = [] then [] else CHR ''|'' # context_text xs) = ?t y @ (if ys' = [] then [] else CHR ''|'' # context_text ys')"
    using Cons.prems(1) unfolding ys long .
  have "?t x = ?t y \<and> (if xs = [] then [] else CHR ''|'' # context_text xs) = (if ys' = [] then [] else CHR ''|'' # context_text ys')"
    by (rule split_first [OF eq plain]) simp_all
  then have t: "?t x = ?t y"
    and rest: "xs = [] \<longleftrightarrow> ys' = []" "xs \<noteq> [] \<Longrightarrow> context_text xs = context_text ys'" by (auto split: if_splits)
  from split_first [OF t category_plain(1) category_plain(1)]
  have "cr_category x = cr_category y \<and> cr_digest x = cr_digest y" by simp
  moreover have "map (\<lambda>r. (cr_category r, cr_digest r)) xs = map (\<lambda>r. (cr_category r, cr_digest r)) ys'"
  proof (cases "xs = []")
    case False
    with rest(2) Cons.IH [of ys'] Cons.prems(2) show ?thesis by (simp add: ys)
  qed (use rest in simp)
  ultimately show ?case by (simp add: ys)
qed

text \<open>
  The digest of a context binds what it was built from: with digests of the schema's form and a hash that
  does not collide on the two texts, equal context digests mean the same categories and digests in
  the same order; at most 64 references are kept and the count is bounded by 4096 characters each.
\<close>

theorem context_digest_binds_refs:
  assumes "list_all (\<lambda>r. digest64 (cr_digest r)) (xs @ ys)"
    and "sha256 (context_text (take 64 xs)) = sha256 (context_text (take 64 ys)) \<Longrightarrow> context_text (take 64 xs) = context_text (take 64 ys)"
    and "bc_digest (buildContext sha256 xs) = bc_digest (buildContext sha256 ys)"
  shows "map (\<lambda>r. (cr_category r, cr_digest r)) (bc_trustSnapshotRefs (buildContext sha256 xs)) =
      map (\<lambda>r. (cr_category r, cr_digest r)) (bc_trustSnapshotRefs (buildContext sha256 ys)) \<and>
    bc_boundedCharacterCount (buildContext sha256 xs) \<le> 262144"
proof -
  have "list_all (\<lambda>r. digest64 (cr_digest r)) (take 64 xs @ take 64 ys)"
    using assms(1) by (auto simp: list_all_iff dest: in_set_takeD)
  with assms(2,3) context_text_inj [of "take 64 xs" "take 64 ys"] show ?thesis
    by (simp add: buildContext_def Let_def)
qed

definition sample_ref :: context_ref where
  "sample_ref = \<lparr>cr_ref = ''r'', cr_digest = replicate 64 (CHR ''a''), cr_category = CX_task, cr_capturedAtIso = ''t''\<rparr>"

theorem context_digest_binds_refs_witness:
  "map (\<lambda>r. (cr_category r, cr_digest r)) (bc_trustSnapshotRefs (buildContext id [sample_ref])) = [(CX_task, replicate 64 (CHR ''a''))]"
proof -
  have "list_all (\<lambda>r. digest64 (cr_digest r)) ([sample_ref] @ [sample_ref])" by (simp add: sample_ref_def digest64_def list_all_iff hex_lower_def)
  from context_digest_binds_refs [of "[sample_ref]" "[sample_ref]" id, OF this] show ?thesis
    by (simp add: buildContext_def Let_def sample_ref_def)
qed

end
