(* ===== verification/Agent_Store.thy ===== *)
theory Agent_Store
  imports Agent_Lifecycle Versioned_Store
begin

text \<open>
  The durable stores of agent sessions and turns, \<open>packages/db/src/repositories/agent-execution.ts\<close>, as
  functions on the two tables with the constraints of migrations 005 and 015, and the in-memory stores of
  \<open>packages/agent/src/sessions/repos.ts\<close>.  Ids are canonical UUIDs, on which the casts of the statements are
  the identity; \<open>pg\<close> is the text the database prints for a stored timestamp and \<open>now\<close> that of the
  statement's time.  Both tables interpret the versioned store.
\<close>

section \<open>Tables\<close>

record session_row =
  sw_id :: string
  sw_runId :: string
  sw_agentDefinitionId :: string
  sw_agentVersion :: string
  sw_provider :: string
  sw_contractSnapshotDigest :: string
  sw_providerSessionId :: "string option"
  sw_providerThreadId :: "string option"
  sw_status :: session_status
  sw_currentTurnId :: "string option"
  sw_cancellationGeneration :: int
  sw_commandKey :: string
  sw_createdAt :: string
  sw_updatedAt :: string
  sw_rowVersion :: int

record turn_row =
  tw_id :: string
  tw_sessionId :: string
  tw_turnIndex :: int
  tw_purpose :: turn_purpose
  tw_commandKey :: string
  tw_inputDigest :: string
  tw_toolProfileId :: string
  tw_providerTurnRef :: "string option"
  tw_status :: turn_status
  tw_providerTerminalReason :: "string option"
  tw_finalResponseDigest :: "string option"
  tw_errorCode :: "string option"
  tw_startedAt :: string
  tw_completedAt :: "string option"
  tw_rowVersion :: int

text \<open>\<open>ad_runs\<close> are the ids and repositories of \<open>workflow_runs\<close>, which the session queries join.\<close>

record agent_db =
  ad_runs :: "(string \<times> string) list"
  ad_sessions :: "session_row list"
  ad_turns :: "turn_row list"

definition optionalString :: "string option \<Rightarrow> string option" where
  "optionalString v = (case v of Some (c # cs) \<Rightarrow> Some (c # cs) | _ \<Rightarrow> None)"

definition session_of :: "string \<Rightarrow> session_row \<Rightarrow> agent_session" where
  "session_of repositoryId r =
     \<lparr>as_id = sw_id r, as_workflowRunId = sw_runId r, as_repositoryId = repositoryId, as_agentDefinitionId = sw_agentDefinitionId r,
      as_agentVersion = sw_agentVersion r, as_provider = sw_provider r, as_contractSnapshotDigest = sw_contractSnapshotDigest r,
      as_providerSessionId = optionalString (sw_providerSessionId r), as_providerThreadId = optionalString (sw_providerThreadId r),
      as_status = sw_status r, as_currentTurnId = optionalString (sw_currentTurnId r),
      as_cancellationGeneration = sw_cancellationGeneration r, as_version = sw_rowVersion r,
      as_startedAtIso = sw_createdAt r, as_updatedAtIso = sw_updatedAt r, as_commandKey = sw_commandKey r\<rparr>"

definition turn_of :: "turn_row \<Rightarrow> agent_turn" where
  "turn_of r =
     \<lparr>at_id = tw_id r, at_sessionId = tw_sessionId r, at_ordinal = tw_turnIndex r + 1, at_purpose = tw_purpose r,
      at_commandKey = tw_commandKey r, at_inputDigest = tw_inputDigest r, at_toolProfileId = tw_toolProfileId r, at_status = tw_status r,
      at_providerTurnId = optionalString (tw_providerTurnRef r), at_providerTerminalReason = optionalString (tw_providerTerminalReason r),
      at_finalResponseDigest = optionalString (tw_finalResponseDigest r), at_errorCode = optionalString (tw_errorCode r),
      at_startedAtIso = tw_startedAt r, at_completedAtIso = optionalString (tw_completedAt r), at_version = Some (tw_rowVersion r)\<rparr>"

section \<open>The session store\<close>

definition session_row_of :: "string \<Rightarrow> agent_db \<Rightarrow> session_row option" where
  "session_row_of i db = find (\<lambda>r. sw_id r = i) (ad_sessions db)"

definition joined :: "agent_db \<Rightarrow> session_row option \<Rightarrow> agent_session option" where
  "joined db row = (case row of None \<Rightarrow> None | Some r \<Rightarrow> map_option (\<lambda>repo. session_of repo r) (map_of (ad_runs db) (sw_runId r)))"

definition get_session :: "string \<Rightarrow> agent_db \<Rightarrow> agent_session option" where
  "get_session i db = joined db (session_row_of i db)"

definition find_session :: "string \<Rightarrow> agent_db \<Rightarrow> agent_session option" where
  "find_session key db = joined db (find (\<lambda>r. sw_commandKey r = key) (ad_sessions db))"

text \<open>The index on provider and provider session id, in which missing ids do not collide.\<close>

definition provider_taken :: "string \<Rightarrow> string \<Rightarrow> string option \<Rightarrow> agent_db \<Rightarrow> bool" where
  "provider_taken i provider psid db \<longleftrightarrow>
     psid \<noteq> None \<and> list_ex (\<lambda>r. sw_id r \<noteq> i \<and> sw_provider r = provider \<and> sw_providerSessionId r = psid) (ad_sessions db)"

definition inserted_session :: "string \<Rightarrow> agent_session \<Rightarrow> session_row" where
  "inserted_session now v =
     \<lparr>sw_id = as_id v, sw_runId = as_workflowRunId v, sw_agentDefinitionId = as_agentDefinitionId v, sw_agentVersion = as_agentVersion v,
      sw_provider = as_provider v, sw_contractSnapshotDigest = as_contractSnapshotDigest v,
      sw_providerSessionId = as_providerSessionId v, sw_providerThreadId = as_providerThreadId v, sw_status = as_status v,
      sw_currentTurnId = as_currentTurnId v, sw_cancellationGeneration = as_cancellationGeneration v, sw_commandKey = as_commandKey v,
      sw_createdAt = now, sw_updatedAt = now, sw_rowVersion = 1\<rparr>"

definition updated_session :: "string \<Rightarrow> agent_session \<Rightarrow> session_row \<Rightarrow> session_row" where
  "updated_session now v r =
     r\<lparr>sw_providerSessionId := as_providerSessionId v, sw_providerThreadId := as_providerThreadId v, sw_status := as_status v,
       sw_currentTurnId := as_currentTurnId v, sw_cancellationGeneration := as_cancellationGeneration v,
       sw_agentDefinitionId := as_agentDefinitionId v, sw_agentVersion := as_agentVersion v,
       sw_contractSnapshotDigest := as_contractSnapshotDigest v, sw_updatedAt := now, sw_rowVersion := sw_rowVersion r + 1\<rparr>"

text \<open>\<open>INSERT ... ON CONFLICT (id) DO UPDATE ... WHERE row_version = expected RETURNING id\<close>: whether a row came back.\<close>

definition upsert_session :: "string \<Rightarrow> agent_session \<Rightarrow> int \<Rightarrow> agent_db \<Rightarrow> agent_db \<times> (js_error + bool)" where
  "upsert_session now v expected db =
     (case session_row_of (as_id v) db of
        None \<Rightarrow>
          if list_ex (\<lambda>r. sw_commandKey r = as_commandKey v) (ad_sessions db) \<or>
             provider_taken (as_id v) (as_provider v) (as_providerSessionId v) db
          then (db, Inl (ErrorObject ''duplicate key value''))
          else if map_of (ad_runs db) (as_workflowRunId v) = None then (db, Inl (ErrorObject ''foreign key violation''))
          else (db\<lparr>ad_sessions := ad_sessions db @ [inserted_session now v]\<rparr>, Inr True)
      | Some r \<Rightarrow>
          if sw_rowVersion r \<noteq> expected then (db, Inr False)
          else if provider_taken (as_id v) (sw_provider r) (as_providerSessionId v) db
          then (db, Inl (ErrorObject ''duplicate key value''))
          else (db\<lparr>ad_sessions := map (\<lambda>x. if sw_id x = as_id v then updated_session now v x else x) (ad_sessions db)\<rparr>, Inr True))"

text \<open>
  \<open>save\<close>: the statement and then a second query for the stored record; what other transactions
  do between the two is an argument.
\<close>

definition save_session ::
  "(agent_db \<Rightarrow> agent_db) \<Rightarrow> string \<Rightarrow> agent_session \<Rightarrow> int \<Rightarrow> agent_db \<Rightarrow> agent_db \<times> (js_error + agent_session option)" where
  "save_session others now v expected db =
     (case upsert_session now v expected db of
        (db', Inl e) \<Rightarrow> (db', Inl e)
      | (db', Inr False) \<Rightarrow> (db', Inr None)
      | (db', Inr True) \<Rightarrow> (others db', Inr (get_session (as_id v) (others db'))))"

section \<open>The turn store\<close>

definition active_turn_status :: "turn_status \<Rightarrow> bool" where
  "active_turn_status s \<longleftrightarrow> s \<in> {TS_REQUESTED, TS_SUBMITTING, TS_RUNNING, TS_PAUSED, TS_RECONCILING}"

definition turn_row_of :: "string \<Rightarrow> agent_db \<Rightarrow> turn_row option" where
  "turn_row_of i db = find (\<lambda>r. tw_id r = i) (ad_turns db)"

definition get_turn :: "string \<Rightarrow> agent_db \<Rightarrow> agent_turn option" where
  "get_turn i db = map_option turn_of (turn_row_of i db)"

definition find_turn :: "string \<Rightarrow> agent_db \<Rightarrow> agent_turn option" where
  "find_turn key db = map_option turn_of (find (\<lambda>r. tw_commandKey r = key) (ad_turns db))"

definition active_turns :: "string \<Rightarrow> agent_db \<Rightarrow> turn_row list" where
  "active_turns sid db = filter (\<lambda>r. tw_sessionId r = sid \<and> active_turn_status (tw_status r)) (ad_turns db)"

definition countActive :: "string \<Rightarrow> agent_db \<Rightarrow> nat" where
  "countActive sid db = length (active_turns sid db)"

definition nextOrdinal :: "string \<Rightarrow> agent_db \<Rightarrow> int" where
  "nextOrdinal sid db = foldr (\<lambda>r m. if tw_sessionId r = sid then max (tw_turnIndex r) m else m) (ad_turns db) (- 1) + 2"

definition inserted_turn :: "(string \<Rightarrow> string) \<Rightarrow> agent_turn \<Rightarrow> turn_row" where
  "inserted_turn pg v =
     \<lparr>tw_id = at_id v, tw_sessionId = at_sessionId v, tw_turnIndex = at_ordinal v - 1, tw_purpose = at_purpose v,
      tw_commandKey = at_commandKey v, tw_inputDigest = at_inputDigest v, tw_toolProfileId = at_toolProfileId v,
      tw_providerTurnRef = at_providerTurnId v, tw_status = at_status v, tw_providerTerminalReason = at_providerTerminalReason v,
      tw_finalResponseDigest = at_finalResponseDigest v, tw_errorCode = at_errorCode v, tw_startedAt = pg (at_startedAtIso v),
      tw_completedAt = map_option pg (at_completedAtIso v), tw_rowVersion = 1\<rparr>"

definition updated_turn :: "(string \<Rightarrow> string) \<Rightarrow> agent_turn \<Rightarrow> turn_row \<Rightarrow> turn_row" where
  "updated_turn pg v r =
     r\<lparr>tw_providerTurnRef := at_providerTurnId v, tw_status := at_status v, tw_providerTerminalReason := at_providerTerminalReason v,
       tw_finalResponseDigest := at_finalResponseDigest v, tw_errorCode := at_errorCode v, tw_startedAt := pg (at_startedAtIso v),
       tw_completedAt := map_option pg (at_completedAtIso v), tw_rowVersion := tw_rowVersion r + 1\<rparr>"

text \<open>The partial unique index on the session of active turns, for a row with the given id.\<close>

definition slot_taken :: "string \<Rightarrow> string \<Rightarrow> turn_status \<Rightarrow> agent_db \<Rightarrow> bool" where
  "slot_taken i sid s db \<longleftrightarrow> active_turn_status s \<and> list_ex (\<lambda>r. tw_id r \<noteq> i) (active_turns sid db)"

definition write_turn :: "(string \<Rightarrow> string) \<Rightarrow> agent_turn \<Rightarrow> turn_row \<Rightarrow> agent_db \<Rightarrow> agent_db \<times> (js_error + bool)" where
  "write_turn pg v r db =
     (if slot_taken (at_id v) (tw_sessionId r) (at_status v) db then (db, Inl (ErrorObject ''duplicate key value''))
      else (db\<lparr>ad_turns := map (\<lambda>x. if tw_id x = at_id v then updated_turn pg v x else x) (ad_turns db)\<rparr>, Inr True))"

text \<open>
  The CHECK on the index is applied to the proposed row, so it refuses a save of an existing turn too,
  although the update does not write the index.
\<close>

definition save_turn :: "(string \<Rightarrow> string) \<Rightarrow> agent_turn \<Rightarrow> agent_db \<Rightarrow> agent_db \<times> (js_error + bool)" where
  "save_turn pg v db =
     (if at_ordinal v - 1 < 0 then (db, Inl (ErrorObject ''check constraint violation''))
      else case turn_row_of (at_id v) db of
        Some r \<Rightarrow> write_turn pg v r db
      | None \<Rightarrow>
          if list_ex (\<lambda>r. tw_commandKey r = at_commandKey v \<or> tw_sessionId r = at_sessionId v \<and> tw_turnIndex r = at_ordinal v - 1) (ad_turns db) \<or>
                  slot_taken (at_id v) (at_sessionId v) (at_status v) db
          then (db, Inl (ErrorObject ''duplicate key value''))
          else if session_row_of (at_sessionId v) db = None then (db, Inl (ErrorObject ''foreign key violation''))
          else (db\<lparr>ad_turns := ad_turns db @ [inserted_turn pg v]\<rparr>, Inr True))"

definition saveIfCurrent :: "(string \<Rightarrow> string) \<Rightarrow> agent_turn \<Rightarrow> int \<Rightarrow> agent_db \<Rightarrow> agent_db \<times> (js_error + bool)" where
  "saveIfCurrent pg v version db =
     (case turn_row_of (at_id v) db of
        Some r \<Rightarrow> if tw_rowVersion r = version then write_turn pg v r db else (db, Inr False)
      | None \<Rightarrow> (db, Inr False))"

section \<open>The in-memory stores\<close>

text \<open>The maps of the two in-memory stores; iteration of a map is in insertion order.\<close>

definition put_kv :: "'k \<Rightarrow> 'v \<Rightarrow> ('k \<times> 'v) list \<Rightarrow> ('k \<times> 'v) list" where
  "put_kv k v m = (if map_of m k = None then m @ [(k, v)] else map (\<lambda>(k', v'). (k', if k' = k then v else v')) m)"

definition mem_save_session :: "agent_session \<Rightarrow> int \<Rightarrow> (string \<times> agent_session) list \<Rightarrow> (string \<times> agent_session) list \<times> agent_session option" where
  "mem_save_session session expected m =
     (case map_of m (as_id session) of
        Some existing \<Rightarrow>
          if as_version existing \<noteq> expected then (m, None)
          else (let nxt = session\<lparr>as_version := as_version session + 1\<rparr> in (put_kv (as_id nxt) nxt m, Some nxt))
      | None \<Rightarrow> (let nxt = session\<lparr>as_version := as_version session + 1\<rparr> in (put_kv (as_id nxt) nxt m, Some nxt)))"

record mem_turns =
  mt_turns :: "(string \<times> agent_turn) list"
  mt_byCommand :: "(string \<times> agent_turn) list"

definition mem_countActive :: "string \<Rightarrow> mem_turns \<Rightarrow> nat" where
  "mem_countActive sid m =
     length (filter (\<lambda>(_, t). at_sessionId t = sid \<and> at_status t \<notin> {TS_SUCCEEDED, TS_FAILED, TS_CANCELLED}) (mt_turns m))"

definition mem_nextOrdinal :: "string \<Rightarrow> mem_turns \<Rightarrow> int" where
  "mem_nextOrdinal sid m = foldl (\<lambda>mx (_, t). if at_sessionId t = sid \<and> at_ordinal t > mx then at_ordinal t else mx) 0 (mt_turns m) + 1"

definition mem_save_turn :: "agent_turn \<Rightarrow> mem_turns \<Rightarrow> mem_turns" where
  "mem_save_turn t m =
     (let current = (case map_of (mt_turns m) (at_id t) of Some c \<Rightarrow> (case at_version c of Some v \<Rightarrow> v | None \<Rightarrow> 0) | None \<Rightarrow> 0);
          nxt = t\<lparr>at_version := Some (current + 1)\<rparr> in
      \<lparr>mt_turns = put_kv (at_id t) nxt (mt_turns m), mt_byCommand = put_kv (at_commandKey t) nxt (mt_byCommand m)\<rparr>)"

definition mem_saveIfCurrent :: "agent_turn \<Rightarrow> int \<Rightarrow> mem_turns \<Rightarrow> mem_turns \<times> bool" where
  "mem_saveIfCurrent t version m =
     (case map_of (mt_turns m) (at_id t) of
        None \<Rightarrow> (m, False)
      | Some current \<Rightarrow> if at_version current \<noteq> Some version then (m, False) else (mem_save_turn t m, True))"

text \<open>\<open>sessionIdForCommand\<close>: a UUID-shaped id cut from the digest of the command key.\<close>

definition hex_value :: "char \<Rightarrow> nat" where
  "hex_value c = (let n = of_char c :: nat in if js_digit c then n - 48 else if 97 \<le> n \<and> n \<le> 102 then n - 87 else if 65 \<le> n \<and> n \<le> 70 then n - 55 else 0)"

definition sessionIdForCommand :: "(string \<Rightarrow> string) \<Rightarrow> string \<Rightarrow> string" where
  "sessionIdForCommand sha256 commandKey =
     (let hex = take 32 (sha256 (''session:'' @ commandKey));
          v = hex[12 := CHR ''5'', 16 := ''89ab'' ! (hex_value (hex ! 16) mod 4)] in
      take 8 v @ ''-'' @ take 4 (drop 8 v) @ ''-'' @ take 4 (drop 12 v) @ ''-'' @ take 4 (drop 16 v) @ ''-'' @ drop 20 v)"

text \<open>Lookup by command key goes through the derived id.\<close>

definition mem_find_session :: "(string \<Rightarrow> string) \<Rightarrow> string \<Rightarrow> (string \<times> agent_session) list \<Rightarrow> agent_session option" where
  "mem_find_session sha256 key m = map_of m (sessionIdForCommand sha256 key)"

section \<open>What every serialization of statements keeps\<close>

datatype agent_op = AO_session string agent_session int | AO_turn agent_turn | AO_turn_if agent_turn int

fun agent_apply :: "(string \<Rightarrow> string) \<Rightarrow> agent_op \<Rightarrow> agent_db \<Rightarrow> agent_db" where
  "agent_apply pg (AO_session now v n) db = fst (upsert_session now v n db)"
| "agent_apply pg (AO_turn v) db = fst (save_turn pg v db)"
| "agent_apply pg (AO_turn_if v n) db = fst (saveIfCurrent pg v n db)"

definition agent_run :: "(string \<Rightarrow> string) \<Rightarrow> agent_op list \<Rightarrow> agent_db \<Rightarrow> agent_db" where
  "agent_run pg ops db = fold (agent_apply pg) ops db"

definition empty_agent_db :: "(string \<times> string) list \<Rightarrow> agent_db" where
  "empty_agent_db runs = \<lparr>ad_runs = runs, ad_sessions = [], ad_turns = []\<rparr>"

definition one_active :: "turn_row list \<Rightarrow> bool" where
  "one_active ts \<longleftrightarrow> (\<forall>r \<in> set ts. \<forall>r' \<in> set ts. tw_sessionId r = tw_sessionId r' \<and> active_turn_status (tw_status r) \<and>
     active_turn_status (tw_status r') \<longrightarrow> tw_id r = tw_id r')"

definition sessions_ok :: "agent_db \<Rightarrow> bool" where
  "sessions_ok db \<longleftrightarrow> distinct (map sw_id (ad_sessions db)) \<and> distinct (map sw_commandKey (ad_sessions db)) \<and>
     (\<forall>r \<in> set (ad_sessions db). 1 \<le> sw_rowVersion r \<and> map_of (ad_runs db) (sw_runId r) \<noteq> None)"

definition turns_ok :: "agent_db \<Rightarrow> bool" where
  "turns_ok db \<longleftrightarrow> distinct (map tw_id (ad_turns db)) \<and> distinct (map tw_commandKey (ad_turns db)) \<and>
     distinct (map (\<lambda>r. (tw_sessionId r, tw_turnIndex r)) (ad_turns db)) \<and> one_active (ad_turns db) \<and>
     (\<forall>r \<in> set (ad_turns db). session_row_of (tw_sessionId r) db \<noteq> None)"

lemma updated_session_keys [simp]:
  "sw_id (updated_session now v r) = sw_id r" "sw_commandKey (updated_session now v r) = sw_commandKey r"
  "sw_runId (updated_session now v r) = sw_runId r" "sw_rowVersion (updated_session now v r) = sw_rowVersion r + 1"
  "sw_provider (updated_session now v r) = sw_provider r" "sw_status (updated_session now v r) = as_status v"
  "sw_providerSessionId (updated_session now v r) = as_providerSessionId v"
  by (simp_all add: updated_session_def)

lemma updated_turn_keys [simp]:
  "tw_id (updated_turn pg v r) = tw_id r" "tw_commandKey (updated_turn pg v r) = tw_commandKey r"
  "tw_sessionId (updated_turn pg v r) = tw_sessionId r" "tw_turnIndex (updated_turn pg v r) = tw_turnIndex r"
  "tw_status (updated_turn pg v r) = at_status v" "tw_rowVersion (updated_turn pg v r) = tw_rowVersion r + 1"
  by (simp_all add: updated_turn_def)

lemma upsert_cases:
  assumes "upsert_session now v n db = (db', r)"
  obtains (same) "db' = db" and "r \<noteq> Inr True"
  | (inserted) "session_row_of (as_id v) db = None" and "r = Inr True" and "as_commandKey v \<notin> sw_commandKey ` set (ad_sessions db)"
      and "map_of (ad_runs db) (as_workflowRunId v) \<noteq> None" and "db' = db\<lparr>ad_sessions := ad_sessions db @ [inserted_session now v]\<rparr>"
  | (updated) row where "session_row_of (as_id v) db = Some row" and "r = Inr True" and "sw_rowVersion row = n"
      and "db' = db\<lparr>ad_sessions := map (\<lambda>x. if sw_id x = as_id v then updated_session now v x else x) (ad_sessions db)\<rparr>"
proof (cases "r = Inr True")
  case False
  with assms have "db' = db" by (simp add: upsert_session_def split: option.splits if_split_asm)
  with False show thesis by (intro same)
next
  case True
  show thesis
  proof (cases "session_row_of (as_id v) db")
    case None
    with True assms have "db' = db\<lparr>ad_sessions := ad_sessions db @ [inserted_session now v]\<rparr>"
      "\<not> list_ex (\<lambda>r. sw_commandKey r = as_commandKey v) (ad_sessions db)" "map_of (ad_runs db) (as_workflowRunId v) \<noteq> None"
      by (simp_all add: upsert_session_def split: if_split_asm)
    with True None show thesis by (intro inserted) (auto simp: list_ex_iff)
  next
    case (Some row)
    with True assms show thesis by (intro updated [OF Some]) (simp_all add: upsert_session_def split: if_split_asm)
  qed
qed

lemma row_of_inserted: "session_row_of i (db\<lparr>ad_sessions := ad_sessions db @ [inserted_session now v]\<rparr>) =
    (case session_row_of i db of None \<Rightarrow> if as_id v = i then Some (inserted_session now v) else None | Some r \<Rightarrow> Some r)"
  by (simp add: session_row_of_def find_snoc inserted_session_def split: option.splits)

lemma row_of_updated: "session_row_of i (db\<lparr>ad_sessions := map (\<lambda>x. if sw_id x = j then updated_session now v x else x) (ad_sessions db)\<rparr>) =
    map_option (\<lambda>r. if i = j then updated_session now v r else r) (session_row_of i db)"
proof -
  have "session_row_of i (db\<lparr>ad_sessions := map (\<lambda>x. if sw_id x = j then updated_session now v x else x) (ad_sessions db)\<rparr>) =
      map_option (\<lambda>x. if sw_id x = j then updated_session now v x else x) (session_row_of i db)"
    by (simp add: session_row_of_def, intro find_map_keep) simp
  moreover have "sw_id r = i" if "session_row_of i db = Some r" for r using find_sound [of "\<lambda>r. sw_id r = i"] that by (auto simp: session_row_of_def)
  ultimately show ?thesis by (cases "session_row_of i db") auto
qed

lemma row_in_sessions: "session_row_of i db = Some r \<Longrightarrow> r \<in> set (ad_sessions db) \<and> sw_id r = i"
  using find_sound [of "\<lambda>r. sw_id r = i"] by (auto simp: session_row_of_def)

lemma no_session_row: "session_row_of i db = None \<Longrightarrow> i \<notin> sw_id ` set (ad_sessions db)"
  by (auto simp: session_row_of_def find_None_iff)

lemma upsert_ok: "sessions_ok db \<Longrightarrow> sessions_ok (fst (upsert_session now v n db))"
proof (cases "upsert_session now v n db")
  case (Pair db' r)
  assume ok: "sessions_ok db"
  from Pair show ?thesis
  proof (cases rule: upsert_cases)
    case same
    with ok Pair show ?thesis by simp
  next
    case inserted
    with ok Pair no_session_row show ?thesis by (auto simp: sessions_ok_def inserted_session_def)
  next
    case (updated row)
    with ok Pair show ?thesis by (auto simp: sessions_ok_def map_if_key simp del: map_map split: if_splits intro: order_trans)
  qed
qed

lemma upsert_keeps_rows:
  assumes "session_row_of i db = Some r"
  shows "\<exists>r'. session_row_of i (fst (upsert_session now v n db)) = Some r' \<and> sw_rowVersion r \<le> sw_rowVersion r'"
proof (cases "upsert_session now v n db")
  case (Pair db' x)
  then show ?thesis
    by (cases rule: upsert_cases) (use assms Pair in \<open>auto simp: row_of_inserted row_of_updated\<close>)
qed

lemma upsert_turns [simp]: "ad_turns (fst (upsert_session now v n db)) = ad_turns db"
  by (simp add: upsert_session_def split: option.splits)

lemma write_turn_sessions [simp]:
  "ad_sessions (fst (write_turn pg v r db)) = ad_sessions db" "ad_runs (fst (write_turn pg v r db)) = ad_runs db"
  "ad_sessions (fst (save_turn pg v db)) = ad_sessions db" "ad_runs (fst (save_turn pg v db)) = ad_runs db"
  "ad_sessions (fst (saveIfCurrent pg v n db)) = ad_sessions db" "ad_runs (fst (saveIfCurrent pg v n db)) = ad_runs db"
  by (simp_all add: write_turn_def save_turn_def saveIfCurrent_def split: option.splits)

lemma row_of_turn_write [simp]:
  "session_row_of i (db\<lparr>ad_turns := ts\<rparr>) = session_row_of i db"
  by (simp add: session_row_of_def)

lemma slot_free:
  assumes "\<not> slot_taken i sid s db" and "active_turn_status s"
    and "r \<in> set (ad_turns db)" and "tw_sessionId r = sid" and "active_turn_status (tw_status r)"
  shows "tw_id r = i"
  using assms by (auto simp: slot_taken_def active_turns_def list_ex_iff)

lemma one_active_written:
  assumes "one_active (ad_turns db)" and "distinct (map tw_id (ad_turns db))" and "r \<in> set (ad_turns db)" and "tw_id r = at_id v"
    and "\<not> slot_taken (at_id v) (tw_sessionId r) (at_status v) db"
  shows "one_active (map (\<lambda>x. if tw_id x = at_id v then updated_turn pg v x else x) (ad_turns db))"
proof -
  have same: "x = r" if "x \<in> set (ad_turns db)" "tw_id x = at_id v" for x
    using that assms(2,3,4) by (metis distinct_map inj_onD)
  have free: "tw_id x = at_id v" if "active_turn_status (at_status v)" "x \<in> set (ad_turns db)" "tw_sessionId x = tw_sessionId r"
    "active_turn_status (tw_status x)" for x using slot_free [OF assms(5)] that by blast
  let ?f = "\<lambda>x. if tw_id x = at_id v then updated_turn pg v x else x"
  have ids: "tw_id x = tw_id y" if x: "x \<in> set (ad_turns db)" and y: "y \<in> set (ad_turns db)" and "tw_sessionId (?f x) = tw_sessionId (?f y)"
    "active_turn_status (tw_status (?f x))" "active_turn_status (tw_status (?f y))" for x y
  proof (cases "tw_id x = at_id v"; cases "tw_id y = at_id v")
    assume "tw_id x = at_id v" "tw_id y \<noteq> at_id v"
    with that same [OF x] free [OF _ y] show ?thesis by simp
  next
    assume "tw_id x \<noteq> at_id v" "tw_id y = at_id v"
    with that same [OF y] free [OF _ x] show ?thesis by simp
  next
    assume "tw_id x \<noteq> at_id v" "tw_id y \<noteq> at_id v"
    with that have "tw_sessionId x = tw_sessionId y" "active_turn_status (tw_status x)" "active_turn_status (tw_status y)" by simp_all
    with assms(1) x y show ?thesis unfolding one_active_def by blast
  qed simp
  have "tw_id (?f x) = tw_id (?f y)" if "x \<in> set (ad_turns db)" "y \<in> set (ad_turns db)" "tw_sessionId (?f x) = tw_sessionId (?f y)"
    "active_turn_status (tw_status (?f x))" "active_turn_status (tw_status (?f y))" for x y using ids [OF that] by simp
  then show ?thesis unfolding one_active_def set_map ball_simps(9) by (intro ballI impI; elim conjE)
qed

lemma write_turn_ok:
  assumes "turns_ok db" and "turn_row_of (at_id v) db = Some r"
  shows "turns_ok (fst (write_turn pg v r db))"
proof (cases "slot_taken (at_id v) (tw_sessionId r) (at_status v) db")
  case True
  with assms(1) show ?thesis by (simp add: write_turn_def)
next
  case False
  from assms(2) have r: "r \<in> set (ad_turns db)" "tw_id r = at_id v"
    using find_sound [of "\<lambda>r. tw_id r = at_id v"] by (auto simp: turn_row_of_def)
  with assms(1) one_active_written [of db r v pg] False show ?thesis
    by (auto simp: turns_ok_def write_turn_def map_if_key simp del: map_map)
qed

lemma save_turn_ok:
  assumes "turns_ok db"
  shows "turns_ok (fst (save_turn pg v db))"
proof (cases "turn_row_of (at_id v) db")
  case (Some r)
  with assms write_turn_ok [OF assms Some] show ?thesis by (simp add: save_turn_def)
next
  case None
  then have new: "at_id v \<notin> tw_id ` set (ad_turns db)" by (auto simp: turn_row_of_def find_None_iff)
  show ?thesis
  proof (cases "fst (save_turn pg v db) = db")
    case False
    with None have free: "\<not> slot_taken (at_id v) (at_sessionId v) (at_status v) db"
      and keys: "\<forall>r \<in> set (ad_turns db). tw_commandKey r \<noteq> at_commandKey v \<and> (tw_sessionId r = at_sessionId v \<longrightarrow> tw_turnIndex r \<noteq> at_ordinal v - 1)"
      and fk: "session_row_of (at_sessionId v) db \<noteq> None"
      and db': "fst (save_turn pg v db) = db\<lparr>ad_turns := ad_turns db @ [inserted_turn pg v]\<rparr>"
      by (auto simp: save_turn_def list_ex_iff split: if_splits)
    have idle: "\<not> active_turn_status (tw_status r)"
      if "active_turn_status (at_status v)" "r \<in> set (ad_turns db)" "tw_sessionId r = at_sessionId v" for r
      using slot_free [OF free, of r] new that by (metis image_eqI)
    have "one_active (ad_turns db @ [inserted_turn pg v])"
      unfolding one_active_def
    proof (intro ballI impI; elim conjE)
      fix x y assume "x \<in> set (ad_turns db @ [inserted_turn pg v])" "y \<in> set (ad_turns db @ [inserted_turn pg v])"
        and a: "tw_sessionId x = tw_sessionId y" "active_turn_status (tw_status x)" "active_turn_status (tw_status y)"
      then consider "x \<in> set (ad_turns db)" "y \<in> set (ad_turns db)" | "x = y" | "x = inserted_turn pg v" "y \<in> set (ad_turns db)"
        | "y = inserted_turn pg v" "x \<in> set (ad_turns db)" by auto
      then show "tw_id x = tw_id y"
      proof cases
        case 1
        with a assms show ?thesis unfolding turns_ok_def one_active_def by blast
      next
        case 3
        with a idle [of y] show ?thesis by (simp add: inserted_turn_def)
      next
        case 4
        with a idle [of x] show ?thesis by (simp add: inserted_turn_def)
      qed simp
    qed
    moreover have "distinct (map tw_commandKey (ad_turns db @ [inserted_turn pg v]))" "distinct (map tw_id (ad_turns db @ [inserted_turn pg v]))"
      "distinct (map (\<lambda>r. (tw_sessionId r, tw_turnIndex r)) (ad_turns db @ [inserted_turn pg v]))"
      using assms keys new by (auto simp: turns_ok_def inserted_turn_def image_iff)
    ultimately show ?thesis using assms fk unfolding db' turns_ok_def by (auto simp: inserted_turn_def)
  qed (use assms in simp)
qed

lemma saveIfCurrent_ok: "turns_ok db \<Longrightarrow> turns_ok (fst (saveIfCurrent pg v n db))"
  by (auto simp: saveIfCurrent_def write_turn_ok split: option.splits)

lemma turns_ok_upsert:
  assumes "turns_ok db"
  shows "turns_ok (fst (upsert_session now v n db))"
  using assms upsert_keeps_rows [of _ db _ now v n] unfolding turns_ok_def upsert_turns by (metis not_None_eq)

lemma sessions_ok_turns: "ad_sessions db' = ad_sessions db \<Longrightarrow> ad_runs db' = ad_runs db \<Longrightarrow> sessions_ok db' = sessions_ok db"
  by (simp add: sessions_ok_def)

lemma agent_apply_ok: "sessions_ok db \<and> turns_ok db \<Longrightarrow> sessions_ok (agent_apply pg op db) \<and> turns_ok (agent_apply pg op db)"
  using sessions_ok_turns [of "agent_apply pg op db" db]
  by (cases op) (simp_all add: upsert_ok turns_ok_upsert save_turn_ok saveIfCurrent_ok)

lemma agent_run_ok: "sessions_ok db \<and> turns_ok db \<Longrightarrow> sessions_ok (agent_run pg ops db) \<and> turns_ok (agent_run pg ops db)"
  unfolding agent_run_def
proof (induction ops arbitrary: db)
  case (Cons op ops)
  from Cons.IH [OF agent_apply_ok [OF Cons.prems]] show ?case by simp
qed simp

lemma countActive_le: "turns_ok db \<Longrightarrow> countActive sid db \<le> 1"
proof -
  assume ok: "turns_ok db"
  have d: "distinct (map tw_id (active_turns sid db))" using ok by (simp add: turns_ok_def active_turns_def distinct_map_filter)
  have same: "tw_id x = tw_id y" if "x \<in> set (active_turns sid db)" "y \<in> set (active_turns sid db)" for x y
  proof -
    from ok have "one_active (ad_turns db)" by (simp add: turns_ok_def)
    moreover from that have "x \<in> set (ad_turns db)" "y \<in> set (ad_turns db)" "tw_sessionId x = tw_sessionId y"
      "active_turn_status (tw_status x)" "active_turn_status (tw_status y)" by (simp_all add: active_turns_def)
    ultimately show ?thesis unfolding one_active_def by blast
  qed
  show ?thesis
  proof (cases "active_turns sid db")
    case (Cons x xs)
    with same [of x] d show ?thesis by (cases xs) (simp_all add: countActive_def)
  qed (simp add: countActive_def)
qed

text \<open>
  Property C34.  One active turn: whatever sessions and turns were saved by whatever workers since the tables were
  empty, in whatever order the statements were serialized, each session has at most one turn
  that is not finished, and command keys and ordinals are not used twice.
\<close>

theorem one_active_turn_per_session:
  "let db = agent_run pg ops (empty_agent_db runs) in
   countActive sid db \<le> 1 \<and> distinct (map tw_commandKey (ad_turns db)) \<and> distinct (map sw_commandKey (ad_sessions db)) \<and>
   distinct (map (\<lambda>r. (tw_sessionId r, tw_turnIndex r)) (ad_turns db))"
proof -
  have "sessions_ok (empty_agent_db runs) \<and> turns_ok (empty_agent_db runs)"
    by (simp add: empty_agent_db_def sessions_ok_def turns_ok_def one_active_def)
  from agent_run_ok [OF this, of pg ops] countActive_le [of "agent_run pg ops (empty_agent_db runs)" sid]
  show ?thesis by (simp add: Let_def sessions_ok_def turns_ok_def)
qed

section \<open>Versions\<close>

definition session_version :: "agent_db \<Rightarrow> string \<Rightarrow> int option" where
  "session_version db i = map_option sw_rowVersion (session_row_of i db)"

definition cas_session :: "string \<Rightarrow> agent_db \<Rightarrow> string \<Rightarrow> int \<Rightarrow> agent_session \<Rightarrow> agent_db \<times> bool" where
  "cas_session now db i n v = (case upsert_session now (v\<lparr>as_id := i\<rparr>) n db of (db', r) \<Rightarrow> (db', r = Inr True))"

interpretation agent_sessions: versioned_store "cas_session now" session_version sessions_ok
proof
  fix s k n u
  assume "sessions_ok s"
  then show "sessions_ok (fst (cas_session now s k n u))"
    using upsert_ok [of s now "u\<lparr>as_id := k\<rparr>" n] by (simp add: cas_session_def case_prod_unfold)
next
  fix s k n u s' v
  assume "cas_session now s k n u = (s', True)" and v: "session_version s k = Some v"
  then have "upsert_session now (u\<lparr>as_id := k\<rparr>) n s = (s', Inr True)" by (auto simp: cas_session_def split: prod.splits)
  then show "v = n \<and> session_version s' k = Some (n + 1)"
    by (cases rule: upsert_cases) (use v in \<open>auto simp: session_version_def row_of_updated\<close>)
next
  fix s k n u s'
  assume "cas_session now s k n u = (s', False)"
  then obtain r where "upsert_session now (u\<lparr>as_id := k\<rparr>) n s = (s', r)" "r \<noteq> Inr True" by (auto simp: cas_session_def split: prod.splits)
  then show "s' = s" by (auto elim: upsert_cases)
next
  fix s k n u s' b k'
  assume "cas_session now s k n u = (s', b)" and other: "k' \<noteq> k"
  then obtain r where "upsert_session now (u\<lparr>as_id := k\<rparr>) n s = (s', r)" by (auto simp: cas_session_def split: prod.splits)
  then show "session_version s' k' = session_version s k'"
    by (cases rule: upsert_cases) (use other in \<open>auto simp: session_version_def row_of_inserted row_of_updated option.map_comp o_def split: option.splits\<close>)
qed

definition turn_version :: "agent_db \<Rightarrow> string \<Rightarrow> int option" where
  "turn_version db i = map_option tw_rowVersion (turn_row_of i db)"

definition cas_turn :: "(string \<Rightarrow> string) \<Rightarrow> agent_db \<Rightarrow> string \<Rightarrow> int \<Rightarrow> agent_turn \<Rightarrow> agent_db \<times> bool" where
  "cas_turn pg db i n v = (case saveIfCurrent pg (v\<lparr>at_id := i\<rparr>) n db of (db', r) \<Rightarrow> (db', r = Inr True))"

lemma turn_row_updated:
  "turn_row_of i (db\<lparr>ad_turns := map (\<lambda>x. if tw_id x = j then updated_turn pg v x else x) (ad_turns db)\<rparr>) =
    map_option (\<lambda>r. if i = j then updated_turn pg v r else r) (turn_row_of i db)"
proof -
  have "turn_row_of i (db\<lparr>ad_turns := map (\<lambda>x. if tw_id x = j then updated_turn pg v x else x) (ad_turns db)\<rparr>) =
      map_option (\<lambda>x. if tw_id x = j then updated_turn pg v x else x) (turn_row_of i db)"
    by (simp add: turn_row_of_def, intro find_map_keep) simp
  moreover have "tw_id r = i" if "turn_row_of i db = Some r" for r using find_sound [of "\<lambda>r. tw_id r = i"] that by (auto simp: turn_row_of_def)
  ultimately show ?thesis by (cases "turn_row_of i db") auto
qed

lemma saveIfCurrent_cases:
  assumes "saveIfCurrent pg v n db = (db', r)"
  obtains (same) "db' = db" and "r \<noteq> Inr True"
  | (written) row where "turn_row_of (at_id v) db = Some row" and "r = Inr True" and "tw_rowVersion row = n"
      and "db' = db\<lparr>ad_turns := map (\<lambda>x. if tw_id x = at_id v then updated_turn pg v x else x) (ad_turns db)\<rparr>"
proof (cases "r = Inr True")
  case False
  with assms have "db' = db" by (simp add: saveIfCurrent_def write_turn_def split: option.splits if_split_asm)
  with False show thesis by (intro same)
next
  case True
  with assms obtain row where "turn_row_of (at_id v) db = Some row" "tw_rowVersion row = n" "write_turn pg v row db = (db', Inr True)"
    by (simp add: saveIfCurrent_def split: option.splits if_split_asm)
  with True show thesis by (intro written) (simp_all add: write_turn_def split: if_split_asm)
qed

interpretation agent_turns: versioned_store "cas_turn pg" turn_version turns_ok
proof
  fix s k n u
  assume "turns_ok s"
  then show "turns_ok (fst (cas_turn pg s k n u))"
    using saveIfCurrent_ok [of s pg "u\<lparr>at_id := k\<rparr>" n] by (simp add: cas_turn_def case_prod_unfold)
next
  fix s k n u s' v
  assume "cas_turn pg s k n u = (s', True)" and v: "turn_version s k = Some v"
  then have "saveIfCurrent pg (u\<lparr>at_id := k\<rparr>) n s = (s', Inr True)" by (auto simp: cas_turn_def split: prod.splits)
  then show "v = n \<and> turn_version s' k = Some (n + 1)"
    by (cases rule: saveIfCurrent_cases) (use v in \<open>auto simp: turn_version_def turn_row_updated\<close>)
next
  fix s k n u s'
  assume "cas_turn pg s k n u = (s', False)"
  then obtain r where "saveIfCurrent pg (u\<lparr>at_id := k\<rparr>) n s = (s', r)" "r \<noteq> Inr True" by (auto simp: cas_turn_def split: prod.splits)
  then show "s' = s" by (auto elim: saveIfCurrent_cases)
next
  fix s k n u s' b k'
  assume "cas_turn pg s k n u = (s', b)" and other: "k' \<noteq> k"
  then obtain r where "saveIfCurrent pg (u\<lparr>at_id := k\<rparr>) n s = (s', r)" by (auto simp: cas_turn_def split: prod.splits)
  then show "turn_version s' k' = turn_version s k'"
    by (cases rule: saveIfCurrent_cases) (use other in \<open>auto simp: turn_version_def turn_row_updated option.map_comp o_def\<close>)
qed

lemma run_keeps_session_rows:
  "session_row_of i db = Some r \<Longrightarrow> \<exists>r'. session_row_of i (agent_run pg ops db) = Some r' \<and> sw_rowVersion r \<le> sw_rowVersion r'"
  unfolding agent_run_def
proof (induction ops arbitrary: db r)
  case (Cons op ops)
  have "\<exists>m. session_row_of i (agent_apply pg op db) = Some m \<and> sw_rowVersion r \<le> sw_rowVersion m"
  proof (cases op)
    case (AO_session now v n)
    with upsert_keeps_rows [OF Cons.prems] show ?thesis by simp
  qed (use Cons.prems in \<open>simp_all add: session_row_of_def\<close>)
  then obtain m where "session_row_of i (agent_apply pg op db) = Some m" "sw_rowVersion r \<le> sw_rowVersion m" by blast
  with Cons.IH [of "agent_apply pg op db" m] show ?case by (auto intro: order_trans)
qed simp

text \<open>
  A reservation is exclusive: after a session was saved at version zero, which only inserts,
  no later save of that session at version zero takes effect, whatever was saved in between.
\<close>

lemma reservation_inserts:
  assumes "sessions_ok db" and "upsert_session now v 0 db = (db', Inr True)"
  shows "session_row_of (as_id v) db = None \<and> session_row_of (as_id v) db' = Some (inserted_session now v)"
  using assms(2)
proof (cases rule: upsert_cases)
  case inserted
  then show ?thesis by (simp add: row_of_inserted)
next
  case (updated row)
  with assms(1) row_in_sessions [of "as_id v" db row] show ?thesis by (auto simp: sessions_ok_def)
qed simp

lemma reserved_session_refuses:
  assumes "session_row_of (as_id v) db = Some r" and "1 \<le> sw_rowVersion r"
  shows "snd (upsert_session now v 0 (agent_run pg ops db)) = Inr False"
proof -
  from run_keeps_session_rows [OF assms(1)] obtain r' where "session_row_of (as_id v) (agent_run pg ops db) = Some r'" "sw_rowVersion r \<le> sw_rowVersion r'" by blast
  with assms(2) show ?thesis by (simp add: upsert_session_def)
qed

section \<open>What the stores do not protect\<close>

text \<open>
  The unconditional save of a turn revives it: after a worker cancelled an active turn with a guarded
  write, a save by a worker that still holds the old record makes the turn RUNNING again (ordinals start at one).
\<close>

theorem save_revives_cancelled_turn:
  assumes "turns_ok db" and "turn_row_of (at_id t) db = Some r" and "active_turn_status (tw_status r)"
    and "at_status cancelled = TS_CANCELLED" and "at_id cancelled = at_id t" and "at_status t = TS_RUNNING" and "1 \<le> at_ordinal t"
  shows "\<exists>db' db''. saveIfCurrent pg cancelled (tw_rowVersion r) db = (db', Inr True) \<and>
    map_option at_status (get_turn (at_id t) db') = Some TS_CANCELLED \<and>
    save_turn pg t db' = (db'', Inr True) \<and> map_option at_status (get_turn (at_id t) db'') = Some TS_RUNNING"
proof -
  let ?f = "\<lambda>x. if tw_id x = at_id t then updated_turn pg cancelled x else x"
  let ?db = "db\<lparr>ad_turns := map ?f (ad_turns db)\<rparr>"
  have c: "saveIfCurrent pg cancelled (tw_rowVersion r) db = (?db, Inr True)"
    using assms by (simp add: saveIfCurrent_def write_turn_def slot_taken_def active_turn_status_def)
  have row: "turn_row_of (at_id t) ?db = Some (updated_turn pg cancelled r)" using assms(2) by (simp add: turn_row_updated)
  from assms(2) have r: "r \<in> set (ad_turns db)" "tw_id r = at_id t"
    using find_sound [of "\<lambda>r. tw_id r = at_id t"] by (auto simp: turn_row_of_def)
  have "tw_id x = at_id t" if "x \<in> set (ad_turns db)" "tw_sessionId x = tw_sessionId r" "active_turn_status (tw_status x)" for x
    using assms(1,3) r that unfolding turns_ok_def one_active_def by metis
  then have "\<not> slot_taken (at_id t) (tw_sessionId r) TS_RUNNING ?db"
    by (auto simp: slot_taken_def active_turns_def list_ex_iff split: if_splits)
  then have s: "save_turn pg t ?db = (?db\<lparr>ad_turns := map (\<lambda>x. if tw_id x = at_id t then updated_turn pg t x else x) (ad_turns ?db)\<rparr>, Inr True)"
    using assms(6,7) by (simp add: save_turn_def row write_turn_def)
  have g: "map_option at_status (get_turn (at_id t) ?db) = Some TS_CANCELLED"
    using assms(4) by (simp add: get_turn_def row turn_of_def)
  have g': "map_option at_status (get_turn (at_id t) (?db\<lparr>ad_turns := map (\<lambda>x. if tw_id x = at_id t then updated_turn pg t x else x) (ad_turns ?db)\<rparr>)) = Some TS_RUNNING"
    unfolding get_turn_def turn_row_updated using assms(2,6) by (simp add: turn_of_def)
  show ?thesis by (intro exI conjI, rule c, rule g, rule s, rule g')
qed

text \<open>
  The record a save hands out may be another worker's: when another save of the session falls
  between the statement and the query that reads the result back, the answer carries the status
  and version of that save, and a following save at this version takes effect over it.
\<close>

theorem save_hands_out_foreign_version:
  assumes "sessions_ok db" and "session_row_of (as_id a) db = Some r"
    and "as_id b = as_id a" and "as_id c = as_id a"
    and "as_providerSessionId a = None" and "as_providerSessionId b = None" and "as_providerSessionId c = None"
  shows "\<exists>db' db'' s. save_session (\<lambda>d. fst (upsert_session now' b (sw_rowVersion r + 1) d)) now a (sw_rowVersion r) db = (db', Inr (Some s)) \<and>
    as_status s = as_status b \<and> as_version s = sw_rowVersion r + 2 \<and>
    upsert_session now'' c (as_version s) db' = (db'', Inr True)"
proof -
  let ?upd = "\<lambda>now v (d :: agent_db). d\<lparr>ad_sessions := map (\<lambda>x. if sw_id x = as_id a then updated_session now v x else x) (ad_sessions d)\<rparr>"
  have up: "upsert_session n v (sw_rowVersion x) d = (?upd n v d, Inr True)"
    if "session_row_of (as_id a) d = Some x" "as_id v = as_id a" "as_providerSessionId v = None" for n v x d
    using that by (simp add: upsert_session_def provider_taken_def)
  have row: "session_row_of (as_id a) (?upd n v d) = Some (updated_session n v x)" if "session_row_of (as_id a) d = Some x" for n v x d
    using that by (simp add: row_of_updated)
  note ra = row [OF assms(2), of now a]
  note rb = row [OF ra, of now' b]
  have ub: "upsert_session now' b (sw_rowVersion r + 1) (?upd now a db) = (?upd now' b (?upd now a db), Inr True)"
    using up [OF ra assms(3,6), of now'] by simp
  have uc: "upsert_session now'' c (sw_rowVersion r + 2) (?upd now' b (?upd now a db)) = (?upd now'' c (?upd now' b (?upd now a db)), Inr True)"
    using up [OF rb assms(4,7), of now''] by (simp add: add.assoc)
  from assms(1,2) row_in_sessions obtain repo where "map_of (ad_runs db) (sw_runId r) = Some repo" by (fastforce simp: sessions_ok_def)
  then have g: "get_session (as_id a) (?upd now' b (?upd now a db)) = Some (session_of repo (updated_session now' b (updated_session now a r)))"
    using rb by (simp add: get_session_def joined_def)
  let ?s = "session_of repo (updated_session now' b (updated_session now a r))"
  have st: "as_status ?s = as_status b" "as_version ?s = sw_rowVersion r + 2" by (simp_all add: session_of_def)
  have saved: "save_session (\<lambda>d. fst (upsert_session now' b (sw_rowVersion r + 1) d)) now a (sw_rowVersion r) db =
      (?upd now' b (?upd now a db), Inr (Some (session_of repo (updated_session now' b (updated_session now a r)))))"
    using up [OF assms(2) refl assms(5), of now] ub g by (simp add: save_session_def)
  show ?thesis by (intro exI conjI, rule saved, rule st(1), rule st(2), subst st(2), rule uc)
qed

section \<open>Concrete tables\<close>

definition sample_session :: agent_session where
  "sample_session =
     \<lparr>as_id = ''s'', as_workflowRunId = ''run'', as_repositoryId = ''repo'', as_agentDefinitionId = ''d'', as_agentVersion = ''1'',
      as_provider = ''trueforge'', as_contractSnapshotDigest = ''h'', as_providerSessionId = None, as_providerThreadId = None,
      as_status = SS_CREATING, as_currentTurnId = None, as_cancellationGeneration = 0, as_version = 0, as_startedAtIso = ''t'',
      as_updatedAtIso = ''t'', as_commandKey = ''k''\<rparr>"

definition sample_turn :: "turn_status \<Rightarrow> agent_turn" where
  "sample_turn st =
     \<lparr>at_id = ''t'', at_sessionId = ''s'', at_ordinal = 1, at_purpose = TP_WORKFLOW, at_commandKey = ''c'', at_inputDigest = ''h'',
      at_toolProfileId = ''p'', at_status = st, at_providerTurnId = None, at_providerTerminalReason = None, at_finalResponseDigest = None,
      at_errorCode = None, at_startedAtIso = ''t'', at_completedAtIso = None, at_version = None\<rparr>"

definition sample_agent_db :: agent_db where
  "sample_agent_db = \<lparr>ad_runs = [(''run'', ''repo'')], ad_sessions = [inserted_session ''t'' sample_session], ad_turns = [inserted_turn id (sample_turn TS_SUBMITTING)]\<rparr>"

lemma sample_agent_ok: "sessions_ok sample_agent_db \<and> turns_ok sample_agent_db"
  by (simp add: sessions_ok_def turns_ok_def one_active_def sample_agent_db_def inserted_session_def inserted_turn_def sample_turn_def
      session_row_of_def sample_session_def)

theorem save_revives_cancelled_turn_witness:
  "\<exists>db' db''. saveIfCurrent id (sample_turn TS_CANCELLED) 1 sample_agent_db = (db', Inr True) \<and>
     save_turn id (sample_turn TS_RUNNING) db' = (db'', Inr True) \<and> map_option at_status (get_turn ''t'' db'') = Some TS_RUNNING"
proof -
  let ?r = "inserted_turn id (sample_turn TS_SUBMITTING)"
  have "turn_row_of (at_id (sample_turn TS_RUNNING)) sample_agent_db = Some ?r"
    by (simp add: turn_row_of_def sample_agent_db_def inserted_turn_def sample_turn_def)
  moreover have "active_turn_status (tw_status ?r)" "tw_rowVersion ?r = 1"
    by (simp_all add: inserted_turn_def sample_turn_def active_turn_status_def)
  ultimately show ?thesis
    using save_revives_cancelled_turn [of sample_agent_db "sample_turn TS_RUNNING" ?r "sample_turn TS_CANCELLED" id] sample_agent_ok
    by (auto simp: sample_turn_def)
qed

theorem save_hands_out_foreign_version_witness:
  "\<exists>db' db'' s. save_session (\<lambda>d. fst (upsert_session ''u'' (sample_session\<lparr>as_status := SS_CANCELLING\<rparr>) 2 d)) ''t''
     (sample_session\<lparr>as_status := SS_TURN_ACTIVE\<rparr>) 1 sample_agent_db = (db', Inr (Some s)) \<and> as_status s = SS_CANCELLING \<and>
     upsert_session ''v'' (sample_session\<lparr>as_status := SS_READY\<rparr>) (as_version s) db' = (db'', Inr True)"
proof -
  let ?r = "inserted_session ''t'' sample_session"
  have "session_row_of ''s'' sample_agent_db = Some ?r" "sw_rowVersion ?r = 1"
    by (simp_all add: session_row_of_def sample_agent_db_def inserted_session_def sample_session_def)
  then show ?thesis
    using save_hands_out_foreign_version [of sample_agent_db "sample_session\<lparr>as_status := SS_TURN_ACTIVE\<rparr>" ?r
        "sample_session\<lparr>as_status := SS_CANCELLING\<rparr>" "sample_session\<lparr>as_status := SS_READY\<rparr>" "''u''" "''t''" "''v''"] sample_agent_ok
    by (auto simp: sample_session_def)
qed

end
