(* ===== verification/Agent_Sessions.thy ===== *)
theory Agent_Sessions
  imports Agent_Store Canonical_Json
begin

text \<open>
  The agent session service, \<open>packages/agent/src/sessions/agent-session-service.ts\<close>, over the ports it is
  constructed with: the provider runtime, the two stores, the event sink, the clock and the id
  generator, each of which may answer anything, throw and change the world.  A runtime answer is
  \<open>Inl\<close> of its error code or \<open>Inr\<close> of its value; a store's \<open>None\<close> is a version conflict.
\<close>

datatype agent_call =
    AC_CreateSession string string
  | AC_CreateTurn string int
  | AC_GetTurnStatus string string
  | AC_CancelSession string
  | AC_CancelTurn string string
  | AC_SessionGet string
  | AC_SessionFind string
  | AC_SessionSave agent_session int
  | AC_TurnGet string
  | AC_TurnFind string
  | AC_CountActive string
  | AC_NextOrdinal string
  | AC_TurnSave agent_turn
  | AC_TurnSaveIf agent_turn int
  | AC_Emit string string json

record 'w agent_ports =
  ag_createSession :: "string \<Rightarrow> string \<Rightarrow> ('w, string + string \<times> string option) port"
  ag_createTurn :: "string \<Rightarrow> int \<Rightarrow> ('w, string + string) port"
  ag_getTurnStatus :: "string \<Rightarrow> string \<Rightarrow> ('w, string + string \<times> string option) port"
  ag_cancelSession :: "(string \<Rightarrow> ('w, string + bool) port) option"
  ag_cancelTurn :: "(string \<Rightarrow> string \<Rightarrow> ('w, string + bool) port) option"
  ag_sessionGet :: "string \<Rightarrow> ('w, agent_session option) port"
  ag_sessionFind :: "string \<Rightarrow> ('w, agent_session option) port"
  ag_sessionSave :: "agent_session \<Rightarrow> int \<Rightarrow> ('w, agent_session option) port"
  ag_turnGet :: "string \<Rightarrow> ('w, agent_turn option) port"
  ag_turnFind :: "string \<Rightarrow> ('w, agent_turn option) port"
  ag_countActive :: "string \<Rightarrow> ('w, int) port"
  ag_nextOrdinal :: "string \<Rightarrow> ('w, int) port"
  ag_turnSave :: "agent_turn \<Rightarrow> ('w, unit) port"
  ag_turnSaveIf :: "(agent_turn \<Rightarrow> int \<Rightarrow> ('w, bool) port) option"
  ag_emit :: "string \<Rightarrow> string \<Rightarrow> json \<Rightarrow> ('w, unit) port"
  ag_nowIso :: "'w \<Rightarrow> 'w \<times> string"
  ag_randomUUID :: "'w \<Rightarrow> 'w \<times> string"
  ag_agentVersion :: string

type_synonym ('w, 'a) agent_eff = "('w, agent_call, 'a) eff"

section \<open>Helpers\<close>

fun session_status_str :: "session_status \<Rightarrow> string" where
  "session_status_str SS_CREATING = ''CREATING''"
| "session_status_str SS_READY = ''READY''"
| "session_status_str SS_TURN_ACTIVE = ''TURN_ACTIVE''"
| "session_status_str SS_CANCELLING = ''CANCELLING''"
| "session_status_str SS_CANCELLED = ''CANCELLED''"
| "session_status_str SS_COMPLETED = ''COMPLETED''"
| "session_status_str SS_FAILED = ''FAILED''"
| "session_status_str SS_RECONCILING = ''RECONCILING''"

definition refOf :: "agent_session \<Rightarrow> agent_session_ref" where
  "refOf s = \<lparr>sr_sessionId = as_id s, sr_provider = as_provider s, sr_providerSessionId = as_providerSessionId s,
     sr_providerThreadId = as_providerThreadId s, sr_providerVersion = as_agentVersion s, sr_status = as_status s\<rparr>"

definition refOfTurn :: "agent_turn \<Rightarrow> agent_turn_ref" where
  "refOfTurn t = \<lparr>tf_turnId = at_id t, tf_sessionId = at_sessionId t, tf_ordinal = at_ordinal t,
     tf_providerTurnId = at_providerTurnId t, tf_status = at_status t\<rparr>"

definition mapProviderTurnStatus :: "string \<Rightarrow> turn_status" where
  "mapProviderTurnStatus status =
     (let s = js_lower status in
      if s \<in> {''completed'', ''succeeded'', ''success''} then TS_SUCCEEDED
      else if s \<in> {''failed'', ''error''} then TS_FAILED
      else if s \<in> {''cancelled'', ''canceled''} then TS_CANCELLED
      else if s \<in> {''paused'', ''waiting_for_action''} then TS_PAUSED
      else if s \<in> {''running'', ''in_progress'', ''queued''} then TS_RUNNING
      else TS_RECONCILING)"

definition now_iso :: "'w agent_ports \<Rightarrow> ('w, string) agent_eff" where
  "now_iso ports = fresh_id (ag_nowIso ports)"

definition emit_event :: "'w agent_ports \<Rightarrow> string \<Rightarrow> string \<Rightarrow> (string \<times> json) list \<Rightarrow> ('w, unit) agent_eff" where
  "emit_event ports type i payload = callE (AC_Emit type i (JObj payload)) (ag_emit ports type i (JObj payload))"

definition get_sessionE :: "'w agent_ports \<Rightarrow> string \<Rightarrow> ('w, agent_session option) agent_eff" where
  "get_sessionE ports i = callE (AC_SessionGet i) (ag_sessionGet ports i)"

definition find_sessionE :: "'w agent_ports \<Rightarrow> string \<Rightarrow> ('w, agent_session option) agent_eff" where
  "find_sessionE ports k = callE (AC_SessionFind k) (ag_sessionFind ports k)"

definition save_sessionE :: "'w agent_ports \<Rightarrow> agent_session \<Rightarrow> int \<Rightarrow> ('w, agent_session option) agent_eff" where
  "save_sessionE ports s n = callE (AC_SessionSave s n) (ag_sessionSave ports s n)"

definition get_turnE :: "'w agent_ports \<Rightarrow> string \<Rightarrow> ('w, agent_turn option) agent_eff" where
  "get_turnE ports i = callE (AC_TurnGet i) (ag_turnGet ports i)"

definition find_turnE :: "'w agent_ports \<Rightarrow> string \<Rightarrow> ('w, agent_turn option) agent_eff" where
  "find_turnE ports k = callE (AC_TurnFind k) (ag_turnFind ports k)"

definition save_turnE :: "'w agent_ports \<Rightarrow> agent_turn \<Rightarrow> ('w, unit) agent_eff" where
  "save_turnE ports t = callE (AC_TurnSave t) (ag_turnSave ports t)"

lemmas agent_call_defs = get_sessionE_def find_sessionE_def save_sessionE_def get_turnE_def find_turnE_def save_turnE_def emit_event_def now_iso_def

section \<open>Sessions\<close>

definition known_session :: "agent_session \<Rightarrow> ('w, agent_session_ref) agent_eff" where
  "known_session s = (if as_status s = SS_FAILED then throwE (made_with ''SESSION_FAILED'' [as_id s]) else retE (refOf s))"

definition create_provider_session :: "'w agent_ports \<Rightarrow> agent_session \<Rightarrow> agent_session \<Rightarrow> ('w, agent_session_ref) agent_eff" where
  "create_provider_session ports session reserved =
     bindE (callE (AC_CreateSession (as_provider session) (ag_agentVersion ports))
              (ag_createSession ports (as_provider session) (ag_agentVersion ports))) (\<lambda>created.
       case created of
         Inl code \<Rightarrow>
           bindE (now_iso ports) (\<lambda>t.
           bindE (save_sessionE ports (reserved\<lparr>as_status := SS_FAILED, as_updatedAtIso := t\<rparr>) (as_version reserved)) (\<lambda>_.
           bindE (emit_event ports ''session.state_changed.v1'' (as_id session) [(''status'', JStr ''FAILED'')]) (\<lambda>_.
           throwE (made_with ''SESSION_CREATE_FAILED'' [code]))))
       | Inr (psid, thread) \<Rightarrow>
           bindE (now_iso ports) (\<lambda>t.
           bindE (save_sessionE ports
                    (reserved\<lparr>as_providerSessionId := Some psid, as_providerThreadId := thread, as_status := SS_READY, as_updatedAtIso := t\<rparr>)
                    (as_version reserved)) (\<lambda>saved.
           case saved of
             None \<Rightarrow> throwE (MadeError ''SESSION_VERSION_CONFLICT'')
           | Some s \<Rightarrow>
               bindE (emit_event ports ''session.created.v1'' (as_id session) [(''status'', JStr ''READY'')]) (\<lambda>_. retE (refOf s)))))"

definition new_session :: "(string \<Rightarrow> string) \<Rightarrow> string \<Rightarrow> ensure_session \<Rightarrow> string \<Rightarrow> string \<Rightarrow> agent_session" where
  "new_session sha256 agentVersion req started updated =
     \<lparr>as_id = sessionIdForCommand sha256 (en_commandKey req), as_workflowRunId = en_workflowRunId req, as_repositoryId = en_repositoryId req,
      as_agentDefinitionId = en_agentDefinitionId req, as_agentVersion = agentVersion, as_provider = ''trueforge'',
      as_contractSnapshotDigest = en_contractSnapshotDigest req, as_providerSessionId = None, as_providerThreadId = None,
      as_status = SS_CREATING, as_currentTurnId = None, as_cancellationGeneration = 0, as_version = 0, as_startedAtIso = started,
      as_updatedAtIso = updated, as_commandKey = en_commandKey req\<rparr>"

definition ensureSession ::
  "(string \<Rightarrow> string) \<Rightarrow> (string \<Rightarrow> bool) \<Rightarrow> 'w agent_ports \<Rightarrow> ensure_session \<Rightarrow> ('w, agent_session_ref) agent_eff" where
  "ensureSession sha256 is_uuid ports req =
     (if \<not> ensureAgentSessionSchema is_uuid req then throwE (rejected_details ''VALIDATION_FAILED'')
      else
        bindE (find_sessionE ports (en_commandKey req)) (\<lambda>existing.
        case existing of
          Some s \<Rightarrow> known_session s
        | None \<Rightarrow>
            bindE (now_iso ports) (\<lambda>started.
            bindE (now_iso ports) (\<lambda>updated.
            let session = new_session sha256 (ag_agentVersion ports) req started updated in
            bindE (save_sessionE ports session 0) (\<lambda>reserved.
            case reserved of
              None \<Rightarrow>
                bindE (find_sessionE ports (en_commandKey req)) (\<lambda>concurrent.
                case concurrent of
                  Some s \<Rightarrow> known_session s
                | None \<Rightarrow> throwE (MadeError ''SESSION_VERSION_CONFLICT''))
            | Some r \<Rightarrow> create_provider_session ports session r)))))"

section \<open>Turns\<close>

definition known_turn :: "string \<Rightarrow> agent_turn \<Rightarrow> ('w, agent_turn_ref) agent_eff" where
  "known_turn digest t =
     (if at_inputDigest t \<noteq> digest then throwE (MadeError ''TURN_COMMAND_DIGEST_CONFLICT'') else retE (refOfTurn t))"

definition still_current :: "agent_session \<Rightarrow> agent_turn \<Rightarrow> agent_session option \<Rightarrow> bool" where
  "still_current session turn fresh =
     (case fresh of
        None \<Rightarrow> False
      | Some f \<Rightarrow> as_cancellationGeneration f = as_cancellationGeneration session \<and> \<not> isTerminalSession (as_status f) \<and>
          as_currentTurnId f = Some (at_id turn))"

text \<open>The session's slot is given back; a conflict is ignored.\<close>

definition release_slot :: "'w agent_ports \<Rightarrow> agent_session \<Rightarrow> ('w, agent_session option) agent_eff" where
  "release_slot ports reserved =
     bindE (now_iso ports) (\<lambda>t.
     save_sessionE ports (reserved\<lparr>as_status := SS_READY, as_currentTurnId := None, as_updatedAtIso := t\<rparr>) (as_version reserved))"

definition save_cancelled :: "'w agent_ports \<Rightarrow> agent_turn \<Rightarrow> ('w, unit) agent_eff" where
  "save_cancelled ports t =
     bindE (now_iso ports) (\<lambda>at. save_turnE ports (t\<lparr>at_status := TS_CANCELLED, at_completedAtIso := Some at\<rparr>))"

definition publish_turn :: "'w agent_ports \<Rightarrow> agent_session \<Rightarrow> agent_turn \<Rightarrow> string \<Rightarrow> string \<Rightarrow> ('w, agent_turn_ref) agent_eff" where
  "publish_turn ports session submitting psid ptid =
     bindE (get_sessionE ports (as_id session)) (\<lambda>afterCreate.
     if \<not> still_current session submitting afterCreate then
       bindE (case ag_cancelTurn ports of None \<Rightarrow> retE () | Some cancel \<Rightarrow> bindE (callE (AC_CancelTurn psid ptid) (cancel psid ptid)) (\<lambda>_. retE ())) (\<lambda>_.
       bindE (save_cancelled ports (submitting\<lparr>at_providerTurnId := Some ptid\<rparr>)) (\<lambda>_.
       retE (refOfTurn (submitting\<lparr>at_status := TS_CANCELLED, at_providerTurnId := Some ptid\<rparr>))))
     else
       bindE (save_turnE ports (submitting\<lparr>at_status := TS_RUNNING, at_providerTurnId := Some ptid\<rparr>)) (\<lambda>_.
       bindE (emit_event ports ''turn.started.v1'' (at_id submitting) [(''sessionId'', JStr (as_id session))]) (\<lambda>_.
       retE (refOfTurn (submitting\<lparr>at_status := TS_RUNNING, at_providerTurnId := Some ptid\<rparr>)))))"

definition create_turn :: "'w agent_ports \<Rightarrow> agent_session \<Rightarrow> agent_turn \<Rightarrow> agent_session \<Rightarrow> string \<Rightarrow> ('w, agent_turn_ref) agent_eff" where
  "create_turn ports session submitting reserved psid =
     bindE (callE (AC_CreateTurn psid (at_ordinal submitting)) (ag_createTurn ports psid (at_ordinal submitting))) (\<lambda>created.
     case created of
       Inl code \<Rightarrow>
         bindE (save_turnE ports (submitting\<lparr>at_status := TS_FAILED, at_errorCode := Some code\<rparr>)) (\<lambda>_.
         bindE (release_slot ports reserved) (\<lambda>_.
         bindE (emit_event ports ''turn.state_changed.v1'' (at_id submitting)
                  [(''sessionId'', JStr (as_id session)), (''status'', JStr ''FAILED''), (''errorCode'', JStr code)]) (\<lambda>_.
         throwE (unregistered ''TURN_CREATE_FAILED''))))
     | Inr ptid \<Rightarrow> publish_turn ports session submitting psid ptid)"

definition launch_turn :: "'w agent_ports \<Rightarrow> agent_session \<Rightarrow> agent_turn \<Rightarrow> agent_session \<Rightarrow> string \<Rightarrow> ('w, agent_turn_ref) agent_eff" where
  "launch_turn ports session submitting reserved psid =
     bindE (save_turnE ports submitting) (\<lambda>_.
     bindE (get_sessionE ports (as_id session)) (\<lambda>beforeCreate.
     if \<not> still_current session submitting beforeCreate then
       bindE (save_cancelled ports submitting) (\<lambda>_. retE (refOfTurn (submitting\<lparr>at_status := TS_CANCELLED\<rparr>)))
     else create_turn ports session submitting reserved psid))"

definition with_slot :: "'w agent_ports \<Rightarrow> agent_session \<Rightarrow> agent_turn \<Rightarrow> agent_session option \<Rightarrow> ('w, agent_turn_ref) agent_eff" where
  "with_slot ports session turn slot =
     (case slot of
        None \<Rightarrow> bindE (save_cancelled ports turn) (\<lambda>_. throwE (MadeError ''SESSION_VERSION_CONFLICT''))
      | Some reserved \<Rightarrow>
          (case as_providerSessionId session of
             None \<Rightarrow>
               bindE (save_turnE ports (turn\<lparr>at_status := TS_FAILED, at_errorCode := Some ''SESSION_PROVIDER_MISSING''\<rparr>)) (\<lambda>_.
               bindE (release_slot ports reserved) (\<lambda>_.
               throwE (unregistered ''SESSION_PROVIDER_MISSING'')))
           | Some psid \<Rightarrow> launch_turn ports session (turn\<lparr>at_status := TS_SUBMITTING\<rparr>) reserved psid))"

definition active_session :: "agent_session \<Rightarrow> agent_turn \<Rightarrow> string \<Rightarrow> agent_session" where
  "active_session session turn t = session\<lparr>as_status := SS_TURN_ACTIVE, as_currentTurnId := Some (at_id turn), as_updatedAtIso := t\<rparr>"

definition start_turn :: "'w agent_ports \<Rightarrow> agent_session \<Rightarrow> agent_turn \<Rightarrow> ('w, agent_turn_ref) agent_eff" where
  "start_turn ports session turn =
     bindE (emit_event ports ''turn.requested.v1'' (at_id turn) [(''sessionId'', JStr (at_sessionId turn))]) (\<lambda>_.
     bindE (now_iso ports) (\<lambda>t.
     bindE (save_sessionE ports (active_session session turn t) (as_version session)) (with_slot ports session turn)))"

text \<open>
  The save of the requested turn with its handler: \<open>None\<close> when it was saved, the answer to give when
  a concurrent request won.
\<close>

definition reserve_turn :: "'w agent_ports \<Rightarrow> string \<Rightarrow> agent_turn \<Rightarrow> ('w, agent_turn_ref option) agent_eff" where
  "reserve_turn ports sid turn =
     catchE (bindE (save_turnE ports turn) (\<lambda>_. retE None)) (\<lambda>err.
       bindE (find_turnE ports (at_commandKey turn)) (\<lambda>concurrent.
       case concurrent of
         Some t \<Rightarrow> bindE (known_turn (at_inputDigest turn) t) (\<lambda>ref. retE (Some ref))
       | None \<Rightarrow>
           bindE (callE (AC_CountActive sid) (ag_countActive ports sid)) (\<lambda>n.
           if n > 0 then throwE (MadeError ''SESSION_TURN_ACTIVE'') else throwE err)))"

definition requested_turn :: "(string \<Rightarrow> string) \<Rightarrow> submit_turn \<Rightarrow> string \<Rightarrow> int \<Rightarrow> string \<Rightarrow> agent_turn" where
  "requested_turn sha256 req i ordinal now =
     \<lparr>at_id = i, at_sessionId = st_sessionId req, at_ordinal = ordinal, at_purpose = st_purpose req, at_commandKey = st_commandId req,
      at_inputDigest = sha256 (st_contextDigest req), at_toolProfileId = st_toolProfileId req, at_status = TS_REQUESTED,
      at_providerTurnId = None, at_providerTerminalReason = None, at_finalResponseDigest = None, at_errorCode = None,
      at_startedAtIso = now, at_completedAtIso = None, at_version = None\<rparr>"

definition turn_refusal :: "submit_turn \<Rightarrow> agent_session option \<Rightarrow> js_error option" where
  "turn_refusal req session =
     (case session of
        None \<Rightarrow> Some (MadeError ''SESSION_NOT_FOUND'')
      | Some s \<Rightarrow>
          if isTerminalSession (as_status s) then Some (MadeError ''SESSION_TERMINAL'')
          else if as_cancellationGeneration s \<noteq> st_expectedCancellationGeneration req then Some (MadeError ''TURN_GENERATION_STALE'')
          else if st_purpose req = TP_REQUIRED_ACTION_RESULT \<and> st_linkedPausedTurnId req = None
          then Some (MadeError ''REQUIRED_ACTION_RESULT_LINK_REQUIRED'')
          else None)"

definition begin_turn :: "'w agent_ports \<Rightarrow> agent_session \<Rightarrow> agent_turn \<Rightarrow> ('w, agent_turn_ref) agent_eff" where
  "begin_turn ports session turn =
     bindE (reserve_turn ports (at_sessionId turn) turn) (\<lambda>early. case early of Some ref \<Rightarrow> retE ref | None \<Rightarrow> start_turn ports session turn)"

definition request_turn :: "(string \<Rightarrow> string) \<Rightarrow> 'w agent_ports \<Rightarrow> submit_turn \<Rightarrow> agent_session \<Rightarrow> ('w, agent_turn_ref) agent_eff" where
  "request_turn sha256 ports req session =
     bindE (callE (AC_CountActive (st_sessionId req)) (ag_countActive ports (st_sessionId req))) (\<lambda>active.
     if active \<ge> 1 then throwE (MadeError ''SESSION_TURN_ACTIVE'')
     else
       bindE (callE (AC_NextOrdinal (st_sessionId req)) (ag_nextOrdinal ports (st_sessionId req))) (\<lambda>ordinal.
       bindE (fresh_id (ag_randomUUID ports)) (\<lambda>i.
       bindE (now_iso ports) (\<lambda>now.
       begin_turn ports session (requested_turn sha256 req i ordinal now)))))"

definition submitTurn :: "(string \<Rightarrow> string) \<Rightarrow> 'w agent_ports \<Rightarrow> submit_turn \<Rightarrow> ('w, agent_turn_ref) agent_eff" where
  "submitTurn sha256 ports req =
     (if \<not> submitAgentTurnSchema req then throwE (rejected_details ''VALIDATION_FAILED'')
      else
        bindE (get_sessionE ports (st_sessionId req)) (\<lambda>found.
        case turn_refusal req found of
          Some e \<Rightarrow> throwE e
        | None \<Rightarrow>
            bindE (find_turnE ports (st_commandId req)) (\<lambda>existing.
            case existing of
              Some t \<Rightarrow> known_turn (sha256 (st_contextDigest req)) t
            | None \<Rightarrow> request_turn sha256 ports req (the found))))"

section \<open>Observation, cancellation and reconciliation\<close>

definition settleSessionForTurn :: "'w agent_ports \<Rightarrow> agent_turn \<Rightarrow> ('w, unit) agent_eff" where
  "settleSessionForTurn ports turn =
     bindE (get_sessionE ports (at_sessionId turn)) (\<lambda>found.
     case found of
       None \<Rightarrow> retE ()
     | Some s \<Rightarrow>
         if as_currentTurnId s \<noteq> Some (at_id turn) \<or> isTerminalSession (as_status s) then retE ()
         else
           (let nextStatus = (if at_status turn = TS_FAILED then SS_RECONCILING else SS_READY) in
            bindE (now_iso ports) (\<lambda>t.
            bindE (save_sessionE ports (s\<lparr>as_status := nextStatus, as_currentTurnId := None, as_updatedAtIso := t\<rparr>) (as_version s)) (\<lambda>saved.
            if saved = None then retE ()
            else emit_event ports ''session.state_changed.v1'' (as_id s) [(''status'', JStr (session_status_str nextStatus))]))))"

text \<open>The guarded write if the store has one, else the plain one.\<close>

definition save_observed :: "'w agent_ports \<Rightarrow> agent_turn \<Rightarrow> agent_turn \<Rightarrow> ('w, bool) agent_eff" where
  "save_observed ports observed turn =
     (let v = (case at_version turn of None \<Rightarrow> 0 | Some v \<Rightarrow> v) in
      case ag_turnSaveIf ports of
        Some save \<Rightarrow> callE (AC_TurnSaveIf observed v) (save observed v)
      | None \<Rightarrow> bindE (save_turnE ports observed) (\<lambda>_. retE True))"

definition settle_observed :: "'w agent_ports \<Rightarrow> agent_turn \<Rightarrow> agent_turn \<Rightarrow> ('w, agent_turn) agent_eff" where
  "settle_observed ports observed turn =
     bindE (save_observed ports observed turn) (\<lambda>saved.
     if saved then retE observed
     else bindE (get_turnE ports (at_id turn)) (\<lambda>latest. retE (case latest of None \<Rightarrow> turn | Some l \<Rightarrow> l)))"

definition poll_turn :: "'w agent_ports \<Rightarrow> agent_turn \<Rightarrow> string \<Rightarrow> string \<Rightarrow> ('w, agent_turn) agent_eff" where
  "poll_turn ports turn psid ptid =
     bindE (callE (AC_GetTurnStatus psid ptid) (ag_getTurnStatus ports psid ptid)) (\<lambda>result.
     case result of
       Inr (status, reason) \<Rightarrow>
         (let nextStatus = mapProviderTurnStatus status in
          if nextStatus \<noteq> at_status turn \<or> reason \<noteq> None then
            (let base = turn\<lparr>at_status := nextStatus,
                   at_providerTerminalReason := (case reason of None \<Rightarrow> at_providerTerminalReason turn | Some r \<Rightarrow> Some r)\<rparr> in
             if isTerminalTurn nextStatus
             then bindE (now_iso ports) (\<lambda>t. settle_observed ports (base\<lparr>at_completedAtIso := Some t\<rparr>) turn)
             else settle_observed ports base turn)
          else retE turn)
     | Inl code \<Rightarrow>
         bindE (settle_observed ports (turn\<lparr>at_status := TS_RECONCILING, at_errorCode := Some code\<rparr>) turn) (\<lambda>observed.
         bindE (emit_event ports ''turn.state_changed.v1'' (at_id turn)
                  [(''sessionId'', JStr (at_sessionId turn)), (''status'', JStr ''RECONCILING''), (''errorCode'', JStr code)]) (\<lambda>_.
         retE observed)))"

datatype observation = Obs_completed | Obs_paused | Obs_running

definition observeTurn :: "'w agent_ports \<Rightarrow> string \<Rightarrow> ('w, agent_turn \<times> observation) agent_eff" where
  "observeTurn ports turnId =
     (if \<not> idInputSchema turnId then throwE (rejected_details ''VALIDATION_FAILED'')
      else
        bindE (get_turnE ports turnId) (\<lambda>found.
        case found of
          None \<Rightarrow> throwE (MadeError ''TURN_NOT_FOUND'')
        | Some turn \<Rightarrow>
            bindE (case at_providerTurnId turn of
                     Some ptid \<Rightarrow>
                       if isTerminalTurn (at_status turn) then retE turn
                       else bindE (get_sessionE ports (at_sessionId turn)) (\<lambda>session.
                         case Option.bind session as_providerSessionId of
                           None \<Rightarrow> retE turn
                         | Some psid \<Rightarrow> poll_turn ports turn psid ptid)
                   | None \<Rightarrow> retE turn) (\<lambda>observed.
            bindE (if isTerminalTurn (at_status observed) then settleSessionForTurn ports observed else retE ()) (\<lambda>_.
            retE (observed, if isTerminalTurn (at_status observed) then Obs_completed
                            else if at_status observed = TS_PAUSED then Obs_paused else Obs_running)))))"

definition cancel_active_turn :: "'w agent_ports \<Rightarrow> agent_session \<Rightarrow> ('w, unit) agent_eff" where
  "cancel_active_turn ports session =
     bindE (case as_currentTurnId session of None \<Rightarrow> retE None | Some i \<Rightarrow> get_turnE ports i) (\<lambda>activeTurn.
     case activeTurn of
       None \<Rightarrow> retE ()
     | Some t \<Rightarrow>
         if isTerminalTurn (at_status t) then retE ()
         else bindE (now_iso ports) (\<lambda>now.
           bindE (save_observed ports (t\<lparr>at_status := TS_CANCELLED, at_completedAtIso := Some now\<rparr>) t) (\<lambda>_. retE ())))"

definition finish_cancel :: "'w agent_ports \<Rightarrow> agent_session \<Rightarrow> agent_session \<Rightarrow> ('w, agent_session_ref) agent_eff" where
  "finish_cancel ports session claimed =
     bindE (now_iso ports) (\<lambda>t.
     bindE (save_sessionE ports (claimed\<lparr>as_status := SS_CANCELLED, as_updatedAtIso := t\<rparr>) (as_version claimed)) (\<lambda>saved.
     case saved of
       None \<Rightarrow> throwE (MadeError ''SESSION_VERSION_CONFLICT'')
     | Some s \<Rightarrow>
         bindE (cancel_active_turn ports session) (\<lambda>_.
         bindE (emit_event ports ''session.cancelled.v1'' (as_id session) [(''cancellationGeneration'', JNum (as_cancellationGeneration s))]) (\<lambda>_.
         retE (refOf s)))))"

definition cancelSession :: "'w agent_ports \<Rightarrow> string \<Rightarrow> int \<Rightarrow> ('w, agent_session_ref) agent_eff" where
  "cancelSession ports sessionId expectedVersion =
     (if expectedVersion < 0 then throwE (rejected_details ''VALIDATION_FAILED'')
      else
        bindE (get_sessionE ports sessionId) (\<lambda>found.
        case found of
          None \<Rightarrow> throwE (made_with ''SESSION_NOT_FOUND'' [sessionId])
        | Some session \<Rightarrow>
            if isTerminalSession (as_status session) then retE (refOf session)
            else
              bindE (now_iso ports) (\<lambda>t.
              bindE (save_sessionE ports
                       (session\<lparr>as_status := SS_CANCELLING, as_cancellationGeneration := as_cancellationGeneration session + 1, as_updatedAtIso := t\<rparr>)
                       expectedVersion) (\<lambda>c.
              case c of
                None \<Rightarrow> throwE (MadeError ''SESSION_VERSION_CONFLICT'')
              | Some claimed \<Rightarrow>
                  (case (as_providerSessionId session, ag_cancelSession ports) of
                     (Some psid, Some cancel) \<Rightarrow>
                       bindE (callE (AC_CancelSession psid) (cancel psid)) (\<lambda>result.
                       case result of
                         Inl code \<Rightarrow>
                           bindE (now_iso ports) (\<lambda>t.
                           bindE (save_sessionE ports (claimed\<lparr>as_status := SS_RECONCILING, as_updatedAtIso := t\<rparr>) (as_version claimed)) (\<lambda>_.
                           throwE (made_with ''SESSION_CANCEL_FAILED'' [code])))
                       | Inr _ \<Rightarrow> finish_cancel ports session claimed)
                   | _ \<Rightarrow> finish_cancel ports session claimed)))))"

definition reconcileSession :: "'w agent_ports \<Rightarrow> string \<Rightarrow> ('w, agent_session_ref) agent_eff" where
  "reconcileSession ports sessionId =
     (if \<not> idInputSchema sessionId then throwE (rejected_details ''VALIDATION_FAILED'')
      else
        bindE (get_sessionE ports sessionId) (\<lambda>found.
        case found of
          None \<Rightarrow> throwE (MadeError ''SESSION_NOT_FOUND'')
        | Some session \<Rightarrow>
            if isTerminalSession (as_status session) then retE (refOf session)
            else
              bindE (now_iso ports) (\<lambda>t.
              bindE (save_sessionE ports (session\<lparr>as_status := SS_RECONCILING, as_updatedAtIso := t\<rparr>) (as_version session)) (\<lambda>saved.
              case saved of
                None \<Rightarrow> throwE (MadeError ''SESSION_VERSION_CONFLICT'')
              | Some s \<Rightarrow>
                  bindE (emit_event ports ''session.state_changed.v1'' (as_id session) [(''status'', JStr ''RECONCILING'')]) (\<lambda>_.
                  retE (refOf s))))))"

section \<open>A provider turn is requested once, behind every fence\<close>

definition creates_turn :: "agent_call \<Rightarrow> bool" where
  "creates_turn c \<longleftrightarrow> (\<exists>p n. c = AC_CreateTurn p n)"

lemma creates_turn_simps [simp]: "creates_turn (AC_CreateTurn p n)"
  "\<not> creates_turn (AC_SessionGet i)" "\<not> creates_turn (AC_SessionFind i)" "\<not> creates_turn (AC_SessionSave x v)" "\<not> creates_turn (AC_TurnGet i)"
  "\<not> creates_turn (AC_TurnFind i)" "\<not> creates_turn (AC_TurnSave t)" "\<not> creates_turn (AC_Emit a b j)" "\<not> creates_turn (AC_CancelTurn a b)"
  "\<not> creates_turn (AC_CountActive i)" "\<not> creates_turn (AC_NextOrdinal i)"
  by (simp_all add: creates_turn_def)

lemma publish_creates_nothing: "calls_within (\<lambda>c. \<not> creates_turn c) (publish_turn ports session t psid ptid)"
  unfolding publish_turn_def save_cancelled_def agent_call_defs by (intro within_intros; simp)

lemma release_creates_nothing: "calls_within (\<lambda>c. \<not> creates_turn c) (release_slot ports r)"
  unfolding release_slot_def agent_call_defs by (intro within_intros; simp)

lemma cancelled_creates_nothing: "calls_within (\<lambda>c. \<not> creates_turn c) (save_cancelled ports t)"
  unfolding save_cancelled_def agent_call_defs by (intro within_intros; simp)

lemma reserve_creates_nothing: "calls_within (\<lambda>c. \<not> creates_turn c) (reserve_turn ports sid t)"
  unfolding reserve_turn_def known_turn_def agent_call_defs by (intro within_intros; simp)

text \<open>A provider turn is requested after a step that requests none only when that step succeeded.\<close>

lemma create_reached:
  assumes "c \<in> set (eff_calls (bindE m k) w)" and "creates_turn c" and "calls_within (\<lambda>c. \<not> creates_turn c) m"
  shows "\<exists>a. eff_result m w = Inr a \<and> eff_calls (bindE m k) w = eff_calls m w @ eff_calls (k a) (eff_world m w) \<and>
    c \<in> set (eff_calls (k a) (eff_world m w))"
  using call_reached [OF assms(1)] within_calls [OF assms(3), of c w] assms(2) by blast

lemma create_reached_call:
  assumes "c \<in> set (eff_calls (bindE (callE d p) k) w)" and "creates_turn c" and "\<not> creates_turn d"
  shows "\<exists>a. snd (p w) = Inr a \<and> eff_calls (bindE (callE d p) k) w = d # eff_calls (k a) (fst (p w)) \<and> c \<in> set (eff_calls (k a) (fst (p w)))"
  using create_reached [OF assms(1,2) within_callE] assms(3) by simp

lemma create_turn_calls:
  "\<exists>rest. eff_calls (create_turn ports session t reserved psid) w = AC_CreateTurn psid (at_ordinal t) # rest \<and>
     list_all (\<lambda>c. \<not> creates_turn c) rest"
proof -
  let ?after = "\<lambda>created. case created of
       Inl code \<Rightarrow>
         bindE (save_turnE ports (t\<lparr>at_status := TS_FAILED, at_errorCode := Some code\<rparr>)) (\<lambda>_.
         bindE (release_slot ports reserved) (\<lambda>_.
         bindE (emit_event ports ''turn.state_changed.v1'' (at_id t)
                  [(''sessionId'', JStr (as_id session)), (''status'', JStr ''FAILED''), (''errorCode'', JStr code)]) (\<lambda>_.
         throwE (unregistered ''TURN_CREATE_FAILED''))))
     | Inr ptid \<Rightarrow> publish_turn ports session t psid ptid"
  have "calls_within (\<lambda>c. \<not> creates_turn c) (?after x)" for x
    unfolding agent_call_defs by (intro within_intros publish_creates_nothing release_creates_nothing; simp)
  then have "list_all (\<lambda>c. \<not> creates_turn c) (eff_calls (?after x) v)" for x v by (simp add: calls_within_def)
  then show ?thesis unfolding create_turn_def calls_bindE by (cases "eff_result (callE (AC_CreateTurn psid (at_ordinal t)) (ag_createTurn ports psid (at_ordinal t))) w") simp_all
qed

lemma launch_calls:
  assumes "c \<in> set (eff_calls (launch_turn ports session t reserved psid) w)" and "creates_turn c"
  shows "\<exists>fresh rest. answers (ag_sessionGet ports (as_id session)) fresh \<and> still_current session t fresh \<and>
    eff_calls (launch_turn ports session t reserved psid) w =
      [AC_TurnSave t, AC_SessionGet (as_id session), AC_CreateTurn psid (at_ordinal t)] @ rest \<and>
    list_all (\<lambda>c. \<not> creates_turn c) rest"
proof -
  from create_reached_call [OF assms(1) [unfolded launch_turn_def save_turnE_def] assms(2)]
  obtain v where v: "eff_calls (launch_turn ports session t reserved psid) w =
      AC_TurnSave t # eff_calls (bindE (get_sessionE ports (as_id session)) (\<lambda>beforeCreate.
        if \<not> still_current session t beforeCreate then
          bindE (save_cancelled ports t) (\<lambda>_. retE (refOfTurn (t\<lparr>at_status := TS_CANCELLED\<rparr>)))
        else create_turn ports session t reserved psid)) v"
    and c: "c \<in> set (eff_calls (bindE (get_sessionE ports (as_id session)) (\<lambda>beforeCreate.
        if \<not> still_current session t beforeCreate then
          bindE (save_cancelled ports t) (\<lambda>_. retE (refOfTurn (t\<lparr>at_status := TS_CANCELLED\<rparr>)))
        else create_turn ports session t reserved psid)) v)"
    by (auto simp: launch_turn_def save_turnE_def)
  from create_reached_call [OF c [unfolded get_sessionE_def] assms(2)] obtain fresh u where
    got: "snd (ag_sessionGet ports (as_id session) v) = Inr fresh"
    and m: "eff_calls (launch_turn ports session t reserved psid) w = AC_TurnSave t # AC_SessionGet (as_id session) #
      eff_calls (if \<not> still_current session t fresh then
          bindE (save_cancelled ports t) (\<lambda>_. retE (refOfTurn (t\<lparr>at_status := TS_CANCELLED\<rparr>)))
        else create_turn ports session t reserved psid) u"
    and c': "c \<in> set (eff_calls (if \<not> still_current session t fresh then
          bindE (save_cancelled ports t) (\<lambda>_. retE (refOfTurn (t\<lparr>at_status := TS_CANCELLED\<rparr>)))
        else create_turn ports session t reserved psid) u)"
    unfolding v get_sessionE_def by auto
  have "calls_within (\<lambda>c. \<not> creates_turn c) (bindE (save_cancelled ports t) (\<lambda>_. retE (refOfTurn (t\<lparr>at_status := TS_CANCELLED\<rparr>))))"
    by (intro within_intros cancelled_creates_nothing)
  with c' assms(2) have cur: "still_current session t fresh" by (auto split: if_splits dest: within_calls)
  from got have "answers (ag_sessionGet ports (as_id session)) fresh" by (rule answersI)
  with cur m create_turn_calls [of ports session t reserved psid u] show ?thesis by auto
qed

lemma with_slot_launches:
  assumes "c \<in> set (eff_calls (with_slot ports session turn slot) w)" and "creates_turn c"
  shows "\<exists>reserved psid. slot = Some reserved \<and> as_providerSessionId session = Some psid \<and>
    with_slot ports session turn slot = launch_turn ports session (turn\<lparr>at_status := TS_SUBMITTING\<rparr>) reserved psid"
proof -
  have "calls_within (\<lambda>c. \<not> creates_turn c) (with_slot ports session turn slot)" if "slot = None \<or> as_providerSessionId session = None"
  proof (cases slot)
    case None
    then show ?thesis unfolding with_slot_def by (simp, intro within_intros cancelled_creates_nothing)
  next
    case (Some r)
    with that show ?thesis unfolding with_slot_def save_turnE_def by (simp, intro within_intros release_creates_nothing; simp)
  qed
  with within_calls [of "\<lambda>c. \<not> creates_turn c" "with_slot ports session turn slot" c w] assms
  have "\<not> (slot = None \<or> as_providerSessionId session = None)" by blast
  then obtain reserved psid where "slot = Some reserved" "as_providerSessionId session = Some psid" by auto
  then show ?thesis by (simp add: with_slot_def)
qed

lemma start_calls:
  assumes "c \<in> set (eff_calls (start_turn ports session turn) w)" and "creates_turn c"
  shows "\<exists>fresh rest psid at. as_providerSessionId session = Some psid \<and> answers (ag_sessionGet ports (as_id session)) fresh \<and>
    still_current session turn fresh \<and> list_all (\<lambda>c. \<not> creates_turn c) rest \<and>
    eff_calls (start_turn ports session turn) w =
      [AC_Emit ''turn.requested.v1'' (at_id turn) (JObj [(''sessionId'', JStr (at_sessionId turn))]),
       AC_SessionSave (active_session session turn at) (as_version session), AC_TurnSave (turn\<lparr>at_status := TS_SUBMITTING\<rparr>),
       AC_SessionGet (as_id session), AC_CreateTurn psid (at_ordinal turn)] @ rest"
proof -
  let ?e = "AC_Emit ''turn.requested.v1'' (at_id turn) (JObj [(''sessionId'', JStr (at_sessionId turn))])"
  let ?save = "\<lambda>at. bindE (callE (AC_SessionSave (active_session session turn at) (as_version session))
      (ag_sessionSave ports (active_session session turn at) (as_version session))) (with_slot ports session turn)"
  from create_reached_call [OF assms(1) [unfolded start_turn_def agent_call_defs] assms(2) creates_turn_simps(8)]
  obtain at v where s: "eff_calls (start_turn ports session turn) w = ?e # eff_calls (?save at) v"
    and cs: "c \<in> set (eff_calls (?save at) v)"
    unfolding start_turn_def agent_call_defs calls_fresh_bind by blast
  from create_reached_call [OF cs assms(2) creates_turn_simps(4)] s obtain slot v where calls: "eff_calls (start_turn ports session turn) w =
      ?e # AC_SessionSave (active_session session turn at) (as_version session) # eff_calls (with_slot ports session turn slot) v"
    and c: "c \<in> set (eff_calls (with_slot ports session turn slot) v)" by auto
  from with_slot_launches [OF c assms(2)] obtain reserved psid where p: "as_providerSessionId session = Some psid"
    and l: "with_slot ports session turn slot = launch_turn ports session (turn\<lparr>at_status := TS_SUBMITTING\<rparr>) reserved psid" by blast
  from launch_calls [OF c [unfolded l] assms(2)] calls p l show ?thesis by (auto simp: still_current_def split: option.splits)
qed

lemma reserve_saved:
  assumes "eff_result (reserve_turn ports sid turn) w = Inr None"
  shows "eff_calls (reserve_turn ports sid turn) w = [AC_TurnSave turn]"
  using assms unfolding reserve_turn_def known_turn_def agent_call_defs
  by (auto simp: eff_simps eff_if split: sum.splits option.splits if_splits)

lemma begin_calls:
  assumes "c \<in> set (eff_calls (begin_turn ports session turn) w)" and "creates_turn c"
  shows "\<exists>v. c \<in> set (eff_calls (start_turn ports session turn) v) \<and>
    eff_calls (begin_turn ports session turn) w = AC_TurnSave turn # eff_calls (start_turn ports session turn) v"
proof -
  let ?r = "reserve_turn ports (at_sessionId turn) turn"
  from create_reached [OF assms(1) [unfolded begin_turn_def] assms(2) reserve_creates_nothing]
  have n: "eff_result ?r w = Inr None" by (auto split: option.splits)
  from reserve_saved [OF n] have "eff_calls (begin_turn ports session turn) w = AC_TurnSave turn # eff_calls (start_turn ports session turn) (eff_world ?r w)"
    by (simp add: begin_turn_def calls_bindE n)
  with assms show ?thesis by (intro exI [of _ "eff_world ?r w"]) auto
qed

lemma request_calls:
  assumes "c \<in> set (eff_calls (request_turn sha256 ports req session) w)" and "creates_turn c"
  shows "\<exists>i n at v. c \<in> set (eff_calls (start_turn ports session (requested_turn sha256 req i n at)) v) \<and>
    eff_calls (request_turn sha256 ports req session) w =
      [AC_CountActive (st_sessionId req), AC_NextOrdinal (st_sessionId req), AC_TurnSave (requested_turn sha256 req i n at)] @
      eff_calls (start_turn ports session (requested_turn sha256 req i n at)) v"
proof -
  let ?s = "st_sessionId req"
  let ?next = "bindE (callE (AC_NextOrdinal ?s) (ag_nextOrdinal ports ?s)) (\<lambda>ordinal.
       bindE (fresh_id (ag_randomUUID ports)) (\<lambda>i. bindE (now_iso ports) (\<lambda>now.
       begin_turn ports session (requested_turn sha256 req i ordinal now))))"
  obtain a :: int where a: "eff_calls (request_turn sha256 ports req session) w =
      AC_CountActive ?s # eff_calls (if a \<ge> 1 then throwE (MadeError ''SESSION_TURN_ACTIVE'') else ?next) (fst (ag_countActive ports ?s w))"
    and ca: "c \<in> set (eff_calls (if a \<ge> 1 then throwE (MadeError ''SESSION_TURN_ACTIVE'') else ?next) (fst (ag_countActive ports ?s w)))"
    using create_reached_call [OF assms(1) [unfolded request_turn_def] assms(2) creates_turn_simps(10)] unfolding request_turn_def by blast
  from ca have idle: "\<not> a \<ge> 1" by (cases "a \<ge> 1") simp_all
  with ca have "c \<in> set (eff_calls ?next (fst (ag_countActive ports ?s w)))" by simp
  from create_reached_call [OF this assms(2) creates_turn_simps(11)] obtain i n at u where
    c: "c \<in> set (eff_calls (begin_turn ports session (requested_turn sha256 req i n at)) u)"
    and calls: "eff_calls ?next (fst (ag_countActive ports ?s w)) =
      AC_NextOrdinal ?s # eff_calls (begin_turn ports session (requested_turn sha256 req i n at)) u"
    unfolding now_iso_def calls_fresh_bind by blast
  from begin_calls [OF c assms(2)] calls a idle show ?thesis by auto
qed

lemma submit_calls:
  assumes "c \<in> set (eff_calls (submitTurn sha256 ports req) w)" and "creates_turn c"
  shows "\<exists>session v. answers (ag_sessionGet ports (st_sessionId req)) (Some session) \<and> turn_refusal req (Some session) = None \<and>
    answers (ag_turnFind ports (st_commandId req)) None \<and>
    c \<in> set (eff_calls (request_turn sha256 ports req session) v) \<and>
    eff_calls (submitTurn sha256 ports req) w =
      AC_SessionGet (st_sessionId req) # AC_TurnFind (st_commandId req) # eff_calls (request_turn sha256 ports req session) v"
proof -
  let ?look = "\<lambda>found. bindE (callE (AC_TurnFind (st_commandId req)) (ag_turnFind ports (st_commandId req))) (\<lambda>existing.
            case existing of
              Some t \<Rightarrow> known_turn (sha256 (st_contextDigest req)) t
            | None \<Rightarrow> request_turn sha256 ports req (the found))"
  let ?k = "\<lambda>found. case turn_refusal req found of Some e \<Rightarrow> throwE e | None \<Rightarrow> ?look found"
  from assms(1) have valid: "submitAgentTurnSchema req" by (cases "submitAgentTurnSchema req") (simp_all add: submitTurn_def)
  have eq: "submitTurn sha256 ports req = bindE (callE (AC_SessionGet (st_sessionId req)) (ag_sessionGet ports (st_sessionId req))) ?k"
    if "submitAgentTurnSchema req" using that unfolding submitTurn_def get_sessionE_def find_turnE_def by (simp only: not_not not_True_eq_False if_False that)
  note eq = eq [OF valid]
  from create_reached_call [OF assms(1) [unfolded eq] assms(2) creates_turn_simps(2)] obtain found v where
    found: "snd (ag_sessionGet ports (st_sessionId req) w) = Inr found" and ck: "c \<in> set (eff_calls (?k found) v)"
    and s: "eff_calls (submitTurn sha256 ports req) w = AC_SessionGet (st_sessionId req) # eff_calls (?k found) v"
    unfolding eq by blast
  from ck have ok: "turn_refusal req found = None" by (cases "turn_refusal req found") simp_all
  then obtain session where session: "found = Some session" by (cases found) (simp_all add: turn_refusal_def)
  from ck ok have "c \<in> set (eff_calls (?look found) v)" by simp
  from create_reached_call [OF this assms(2) creates_turn_simps(6)] obtain existing u where
    e: "snd (ag_turnFind ports (st_commandId req) v) = Inr existing"
    and ce: "c \<in> set (eff_calls (case existing of Some t \<Rightarrow> known_turn (sha256 (st_contextDigest req)) t
            | None \<Rightarrow> request_turn sha256 ports req (the found)) u)"
    and l: "eff_calls (?look found) v = AC_TurnFind (st_commandId req) #
      eff_calls (case existing of Some t \<Rightarrow> known_turn (sha256 (st_contextDigest req)) t
            | None \<Rightarrow> request_turn sha256 ports req (the found)) u"
    by blast
  from ce have none: "existing = None" by (cases existing) (auto simp: known_turn_def split: if_splits)
  have "eff_calls (?k found) v = eff_calls (?look found) v" by (simp only: ok option.case)
  with s l have "eff_calls (submitTurn sha256 ports req) w = AC_SessionGet (st_sessionId req) # AC_TurnFind (st_commandId req) #
      eff_calls (request_turn sha256 ports req session) u" by (simp only: none session option.case option.sel)
  moreover from ce have "c \<in> set (eff_calls (request_turn sha256 ports req session) u)" by (simp add: none session)
  ultimately show ?thesis using e found ok unfolding none session by (blast intro: answersI)
qed


section \<open>A provider session is created once per command\<close>

definition creates_session :: "agent_call \<Rightarrow> bool" where
  "creates_session c \<longleftrightarrow> (\<exists>p a. c = AC_CreateSession p a)"

lemma creates_session_simps [simp]: "creates_session (AC_CreateSession p a)"
  "\<not> creates_session (AC_SessionFind i)" "\<not> creates_session (AC_SessionSave x v)" "\<not> creates_session (AC_Emit a b j)"
  by (simp_all add: creates_session_def)

lemma create_session_calls:
  "\<exists>rest. eff_calls (create_provider_session ports session r) w = AC_CreateSession (as_provider session) (ag_agentVersion ports) # rest \<and>
     list_all (\<lambda>c. \<not> creates_session c) rest"
proof -
  let ?call = "callE (AC_CreateSession (as_provider session) (ag_agentVersion ports)) (ag_createSession ports (as_provider session) (ag_agentVersion ports))"
  obtain k where k: "create_provider_session ports session r = bindE ?call k" and within: "\<And>x. calls_within (\<lambda>c. \<not> creates_session c) (k x)"
  proof (rule that, unfold create_provider_session_def, rule refl)
    fix x
    show "calls_within (\<lambda>c. \<not> creates_session c) (case x of
         Inl code \<Rightarrow>
           bindE (now_iso ports) (\<lambda>t.
           bindE (save_sessionE ports (r\<lparr>as_status := SS_FAILED, as_updatedAtIso := t\<rparr>) (as_version r)) (\<lambda>_.
           bindE (emit_event ports ''session.state_changed.v1'' (as_id session) [(''status'', JStr ''FAILED'')]) (\<lambda>_.
           throwE (made_with ''SESSION_CREATE_FAILED'' [code]))))
       | Inr (psid, thread) \<Rightarrow>
           bindE (now_iso ports) (\<lambda>t.
           bindE (save_sessionE ports
                    (r\<lparr>as_providerSessionId := Some psid, as_providerThreadId := thread, as_status := SS_READY, as_updatedAtIso := t\<rparr>)
                    (as_version r)) (\<lambda>saved.
           case saved of
             None \<Rightarrow> throwE (MadeError ''SESSION_VERSION_CONFLICT'')
           | Some s \<Rightarrow>
               bindE (emit_event ports ''session.created.v1'' (as_id session) [(''status'', JStr ''READY'')]) (\<lambda>_. retE (refOf s)))))"
      unfolding agent_call_defs case_prod_unfold by (intro within_intros; simp)
  qed
  then have "list_all (\<lambda>c. \<not> creates_session c) (eff_calls (k x) v)" for x v by (simp add: calls_within_def)
  then show ?thesis unfolding k calls_bindE by (cases "eff_result ?call w") simp_all
qed

lemma known_session_calls [simp]: "eff_calls (known_session s) w = []"
  by (simp add: known_session_def)

text \<open>The reservations of a session id that a serialization of statements grants.\<close>

fun reserves :: "string \<Rightarrow> agent_op \<Rightarrow> agent_db \<Rightarrow> bool" where
  "reserves i (AO_session now v n) db \<longleftrightarrow> n = 0 \<and> as_id v = i \<and> snd (upsert_session now v n db) = Inr True"
| "reserves i _ db \<longleftrightarrow> False"

fun reservations :: "(string \<Rightarrow> string) \<Rightarrow> string \<Rightarrow> agent_op list \<Rightarrow> agent_db \<Rightarrow> nat" where
  "reservations pg i [] db = 0"
| "reservations pg i (op # ops) db = (if reserves i op db then 1 else 0) + reservations pg i ops (agent_apply pg op db)"

lemma no_second_reservation:
  assumes "session_row_of i db = Some r" and "1 \<le> sw_rowVersion r"
  shows "reservations pg i ops db = 0"
  using assms
proof (induction ops arbitrary: db r)
  case (Cons op ops)
  have "\<not> reserves i op db"
    using reserved_session_refuses [of _ db r _ pg "[]"] Cons.prems by (cases op) (auto simp: agent_run_def)
  moreover obtain r' where "session_row_of i (agent_apply pg op db) = Some r'" "1 \<le> sw_rowVersion r'"
    using run_keeps_session_rows [OF Cons.prems(1), of pg "[op]"] Cons.prems(2) by (auto simp: agent_run_def)
  ultimately show ?case using Cons.IH by simp
qed simp

lemma reservations_le: "sessions_ok db \<and> turns_ok db \<Longrightarrow> reservations pg i ops db \<le> 1"
proof (induction ops arbitrary: db)
  case (Cons op ops)
  show ?case
  proof (cases "reserves i op db")
    case True
    then obtain now v where op: "op = AO_session now v 0" and v: "as_id v = i" "snd (upsert_session now v 0 db) = Inr True" by (cases op) auto
    with Cons.prems reservation_inserts [of db now v "fst (upsert_session now v 0 db)"]
    have "session_row_of i (agent_apply pg op db) = Some (inserted_session now v)" by (simp add: prod_eq_iff)
    with no_second_reservation [of i "agent_apply pg op db"] True show ?thesis by (simp add: inserted_session_def)
  next
    case False
    with Cons.IH [OF agent_apply_ok [OF Cons.prems]] show ?thesis by simp
  qed
qed simp

text \<open>
  Property C14.  A provider session is created at most once for a command key.  A call creates one only after it
  found no session of the key and its insert of the session with the id derived from the key was
  granted, and creates it once; and however the statements of all workers are serialized, the
  store grants that insert at most once.
\<close>

theorem provider_session_created_once:
  assumes "AC_CreateSession p a \<in> set (eff_calls (ensureSession sha256 is_uuid ports req) w)" and "sessions_ok db" and "turns_ok db"
  shows "\<exists>started updated reserved rest.
    answers (ag_sessionFind ports (en_commandKey req)) None \<and>
    answers (ag_sessionSave ports (new_session sha256 (ag_agentVersion ports) req started updated) 0) (Some reserved) \<and>
    eff_calls (ensureSession sha256 is_uuid ports req) w =
      [AC_SessionFind (en_commandKey req), AC_SessionSave (new_session sha256 (ag_agentVersion ports) req started updated) 0,
       AC_CreateSession p a] @ rest \<and> list_all (\<lambda>c. \<not> creates_session c) rest \<and>
    as_id (new_session sha256 (ag_agentVersion ports) req started updated) = sessionIdForCommand sha256 (en_commandKey req) \<and>
    reservations pg (sessionIdForCommand sha256 (en_commandKey req)) ops db \<le> 1"
proof -
  let ?e = "ensureSession sha256 is_uuid ports req"
  let ?f = "ag_sessionFind ports (en_commandKey req) w"
  obtain u1 started u2 updated where c1: "ag_nowIso ports (fst ?f) = (u1, started)" and c2: "ag_nowIso ports u1 = (u2, updated)"
    by (metis prod.exhaust)
  let ?n = "new_session sha256 (ag_agentVersion ports) req started updated"
  let ?s = "ag_sessionSave ports ?n 0 u2"
  from assms(1) have find: "snd ?f = Inr None"
    by (auto simp: ensureSession_def find_sessionE_def calls_bindE eff_if split: if_splits sum.splits option.splits)
  have shape: "eff_calls ?e w = AC_SessionFind (en_commandKey req) # AC_SessionSave ?n 0 #
      (case snd ?s of Inl _ \<Rightarrow> [] | Inr None \<Rightarrow> AC_SessionFind (en_commandKey req) # [] |
        Inr (Some r) \<Rightarrow> eff_calls (create_provider_session ports ?n r) (fst ?s))"
    using assms(1) find c1 c2
    by (auto simp: ensureSession_def agent_call_defs calls_bindE eff_if Let_def split: if_splits sum.splits option.splits)
  with assms(1) obtain r where r: "snd ?s = Inr (Some r)" by (auto split: sum.splits option.splits)
  from create_session_calls [of ports ?n r "fst ?s"] obtain rest where
    rest: "eff_calls (create_provider_session ports ?n r) (fst ?s) = AC_CreateSession (as_provider ?n) (ag_agentVersion ports) # rest"
      "list_all (\<lambda>c. \<not> creates_session c) rest" by blast
  with assms(1) shape r have "p = as_provider ?n" "a = ag_agentVersion ports" by (auto simp: list_all_iff)
  with shape r rest find reservations_le [of db pg "sessionIdForCommand sha256 (en_commandKey req)" ops] assms(2,3) show ?thesis
    by (intro exI [of _ started] exI [of _ updated] exI [of _ r] exI [of _ rest])
      (auto simp: new_session_def intro: answersI)
qed

section \<open>What the service does not protect\<close>

text \<open>
  A session whose reservation was saved and whose worker then stopped stays without a provider
  session: every later call for its command key answers with the reserved record and creates nothing.
\<close>

lemma reserved_session_is_never_completed:
  assumes "ensureAgentSessionSchema is_uuid req" and "snd (ag_sessionFind ports (en_commandKey req) w) = Inr (Some s)" and "as_status s = SS_CREATING"
  shows "eff_result (ensureSession sha256 is_uuid ports req) w = Inr (refOf s)"
    and "eff_calls (ensureSession sha256 is_uuid ports req) w = [AC_SessionFind (en_commandKey req)]"
  using assms by (simp_all add: ensureSession_def find_sessionE_def result_bindE calls_bindE known_session_def)

section \<open>Concrete ports\<close>

text \<open>Ports over a world that is the stored session; the other answers are fixed.\<close>

definition sample_ports :: "agent_session agent_ports" where
  "sample_ports =
     \<lparr>ag_createSession = \<lambda>_ _ w. (w, Inr (Inr (''p'', None))), ag_createTurn = \<lambda>_ _ w. (w, Inr (Inr ''pt'')),
      ag_getTurnStatus = \<lambda>_ _ w. (w, Inr (Inr (''running'', None))), ag_cancelSession = None, ag_cancelTurn = None,
      ag_sessionGet = \<lambda>_ w. (w, Inr (Some w)), ag_sessionFind = \<lambda>_ w. (w, Inr None),
      ag_sessionSave = \<lambda>s n w. (s, Inr (Some (s\<lparr>as_version := n + 1\<rparr>))), ag_turnGet = \<lambda>_ w. (w, Inr None), ag_turnFind = \<lambda>_ w. (w, Inr None),
      ag_countActive = \<lambda>_ w. (w, Inr 0), ag_nextOrdinal = \<lambda>_ w. (w, Inr 1), ag_turnSave = \<lambda>_ w. (w, Inr ()), ag_turnSaveIf = None,
      ag_emit = \<lambda>_ _ _ w. (w, Inr ()), ag_nowIso = \<lambda>w. (w, ''now''), ag_randomUUID = \<lambda>w. (w, ''turn''), ag_agentVersion = ''1''\<rparr>"

definition sample_submit :: submit_turn where
  "sample_submit =
     \<lparr>st_sessionId = ''s'', st_commandId = ''c'', st_purpose = TP_WORKFLOW, st_workflowObjectiveRef = ''o'', st_workflowDefinitionVersion = ''1'',
      st_policySnapshotRef = ''p'', st_trustContextSnapshotRef = ''t'', st_toolProfileId = ''tp'', st_contextDigest = replicate 64 (CHR ''a''),
      st_expectedVersion = 0, st_expectedCancellationGeneration = 0, st_linkedPausedTurnId = None\<rparr>"

definition sample_ensure :: ensure_session where
  "sample_ensure =
     \<lparr>en_workflowRunId = ''run'', en_repositoryId = ''repo'', en_agentDefinitionId = ''d'', en_agentVersion = ''1'',
      en_contractSnapshotDigest = replicate 64 (CHR ''a''), en_commandKey = ''k''\<rparr>"

lemma sample_inputs_valid: "submitAgentTurnSchema sample_submit" "ensureAgentSessionSchema (\<lambda>_. True) sample_ensure"
  by (simp_all add: submitAgentTurnSchema_def ensureAgentSessionSchema_def sample_submit_def sample_ensure_def within_def digest64_def list_all_iff hex_lower_def)

lemma sample_turn_created:
  assumes "\<not> isTerminalSession st"
  shows "AC_CreateTurn ''p'' 1 \<in> set (eff_calls (submitTurn id sample_ports sample_submit)
    (sample_session\<lparr>as_status := st, as_providerSessionId := Some ''p''\<rparr>))"
  using assms unfolding submitTurn_def request_turn_def begin_turn_def reserve_turn_def start_turn_def with_slot_def launch_turn_def create_turn_def agent_call_defs
  by (simp add: sample_inputs_valid turn_refusal_def still_current_def active_session_def requested_turn_def eff_simps isTerminalSession_def)
    (simp add: sample_ports_def sample_submit_def sample_session_def eff_simps still_current_def active_session_def requested_turn_def isTerminalSession_def)


theorem provider_session_created_once_witness:
  "\<exists>rest. eff_calls (ensureSession id (\<lambda>_. True) sample_ports sample_ensure) sample_session =
     AC_SessionFind ''k'' # rest \<and> reservations id (sessionIdForCommand id ''k'') [] sample_agent_db \<le> 1"
proof -
  have "AC_CreateSession ''trueforge'' ''1'' \<in> set (eff_calls (ensureSession id (\<lambda>_. True) sample_ports sample_ensure) sample_session)"
    by (simp add: ensureSession_def sample_inputs_valid agent_call_defs eff_simps)
      (simp add: sample_ports_def create_provider_session_def eff_simps new_session_def Let_def)
  from provider_session_created_once [OF this, of sample_agent_db id "[]"] sample_agent_ok show ?thesis by (auto simp: sample_ensure_def)
qed

text \<open>
  A turn is started from a session whose state machine has no such edge: on a session that awaits
  reconciliation or is being cancelled, a submission sets TURN_ACTIVE and requests a provider turn.
\<close>

lemma turn_starts_outside_ready:
  assumes "st \<in> {SS_CREATING, SS_CANCELLING, SS_RECONCILING}"
  shows "resolveSessionEdge st t \<noteq> Some SS_TURN_ACTIVE"
    and "AC_CreateTurn ''p'' 1 \<in> set (eff_calls (submitTurn id sample_ports sample_submit) (sample_session\<lparr>as_status := st, as_providerSessionId := Some ''p''\<rparr>))"
proof -
  from assms show "resolveSessionEdge st t \<noteq> Some SS_TURN_ACTIVE" by (cases t) (auto simp: resolveSessionEdge_def)
  from assms have "\<not> isTerminalSession st" by (auto simp: isTerminalSession_def)
  then show "AC_CreateTurn ''p'' 1 \<in> set (eff_calls (submitTurn id sample_ports sample_submit) (sample_session\<lparr>as_status := st, as_providerSessionId := Some ''p''\<rparr>))"
    by (rule sample_turn_created)
qed

end
