(* ===== verification/Login_Store.thy ===== *)
theory Login_Store
  imports Port_Effects Versioned_Store
begin

text \<open>
  The durable stores of logins, browser sessions and API tokens,
  \<open>packages/db/src/repositories/auth-sessions.ts\<close> and \<open>api-tokens.ts\<close>, as functions on their tables with the
  keys of migrations 003, 007 and 008.  Timestamps are milliseconds, which their ISO texts and the
  database keep exactly.  Sessions and login transactions interpret the versioned store.
\<close>

section \<open>Tables\<close>

record auth_session =
  au_idHash :: string
  au_userId :: string
  au_issuer :: string
  au_subject :: string
  au_login :: "string option"
  au_displayName :: "string option"
  au_createdAt :: int
  au_lastSeenAt :: int
  au_idleExpiresAt :: int
  au_absoluteExpiresAt :: int
  au_revokedAt :: "int option"
  au_rowVersion :: int

record auth_tx =
  ax_stateHash :: string
  ax_verifier :: string
  ax_returnTo :: string
  ax_createdAt :: int
  ax_expiresAt :: int
  ax_consumedAt :: "int option"
  ax_rowVersion :: int

record api_token =
  tk_id :: string
  tk_userId :: string
  tk_hash :: string
  tk_label :: string
  tk_createdAt :: int
  tk_lastUsedAt :: "int option"
  tk_expiresAt :: int
  tk_revokedAt :: "int option"
  tk_rowVersion :: int

record user_identity =
  ui_userId :: string
  ui_issuer :: string
  ui_subject :: string
  ui_loginSnapshot :: string

record auth_db =
  db_users :: "string list"
  db_identities :: "user_identity list"
  db_sessions :: "auth_session list"
  db_txs :: "auth_tx list"
  db_tokens :: "api_token list"

text \<open>\<open>versionConflictError\<close>: a conflict whose message carries the prefix the service looks for.\<close>

definition versionConflictError :: "int \<Rightarrow> js_error" where
  "versionConflictError expected = ErrorClass ''DevGuardError'' (''VERSION_CONFLICT:'' @ js_int_str expected @ ''->stale'')"

section \<open>Sessions\<close>

definition insert_auth_session :: "auth_session \<Rightarrow> auth_db \<Rightarrow> auth_db \<times> (js_error + unit)" where
  "insert_auth_session r db =
     (if list_ex (\<lambda>x. au_idHash x = au_idHash r) (db_sessions db) \<or> au_userId r \<notin> set (db_users db) \<or> au_rowVersion r < 0
      then (db, Inl (MadeError ''INTERNAL''))
      else (db\<lparr>db_sessions := db_sessions db @ [r]\<rparr>, Inr ()))"

definition findBySessionIdHash :: "string \<Rightarrow> auth_db \<Rightarrow> auth_session option" where
  "findBySessionIdHash h db = find (\<lambda>r. au_idHash r = h) (db_sessions db)"

text \<open>\<open>UPDATE auth_sessions SET ..., row_version = row_version + 1 WHERE session_id_hash = h AND row_version = n\<close>\<close>

definition update_session :: "(auth_session \<Rightarrow> auth_session) \<Rightarrow> string \<Rightarrow> int \<Rightarrow> auth_db \<Rightarrow> auth_db \<times> (js_error + unit)" where
  "update_session f h n db =
     (if list_ex (\<lambda>r. au_idHash r = h \<and> au_rowVersion r = n) (db_sessions db)
      then (db\<lparr>db_sessions := map (\<lambda>r. if au_idHash r = h \<and> au_rowVersion r = n then (f r)\<lparr>au_rowVersion := au_rowVersion r + 1\<rparr> else r) (db_sessions db)\<rparr>, Inr ())
      else (db, Inl (versionConflictError n)))"

definition touch_session :: "string \<Rightarrow> int \<Rightarrow> int \<Rightarrow> int \<Rightarrow> auth_db \<Rightarrow> auth_db \<times> (js_error + unit)" where
  "touch_session h seen idle = update_session (\<lambda>r. r\<lparr>au_lastSeenAt := seen, au_idleExpiresAt := idle\<rparr>) h"

definition revoke_session :: "string \<Rightarrow> int \<Rightarrow> int \<Rightarrow> auth_db \<Rightarrow> auth_db \<times> (js_error + unit)" where
  "revoke_session h at = update_session (\<lambda>r. r\<lparr>au_revokedAt := Some at\<rparr>) h"

section \<open>Login transactions\<close>

definition insert_auth_tx :: "auth_tx \<Rightarrow> auth_db \<Rightarrow> auth_db \<times> (js_error + unit)" where
  "insert_auth_tx t db =
     (if list_ex (\<lambda>x. ax_stateHash x = ax_stateHash t) (db_txs db) \<or> ax_rowVersion t < 0 then (db, Inl (MadeError ''INTERNAL''))
      else (db\<lparr>db_txs := db_txs db @ [t]\<rparr>, Inr ()))"

definition findByStateHash :: "string \<Rightarrow> auth_db \<Rightarrow> auth_tx option" where
  "findByStateHash h db = find (\<lambda>t. ax_stateHash t = h) (db_txs db)"

definition consumable :: "string \<Rightarrow> int \<Rightarrow> int \<Rightarrow> auth_tx \<Rightarrow> bool" where
  "consumable h at n t \<longleftrightarrow> ax_stateHash t = h \<and> ax_rowVersion t = n \<and> ax_consumedAt t = None \<and> ax_expiresAt t > at"

definition consume_tx :: "string \<Rightarrow> int \<Rightarrow> int \<Rightarrow> auth_db \<Rightarrow> auth_db \<times> (js_error + unit)" where
  "consume_tx h at n db =
     (if list_ex (consumable h at n) (db_txs db)
      then (db\<lparr>db_txs := map (\<lambda>t. if consumable h at n t then t\<lparr>ax_consumedAt := Some at, ax_rowVersion := ax_rowVersion t + 1\<rparr> else t) (db_txs db)\<rparr>, Inr ())
      else (db, Inl (versionConflictError n)))"

section \<open>Identities\<close>

text \<open>
  \<open>PostgresUserIdentityLinker.resolve\<close>: a lookup, and for a new subject one transaction that inserts a
  candidate user and the identity, where a concurrent winner's identity is kept.  What others do
  after the lookup and after the transaction is an argument.
\<close>

definition bound_user :: "string \<Rightarrow> string \<Rightarrow> auth_db \<Rightarrow> string option" where
  "bound_user issuer subject db = map_option ui_userId (find (\<lambda>i. ui_issuer i = issuer \<and> ui_subject i = subject) (db_identities db))"

definition refresh_identity :: "string \<Rightarrow> string \<Rightarrow> string \<Rightarrow> auth_db \<Rightarrow> auth_db" where
  "refresh_identity issuer subject login db =
     db\<lparr>db_identities := map (\<lambda>i. if ui_issuer i = issuer \<and> ui_subject i = subject then i\<lparr>ui_loginSnapshot := login\<rparr> else i) (db_identities db)\<rparr>"

definition bind_subject :: "string \<Rightarrow> string \<Rightarrow> string \<Rightarrow> string \<Rightarrow> auth_db \<Rightarrow> auth_db \<times> string" where
  "bind_subject candidate issuer subject login db =
     (let db1 = (if candidate \<in> set (db_users db) then db else db\<lparr>db_users := db_users db @ [candidate]\<rparr>) in
      case bound_user issuer subject db1 of
        Some u \<Rightarrow> (refresh_identity issuer subject login db1, u)
      | None \<Rightarrow> (db1\<lparr>db_identities := db_identities db1 @ [\<lparr>ui_userId = candidate, ui_issuer = issuer, ui_subject = subject, ui_loginSnapshot = login\<rparr>]\<rparr>, candidate))"

text \<open>The deletion of the orphan cascades to its sessions and tokens.\<close>

definition drop_orphan :: "string \<Rightarrow> auth_db \<Rightarrow> auth_db" where
  "drop_orphan u db =
     (if list_ex (\<lambda>i. ui_userId i = u) (db_identities db) then db
      else db\<lparr>db_users := filter (\<lambda>x. x \<noteq> u) (db_users db), db_sessions := filter (\<lambda>s. au_userId s \<noteq> u) (db_sessions db),
              db_tokens := filter (\<lambda>t. tk_userId t \<noteq> u) (db_tokens db)\<rparr>)"

definition resolve_identity ::
  "(auth_db \<Rightarrow> auth_db) \<Rightarrow> (auth_db \<Rightarrow> auth_db) \<Rightarrow> string \<Rightarrow> string \<Rightarrow> string \<Rightarrow> string \<Rightarrow> auth_db \<Rightarrow> auth_db \<times> string" where
  "resolve_identity others others' candidate issuer subject login db =
     (case bound_user issuer subject db of
        Some u \<Rightarrow> (refresh_identity issuer subject login (others db), u)
      | None \<Rightarrow>
          (case bind_subject candidate issuer subject login (others db) of
             (db', u) \<Rightarrow> if u = candidate then (db', u) else (drop_orphan candidate (others' db'), u)))"

section \<open>API tokens\<close>

definition insert_token :: "api_token \<Rightarrow> auth_db \<Rightarrow> auth_db \<times> (js_error + unit)" where
  "insert_token r db =
     (if list_ex (\<lambda>x. tk_id x = tk_id r \<or> tk_hash x = tk_hash r) (db_tokens db) \<or> tk_userId r \<notin> set (db_users db) \<or>
        \<not> within 64 (tk_label r) \<or> tk_rowVersion r < 0
      then (db, Inl (MadeError ''INTERNAL''))
      else (db\<lparr>db_tokens := db_tokens db @ [r]\<rparr>, Inr ()))"

definition findByTokenHash :: "string \<Rightarrow> auth_db \<Rightarrow> api_token option" where
  "findByTokenHash h db = find (\<lambda>r. tk_hash r = h) (db_tokens db)"

text \<open>Newest first; rows of one instant come in table order.\<close>

definition token_newer :: "api_token \<Rightarrow> api_token \<Rightarrow> int" where
  "token_newer a b = tk_createdAt b - tk_createdAt a"

definition tokens_of_owner :: "string \<Rightarrow> auth_db \<Rightarrow> api_token list" where
  "tokens_of_owner u db = js_sort token_newer (filter (\<lambda>r. tk_userId r = u) (db_tokens db))"

definition revoke_token :: "string \<Rightarrow> string \<Rightarrow> int \<Rightarrow> auth_db \<Rightarrow> auth_db" where
  "revoke_token i u at db =
     db\<lparr>db_tokens := map (\<lambda>r. if tk_id r = i \<and> tk_userId r = u \<and> tk_revokedAt r = None
                               then r\<lparr>tk_revokedAt := Some at, tk_rowVersion := tk_rowVersion r + 1\<rparr> else r) (db_tokens db)\<rparr>"

section \<open>What every serialization of statements keeps\<close>

datatype auth_op =
    LO_insertSession auth_session
  | LO_touch string int int int
  | LO_revoke string int int
  | LO_insertTx auth_tx
  | LO_consume string int int
  | LO_refresh string string string
  | LO_bind string string string string
  | LO_drop string
  | LO_insertToken api_token
  | LO_revokeToken string string int

fun auth_apply :: "auth_op \<Rightarrow> auth_db \<Rightarrow> auth_db" where
  "auth_apply (LO_insertSession r) db = fst (insert_auth_session r db)"
| "auth_apply (LO_touch h seen idle n) db = fst (touch_session h seen idle n db)"
| "auth_apply (LO_revoke h at n) db = fst (revoke_session h at n db)"
| "auth_apply (LO_insertTx t) db = fst (insert_auth_tx t db)"
| "auth_apply (LO_consume h at n) db = fst (consume_tx h at n db)"
| "auth_apply (LO_refresh i s l) db = refresh_identity i s l db"
| "auth_apply (LO_bind c i s l) db = fst (bind_subject c i s l db)"
| "auth_apply (LO_drop u) db = drop_orphan u db"
| "auth_apply (LO_insertToken r) db = fst (insert_token r db)"
| "auth_apply (LO_revokeToken i u at) db = revoke_token i u at db"

definition auth_run :: "auth_op list \<Rightarrow> auth_db \<Rightarrow> auth_db" where
  "auth_run ops db = fold auth_apply ops db"

definition empty_auth_db :: auth_db where
  "empty_auth_db = \<lparr>db_users = [], db_identities = [], db_sessions = [], db_txs = [], db_tokens = []\<rparr>"

definition auth_ok :: "auth_db \<Rightarrow> bool" where
  "auth_ok db \<longleftrightarrow> distinct (map au_idHash (db_sessions db)) \<and> distinct (map ax_stateHash (db_txs db)) \<and>
     distinct (map (\<lambda>i. (ui_issuer i, ui_subject i)) (db_identities db)) \<and>
     distinct (map tk_hash (db_tokens db)) \<and> (\<forall>i \<in> set (db_identities db). ui_userId i \<in> set (db_users db))"

lemma update_session_ok:
  assumes "auth_ok db" and "\<And>r. au_idHash (f r) = au_idHash r"
  shows "auth_ok (fst (update_session f h n db))"
  using assms by (simp add: update_session_def auth_ok_def map_if_key del: map_map)

lemma unbound_subject: "bound_user i s db = None \<longleftrightarrow> (i, s) \<notin> (\<lambda>x. (ui_issuer x, ui_subject x)) ` set (db_identities db)"
  by (auto simp: bound_user_def find_None_iff)

lemma auth_apply_ok: "auth_ok db \<Longrightarrow> auth_ok (auth_apply op db)"
proof (cases op)
  case (LO_touch h seen idle n)
  then show "auth_ok db \<Longrightarrow> ?thesis" by (simp add: touch_session_def update_session_ok)
next
  case (LO_revoke h at n)
  then show "auth_ok db \<Longrightarrow> ?thesis" by (simp add: revoke_session_def update_session_ok)
next
  case (LO_consume h at n)
  then show "auth_ok db \<Longrightarrow> ?thesis"
    by (simp add: consume_tx_def auth_ok_def map_if_key del: map_map)
next
  case (LO_refresh i s l)
  then show "auth_ok db \<Longrightarrow> ?thesis"
    by (auto simp: refresh_identity_def auth_ok_def map_if_key simp del: map_map)
next
  case (LO_bind c i s l)
  show "auth_ok db \<Longrightarrow> ?thesis"
  proof -
    assume ok: "auth_ok db"
    let ?db = "if c \<in> set (db_users db) then db else db\<lparr>db_users := db_users db @ [c]\<rparr>"
    have keep: "db_identities ?db = db_identities db" "db_sessions ?db = db_sessions db" "db_txs ?db = db_txs db" "db_tokens ?db = db_tokens db"
      "set (db_users db) \<subseteq> set (db_users ?db)" "c \<in> set (db_users ?db)" by auto
    show ?thesis
    proof (cases "bound_user i s ?db")
      case None
      then have "(i, s) \<notin> (\<lambda>x. (ui_issuer x, ui_subject x)) ` set (db_identities db)" by (simp add: unbound_subject keep)
      with None ok keep LO_bind show ?thesis by (auto simp: bind_subject_def auth_ok_def Let_def)
    next
      case (Some u)
      with ok keep LO_bind show ?thesis
        by (auto simp: bind_subject_def auth_ok_def Let_def refresh_identity_def map_if_key simp del: map_map)
    qed
  qed
next
  case (LO_drop u)
  then show "auth_ok db \<Longrightarrow> ?thesis" by (auto simp: drop_orphan_def auth_ok_def distinct_map_filter list_ex_iff)
next
  case (LO_revokeToken i u at)
  then show "auth_ok db \<Longrightarrow> ?thesis" by (simp add: revoke_token_def auth_ok_def map_if_key del: map_map)
qed (auto simp: insert_auth_session_def insert_auth_tx_def insert_token_def auth_ok_def list_ex_iff)

lemma auth_run_ok: "auth_ok db \<Longrightarrow> auth_ok (auth_run ops db)"
  unfolding auth_run_def by (induction ops arbitrary: db) (simp_all add: auth_apply_ok)

section \<open>A login transaction is spent once\<close>

fun consumes :: "string \<Rightarrow> auth_op \<Rightarrow> auth_db \<Rightarrow> bool" where
  "consumes h (LO_consume h' at n) db \<longleftrightarrow> h' = h \<and> snd (consume_tx h' at n db) = Inr ()"
| "consumes h _ db \<longleftrightarrow> False"

fun consumptions :: "string \<Rightarrow> auth_op list \<Rightarrow> auth_db \<Rightarrow> nat" where
  "consumptions h [] db = 0"
| "consumptions h (op # ops) db = (if consumes h op db then 1 else 0) + consumptions h ops (auth_apply op db)"

definition spent :: "string \<Rightarrow> auth_db \<Rightarrow> bool" where
  "spent h db \<longleftrightarrow> (\<exists>t \<in> set (db_txs db). ax_stateHash t = h) \<and> (\<forall>t \<in> set (db_txs db). ax_stateHash t = h \<longrightarrow> ax_consumedAt t \<noteq> None)"

lemma other_tables [simp]:
  "db_txs (fst (update_session f h n db)) = db_txs db"
  "db_txs (fst (insert_auth_session r db)) = db_txs db"
  "db_txs (refresh_identity i s l db) = db_txs db"
  "db_txs (fst (bind_subject c i s l db)) = db_txs db"
  "db_txs (drop_orphan u db) = db_txs db"
  "db_txs (fst (insert_token tk db)) = db_txs db"
  "db_txs (revoke_token i s at db) = db_txs db"
  by (simp_all add: update_session_def insert_auth_session_def refresh_identity_def bind_subject_def drop_orphan_def insert_token_def
      revoke_token_def Let_def split: option.splits)

lemma spent_stays: "spent h db \<Longrightarrow> spent h (auth_apply op db)"
  by (cases op) (auto simp: spent_def touch_session_def revoke_session_def insert_auth_tx_def consume_tx_def consumable_def list_ex_iff)

lemma spent_refuses: "spent h db \<Longrightarrow> \<not> consumes h op db"
  by (cases op) (auto simp: spent_def consume_tx_def consumable_def list_ex_iff)

lemma consumption_spends: "auth_ok db \<Longrightarrow> consumes h op db \<Longrightarrow> spent h (auth_apply op db)"
proof (cases op)
  case (LO_consume h' at n)
  assume ok: "auth_ok db" and c: "consumes h op db"
  from c LO_consume have h: "h' = h" by simp
  from c LO_consume obtain t where t: "t \<in> set (db_txs db)" "consumable h at n t" by (auto simp: consume_tx_def list_ex_iff split: if_splits)
  have "x = t" if "x \<in> set (db_txs db)" "ax_stateHash x = h" for x
    using ok t that inj_onD [of ax_stateHash "set (db_txs db)" x t] by (auto simp: auth_ok_def distinct_map consumable_def)
  let ?f = "\<lambda>t. if consumable h at n t then t\<lparr>ax_consumedAt := Some at, ax_rowVersion := ax_rowVersion t + 1\<rparr> else t"
  from t have txs: "db_txs (auth_apply op db) = map ?f (db_txs db)" unfolding LO_consume h by (auto simp: consume_tx_def list_ex_iff)
  have "ax_stateHash (?f t) = h \<and> ?f t \<in> set (map ?f (db_txs db))" using t by (auto simp: consumable_def)
  moreover have "ax_consumedAt x \<noteq> None" if x: "x \<in> set (map ?f (db_txs db))" "ax_stateHash x = h" for x
  proof -
    from x(1) obtain y where y: "y \<in> set (db_txs db)" "x = ?f y" by auto
    with x(2) have "ax_stateHash y = h" by (auto split: if_splits)
    with \<open>\<And>x. x \<in> set (db_txs db) \<Longrightarrow> ax_stateHash x = h \<Longrightarrow> x = t\<close> [OF y(1)] y(2) t(2) show ?thesis by simp
  qed
  ultimately show "spent h (auth_apply op db)" unfolding spent_def txs by blast
qed auto

lemma spent_consumptions: "spent h db \<Longrightarrow> consumptions h ops db = 0"
  by (induction ops arbitrary: db) (simp_all add: spent_stays spent_refuses)

lemma consumptions_le: "auth_ok db \<Longrightarrow> consumptions h ops db \<le> 1"
proof (induction ops arbitrary: db)
  case (Cons op ops)
  then show ?case
    using Cons.IH [OF auth_apply_ok [OF Cons.prems]] spent_consumptions [OF consumption_spends [OF Cons.prems]] by (cases "consumes h op db") auto
qed simp

section \<open>A revoked session stays revoked\<close>

text \<open>Whether a session with this hash could still be used at some time.\<close>

definition usable :: "string \<Rightarrow> auth_db \<Rightarrow> bool" where
  "usable h db \<longleftrightarrow> (\<exists>r \<in> set (db_sessions db). au_idHash r = h \<and> au_revokedAt r = None)"

lemma other_sessions [simp]:
  "db_sessions (fst (insert_auth_tx t db)) = db_sessions db"
  "db_sessions (fst (consume_tx h at n db)) = db_sessions db"
  "db_sessions (refresh_identity i s l db) = db_sessions db"
  "db_sessions (fst (bind_subject c i s l db)) = db_sessions db"
  "db_sessions (fst (insert_token tk db)) = db_sessions db"
  "db_sessions (revoke_token i s at db) = db_sessions db"
  by (simp_all add: insert_auth_tx_def consume_tx_def refresh_identity_def bind_subject_def insert_token_def revoke_token_def Let_def split: option.splits)

text \<open>No statement revives a session; only an insert of a new session with its hash could.\<close>

lemma unusable_stays:
  assumes "\<not> usable h db" and "\<And>r. op = LO_insertSession r \<Longrightarrow> au_idHash r \<noteq> h"
  shows "\<not> usable h (auth_apply op db)"
  using assms by (cases op)
    (auto simp: usable_def insert_auth_session_def touch_session_def revoke_session_def update_session_def drop_orphan_def)

lemma unusable_run:
  assumes "\<not> usable h db" and "\<And>r. LO_insertSession r \<in> set ops \<Longrightarrow> au_idHash r \<noteq> h"
  shows "\<not> usable h (auth_run ops db)"
  using assms unfolding auth_run_def
proof (induction ops arbitrary: db)
  case (Cons op ops)
  then show ?case using unusable_stays [of h db op] by simp
qed simp

lemma revocation_ends_use:
  assumes "auth_ok db" and "snd (revoke_session h at n db) = Inr ()"
  shows "\<not> usable h (fst (revoke_session h at n db))"
proof -
  from assms(2) obtain r where r: "r \<in> set (db_sessions db)" "au_idHash r = h" "au_rowVersion r = n"
    by (auto simp: revoke_session_def update_session_def list_ex_iff split: if_splits)
  have only: "x = r" if "x \<in> set (db_sessions db)" "au_idHash x = h" for x
    using assms(1) r(1,2) that inj_onD [of au_idHash "set (db_sessions db)" x r] by (simp add: auth_ok_def distinct_map)
  let ?f = "\<lambda>r. if au_idHash r = h \<and> au_rowVersion r = n then r\<lparr>au_revokedAt := Some at, au_rowVersion := au_rowVersion r + 1\<rparr> else r"
  from r have rows: "db_sessions (fst (revoke_session h at n db)) = map ?f (db_sessions db)"
    by (auto simp: revoke_session_def update_session_def list_ex_iff)
  have "au_revokedAt x \<noteq> None" if x: "x \<in> set (map ?f (db_sessions db))" "au_idHash x = h" for x
  proof -
    from x(1) obtain y where y: "y \<in> set (db_sessions db)" "x = ?f y" by auto
    with x(2) have "au_idHash y = h" by (auto split: if_splits)
    from only [OF y(1) this] y(2) r(2,3) show ?thesis by simp
  qed
  then show ?thesis unfolding usable_def rows by blast
qed

section \<open>Both tables are versioned stores\<close>

datatype session_change = Touched int int | Revoked int

fun change_session :: "session_change \<Rightarrow> auth_session \<Rightarrow> auth_session" where
  "change_session (Touched seen idle) r = r\<lparr>au_lastSeenAt := seen, au_idleExpiresAt := idle\<rparr>"
| "change_session (Revoked at) r = r\<lparr>au_revokedAt := Some at\<rparr>"

lemma change_session_keys [simp]:
  "au_idHash (change_session u r) = au_idHash r" "au_rowVersion (change_session u r) = au_rowVersion r"
  by (cases u; simp)+

definition cas_auth_session :: "auth_db \<Rightarrow> string \<Rightarrow> int \<Rightarrow> session_change \<Rightarrow> auth_db \<times> bool" where
  "cas_auth_session db h n u = (case update_session (change_session u) h n db of (db', r) \<Rightarrow> (db', r = Inr ()))"

definition auth_session_version :: "auth_db \<Rightarrow> string \<Rightarrow> int option" where
  "auth_session_version db h = map_option au_rowVersion (findBySessionIdHash h db)"

lemma cas_auth_session_cases:
  assumes "cas_auth_session db h n u = (db', b)"
  shows "db' = db \<and> \<not> b \<or>
    b \<and> list_ex (\<lambda>r. au_idHash r = h \<and> au_rowVersion r = n) (db_sessions db) \<and> db' = fst (update_session (change_session u) h n db)"
  using assms by (auto simp: cas_auth_session_def update_session_def split: if_splits)

lemma find_updated_session:
  "findBySessionIdHash k (fst (update_session (change_session u) h n db)) =
     map_option (\<lambda>r. if au_idHash r = h \<and> au_rowVersion r = n then (change_session u r)\<lparr>au_rowVersion := au_rowVersion r + 1\<rparr> else r)
       (findBySessionIdHash k db)"
proof (cases "list_ex (\<lambda>r. au_idHash r = h \<and> au_rowVersion r = n) (db_sessions db)")
  case True
  then show ?thesis by (simp add: update_session_def findBySessionIdHash_def, intro find_map_keep) simp
next
  case False
  then have "\<not> (au_idHash r = h \<and> au_rowVersion r = n)" if "findBySessionIdHash k db = Some r" for r
    using that find_sound [of _ "db_sessions db" r] by (auto simp: list_ex_iff findBySessionIdHash_def)
  with False show ?thesis by (cases "findBySessionIdHash k db") (auto simp: update_session_def)
qed

lemma session_found: "findBySessionIdHash h db = Some r \<Longrightarrow> r \<in> set (db_sessions db) \<and> au_idHash r = h"
  by (auto simp: findBySessionIdHash_def dest: find_sound)

interpretation login_sessions: versioned_store cas_auth_session auth_session_version auth_ok
proof
  fix s k n u
  assume "auth_ok s"
  then show "auth_ok (fst (cas_auth_session s k n u))"
    using update_session_ok [of s "change_session u" k n] by (simp add: cas_auth_session_def case_prod_unfold)
next
  fix s k n u s' v
  assume ok: "auth_ok s" and c: "cas_auth_session s k n u = (s', True)" and v: "auth_session_version s k = Some v"
  from v obtain r where r: "findBySessionIdHash k s = Some r" "au_rowVersion r = v" by (auto simp: auth_session_version_def)
  from cas_auth_session_cases [OF c] obtain x where x: "x \<in> set (db_sessions s)" "au_idHash x = k" "au_rowVersion x = n"
    and s': "s' = fst (update_session (change_session u) k n s)" by (auto simp: list_ex_iff)
  from session_found [OF r(1)] ok x have "x = r" using inj_onD [of au_idHash "set (db_sessions s)" x r] by (auto simp: auth_ok_def distinct_map)
  with x r s' session_found [OF r(1)] show "v = n \<and> auth_session_version s' k = Some (n + 1)"
    by (simp add: auth_session_version_def find_updated_session)
next
  fix s k n u s'
  assume "cas_auth_session s k n u = (s', False)"
  from cas_auth_session_cases [OF this] show "s' = s" by simp
next
  fix s k n u s' b k'
  assume c: "cas_auth_session s k n u = (s', b)" and other: "k' \<noteq> k"
  have "au_idHash r \<noteq> k" if "findBySessionIdHash k' s = Some r" for r using session_found [OF that] other by simp
  with cas_auth_session_cases [OF c] show "auth_session_version s' k' = auth_session_version s k'"
    by (cases "findBySessionIdHash k' s") (auto simp: auth_session_version_def find_updated_session)
qed

section \<open>One subject, one user\<close>

lemma bound_user_refreshed [simp]: "bound_user i s (refresh_identity i' s' l db) = bound_user i s db"
proof -
  let ?f = "\<lambda>x. if ui_issuer x = i' \<and> ui_subject x = s' then x\<lparr>ui_loginSnapshot := l\<rparr> else x"
  have "find (\<lambda>x. ui_issuer x = i \<and> ui_subject x = s) (map ?f (db_identities db)) =
      map_option ?f (find (\<lambda>x. ui_issuer x = i \<and> ui_subject x = s) (db_identities db))"
    by (rule find_map_keep) simp
  then show ?thesis
    by (simp add: bound_user_def refresh_identity_def option.map_comp o_def if_distrib [of ui_userId] cong: if_cong)
qed

lemma bound_user_dropped [simp]: "bound_user i s (drop_orphan u db) = bound_user i s db"
  by (simp add: bound_user_def drop_orphan_def)

lemma bound_user_appended:
  "bound_user i s db = Some u \<Longrightarrow> bound_user i s (db\<lparr>db_identities := db_identities db @ xs\<rparr>) = Some u"
  by (auto simp: bound_user_def find_snoc)

lemma bound_user_same [simp]:
  "bound_user i s (db\<lparr>db_users := us\<rparr>) = bound_user i s db"
  "bound_user i s (db\<lparr>db_sessions := ss\<rparr>) = bound_user i s db"
  "bound_user i s (db\<lparr>db_txs := ts\<rparr>) = bound_user i s db"
  "bound_user i s (db\<lparr>db_tokens := ks\<rparr>) = bound_user i s db"
  by (simp_all add: bound_user_def)

lemma bound_after_bind:
  "bind_subject c i s l db = (db', u) \<Longrightarrow> bound_user i s db' = Some u"
  by (auto simp: bind_subject_def Let_def split: option.splits if_splits) (auto simp: bound_user_def find_snoc split: option.splits)

lemma bind_keeps_binding:
  assumes "bound_user i s db = Some u"
  shows "bound_user i s (fst (bind_subject c i' s' l db)) = Some u"
proof -
  let ?db = "if c \<in> set (db_users db) then db else db\<lparr>db_users := db_users db @ [c]\<rparr>"
  have "bound_user i s ?db = Some u" using assms by simp
  then show ?thesis
    by (cases "bound_user i' s' ?db") (simp_all only: bind_subject_def Let_def option.case fst_conv bound_user_refreshed bound_user_appended)
qed

text \<open>A user bound to a subject stays bound, and the linker answers with the bound user.\<close>

lemma binding_is_kept:
  assumes "bound_user i s db = Some u"
  shows "bound_user i s (auth_apply op db) = Some u"
  using assms by (cases op)
    (simp_all add: bind_keeps_binding insert_auth_session_def touch_session_def revoke_session_def update_session_def
      insert_auth_tx_def consume_tx_def insert_token_def revoke_token_def)

lemma bindings_are_kept: "bound_user i s db = Some u \<Longrightarrow> bound_user i s (auth_run ops db) = Some u"
  unfolding auth_run_def by (induction ops arbitrary: db) (simp_all add: binding_is_kept)

text \<open>
  One subject has one user: whatever happens between the steps of a login and after it, the user the
  login was answered with is the one every later lookup of the subject finds.
\<close>

theorem subject_keeps_its_user:
  assumes "resolve_identity (auth_run ops) (auth_run ops') c i s l db = (db', u)"
  shows "bound_user i s (auth_run later db') = Some u"
proof (cases "bound_user i s db")
  case None
  with assms obtain d u' where b: "bind_subject c i s l (auth_run ops db) = (d, u')" and u: "u' = u"
    and d: "db' = (if u = c then d else drop_orphan c (auth_run ops' d))"
    by (auto simp: resolve_identity_def split: prod.splits if_splits)
  from bound_after_bind [OF b] u have "bound_user i s d = Some u" by simp
  with d bindings_are_kept show ?thesis by simp
next
  case (Some v)
  with assms bindings_are_kept [OF Some, of ops] show ?thesis by (auto simp: resolve_identity_def intro!: bindings_are_kept)
qed

theorem subject_keeps_its_user_witness:
  "bound_user ''github'' ''42'' (auth_run [] (fst (resolve_identity (auth_run [LO_bind ''v'' ''github'' ''42'' ''b'']) (auth_run []) ''u'' ''github'' ''42'' ''a'' empty_auth_db))) = Some ''v''"
proof -
  have "resolve_identity (auth_run [LO_bind ''v'' ''github'' ''42'' ''b'']) (auth_run []) ''u'' ''github'' ''42'' ''a'' empty_auth_db =
     (fst (resolve_identity (auth_run [LO_bind ''v'' ''github'' ''42'' ''b'']) (auth_run []) ''u'' ''github'' ''42'' ''a'' empty_auth_db), ''v'')"
    by (simp add: resolve_identity_def auth_run_def bind_subject_def bound_user_def empty_auth_db_def)
  from subject_keeps_its_user [OF this] show ?thesis .
qed

end
