(* ===== verification/Login_Service.thy ===== *)
theory Login_Service
  imports Login_Store
begin

text \<open>
  Authentication, \<open>packages/auth/src\<close>: the login flow and session lifecycle of \<open>service.ts\<close>, the hashes of
  \<open>tokens.ts\<close> and the bearer tokens of \<open>api-tokens.ts\<close>, over ports that may answer anything, throw and
  change the world, and then over the durable tables.  SHA-256, its base64url form, the random
  sources and the clock are parameters; times are milliseconds.
\<close>

section \<open>Tokens\<close>

definition hashToken :: "(string \<Rightarrow> string) \<Rightarrow> string \<Rightarrow> string" where
  "hashToken sha256 token = sha256 (''devguard.session.v1:'' @ token)"

definition hashApiToken :: "(string \<Rightarrow> string) \<Rightarrow> string \<Rightarrow> string" where
  "hashApiToken sha256 plaintext = sha256 (''devguard.api_token.v1:'' @ plaintext)"

definition API_TOKEN_PREFIX :: string where
  "API_TOKEN_PREFIX = ''dgv1_''"

definition isApiTokenShape :: "string \<Rightarrow> bool" where
  "isApiTokenShape v \<longleftrightarrow> js_startsWith v API_TOKEN_PREFIX \<and> 40 \<le> length v"

section \<open>Ports\<close>

record ext_identity =
  id_issuer :: string
  id_subject :: string
  id_login :: string
  id_displayName :: "string option"

datatype login_call =
    LC_TxInsert auth_tx
  | LC_TxFind string
  | LC_TxConsume string int int
  | LC_Exchange string string string
  | LC_FetchIdentity string
  | LC_Resolve string string string "string option"
  | LC_SessionInsert auth_session
  | LC_SessionFind string
  | LC_SessionTouch string int int int
  | LC_SessionRevoke string int int
  | LC_TokenInsert api_token
  | LC_TokenFind string
  | LC_TokenList string
  | LC_TokenRevoke string string int

record 'w login_ports =
  lp_authorizeUrl :: "string \<Rightarrow> string \<Rightarrow> string \<Rightarrow> string"
  lp_exchangeCode :: "string \<Rightarrow> string \<Rightarrow> string \<Rightarrow> ('w, string) port"
  lp_fetchIdentity :: "string \<Rightarrow> ('w, ext_identity) port"
  lp_txInsert :: "auth_tx \<Rightarrow> ('w, unit) port"
  lp_txFind :: "string \<Rightarrow> ('w, auth_tx option) port"
  lp_txConsume :: "string \<Rightarrow> int \<Rightarrow> int \<Rightarrow> ('w, unit) port"
  lp_sessionInsert :: "auth_session \<Rightarrow> ('w, unit) port"
  lp_sessionFind :: "string \<Rightarrow> ('w, auth_session option) port"
  lp_sessionTouch :: "string \<Rightarrow> int \<Rightarrow> int \<Rightarrow> int \<Rightarrow> ('w, unit) port"
  lp_sessionRevoke :: "string \<Rightarrow> int \<Rightarrow> int \<Rightarrow> ('w, unit) port"
  lp_resolveUser :: "string \<Rightarrow> string \<Rightarrow> string \<Rightarrow> string option \<Rightarrow> ('w, string) port"
  lp_idleMinutes :: int
  lp_absoluteHours :: int
  lp_redirectUri :: string
  lp_now :: "'w \<Rightarrow> int"
  lp_opaqueToken :: "'w \<Rightarrow> 'w \<times> string"
  lp_pkceVerifier :: "'w \<Rightarrow> 'w \<times> string"

type_synonym ('w, 'a) login_eff = "('w, login_call, 'a) eff"

definition LOGIN_TRANSACTION_TTL_MS :: int where
  "LOGIN_TRANSACTION_TTL_MS = 10 * 60000"

text \<open>\<open>error instanceof Error && error.message.startsWith('VERSION_CONFLICT')\<close>; no catalogue message starts so.\<close>

definition is_conflict :: "js_error \<Rightarrow> bool" where
  "is_conflict e =
     (case e of NonError _ \<Rightarrow> False | ErrorObject m \<Rightarrow> js_startsWith m ''VERSION_CONFLICT''
      | ErrorClass _ m \<Rightarrow> js_startsWith m ''VERSION_CONFLICT'' | MadeError _ \<Rightarrow> False)"

definition safeReturnTo :: "string option \<Rightarrow> string" where
  "safeReturnTo raw =
     (case raw of
        Some r \<Rightarrow>
          if js_startsWith r ''/'' \<and> \<not> js_startsWith r ''//'' \<and> \<not> js_includes r [CHR 0x5C]
          then (if r = ''/'' then ''/repositories'' else r) else ''/repositories''
      | None \<Rightarrow> ''/repositories'')"

section \<open>Login\<close>

record start_login_result =
  sl_stateToken :: string
  sl_authorizeUrl :: string
  sl_expiresAt :: int

definition startLogin :: "(string \<Rightarrow> string) \<Rightarrow> (string \<Rightarrow> string) \<Rightarrow> 'w login_ports \<Rightarrow> string option \<Rightarrow> ('w, start_login_result) login_eff" where
  "startLogin sha256 s256 ports returnTo =
     readE (lp_now ports) (\<lambda>now.
     bindE (fresh_id (lp_opaqueToken ports)) (\<lambda>stateToken.
     bindE (fresh_id (lp_pkceVerifier ports)) (\<lambda>verifier.
     let tx = \<lparr>ax_stateHash = hashToken sha256 stateToken, ax_verifier = verifier, ax_returnTo = safeReturnTo returnTo, ax_createdAt = now,
               ax_expiresAt = now + LOGIN_TRANSACTION_TTL_MS, ax_consumedAt = None, ax_rowVersion = 0\<rparr> in
     bindE (callE (LC_TxInsert tx) (lp_txInsert ports tx)) (\<lambda>_.
     retE \<lparr>sl_stateToken = stateToken, sl_authorizeUrl = lp_authorizeUrl ports stateToken (s256 verifier) (lp_redirectUri ports),
           sl_expiresAt = now + LOGIN_TRANSACTION_TTL_MS\<rparr>))))"

record complete_login_result =
  cl_sessionToken :: string
  cl_sessionIdHash :: string
  cl_userId :: string
  cl_returnToPath :: string
  cl_expiresAt :: int

definition find_tx :: "'w login_ports \<Rightarrow> string \<Rightarrow> ('w, auth_tx option) login_eff" where
  "find_tx ports h = callE (LC_TxFind h) (lp_txFind ports h)"

definition consume_or_conflict :: "'w login_ports \<Rightarrow> string \<Rightarrow> int \<Rightarrow> int \<Rightarrow> ('w, unit) login_eff" where
  "consume_or_conflict ports h now n =
     catchE (callE (LC_TxConsume h now n) (lp_txConsume ports h now n))
       (\<lambda>e. throwE (if is_conflict e then MadeError ''IDEMPOTENCY_KEY_CONFLICT'' else e))"

definition fetch_identity :: "'w login_ports \<Rightarrow> string \<Rightarrow> string \<Rightarrow> ('w, ext_identity) login_eff" where
  "fetch_identity ports code verifier =
     catchE (bindE (callE (LC_Exchange code verifier (lp_redirectUri ports)) (lp_exchangeCode ports code verifier (lp_redirectUri ports)))
               (\<lambda>accessToken. callE (LC_FetchIdentity accessToken) (lp_fetchIdentity ports accessToken)))
       (\<lambda>_. throwE (MadeError ''DEPENDENCY_UNAVAILABLE''))"

definition minted_session :: "(string \<Rightarrow> string) \<Rightarrow> 'w login_ports \<Rightarrow> ext_identity \<Rightarrow> string \<Rightarrow> string \<Rightarrow> int \<Rightarrow> auth_session" where
  "minted_session sha256 ports identity userId token now =
     \<lparr>au_idHash = hashToken sha256 token, au_userId = userId, au_issuer = id_issuer identity, au_subject = id_subject identity,
      au_login = Some (id_login identity), au_displayName = id_displayName identity, au_createdAt = now, au_lastSeenAt = now,
      au_idleExpiresAt = now + lp_idleMinutes ports * 60000, au_absoluteExpiresAt = now + lp_absoluteHours ports * 3600000,
      au_revokedAt = None, au_rowVersion = 0\<rparr>"

definition mint_session :: "(string \<Rightarrow> string) \<Rightarrow> 'w login_ports \<Rightarrow> auth_tx \<Rightarrow> ext_identity \<Rightarrow> int \<Rightarrow> ('w, complete_login_result) login_eff" where
  "mint_session sha256 ports tx identity now =
     bindE (callE (LC_Resolve (id_issuer identity) (id_subject identity) (id_login identity) (id_displayName identity))
              (lp_resolveUser ports (id_issuer identity) (id_subject identity) (id_login identity) (id_displayName identity))) (\<lambda>userId.
     bindE (fresh_id (lp_opaqueToken ports)) (\<lambda>token.
     let s = minted_session sha256 ports identity userId token now in
     bindE (callE (LC_SessionInsert s) (lp_sessionInsert ports s)) (\<lambda>_.
     retE \<lparr>cl_sessionToken = token, cl_sessionIdHash = hashToken sha256 token, cl_userId = userId,
           cl_returnToPath = safeReturnTo (Some (ax_returnTo tx)), cl_expiresAt = au_absoluteExpiresAt s\<rparr>)))"

definition spend_transaction ::
  "(string \<Rightarrow> string) \<Rightarrow> 'w login_ports \<Rightarrow> string \<Rightarrow> string \<Rightarrow> int \<Rightarrow> auth_tx option \<Rightarrow> ('w, complete_login_result) login_eff" where
  "spend_transaction sha256 ports code h now found =
     (case found of
        None \<Rightarrow> throwE (MadeError ''UNAUTHENTICATED'')
      | Some tx \<Rightarrow>
          if ax_expiresAt tx < now then throwE (MadeError ''UNAUTHENTICATED'')
          else if ax_consumedAt tx \<noteq> None then throwE (MadeError ''IDEMPOTENCY_KEY_CONFLICT'')
          else
            bindE (consume_or_conflict ports h now (ax_rowVersion tx)) (\<lambda>_.
            bindE (fetch_identity ports code (ax_verifier tx)) (\<lambda>identity.
            mint_session sha256 ports tx identity now)))"

definition completeLogin ::
  "(string \<Rightarrow> string) \<Rightarrow> 'w login_ports \<Rightarrow> string option \<Rightarrow> string option \<Rightarrow> ('w, complete_login_result) login_eff" where
  "completeLogin sha256 ports code stateToken =
     readE (lp_now ports) (\<lambda>now.
     case (stateToken, code) of
       (Some st, Some c) \<Rightarrow>
         bindE (find_tx ports (hashToken sha256 st)) (spend_transaction sha256 ports c (hashToken sha256 st) now)
     | _ \<Rightarrow> throwE (MadeError ''UNAUTHENTICATED''))"

section \<open>Sessions\<close>

definition find_session_by_hash :: "'w login_ports \<Rightarrow> string \<Rightarrow> ('w, auth_session option) login_eff" where
  "find_session_by_hash ports h = callE (LC_SessionFind h) (lp_sessionFind ports h)"

definition revokeIfExists :: "(string \<Rightarrow> string) \<Rightarrow> 'w login_ports \<Rightarrow> string \<Rightarrow> ('w, bool) login_eff" where
  "revokeIfExists sha256 ports token =
     (let h = hashToken sha256 token in
      bindE (find_session_by_hash ports h) (\<lambda>found.
      case found of
        None \<Rightarrow> throwE (MadeError ''UNAUTHENTICATED'')
      | Some r \<Rightarrow>
          if au_revokedAt r \<noteq> None then retE False
          else readE (lp_now ports) (\<lambda>now.
            catchE (bindE (callE (LC_SessionRevoke h now (au_rowVersion r)) (lp_sessionRevoke ports h now (au_rowVersion r))) (\<lambda>_. retE True))
              (\<lambda>e. if is_conflict e then retE False else throwE (MadeError ''INTERNAL'')))))"

definition lapsed :: "int \<Rightarrow> auth_session \<Rightarrow> bool" where
  "lapsed now r \<longleftrightarrow> au_revokedAt r \<noteq> None \<or> au_idleExpiresAt r < now \<or> au_absoluteExpiresAt r < now"

datatype auth_method = By_session | By_api_token

record auth_principal =
  pp_userId :: string
  pp_issuer :: string
  pp_subject :: string
  pp_login :: "string option"
  pp_displayName :: "string option"
  pp_authMethod :: auth_method
  pp_sessionIdHash :: "string option"
  pp_tokenIdHash :: "string option"
  pp_authenticatedAt :: int

definition session_principal :: "string \<Rightarrow> auth_session \<Rightarrow> auth_principal" where
  "session_principal h r =
     \<lparr>pp_userId = au_userId r, pp_issuer = au_issuer r, pp_subject = au_subject r, pp_login = au_login r, pp_displayName = au_displayName r,
      pp_authMethod = By_session, pp_sessionIdHash = Some h, pp_tokenIdHash = None, pp_authenticatedAt = au_createdAt r\<rparr>"

text \<open>Whether the sliding window is refreshed, with half a window compared without the division.\<close>

definition touch_due :: "int \<Rightarrow> auth_session \<Rightarrow> bool" where
  "touch_due now r \<longleftrightarrow>
     (let idleWindow = au_idleExpiresAt r - au_lastSeenAt r in
      2 * (now - au_lastSeenAt r) > idleWindow \<and> au_absoluteExpiresAt r - idleWindow > now)"

definition touch_or_recheck :: "'w login_ports \<Rightarrow> string \<Rightarrow> int \<Rightarrow> auth_session \<Rightarrow> ('w, bool) login_eff" where
  "touch_or_recheck ports h now r =
     (let idle = now + (au_idleExpiresAt r - au_lastSeenAt r) in
      catchE (bindE (callE (LC_SessionTouch h now idle (au_rowVersion r)) (lp_sessionTouch ports h now idle (au_rowVersion r))) (\<lambda>_. retE True))
        (\<lambda>e. if is_conflict e
             then bindE (find_session_by_hash ports h) (\<lambda>latest. retE (case latest of None \<Rightarrow> False | Some l \<Rightarrow> \<not> lapsed now l))
             else retE True))"

definition resolvePrincipal :: "(string \<Rightarrow> string) \<Rightarrow> 'w login_ports \<Rightarrow> string option \<Rightarrow> ('w, auth_principal option) login_eff" where
  "resolvePrincipal sha256 ports token =
     (case token of
        None \<Rightarrow> retE None
      | Some t \<Rightarrow>
          if length t < 20 then retE None
          else (let h = hashToken sha256 t in
            bindE (find_session_by_hash ports h) (\<lambda>found.
            case found of
              None \<Rightarrow> retE None
            | Some r \<Rightarrow>
                readE (lp_now ports) (\<lambda>now.
                if lapsed now r then retE None
                else bindE (if touch_due now r then touch_or_recheck ports h now r else retE True) (\<lambda>ok.
                  retE (if ok then Some (session_principal h r) else None))))))"

definition revokeSession :: "(string \<Rightarrow> string) \<Rightarrow> 'w login_ports \<Rightarrow> string \<Rightarrow> ('w, unit) login_eff" where
  "revokeSession sha256 ports token =
     (let h = hashToken sha256 token in
      bindE (find_session_by_hash ports h) (\<lambda>found.
      case found of
        None \<Rightarrow> throwE (MadeError ''UNAUTHENTICATED'')
      | Some r \<Rightarrow>
          if au_revokedAt r \<noteq> None then retE ()
          else readE (lp_now ports) (\<lambda>now.
            catchE (callE (LC_SessionRevoke h now (au_rowVersion r)) (lp_sessionRevoke ports h now (au_rowVersion r)))
              (\<lambda>e. if is_conflict e
                   then bindE (find_session_by_hash ports h) (\<lambda>current.
                     throwE (case current of
                       Some c \<Rightarrow> if 0 \<le> au_rowVersion r \<and> 0 \<le> au_rowVersion c then MadeError ''VERSION_CONFLICT'' else rejected_details ''VERSION_CONFLICT''
                     | None \<Rightarrow> rejected_details ''VERSION_CONFLICT''))
                   else throwE (MadeError ''INTERNAL'')))))"

section \<open>API tokens\<close>

record 'w token_ports =
  tp_insert :: "api_token \<Rightarrow> ('w, unit) port"
  tp_findByTokenHash :: "string \<Rightarrow> ('w, api_token option) port"
  tp_listByOwner :: "string \<Rightarrow> ('w, api_token list) port"
  tp_revoke :: "string \<Rightarrow> string \<Rightarrow> int \<Rightarrow> ('w, unit) port"
  tp_ownerProfile :: "(string \<times> string option) option"
  tp_now :: "'w \<Rightarrow> int"
  tp_randomSecret :: "'w \<Rightarrow> 'w \<times> string"
  tp_randomUUID :: "'w \<Rightarrow> 'w \<times> string"
  tp_tokenTtlDays :: "int option"

definition DEFAULT_TOKEN_TTL_DAYS :: int where
  "DEFAULT_TOKEN_TTL_DAYS = 90"

definition tokenTtlMs :: "'w token_ports \<Rightarrow> int" where
  "tokenTtlMs ports = (case tp_tokenTtlDays ports of None \<Rightarrow> DEFAULT_TOKEN_TTL_DAYS | Some d \<Rightarrow> d) * 24 * 3600000"

definition control_char :: "char \<Rightarrow> bool" where
  "control_char c = (let n = (of_char c :: nat) in n \<le> 31 \<or> 127 \<le> n \<and> n \<le> 159)"

text \<open>\<open>None\<close> stands for a label that is not a string.\<close>

definition normalizeTokenLabel :: "string option \<Rightarrow> js_error + string" where
  "normalizeTokenLabel raw =
     (case raw of
        None \<Rightarrow> Inl (MadeError ''VALIDATION_FAILED'')
      | Some r \<Rightarrow>
          (let label = js_trim r in
           if \<not> within 64 label then Inl (MadeError ''VALIDATION_FAILED'')
           else if list_ex control_char label then Inl (MadeError ''VALIDATION_FAILED'')
           else Inr label))"

record issued_token =
  it_token :: string
  it_tokenId :: string
  it_expiresAt :: int

definition issue_token :: "(string \<Rightarrow> string) \<Rightarrow> 'w token_ports \<Rightarrow> string \<Rightarrow> string option \<Rightarrow> ('w, issued_token) login_eff" where
  "issue_token sha256 ports owner rawLabel =
     (case normalizeTokenLabel rawLabel of
        Inl e \<Rightarrow> throwE e
      | Inr label \<Rightarrow>
          readE (tp_now ports) (\<lambda>now.
          bindE (fresh_id (tp_randomSecret ports)) (\<lambda>secret.
          bindE (fresh_id (tp_randomUUID ports)) (\<lambda>i.
          let plaintext = API_TOKEN_PREFIX @ secret;
              r = \<lparr>tk_id = i, tk_userId = owner, tk_hash = hashApiToken sha256 plaintext, tk_label = label, tk_createdAt = now,
                   tk_lastUsedAt = None, tk_expiresAt = now + tokenTtlMs ports, tk_revokedAt = None, tk_rowVersion = 0\<rparr> in
          bindE (callE (LC_TokenInsert r) (tp_insert ports r)) (\<lambda>_.
          retE \<lparr>it_token = plaintext, it_tokenId = i, it_expiresAt = now + tokenTtlMs ports\<rparr>)))))"

record token_summary =
  ts_tokenId :: string
  ts_label :: string
  ts_createdAt :: int
  ts_lastUsedAt :: "int option"
  ts_expiresAt :: int
  ts_revokedAt :: "int option"

definition summary_of :: "api_token \<Rightarrow> token_summary" where
  "summary_of r = \<lparr>ts_tokenId = tk_id r, ts_label = tk_label r, ts_createdAt = tk_createdAt r, ts_lastUsedAt = tk_lastUsedAt r,
     ts_expiresAt = tk_expiresAt r, ts_revokedAt = tk_revokedAt r\<rparr>"

definition list_tokens :: "'w token_ports \<Rightarrow> string \<Rightarrow> ('w, token_summary list) login_eff" where
  "list_tokens ports owner = bindE (callE (LC_TokenList owner) (tp_listByOwner ports owner)) (\<lambda>rs. retE (map summary_of rs))"

definition revoke_owner_token :: "'w token_ports \<Rightarrow> string \<Rightarrow> string \<Rightarrow> ('w, unit) login_eff" where
  "revoke_owner_token ports i owner =
     readE (tp_now ports) (\<lambda>now. bindE (callE (LC_TokenRevoke i owner now) (tp_revoke ports i owner now)) (\<lambda>_. retE ()))"

definition token_principal :: "(string \<Rightarrow> string) \<Rightarrow> 'w token_ports \<Rightarrow> api_token \<Rightarrow> auth_principal" where
  "token_principal sha256 ports r =
     \<lparr>pp_userId = tk_userId r, pp_issuer = ''devguard'', pp_subject = tk_userId r, pp_login = map_option fst (tp_ownerProfile ports),
      pp_displayName = Option.bind (tp_ownerProfile ports) snd, pp_authMethod = By_api_token, pp_sessionIdHash = None,
      pp_tokenIdHash = Some (hashToken sha256 (tk_id r)), pp_authenticatedAt = tk_createdAt r\<rparr>"

definition authenticate :: "(string \<Rightarrow> string) \<Rightarrow> 'w token_ports \<Rightarrow> string \<Rightarrow> ('w, auth_principal option) login_eff" where
  "authenticate sha256 ports bearer =
     (if bearer = [] \<or> \<not> isApiTokenShape bearer then retE None
      else (let h = hashApiToken sha256 bearer in
        bindE (callE (LC_TokenFind h) (tp_findByTokenHash ports h)) (\<lambda>found.
        case found of
          None \<Rightarrow> retE None
        | Some r \<Rightarrow>
            if tk_revokedAt r \<noteq> None then retE None
            else readE (tp_now ports) (\<lambda>now.
              if tk_expiresAt r \<le> now then retE None else retE (Some (token_principal sha256 ports r))))))"

section \<open>A session is minted only from a spent login transaction\<close>

lemma consume_calls [simp]: "eff_calls (consume_or_conflict ports h now n) w = [LC_TxConsume h now n]"
  by (simp add: consume_or_conflict_def calls_catchE split: sum.splits)

lemma consumed_ok: "eff_result (consume_or_conflict ports h now n) w = Inr a \<Longrightarrow> snd (lp_txConsume ports h now n w) = Inr ()"
  by (simp add: consume_or_conflict_def result_catchE split: sum.splits)

lemma fetch_calls:
  assumes "eff_result (fetch_identity ports code verifier) w = Inr i"
  shows "\<exists>token. answers (lp_exchangeCode ports code verifier (lp_redirectUri ports)) token \<and> answers (lp_fetchIdentity ports token) i \<and>
    eff_calls (fetch_identity ports code verifier) w = [LC_Exchange code verifier (lp_redirectUri ports), LC_FetchIdentity token]"
  using assms by (auto simp: fetch_identity_def eff_simps intro: answersI split: sum.splits)

lemma fetch_mints_nothing: "LC_SessionInsert s \<notin> set (eff_calls (fetch_identity ports code verifier) w)"
  by (auto simp: fetch_identity_def eff_simps split: sum.splits)

lemma mint_calls:
  assumes "LC_SessionInsert s \<in> set (eff_calls (mint_session sha256 ports tx identity now) w)"
  shows "\<exists>userId token. answers (lp_resolveUser ports (id_issuer identity) (id_subject identity) (id_login identity) (id_displayName identity)) userId \<and>
    s = minted_session sha256 ports identity userId token now \<and>
    eff_calls (mint_session sha256 ports tx identity now) w =
      [LC_Resolve (id_issuer identity) (id_subject identity) (id_login identity) (id_displayName identity), LC_SessionInsert s]"
  using assms by (auto simp: mint_session_def eff_simps Let_def split: sum.splits) (blast intro: answersI)

text \<open>
  Property C15.  A session is minted only from a login transaction that was spent: the transaction of the presented
  state was found unexpired and unconsumed, was consumed before the provider was asked, the
  code was exchanged with its own verifier, the identity was fetched and resolved, and one
  session of that user was inserted, all in that order; and however the statements of all
  requests are serialized, a transaction is consumed at most once.
\<close>

theorem session_needs_spent_transaction:
  assumes "LC_SessionInsert s \<in> set (eff_calls (completeLogin sha256 ports code stateToken) w)" and "auth_ok db"
  shows "\<exists>c st tx access identity userId token. code = Some c \<and> stateToken = Some st \<and>
    answers (lp_txFind ports (hashToken sha256 st)) (Some tx) \<and> ax_consumedAt tx = None \<and> lp_now ports w \<le> ax_expiresAt tx \<and>
    answers (lp_txConsume ports (hashToken sha256 st) (lp_now ports w) (ax_rowVersion tx)) () \<and>
    answers (lp_exchangeCode ports c (ax_verifier tx) (lp_redirectUri ports)) access \<and> answers (lp_fetchIdentity ports access) identity \<and>
    answers (lp_resolveUser ports (id_issuer identity) (id_subject identity) (id_login identity) (id_displayName identity)) userId \<and>
    s = minted_session sha256 ports identity userId token (lp_now ports w) \<and>
    eff_calls (completeLogin sha256 ports code stateToken) w =
      [LC_TxFind (hashToken sha256 st), LC_TxConsume (hashToken sha256 st) (lp_now ports w) (ax_rowVersion tx),
       LC_Exchange c (ax_verifier tx) (lp_redirectUri ports), LC_FetchIdentity access,
       LC_Resolve (id_issuer identity) (id_subject identity) (id_login identity) (id_displayName identity), LC_SessionInsert s] \<and>
    consumptions (hashToken sha256 st) ops db \<le> 1"
proof -
  let ?now = "lp_now ports w"
  from assms(1) obtain c st where cs: "code = Some c" "stateToken = Some st" by (auto simp: completeLogin_def split: option.splits)
  let ?h = "hashToken sha256 st"
  have eq: "eff_calls (completeLogin sha256 ports code stateToken) w = eff_calls (bindE (find_tx ports ?h) (spend_transaction sha256 ports c ?h ?now)) w"
    by (simp add: completeLogin_def cs)
  from call_reached [OF assms(1) [unfolded eq]] obtain found v where f: "snd (lp_txFind ports ?h w) = Inr found"
    and e1: "eff_calls (completeLogin sha256 ports code stateToken) w = LC_TxFind ?h # eff_calls (spend_transaction sha256 ports c ?h ?now found) v"
    and s1: "LC_SessionInsert s \<in> set (eff_calls (spend_transaction sha256 ports c ?h ?now found) v)"
    unfolding eq by (auto simp: find_tx_def)
  from s1 obtain tx where tx: "found = Some tx" "?now \<le> ax_expiresAt tx" "ax_consumedAt tx = None"
    by (auto simp: spend_transaction_def split: option.splits if_splits)
  let ?rest = "\<lambda>_. bindE (fetch_identity ports c (ax_verifier tx)) (\<lambda>identity. mint_session sha256 ports tx identity ?now)"
  have sp: "spend_transaction sha256 ports c ?h ?now found = bindE (consume_or_conflict ports ?h ?now (ax_rowVersion tx)) ?rest"
    using tx by (simp add: spend_transaction_def)
  from call_reached [OF s1 [unfolded sp]] obtain u where k: "snd (lp_txConsume ports ?h ?now (ax_rowVersion tx) v) = Inr ()"
    and e2: "eff_calls (spend_transaction sha256 ports c ?h ?now found) v = LC_TxConsume ?h ?now (ax_rowVersion tx) # eff_calls (?rest ()) u"
    and s2: "LC_SessionInsert s \<in> set (eff_calls (?rest ()) u)"
    unfolding sp by (auto dest: consumed_ok)
  from call_reached [OF s2 fetch_mints_nothing] obtain identity u' where i: "eff_result (fetch_identity ports c (ax_verifier tx)) u = Inr identity"
    and e3: "eff_calls (?rest ()) u = eff_calls (fetch_identity ports c (ax_verifier tx)) u @ eff_calls (mint_session sha256 ports tx identity ?now) u'"
    and s3: "LC_SessionInsert s \<in> set (eff_calls (mint_session sha256 ports tx identity ?now) u')" by blast
  from fetch_calls [OF i] obtain access where
    a: "answers (lp_exchangeCode ports c (ax_verifier tx) (lp_redirectUri ports)) access" "answers (lp_fetchIdentity ports access) identity"
      "eff_calls (fetch_identity ports c (ax_verifier tx)) u = [LC_Exchange c (ax_verifier tx) (lp_redirectUri ports), LC_FetchIdentity access]" by blast
  from mint_calls [OF s3] obtain userId token where
    m: "answers (lp_resolveUser ports (id_issuer identity) (id_subject identity) (id_login identity) (id_displayName identity)) userId"
      "s = minted_session sha256 ports identity userId token ?now"
      "eff_calls (mint_session sha256 ports tx identity ?now) u' =
        [LC_Resolve (id_issuer identity) (id_subject identity) (id_login identity) (id_displayName identity), LC_SessionInsert s]" by blast
  from e1 e2 e3 a(3) m(3) have calls: "eff_calls (completeLogin sha256 ports code stateToken) w =
      [LC_TxFind ?h, LC_TxConsume ?h ?now (ax_rowVersion tx), LC_Exchange c (ax_verifier tx) (lp_redirectUri ports), LC_FetchIdentity access,
       LC_Resolve (id_issuer identity) (id_subject identity) (id_login identity) (id_displayName identity), LC_SessionInsert s]" by simp
  have af: "answers (lp_txFind ports ?h) (Some tx)" using f tx by (blast intro: answersI)
  have ak: "answers (lp_txConsume ports ?h ?now (ax_rowVersion tx)) ()" using k by (blast intro: answersI)
  show ?thesis using cs tx af ak a(1,2) m(1,2) calls consumptions_le [OF assms(2), of ?h ops] by blast
qed

section \<open>Who a session makes a principal\<close>

text \<open>
  A request is given a principal only for the session whose hash is that of its token, found not
  revoked and within both of its limits at the time of the check; the sliding window is only
  moved to a time before the absolute limit.
\<close>

theorem principal_is_live:
  assumes "eff_result (resolvePrincipal sha256 ports token) w = Inr (Some p)"
  shows "\<exists>t r. token = Some t \<and> 20 \<le> length t \<and> snd (lp_sessionFind ports (hashToken sha256 t) w) = Inr (Some r) \<and>
    p = session_principal (hashToken sha256 t) r \<and> au_revokedAt r = None \<and>
    (let now = lp_now ports (fst (lp_sessionFind ports (hashToken sha256 t) w)) in now \<le> au_idleExpiresAt r \<and> now \<le> au_absoluteExpiresAt r) \<and>
    (\<forall>h seen idle n. LC_SessionTouch h seen idle n \<in> set (eff_calls (resolvePrincipal sha256 ports token) w) \<longrightarrow>
       h = hashToken sha256 t \<and> n = au_rowVersion r \<and> idle < au_absoluteExpiresAt r)"
proof -
  from assms obtain t where t: "token = Some t" "20 \<le> length t" by (auto simp: resolvePrincipal_def split: option.splits if_splits)
  let ?h = "hashToken sha256 t"
  from assms t obtain r where f: "snd (lp_sessionFind ports ?h w) = Inr (Some r)"
    by (auto simp: resolvePrincipal_def find_session_by_hash_def result_bindE Let_def split: sum.splits option.splits)
  let ?w = "fst (lp_sessionFind ports ?h w)"
  let ?now = "lp_now ports ?w"
  let ?check = "if touch_due ?now r then touch_or_recheck ports ?h ?now r else retE True"
  have eq: "eff_result (resolvePrincipal sha256 ports token) w =
      eff_result (if lapsed ?now r then retE None else bindE ?check (\<lambda>ok. retE (if ok then Some (session_principal ?h r) else None))) ?w"
    "eff_calls (resolvePrincipal sha256 ports token) w = LC_SessionFind ?h #
      eff_calls (if lapsed ?now r then retE None else bindE ?check (\<lambda>ok. retE (if ok then Some (session_principal ?h r) else None))) ?w"
    using t f by (simp_all add: resolvePrincipal_def find_session_by_hash_def result_bindE calls_bindE Let_def)
  have live: "\<not> lapsed ?now r" using assms by (auto simp: eq)
  then have p: "p = session_principal ?h r" using assms unfolding eq by (auto simp: result_bindE split: sum.splits if_splits)
  have "h = ?h \<and> n = au_rowVersion r \<and> idle < au_absoluteExpiresAt r"
    if "LC_SessionTouch h seen idle n \<in> set (eff_calls (resolvePrincipal sha256 ports token) w)" for h seen idle n
  proof -
    from that live have "LC_SessionTouch h seen idle n \<in> set (eff_calls ?check ?w)" unfolding eq by (auto simp: calls_bindE split: sum.splits)
    then have due: "touch_due ?now r" and c: "LC_SessionTouch h seen idle n \<in> set (eff_calls (touch_or_recheck ports ?h ?now r) ?w)"
      by (auto split: if_splits)
    from c have "h = ?h \<and> n = au_rowVersion r \<and> idle = ?now + (au_idleExpiresAt r - au_lastSeenAt r)"
      by (auto simp: touch_or_recheck_def find_session_by_hash_def eff_simps Let_def eff_if split: sum.splits if_splits)
    with due show ?thesis by (simp add: touch_due_def Let_def)
  qed
  with t f p live show ?thesis by (auto simp: lapsed_def Let_def)
qed

section \<open>The service over the durable tables\<close>

text \<open>
  The ports of the composition: the world is the database beside the rest, and other requests'
  statements may fall between the lookup of a session and what follows it.
\<close>

definition on_db :: "(auth_db \<Rightarrow> auth_db \<times> (js_error + 'a)) \<Rightarrow> (auth_db \<times> 'x, 'a) port" where
  "on_db f w = (case f (fst w) of (db, r) \<Rightarrow> ((db, snd w), r))"

definition durable_login :: "(auth_db \<Rightarrow> auth_db) \<Rightarrow> (auth_db \<times> 'x) login_ports \<Rightarrow> (auth_db \<times> 'x) login_ports" where
  "durable_login others base =
     base\<lparr>lp_txInsert := \<lambda>t. on_db (insert_auth_tx t), lp_txFind := \<lambda>h. on_db (\<lambda>db. (others db, Inr (findByStateHash h db))),
       lp_txConsume := \<lambda>h at n. on_db (consume_tx h at n), lp_sessionInsert := \<lambda>r. on_db (insert_auth_session r),
       lp_sessionFind := \<lambda>h. on_db (\<lambda>db. (others db, Inr (findBySessionIdHash h db))),
       lp_sessionTouch := \<lambda>h seen idle n. on_db (touch_session h seen idle n),
       lp_sessionRevoke := \<lambda>h at n. on_db (revoke_session h at n)\<rparr>"

lemma unusable_lookup: "\<not> usable h db \<Longrightarrow> findBySessionIdHash h db = Some r \<Longrightarrow> au_revokedAt r \<noteq> None"
  using session_found by (auto simp: usable_def)

lemma change_touched: "change_session (Touched seen idle) = (\<lambda>r. r\<lparr>au_lastSeenAt := seen, au_idleExpiresAt := idle\<rparr>)"
  by (rule ext) simp

text \<open>
  Property C16.  Revocation is final: once a session was revoked in the table, its token is never given a principal
  again, whatever statements of other requests follow and whatever falls into the check itself, as long
  as no new session gets the same hash.
\<close>

theorem revoked_session_is_dead:
  assumes "auth_ok db" and "snd (revoke_session (hashToken sha256 t) at n db) = Inr ()"
    and "\<And>r. LO_insertSession r \<in> set ops \<Longrightarrow> au_idHash r \<noteq> hashToken sha256 t"
  shows "eff_result (resolvePrincipal sha256 (durable_login others base) (Some t))
    (auth_run ops (fst (revoke_session (hashToken sha256 t) at n db)), x) = Inr None"
proof -
  let ?h = "hashToken sha256 t"
  let ?db = "auth_run ops (fst (revoke_session ?h at n db))"
  have "\<not> usable ?h ?db" by (intro unusable_run revocation_ends_use assms)
  from unusable_lookup [OF this] have "findBySessionIdHash ?h ?db = None \<or> (\<exists>r. findBySessionIdHash ?h ?db = Some r \<and> lapsed m r)" for m
    by (cases "findBySessionIdHash ?h ?db") (auto simp: lapsed_def)
  then show ?thesis
    by (auto simp: resolvePrincipal_def find_session_by_hash_def result_bindE durable_login_def on_db_def Let_def split: option.splits)
qed

text \<open>
  A logout can be lost: when another request of the session refreshes its sliding window between the
  lookup and the revocation, the conflict is taken for a concurrent revocation, the logout is reported as
  done, and the session stays usable with its new window.
\<close>

theorem logout_lost_to_touch:
  assumes "auth_ok db" and "findBySessionIdHash (hashToken sha256 t) db = Some r" and "au_revokedAt r = None"
  shows "let h = hashToken sha256 t;
             ports = durable_login (\<lambda>d. fst (touch_session h seen idle (au_rowVersion r) d)) base;
             db' = fst (eff_world (revokeIfExists sha256 ports t) (db, x)) in
    eff_result (revokeIfExists sha256 ports t) (db, x) = Inr False \<and>
    map_option (\<lambda>s. (au_revokedAt s, au_idleExpiresAt s)) (findBySessionIdHash h db') = Some (None, idle)"
proof -
  let ?h = "hashToken sha256 t"
  let ?ports = "durable_login (\<lambda>d. fst (touch_session ?h seen idle (au_rowVersion r) d)) base"
  let ?db = "fst (touch_session ?h seen idle (au_rowVersion r) db)"
  let ?r = "r\<lparr>au_lastSeenAt := seen, au_idleExpiresAt := idle, au_rowVersion := au_rowVersion r + 1\<rparr>"
  have found: "findBySessionIdHash ?h ?db = Some ?r"
    using find_updated_session [of ?h "Touched seen idle" ?h "au_rowVersion r" db] assms(2) session_found [OF assms(2)]
    by (simp add: touch_session_def change_touched)
  have ok: "auth_ok ?db" using assms(1) by (simp add: touch_session_def update_session_ok)
  have conflict: "revoke_session ?h at (au_rowVersion r) ?db = (?db, Inl (versionConflictError (au_rowVersion r)))" for at
  proof -
    have "au_rowVersion y \<noteq> au_rowVersion r" if y: "y \<in> set (db_sessions ?db)" "au_idHash y = ?h" for y
    proof -
      from session_found [OF found] y ok have "y = ?r" using inj_onD [of au_idHash "set (db_sessions ?db)" y ?r] by (simp add: auth_ok_def distinct_map)
      then show ?thesis by simp
    qed
    then show ?thesis by (auto simp: revoke_session_def update_session_def list_ex_iff)
  qed
  have vc: "is_conflict (versionConflictError m)" for m
    by (simp add: is_conflict_def versionConflictError_def js_startsWith_def)
  have "eff_result (revokeIfExists sha256 ?ports t) (db, x) = Inr False \<and> eff_world (revokeIfExists sha256 ?ports t) (db, x) = (?db, x)"
    using assms(2,3) conflict vc
    by (simp add: revokeIfExists_def find_session_by_hash_def eff_simps durable_login_def on_db_def Let_def)
  with found assms(3) show ?thesis by (simp add: Let_def)
qed

text \<open>
  The path a login returns to starts with one slash and has no backslash; a tab after the slash is let
  through, and a browser drops it.
\<close>

lemma return_path_is_local:
  "js_startsWith (safeReturnTo raw) ''/'' \<and> \<not> js_startsWith (safeReturnTo raw) ''//'' \<and> \<not> js_includes (safeReturnTo raw) [CHR 0x5C]"
  "safeReturnTo (Some (safeReturnTo raw)) = safeReturnTo raw"
  "safeReturnTo (Some (''/'' @ [CHR 0x09] @ ''/evil.example'')) = ''/'' @ [CHR 0x09] @ ''/evil.example''"
  by (auto simp: safeReturnTo_def js_startsWith_def split: option.splits)

text \<open>A bearer token is a principal only when it has the shape of one and its record is found, not revoked and not expired.\<close>

lemma token_principal_is_live:
  assumes "eff_result (authenticate sha256 ports bearer) w = Inr (Some p)"
  shows "\<exists>r. isApiTokenShape bearer \<and> snd (tp_findByTokenHash ports (hashApiToken sha256 bearer) w) = Inr (Some r) \<and>
    tk_revokedAt r = None \<and> tp_now ports (fst (tp_findByTokenHash ports (hashApiToken sha256 bearer) w)) < tk_expiresAt r \<and>
    p = token_principal sha256 ports r"
  using assms by (auto simp: authenticate_def result_bindE Let_def split: if_splits sum.splits option.splits)

section \<open>Concrete sessions\<close>

definition sample_login_session :: auth_session where
  "sample_login_session =
     \<lparr>au_idHash = hashToken id (replicate 20 (CHR ''a'')), au_userId = ''u'', au_issuer = ''github'', au_subject = ''42'', au_login = Some ''l'',
      au_displayName = None, au_createdAt = 0, au_lastSeenAt = 0, au_idleExpiresAt = 100, au_absoluteExpiresAt = 1000, au_revokedAt = None,
      au_rowVersion = 0\<rparr>"

definition sample_tx :: auth_tx where
  "sample_tx = \<lparr>ax_stateHash = hashToken id ''state'', ax_verifier = ''v'', ax_returnTo = ''/runs'', ax_createdAt = 0, ax_expiresAt = 600000,
     ax_consumedAt = None, ax_rowVersion = 0\<rparr>"

definition sample_auth_db :: auth_db where
  "sample_auth_db = \<lparr>db_users = [''u''], db_identities = [], db_sessions = [sample_login_session], db_txs = [sample_tx], db_tokens = []\<rparr>"

definition sample_login_ports :: "(auth_db \<times> unit) login_ports" where
  "sample_login_ports = durable_login id
     \<lparr>lp_authorizeUrl = \<lambda>s c r. r, lp_exchangeCode = \<lambda>_ _ _ w. (w, Inr ''access''),
      lp_fetchIdentity = \<lambda>_ w. (w, Inr \<lparr>id_issuer = ''github'', id_subject = ''42'', id_login = ''l'', id_displayName = None\<rparr>),
      lp_txInsert = \<lambda>_ w. (w, Inr ()), lp_txFind = \<lambda>_ w. (w, Inr None), lp_txConsume = \<lambda>_ _ _ w. (w, Inr ()),
      lp_sessionInsert = \<lambda>_ w. (w, Inr ()), lp_sessionFind = \<lambda>_ w. (w, Inr None), lp_sessionTouch = \<lambda>_ _ _ _ w. (w, Inr ()),
      lp_sessionRevoke = \<lambda>_ _ _ w. (w, Inr ()), lp_resolveUser = \<lambda>_ _ _ _ w. (w, Inr ''u''), lp_idleMinutes = 30, lp_absoluteHours = 8,
      lp_redirectUri = ''/callback'', lp_now = \<lambda>_. 60, lp_opaqueToken = \<lambda>w. (w, ''token''), lp_pkceVerifier = \<lambda>w. (w, ''v'')\<rparr>"

lemma sample_auth_ok: "auth_ok sample_auth_db"
  by (simp add: auth_ok_def sample_auth_db_def)

lemma sample_lookup:
  "findBySessionIdHash (hashToken id (replicate 20 (CHR ''a''))) sample_auth_db = Some sample_login_session"
  by (simp add: findBySessionIdHash_def sample_auth_db_def sample_login_session_def)

theorem session_needs_spent_transaction_witness:
  "\<exists>access. answers (lp_exchangeCode sample_login_ports ''c'' ''v'' ''/callback'') access \<and> consumptions (hashToken id ''state'') [] sample_auth_db \<le> 1"
proof -
  let ?i = "\<lparr>id_issuer = ''github'', id_subject = ''42'', id_login = ''l'', id_displayName = None\<rparr>"
  have "LC_SessionInsert (minted_session id sample_login_ports ?i ''u'' ''token'' 60) \<in>
      set (eff_calls (completeLogin id sample_login_ports (Some ''c'') (Some ''state'')) (sample_auth_db, ()))"
    by (simp add: completeLogin_def find_tx_def spend_transaction_def consume_or_conflict_def fetch_identity_def mint_session_def eff_simps
        sample_login_ports_def durable_login_def on_db_def findByStateHash_def sample_auth_db_def sample_tx_def hashToken_def consume_tx_def
        consumable_def Let_def minted_session_def)
  from session_needs_spent_transaction [OF this sample_auth_ok, of "[]"] show ?thesis
    by (auto simp: sample_login_ports_def durable_login_def answers_def)
qed

theorem principal_is_live_witness:
  "\<exists>t. replicate 20 (CHR ''a'') = t \<and> snd (lp_sessionFind sample_login_ports (hashToken id t) (sample_auth_db, ())) = Inr (Some sample_login_session)"
proof -
  have "eff_result (resolvePrincipal id sample_login_ports (Some (replicate 20 (CHR ''a'')))) (sample_auth_db, ()) =
      Inr (Some (session_principal (hashToken id (replicate 20 (CHR ''a''))) sample_login_session))"
    by (simp add: resolvePrincipal_def find_session_by_hash_def touch_or_recheck_def eff_simps Let_def sample_login_ports_def durable_login_def on_db_def
        sample_lookup touch_session_def update_session_def)
      (simp add: sample_login_session_def lapsed_def sample_auth_db_def versionConflictError_def is_conflict_def)
  from principal_is_live [OF this] show ?thesis
    by (auto simp: sample_login_ports_def durable_login_def on_db_def sample_lookup)
qed

theorem revoked_session_is_dead_witness:
  "eff_result (resolvePrincipal id sample_login_ports (Some (replicate 20 (CHR ''a''))))
     (auth_run [LO_touch (hashToken id (replicate 20 (CHR ''a''))) 50 500 1] (fst (revoke_session (hashToken id (replicate 20 (CHR ''a''))) 10 0 sample_auth_db)), ()) = Inr None"
proof -
  have r: "snd (revoke_session (hashToken id (replicate 20 (CHR ''a''))) 10 0 sample_auth_db) = Inr ()"
    by (simp add: revoke_session_def update_session_def sample_auth_db_def sample_login_session_def)
  show ?thesis unfolding sample_login_ports_def by (rule revoked_session_is_dead [OF sample_auth_ok r]) simp
qed

theorem logout_lost_to_touch_witness:
  "let ports = durable_login (\<lambda>d. fst (touch_session (hashToken id (replicate 20 (CHR ''a''))) 60 160 0 d)) sample_login_ports in
    eff_result (revokeIfExists id ports (replicate 20 (CHR ''a''))) (sample_auth_db, ()) = Inr False"
proof -
  have u: "au_revokedAt sample_login_session = None" "au_rowVersion sample_login_session = 0" by (simp_all add: sample_login_session_def)
  from logout_lost_to_touch [OF sample_auth_ok sample_lookup u(1), of 60 160 sample_login_ports "()"] show ?thesis by (simp add: Let_def u)
qed

end
