(* ===== verification/Command_Output.thy ===== *)
theory Command_Output
  imports DG_Prelude
begin

text \<open>
  The output of sandbox commands, \<open>packages/sandbox/src/commands/output-normalizer.ts\<close>: chunks are stripped of
  controls, secrets are redacted across chunk borders, and a bounded number of bytes is taken into
  a digest.  A text is the list of its Unicode code points, as \<open>Array.from\<close> yields them
  (no lone surrogates, as decoded output has none); the text taken
  into the digest so far is part of the state, and SHA-256 is a parameter.
\<close>

type_synonym utext = "nat list"

section \<open>UTF-8\<close>

definition cp_bytes :: "nat \<Rightarrow> nat" where
  "cp_bytes c = (if c < 128 then 1 else if c < 2048 then 2 else if c < 65536 then 3 else 4)"

definition byteLength :: "utext \<Rightarrow> nat" where
  "byteLength t = sum_list (map cp_bytes t)"

text \<open>
  \<open>bytes.subarray(0, n).toString('utf8')\<close>: the code points that fit, and the replacement character for
  one that was cut.
\<close>

fun decode_first :: "nat \<Rightarrow> utext \<Rightarrow> utext" where
  "decode_first n [] = []"
| "decode_first n (c # cs) =
     (if cp_bytes c \<le> n then c # decode_first (n - cp_bytes c) cs else if 0 < n then [65533] else [])"

section \<open>Redaction\<close>

text \<open>\<open>[REDACTED]\<close>\<close>

definition REDACTED :: utext where
  "REDACTED = [82, 69, 68, 65, 67, 84, 69, 68]"

definition TOKEN :: utext where
  "TOKEN = 91 # REDACTED @ [93]"

text \<open>\<open>acc.split(secret).join('[REDACTED]')\<close>; an empty secret splits into the single characters.\<close>

function replace_all :: "utext \<Rightarrow> utext \<Rightarrow> utext" where
  "replace_all s [] = []"
| "replace_all s (c # cs) =
     (if s \<noteq> [] \<and> prefix s (c # cs) then TOKEN @ replace_all s (drop (length s) (c # cs)) else c # replace_all s cs)"
  by pat_completeness auto
termination
  by (relation "measure (\<lambda>(s, t). length t)") (auto simp: neq_Nil_conv)

fun between_all :: "utext \<Rightarrow> utext" where
  "between_all [] = []"
| "between_all [c] = [c]"
| "between_all (c # d # cs) = c # TOKEN @ between_all (d # cs)"

definition redact_secret :: "utext \<Rightarrow> utext \<Rightarrow> utext" where
  "redact_secret acc secret = (if secret = [] then between_all acc else replace_all secret acc)"

definition redact :: "utext list \<Rightarrow> utext \<Rightarrow> utext" where
  "redact secretValues text = foldl redact_secret text secretValues"

definition longestSecret :: "utext list \<Rightarrow> nat" where
  "longestSecret secretValues = foldl (\<lambda>m s. max m (byteLength s)) 0 secretValues"

section \<open>Controls\<close>

definition ansi_param :: "nat \<Rightarrow> bool" where
  "ansi_param c \<longleftrightarrow> 48 \<le> c \<and> c \<le> 57 \<or> c = 59"

definition ansi_letter :: "nat \<Rightarrow> bool" where
  "ansi_letter c \<longleftrightarrow> 65 \<le> c \<and> c \<le> 90 \<or> 97 \<le> c \<and> c \<le> 122"

text \<open>What follows \<open>ESC [\<close>, when it is a sequence: the rest behind its letter.\<close>

definition ansi_rest :: "utext \<Rightarrow> utext option" where
  "ansi_rest t =
     (case dropWhile ansi_param t of c # cs \<Rightarrow> if ansi_letter c then Some cs else None | [] \<Rightarrow> None)"

lemma ansi_rest_shorter: "ansi_rest t = Some r \<Longrightarrow> length r < length t"
  using length_dropWhile_le [of ansi_param t] by (auto simp: ansi_rest_def split: list.splits if_splits)

function strip_ansi :: "utext \<Rightarrow> utext" where
  "strip_ansi [] = []"
| "strip_ansi (c # cs) =
     (case (if c = 27 then (case cs of d # ds \<Rightarrow> if d = 91 then ansi_rest ds else None | [] \<Rightarrow> None) else None) of
        Some r \<Rightarrow> strip_ansi r
      | None \<Rightarrow> c # strip_ansi cs)"
  by pat_completeness auto
termination
  by (relation "measure length") (auto split: list.splits if_splits dest: ansi_rest_shorter)

definition kept_char :: "nat \<Rightarrow> bool" where
  "kept_char c \<longleftrightarrow> 32 \<le> c \<or> c \<in> {10, 9, 13}"

definition stripControls :: "utext \<Rightarrow> utext" where
  "stripControls text = filter kept_char (strip_ansi text)"

section \<open>The normalizer\<close>

record output_normalizer =
  on_outputId :: string
  on_maxBytes :: nat
  on_secretValues :: "utext list"
  on_bytes :: nat
  on_chunkCount :: nat
  on_truncated :: bool
  on_taken :: utext
  on_carry :: utext

record output_ref =
  or_outputId :: string
  or_bytes :: nat
  or_truncated :: bool
  or_checksum :: string
  or_chunks :: nat

definition new_OutputNormalizer :: "string \<Rightarrow> nat \<Rightarrow> utext list \<Rightarrow> output_normalizer" where
  "new_OutputNormalizer i m secrets =
     \<lparr>on_outputId = i, on_maxBytes = m, on_secretValues = secrets, on_bytes = 0, on_chunkCount = 0, on_truncated = False,
      on_taken = [], on_carry = []\<rparr>"

definition accept :: "utext \<Rightarrow> output_normalizer \<Rightarrow> output_normalizer \<times> nat" where
  "accept text n =
     (let safe = decode_first (on_maxBytes n - on_bytes n) text in
      (n\<lparr>on_taken := on_taken n @ safe, on_bytes := on_bytes n + byteLength safe\<rparr>, byteLength safe))"

definition flush :: "bool \<Rightarrow> output_normalizer \<Rightarrow> output_normalizer \<times> nat" where
  "flush final n =
     (let redacted = redact (on_secretValues n) (on_carry n);
          keep = (if final then 0 else longestSecret (on_secretValues n) - 1);
          boundary = take (length redacted - keep) redacted in
      accept boundary (n\<lparr>on_carry := if final then [] else drop (length redacted - keep) redacted\<rparr>))"

definition ingest :: "utext \<Rightarrow> output_normalizer \<Rightarrow> output_normalizer" where
  "ingest raw n =
     (let normalized = stripControls raw in
      case flush False (n\<lparr>on_carry := on_carry n @ normalized\<rparr>) of
        (n', accepted) \<Rightarrow>
          n'\<lparr>on_chunkCount := on_chunkCount n' + 1, on_truncated := on_truncated n' \<or> accepted < byteLength normalized\<rparr>)"

definition finalize_output :: "(utext \<Rightarrow> string) \<Rightarrow> output_normalizer \<Rightarrow> output_normalizer \<times> output_ref" where
  "finalize_output sha256 n =
     (let n' = (if on_carry n \<noteq> [] then fst (flush True n) else n) in
      (n', \<lparr>or_outputId = on_outputId n', or_bytes = on_bytes n', or_truncated = on_truncated n', or_checksum = sha256 (on_taken n'),
            or_chunks = on_chunkCount n'\<rparr>))"

section \<open>Redacted text has no secret\<close>

text \<open>
  The secrets for which redaction can work: not empty, and unable to overlap the token that
  replaces them or the replacement character.
\<close>

definition redactable :: "utext \<Rightarrow> bool" where
  "redactable s \<longleftrightarrow> s \<noteq> [] \<and> 91 \<notin> set s \<and> 93 \<notin> set s \<and> 65533 \<notin> set s \<and> \<not> sublist s REDACTED"

lemma sublist_split_at:
  assumes "sublist s (x @ m # y)" and "m \<notin> set s"
  shows "sublist s x \<or> sublist s y"
  using assms(1)
proof (induction x)
  case Nil
  with assms(2) show ?case by (cases s) (auto simp: sublist_Cons_right)
next
  case (Cons c x)
  then consider "prefix s (c # x @ m # y)" | "sublist s (x @ m # y)" by (auto simp: sublist_Cons_right)
  then show ?case
  proof cases
    case 1
    then have "prefix s (c # x)"
      using assms(2) by (cases "length s \<le> length (c # x)") (auto simp: prefix_def append_eq_append_conv2 append_eq_Cons_conv Cons_eq_append_conv)
    then show ?thesis by auto
  next
    case 2
    with Cons.IH show ?thesis by (auto simp: sublist_Cons_right)
  qed
qed

lemma sublist_over_token:
  assumes "redactable s" and "sublist s (a @ TOKEN @ b)"
  shows "sublist s a \<or> sublist s b"
proof -
  from assms have "sublist s a \<or> sublist s (REDACTED @ 93 # b)"
    using sublist_split_at [of s a 91 "REDACTED @ 93 # b"] by (simp add: TOKEN_def redactable_def)
  with assms(1) sublist_split_at [of s REDACTED 93 b] show ?thesis by (auto simp: redactable_def)
qed

lemma prefix_of_replaced: "91 \<notin> set p \<Longrightarrow> prefix p (replace_all s t) \<Longrightarrow> prefix p t"
proof (induction s t arbitrary: p rule: replace_all.induct)
  case (2 s c cs)
  then show ?case by (cases p) (auto simp: TOKEN_def split: if_splits)
qed simp

lemma absent_stays:
  assumes "redactable u" and "\<not> sublist u t"
  shows "\<not> sublist u (replace_all s t)"
  using assms(2)
proof (induction s t rule: replace_all.induct)
  case (1 s)
  then show ?case by simp
next
  case (2 s c cs)
  show ?case
  proof (cases "s \<noteq> [] \<and> prefix s (c # cs)")
    case True
    have "\<not> sublist u (drop (length s) (c # cs))" using 2(3) sublist_order.order_trans [OF _ sublist_drop] by blast
    with 2(1) True have "\<not> sublist u (replace_all s (drop (length s) (c # cs)))" by blast
    with True sublist_over_token [OF assms(1), of "[]" "replace_all s (drop (length s) (c # cs))"] assms(1)
    show ?thesis by (auto simp: redactable_def)
  next
    case False
    from 2(3) have "\<not> prefix u (c # cs)" "\<not> sublist u cs" by (auto simp: sublist_Cons_right)
    moreover have "prefix u (c # cs)" if "prefix u (c # replace_all s cs)"
      using that assms(1) prefix_of_replaced [of "tl u" s cs] by (cases u) (auto simp: redactable_def)
    ultimately show ?thesis using 2(2) [OF False] False by (auto simp: sublist_Cons_right)
  qed
qed

lemma replaced_absent: "redactable s \<Longrightarrow> \<not> sublist s (replace_all s t)"
proof (induction s t rule: replace_all.induct)
  case (1 s)
  then show ?case by (simp add: redactable_def)
next
  case (2 s c cs)
  show ?case
  proof (cases "s \<noteq> [] \<and> prefix s (c # cs)")
    case True
    with 2(1) [OF True 2(3)] sublist_over_token [OF 2(3), of "[]" "replace_all s (drop (length s) (c # cs))"] 2(3)
    show ?thesis by (auto simp: redactable_def)
  next
    case False
    with 2(3) have "\<not> prefix s (c # cs)" by (simp add: redactable_def)
    moreover have "prefix s (c # cs)" if "prefix s (c # replace_all s cs)"
      using that 2(3) prefix_of_replaced [of "tl s" s cs] by (cases s) (auto simp: redactable_def)
    ultimately show ?thesis using 2(2) [OF False 2(3)] False by (auto simp: sublist_Cons_right)
  qed
qed

lemma replaced_or_same: "replace_all s t = t \<or> 91 \<in> set (replace_all s t)"
  by (induction s t rule: replace_all.induct) (auto simp: TOKEN_def)

lemma bracket_stays: "91 \<notin> set s \<Longrightarrow> 91 \<in> set t \<Longrightarrow> 91 \<in> set (replace_all s t)"
proof (induction s t rule: replace_all.induct)
  case (2 s c cs)
  then show ?case by (auto simp: TOKEN_def)
qed simp

definition free_of :: "utext list \<Rightarrow> utext \<Rightarrow> bool" where
  "free_of secrets t \<longleftrightarrow> list_all (\<lambda>s. \<not> sublist s t) secrets"

lemma redact_properties:
  assumes "list_all redactable secrets"
  shows "free_of secrets (redact secrets t)"
    and "91 \<notin> set p \<Longrightarrow> prefix p (redact secrets t) \<Longrightarrow> prefix p t"
    and "redact secrets t = t \<or> 91 \<in> set (redact secrets t)"
    and "91 \<in> set t \<Longrightarrow> 91 \<in> set (redact secrets t)"
    and "redactable u \<Longrightarrow> \<not> sublist u t \<Longrightarrow> \<not> sublist u (redact secrets t)"
proof -
  have step: "redact (s # ss) t = redact ss (replace_all s t)" if "redactable s" for s ss t
    using that by (simp add: redact_def redact_secret_def redactable_def)
  show keep: "redactable u \<Longrightarrow> \<not> sublist u t \<Longrightarrow> \<not> sublist u (redact secrets t)" for u
    using assms by (induction secrets arbitrary: t) (simp_all add: step absent_stays, simp add: redact_def)
  show "free_of secrets (redact secrets t)"
    using assms
  proof (induction secrets arbitrary: t)
    case (Cons s ss)
    have "\<not> sublist s (redact ss v)" if "\<not> sublist s v" for v
      using Cons.prems that by (induction ss arbitrary: v) (simp_all add: step absent_stays, simp add: redact_def)
    with Cons show ?case by (simp add: free_of_def step replaced_absent)
  qed (simp add: free_of_def)
  show "prefix p t" if "91 \<notin> set p" and "prefix p (redact secrets t)"
    using assms that(2) by (induction secrets arbitrary: t) (auto simp: step dest: prefix_of_replaced [OF that(1)], simp add: redact_def)
  show br: "91 \<in> set (redact secrets t)" if "91 \<in> set t"
    using assms that by (induction secrets arbitrary: t) (simp_all add: step bracket_stays redactable_def, simp add: redact_def)
  show "redact secrets t = t \<or> 91 \<in> set (redact secrets t)"
    using assms
  proof (induction secrets arbitrary: t)
    case (Cons s ss)
    from Cons.prems have ss: "list_all redactable ss" "redactable s" by simp_all
    have b: "91 \<in> set (redact ss v)" if "91 \<in> set v" for v
      using ss(1) that by (induction ss arbitrary: v) (simp_all add: step bracket_stays redactable_def, simp add: redact_def)
    from replaced_or_same [of s t] Cons.IH [OF ss(1), of "replace_all s t"] b ss(2) show ?case by (auto simp: step)
  qed (simp add: redact_def)
qed

section \<open>No secret across chunk borders\<close>

lemma byteLength_simps [simp]: "byteLength [] = 0" "byteLength (c # cs) = cp_bytes c + byteLength cs" "byteLength (a @ b) = byteLength a + byteLength b"
  by (simp_all add: byteLength_def)

lemma length_le_bytes: "length t \<le> byteLength t"
  by (induction t) (auto simp: cp_bytes_def)

lemma longest_max: "s \<in> set secrets \<Longrightarrow> byteLength s \<le> longestSecret secrets"
proof -
  have mono: "m \<le> foldl (\<lambda>m s. max m (byteLength s)) m xs" for m xs
    by (induction xs arbitrary: m) (simp, metis foldl_Cons max.bounded_iff)
  have "s \<in> set secrets \<Longrightarrow> byteLength s \<le> foldl (\<lambda>m s. max m (byteLength s)) m secrets" for m
    by (induction secrets arbitrary: m) (auto intro: order_trans [OF _ mono])
  then show "s \<in> set secrets \<Longrightarrow> ?thesis" by (simp add: longestSecret_def)
qed

definition carried :: "nat \<Rightarrow> utext \<Rightarrow> utext \<Rightarrow> bool" where
  "carried keep E C \<longleftrightarrow> E = [] \<or> keep \<le> length C \<or> 91 \<in> set C"

text \<open>What was given out stays clean together with the redaction of what was carried over.\<close>

lemma clean_across:
  assumes "list_all redactable secrets" and "free_of secrets (E @ C)" and "carried keep E C"
    and "\<And>s. s \<in> set secrets \<Longrightarrow> length s \<le> keep + 1"
  shows "free_of secrets (E @ redact secrets (C @ N))"
proof -
  note R = redact_properties [OF assms(1)]
  have "\<not> sublist u (E @ redact secrets (C @ N))" if u: "u \<in> set secrets" for u
  proof
    assume "sublist u (E @ redact secrets (C @ N))"
    then consider "sublist u E" | "sublist u (redact secrets (C @ N))"
      | u1 u2 where "u = u1 @ u2" "suffix u1 E" "prefix u2 (redact secrets (C @ N))" "u1 \<noteq> []"
      unfolding sublist_append by (metis append_Nil prefix_imp_sublist)
    then show False
    proof cases
      case 1
      with assms(2) u show ?thesis by (auto simp: free_of_def list_all_iff sublist_append)
    next
      case 2
      with R(1) u show ?thesis by (auto simp: free_of_def list_all_iff)
    next
      case 3
      from assms(1) u have "91 \<notin> set u" by (simp add: list_all_iff redactable_def)
      with 3 R(2) have pre: "prefix u2 (C @ N)" and b: "91 \<notin> set u2" by auto
      have "prefix u2 C"
      proof (cases "length u2 \<le> length C")
        case True
        with pre show ?thesis using prefix_length_prefix [of u2 "C @ N" C] by simp
      next
        case False
        then have "prefix C u2" using pre prefix_length_prefix [of C "C @ N" u2] by simp
        with b have "91 \<notin> set C" by (auto simp: prefix_def)
        moreover have "E \<noteq> []" using 3 by auto
        moreover have "length u2 \<le> keep" using assms(4) [OF u] 3(1,4) by (cases u1) auto
        ultimately show ?thesis using assms(3) False by (auto simp: carried_def)
      qed
      with 3(1,2) have "sublist u (E @ C)" by (auto simp: sublist_append)
      with assms(2) u show ?thesis by (auto simp: free_of_def list_all_iff)
    qed
  qed
  then show ?thesis by (simp add: free_of_def list_all_iff)
qed

text \<open>What is taken of a text \<open>E\<close> by a digest bounded by \<open>n\<close> bytes: all of it, or a prefix that reaches the bound.\<close>

definition taken_of :: "nat \<Rightarrow> utext \<Rightarrow> utext \<Rightarrow> bool" where
  "taken_of n E t \<longleftrightarrow>
     t = E \<and> byteLength t \<le> n \<or>
     n \<le> byteLength t \<and> byteLength t \<le> n + 2 \<and> (\<exists>p. prefix p E \<and> (t = p \<or> t = p @ [65533]))"

lemma taken_of_bound: "taken_of n E t \<Longrightarrow> byteLength t \<le> n + 2"
  by (auto simp: taken_of_def)

lemma decode_first_taken: "taken_of n t (decode_first n t)"
proof (induction n t rule: decode_first.induct)
  case (2 n c cs)
  show ?case
  proof (cases "cp_bytes c \<le> n")
    case True
    from 2 [OF True] consider "decode_first (n - cp_bytes c) cs = cs" "byteLength cs \<le> n - cp_bytes c"
      | p where "n - cp_bytes c \<le> byteLength (decode_first (n - cp_bytes c) cs)"
          "byteLength (decode_first (n - cp_bytes c) cs) \<le> n - cp_bytes c + 2" "prefix (c # p) (c # cs)"
          "c # decode_first (n - cp_bytes c) cs = c # p \<or> c # decode_first (n - cp_bytes c) cs = (c # p) @ [65533]"
      by (auto simp: taken_of_def)
    then show ?thesis
    proof cases
      case 1
      with True have "cp_bytes c + byteLength cs \<le> n" by simp
      with 1 True show ?thesis by (simp add: taken_of_def)
    next
      case 2
      from 2(3,4) True have "\<exists>q. prefix q (c # cs) \<and> (decode_first n (c # cs) = q \<or> decode_first n (c # cs) = q @ [65533])"
        by (intro exI [of _ "c # p"]) simp
      moreover from True 2(1,2) have "n \<le> byteLength (decode_first n (c # cs))" "byteLength (decode_first n (c # cs)) \<le> n + 2"
        by simp_all
      ultimately show ?thesis unfolding taken_of_def by blast
    qed
  next
    case False
    have "\<exists>p. prefix p (c # cs) \<and> (decode_first n (c # cs) = p \<or> decode_first n (c # cs) = p @ [65533])"
      using False by (intro exI [of _ "[]"]) simp
    moreover have "n \<le> byteLength (decode_first n (c # cs))" "byteLength (decode_first n (c # cs)) \<le> n + 2"
      using False by (auto simp: cp_bytes_def split: if_splits)
    ultimately show ?thesis unfolding taken_of_def by blast
  qed
qed (simp add: taken_of_def)

lemma decode_nothing [simp]: "decode_first 0 t = []"
  by (cases t) (auto simp: cp_bytes_def)

text \<open>Taking further text into the digest.\<close>

lemma taken_further:
  assumes "taken_of n E t"
  shows "taken_of n (E @ B) (t @ decode_first (n - byteLength t) B)"
proof (cases "n \<le> byteLength t")
  case True
  from assms have "\<exists>p. prefix p E \<and> (t = p \<or> t = p @ [65533])" unfolding taken_of_def by (metis prefix_order.order_refl)
  then obtain p where "prefix p E" "t = p \<or> t = p @ [65533]" by blast
  moreover from assms have "byteLength t \<le> n + 2" by (rule taken_of_bound)
  moreover from \<open>prefix p E\<close> have "prefix p (E @ B)" by simp
  ultimately have "\<exists>p. prefix p (E @ B) \<and> (t = p \<or> t = p @ [65533])" by blast
  with True \<open>byteLength t \<le> n + 2\<close> show ?thesis by (simp add: taken_of_def)
next
  case False
  let ?d = "decode_first (n - byteLength t) B"
  from assms False have E: "t = E" by (auto simp: taken_of_def)
  from decode_first_taken [of "n - byteLength t" B] consider
      "?d = B" "byteLength B \<le> n - byteLength t"
    | p where "n - byteLength t \<le> byteLength ?d" "byteLength ?d \<le> n - byteLength t + 2" "prefix (E @ p) (E @ B)"
        "t @ ?d = E @ p \<or> t @ ?d = (E @ p) @ [65533]"
    unfolding taken_of_def using E by auto
  then show ?thesis
  proof cases
    case 1
    with E False have "byteLength (t @ ?d) \<le> n" by simp
    with 1 E show ?thesis by (simp add: taken_of_def)
  next
    case 2
    from 2(3,4) have "\<exists>q. prefix q (E @ B) \<and> (t @ ?d = q \<or> t @ ?d = q @ [65533])" by blast
    moreover from 2(1,2) False have "n \<le> byteLength (t @ ?d)" "byteLength (t @ ?d) \<le> n + 2" by simp_all
    ultimately show ?thesis unfolding taken_of_def by blast
  qed
qed

text \<open>The state of a normalizer that gave out the text \<open>E\<close>, of which the digest took what the bound lets in.\<close>

definition gave_out :: "output_normalizer \<Rightarrow> utext \<Rightarrow> bool" where
  "gave_out n E \<longleftrightarrow> free_of (on_secretValues n) (E @ on_carry n) \<and> on_bytes n = byteLength (on_taken n) \<and>
     taken_of (on_maxBytes n) E (on_taken n)"

definition holds_back :: "output_normalizer \<Rightarrow> utext \<Rightarrow> bool" where
  "holds_back n E \<longleftrightarrow> carried (longestSecret (on_secretValues n) - 1) E (on_carry n)"

lemma flush_fields [simp]:
  "on_secretValues (fst (flush final n)) = on_secretValues n" "on_maxBytes (fst (flush final n)) = on_maxBytes n"
  by (simp_all add: flush_def accept_def Let_def)

lemma longest_short: "s \<in> set secrets \<Longrightarrow> length s \<le> longestSecret secrets - 1 + 1"
  using longest_max [of s secrets] length_le_bytes [of s] by simp

lemma flush_gives_out:
  assumes "list_all redactable (on_secretValues n)" and "gave_out n E" and "holds_back n E"
  shows "\<exists>B. gave_out (fst (flush final (n\<lparr>on_carry := on_carry n @ N\<rparr>))) (E @ B) \<and>
    (\<not> final \<longrightarrow> holds_back (fst (flush final (n\<lparr>on_carry := on_carry n @ N\<rparr>))) (E @ B))"
proof -
  let ?ss = "on_secretValues n"
  let ?keep = "longestSecret ?ss - 1"
  let ?R = "redact ?ss (on_carry n @ N)"
  let ?k = "if final then 0 else ?keep"
  let ?B = "take (length ?R - ?k) ?R" and ?C = "drop (length ?R - ?k) ?R"
  note R = redact_properties [OF assms(1)]
  from assms(2,3) have g: "free_of ?ss (E @ on_carry n)" "carried ?keep E (on_carry n)" by (simp_all add: gave_out_def holds_back_def)
  have "E @ ?R = (E @ ?B) @ ?C" by simp
  with clean_across [OF assms(1) g longest_short, of N] have c: "free_of ?ss ((E @ ?B) @ ?C)" by metis
  have "carried ?keep (E @ ?B) ?C" if "\<not> final"
  proof (cases "?keep \<le> length ?R")
    case True
    with that show ?thesis by (simp add: carried_def)
  next
    case False
    with that have CR: "?C = ?R" "?B = []" by simp_all
    have "91 \<in> set ?R" if "E \<noteq> []"
    proof -
      from g(2) that consider "?keep \<le> length (on_carry n)" | "91 \<in> set (on_carry n @ N)" by (auto simp: carried_def)
      then show ?thesis
      proof cases
        case 1
        with False have "?R \<noteq> on_carry n @ N" by auto
        with R(3) show ?thesis by blast
      qed (rule R(4))
    qed
    with CR show ?thesis by (auto simp: carried_def)
  qed
  with c taken_further [of "on_maxBytes n" E "on_taken n" ?B] assms(2)
  have "gave_out (fst (flush final (n\<lparr>on_carry := on_carry n @ N\<rparr>))) (E @ ?B) \<and>
    (\<not> final \<longrightarrow> holds_back (fst (flush final (n\<lparr>on_carry := on_carry n @ N\<rparr>))) (E @ ?B))"
    by (cases final) (simp_all add: gave_out_def holds_back_def flush_def accept_def Let_def)
  then show ?thesis by blast
qed

section \<open>A whole output\<close>

lemma ingest_is_flush:
  "ingest raw n = (let m = fst (flush False (n\<lparr>on_carry := on_carry n @ stripControls raw\<rparr>)) in
     m\<lparr>on_chunkCount := on_chunkCount (ingest raw n), on_truncated := on_truncated (ingest raw n)\<rparr>)"
  by (simp add: ingest_def Let_def split: prod.splits)

lemma ingest_gives_out:
  assumes "list_all redactable (on_secretValues n)" and "gave_out n E" and "holds_back n E"
  shows "on_secretValues (ingest raw n) = on_secretValues n \<and> on_maxBytes (ingest raw n) = on_maxBytes n \<and>
    (\<exists>E'. gave_out (ingest raw n) E' \<and> holds_back (ingest raw n) E')"
proof -
  let ?m = "fst (flush False (n\<lparr>on_carry := on_carry n @ stripControls raw\<rparr>))"
  have i: "on_secretValues (ingest raw n) = on_secretValues ?m" "on_maxBytes (ingest raw n) = on_maxBytes ?m"
    "on_carry (ingest raw n) = on_carry ?m" "on_bytes (ingest raw n) = on_bytes ?m" "on_taken (ingest raw n) = on_taken ?m"
    by (subst ingest_is_flush, simp add: Let_def)+
  from flush_gives_out [OF assms, of False "stripControls raw"] obtain B where
    "gave_out ?m (E @ B)" "holds_back ?m (E @ B)" by blast
  with i have "gave_out (ingest raw n) (E @ B)" "holds_back (ingest raw n) (E @ B)"
    by (simp_all add: gave_out_def holds_back_def)
  with i show ?thesis by auto
qed

lemma ingest_all_gives_out:
  assumes "list_all redactable (on_secretValues n)" and "gave_out n E" and "holds_back n E"
  shows "on_secretValues (foldl (\<lambda>n c. ingest c n) n chunks) = on_secretValues n \<and>
    on_maxBytes (foldl (\<lambda>n c. ingest c n) n chunks) = on_maxBytes n \<and>
    (\<exists>E'. gave_out (foldl (\<lambda>n c. ingest c n) n chunks) E' \<and> holds_back (foldl (\<lambda>n c. ingest c n) n chunks) E')"
  using assms
proof (induction chunks arbitrary: n E)
  case (Cons c cs)
  from ingest_gives_out [OF Cons.prems, of c] obtain E' where
    "on_secretValues (ingest c n) = on_secretValues n" "on_maxBytes (ingest c n) = on_maxBytes n"
    "gave_out (ingest c n) E'" "holds_back (ingest c n) E'" by blast
  with Cons.IH [of "ingest c n" E'] Cons.prems(1) show ?case by simp
qed auto

lemma finalize_gives_out:
  assumes "list_all redactable (on_secretValues n)" and "gave_out n E" and "holds_back n E"
  shows "\<exists>E'. gave_out (fst (finalize_output sha n)) E'"
proof (cases "on_carry n = []")
  case False
  have "n\<lparr>on_carry := on_carry n\<rparr> = n" by simp
  with flush_gives_out [OF assms, of True "[]"] False show ?thesis by (auto simp: finalize_output_def Let_def)
qed (use assms in \<open>auto simp: finalize_output_def\<close>)

text \<open>A cut character adds the replacement character, which no secret holds.\<close>

lemma taken_is_clean:
  assumes "list_all redactable secrets" and "free_of secrets E" and "taken_of n E t"
  shows "free_of secrets t"
proof -
  have "\<not> sublist u t" if u: "u \<in> set secrets" for u
  proof
    assume s: "sublist u t"
    from assms(3) obtain p where "prefix p E" "t = p \<or> t = p @ [65533]" unfolding taken_of_def by (metis prefix_order.order_refl)
    moreover from assms(1) u have "redactable u" by (simp add: list_all_iff)
    with s have "sublist u p" if "t = p @ [65533]" for p
      using that sublist_split_at [of u p 65533 "[]"] by (auto simp: redactable_def)
    ultimately have "sublist u E" using s sublist_order.order_trans prefix_imp_sublist by blast
    with assms(2) u show False by (auto simp: free_of_def list_all_iff)
  qed
  then show ?thesis by (simp add: free_of_def list_all_iff)
qed

text \<open>The whole output of one stream: every chunk, then the last flush.\<close>

definition normalized :: "string \<Rightarrow> nat \<Rightarrow> utext list \<Rightarrow> utext list \<Rightarrow> output_normalizer" where
  "normalized i m secrets chunks = fst (finalize_output (\<lambda>_. []) (foldl (\<lambda>n c. ingest c n) (new_OutputNormalizer i m secrets) chunks))"

lemma normalized_gives_out:
  assumes "list_all redactable secrets"
  shows "\<exists>E. free_of secrets E \<and> taken_of m E (on_taken (normalized i m secrets chunks)) \<and>
    on_bytes (normalized i m secrets chunks) = byteLength (on_taken (normalized i m secrets chunks))"
proof -
  let ?n = "new_OutputNormalizer i m secrets"
  let ?m = "foldl (\<lambda>n c. ingest c n) ?n chunks"
  have "free_of secrets []" using assms by (auto simp: free_of_def list_all_iff redactable_def)
  then have "gave_out ?n []" "holds_back ?n []"
    by (simp_all add: gave_out_def holds_back_def carried_def new_OutputNormalizer_def taken_of_def)
  with ingest_all_gives_out [of ?n "[]" chunks] assms obtain E where
    "on_secretValues ?m = secrets" "on_maxBytes ?m = m" "gave_out ?m E" "holds_back ?m E"
    by (auto simp: new_OutputNormalizer_def)
  with finalize_gives_out [of ?m E "\<lambda>_. []"] assms obtain E' where "gave_out (normalized i m secrets chunks) E'"
    by (auto simp: normalized_def)
  moreover have "on_secretValues (normalized i m secrets chunks) = secrets" "on_maxBytes (normalized i m secrets chunks) = m"
    using \<open>on_secretValues ?m = secrets\<close> \<open>on_maxBytes ?m = m\<close> by (simp_all add: normalized_def finalize_output_def Let_def)
  ultimately have "free_of secrets (E' @ on_carry (normalized i m secrets chunks))"
    "taken_of m E' (on_taken (normalized i m secrets chunks))"
    "on_bytes (normalized i m secrets chunks) = byteLength (on_taken (normalized i m secrets chunks))"
    by (auto simp: gave_out_def)
  moreover from this(1) have "free_of secrets E'" by (auto simp: free_of_def list_all_iff sublist_append)
  ultimately show ?thesis by blast
qed

text \<open>
  Property C19.  However a secret is split over the chunks of an output, it does not come out of the normalizer: no
  configured secret that redaction can work for occurs in the text taken.  The byte bound is exceeded by at
  most the replacement of a cut character, and the bytes reported are those of the text taken.
\<close>
theorem redacted_output_has_no_secret:
  assumes "list_all redactable secrets" and "s \<in> set secrets"
  shows "\<not> sublist s (on_taken (normalized i m secrets chunks)) \<and>
    on_bytes (normalized i m secrets chunks) = byteLength (on_taken (normalized i m secrets chunks)) \<and>
    on_bytes (normalized i m secrets chunks) \<le> m + 2"
proof -
  from normalized_gives_out [OF assms(1)] obtain E where E: "free_of secrets E" "taken_of m E (on_taken (normalized i m secrets chunks))"
    "on_bytes (normalized i m secrets chunks) = byteLength (on_taken (normalized i m secrets chunks))" by blast
  from taken_is_clean [OF assms(1) E(1,2)] assms(2) taken_of_bound [OF E(2)] E(3) show ?thesis
    by (auto simp: free_of_def list_all_iff)
qed

text \<open>The secret \<open>abc\<close>, printed in two chunks with a colour sequence between its letters.\<close>

definition sample_secret :: utext where
  "sample_secret = [97, 98, 99]"

definition sample_chunks :: "utext list" where
  "sample_chunks = [[120, 97, 27, 91, 51, 49, 109, 98], [99, 121]]"

lemma sample_redactable: "list_all redactable [sample_secret]"
  by (simp add: redactable_def sample_secret_def REDACTED_def sublist_code)

lemma sample_output: "on_taken (normalized ''out'' 64 [sample_secret] sample_chunks) = 120 # TOKEN @ [121]"
  by code_simp

theorem redacted_output_has_no_secret_witness:
  "on_taken (normalized ''out'' 64 [sample_secret] sample_chunks) = 120 # TOKEN @ [121] \<and>
   \<not> sublist sample_secret (on_taken (normalized ''out'' 64 [sample_secret] sample_chunks))"
  using redacted_output_has_no_secret [OF sample_redactable, of sample_secret "''out''" 64 sample_chunks] sample_output by simp

lemma held_back_output:
  "on_truncated (normalized ''out'' 64 [sample_secret] [[104, 105]])"
  "on_taken (normalized ''out'' 64 [sample_secret] [[104, 105]]) = [104, 105]"
  by code_simp+

lemma dropped_at_the_end:
  "\<not> on_truncated (normalized ''out'' 9 [[97, 98]] [[97, 98]])"
  "on_taken (normalized ''out'' 9 [[97, 98]] [[97, 98]]) = 91 # REDACTED"
  by code_simp+

text \<open>
  The truncation flag does not say what it should: what is held back for redaction counts as lost in the chunk
  that brought it, so a complete output is reported as truncated; and what the last flush drops is not
  counted, so an output that lost its end is reported as complete.
\<close>
theorem truncation_flag_is_wrong:
  "on_truncated (normalized ''out'' 64 [sample_secret] [[104, 105]]) \<and>
   on_taken (normalized ''out'' 64 [sample_secret] [[104, 105]]) = [104, 105] \<and>
   \<not> on_truncated (normalized ''out'' 9 [[97, 98]] [[97, 98]]) \<and>
   on_taken (normalized ''out'' 9 [[97, 98]] [[97, 98]]) \<noteq> TOKEN"
  using held_back_output dropped_at_the_end by (simp add: TOKEN_def REDACTED_def)

text \<open>The bound is not kept when it cuts a character: one byte is allowed and three are taken.\<close>

lemma cut_character_exceeds_bound: "on_bytes (normalized ''out'' 1 [] [[233]]) = 3"
  by (simp add: normalized_def new_OutputNormalizer_def ingest_def flush_def accept_def finalize_output_def Let_def stripControls_def kept_char_def
      redact_def longestSecret_def cp_bytes_def)

end
