(* ===== verification/Command_Runner.thy ===== *)
theory Command_Runner
  imports Port_Effects Canonical_Json Run_Command_FSM Command_Output
begin

text \<open>
  The governed command runner, \<open>packages/sandbox/src/commands/command-runner.ts\<close>, with the contracts
  of \<open>contracts.ts\<close> and the identity of a command of \<open>command-identity.ts\<close>.  The provider, the store, the event sink
  and the clock are ports; a provider answer is \<open>Inl\<close> of its error code or \<open>Inr\<close> of its value.  The
  stream loop has no bound in the code, so it takes fuel: \<open>None\<close> says that it is still running
  after that many slices.
\<close>

section \<open>Contracts\<close>

text \<open>The identifiers of \<open>packages/contracts/src/primitives.ts\<close>: a UUID or an ULID.\<close>

definition uuid_pattern :: "string \<Rightarrow> bool" where
  "uuid_pattern s \<longleftrightarrow>
     map length (js_split (CHR ''-'') s) = [8, 4, 4, 4, 12] \<and>
     list_all (list_all hex_lower) (js_split (CHR ''-'') s) \<and>
     hd (js_split (CHR ''-'') s ! 2) \<in> set ''12345678'' \<and> hd (js_split (CHR ''-'') s ! 3) \<in> set ''89ab''"

definition ulid_pattern :: "string \<Rightarrow> bool" where
  "ulid_pattern s \<longleftrightarrow> length s = 26 \<and> list_all (\<lambda>c. js_digit c \<or> upper_letter c \<and> c \<notin> set ''ILOU'') s"

definition idSchema :: "string \<Rightarrow> bool" where
  "idSchema s \<longleftrightarrow> 26 \<le> length s \<and> length s \<le> 36 \<and> (uuid_pattern s \<or> ulid_pattern s)"

datatype sandbox_class = Class_read | Class_build | Class_test | Class_scan | Class_install | Class_network | Class_destructive

datatype env_value = Secret_ref string | Literal_safe string

record sandbox_command =
  sc_commandId :: string
  sc_workspaceId :: string
  sc_headSha :: string
  sc_ready :: bool
  sc_actionDecisionId :: string
  sc_class :: sandbox_class
  sc_executable :: string
  sc_args :: "string list"
  sc_cwd :: string
  sc_env :: "(string \<times> env_value) list"
  sc_timeoutMs :: int
  sc_maxStdoutBytes :: int
  sc_maxStderrBytes :: int
  sc_generation :: int

definition env_name :: "string \<Rightarrow> bool" where
  "env_name s \<longleftrightarrow>
     (case s of [] \<Rightarrow> False
      | c # cs \<Rightarrow> (lower_letter c \<or> upper_letter c \<or> c = CHR ''_'') \<and> list_all (\<lambda>d. alphanumeric d \<or> d = CHR ''_'') cs)"

fun envValueSchema :: "env_value \<Rightarrow> bool" where
  "envValueSchema (Secret_ref ref) = within 128 ref"
| "envValueSchema (Literal_safe v) = within 200 v"

definition workspaceFenceSchema :: "sandbox_command \<Rightarrow> bool" where
  "workspaceFenceSchema c \<longleftrightarrow>
     idSchema (sc_workspaceId c) \<and> length (sc_headSha c) = 40 \<and> list_all hex_lower (sc_headSha c) \<and> sc_ready c"

text \<open>\<open>z.number().int()\<close> takes safe integers.\<close>

definition safe_int :: "int \<Rightarrow> bool" where
  "safe_int i \<longleftrightarrow> \<bar>i\<bar> \<le> 9007199254740991"

definition output_limit :: "int \<Rightarrow> bool" where
  "output_limit n \<longleftrightarrow> 0 < n \<and> n \<le> 64 * 1024 * 1024"

definition sandboxCommandSchema :: "sandbox_command \<Rightarrow> bool" where
  "sandboxCommandSchema c \<longleftrightarrow>
     within 128 (sc_commandId c) \<and> workspaceFenceSchema c \<and> within 128 (sc_actionDecisionId c) \<and>
     within 1024 (sc_executable c) \<and> CHR 0x00 \<notin> set (sc_executable c) \<and> CHR 0x0A \<notin> set (sc_executable c) \<and>
     list_all (\<lambda>a. length a \<le> 16384) (sc_args c) \<and> length (sc_args c) \<le> 4096 \<and>
     within 1024 (sc_cwd c) \<and> \<not> js_startsWith (sc_cwd c) ''/'' \<and>
     list_all (\<lambda>(n, v). env_name n \<and> envValueSchema v) (sc_env c) \<and> length (sc_env c) \<le> 64 \<and>
     0 < sc_timeoutMs c \<and> sc_timeoutMs c \<le> 10 * 60000 \<and> output_limit (sc_maxStdoutBytes c) \<and> output_limit (sc_maxStderrBytes c) \<and>
     0 \<le> sc_generation c \<and> safe_int (sc_generation c)"

section \<open>The identity of a command\<close>

fun sandbox_class_str :: "sandbox_class \<Rightarrow> string" where
  "sandbox_class_str Class_read = ''read''"
| "sandbox_class_str Class_build = ''build''"
| "sandbox_class_str Class_test = ''test''"
| "sandbox_class_str Class_scan = ''scan''"
| "sandbox_class_str Class_install = ''install''"
| "sandbox_class_str Class_network = ''network''"
| "sandbox_class_str Class_destructive = ''destructive''"

fun env_json :: "string \<times> env_value \<Rightarrow> json" where
  "env_json (n, Secret_ref r) = JArr [JStr n, JObj [(''kind'', JStr ''secret_ref''), (''ref'', JStr r)]]"
| "env_json (n, Literal_safe v) = JArr [JStr n, JObj [(''kind'', JStr ''literal_safe''), (''value'', JStr v)]]"

definition canonicalDigest :: "(string \<Rightarrow> string) \<Rightarrow> sandbox_command \<Rightarrow> string" where
  "canonicalDigest sha256 c =
     sha256 (json_text (JObj
       [(''workspaceId'', JStr (sc_workspaceId c)), (''headSha'', JStr (sc_headSha c)), (''class'', JStr (sandbox_class_str (sc_class c))),
        (''executable'', JStr (sc_executable c)), (''args'', JArr (map JStr (sc_args c))), (''cwd'', JStr (sc_cwd c)),
        (''env'', JArr (map env_json (sc_env c))),
        (''output'', JObj [(''maxStdoutBytes'', JNum (sc_maxStdoutBytes c)), (''maxStderrBytes'', JNum (sc_maxStderrBytes c))]),
        (''timeoutMs'', JNum (sc_timeoutMs c)), (''generation'', JNum (sc_generation c))]))"

text \<open>A drive letter with its colon and a separator, a leading separator, or \<open>..\<close> between separators.\<close>

definition path_sep :: "char \<Rightarrow> bool" where
  "path_sep c \<longleftrightarrow> c = CHR ''/'' \<or> c = CHR 0x5C"

definition rooted_path :: "string \<Rightarrow> bool" where
  "rooted_path p \<longleftrightarrow>
     (case p of c # d # e # _ \<Rightarrow> (lower_letter c \<or> upper_letter c) \<and> d = CHR '':'' \<and> path_sep e | _ \<Rightarrow> False) \<or>
     (case p of c # _ \<Rightarrow> path_sep c | [] \<Rightarrow> False)"

definition cwd_denied :: "string \<Rightarrow> bool" where
  "cwd_denied cwd \<longleftrightarrow>
     rooted_path cwd \<or> js_startsWith cwd ''/'' \<or> CHR 0x00 \<in> set cwd \<or>
     ''..'' \<in> set (js_split (CHR ''/'') (map (\<lambda>c. if c = CHR 0x5C then CHR ''/'' else c) cwd))"

text \<open>The error it throws, if any.\<close>

definition assertSafeArgv :: "sandbox_command \<Rightarrow> string option" where
  "assertSafeArgv c =
     (if CHR 0x00 \<in> set (sc_executable c) \<or> list_ex (\<lambda>a. CHR 0x00 \<in> set a) (sc_args c) then Some ''SANDBOX_ARGV_NUL_DENIED''
      else if cwd_denied (sc_cwd c) then Some ''SANDBOX_CWD_DENIED''
      else if list_ex (\<lambda>(n, v). \<not> env_name n) (sc_env c) then Some ''SANDBOX_ENV_NAME_DENIED''
      else None)"

definition commandIdempotencyKey :: "string \<Rightarrow> int \<Rightarrow> string" where
  "commandIdempotencyKey commandId generation = ''command:'' @ commandId @ '':generation:'' @ js_int_str generation"

text \<open>The key names its command and generation, also when the command id holds colons.\<close>

lemma js_int_str_no_colon: "CHR '':'' \<notin> set (js_int_str i)"
proof -
  have "CHR '':'' \<notin> set (js_nat_str n)" for n
    using js_nat_str_digits [of n] by (auto simp: list_all_iff js_digit_def)
  then show ?thesis by (simp add: js_int_str_def)
qed

lemma last_part_unique:
  assumes "a @ m # s = b @ m # t" and "m \<notin> set s" and "m \<notin> set t"
  shows "a = b \<and> s = t"
proof -
  have tw: "takeWhile (\<lambda>c. c \<noteq> m) (rev (a @ m # s)) = rev s" if "m \<notin> set s" for a s
    using that by (auto simp: takeWhile_tail takeWhile_append2)
  from tw [OF assms(2), of a] tw [OF assms(3), of b] assms(1) have "rev s = rev t" by simp
  with assms(1) show ?thesis by simp
qed

lemma key_unique:
  "commandIdempotencyKey i g = commandIdempotencyKey j h \<longleftrightarrow> i = j \<and> g = h"
proof
  assume "commandIdempotencyKey i g = commandIdempotencyKey j h"
  then have "(''command:'' @ i @ '':generation'') @ CHR '':'' # js_int_str g = (''command:'' @ j @ '':generation'') @ CHR '':'' # js_int_str h"
    by (simp add: commandIdempotencyKey_def)
  from last_part_unique [OF this js_int_str_no_colon js_int_str_no_colon]
  show "i = j \<and> g = h" using js_int_str_unique [of g "[]" h "[]"] by (simp add: value_end_def)
qed simp

section \<open>Ports\<close>

record command_record =
  cr_commandId :: string
  cr_generation :: int
  cr_idempotencyKey :: string
  cr_digest :: string
  cr_state :: string
  cr_providerRefs :: "string list"
  cr_createdAtIso :: string
  cr_updatedAtIso :: string

type_synonym command_store = "string \<rightharpoonup> command_record"

definition store_getByKey :: "string \<Rightarrow> command_store \<Rightarrow> command_record option" where
  "store_getByKey k m = m k"

definition store_save :: "command_record \<Rightarrow> command_store \<Rightarrow> command_store" where
  "store_save r m = m(cr_idempotencyKey r \<mapsto> r)"

datatype provider_code = P_NOT_FOUND | P_CANCEL_UNSUPPORTED | P_SERVER_ERROR | P_TIMEOUT

fun provider_code_str :: "provider_code \<Rightarrow> string" where
  "provider_code_str P_NOT_FOUND = ''NOT_FOUND''"
| "provider_code_str P_CANCEL_UNSUPPORTED = ''CANCEL_UNSUPPORTED''"
| "provider_code_str P_SERVER_ERROR = ''SERVER_ERROR''"
| "provider_code_str P_TIMEOUT = ''TIMEOUT''"

datatype output_stream = Out_stdout | Out_stderr

record output_chunk =
  oc_stream :: output_stream
  oc_text :: utext
  oc_cursor :: int

record stream_slice =
  sl_chunks :: "output_chunk list"
  sl_done :: bool
  sl_running :: bool
  sl_exitCode :: "int option"
  sl_signal :: "string option"
  sl_nextCursor :: int

datatype command_call =
    CC_GetByKey string
  | CC_Save command_record
  | CC_Emit string string
  | CC_Execute sandbox_command
  | CC_Stream int string
  | CC_Inspect
  | CC_Terminate "string option"

record 'w command_ports =
  cp_execute :: "sandbox_command \<Rightarrow> ('w, provider_code + string) port"
  cp_stream :: "int \<Rightarrow> string \<Rightarrow> ('w, provider_code + stream_slice) port"
  cp_inspect :: "('w, provider_code + bool) port"
  cp_terminate :: "string option \<Rightarrow> ('w, provider_code + bool) port"
  cp_getByKey :: "string \<Rightarrow> ('w, command_record option) port"
  cp_save :: "command_record \<Rightarrow> ('w, unit) port"
  cp_emit :: "string \<Rightarrow> string \<Rightarrow> ('w, unit) port"
  cp_nowIso :: "'w \<Rightarrow> 'w \<times> string"
  cp_secretValues :: "utext list"

type_synonym ('w, 'a) command_eff = "('w, command_call, 'a) eff"

definition save_record :: "'w command_ports \<Rightarrow> command_record \<Rightarrow> ('w, unit) command_eff" where
  "save_record ports r = callE (CC_Save r) (cp_save ports r)"

definition command_event :: "'w command_ports \<Rightarrow> string \<Rightarrow> string \<Rightarrow> ('w, unit) command_eff" where
  "command_event ports type i = callE (CC_Emit type i) (cp_emit ports type i)"

lemmas command_call_defs = save_record_def command_event_def

section \<open>Starting a command\<close>

datatype result_status = Res_succeeded | Res_failed | Res_timed_out | Res_cancelled | Res_blocked | Res_unknown

fun result_status_str :: "result_status \<Rightarrow> string" where
  "result_status_str Res_succeeded = ''succeeded''"
| "result_status_str Res_failed = ''failed''"
| "result_status_str Res_timed_out = ''timed_out''"
| "result_status_str Res_cancelled = ''cancelled''"
| "result_status_str Res_blocked = ''blocked''"
| "result_status_str Res_unknown = ''unknown''"

record sandbox_result =
  rs_status :: result_status
  rs_exitCode :: "int option"
  rs_signal :: "string option"
  rs_durationMs :: int
  rs_terminationReason :: string
  rs_stdout :: output_ref
  rs_stderr :: output_ref
  rs_truncated :: "bool \<times> bool"
  rs_artifactIds :: "string list"

record followed =
  fo_stdout :: output_normalizer
  fo_stderr :: output_normalizer
  fo_exitCode :: "int option"
  fo_signal :: "string option"

definition ingest_chunk :: "followed \<Rightarrow> output_chunk \<Rightarrow> followed" where
  "ingest_chunk f c =
     (case oc_stream c of
        Out_stdout \<Rightarrow> f\<lparr>fo_stdout := ingest (oc_text c) (fo_stdout f)\<rparr>
      | Out_stderr \<Rightarrow> f\<lparr>fo_stderr := ingest (oc_text c) (fo_stderr f)\<rparr>)"

fun follow_stream :: "nat \<Rightarrow> 'w command_ports \<Rightarrow> string \<Rightarrow> int \<Rightarrow> followed \<Rightarrow> ('w, followed option) command_eff" where
  "follow_stream 0 ports pid cursor f = retE None"
| "follow_stream (Suc n) ports pid cursor f =
     bindE (callE (CC_Stream cursor pid) (cp_stream ports cursor pid)) (\<lambda>slice.
     case slice of
       Inl code \<Rightarrow> retE (Some f)
     | Inr s \<Rightarrow>
         let g = foldl ingest_chunk f (sl_chunks s) in
         if sl_running s then follow_stream n ports pid (sl_nextCursor s) g
         else retE (Some (g\<lparr>fo_exitCode := sl_exitCode s, fo_signal := sl_signal s\<rparr>)))"

definition ranUnderDeadline :: "sandbox_command \<Rightarrow> bool" where
  "ranUnderDeadline cmd = True"

definition command_outcome :: "sandbox_command \<Rightarrow> int option \<Rightarrow> result_status" where
  "command_outcome cmd exitCode =
     (if \<not> ranUnderDeadline cmd then Res_timed_out else if exitCode = Some 0 then Res_succeeded else Res_failed)"

definition command_result_of :: "(utext \<Rightarrow> string) \<Rightarrow> sandbox_command \<Rightarrow> followed \<Rightarrow> sandbox_result" where
  "command_result_of sha256 cmd f =
     (let status = command_outcome cmd (fo_exitCode f);
          stdoutRef = snd (finalize_output sha256 (fo_stdout f));
          stderrRef = snd (finalize_output sha256 (fo_stderr f)) in
      \<lparr>rs_status = status, rs_exitCode = fo_exitCode f, rs_signal = fo_signal f, rs_durationMs = 0,
       rs_terminationReason =
         (if status = Res_timed_out then ''deadline_exceeded'' else if status = Res_failed then ''non_zero_exit'' else ''''),
       rs_stdout = stdoutRef, rs_stderr = stderrRef, rs_truncated = (or_truncated stdoutRef, or_truncated stderrRef), rs_artifactIds = []\<rparr>)"

datatype start_result = Start_ok string | Start_refused result_status string

text \<open>What \<open>#started\<close> does when the stream has ended.\<close>

definition finish_command ::
  "(utext \<Rightarrow> string) \<Rightarrow> 'w command_ports \<Rightarrow> sandbox_command \<Rightarrow> command_record \<Rightarrow> string \<Rightarrow> followed \<Rightarrow> ('w, start_result option) command_eff" where
  "finish_command utf8Sha256 ports cmd r pid f =
     (let result = command_result_of utf8Sha256 cmd f in
      bindE (fresh_id (cp_nowIso ports)) (\<lambda>ended.
      bindE (save_record ports (r\<lparr>cr_state := js_upper (result_status_str (rs_status result)), cr_providerRefs := [pid], cr_updatedAtIso := ended\<rparr>)) (\<lambda>_.
      bindE (command_event ports (''sandbox.command.'' @ result_status_str (rs_status result)) (sc_commandId cmd)) (\<lambda>_.
      retE (Some (Start_ok pid))))))"

definition started ::
  "nat \<Rightarrow> (utext \<Rightarrow> string) \<Rightarrow> 'w command_ports \<Rightarrow> sandbox_command \<Rightarrow> command_record \<Rightarrow> string \<Rightarrow> ('w, start_result option) command_eff" where
  "started fuel utf8Sha256 ports cmd r pid =
     bindE (fresh_id (cp_nowIso ports)) (\<lambda>begun.
     bindE (save_record ports (r\<lparr>cr_state := ''RUNNING'', cr_providerRefs := [pid], cr_updatedAtIso := begun\<rparr>)) (\<lambda>_.
     bindE (command_event ports ''sandbox.command.started'' (sc_commandId cmd)) (\<lambda>_.
     bindE (follow_stream fuel ports pid 0
              \<lparr>fo_stdout = new_OutputNormalizer (''out:'' @ sc_commandId cmd) (nat (sc_maxStdoutBytes cmd)) (cp_secretValues ports),
               fo_stderr = new_OutputNormalizer (''err:'' @ sc_commandId cmd) (nat (sc_maxStderrBytes cmd)) (cp_secretValues ports),
               fo_exitCode = None, fo_signal = None\<rparr>) (\<lambda>ended.
     case ended of None \<Rightarrow> retE None | Some f \<Rightarrow> finish_command utf8Sha256 ports cmd r pid f))))"

definition dispatch ::
  "nat \<Rightarrow> (utext \<Rightarrow> string) \<Rightarrow> 'w command_ports \<Rightarrow> sandbox_command \<Rightarrow> command_record \<Rightarrow> ('w, start_result option) command_eff" where
  "dispatch fuel utf8Sha256 ports cmd r =
     bindE (callE (CC_Execute cmd) (cp_execute ports cmd)) (\<lambda>dispatched.
     case dispatched of
       Inr pid \<Rightarrow> started fuel utf8Sha256 ports cmd r pid
     | Inl code \<Rightarrow>
         if code = P_CANCEL_UNSUPPORTED \<or> code = P_SERVER_ERROR
         then retE (Some (Start_refused Res_failed (''provider '' @ provider_code_str code)))
         else retE (Some (Start_refused Res_unknown ''start outcome unknown; reconcile'')))"

definition authorized_record :: "(string \<Rightarrow> string) \<Rightarrow> sandbox_command \<Rightarrow> string \<Rightarrow> string \<Rightarrow> command_record" where
  "authorized_record sha256 cmd created updated =
     \<lparr>cr_commandId = sc_commandId cmd, cr_generation = sc_generation cmd,
      cr_idempotencyKey = commandIdempotencyKey (sc_commandId cmd) (sc_generation cmd), cr_digest = canonicalDigest sha256 cmd,
      cr_state = ''AUTHORIZED'', cr_providerRefs = [], cr_createdAtIso = created, cr_updatedAtIso = updated\<rparr>"

definition start_known :: "(string \<Rightarrow> string) \<Rightarrow> sandbox_command \<Rightarrow> command_record \<Rightarrow> start_result" where
  "start_known sha256 cmd r =
     (if cr_digest r \<noteq> canonicalDigest sha256 cmd then Start_refused Res_blocked ''COMMAND_IDEMPOTENCY_CONFLICT''
      else if cr_state r = ''SUCCEEDED'' then Start_ok (case cr_providerRefs r of [] \<Rightarrow> '''' | p # _ \<Rightarrow> p)
      else Start_refused Res_blocked (''already '' @ cr_state r))"

definition start_command ::
  "nat \<Rightarrow> (string \<Rightarrow> string) \<Rightarrow> (utext \<Rightarrow> string) \<Rightarrow> 'w command_ports \<Rightarrow> sandbox_command \<Rightarrow> string \<Rightarrow> bool \<Rightarrow>
   ('w, start_result option) command_eff" where
  "start_command fuel sha256 utf8Sha256 ports cmd decisionId allowed =
     (if \<not> sandboxCommandSchema cmd then retE (Some (Start_refused Res_blocked ''malformed command''))
      else if assertSafeArgv cmd \<noteq> None then retE (Some (Start_refused Res_blocked ''unsafe argv''))
      else if \<not> allowed \<or> decisionId \<noteq> sc_actionDecisionId cmd then retE (Some (Start_refused Res_blocked ''COMMAND_NOT_AUTHORIZED''))
      else
        let key = commandIdempotencyKey (sc_commandId cmd) (sc_generation cmd) in
        bindE (callE (CC_GetByKey key) (cp_getByKey ports key)) (\<lambda>existing.
        case existing of
          Some r \<Rightarrow> retE (Some (start_known sha256 cmd r))
        | None \<Rightarrow>
            bindE (fresh_id (cp_nowIso ports)) (\<lambda>created.
            bindE (fresh_id (cp_nowIso ports)) (\<lambda>updated.
            let r = authorized_record sha256 cmd created updated in
            bindE (save_record ports r) (\<lambda>_.
            bindE (command_event ports ''sandbox.command.queued'' (sc_commandId cmd)) (\<lambda>_.
            dispatch fuel utf8Sha256 ports cmd r))))))"

section \<open>Cancelling a command\<close>

datatype cancel_result = Cancelled | Cancelled_unsupported

fun command_state_str :: "command_state \<Rightarrow> string" where
  "command_state_str Cmd_PROPOSED = ''PROPOSED''"
| "command_state_str Cmd_AUTHORIZED = ''AUTHORIZED''"
| "command_state_str Cmd_QUEUED = ''QUEUED''"
| "command_state_str Cmd_STARTING = ''STARTING''"
| "command_state_str Cmd_RUNNING = ''RUNNING''"
| "command_state_str Cmd_SUCCEEDED = ''SUCCEEDED''"
| "command_state_str Cmd_FAILED = ''FAILED''"
| "command_state_str Cmd_TIMING_OUT = ''TIMING_OUT''"
| "command_state_str Cmd_CANCELLING = ''CANCELLING''"
| "command_state_str Cmd_TERMINATING = ''TERMINATING''"
| "command_state_str Cmd_TIMED_OUT = ''TIMED_OUT''"
| "command_state_str Cmd_CANCELLED = ''CANCELLED''"
| "command_state_str Cmd_TERMINATION_FAILED = ''TERMINATION_FAILED''"
| "command_state_str Cmd_UNKNOWN = ''UNKNOWN''"
| "command_state_str Cmd_RECONCILING = ''RECONCILING''"
| "command_state_str Cmd_QUARANTINED = ''QUARANTINED''"

definition terminal_name :: "string \<Rightarrow> bool" where
  "terminal_name s \<longleftrightarrow> list_ex (\<lambda>t. command_state_str t = s) COMMAND_TERMINALS"

definition cancel_running :: "'w command_ports \<Rightarrow> string \<Rightarrow> command_record \<Rightarrow> ('w, cancel_result) command_eff" where
  "cancel_running ports commandId r =
     (let pid = (case cr_providerRefs r of [] \<Rightarrow> None | p # _ \<Rightarrow> Some p) in
      bindE (callE (CC_Terminate pid) (cp_terminate ports pid)) (\<lambda>result.
      if result \<noteq> Inr True then retE Cancelled_unsupported
      else
        bindE (callE CC_Inspect (cp_inspect ports)) (\<lambda>inspected.
        if inspected \<noteq> Inr False then retE Cancelled_unsupported
        else
          bindE (fresh_id (cp_nowIso ports)) (\<lambda>at.
          bindE (save_record ports (r\<lparr>cr_state := ''CANCELLED'', cr_updatedAtIso := at\<rparr>)) (\<lambda>_.
          bindE (command_event ports ''sandbox.command.cancelled'' commandId) (\<lambda>_. retE Cancelled))))))"

definition cancel_sandbox_command :: "'w command_ports \<Rightarrow> string \<Rightarrow> int \<Rightarrow> ('w, cancel_result) command_eff" where
  "cancel_sandbox_command ports commandId generation =
     (let key = commandIdempotencyKey commandId generation in
      bindE (callE (CC_GetByKey key) (cp_getByKey ports key)) (\<lambda>found.
      case found of
        None \<Rightarrow> retE Cancelled_unsupported
      | Some r \<Rightarrow>
          if terminal_name (cr_state r) \<or> cr_state r \<noteq> ''RUNNING'' then retE Cancelled_unsupported
          else cancel_running ports commandId r))"

section \<open>A command is executed once, when it was authorized\<close>

fun executes :: "command_call \<Rightarrow> bool" where
  "executes (CC_Execute c) = True"
| "executes _ = False"

fun records_success :: "command_call \<Rightarrow> bool" where
  "records_success (CC_Save r) = (cr_state r = ''SUCCEEDED'')"
| "records_success _ = False"

lemma follow_executes_nothing: "calls_within (\<lambda>c. \<not> executes c) (follow_stream n ports pid cursor f)"
  by (induction n arbitrary: cursor f) (auto simp: Let_def intro!: within_intros)

lemma finish_executes_nothing: "calls_within (\<lambda>c. \<not> executes c) (finish_command v ports cmd r pid f)"
  unfolding finish_command_def Let_def command_call_defs by (intro within_intros; simp)

lemma started_executes_nothing: "calls_within (\<lambda>c. \<not> executes c) (started fuel v ports cmd r pid)"
  unfolding started_def command_call_defs
  by (intro within_intros follow_executes_nothing finish_executes_nothing; simp)

lemma cancel_executes_nothing: "calls_within (\<lambda>c. \<not> executes c) (cancel_sandbox_command ports i g)"
  unfolding cancel_sandbox_command_def cancel_running_def Let_def command_call_defs by (intro within_intros; simp)

lemma dispatch_calls:
  "\<exists>rest. eff_calls (dispatch fuel v ports cmd r) w = CC_Execute cmd # rest \<and> list_all (\<lambda>c. \<not> executes c) rest"
  using started_executes_nothing [of fuel v ports cmd r]
  by (auto simp: dispatch_def calls_bindE calls_within_def split: sum.splits)

lemma execution_shape:
  assumes "CC_Execute c \<in> set (eff_calls (start_command fuel sha256 v ports cmd decisionId allowed) w)"
  shows "c = cmd \<and> sandboxCommandSchema cmd \<and> assertSafeArgv cmd = None \<and> allowed \<and> decisionId = sc_actionDecisionId cmd \<and>
    (let key = commandIdempotencyKey (sc_commandId cmd) (sc_generation cmd) in
     snd (cp_getByKey ports key w) = Inr None \<and>
     (\<exists>r rest. eff_calls (start_command fuel sha256 v ports cmd decisionId allowed) w =
          [CC_GetByKey key, CC_Save r, CC_Emit ''sandbox.command.queued'' (sc_commandId cmd), CC_Execute cmd] @ rest \<and>
        cr_state r = ''AUTHORIZED'' \<and> cr_idempotencyKey r = key \<and> cr_digest r = canonicalDigest sha256 cmd \<and>
        list_all (\<lambda>c. \<not> executes c) rest))"
proof -
  let ?key = "commandIdempotencyKey (sc_commandId cmd) (sc_generation cmd)"
  have guards: "sandboxCommandSchema cmd" "assertSafeArgv cmd = None" "allowed" "decisionId = sc_actionDecisionId cmd"
    using assms unfolding start_command_def by (auto split: if_splits)
  note c = assms [unfolded start_command_def]
  from c guards have "\<exists>existing. snd (cp_getByKey ports ?key w) = Inr existing"
    by (cases "snd (cp_getByKey ports ?key w)") (simp_all add: Let_def calls_bindE)
  then obtain existing where get: "snd (cp_getByKey ports ?key w) = Inr existing" ..
  show ?thesis
  proof (cases existing)
    case None
    let ?u = "fst (cp_nowIso ports (fst (cp_getByKey ports ?key w)))"
    define r where "r = authorized_record sha256 cmd (snd (cp_nowIso ports (fst (cp_getByKey ports ?key w)))) (snd (cp_nowIso ports ?u))"
    let ?w2 = "fst (cp_nowIso ports ?u)"
    let ?w3 = "fst (cp_save ports r ?w2)"
    let ?w4 = "fst (cp_emit ports ''sandbox.command.queued'' (sc_commandId cmd) ?w3)"
    from guards get None have calls: "eff_calls (start_command fuel sha256 v ports cmd decisionId allowed) w =
      CC_GetByKey ?key # CC_Save r # (case snd (cp_save ports r ?w2) of Inl e \<Rightarrow> []
        | Inr _ \<Rightarrow> CC_Emit ''sandbox.command.queued'' (sc_commandId cmd) #
            (case snd (cp_emit ports ''sandbox.command.queued'' (sc_commandId cmd) ?w3) of Inl e \<Rightarrow> []
             | Inr _ \<Rightarrow> eff_calls (dispatch fuel v ports cmd r) ?w4))"
      unfolding start_command_def by (simp add: Let_def calls_bindE command_call_defs r_def split: sum.split)
    from dispatch_calls [of fuel v ports cmd r ?w4] obtain rest where
      d: "eff_calls (dispatch fuel v ports cmd r) ?w4 = CC_Execute cmd # rest" "list_all (\<lambda>c. \<not> executes c) rest" by blast
    from assms calls d have "c = cmd" and "eff_calls (start_command fuel sha256 v ports cmd decisionId allowed) w =
        [CC_GetByKey ?key, CC_Save r, CC_Emit ''sandbox.command.queued'' (sc_commandId cmd), CC_Execute cmd] @ rest"
      by (auto split: sum.splits simp: list_all_iff)
    moreover have "cr_state r = ''AUTHORIZED''" "cr_idempotencyKey r = ?key" "cr_digest r = canonicalDigest sha256 cmd"
      by (simp_all add: r_def authorized_record_def)
    ultimately show ?thesis using guards get None d(2) by auto
  next
    case (Some x)
    with c guards get show ?thesis by (auto simp: Let_def calls_bindE)
  qed
qed

text \<open>
  Property C17.  The provider executes only the command that was asked for, when its fields pass the schema, its
  arguments, working directory and environment are safe, and the authorization allows it and names
  its decision; the store knew no record under the command's key, and the record that says AUTHORIZED was
  saved before.  Nothing else is executed.
\<close>
theorem execution_needs_authorization:
  assumes "CC_Execute c \<in> set (eff_calls (start_command fuel sha256 v ports cmd decisionId allowed) w)"
  shows "c = cmd \<and> sandboxCommandSchema cmd \<and> assertSafeArgv cmd = None \<and> allowed \<and> decisionId = sc_actionDecisionId cmd \<and>
    (let key = commandIdempotencyKey (sc_commandId cmd) (sc_generation cmd) in
     snd (cp_getByKey ports key w) = Inr None \<and>
     (\<exists>r rest. eff_calls (start_command fuel sha256 v ports cmd decisionId allowed) w =
          [CC_GetByKey key, CC_Save r, CC_Emit ''sandbox.command.queued'' (sc_commandId cmd), CC_Execute cmd] @ rest \<and>
        cr_state r = ''AUTHORIZED'' \<and> cr_idempotencyKey r = key \<and> cr_digest r = canonicalDigest sha256 cmd \<and>
        list_all (\<lambda>c. \<not> executes c) rest))"
  by (rule execution_shape [OF assms])

section \<open>Success is an observed exit code\<close>

lemma follow_answer:
  assumes "eff_result (follow_stream n ports pid cursor f) w = Inr (Some g)" and "fo_exitCode f = None" and "fo_exitCode g = Some e"
  shows "\<exists>cur s. answers (cp_stream ports cur pid) (Inr s) \<and> \<not> sl_running s \<and> sl_exitCode s = Some e"
  using assms
proof (induction n arbitrary: cursor f w)
  case (Suc n)
  have keeps: "fo_exitCode (foldl ingest_chunk f cs) = fo_exitCode f" for cs f
    by (induction cs arbitrary: f) (auto simp: ingest_chunk_def split: output_stream.splits)
  from Suc.prems(1) obtain a where a: "snd (cp_stream ports cursor pid w) = Inr a"
    "eff_result (case a of Inl code \<Rightarrow> retE (Some f)
       | Inr s \<Rightarrow> let g = foldl ingest_chunk f (sl_chunks s) in
           if sl_running s then follow_stream n ports pid (sl_nextCursor s) g
           else retE (Some (g\<lparr>fo_exitCode := sl_exitCode s, fo_signal := sl_signal s\<rparr>)))
       (fst (cp_stream ports cursor pid w)) = Inr (Some g)"
    by (auto simp: result_bindE split: sum.splits)
  show ?case
  proof (cases a)
    case (Inl code)
    with a(2) Suc.prems(2,3) show ?thesis by simp
  next
    case (Inr s)
    show ?thesis
    proof (cases "sl_running s")
      case True
      with a(2) Inr show ?thesis using Suc.IH [OF _ _ Suc.prems(3)] keeps Suc.prems(2) by (simp add: Let_def)
    next
      case False
      with a(2) Inr Suc.prems(3) have "sl_exitCode s = Some e" by (auto simp: Let_def)
      with False a(1) Inr show ?thesis by (auto intro: answersI)
    qed
  qed
qed simp

lemma follow_saves_nothing: "calls_within (\<lambda>c. \<not> records_success c) (follow_stream n ports pid cursor f)"
  by (induction n arbitrary: cursor f) (auto simp: Let_def intro!: within_intros)

lemma finish_records:
  assumes "c \<in> set (eff_calls (finish_command v ports cmd r pid f) w)" and "records_success c"
  shows "fo_exitCode f = Some 0"
proof (rule ccontr)
  assume "fo_exitCode f \<noteq> Some 0"
  then have "rs_status (command_result_of v cmd f) = Res_failed"
    by (simp add: command_result_of_def command_outcome_def ranUnderDeadline_def Let_def)
  then have "calls_within (\<lambda>c. \<not> records_success c) (finish_command v ports cmd r pid f)"
    unfolding finish_command_def Let_def command_call_defs by (intro within_intros; simp add: js_upper_def)
  from within_calls [OF this assms(1)] assms(2) show False by simp
qed

lemma started_records:
  assumes "c \<in> set (eff_calls (started fuel v ports cmd r pid) w)" and "records_success c"
  shows "\<exists>cur s. answers (cp_stream ports cur pid) (Inr s) \<and> \<not> sl_running s \<and> sl_exitCode s = Some 0"
proof -
  let ?f = "\<lparr>fo_stdout = new_OutputNormalizer (''out:'' @ sc_commandId cmd) (nat (sc_maxStdoutBytes cmd)) (cp_secretValues ports),
    fo_stderr = new_OutputNormalizer (''err:'' @ sc_commandId cmd) (nat (sc_maxStderrBytes cmd)) (cp_secretValues ports),
    fo_exitCode = None, fo_signal = None\<rparr>"
  from assms obtain u where "c \<in> set (eff_calls (bindE (follow_stream fuel ports pid 0 ?f) (\<lambda>ended.
      case ended of None \<Rightarrow> retE None | Some f \<Rightarrow> finish_command v ports cmd r pid f)) u)"
    by (auto simp: started_def calls_bindE command_call_defs split: sum.splits)
  moreover have "c \<notin> set (eff_calls (follow_stream fuel ports pid 0 ?f) u)"
    using assms(2) by (auto dest: within_calls [OF follow_saves_nothing])
  ultimately have "\<exists>a. eff_result (follow_stream fuel ports pid 0 ?f) u = Inr a \<and>
    c \<in> set (eff_calls (case a of None \<Rightarrow> retE None | Some f \<Rightarrow> finish_command v ports cmd r pid f)
       (eff_world (follow_stream fuel ports pid 0 ?f) u))"
    by (drule_tac call_reached) auto
  then obtain a where a: "eff_result (follow_stream fuel ports pid 0 ?f) u = Inr a"
    "c \<in> set (eff_calls (case a of None \<Rightarrow> retE None | Some f \<Rightarrow> finish_command v ports cmd r pid f)
       (eff_world (follow_stream fuel ports pid 0 ?f) u))" by blast
  then obtain g where g: "a = Some g" by (cases a) simp_all
  with a(2) finish_records [OF _ assms(2)] have "fo_exitCode g = Some 0" by simp
  with follow_answer [OF a(1) [unfolded g]] show ?thesis by simp
qed

text \<open>
  A record says SUCCEEDED only when the provider's stream, for the provider id the record holds, reported
  that the process no longer runs and left with code 0.
\<close>
theorem success_is_an_observed_exit:
  assumes "CC_Save r \<in> set (eff_calls (start_command fuel sha256 v ports cmd decisionId allowed) w)" and "cr_state r = ''SUCCEEDED''"
  shows "\<exists>pid cursor slice. answers (cp_execute ports cmd) (Inr pid) \<and> answers (cp_stream ports cursor pid) (Inr slice) \<and>
    \<not> sl_running slice \<and> sl_exitCode slice = Some 0"
proof -
  let ?c = "CC_Save r"
  have s: "records_success ?c" using assms(2) by simp
  have "\<exists>x u. ?c \<in> set (eff_calls (dispatch fuel v ports cmd x) u)"
    using assms by (auto simp: start_command_def authorized_record_def calls_bindE command_call_defs Let_def eff_if
        split: sum.splits option.splits if_splits)
  then obtain x u where "?c \<in> set (eff_calls (dispatch fuel v ports cmd x) u)" by blast
  then have "\<exists>a. snd (cp_execute ports cmd u) = Inr a \<and> ?c \<in> set (eff_calls
      (case a of Inr pid \<Rightarrow> started fuel v ports cmd x pid
       | Inl code \<Rightarrow> if code = P_CANCEL_UNSUPPORTED \<or> code = P_SERVER_ERROR
           then retE (Some (Start_refused Res_failed (''provider '' @ provider_code_str code)))
           else retE (Some (Start_refused Res_unknown ''start outcome unknown; reconcile''))) (fst (cp_execute ports cmd u)))"
    by (cases "snd (cp_execute ports cmd u)") (simp_all add: dispatch_def calls_bindE)
  then obtain a where a: "snd (cp_execute ports cmd u) = Inr a" "?c \<in> set (eff_calls
      (case a of Inr pid \<Rightarrow> started fuel v ports cmd x pid
       | Inl code \<Rightarrow> if code = P_CANCEL_UNSUPPORTED \<or> code = P_SERVER_ERROR
           then retE (Some (Start_refused Res_failed (''provider '' @ provider_code_str code)))
           else retE (Some (Start_refused Res_unknown ''start outcome unknown; reconcile''))) (fst (cp_execute ports cmd u)))" by blast
  then obtain pid where "a = Inr pid" by (cases a) (simp_all add: eff_if split: if_splits)
  with a have "snd (cp_execute ports cmd u) = Inr (Inr pid)" "\<exists>u. ?c \<in> set (eff_calls (started fuel v ports cmd x pid) u)"
    by auto
  from this(2) obtain u' where "?c \<in> set (eff_calls (started fuel v ports cmd x pid) u')" by blast
  from started_records [OF this s] answersI [of "cp_execute ports cmd" u, OF \<open>snd (cp_execute ports cmd u) = Inr (Inr pid)\<close>]
  show ?thesis by blast
qed

section \<open>Sequences of starts and cancellations over the in-memory store\<close>

text \<open>
  The store of the file, \<open>InMemoryCommandStore\<close>, beside the rest of the world; the other ports are
  arbitrary and act on the rest.
\<close>

definition beside_store :: "('p, 'a) port \<Rightarrow> (command_store \<times> 'p, 'a) port" where
  "beside_store p w = (case p (snd w) of (q, a) \<Rightarrow> ((fst w, q), a))"

definition on_store :: "'p command_ports \<Rightarrow> (command_store \<times> 'p) command_ports" where
  "on_store base =
     \<lparr>cp_execute = \<lambda>c. beside_store (cp_execute base c), cp_stream = \<lambda>n i. beside_store (cp_stream base n i), cp_inspect = beside_store (cp_inspect base),
      cp_terminate = \<lambda>i. beside_store (cp_terminate base i),
      cp_getByKey = \<lambda>k w. (w, Inr (store_getByKey k (fst w))),
      cp_save = \<lambda>r w. ((store_save r (fst w), snd w), Inr ()),
      cp_emit = \<lambda>t i. beside_store (cp_emit base t i),
      cp_nowIso = \<lambda>w. (case cp_nowIso base (snd w) of (q, t) \<Rightarrow> ((fst w, q), t)),
      cp_secretValues = cp_secretValues base\<rparr>"

lemma on_store_ports:
  "cp_getByKey (on_store base) k w = (w, Inr (store_getByKey k (fst w)))"
  "cp_save (on_store base) r w = ((store_save r (fst w), snd w), Inr ())"
  "cp_nowIso (on_store base) w = ((fst w, fst (cp_nowIso base (snd w))), snd (cp_nowIso base (snd w)))"
  by (simp_all add: on_store_def split: prod.splits)

datatype runner_op = RO_start nat sandbox_command string bool | RO_cancel string int

definition perform ::
  "(string \<Rightarrow> string) \<Rightarrow> (utext \<Rightarrow> string) \<Rightarrow> 'w command_ports \<Rightarrow> runner_op \<Rightarrow> ('w, unit) command_eff" where
  "perform sha256 v ports op =
     (case op of
        RO_start fuel cmd d allowed \<Rightarrow> bindE (start_command fuel sha256 v ports cmd d allowed) (\<lambda>_. retE ())
      | RO_cancel i g \<Rightarrow> bindE (cancel_sandbox_command ports i g) (\<lambda>_. retE ()))"

fun runner_calls ::
  "(string \<Rightarrow> string) \<Rightarrow> (utext \<Rightarrow> string) \<Rightarrow> 'w command_ports \<Rightarrow> runner_op list \<Rightarrow> 'w \<Rightarrow> command_call list" where
  "runner_calls sha256 v ports [] w = []"
| "runner_calls sha256 v ports (op # ops) w =
     eff_calls (perform sha256 v ports op) w @ runner_calls sha256 v ports ops (eff_world (perform sha256 v ports op) w)"

fun executes_key :: "string \<Rightarrow> command_call \<Rightarrow> bool" where
  "executes_key k (CC_Execute c) = (commandIdempotencyKey (sc_commandId c) (sc_generation c) = k)"
| "executes_key k _ = False"

lemma executes_key_executes: "executes_key k c \<Longrightarrow> executes c"
  by (cases c) simp_all

text \<open>No step forgets a key.\<close>

definition grows :: "((command_store \<times> 'p), 'a) command_eff \<Rightarrow> bool" where
  "grows m \<longleftrightarrow> (\<forall>w. dom (fst w) \<subseteq> dom (fst (eff_world m w)))"

named_theorems grows_intros

lemma grows_retE [grows_intros]: "grows (retE a)"
  and grows_throwE [grows_intros]: "grows (throwE e)"
  by (simp_all add: grows_def)

lemma grows_bindE [grows_intros]: "grows m \<Longrightarrow> (\<And>a. grows (k a)) \<Longrightarrow> grows (bindE m k)"
  unfolding grows_def
proof
  fix w
  assume m: "\<forall>w. dom (fst w) \<subseteq> dom (fst (eff_world m w))" and k: "\<And>a. \<forall>w. dom (fst w) \<subseteq> dom (fst (eff_world (k a) w))"
  show "dom (fst w) \<subseteq> dom (fst (eff_world (bindE m k) w))"
  proof (cases "eff_result m w")
    case (Inr a)
    from m have "dom (fst w) \<subseteq> dom (fst (eff_world m w))" ..
    also from k [of a] have "\<dots> \<subseteq> dom (fst (eff_world (k a) (eff_world m w)))" ..
    finally show ?thesis using Inr by (simp add: world_bindE)
  next
    case (Inl e)
    moreover from m have "dom (fst w) \<subseteq> dom (fst (eff_world m w))" ..
    ultimately show ?thesis by (simp add: world_bindE)
  qed
qed

lemma grows_if [grows_intros]: "(b \<Longrightarrow> grows m) \<Longrightarrow> (\<not> b \<Longrightarrow> grows m') \<Longrightarrow> grows (if b then m else m')"
  by simp

lemma grows_case_option [grows_intros]:
  "(x = None \<Longrightarrow> grows m) \<Longrightarrow> (\<And>a. x = Some a \<Longrightarrow> grows (f a)) \<Longrightarrow> grows (case x of None \<Rightarrow> m | Some a \<Rightarrow> f a)"
  by (cases x) simp_all

lemma grows_case_sum [grows_intros]:
  "(\<And>e. x = Inl e \<Longrightarrow> grows (g e)) \<Longrightarrow> (\<And>a. x = Inr a \<Longrightarrow> grows (f a)) \<Longrightarrow> grows (case x of Inl e \<Rightarrow> g e | Inr a \<Rightarrow> f a)"
  by (cases x) simp_all

lemma grows_beside_store: "grows (callE c (beside_store p))"
  by (auto simp: grows_def beside_store_def split: prod.splits)

lemma grows_ports [grows_intros]:
  "grows (callE c (cp_execute (on_store base) cmd))" "grows (callE c (cp_stream (on_store base) n i))"
  "grows (callE c (cp_inspect (on_store base)))" "grows (callE c (cp_terminate (on_store base) pid))"
  "grows (command_event (on_store base) t i)"
  by (simp_all add: on_store_def grows_beside_store command_event_def)

lemma grows_store_ports [grows_intros]:
  "grows (callE c (cp_getByKey (on_store base) k))" "grows (fresh_id (cp_nowIso (on_store base)))" "grows (save_record (on_store base) r)"
  by (auto simp: grows_def on_store_ports save_record_def store_save_def)

lemma follow_grows: "grows (follow_stream n (on_store base) pid cursor f)"
  by (induction n arbitrary: cursor f) (auto simp: Let_def intro!: grows_intros)

lemma dispatch_grows: "grows (dispatch fuel v (on_store base) cmd r)"
  unfolding dispatch_def started_def finish_command_def Let_def by (intro grows_intros follow_grows)

lemma start_grows: "grows (start_command fuel sha256 v (on_store base) cmd d allowed)"
  unfolding start_command_def Let_def by (intro grows_intros dispatch_grows)

lemma cancel_grows: "grows (cancel_sandbox_command (on_store base) i g)"
  unfolding cancel_sandbox_command_def cancel_running_def Let_def by (intro grows_intros)

lemma perform_grows: "grows (perform sha256 v (on_store base) op)"
  by (cases op) (auto simp: perform_def intro!: grows_intros start_grows cancel_grows)

lemma grown: "grows m \<Longrightarrow> k \<in> dom (fst w) \<Longrightarrow> k \<in> dom (fst (eff_world m w))"
  unfolding grows_def by blast

lemma started_key_is_stored:
  assumes "sandboxCommandSchema cmd" and "assertSafeArgv cmd = None" and "allowed" and "d = sc_actionDecisionId cmd"
    and "fst w (commandIdempotencyKey (sc_commandId cmd) (sc_generation cmd)) = None"
  shows "commandIdempotencyKey (sc_commandId cmd) (sc_generation cmd) \<in>
    dom (fst (eff_world (start_command fuel sha256 v (on_store base) cmd d allowed) w))"
proof -
  let ?key = "commandIdempotencyKey (sc_commandId cmd) (sc_generation cmd)"
  define r where "r = authorized_record sha256 cmd (snd (cp_nowIso base (snd w))) (snd (cp_nowIso base (fst (cp_nowIso base (snd w)))))"
  let ?rest = "bindE (command_event (on_store base) ''sandbox.command.queued'' (sc_commandId cmd)) (\<lambda>_. dispatch fuel v (on_store base) cmd r)"
  let ?w = "(store_save r (fst w), fst (cp_nowIso base (fst (cp_nowIso base (snd w)))))"
  from assms have "eff_world (start_command fuel sha256 v (on_store base) cmd d allowed) w = eff_world ?rest ?w"
    by (simp add: start_command_def Let_def world_bindE result_bindE on_store_ports store_getByKey_def save_record_def r_def)
  moreover have "?key \<in> dom (fst ?w)" by (simp add: r_def authorized_record_def store_save_def)
  moreover have "grows ?rest" by (intro grows_intros dispatch_grows)
  ultimately show ?thesis using grown [of ?rest ?key ?w] by simp
qed

text \<open>The executions of one operation under a key.\<close>

lemma executions_of_perform:
  "filter (executes_key k) (eff_calls (perform sha256 v (on_store base) op) w) = [] \<or>
   length (filter (executes_key k) (eff_calls (perform sha256 v (on_store base) op) w)) = 1 \<and> k \<notin> dom (fst w) \<and>
   k \<in> dom (fst (eff_world (perform sha256 v (on_store base) op) w))"
proof (cases op)
  case (RO_cancel i g)
  have "c \<notin> set (eff_calls (cancel_sandbox_command (on_store base) i g) w)" if "executes_key k c" for c
    using executes_key_executes [OF that] by (auto dest: within_calls [OF cancel_executes_nothing])
  with RO_cancel show ?thesis by (auto simp: perform_def calls_bindE filter_empty_conv split: sum.splits)
next
  case (RO_start fuel cmd d allowed)
  let ?m = "start_command fuel sha256 v (on_store base) cmd d allowed"
  have calls: "eff_calls (perform sha256 v (on_store base) op) w = eff_calls ?m w"
    and world: "eff_world (perform sha256 v (on_store base) op) w = eff_world ?m w"
    using RO_start by (simp_all add: perform_def calls_bindE world_bindE split: sum.splits)
  show ?thesis
  proof (cases "filter (executes_key k) (eff_calls ?m w) = []")
    case False
    then obtain c where c: "c \<in> set (eff_calls ?m w)" "executes_key k c" by (auto simp: filter_empty_conv)
    from c(2) obtain e where e: "c = CC_Execute e" "commandIdempotencyKey (sc_commandId e) (sc_generation e) = k"
      by (cases c) simp_all
    note shape = execution_shape [OF c(1) [unfolded e(1)]]
    then have g: "sandboxCommandSchema cmd" "assertSafeArgv cmd = None" "allowed" "d = sc_actionDecisionId cmd" by blast+
    from shape e(2) have k: "commandIdempotencyKey (sc_commandId cmd) (sc_generation cmd) = k" "store_getByKey k (fst w) = None"
      by (simp_all add: Let_def on_store_ports)
    from shape obtain r rest where
      rest: "eff_calls ?m w = [CC_GetByKey k, CC_Save r, CC_Emit ''sandbox.command.queued'' (sc_commandId cmd), CC_Execute cmd] @ rest"
        "list_all (\<lambda>c. \<not> executes c) rest"
      unfolding Let_def k(1) by blast
    have "filter (executes_key k) rest = []"
      using rest(2) executes_key_executes by (auto simp: filter_empty_conv list_all_iff)
    with rest(1) k(1) have "length (filter (executes_key k) (eff_calls ?m w)) = 1" by simp
    moreover from k have "fst w (commandIdempotencyKey (sc_commandId cmd) (sc_generation cmd)) = None"
      by (simp add: store_getByKey_def)
    ultimately show ?thesis
      using started_key_is_stored [OF g, of w fuel sha256 v base] k calls world by (auto simp: store_getByKey_def)
  qed (use calls in \<open>simp\<close>)
qed

lemma runner_executions:
  "length (filter (executes_key k) (runner_calls sha256 v (on_store base) ops w)) \<le> (if k \<in> dom (fst w) then 0 else 1)"
proof (induction ops arbitrary: w)
  case (Cons op ops)
  let ?w = "eff_world (perform sha256 v (on_store base) op) w"
  have "k \<in> dom (fst w) \<Longrightarrow> k \<in> dom (fst ?w)" by (rule grown [OF perform_grows])
  with Cons [of ?w] executions_of_perform [of k sha256 v base op w] show ?case by (auto split: if_splits)
qed simp

text \<open>
  Property C18.  Whatever sequence of starts and cancellations is made over the in-memory store, and whatever the
  provider, the event sink and the clock answer, throw or change, the provider is asked to execute a command id in one
  generation at most once.
\<close>
theorem command_is_executed_at_most_once:
  "length (filter (\<lambda>c. \<exists>e. c = CC_Execute e \<and> sc_commandId e = i \<and> sc_generation e = g)
     (runner_calls sha256 v (on_store base) ops w)) \<le> 1"
proof -
  have "executes_key (commandIdempotencyKey i g) = (\<lambda>c. \<exists>e. c = CC_Execute e \<and> sc_commandId e = i \<and> sc_generation e = g)"
  proof
    fix c
    show "executes_key (commandIdempotencyKey i g) c = (\<exists>e. c = CC_Execute e \<and> sc_commandId e = i \<and> sc_generation e = g)"
      by (cases c) (auto simp: key_unique)
  qed
  with runner_executions [of "commandIdempotencyKey i g" sha256 v base ops w] show ?thesis
    by (simp split: if_splits)
qed

section \<open>Starting returns when the process ends\<close>

definition comes_back :: "(nat \<Rightarrow> ('w, 'a option) command_eff) \<Rightarrow> bool" where
  "comes_back m \<longleftrightarrow> (\<forall>w. \<exists>n. \<forall>fuel \<ge> n. eff_result (m fuel) w \<noteq> Inr None)"

lemma back_retE: "comes_back (\<lambda>fuel. retE (Some a))"
  by (simp add: comes_back_def)

lemma back_bindE: "(\<And>a. comes_back (k a)) \<Longrightarrow> comes_back (\<lambda>fuel. bindE c (\<lambda>a. k a fuel))"
  unfolding comes_back_def
proof
  fix w
  assume k: "\<And>a. \<forall>w. \<exists>n. \<forall>fuel \<ge> n. eff_result (k a fuel) w \<noteq> Inr None"
  show "\<exists>n. \<forall>fuel \<ge> n. eff_result (bindE c (\<lambda>a. k a fuel)) w \<noteq> Inr None"
  proof (cases "eff_result c w")
    case (Inr a)
    from k [of a] obtain n where "\<forall>fuel \<ge> n. eff_result (k a fuel) (eff_world c w) \<noteq> Inr None" by blast
    with Inr show ?thesis by (auto simp: result_bindE)
  qed (simp add: result_bindE)
qed

lemma back_case_option:
  "comes_back m \<Longrightarrow> (\<And>a. comes_back (k a)) \<Longrightarrow> comes_back (\<lambda>fuel. case x of None \<Rightarrow> m fuel | Some a \<Rightarrow> k a fuel)"
  by (cases x) simp_all

lemma back_case_sum:
  "(\<And>a. comes_back (h a)) \<Longrightarrow> (\<And>a. comes_back (k a)) \<Longrightarrow> comes_back (\<lambda>fuel. case x of Inl a \<Rightarrow> h a fuel | Inr a \<Rightarrow> k a fuel)"
  by (cases x) simp_all

lemma back_if: "comes_back m \<Longrightarrow> comes_back m' \<Longrightarrow> comes_back (\<lambda>fuel. if b then m fuel else m' fuel)"
  by (cases b) simp_all

lemmas back_intros = back_retE back_bindE back_case_option back_case_sum back_if

lemma finish_some: "eff_result (finish_command v ports cmd r pid f) w \<noteq> Inr None"
  by (simp add: finish_command_def Let_def result_bindE command_call_defs split: sum.splits)

lemma follow_returns:
  assumes "\<And>w cur s. snd (cp_stream ports cur pid w) = Inr (Inr s) \<Longrightarrow> sl_running s \<Longrightarrow> rank (fst (cp_stream ports cur pid w)) < rank w"
    and "rank w < n"
  shows "eff_result (follow_stream n ports pid cursor f) w \<noteq> Inr None"
  using assms(2)
proof (induction n arbitrary: cursor f w)
  case (Suc n)
  have "rank (fst (cp_stream ports cursor pid w)) < n"
    if "snd (cp_stream ports cursor pid w) = Inr (Inr s)" and "sl_running s" for s
    using assms(1) [OF that] Suc.prems by simp
  with Suc.IH show ?case by (auto simp: result_bindE Let_def split: sum.splits)
qed simp

lemma dispatch_comes_back:
  assumes "\<And>pid w cur s. snd (cp_stream ports cur pid w) = Inr (Inr s) \<Longrightarrow> sl_running s \<Longrightarrow> (rank :: 'w \<Rightarrow> nat) (fst (cp_stream ports cur pid w)) < rank w"
  shows "comes_back (\<lambda>fuel. dispatch fuel v ports cmd r)"
proof -
  have "comes_back (\<lambda>fuel. bindE (follow_stream fuel ports pid 0 f) (\<lambda>ended.
      case ended of None \<Rightarrow> retE None | Some f \<Rightarrow> finish_command v ports cmd r pid f))" for pid f
    unfolding comes_back_def
  proof
    fix w
    have "eff_result (bindE (follow_stream fuel ports pid 0 f) (\<lambda>ended.
        case ended of None \<Rightarrow> retE None | Some f \<Rightarrow> finish_command v ports cmd r pid f)) w \<noteq> Inr None" if "rank w < fuel" for fuel :: nat
    proof -
      have "eff_result (follow_stream fuel ports pid 0 f) w \<noteq> Inr None"
        by (rule follow_returns [where rank = rank, OF _ that]) (rule assms)
      then show ?thesis by (auto simp: result_bindE finish_some split: sum.splits option.splits)
    qed
    then show "\<exists>n. \<forall>fuel \<ge> n. eff_result (bindE (follow_stream fuel ports pid 0 f) (\<lambda>ended.
        case ended of None \<Rightarrow> retE None | Some f \<Rightarrow> finish_command v ports cmd r pid f)) w \<noteq> Inr None"
      by (intro exI [of _ "Suc (rank w)"]) auto
  qed
  then show ?thesis unfolding dispatch_def started_def by (intro back_intros)
qed

text \<open>
  Starting returns, a result or an error, provided that the provider does not report forever that
  the process is running: each answer that says so brings some measure of the world down.
\<close>
theorem start_returns_when_process_ends:
  assumes "\<And>pid w cur s. snd (cp_stream ports cur pid w) = Inr (Inr s) \<Longrightarrow> sl_running s \<Longrightarrow> (rank :: 'w \<Rightarrow> nat) (fst (cp_stream ports cur pid w)) < rank w"
  shows "\<exists>n. \<forall>fuel \<ge> n. eff_result (start_command fuel sha256 v ports cmd d allowed) w \<noteq> Inr None"
proof -
  have "comes_back (\<lambda>fuel. start_command fuel sha256 v ports cmd d allowed)"
    unfolding start_command_def Let_def by (intro back_intros dispatch_comes_back [where rank = rank, OF assms])
  then show ?thesis by (simp add: comes_back_def)
qed

section \<open>Concrete runs\<close>

text \<open>A provider whose stream plays a script of slices.\<close>

type_synonym script = "(provider_code + stream_slice) list"

definition scripted :: "script command_ports" where
  "scripted =
     \<lparr>cp_execute = \<lambda>c w. (w, Inr (Inr ''pc-1'')),
      cp_stream = \<lambda>n i w. (tl w, Inr (case w of [] \<Rightarrow> Inl P_NOT_FOUND | s # _ \<Rightarrow> s)),
      cp_inspect = \<lambda>w. (w, Inr (Inr False)), cp_terminate = \<lambda>i w. (w, Inr (Inr True)),
      cp_getByKey = \<lambda>k w. (w, Inr None), cp_save = \<lambda>r w. (w, Inr ()), cp_emit = \<lambda>t i w. (w, Inr ()),
      cp_nowIso = \<lambda>w. (w, ''2026-01-01T00:00:00Z''), cp_secretValues = []\<rparr>"

definition slice_ends :: "bool \<Rightarrow> int option \<Rightarrow> stream_slice" where
  "slice_ends running code =
     \<lparr>sl_chunks = [], sl_done = \<not> running, sl_running = running, sl_exitCode = code, sl_signal = None, sl_nextCursor = 0\<rparr>"

definition sample_sandbox_command :: sandbox_command where
  "sample_sandbox_command =
     \<lparr>sc_commandId = ''c1'', sc_workspaceId = ''01HZZZZZZZZZZZZZZZZZZZZZZZ'', sc_headSha = ''0123456789abcdef0123456789abcdef01234567'',
      sc_ready = True, sc_actionDecisionId = ''d1'', sc_class = Class_test, sc_executable = ''npm'', sc_args = [''test''], sc_cwd = ''.'',
      sc_env = [(''CI'', Literal_safe ''1'')], sc_timeoutMs = 1, sc_maxStdoutBytes = 1000, sc_maxStderrBytes = 1000, sc_generation = 0\<rparr>"

lemma sample_command_id: "idSchema (sc_workspaceId sample_sandbox_command)"
  by code_simp

lemma sample_command_head: "length (sc_headSha sample_sandbox_command) = 40 \<and> list_all hex_lower (sc_headSha sample_sandbox_command)"
  by code_simp

lemma sample_command_env: "list_all (\<lambda>(n, v). env_name n \<and> envValueSchema v) (sc_env sample_sandbox_command)"
  by code_simp

lemma sample_command_ok: "sandboxCommandSchema sample_sandbox_command"
  using sample_command_id sample_command_head sample_command_env
  by (simp add: sandboxCommandSchema_def workspaceFenceSchema_def within_def output_limit_def safe_int_def sample_sandbox_command_def
      js_startsWith_def)

lemma sample_command_safe: "assertSafeArgv sample_sandbox_command = None"
  by code_simp

lemma sample_fields [simp]:
  "sc_actionDecisionId sample_sandbox_command = ''d1''" "sc_commandId sample_sandbox_command = ''c1''" "sc_generation sample_sandbox_command = 0"
  by (simp_all add: sample_sandbox_command_def)

lemma scripted_ports:
  "cp_execute (on_store scripted) c w = (w, Inr (Inr ''pc-1''))"
  "cp_stream (on_store scripted) n i w = ((fst w, tl (snd w)), Inr (case snd w of [] \<Rightarrow> Inl P_NOT_FOUND | s # _ \<Rightarrow> s))"
  "cp_inspect (on_store scripted) w = (w, Inr (Inr False))"
  "cp_terminate (on_store scripted) t w = (w, Inr (Inr True))"
  "cp_emit (on_store scripted) ty i w = (w, Inr ())"
  "cp_nowIso (on_store scripted) w = (w, ''2026-01-01T00:00:00Z'')" "cp_nowIso scripted x = (x, ''2026-01-01T00:00:00Z'')"
  "cp_secretValues (on_store scripted) = []"
  by (simp_all add: on_store_def scripted_def beside_store_def split: prod.splits)

lemma status_states: "js_upper ''succeeded'' = ''SUCCEEDED''" "js_upper ''failed'' = ''FAILED''"
  by code_simp+

lemmas run_simps = start_command_def dispatch_def started_def finish_command_def command_call_defs Let_def result_bindE world_bindE
  calls_bindE on_store_ports scripted_ports sample_command_ok sample_command_safe store_getByKey_def store_save_def
  authorized_record_def command_result_of_def command_outcome_def ranUnderDeadline_def slice_ends_def status_states

definition sample_start :: "nat \<Rightarrow> (command_store \<times> script, start_result option) command_eff" where
  "sample_start fuel = start_command fuel (\<lambda>_. ''digest'') (\<lambda>_. ''sum'') (on_store scripted) sample_sandbox_command ''d1'' True"

lemma sample_executes:
  "CC_Execute sample_sandbox_command \<in> set (eff_calls (sample_start 1) (Map.empty, [Inr (slice_ends False (Some 0))]))"
  by (simp add: sample_start_def run_simps)

definition sample_done :: command_record where
  "sample_done = (authorized_record (\<lambda>_. ''digest'') sample_sandbox_command ''2026-01-01T00:00:00Z'' ''2026-01-01T00:00:00Z'')
     \<lparr>cr_state := ''SUCCEEDED'', cr_providerRefs := [''pc-1'']\<rparr>"

lemma sample_success:
  "cr_state sample_done = ''SUCCEEDED''" "CC_Save sample_done \<in> set (eff_calls (sample_start 1) (Map.empty, [Inr (slice_ends False (Some 0))]))"
  by (simp_all add: sample_start_def sample_done_def run_simps)

theorem execution_needs_authorization_witness:
  "assertSafeArgv sample_sandbox_command = None \<and> ''d1'' = sc_actionDecisionId sample_sandbox_command"
  using execution_needs_authorization [of sample_sandbox_command 1 "\<lambda>_. ''digest''" "\<lambda>_. ''sum''" "on_store scripted" sample_sandbox_command
      "''d1''" True "(Map.empty, [Inr (slice_ends False (Some 0))])"] sample_executes
  by (simp only: sample_start_def)

theorem success_is_an_observed_exit_witness:
  "\<exists>pid cursor slice. answers (cp_stream (on_store scripted) cursor pid) (Inr slice) \<and> sl_exitCode slice = Some 0"
  using success_is_an_observed_exit [OF sample_success(2) [unfolded sample_start_def] sample_success(1)] by blast

theorem start_returns_when_process_ends_witness:
  "\<exists>n. \<forall>fuel \<ge> n. eff_result (sample_start fuel) (Map.empty, [Inr (slice_ends True None), Inr (slice_ends False (Some 0))]) \<noteq> Inr None"
  unfolding sample_start_def
  by (rule start_returns_when_process_ends [where rank = "\<lambda>w. length (snd w)"]) (auto simp: scripted_ports split: list.splits)

text \<open>
  The deadline is never enforced, though the runner is documented to run each command under a mandatory
  one: a process that keeps running is followed for ever, whatever the command's timeout, here of one
  millisecond.
\<close>

definition hanging :: "unit command_ports" where
  "hanging =
     \<lparr>cp_execute = \<lambda>c w. (w, Inr (Inr ''pc-1'')), cp_stream = \<lambda>n i w. (w, Inr (Inr (slice_ends True None))),
      cp_inspect = \<lambda>w. (w, Inr (Inr True)), cp_terminate = \<lambda>i w. (w, Inr (Inr True)),
      cp_getByKey = \<lambda>k w. (w, Inr None), cp_save = \<lambda>r w. (w, Inr ()), cp_emit = \<lambda>t i w. (w, Inr ()),
      cp_nowIso = \<lambda>w. (w, ''2026-01-01T00:00:00Z''), cp_secretValues = []\<rparr>"

lemma hanging_stream: "eff_result (follow_stream n hanging pid cursor f) w = Inr None"
  by (induction n arbitrary: cursor f) (simp_all add: result_bindE world_bindE hanging_def slice_ends_def Let_def)

theorem deadline_is_never_enforced:
  "sc_timeoutMs sample_sandbox_command = 1 \<and>
   eff_result (start_command fuel sha256 v hanging sample_sandbox_command ''d1'' True) () = Inr None"
proof -
  have p: "cp_getByKey hanging k w = (w, Inr None)" "cp_save hanging r w = (w, Inr ())" "cp_emit hanging t i w = (w, Inr ())"
    "cp_nowIso hanging w = (w, ''2026-01-01T00:00:00Z'')" "cp_execute hanging c w = (w, Inr (Inr ''pc-1''))" for k w r t i c
    by (simp_all add: hanging_def)
  then show ?thesis
    by (simp add: start_command_def dispatch_def started_def command_call_defs Let_def result_bindE world_bindE sample_command_ok sample_command_safe
        hanging_stream) (simp add: sample_sandbox_command_def)
qed

text \<open>
  A stream that breaks off says nothing about the process, but the command is recorded as FAILED and the caller is told
  that the start succeeded; only an unknown start is left to reconciliation.
\<close>
theorem lost_stream_is_recorded_as_failure:
  "eff_result (sample_start 1) (Map.empty, [Inl P_TIMEOUT]) = Inr (Some (Start_ok ''pc-1'')) \<and>
   map_option cr_state (fst (eff_world (sample_start 1) (Map.empty, [Inl P_TIMEOUT])) (commandIdempotencyKey ''c1'' 0)) = Some ''FAILED''"
  by (simp add: sample_start_def run_simps)

text \<open>
  The last save of a start overwrites what happened meanwhile.  Here the command is cancelled while its
  stream is awaited: the cancellation is confirmed, and the record ends as FAILED.
\<close>

definition cancelled_meanwhile :: "(command_store \<times> script) command_ports" where
  "cancelled_meanwhile = (on_store scripted)
     \<lparr>cp_stream := \<lambda>n i w. (eff_world (cancel_sandbox_command (on_store scripted) ''c1'' 0) w, Inr (Inr (slice_ends False None)))\<rparr>"

definition running_store :: command_store where
  "running_store = [commandIdempotencyKey ''c1'' 0 \<mapsto>
     (authorized_record (\<lambda>_. ''digest'') sample_sandbox_command ''2026-01-01T00:00:00Z'' ''2026-01-01T00:00:00Z'')
       \<lparr>cr_state := ''RUNNING'', cr_providerRefs := [''pc-1'']\<rparr>]"

lemma sample_cancel:
  "eff_result (cancel_sandbox_command (on_store scripted) ''c1'' 0) (running_store, []) = Inr Cancelled"
  by (simp add: cancel_sandbox_command_def cancel_running_def running_store_def run_simps terminal_name_def COMMAND_TERMINALS_def)

theorem cancellation_is_overwritten:
  "eff_result (cancel_sandbox_command (on_store scripted) ''c1'' 0) (running_store, []) = Inr Cancelled \<and>
   map_option cr_state (fst (eff_world (start_command 1 (\<lambda>_. ''digest'') (\<lambda>_. ''sum'') cancelled_meanwhile sample_sandbox_command ''d1'' True)
     (Map.empty, [])) (commandIdempotencyKey ''c1'' 0)) = Some ''FAILED''"
  by (rule conjI [OF sample_cancel])
    (simp add: cancelled_meanwhile_def run_simps cancel_sandbox_command_def cancel_running_def terminal_name_def COMMAND_TERMINALS_def)

text \<open>A confirmed cancellation: the provider terminated the process and saw that it no longer runs.\<close>

lemma cancelled_means_stopped:
  assumes "eff_result (cancel_sandbox_command ports i g) w = Inr Cancelled"
  shows "\<exists>r pid. answers (cp_getByKey ports (commandIdempotencyKey i g)) (Some r) \<and> cr_state r = ''RUNNING'' \<and>
    answers (cp_terminate ports pid) (Inr True) \<and> answers (cp_inspect ports) (Inr False)"
proof -
  let ?key = "commandIdempotencyKey i g"
  from assms obtain r where r: "snd (cp_getByKey ports ?key w) = Inr (Some r)" "cr_state r = ''RUNNING''"
    and c: "eff_result (cancel_running ports i r) (fst (cp_getByKey ports ?key w)) = Inr Cancelled"
    by (auto simp: cancel_sandbox_command_def Let_def result_bindE eff_if split: sum.splits option.splits if_splits)
  let ?pid = "case cr_providerRefs r of [] \<Rightarrow> None | p # _ \<Rightarrow> Some p"
  let ?w = "fst (cp_getByKey ports ?key w)"
  from c have "snd (cp_terminate ports ?pid ?w) = Inr (Inr True) \<and>
      snd (cp_inspect ports (fst (cp_terminate ports ?pid ?w))) = Inr (Inr False)"
    by (auto simp: cancel_running_def Let_def result_bindE eff_if split: sum.splits if_splits)
  with r show ?thesis by (blast intro: answersI)
qed

text \<open>
  The states recorded do not follow the command's transition table: no trigger leads from AUTHORIZED, the
  state saved before the dispatch, to RUNNING, the state saved after it.
\<close>

lemma recorded_states_skip_the_table: "resolveCommandEdge Cmd_AUTHORIZED t \<noteq> Edge_to Cmd_RUNNING"
  by (cases t) (simp_all add: resolveCommandEdge_def resolve_table_def COMMAND_TERMINALS_def)

end
