(* ===== verification/Spec2Isabelle.thy ===== *)
theory Spec2Isabelle
  imports
    Evaluation_Service
    Action_Catalog
    Safety
    Approval_FSM
    Approval_Validity
    Approval_Resolution
    Approval_Execution
    Approval_Resume
    Approval_Store
    Approval_Durable
    Canonical_Json
    Idempotency
    Workspace_FSM
    Run_Command_FSM
    Validation_Gates
    Risk_Classification
    Queue_Transport
    Worker_Runtime
    Outbox
    Authorization
    Tool_Gateway
    Workspace_Manager
    Workflow_Executor
    Workflow_Validation
    Outbox_Publish
    Webhook_Processing
    Command_Analyzer
    Agent_Sessions
    Login_Service
    Command_Runner
begin

text \<open>
  DevGuard is a policy gateway between coding agents and the repositories they change.  Work enters
  as a launch from the web, the command line, a schedule or a GitHub comment.  A comment arrives as
  a signed webhook, is stored in a delivery ledger together with an outbox event, published as a job,
  claimed by a worker, parsed and authorized, and submitted to the command bus, which stores a run and
  its event in one transaction.  Steps of a run are executed under resource locks in verified
  workspaces.  When an agent proposes an action, it is looked up in a catalogue, classified by risk,
  restricted by safety rules and the run's autonomy level, checked against validation gates, and decided ALLOW,
  REQUIRE_APPROVAL or DENY by a deterministic evaluator.
  A decision that requires approval becomes a persisted approval bound to fingerprints of the
  action and its context; a human resolves it; a worker executes it once behind a chain of
  gates; the outcome is fed back to the suspended run.  Workspaces, commands, runs and steps have
  lifecycles of their own, and requests are deduplicated by idempotency records.  Paths below
  are relative to \<open>src/packages\<close> unless they start with \<open>apps\<close>.

  \<^bold>\<open>How the code is modelled.\<close>  Interfaces and object literals are records, string unions are
  datatypes with the source's members, optional fields are options (\<open>None\<close> is undefined).  Pure
  functions are HOL functions.  Asynchronous methods are values of the effect type of
  \<open>Port_Effects\<close>: a function from the world to the list of port calls made, the world
  afterwards, and either an error or a result; \<open>bindE\<close> is await, \<open>throwE\<close> a raise, \<open>catchE\<close> a
  try/catch and \<open>swallowE\<close> a catch that ignores.  Every port is a parameter that may answer
  anything, throw, and change the world, so the theorems hold for every implementation, and
  a theorem that needs a particular port states it.  Numbers that the code compares or counts
  are integers (clock readings, versions, sequence numbers).  Time is an argument where the code
  reads a clock once.

  \<^bold>\<open>Parameters.\<close>  SHA-256, HMAC, \<open>JSON.parse\<close>, UTF-8 decoding, Unicode NFC, \<open>localeCompare\<close>, date formatting
  and identifier generators are
  not code of the repository and are arguments of the definitions; a collision hypothesis is
  stated where a digest must identify its input.  The random source of the backoff is a rational
  in the unit interval.  SQL statements are functions on lists of rows
  with the constraints of the migrations they rely on; the row locks and transactions of the
  database appear as the order in which operations are serialized.

  \<^bold>\<open>Theories.\<close>

  \<^item> \<open>DG_Prelude\<close>: list, option and map lemmas, JavaScript library functions the code uses
    (duplicate-free sets in insertion order, stable sorting by a comparator, code-unit order), the
    generic runner \<open>fsm_run\<close> for transition functions, and the locales \<open>lifecycle\<close> and
    \<open>ranked_lifecycle\<close> with the lemmas on terminal states and bounded runs, which the four state
    machines interpret.
  \<^item> \<open>Policy_Contracts\<close>: the vocabularies of \<open>contracts/src/policy.ts\<close>, effects and risks as linear
    orders.
  \<^item> \<open>Precedence\<close>: \<open>policy-engine/src/evaluator/precedence.ts\<close>, stage by stage: dimension check, deny
    stages with their early return, floors, gates, approval, explicit allow, defaults,
    finalisation, and the merge with a run snapshot.  \<open>precedence_spec\<close> is the closed-form
    specification; the evaluator refines it, is monotone, and an ALLOW carries its justification.
  \<^item> \<open>Evaluation_Service\<close>: \<open>evaluator/service.ts\<close>: fingerprints, evaluation records, persistence before
    return, dispatch tokens.
  \<^item> \<open>Action_Catalog\<close>, \<open>Safety\<close>: \<open>actions/catalog.ts\<close>, \<open>safety/catalog.ts\<close>, \<open>safety/service.ts\<close>: every
    action definition and alias, the global rules, the autonomy profiles, the service constructor
    with its integrity gate, and the restriction queries; the emitted restrictions are
    characterised by \<open>safety_spec\<close>.
  \<^item> \<open>Approval_FSM\<close>: \<open>approvals/src/domain/approval-fsm.ts\<close>: edge table, guards and resolver; an inductive
    step relation is shown equal to it and the runs reaching EXECUTED are described completely.
  \<^item> \<open>Approval_Validity\<close>, \<open>Approval_Resolution\<close>, \<open>Approval_Execution\<close>, \<open>Approval_Resume\<close>: the services of
    \<open>approvals/src/application\<close> (\<open>validity.ts\<close>, \<open>resolution.ts\<close>, \<open>execution.ts\<close>, \<open>resume-sync.ts\<close>) over
    arbitrary ports: which calls can be made, in which order, after which answers, and what each
    answer to the caller implies.
  \<^item> \<open>Versioned_Store\<close>: the locale of a store whose updates compare and advance a version, and
    what follows for any serialization of updates; \<open>Approval_Store\<close>: \<open>db/src/repositories/policy-approval.ts\<close>,
    which provides two interpretations of it (approval rows and policy heads), with the
    transition log, policy versions and activation; \<open>Approval_Durable\<close>: the resolution of approvals in
    \<open>apps/api/src/composition/container.ts\<close> as a transaction over this store and the outbox: each approval is
    decided once and resumed by one event, and what a refused resolution leaves behind.
  \<^item> \<open>Canonical_Json\<close>: \<open>approvals/src/fingerprint/canonical.ts\<close>: canonical text and its injectivity, by a
    parser that recovers the content.  \<open>Idempotency\<close>: \<open>db/src/reliability/idempotency.ts\<close>: leases,
    reclaim, replay.
  \<^item> \<open>Workspace_FSM\<close>, \<open>Run_Command_FSM\<close>: \<open>sandbox/src/workspaces/fsm.ts\<close>, \<open>workflows/src/runs/fsm.ts\<close>,
    \<open>sandbox/src/commands/command-fsm.ts\<close>.
  \<^item> \<open>Risk_Classification\<close>, \<open>Validation_Gates\<close>: \<open>policy-engine/src/classification\<close> and
    \<open>policy-engine/src/validation-gates\<close>: the risk lattice and every deployed rule with its closed form; the
    merge algebra of obligations, their assessment and the gate, which waives nothing.
  \<^item> \<open>Invocation\<close>: \<open>policy-engine/src/invocation\<close>: the workflow registry, trigger matching (independent of
    the order of the rules, accounting for each of them) and manual authorization.
  \<^item> \<open>Queue_Transport\<close>, \<open>Worker_Runtime\<close>: \<open>queue/src/envelope.ts\<close>, \<open>retry.ts\<close>, \<open>runtime.ts\<close>: job envelopes,
    backoff, the in-memory transport with its leases, and the runtime's passes over it: a claim is
    exclusive while the lease is honoured, a job leaves the queue only by being settled, and a failing job
    alone on the transport is dead-lettered at its ceiling.
  \<^item> \<open>Outbox\<close>, \<open>Outbox_Publish\<close>: \<open>db/src/reliability/outbox.ts\<close> and \<open>apps/worker/src/composition/outbox-publish.ts\<close>:
    the outbox table, another interpretation of the versioned store, and the pass that turns its events
    into jobs, alone and among the statements of other connections.
  \<^item> \<open>Authorization\<close>: \<open>authorization/src\<close>: the capability catalogue and the service over its ports.
    \<open>Tool_Gateway\<close>: \<open>agent/src/policy-gateway\<close>: argument normalization, intents, interception of tool calls.
  \<^item> \<open>Command_Analyzer\<close>: \<open>policy-engine/src/commands/analyzer.ts\<close>: tokenizer, shell analysis, structural
    rules and classes: when a command counts as known, that quoting is transparent, and the destructive
    commands no rule sees.
  \<^item> \<open>Agent_Lifecycle\<close>, \<open>Agent_Store\<close>, \<open>Agent_Sessions\<close>: \<open>agent/src/sessions\<close> and
    \<open>db/src/repositories/agent-execution.ts\<close>: the state machines, event normalizer and context digests; the
    two tables, interpretations of the versioned store, with one active turn per session; the session
    service over arbitrary ports, whose provider calls are fenced and made once.
  \<^item> \<open>Login_Store\<close>, \<open>Login_Service\<close>: \<open>db/src/repositories/auth-sessions.ts\<close>, \<open>api-tokens.ts\<close> and \<open>auth/src\<close>: the tables
    of sessions, login transactions, identities and API tokens, another interpretation of the versioned store;
    the authentication and token services: a session needs a spent transaction, a revoked one is dead, and a
    logout can be lost to a refresh.
  \<^item> \<open>Command_Output\<close>, \<open>Command_Runner\<close>: \<open>sandbox/src/commands\<close>: the output normalizer, out of which no
    redactable secret comes, and the runner with its contracts and identities: what is executed was authorized,
    once per command and generation, success is an observed exit code, and no deadline is enforced.
  \<^item> \<open>Workspace_Checkout\<close>, \<open>Workspace_Manager\<close>: \<open>sandbox/src/workspaces\<close>: selectors, capability gate, checkout
    plans, verification and fences; create, inspect, renew and destroy: every change is fenced and is an edge of
    the lifecycle of \<open>Workspace_FSM\<close>.  Fence checks are listed among the calls; the properties that list the
    effects leave them and the events out.
  \<^item> \<open>Workflow_Executor\<close>, \<open>Workflow_Validation\<close>: \<open>workflows/src/executor/executor.ts\<close> with its lock table, where
    the acquisitions of one execution follow each other without another execution in between, and
    \<open>workflows/src/validation/aggregator.ts\<close>, with the case in which success is claimed without evidence.
  \<^item> \<open>Command_Bus\<close>: \<open>workflows/src/commands/command-bus.ts\<close> and its two persistence adapters
    (\<open>apps/api\<close>, \<open>apps/worker\<close>), as transactions on the run table and the outbox: each run has its event,
    and a repeated request is executed once; the creation time in the receipt is left out.
  \<^item> \<open>Comment_Commands\<close>: \<open>workflows/src/commands/\<close>\<open>issue-comment-event.ts\<close>, \<open>github-comment-parser.ts\<close>,
    \<open>comment-command-service.ts\<close>: the grammar of comments and the service, alone and composed with the bus.
  \<^item> \<open>Webhook_Delivery\<close>, \<open>Webhook_Processing\<close>: the webhook route of \<open>apps/api\<close>, durable acceptance, the ledger
    \<open>db/src/repositories/webhook-delivery.ts\<close>, the processing service \<open>queue/src/jobs/job-processing.ts\<close> and the
    worker's handler: what is accepted was signed and is announced once, and a comment is answered once.
  \<^item> This theory: the properties that span components, namely the evaluator on the restrictions of
    the safety service and on the classifier and the gates.

  \<^bold>\<open>Bounds.\<close>  Loops are structural recursion over the lists the code iterates.  The one exception is the
  stream loop of the command runner, which the code does not bound: it takes fuel, running out of it is a
  value of its own, and enough of it is shown to exist when the process ends.  Characters are the 256 of HOL, so strings are sequences of code units below 256 (command output is a list of code points);
  canonical JSON is restricted to integers among the finite numbers, since printing of floats
  is the language's own.  Regular expressions are written out as bool-valued functions.

  \<^bold>\<open>Not modelled.\<close>  HTTP and provider clients, the third-party queue and database transports,
  configuration, log lines, the web and command-line front ends, and most of the composition
  roots: input/output and glue over third-party libraries.  Zod schemas are modelled where the code relies
  on what they refuse.
  Left in the plan: the tool registry, policy documents (schema, semantic validation, versions),
  approval creation, workflow definitions, the security content services and the other job handlers
  of the worker.
\<close>

section \<open>The evaluator on the restrictions of the safety service\<close>

text \<open>
  An evaluation input whose safety fields were filled from the restrictions the safety service
  derives for the action at the run's autonomy level.
\<close>

definition fed_by_safety ::
  "(string \<Rightarrow> string \<Rightarrow> int) \<Rightarrow> safety_service \<Rightarrow> autonomy_level \<Rightarrow> classified_action \<Rightarrow> evaluation_input \<Rightarrow> bool" where
  "fed_by_safety lc svc l c i \<longleftrightarrow>
     globalDenyMatch i = Some (strongest_restriction (globalRestrictions lc svc c) = DENY) \<and>
     globalApprovalFloorMatch i = Some (strongest_restriction (globalRestrictions lc svc c) = REQUIRE_APPROVAL) \<and>
     ceilingEffect i = Some (strongest_restriction (autonomyRestrictions lc l c))"

lemma restrictionsFor_split:
  "strongest_restriction (restrictionsFor lc svc l c) =
     max (strongest_restriction (globalRestrictions lc svc c)) (strongest_restriction (autonomyRestrictions lc l c))"
  by (auto simp: strongest_restriction_cases restrictionsFor_def effect_max_simps)

text \<open>
  Property C7.  Safety cannot be out-voted: on inputs fed from the safety service, the decision is
  at least as strict as the strongest restriction of the service whatever repository policy, risk,
  context and gates say; an exact approval can satisfy an approval floor but never a denial.
\<close>

theorem evaluator_respects_safety:
  assumes "fed_by_safety lc svc l c i"
  shows "(if exactValidApprovalPresent i then strongest_restriction (restrictionsFor lc svc l c) = DENY \<longrightarrow>
            effect (evaluatePrecedence lc i) = DENY
          else strongest_restriction (restrictionsFor lc svc l c) \<le> effect (evaluatePrecedence lc i))"
proof -
  let ?a = "strongest_restriction (globalRestrictions lc svc c)" and ?b = "strongest_restriction (autonomyRestrictions lc l c)"
  have fields: "globalDenyMatch i = Some (?a = DENY)" "globalApprovalFloorMatch i = Some (?a = REQUIRE_APPROVAL)"
    "ceilingEffect i = Some ?b" using assms by (simp_all add: fed_by_safety_def)
  have deny: "precedence_spec i = DENY" if "?a = DENY \<or> ?b = DENY"
    using that fields by (auto simp: precedence_spec_def hard_deny_def)
  have floor: "REQUIRE_APPROVAL \<le> precedence_spec i"
    if "?a = REQUIRE_APPROVAL \<or> ?b = REQUIRE_APPROVAL" "\<not> exactValidApprovalPresent i"
    using that fields by (auto simp: precedence_spec_def approval_floor_def less_eq_decision_effect_def)
  show ?thesis unfolding restrictionsFor_split evaluate_effect
    using deny floor by (cases ?a; cases ?b) (auto simp: effect_max_simps less_eq_decision_effect_def)
qed

definition delete_action :: classified_action where
  "delete_action =
     \<lparr>c_actionId = ''repository_delete'', c_targetsProtectedBranch = None, c_mergesProtectedBranch = None\<rparr>"

theorem evaluator_respects_safety_witness:
  "effect (evaluatePrecedence js_compare
     (sample_input\<lparr>globalDenyMatch := Some True, globalApprovalFloorMatch := Some False, ceilingEffect := Some DENY\<rparr>)) = DENY"
proof -
  let ?i = "sample_input\<lparr>globalDenyMatch := Some True, globalApprovalFloorMatch := Some False, ceilingEffect := Some DENY\<rparr>"
  have d: "c_actionId delete_action \<in> set DENY_ALL_LEVELS_ACTIONS"
    "c_actionId delete_action \<in> set (deniedActions (AUTONOMY_PROFILES Trusted))"
    by (simp_all add: delete_action_def DENY_ALL_LEVELS_ACTIONS_def AUTONOMY_PROFILES_def)
  have s: "strongest_restriction (globalRestrictions js_compare (safety_of (\<lambda>_. [])) delete_action) = DENY"
    "strongest_restriction (autonomyRestrictions js_compare Trusted delete_action) = DENY"
    unfolding strongest_restriction_cases mem_globalRestrictions mem_autonomyRestrictions using d by simp_all
  have "fed_by_safety js_compare (safety_of (\<lambda>_. [])) Trusted delete_action ?i"
    by (simp add: fed_by_safety_def s)
  from evaluator_respects_safety [OF this] show ?thesis
    by (simp add: restrictionsFor_split s effect_max_simps sample_input_def)
qed

section \<open>The evaluator on the classifier and the validation gates\<close>

text \<open>
  An evaluation input whose risk class is the effective risk of the deployed classifier (an
  unknown risk is a missing dimension), and one whose gate fields report the outcome of a required
  validation gate.
\<close>

definition known_risk :: "effective_risk \<Rightarrow> risk_class option" where
  "known_risk r = (case r of Known_risk k \<Rightarrow> Some k | Unknown_risk \<Rightarrow> None)"

definition fed_by_classifier ::
  "(json \<Rightarrow> string) \<Rightarrow> (string \<Rightarrow> string \<Rightarrow> int) \<Rightarrow> risk_class \<Rightarrow> action_context \<Rightarrow> evaluation_input \<Rightarrow> bool" where
  "fed_by_classifier sha lc b c i \<longleftrightarrow>
     riskClass i = known_risk (effectiveRisk (classify sha lc b c (CONTEXT_RISK_RULES lc)))"

definition fed_by_gate ::
  "(json \<Rightarrow> string) \<Rightarrow> (string \<Rightarrow> string \<Rightarrow> int) \<Rightarrow> validation_obligation list \<Rightarrow> gate_context \<Rightarrow>
   validation_evidence list \<Rightarrow> int \<Rightarrow> evaluation_input \<Rightarrow> bool" where
  "fed_by_gate sha lc gl ctx evidence t i \<longleftrightarrow>
     gateRequired i \<and> gateSatisfied i = Some (go_status (evaluate_gate sha lc gl ctx evidence t) = SATISFIED)"

lemma allow_unattended:
  assumes "effect (evaluatePrecedence lc i) = ALLOW" and "\<not> explicitAllowMatch i" and "\<not> exactValidApprovalPresent i"
  shows "low_risk (riskClass i)" and "\<not> gate_open i"
  using assms by (simp_all add: evaluate_effect precedence_spec_def split: if_splits)

lemma deployed_risk_low:
  "low_risk (Some (deployed_risk b c)) \<longleftrightarrow>
     b \<in> {Read, Reversible_write} \<and> \<not> destroys c \<and> \<not> reaches_outside c \<and> \<not> touches_guarded c"
  by (cases b) (simp_all add: deployed_risk_def)

text \<open>
  Property C8.  Nothing dangerous runs unattended: an action allowed with neither an explicit
  grant nor an approval has a baseline of at most a reversible write and neither destroys, nor
  reaches a production or external target, nor touches a protected branch, sensitive path or
  more than fifty paths; and every global obligation that applies to its gate has trusted passing
  evidence for its target that is younger than the obligation allows.
\<close>

theorem unattended_action_is_harmless_and_validated:
  assumes "effect (evaluatePrecedence lc i) = ALLOW" and "\<not> explicitAllowMatch i" and "\<not> exactValidApprovalPresent i"
    and "fed_by_classifier sha lc b c i" and "fed_by_gate sha lc gl ctx evidence t i" and "consistent_cmp lc"
  shows "b \<in> {Read, Reversible_write} \<and> \<not> destroys c \<and> \<not> reaches_outside c \<and> \<not> touches_guarded c \<and>
    (\<forall>ob\<in>set gl. gateKind ctx \<in> set (applicableGates ob) \<longrightarrow>
       (\<exists>e\<in>set evidence. ev_validatorId e = ob_validatorId ob \<and> ev_status e = Ev_PASSED \<and>
          ev_provenance e \<in> set TRUSTED_PROVENANCE \<and> t - producedAtMs e < 1000 * maxAgeSeconds ob \<and>
          (requireTargetFingerprint ob \<longrightarrow> ev_targetFingerprint e = gc_targetFingerprint ctx)))"
proof -
  from allow_unattended(1) [OF assms(1-3)] assms(4)
  have "low_risk (Some (deployed_risk b c))" by (simp add: fed_by_classifier_def known_risk_def deployed_effective)
  moreover from allow_unattended(2) [OF assms(1-3)] assms(5)
  have "go_status (evaluate_gate sha lc gl ctx evidence t) = SATISFIED"
    by (simp add: gate_open_def fed_by_gate_def)
  note gate = satisfied_gate_deciding [OF this assms(6)]
  have "\<exists>e\<in>set evidence. satisfying ctx t ob e"
    if "ob \<in> set gl" "gateKind ctx \<in> set (applicableGates ob)" for ob
    using gate [of ob] that by (auto simp: deciding_def)
  ultimately show ?thesis unfolding deployed_risk_low by (fastforce simp: satisfying_def gate_bound_def)
qed

definition calm_context :: action_context where
  "calm_context = sample_context\<lparr>ac_target := (ac_target sample_context)\<lparr>td_environment := Some Env_sandbox\<rparr>\<rparr>"

definition calm_input :: evaluation_input where
  "calm_input = sample_input
     \<lparr>riskClass := Some Reversible_write, globalApprovalFloorMatch := Some False, ceilingEffect := Some ALLOW,
      exactValidApprovalPresent := False, mergesProtectedBranch := Some False\<rparr>"

theorem unattended_action_is_harmless_and_validated_witness:
  "effect (evaluatePrecedence js_compare calm_input) = ALLOW \<and> \<not> destroys calm_context \<and>
   (\<exists>e\<in>set sample_evidences. ev_validatorId e = ''typecheck'' \<and> ev_status e = Ev_PASSED)"
proof -
  have a: "effect (evaluatePrecedence js_compare calm_input) = ALLOW"
    by (simp add: evaluate_effect calm_input_def sample_simps)
  have n: "\<not> explicitAllowMatch calm_input" "\<not> exactValidApprovalPresent calm_input"
    by (simp_all add: calm_input_def sample_input_def)
  have "deployed_risk Reversible_write calm_context = Reversible_write"
    by (simp add: deployed_risk_def calm_context_def sample_context_def destroys_def reaches_outside_def
        touches_guarded_def operation_paths_def)
  then have c: "fed_by_classifier (\<lambda>_. []) js_compare Reversible_write calm_context calm_input"
    by (simp add: fed_by_classifier_def deployed_effective known_risk_def calm_input_def)
  have g: "fed_by_gate (\<lambda>_. []) js_compare DEFAULT_OBLIGATIONS sample_gate sample_evidences 10 calm_input"
    by (simp add: fed_by_gate_def sample_gate_satisfied calm_input_def sample_input_def)
  have ob: "sample_obligation ''typecheck'' \<in> set DEFAULT_OBLIGATIONS"
    "gateKind sample_gate \<in> set (applicableGates (sample_obligation ''typecheck''))"
    by (simp_all add: DEFAULT_OBLIGATIONS_def sample_gate_def sample_obligation_def changeset_obligation_def)
  from unattended_action_is_harmless_and_validated [OF a n c g consistent_js_compare] ob a show ?thesis
    by (force simp: sample_obligation_def changeset_obligation_def)
qed

end
